(* ===== verification/GoPrelude.thy ===== *)
theory GoPrelude
  imports Main "HOL-Library.Word" "HOL-Library.AList"
begin

text \<open>
  Prelude of the development: the parts of the Go language that every component relies on.
  It holds the outcome type of a Go call (a value, a panic, or a process exit), signed
  64-bit arithmetic on \<^typ>\<open>int\<close> with the wrap-around written out, Go's truncated division,
  slicing with its bounds check, decimal formatting, and the lemma collections the component
  theories pass to the simplifier.
\<close>

unbundle bit_operations_syntax

named_theorems go_simps \<open>unfolding of the outcome combinators and of the Go primitives\<close>
named_theorems i64_simps \<open>rewriting of wrapped signed 64-bit arithmetic\<close>

section \<open>Outcomes\<close>

text \<open>
  A Go call returns a value, panics with a message, or ends the process through
  \<open>util.Fatalf\<close>, \<open>util.Fatal\<close> or \<open>os.Exit\<close>. A loop without a bound of its own is modelled with fuel;
  \<open>Hang\<close> says that it has not returned within the fuel. Go error values are ordinary values, so a function
  that returns \<open>(T, error)\<close> has an outcome over a sum whose left side is the error.
\<close>

datatype 'a go = Ret 'a | Panic string | Exit string | Hang

fun gbind :: "'a go \<Rightarrow> ('a \<Rightarrow> 'b go) \<Rightarrow> 'b go" where
  "gbind (Ret a) f = f a"
| "gbind (Panic s) f = Panic s"
| "gbind (Exit s) f = Exit s"
| "gbind Hang f = Hang"

fun returns :: "'a go \<Rightarrow> bool" where
  "returns (Ret a) = True"
| "returns (Panic s) = False"
| "returns (Exit s) = False"
| "returns Hang = False"

type_synonym error = string
type_synonym byte = "8 word"
type_synonym u64 = "64 word"
type_synonym 'v smap = "(string \<times> 'v) list"

lemma gbind_cong [fundef_cong]:
  "m = m' \<Longrightarrow> (\<And>a. m' = Ret a \<Longrightarrow> f a = f' a) \<Longrightarrow> gbind m f = gbind m' f'"
  by (cases m') auto

lemma gbind_eq_Ret_iff [go_simps]:
  "gbind m f = Ret b \<longleftrightarrow> (\<exists>a. m = Ret a \<and> f a = Ret b)"
  by (cases m) auto

lemma gbind_assoc [go_simps]: "gbind (gbind m f) g = gbind m (\<lambda>a. gbind (f a) g)"
  by (cases m) auto

lemma gbind_Ret_right [simp]: "gbind m Ret = m"
  by (cases m) auto

lemma returns_iff: "returns m \<longleftrightarrow> (\<exists>a. m = Ret a)"
  by (cases m) auto

lemma returns_gbind [go_simps]:
  "returns (gbind m f) \<longleftrightarrow> (\<exists>a. m = Ret a \<and> returns (f a))"
  by (cases m) auto

text \<open>The idiom \<open>if err != nil { return err }\<close>: go on with the value, or return the error.\<close>

fun ebind :: "('e + 'a) go \<Rightarrow> ('a \<Rightarrow> ('e + 'b) go) \<Rightarrow> ('e + 'b) go" where
  "ebind (Ret (Inr a)) f = f a"
| "ebind (Ret (Inl e)) f = Ret (Inl e)"
| "ebind (Panic s) f = Panic s"
| "ebind (Exit s) f = Exit s"
| "ebind Hang f = Hang"

lemma ebind_eq_Inr_iff [go_simps]:
  "ebind m f = Ret (Inr b) \<longleftrightarrow> (\<exists>a. m = Ret (Inr a) \<and> f a = Ret (Inr b))"
  by (cases "(m, f)" rule: ebind.cases) auto

lemma ebind_eq_Inl_iff [go_simps]:
  "ebind m f = Ret (Inl e) \<longleftrightarrow> m = Ret (Inl e) \<or> (\<exists>a. m = Ret (Inr a) \<and> f a = Ret (Inl e))"
  by (cases "(m, f)" rule: ebind.cases) auto

lemma returns_ebind [go_simps]:
  "returns (ebind m f) \<longleftrightarrow> returns m \<and> (\<forall>a. m = Ret (Inr a) \<longrightarrow> returns (f a))"
  by (cases "(m, f)" rule: ebind.cases) auto

section \<open>Signed 64-bit integers\<close>

text \<open>
  An \<open>int64\<close> of the source is an \<^typ>\<open>int\<close> in the range \<open>in_i64\<close>; the result of every addition,
  subtraction, multiplication or negation that may leave the range is wrapped by \<open>i64\<close>,
  two's complement truncation to 64 bits.
\<close>

definition i64 :: "int \<Rightarrow> int" where
  "i64 x = signed_take_bit 63 x"

definition in_i64 :: "int \<Rightarrow> bool" where
  "in_i64 x \<longleftrightarrow> - (2 ^ 63) \<le> x \<and> x < 2 ^ 63"

definition minInt64 :: int where
  "minInt64 = - (2 ^ 63)"

definition maxInt64 :: int where
  "maxInt64 = 2 ^ 63 - 1"

lemma i64_id [i64_simps]: "in_i64 x \<Longrightarrow> i64 x = x"
  by (simp add: in_i64_def i64_def signed_take_bit_int_eq_self)

lemma in_i64_i64 [simp]: "in_i64 (i64 x)"
  unfolding in_i64_def i64_def
  using signed_take_bit_int_greater_eq_minus_exp [of 63 x] signed_take_bit_int_less_exp [of 63 x]
  by simp

lemma i64_idem [simp]: "i64 (i64 x) = i64 x"
  by (simp add: i64_id)

lemma i64_eq_mod: "i64 x = (x + 2 ^ 63) mod 2 ^ 64 - 2 ^ 63"
  by (simp add: i64_def signed_take_bit_eq_take_bit_shift take_bit_eq_mod)

lemma i64_add_left [i64_simps]: "i64 (i64 a + b) = i64 (a + b)"
  by (simp add: i64_eq_mod mod_simps algebra_simps)

lemma i64_add_right [i64_simps]: "i64 (a + i64 b) = i64 (a + b)"
  using i64_add_left [of b a] by (simp add: add.commute)

lemma i64_diff_left [i64_simps]: "i64 (i64 a - b) = i64 (a - b)"
  using i64_add_left [of a "- b"] by simp

text \<open>Go's integer division and remainder truncate towards zero.\<close>

definition go_div :: "int \<Rightarrow> int \<Rightarrow> int" where
  "go_div a b = sgn a * sgn b * (\<bar>a\<bar> div \<bar>b\<bar>)"

definition go_mod :: "int \<Rightarrow> int \<Rightarrow> int" where
  "go_mod a b = sgn a * (\<bar>a\<bar> mod \<bar>b\<bar>)"

lemma go_div_nonneg: "0 \<le> a \<Longrightarrow> 0 < b \<Longrightarrow> go_div a b = a div b"
  by (cases "a = 0") (auto simp: go_div_def)

lemma go_mod_nonneg: "0 \<le> a \<Longrightarrow> 0 < b \<Longrightarrow> go_mod a b = a mod b"
  by (cases "a = 0") (auto simp: go_mod_def)

lemma go_div_mod: "go_div a b * b + go_mod a b = a"
proof -
  have "\<bar>a\<bar> = (\<bar>a\<bar> div \<bar>b\<bar>) * \<bar>b\<bar> + \<bar>a\<bar> mod \<bar>b\<bar>" by simp
  then have "sgn a * \<bar>a\<bar> = sgn a * ((\<bar>a\<bar> div \<bar>b\<bar>) * \<bar>b\<bar> + \<bar>a\<bar> mod \<bar>b\<bar>)" by simp
  moreover have "sgn b * b = \<bar>b\<bar>" by (simp add: abs_sgn mult.commute)
  ultimately show ?thesis
    by (cases "a = 0") (simp_all add: go_div_def go_mod_def distrib_left algebra_simps abs_sgn)
qed

lemma go_mod_abs_less: "b \<noteq> 0 \<Longrightarrow> \<bar>go_mod a b\<bar> < \<bar>b\<bar>"
  by (auto simp: go_mod_def abs_mult abs_sgn_eq)

section \<open>Slices\<close>

text \<open>
  \<open>b[lo:]\<close> and \<open>b[:hi]\<close> panic when the bound is negative or past the end; indexing likewise.
\<close>

definition slice_from :: "'a list \<Rightarrow> int \<Rightarrow> 'a list go" where
  "slice_from xs lo =
     (if 0 \<le> lo \<and> lo \<le> int (length xs) then Ret (drop (nat lo) xs)
      else Panic ''slice bounds out of range'')"

definition slice_to :: "'a list \<Rightarrow> int \<Rightarrow> 'a list go" where
  "slice_to xs hi =
     (if 0 \<le> hi \<and> hi \<le> int (length xs) then Ret (take (nat hi) xs)
      else Panic ''slice bounds out of range'')"

definition go_index :: "'a list \<Rightarrow> int \<Rightarrow> 'a go" where
  "go_index xs i =
     (if 0 \<le> i \<and> i < int (length xs) then Ret (xs ! nat i)
      else Panic ''index out of range'')"

section \<open>Decimal formatting\<close>

text \<open>\<open>%d\<close> of \<open>fmt\<close>, \<open>strconv.FormatUint(_, 10)\<close>.\<close>

fun digits :: "nat \<Rightarrow> string" where
  "digits n = (if n < 10 then [char_of (48 + n)] else digits (n div 10) @ [char_of (48 + n mod 10)])"

declare digits.simps [simp del]

definition itoa :: "int \<Rightarrow> string" where
  "itoa i = (if i < 0 then CHR ''-'' # digits (nat (- i)) else digits (nat i))"

text \<open>The value of a digit string, the inverse used to show that formatting loses nothing.\<close>

definition undigits :: "string \<Rightarrow> nat" where
  "undigits s = foldl (\<lambda>n c. 10 * n + (of_char c - 48)) 0 s"

lemma undigits_snoc: "undigits (s @ [c]) = 10 * undigits s + (of_char c - 48)"
  by (simp add: undigits_def)

lemma undigits_digits [simp]: "undigits (digits n) = n"
proof (induction n rule: digits.induct)
  case (1 n)
  then show ?case
    by (subst digits.simps) (auto simp: undigits_snoc undigits_def [of "[_]"] of_char_of)
qed

end
