(* ===== verification/Float64.thy ===== *)
theory Float64
  imports GoPrelude Complex_Main
begin

text \<open>
  Go's \<open>float64\<close>: IEEE 754 binary64 with round-to-nearest-even, as far as the sources use it. A value
  is a real number, an infinity or \<open>NaN\<close>; every operation rounds its exact result. The two zeros
  are one value: no source expression divides by a zero of negative sign. The lemmas are the
  rounding laws the generators rely on: rounding is monotone, and exact on integers of at most
  53 bits.
\<close>

section \<open>Rounding\<close>

text \<open>\<open>ilog2 x\<close> is the exponent of the leading bit of a positive \<open>x\<close>.\<close>

function ilog2 :: "real \<Rightarrow> int" where
  "ilog2 x =
     (if x \<le> 0 then 0
      else if x < 1 then ilog2 (2 * x) - 1
      else if 2 \<le> x then ilog2 (x / 2) + 1
      else 0)"
  by pat_completeness auto
termination
proof (relation "measure (\<lambda>x. if x < 1 then nat \<lceil>1 / x\<rceil> else nat \<lfloor>x\<rfloor>)")
  fix x :: real
  assume x: "\<not> x \<le> 0" "x < 1"
  then have y: "1 < 1 / x" by simp
  have half: "\<lceil>z / 2\<rceil> < \<lceil>z\<rceil>" if "1 < z" for z :: real
  proof (cases "2 \<le> z")
    case False
    then have "\<lceil>z / 2\<rceil> \<le> 1" by (simp add: ceiling_le_iff)
    also have "1 < \<lceil>z\<rceil>" using that by (simp add: less_ceiling_iff)
    finally show ?thesis .
  qed linarith
  have "\<lceil>1 / (2 * x)\<rceil> < \<lceil>1 / x\<rceil>" using half [OF y] by (simp add: mult.commute)
  moreover have "\<lfloor>2 * x\<rfloor> < \<lceil>1 / x\<rceil>"
  proof -
    have "\<lfloor>2 * x\<rfloor> < 2" using x by (simp add: floor_less_iff)
    also have "2 \<le> \<lceil>1 / x\<rceil>" using y by (simp add: le_ceiling_iff)
    finally show ?thesis .
  qed
  ultimately show "(2 * x, x) \<in> measure (\<lambda>x. if x < 1 then nat \<lceil>1 / x\<rceil> else nat \<lfloor>x\<rfloor>)"
    using x by auto
next
  fix x :: real
  assume x: "\<not> x < 1" "2 \<le> x"
  then have "\<lfloor>x / 2\<rfloor> < \<lfloor>x\<rfloor>" "\<not> x / 2 < 1" "0 \<le> \<lfloor>x / 2\<rfloor>" by linarith+
  then show "(x / 2, x) \<in> measure (\<lambda>x. if x < 1 then nat \<lceil>1 / x\<rceil> else nat \<lfloor>x\<rfloor>)"
    using x by auto
qed simp

declare ilog2.simps [simp del]

text \<open>The exponent of the last place of a 53-bit significand, with gradual underflow.\<close>

definition ulp_exp :: "real \<Rightarrow> int" where
  "ulp_exp x = max (- 1074) (ilog2 \<bar>x\<bar> - 52)"

definition round_even :: "real \<Rightarrow> int" where
  "round_even y =
     (let f = \<lfloor>y\<rfloor>; d = y - of_int f
      in if d < 1 / 2 then f else if 1 / 2 < d then f + 1 else if even f then f else f + 1)"

definition rnd :: "real \<Rightarrow> real" where
  "rnd x = (if x = 0 then 0
            else of_int (round_even (x / 2 powi ulp_exp x)) * 2 powi ulp_exp x)"

section \<open>Values and operations\<close>

datatype float64 = Fin real | PosInf | NegInf | NaN

definition fl :: "real \<Rightarrow> float64" where
  "fl x = (let y = rnd x in
           if 2 ^ 1024 \<le> y then PosInf else if y \<le> - (2 ^ 1024) then NegInf else Fin y)"

fun fneg :: "float64 \<Rightarrow> float64" where
  "fneg (Fin a) = Fin (- a)"
| "fneg PosInf = NegInf"
| "fneg NegInf = PosInf"
| "fneg NaN = NaN"

fun fadd :: "float64 \<Rightarrow> float64 \<Rightarrow> float64" where
  "fadd (Fin a) (Fin b) = fl (a + b)"
| "fadd NaN _ = NaN"
| "fadd _ NaN = NaN"
| "fadd PosInf NegInf = NaN"
| "fadd NegInf PosInf = NaN"
| "fadd PosInf _ = PosInf"
| "fadd NegInf _ = NegInf"
| "fadd _ b = b"

definition fsub :: "float64 \<Rightarrow> float64 \<Rightarrow> float64" where
  "fsub a b = fadd a (fneg b)"

definition finf :: "bool \<Rightarrow> float64" where
  "finf neg = (if neg then NegInf else PosInf)"

fun fmul :: "float64 \<Rightarrow> float64 \<Rightarrow> float64" where
  "fmul (Fin a) (Fin b) = fl (a * b)"
| "fmul NaN _ = NaN"
| "fmul _ NaN = NaN"
| "fmul (Fin a) b = (if a = 0 then NaN else finf ((a < 0) \<noteq> (b = NegInf)))"
| "fmul a (Fin b) = (if b = 0 then NaN else finf ((b < 0) \<noteq> (a = NegInf)))"
| "fmul a b = finf (a \<noteq> b)"

fun fdiv :: "float64 \<Rightarrow> float64 \<Rightarrow> float64" where
  "fdiv (Fin a) (Fin b) =
     (if b \<noteq> 0 then fl (a / b) else if a = 0 then NaN else finf (a < 0))"
| "fdiv NaN _ = NaN"
| "fdiv _ NaN = NaN"
| "fdiv (Fin a) _ = Fin 0"
| "fdiv a (Fin b) = finf ((b < 0) \<noteq> (a = NegInf))"
| "fdiv _ _ = NaN"

fun flt :: "float64 \<Rightarrow> float64 \<Rightarrow> bool" where
  "flt (Fin a) (Fin b) = (a < b)"
| "flt NaN _ = False"
| "flt _ NaN = False"
| "flt NegInf b = (b \<noteq> NegInf)"
| "flt a PosInf = (a \<noteq> PosInf)"
| "flt _ _ = False"

fun feq :: "float64 \<Rightarrow> float64 \<Rightarrow> bool" where
  "feq (Fin a) (Fin b) = (a = b)"
| "feq NaN _ = False"
| "feq _ NaN = False"
| "feq a b = (a = b)"

definition fle :: "float64 \<Rightarrow> float64 \<Rightarrow> bool" where
  "fle a b \<longleftrightarrow> flt a b \<or> feq a b"

text \<open>
  Conversions. A float that does not fit an \<open>int64\<close> converts to an implementation-specific value;
  the model has the one of amd64, the platform of the repository's builds.
\<close>

definition of_int64 :: "int \<Rightarrow> float64" where
  "of_int64 n = fl (of_int n)"

definition trunc :: "real \<Rightarrow> int" where
  "trunc x = (if x < 0 then - \<lfloor>- x\<rfloor> else \<lfloor>x\<rfloor>)"

fun to_int64 :: "float64 \<Rightarrow> int" where
  "to_int64 (Fin x) = (if in_i64 (trunc x) then trunc x else minInt64)"
| "to_int64 _ = minInt64"

text \<open>The functions of package \<open>math\<close> whose last digits the documentation leaves open.\<close>

record mathlib =
  mExp :: "float64 \<Rightarrow> float64"
  mLog :: "float64 \<Rightarrow> float64"
  mPow :: "float64 \<Rightarrow> float64 \<Rightarrow> float64"

section \<open>Monotonicity and exactness of rounding\<close>

lemma ilog2_bounds: "0 < x \<Longrightarrow> 2 powi ilog2 x \<le> x \<and> x < 2 powi (ilog2 x + 1)"
proof (induction x rule: ilog2.induct)
  case (1 x)
  show ?case
  proof (cases "x < 1 \<or> 2 \<le> x")
    case True
    with 1 show ?thesis
      by (subst (1 2) ilog2.simps) (auto simp: power_int_diff power_int_add)
  next
    case False
    with "1.prems" show ?thesis by (subst (1 2) ilog2.simps) auto
  qed
qed

lemma ilog2_mono: "0 < x \<Longrightarrow> x \<le> y \<Longrightarrow> ilog2 x \<le> ilog2 y"
proof (rule ccontr)
  assume "0 < x" "x \<le> y" "\<not> ilog2 x \<le> ilog2 y"
  then have "(2 :: real) powi (ilog2 y + 1) \<le> 2 powi ilog2 x"
    by (intro power_int_increasing) auto
  with ilog2_bounds [of x] ilog2_bounds [of y] \<open>0 < x\<close> \<open>x \<le> y\<close> show False by auto
qed

lemma round_even_mono: "x \<le> y \<Longrightarrow> round_even x \<le> round_even y"
proof (cases "\<lfloor>x\<rfloor> = \<lfloor>y\<rfloor>")
  case True
  assume "x \<le> y"
  with True show ?thesis by (auto simp: round_even_def Let_def)
next
  case False
  assume "x \<le> y"
  with False have "\<lfloor>x\<rfloor> + 1 \<le> \<lfloor>y\<rfloor>" using floor_mono [of x y] by linarith
  moreover have "round_even x \<le> \<lfloor>x\<rfloor> + 1" "\<lfloor>y\<rfloor> \<le> round_even y"
    by (auto simp: round_even_def Let_def)
  ultimately show ?thesis by linarith
qed

lemma round_even_of_int [simp]: "round_even (of_int n) = n"
  by (simp add: round_even_def)

lemma round_even_nonneg: "0 \<le> x \<Longrightarrow> 0 \<le> round_even x"
  using round_even_mono [of 0 x] round_even_of_int [of 0] by simp

lemma round_even_minus: "round_even (- x) = - round_even x"
proof (cases "x = of_int \<lfloor>x\<rfloor>")
  case True
  then show ?thesis by (metis of_int_minus round_even_of_int)
next
  case False
  then have "\<lfloor>- x\<rfloor> = - \<lfloor>x\<rfloor> - 1" by linarith
  then show ?thesis by (auto simp: round_even_def Let_def)
qed

lemma ulp_exp_minus [simp]: "ulp_exp (- x) = ulp_exp x"
  by (simp add: ulp_exp_def)

lemma rnd_minus: "rnd (- x) = - rnd x"
  by (simp add: rnd_def round_even_minus)

lemma rnd_0 [simp]: "rnd 0 = 0"
  by (simp add: rnd_def)

lemma rnd_nonneg: "0 \<le> x \<Longrightarrow> 0 \<le> rnd x"
  by (simp add: rnd_def round_even_nonneg)

lemma rnd_le_grid: "x \<noteq> 0 \<Longrightarrow> x \<le> of_int n * 2 powi ulp_exp x \<Longrightarrow> rnd x \<le> of_int n * 2 powi ulp_exp x"
  using round_even_mono [of "x / 2 powi ulp_exp x" "of_int n"]
  by (simp add: rnd_def pos_divide_le_eq)

lemma grid_le_rnd: "x \<noteq> 0 \<Longrightarrow> of_int n * 2 powi ulp_exp x \<le> x \<Longrightarrow> of_int n * 2 powi ulp_exp x \<le> rnd x"
  using round_even_mono [of "of_int n" "x / 2 powi ulp_exp x"]
  by (simp add: rnd_def pos_le_divide_eq)

text \<open>A power of two is on the grid of every smaller unit in the last place.\<close>

lemma pow2_on_grid:
  assumes "e \<le> k"
  shows "(2 :: real) powi k = of_int (2 ^ nat (k - e)) * 2 powi e"
proof -
  have "(2 :: real) powi k = 2 powi ((k - e) + e)" by simp
  also have "\<dots> = 2 powi (k - e) * 2 powi e" by (rule power_int_add) simp
  also have "(2 :: real) powi (k - e) = 2 ^ nat (k - e)" using assms by (simp add: power_int_def)
  finally show ?thesis by simp
qed

lemma rnd_mono_pos:
  assumes "0 < x" and "x \<le> y"
  shows "rnd x \<le> rnd y"
proof (cases "ulp_exp x = ulp_exp y")
  case True
  have "x / 2 powi ulp_exp y \<le> y / 2 powi ulp_exp y" using assms by (simp add: divide_right_mono)
  then have "round_even (x / 2 powi ulp_exp y) \<le> round_even (y / 2 powi ulp_exp y)"
    by (rule round_even_mono)
  then show ?thesis using assms True by (simp add: rnd_def)
next
  case False
  let ?k = "ilog2 y"
  have "ilog2 x \<le> ?k" using assms by (rule ilog2_mono)
  with False have lt: "ilog2 x < ?k" and uy: "ulp_exp y = ?k - 52" and ux: "ulp_exp x \<le> ?k"
    using assms by (auto simp: ulp_exp_def max_def split: if_splits)
  have "x < 2 powi (ilog2 x + 1)" using assms ilog2_bounds by blast
  also have "(2 :: real) powi (ilog2 x + 1) \<le> 2 powi ?k" using lt by (intro power_int_increasing) auto
  finally have "rnd x \<le> 2 powi ?k"
    using rnd_le_grid [of x "2 ^ nat (?k - ulp_exp x)"] pow2_on_grid [OF ux] assms by simp
  also have "2 powi ?k \<le> rnd y"
    using grid_le_rnd [of y "2 ^ nat (?k - ulp_exp y)"] ilog2_bounds [of y] assms
      pow2_on_grid [of "ulp_exp y" ?k] uy by simp
  finally show ?thesis .
qed

lemma rnd_mono: "x \<le> y \<Longrightarrow> rnd x \<le> rnd y"
proof -
  assume le: "x \<le> y"
  consider "0 < x" | "x \<le> 0" "0 \<le> y" | "y < 0" by linarith
  then show ?thesis
  proof cases
    case 1
    then show ?thesis using le by (rule rnd_mono_pos)
  next
    case 2
    have "rnd x \<le> 0" using rnd_nonneg [of "- x"] 2 by (simp add: rnd_minus)
    also have "0 \<le> rnd y" using 2 by (simp add: rnd_nonneg)
    finally show ?thesis .
  next
    case 3
    then show ?thesis using le rnd_mono_pos [of "- y" "- x"] by (simp add: rnd_minus)
  qed
qed

lemma rnd_on_grid: "x = of_int n * 2 powi ulp_exp x \<Longrightarrow> rnd x = x"
  using rnd_le_grid [of x n] grid_le_rnd [of x n] by (cases "x = 0") auto

lemma ilog2_less: "0 < x \<Longrightarrow> x < 2 powi k \<Longrightarrow> ilog2 x < k"
proof (rule ccontr)
  assume "0 < x" "x < 2 powi k" "\<not> ilog2 x < k"
  then have "(2 :: real) powi k \<le> 2 powi ilog2 x" by (intro power_int_increasing) auto
  with ilog2_bounds [of x] \<open>0 < x\<close> \<open>x < 2 powi k\<close> show False by linarith
qed

lemma ilog2_pow2: "ilog2 (2 powi k) = k"
proof (rule antisym)
  have "(2 :: real) powi k < 2 powi (k + 1)" by (simp add: power_int_add)
  then have "ilog2 (2 powi k) < k + 1" by (intro ilog2_less) auto
  then show "ilog2 (2 powi k) \<le> k" by simp
  have "(2 :: real) powi k < 2 powi (ilog2 (2 powi k) + 1)" using ilog2_bounds by auto
  then have "k < ilog2 (2 powi k) + 1"
    by (meson linorder_not_less one_le_numeral power_int_increasing)
  then show "k \<le> ilog2 (2 powi k)" by simp
qed

lemma rnd_pow2: "- 1074 \<le> k \<Longrightarrow> rnd (2 powi k) = 2 powi k"
  by (rule rnd_on_grid [of _ "2 ^ nat (k - ulp_exp (2 powi k))"], rule pow2_on_grid)
    (simp add: ulp_exp_def ilog2_pow2)

lemma rnd_of_int: "\<bar>n\<bar> \<le> 2 ^ 53 \<Longrightarrow> rnd (of_int n) = of_int n"
proof -
  assume n: "\<bar>n\<bar> \<le> 2 ^ 53"
  consider "n = 0" | "\<bar>n\<bar> = 2 ^ 53" | "n \<noteq> 0" "\<bar>n\<bar> < 2 ^ 53" using n by linarith
  then show ?thesis
  proof cases
    case 2
    then have "n = 2 ^ 53 \<or> n = - (2 ^ 53)" by linarith
    then show ?thesis using rnd_pow2 [of 53] rnd_minus [of "2 ^ 53"] by (auto simp: power_int_def)
  next
    case 3
    have "\<bar>of_int n\<bar> < (2 :: real) powi 53"
      using 3 by (simp add: power_int_def flip: of_int_abs)
    then have "ilog2 \<bar>of_int n\<bar> < 53" using 3 by (intro ilog2_less) auto
    then have e: "ulp_exp (of_int n) \<le> 0" by (simp add: ulp_exp_def)
    have "of_int n * (2 :: real) powi 0 = of_int (n * 2 ^ nat (0 - ulp_exp (of_int n))) * 2 powi ulp_exp (of_int n)"
      by (simp only: pow2_on_grid [OF e] of_int_mult mult.assoc)
    then have "(of_int n :: real) = of_int (n * 2 ^ nat (0 - ulp_exp (of_int n))) * 2 powi ulp_exp (of_int n)"
      by (simp only: power_int_0_right mult_1_right)
    then show ?thesis by (rule rnd_on_grid)
  qed simp
qed

text \<open>No overflow for magnitudes up to \<open>2 ^ 1023\<close>.\<close>

lemma fl_Fin: "\<bar>x\<bar> \<le> 2 ^ 1023 \<Longrightarrow> fl x = Fin (rnd x)"
proof -
  assume x: "\<bar>x\<bar> \<le> 2 ^ 1023"
  have p: "rnd (2 ^ 1023) = 2 ^ 1023" using rnd_pow2 [of 1023] by (simp add: power_int_def)
  have "rnd x \<le> 2 ^ 1023" "- (2 ^ 1023) \<le> rnd x"
    using rnd_mono [of x "2 ^ 1023"] rnd_mono [of "- (2 ^ 1023)" x] x p rnd_minus [of "2 ^ 1023"]
    by linarith+
  moreover have "(2 :: real) ^ 1023 < 2 ^ 1024" by simp
  ultimately show ?thesis by (simp add: fl_def Let_def)
qed

section \<open>Rounding of concrete values\<close>

lemma round_even_eqI:
  assumes "\<bar>y - of_int n\<bar> < 1 / 2 \<or> \<bar>y - of_int n\<bar> = 1 / 2 \<and> even n"
  shows "round_even y = n"
proof -
  have "\<lfloor>y\<rfloor> = n \<or> \<lfloor>y\<rfloor> = n - 1" using assms by linarith
  then show ?thesis
  proof
    assume f: "\<lfloor>y\<rfloor> = n"
    then have "y - of_int n < 1 / 2 \<or> y - of_int n = 1 / 2 \<and> even n" using assms by linarith
    with f show ?thesis by (auto simp: round_even_def Let_def)
  next
    assume f: "\<lfloor>y\<rfloor> = n - 1"
    then have "1 / 2 < y - of_int (n - 1) \<or> y - of_int (n - 1) = 1 / 2 \<and> even n"
      using assms by (auto; linarith)
    with f show ?thesis by (auto simp: round_even_def Let_def)
  qed
qed

text \<open>Rounding of a concrete value below 2: its binade \<open>2 powi - j\<close> and the nearest grid point.\<close>

lemma rnd_eqI:
  assumes "1 \<le> x * 2 ^ j" and "x * 2 ^ j < 2" and "j \<le> 1022"
    and "\<bar>x * 2 ^ (j + 52) - of_int n\<bar> < 1 / 2 \<or> \<bar>x * 2 ^ (j + 52) - of_int n\<bar> = 1 / 2 \<and> even n"
  shows "rnd x = of_int n / 2 ^ (j + 52)"
proof -
  have x: "0 < x" using assms(1) by (smt (verit) zero_less_power zero_less_mult_iff)
  have p: "(2 :: real) powi (- int j) = 1 / 2 ^ j" "(2 :: real) powi (- int j + 1) = 2 / 2 ^ j"
    "(2 :: real) powi (- int j - 52) = 1 / 2 ^ (j + 52)"
    by (simp_all add: power_int_minus power_int_add power_int_diff divide_simps power_add)
  have "2 powi (- int j) \<le> x" "x < 2 powi (- int j + 1)"
    unfolding p using assms(1,2) by (simp_all add: divide_simps)
  then have "ilog2 x = - int j"
    using ilog2_less [OF x, of "- int j + 1"] ilog2_mono [of "2 powi (- int j)" x] ilog2_pow2 [of "- int j"]
    by simp
  then have u: "ulp_exp x = - int j - 52" using x assms(3) by (simp add: ulp_exp_def)
  have "x / 2 powi ulp_exp x = x * 2 ^ (j + 52)" by (simp add: u p)
  then show ?thesis using round_even_eqI [OF assms(4)] x by (simp add: rnd_def u p)
qed

lemma fl_eqI:
  assumes "1 \<le> x * 2 ^ j" and "x * 2 ^ j < 2" and "j \<le> 1022"
    and "\<bar>x * 2 ^ (j + 52) - of_int n\<bar> < 1 / 2 \<or> \<bar>x * 2 ^ (j + 52) - of_int n\<bar> = 1 / 2 \<and> even n"
  shows "fl x = Fin (of_int n / 2 ^ (j + 52))"
proof -
  have "0 < x" using assms(1) by (smt (verit) zero_less_power zero_less_mult_iff)
  have "x * 1 \<le> x * 2 ^ j" using \<open>0 < x\<close> by (intro mult_left_mono) simp_all
  then have "x \<le> 2" using assms(2) by linarith
  then have "\<bar>x\<bar> \<le> 2 ^ 1" using \<open>0 < x\<close> by simp
  also have "(2 :: real) ^ 1 \<le> 2 ^ 1023" by (rule power_increasing) simp_all
  finally show ?thesis using rnd_eqI [OF assms] by (simp add: fl_Fin)
qed

end
