(* ===== verification/Rand.thy ===== *)
theory Rand
  imports Float64
begin

text \<open>
  \<open>math/rand\<close> as the sources use it. A \<open>*rand.Rand\<close> is the stream of raw draws its source will
  deliver; \<open>Int63n\<close>, \<open>Intn\<close> and \<open>Float64\<close> consume one draw each and reduce it to the documented range.
  Every sequence of results the package can return is the result of some stream, so a theorem
  for all streams covers every seed.
\<close>

type_synonym rand = "nat \<Rightarrow> nat"

definition advance :: "rand \<Rightarrow> rand" where
  "advance r = (\<lambda>i. r (Suc i))"

definition Int63n :: "rand \<Rightarrow> int \<Rightarrow> (int \<times> rand) go" where
  "Int63n r n = (if n \<le> 0 then Panic ''invalid argument to Int63n''
                 else Ret (int (r 0) mod n, advance r))"

definition Intn :: "rand \<Rightarrow> int \<Rightarrow> (int \<times> rand) go" where
  "Intn r n = (if n \<le> 0 then Panic ''invalid argument to Intn''
               else Ret (int (r 0) mod n, advance r))"

text \<open>\<open>float64(r.Int63n(1<<53)) / (1<<53)\<close>.\<close>

definition rFloat64 :: "rand \<Rightarrow> float64 \<times> rand" where
  "rFloat64 r = (fdiv (of_int64 (int (r 0) mod 2 ^ 53)) (Fin (2 ^ 53)), advance r)"

section \<open>Ranges\<close>

lemma Int63n_Ret_iff:
  "Int63n r n = Ret (v, r') \<longleftrightarrow> 0 < n \<and> v = int (r 0) mod n \<and> r' = advance r"
  by (auto simp: Int63n_def)

lemma Int63n_range: "Int63n r n = Ret (v, r') \<Longrightarrow> 0 \<le> v \<and> v < n"
  by (auto simp: Int63n_Ret_iff)

lemma Int63n_returns: "returns (Int63n r n) \<longleftrightarrow> 0 < n"
  by (auto simp: Int63n_def)

text \<open>Every value of the range is delivered by some stream.\<close>

lemma Int63n_surj: "0 \<le> v \<Longrightarrow> v < n \<Longrightarrow> fst (case Int63n (\<lambda>i. nat v) n of Ret x \<Rightarrow> x) = v"
  by (simp add: Int63n_def)

definition unit_draw :: "rand \<Rightarrow> real" where
  "unit_draw r = of_int (int (r 0) mod 2 ^ 53) / 2 ^ 53"

lemma unit_draw_range: "0 \<le> unit_draw r \<and> unit_draw r \<le> 1 - 1 / 2 ^ 53"
proof -
  have "int (r 0) mod 2 ^ 53 \<le> 2 ^ 53 - 1" by simp
  then have "real_of_int (int (r 0) mod 2 ^ 53) \<le> real_of_int (2 ^ 53 - 1)"
    by (simp only: of_int_le_iff)
  then show ?thesis by (simp add: unit_draw_def)
qed

lemma rnd_dyadic:
  assumes "x = of_int n * 2 powi e" and "\<bar>x\<bar> < 2 powi (53 + e)" and "- 1074 \<le> e"
  shows "rnd x = x"
proof (cases "x = 0")
  case False
  then have "ilog2 \<bar>x\<bar> < 53 + e" using assms(2) by (intro ilog2_less) auto
  then have u: "ulp_exp x \<le> e" using assms(3) by (simp add: ulp_exp_def)
  have "x = of_int n * 2 powi e" by (rule assms(1))
  also have "\<dots> = of_int (n * 2 ^ nat (e - ulp_exp x)) * 2 powi ulp_exp x"
    by (simp only: pow2_on_grid [OF u] of_int_mult mult.assoc)
  finally show ?thesis by (rule rnd_on_grid)
qed simp

lemma rnd_unit_draw: "rnd (unit_draw r) = unit_draw r"
proof (rule rnd_dyadic [where e = "- 53" and n = "int (r 0) mod 2 ^ 53"])
  show "unit_draw r = of_int (int (r 0) mod 2 ^ 53) * 2 powi - 53"
    by (simp add: unit_draw_def power_int_minus field_simps)
qed (use unit_draw_range [of r] in \<open>auto\<close>)

lemma rFloat64_eq: "rFloat64 r = (Fin (unit_draw r), advance r)"
proof -
  have k: "\<bar>int (r 0) mod 2 ^ 53\<bar> \<le> 2 ^ 53" by (simp add: less_imp_le)
  then have "of_int64 (int (r 0) mod 2 ^ 53) = Fin (of_int (int (r 0) mod 2 ^ 53))"
    unfolding of_int64_def by (subst fl_Fin) (auto simp: rnd_of_int)
  moreover have "fdiv (Fin (of_int (int (r 0) mod 2 ^ 53))) (Fin (2 ^ 53)) = fl (unit_draw r)"
    by (simp add: unit_draw_def)
  moreover have "\<bar>unit_draw r\<bar> \<le> 2 ^ 1023"
    using unit_draw_range [of r] one_le_power [of "2 :: real" 1023] by simp
  then have "fl (unit_draw r) = Fin (unit_draw r)"
    by (simp only: fl_Fin rnd_unit_draw)
  ultimately show ?thesis by (simp only: rFloat64_def)
qed

end
