(* ===== verification/Hash.thy ===== *)
theory Hash
  imports GoPrelude
begin

text \<open>
  The hash functions of \<^verbatim>\<open>pkg/util/hash.go\<close>: 64-bit FNV-1a over bytes (\<open>hash/fnv\<close>), big-endian
  encoding (\<open>encoding/binary\<close>), and \<open>Hash64\<close>, \<open>BytesHash64\<close>, \<open>StringHash64\<close> built on them. The lemmas show
  the range of \<open>Hash64\<close> and that it separates key numbers of one aligned block of 256.
\<close>

section \<open>Definitions\<close>

definition fnv_step :: "u64 \<Rightarrow> byte \<Rightarrow> u64" where
  "fnv_step h b = (h XOR ucast b) * 1099511628211"

text \<open>\<open>fnv.New64a\<close> followed by one \<open>Write\<close> and \<open>Sum64\<close>.\<close>

definition fnv64a :: "byte list \<Rightarrow> u64" where
  "fnv64a bs = foldl fnv_step 14695981039346656037 bs"

text \<open>\<open>binary.BigEndian.PutUint64\<close>.\<close>

definition putUint64 :: "u64 \<Rightarrow> byte list" where
  "putUint64 x = map (\<lambda>s. ucast (drop_bit s x)) [56, 48, 40, 32, 24, 16, 8, 0]"

text \<open>The bytes of a Go string.\<close>

definition bytes_of :: "string \<Rightarrow> byte list" where
  "bytes_of s = map of_char s"

definition Hash64 :: "int \<Rightarrow> int" where
  "Hash64 n =
     (let result = sint (fnv64a (putUint64 (word_of_int n)))
      in if result < 0 then i64 (- result) else result)"

definition BytesHash64 :: "byte list \<Rightarrow> int" where
  "BytesHash64 b = sint (fnv64a b)"

definition StringHash64 :: "string \<Rightarrow> int" where
  "StringHash64 s = sint (fnv64a (bytes_of s))"

section \<open>Range of the result\<close>

lemma sint_u64_in_i64: "in_i64 (sint (w :: u64))"
  using sint_ge [of w] sint_lt [of w] by (simp add: in_i64_def)

lemma sint_eq_min_iff: "sint (w :: u64) = minInt64 \<longleftrightarrow> w = 2 ^ 63"
proof -
  have "sint (2 ^ 63 :: u64) = minInt64" by (simp add: minInt64_def)
  then show ?thesis by (metis signed_word_eqI)
qed

text \<open>
  The negation in \<open>Hash64\<close> wraps for the single hash value \<open>2 ^ 63\<close>, and only for that one.
\<close>

lemma Hash64_cases:
  "Hash64 n = \<bar>sint (fnv64a (putUint64 (word_of_int n)))\<bar> \<and> 0 \<le> Hash64 n
   \<or> fnv64a (putUint64 (word_of_int n)) = 2 ^ 63 \<and> Hash64 n = minInt64"
proof (cases "sint (fnv64a (putUint64 (word_of_int n))) = minInt64")
  case True
  then have "fnv64a (putUint64 (word_of_int n)) = 2 ^ 63" by (simp only: sint_eq_min_iff)
  moreover from True have "Hash64 n = minInt64"
    by (simp add: Hash64_def Let_def minInt64_def i64_def)
  ultimately show ?thesis by blast
next
  case False
  let ?r = "sint (fnv64a (putUint64 (word_of_int n)))"
  from False sint_u64_in_i64 [of "fnv64a (putUint64 (word_of_int n))"] have "in_i64 (- ?r)"
    by (auto simp: in_i64_def minInt64_def)
  then show ?thesis by (simp add: Hash64_def Let_def i64_id)
qed

lemma Hash64_in_i64: "in_i64 (Hash64 n)"
  using sint_u64_in_i64 by (simp add: Hash64_def Let_def)

section \<open>Collision freedom within a block\<close>

lemma fnv_prime_cancel: "x * 1099511628211 = y * 1099511628211 \<Longrightarrow> x = (y :: u64)"
proof -
  assume "x * 1099511628211 = y * 1099511628211"
  then have "x * 1099511628211 * 14886173955864302971 = y * 1099511628211 * 14886173955864302971"
    by simp
  moreover have "1099511628211 * 14886173955864302971 = (1 :: u64)" by code_simp
  ultimately show "x = y" by (simp only: mult.assoc mult_1_right)
qed

lemma drop_bit_xor_byte: "drop_bit 8 (h XOR ucast (b :: byte)) = drop_bit 8 (h :: u64)"
  by (rule bit_word_eqI) (auto simp: bit_simps dest: bit_imp_le_length)

lemma opposite_same_block:
  fixes x y :: u64
  assumes "drop_bit 8 x = drop_bit 8 y" and "x = - y"
  shows "x = y"
proof -
  let ?T = "unat x div 256" and ?l = "unat x mod 256" and ?m = "unat y mod 256"
  have T: "unat y div 256 = ?T"
    using arg_cong [OF assms(1), of unat]
    by (simp only: unat_drop_bit_eq) (simp add: drop_bit_eq_div)
  have x: "unat x = 256 * ?T + ?l" and y: "unat y = 256 * ?T + ?m"
    using T by (metis mult_div_mod_eq)+
  have "x + y = 0" using assms(2) by simp
  then have "unat (x + y) = 0" by simp
  then have "2 ^ 64 dvd unat x + unat y" by (simp only: unat_word_ariths mod_eq_0_iff_dvd) simp
  moreover have "(512 :: nat) dvd 2 ^ 64" by simp
  ultimately have "512 dvd unat x + unat y" by (rule dvd_trans [rotated])
  moreover have "unat x + unat y = 512 * ?T + (?l + ?m)" using x y by linarith
  ultimately have "512 dvd ?l + ?m" by (simp add: dvd_add_right_iff)
  moreover have "?l + ?m < 512" by (simp add: add_less_mono [of _ 256 _ 256, simplified])
  ultimately have "?l + ?m = 0" using nat_dvd_not_less by blast
  with x y have "unat x = unat y" by linarith
  then show ?thesis by (simp add: word_unat_eq_iff)
qed

text \<open>
  Two states that agree above the low byte are neither equal nor opposite after a step,
  unless the bytes agree.
\<close>

lemma fnv_step_separates:
  assumes "fnv_step h b = fnv_step h c \<or> fnv_step h b = - fnv_step h c"
  shows "b = c"
proof -
  let ?x = "h XOR ucast b" and ?y = "h XOR ucast c"
  from assms have "?x = ?y \<or> ?x = - ?y"
    unfolding fnv_step_def minus_mult_left by (blast intro: fnv_prime_cancel)
  then have eq: "?x = ?y"
    using opposite_same_block drop_bit_xor_byte by metis
  have "bit b k = bit c k" if "k < 8" for k
    using arg_cong [OF eq, of "\<lambda>w. bit w k"] that by (cases "bit h k") (simp_all add: bit_simps)
  then show ?thesis by (intro bit_word_eqI) simp
qed

lemma putUint64_split:
  "putUint64 x = map (\<lambda>s. ucast (drop_bit (8 + s) x)) [48, 40, 32, 24, 16, 8, 0] @ [ucast x]"
  by (simp add: putUint64_def)

lemma high_bytes_eq:
  assumes "n div 256 = m div 256"
  shows "(ucast (drop_bit (8 + s) (word_of_int n :: u64)) :: byte) = ucast (drop_bit (8 + s) (word_of_int m :: u64))"
proof -
  have "drop_bit 8 n = drop_bit 8 m" using assms by (simp add: drop_bit_eq_div)
  then have "bit n (8 + k) = bit m (8 + k)" for k
    by (metis bit_drop_bit_eq comp_apply)
  then show ?thesis
    by (intro bit_word_eqI) (simp add: bit_simps add.assoc)
qed

lemma low_byte_determines:
  assumes "n div 256 = m div 256"
    and "(ucast (word_of_int n :: u64) :: byte) = ucast (word_of_int m :: u64)"
  shows "n = m"
proof -
  have "bit n k = bit m k" if "k < 8" for k
    using arg_cong [OF assms(2), of "\<lambda>w. bit w k"] that by (simp add: bit_simps)
  then have "take_bit 8 n = take_bit 8 m"
    by (intro bit_eqI) (auto simp: bit_simps)
  then have "n mod 256 = m mod 256" by (simp add: take_bit_eq_mod)
  with assms(1) show ?thesis by (metis div_mult_mod_eq)
qed

text \<open>Two key numbers of one aligned block of 256 share all bytes but the last.\<close>

lemma Hash64_eq_imp:
  assumes "Hash64 n = Hash64 m"
  shows "fnv64a (putUint64 (word_of_int n)) = fnv64a (putUint64 (word_of_int m))
    \<or> fnv64a (putUint64 (word_of_int n)) = - fnv64a (putUint64 (word_of_int m))"
proof -
  let ?a = "fnv64a (putUint64 (word_of_int n))" and ?b = "fnv64a (putUint64 (word_of_int m))"
  have "a = b \<or> a = - b" if "\<bar>sint a\<bar> = \<bar>sint b\<bar>" for a b :: u64
  proof -
    from that consider "sint a = sint b" | "sint a = - sint b" unfolding abs_eq_iff by blast
    then show ?thesis
    proof cases
      case 1
      then show ?thesis by (simp add: signed_word_eqI)
    next
      case 2
      then have "(of_int (sint a) :: u64) = of_int (- sint b)" by (rule arg_cong)
      then show ?thesis by simp
    qed
  qed
  moreover have "0 \<le> minInt64 \<Longrightarrow> False" by (simp add: minInt64_def)
  ultimately show ?thesis
    using assms Hash64_cases [of n] Hash64_cases [of m] by metis
qed

lemma Hash64_block_inj:
  assumes "n div 256 = m div 256" and "Hash64 n = Hash64 m"
  shows "n = m"
proof -
  define h where "h = foldl fnv_step 14695981039346656037
    (map (\<lambda>s. ucast (drop_bit (8 + s) (word_of_int n :: u64))) [48, 40, 32, 24, 16, 8, 0])"
  have a: "fnv64a (putUint64 (word_of_int n)) = fnv_step h (ucast (word_of_int n :: u64))"
    unfolding fnv64a_def putUint64_split h_def by (simp only: foldl_append foldl.simps)
  have b: "fnv64a (putUint64 (word_of_int m)) = fnv_step h (ucast (word_of_int m :: u64))"
    unfolding fnv64a_def putUint64_split h_def high_bytes_eq [OF assms(1)]
    by (simp only: foldl_append foldl.simps)
  have "(ucast (word_of_int n :: u64) :: byte) = ucast (word_of_int m :: u64)"
    using Hash64_eq_imp [OF assms(2)] unfolding a b by (rule fnv_step_separates)
  with assms(1) show ?thesis by (rule low_byte_determines)
qed

text \<open>The hash values that \<^verbatim>\<open>core_test.go\<close> expects of \<open>buildKeyName\<close>.\<close>

lemma Hash64_227: "Hash64 227 = 6284890712318570100"
  by code_simp

lemma Hash64_154: "Hash64 154 = 6284898408899967577"
  by code_simp

section \<open>Properties\<close>

text \<open>
  \<open>Hash64\<close> never maps two different key numbers of one aligned block of 256 consecutive numbers to the same
  key, so hashed key names of such a block do not collide.
\<close>

theorem hash64_injective_on_blocks:
  "inj_on Hash64 {256 * b..<256 * (b + 1)}"
proof (rule inj_onI)
  fix n m assume "n \<in> {256 * b..<256 * (b + 1)}" "m \<in> {256 * b..<256 * (b + 1)}" "Hash64 n = Hash64 m"
  moreover have "k div 256 = b" if "k \<in> {256 * b..<256 * (b + 1)}" for k
    using that div_pos_pos_trivial [of "k - 256 * b" 256] div_mult_self4 [of 256 b "k - 256 * b"] by auto
  ultimately show "n = m" using Hash64_block_inj by metis
qed

text \<open>
  \<open>Hash64\<close> is the absolute value of the FNV-1a hash read as a signed integer, and hence not negative, with
  a single exception: the hash \<open>2 ^ 63\<close>, whose negation wraps, is returned as the least \<open>int64\<close>.
\<close>

theorem hash64_nonneg_unless_min:
  "Hash64 n = (if fnv64a (putUint64 (word_of_int n)) = 2 ^ 63 then minInt64
               else \<bar>sint (fnv64a (putUint64 (word_of_int n)))\<bar>)
   \<and> (Hash64 n < 0 \<longleftrightarrow> fnv64a (putUint64 (word_of_int n)) = 2 ^ 63)"
  using Hash64_cases [of n] sint_eq_min_iff [of "fnv64a (putUint64 (word_of_int n))"]
    Hash64_in_i64 [of n]
  by (auto simp: minInt64_def in_i64_def)

end
