(* ===== verification/Generators.thy ===== *)
theory Generators
  imports Rand Hash
begin

text \<open>
  The integer and discrete generators of \<^verbatim>\<open>pkg/generator\<close>: \<open>Number\<close>, \<open>Constant\<close>, \<open>Counter\<close>, \<open>Uniform\<close>, \<open>Sequential\<close>,
  \<open>Discrete\<close>, \<open>Hotspot\<close>, \<open>Histogram\<close>. Each is a record with its constructor, \<open>Next\<close> and \<open>Last\<close>; \<open>Next\<close> takes and
  returns the random stream. The locales state the two contracts a client relies on: \<open>last_gen\<close>, the
  documented meaning of \<open>Last\<close>, and \<open>ranged_gen\<close>, that every value lies in the generator's range.
\<close>

section \<open>Interfaces\<close>

text \<open>Calling \<open>Next\<close> \<open>n\<close> times, as a worker does, and collecting the values.\<close>

fun run_gen :: "('g \<Rightarrow> rand \<Rightarrow> (int \<times> 'g \<times> rand) go) \<Rightarrow> nat \<Rightarrow> 'g \<Rightarrow> rand \<Rightarrow> (int list \<times> 'g \<times> rand) go" where
  "run_gen nxt 0 g r = Ret ([], g, r)"
| "run_gen nxt (Suc n) g r =
     gbind (nxt g r) (\<lambda>(v, g1, r1).
     gbind (run_gen nxt n g1 r1) (\<lambda>(vs, g2, r2). Ret (v # vs, g2, r2)))"

locale last_gen =
  fixes nxt :: "'g \<Rightarrow> rand \<Rightarrow> (int \<times> 'g \<times> rand) go"
    and lst :: "'g \<Rightarrow> int"
  assumes last_next: "nxt g r = Ret (v, g', r') \<Longrightarrow> lst g' = v"
begin

lemma last_run: "run_gen nxt n g r = Ret (vs, g', r') \<Longrightarrow> vs \<noteq> [] \<Longrightarrow> lst g' = last vs"
proof (induction n arbitrary: g r vs)
  case (Suc n)
  from Suc.prems obtain v g1 r1 ws where
    step: "nxt g r = Ret (v, g1, r1)" and run: "run_gen nxt n g1 r1 = Ret (ws, g', r')" and vs: "vs = v # ws"
    by (auto simp: go_simps)
  show ?case
  proof (cases "ws = []")
    case True
    with run have "g' = g1" by (cases n) (auto simp: go_simps)
    with step True vs show ?thesis by (simp add: last_next)
  next
    case False
    with run vs Suc.IH show ?thesis by simp
  qed
qed simp

end

locale ranged_gen =
  fixes nxt :: "'g \<Rightarrow> rand \<Rightarrow> (int \<times> 'g \<times> rand) go"
    and inv :: "'g \<Rightarrow> bool"
    and lo :: "'g \<Rightarrow> int"
    and hi :: "'g \<Rightarrow> int"
  assumes next_returns: "inv g \<Longrightarrow> returns (nxt g r)"
    and next_range: "inv g \<Longrightarrow> nxt g r = Ret (v, g', r') \<Longrightarrow> lo g \<le> v \<and> v \<le> hi g"
    and next_inv: "inv g \<Longrightarrow> nxt g r = Ret (v, g', r') \<Longrightarrow> inv g' \<and> lo g' = lo g \<and> hi g' = hi g"
begin

text \<open>A run of any length returns, and all its values lie in the range.\<close>

lemma run_in_range:
  "inv g \<Longrightarrow> \<exists>vs g' r'. run_gen nxt n g r = Ret (vs, g', r')
     \<and> length vs = n \<and> (\<forall>v\<in>set vs. lo g \<le> v \<and> v \<le> hi g)"
proof (induction n arbitrary: g r)
  case (Suc n)
  obtain v g1 r1 where step: "nxt g r = Ret (v, g1, r1)"
    using next_returns [OF Suc.prems, of r] by (auto simp: returns_iff)
  with next_inv [OF Suc.prems step] Suc.IH [of g1 r1] next_range [OF Suc.prems step]
  show ?case by auto
qed simp

end

section \<open>Number, Constant, Counter\<close>

record number =
  LastValue :: int

definition SetLastValue :: "'a number_scheme \<Rightarrow> int \<Rightarrow> 'a number_scheme" where
  "SetLastValue n value = n\<lparr>LastValue := value\<rparr>"

definition Number_Last :: "'a number_scheme \<Rightarrow> int" where
  "Number_Last n = LastValue n"

lemma Number_Last_Set [simp]: "Number_Last (SetLastValue n v) = v"
  by (simp add: Number_Last_def SetLastValue_def)

record constant_gen =
  constant_value :: int

definition NewConstant :: "int \<Rightarrow> constant_gen" where
  "NewConstant value = \<lparr>constant_value = value\<rparr>"

definition Constant_Next :: "constant_gen \<Rightarrow> rand \<Rightarrow> (int \<times> constant_gen \<times> rand) go" where
  "Constant_Next c r = Ret (constant_value c, c, r)"

definition Constant_Last :: "constant_gen \<Rightarrow> int" where
  "Constant_Last c = constant_value c"

record counter =
  counter_val :: int

definition NewCounter :: "int \<Rightarrow> counter" where
  "NewCounter start = \<lparr>counter_val = start\<rparr>"

definition Counter_Next :: "counter \<Rightarrow> rand \<Rightarrow> (int \<times> counter \<times> rand) go" where
  "Counter_Next c r =
     (let c' = c\<lparr>counter_val := i64 (counter_val c + 1)\<rparr>
      in Ret (i64 (counter_val c' - 1), c', r))"

definition Counter_Last :: "counter \<Rightarrow> int" where
  "Counter_Last c = i64 (counter_val c - 1)"

section \<open>Uniform, Sequential\<close>

record uniform = number +
  uniform_lb :: int
  uniform_ub :: int
  uniform_interval :: int

definition NewUniform :: "int \<Rightarrow> int \<Rightarrow> uniform" where
  "NewUniform lb ub =
     \<lparr>LastValue = 0, uniform_lb = lb, uniform_ub = ub, uniform_interval = i64 (i64 (ub - lb) + 1)\<rparr>"

definition Uniform_Next :: "uniform \<Rightarrow> rand \<Rightarrow> (int \<times> uniform \<times> rand) go" where
  "Uniform_Next u r =
     gbind (Int63n r (uniform_interval u)) (\<lambda>(k, r').
       let n = i64 (k + uniform_lb u) in Ret (n, SetLastValue u n, r'))"

record sequential =
  sequential_counter :: int
  sequential_interval :: int
  sequential_start :: int

definition NewSequential :: "int \<Rightarrow> int \<Rightarrow> sequential" where
  "NewSequential countStart countEnd =
     \<lparr>sequential_counter = 0, sequential_interval = i64 (i64 (countEnd - countStart) + 1),
      sequential_start = countStart\<rparr>"

definition Sequential_Next :: "sequential \<Rightarrow> rand \<Rightarrow> (int \<times> sequential \<times> rand) go" where
  "Sequential_Next s r =
     (let s' = s\<lparr>sequential_counter := i64 (sequential_counter s + 1)\<rparr> in
      if sequential_interval s = 0 then Panic ''integer divide by zero''
      else Ret (i64 (sequential_start s + go_mod (sequential_counter s') (sequential_interval s)), s', r))"

definition Sequential_Last :: "sequential \<Rightarrow> int" where
  "Sequential_Last s = i64 (sequential_counter s + 1)"

section \<open>Discrete\<close>

record discrete = number +
  discrete_values :: "(float64 \<times> int) list"

definition NewDiscrete :: discrete where
  "NewDiscrete = \<lparr>LastValue = 0, discrete_values = []\<rparr>"

definition Discrete_Add :: "discrete \<Rightarrow> float64 \<Rightarrow> int \<Rightarrow> discrete" where
  "Discrete_Add d weight value = d\<lparr>discrete_values := discrete_values d @ [(weight, value)]\<rparr>"

definition weight_sum :: "(float64 \<times> int) list \<Rightarrow> float64" where
  "weight_sum ps = foldl (\<lambda>wsum p. fadd wsum (fst p)) (Fin 0) ps"

fun roulette :: "float64 \<Rightarrow> float64 \<Rightarrow> (float64 \<times> int) list \<Rightarrow> int option" where
  "roulette wsum val [] = None"
| "roulette wsum val ((w, v) # ps) =
     (let pw = fdiv w wsum in if flt val pw then Some v else roulette wsum (fsub val pw) ps)"

definition Discrete_Next :: "discrete \<Rightarrow> rand \<Rightarrow> (int \<times> discrete \<times> rand) go" where
  "Discrete_Next d r =
     (let wsum = weight_sum (discrete_values d); (val, r') = rFloat64 r in
      case roulette wsum val (discrete_values d) of
        Some v \<Rightarrow> Ret (v, SetLastValue d v, r')
      | None \<Rightarrow> Panic ''oops, should not get here.'')"

section \<open>Hotspot\<close>

record hotspot = number +
  hot_lowerBound :: int
  hot_upperBound :: int
  hot_hotInterval :: int
  hot_coldInterval :: int
  hot_hotsetFraction :: float64
  hot_hotOpnFraction :: float64

definition unit_fraction :: "float64 \<Rightarrow> float64" where
  "unit_fraction f = (if flt f (Fin 0) \<or> flt (Fin 1) f then Fin 0 else f)"

definition NewHotspot :: "int \<Rightarrow> int \<Rightarrow> float64 \<Rightarrow> float64 \<Rightarrow> hotspot" where
  "NewHotspot lowerBound upperBound hotsetFraction hotOpnFraction =
     (let hotsetFraction = unit_fraction hotsetFraction;
          hotOpnFraction = unit_fraction hotOpnFraction;
          (lowerBound, upperBound) =
            (if upperBound < lowerBound then (upperBound, lowerBound) else (lowerBound, upperBound));
          interval = i64 (i64 (upperBound - lowerBound) + 1);
          hotInterval = to_int64 (fmul (of_int64 interval) hotsetFraction)
      in \<lparr>LastValue = 0, hot_lowerBound = lowerBound, hot_upperBound = upperBound,
          hot_hotInterval = hotInterval, hot_coldInterval = i64 (interval - hotInterval),
          hot_hotsetFraction = hotsetFraction, hot_hotOpnFraction = hotOpnFraction\<rparr>)"

definition Hotspot_Next :: "hotspot \<Rightarrow> rand \<Rightarrow> (int \<times> hotspot \<times> rand) go" where
  "Hotspot_Next h r =
     (let (f, r1) = rFloat64 r in
      gbind (if flt f (hot_hotOpnFraction h)
             then gbind (Int63n r1 (hot_hotInterval h)) (\<lambda>(k, r2). Ret (i64 (hot_lowerBound h + k), r2))
             else gbind (Int63n r1 (hot_coldInterval h))
                    (\<lambda>(k, r2). Ret (i64 (i64 (hot_lowerBound h + hot_hotInterval h) + k), r2)))
        (\<lambda>(value, r2). Ret (value, SetLastValue h value, r2)))"

section \<open>Histogram\<close>

record histo = number +
  histo_blockSize :: int
  histo_buckets :: "int list"
  histo_area :: int
  histo_weightedArea :: int

fun bucket_areas :: "int \<Rightarrow> int list \<Rightarrow> int \<times> int \<Rightarrow> int \<times> int" where
  "bucket_areas i [] (area, weightedArea) = (area, weightedArea)"
| "bucket_areas i (b # bs) (area, weightedArea) =
     bucket_areas (i + 1) bs (i64 (area + b), i64 (weightedArea + i64 (i * b)))"

definition NewHistogram :: "int list \<Rightarrow> int \<Rightarrow> histo" where
  "NewHistogram buckets blockSize =
     (let (area, weightedArea) = bucket_areas 0 buckets (0, 0) in
      \<lparr>LastValue = 0, histo_blockSize = blockSize, histo_buckets = buckets,
       histo_area = area, histo_weightedArea = weightedArea\<rparr>)"

text \<open>
  The loop of \<open>Histogram.Next\<close>, over all buckets but the last: \<open>Inr\<close> is its early return, \<open>Inl\<close> the
  index at which it falls through.
\<close>

fun histo_loop :: "int \<Rightarrow> int \<Rightarrow> int \<Rightarrow> int list \<Rightarrow> int + int" where
  "histo_loop blockSize i n [] = Inl i"
| "histo_loop blockSize i n [b] = Inl i"
| "histo_loop blockSize i n (b # c # bs) =
     (let n = i64 (n - b) in
      if n \<le> 0 then Inr (i64 (i64 (i + 1) * blockSize))
      else histo_loop blockSize (i64 (i + 1)) n (c # bs))"

definition Histogram_Next :: "histo \<Rightarrow> rand \<Rightarrow> (int \<times> histo \<times> rand) go" where
  "Histogram_Next h r =
     gbind (Int63n r (histo_area h)) (\<lambda>(n, r').
       case histo_loop (histo_blockSize h) 0 n (histo_buckets h) of
         Inr v \<Rightarrow> Ret (v, h, r')
       | Inl i \<Rightarrow> let v = i64 (i * histo_blockSize h) in Ret (v, SetLastValue h v, r'))"

section \<open>Constant, Counter, Uniform\<close>

interpretation cgen: last_gen Constant_Next Constant_Last
  by unfold_locales (auto simp: Constant_Next_def Constant_Last_def)

interpretation cgen: ranged_gen Constant_Next "\<lambda>_. True" constant_value constant_value
  by unfold_locales (auto simp: Constant_Next_def)

lemma Counter_Next_eq:
  "in_i64 (counter_val c) \<Longrightarrow>
   Counter_Next c r = Ret (counter_val c, c\<lparr>counter_val := i64 (counter_val c + 1)\<rparr>, r)"
  by (simp add: Counter_Next_def i64_simps)

interpretation counter: last_gen Counter_Next Counter_Last
  by unfold_locales (auto simp: Counter_Next_def Counter_Last_def Let_def)

text \<open>A counter started at \<open>start\<close> hands out \<open>start, start + 1, \<dots>\<close> without gap or repetition.\<close>

lemma Counter_run:
  "- (2 ^ 63) \<le> start \<Longrightarrow> start + int n < 2 ^ 63 \<Longrightarrow>
   run_gen Counter_Next n \<lparr>counter_val = start\<rparr> r =
     Ret (map (\<lambda>k. start + int k) [0..<n], \<lparr>counter_val = start + int n\<rparr>, r)"
proof (induction n arbitrary: start)
  case (Suc n)
  have "in_i64 start" and "i64 (start + 1) = start + 1"
    using Suc.prems by (auto simp: in_i64_def i64_id)
  then have "Counter_Next \<lparr>counter_val = start\<rparr> r = Ret (start, \<lparr>counter_val = start + 1\<rparr>, r)"
    by (simp add: Counter_Next_eq)
  moreover have "run_gen Counter_Next n \<lparr>counter_val = start + 1\<rparr> r =
      Ret (map (\<lambda>k. start + 1 + int k) [0..<n], \<lparr>counter_val = start + 1 + int n\<rparr>, r)"
    using Suc.prems by (intro Suc.IH) auto
  moreover have "map (\<lambda>k. start + int k) [0..<Suc n] = start # map (\<lambda>k. start + 1 + int k) [0..<n]"
    by (simp add: upt_conv_Cons map_Suc_upt [symmetric] comp_def algebra_simps del: upt_Suc)
  ultimately show ?case by (simp add: algebra_simps)
qed simp

definition uniform_inv :: "uniform \<Rightarrow> bool" where
  "uniform_inv u \<longleftrightarrow> in_i64 (uniform_lb u) \<and> in_i64 (uniform_ub u)
     \<and> uniform_lb u \<le> uniform_ub u \<and> uniform_interval u = uniform_ub u - uniform_lb u + 1"

lemma uniform_inv_New:
  "in_i64 lb \<Longrightarrow> in_i64 ub \<Longrightarrow> lb \<le> ub \<Longrightarrow> in_i64 (ub - lb + 1) \<Longrightarrow> uniform_inv (NewUniform lb ub)"
  by (simp add: uniform_inv_def NewUniform_def i64_simps)

lemma Uniform_Next_eq:
  "uniform_inv u \<Longrightarrow> Uniform_Next u r =
   (let v = uniform_lb u + int (r 0) mod (uniform_ub u - uniform_lb u + 1)
    in Ret (v, SetLastValue u v, advance r))"
proof -
  assume u: "uniform_inv u"
  let ?k = "int (r 0) mod (uniform_ub u - uniform_lb u + 1)"
  have "0 \<le> ?k" "?k \<le> uniform_ub u - uniform_lb u"
    using u pos_mod_bound [of "uniform_ub u - uniform_lb u + 1" "int (r 0)"] by (auto simp: uniform_inv_def)
  with u have "i64 (?k + uniform_lb u) = ?k + uniform_lb u"
    by (intro i64_id) (auto simp: uniform_inv_def in_i64_def)
  with u show ?thesis
    by (simp add: Uniform_Next_def Int63n_def uniform_inv_def Let_def add.commute)
qed

interpretation uniform: last_gen Uniform_Next Number_Last
  by unfold_locales (auto simp: Uniform_Next_def go_simps Let_def)

interpretation uniform: ranged_gen Uniform_Next uniform_inv uniform_lb uniform_ub
proof unfold_locales
  fix u :: uniform and r v u' r'
  assume u: "uniform_inv u"
  show "returns (Uniform_Next u r)" using u by (simp add: Uniform_Next_eq Let_def)
  assume n: "Uniform_Next u r = Ret (v, u', r')"
  have "int (r 0) mod (uniform_ub u - uniform_lb u + 1) < uniform_ub u - uniform_lb u + 1"
    using u by (intro pos_mod_bound) (simp add: uniform_inv_def)
  then show "uniform_lb u \<le> v \<and> v \<le> uniform_ub u"
    using u n by (auto simp: Uniform_Next_eq Let_def uniform_inv_def)
  show "uniform_inv u' \<and> uniform_lb u' = uniform_lb u \<and> uniform_ub u' = uniform_ub u"
    using u n by (auto simp: Uniform_Next_eq Let_def uniform_inv_def SetLastValue_def)
qed

section \<open>Sequential\<close>

lemma Sequential_Next_eq:
  assumes "in_i64 lo" and "in_i64 hi" and "lo \<le> hi" and "in_i64 (hi - lo + 1)" and "0 \<le> k" and "k < 2 ^ 63 - 1"
  shows "Sequential_Next \<lparr>sequential_counter = k, sequential_interval = hi - lo + 1, sequential_start = lo\<rparr> r =
    Ret (lo + (k + 1) mod (hi - lo + 1),
         \<lparr>sequential_counter = k + 1, sequential_interval = hi - lo + 1, sequential_start = lo\<rparr>, r)"
proof -
  have k: "i64 (k + 1) = k + 1" using assms by (intro i64_id) (auto simp: in_i64_def)
  have "(k + 1) mod (hi - lo + 1) < hi - lo + 1" using assms(3) by (intro pos_mod_bound) simp
  moreover have "0 \<le> (k + 1) mod (hi - lo + 1)" using assms(3) by simp
  ultimately have "i64 (lo + (k + 1) mod (hi - lo + 1)) = lo + (k + 1) mod (hi - lo + 1)"
    using assms(1,2) by (intro i64_id) (auto simp: in_i64_def)
  with k assms show ?thesis by (simp add: Sequential_Next_def go_mod_nonneg Let_def)
qed

lemma Sequential_run:
  assumes "in_i64 lo" and "in_i64 hi" and "lo \<le> hi" and "in_i64 (hi - lo + 1)"
  shows "0 \<le> k \<Longrightarrow> k + int n < 2 ^ 63 \<Longrightarrow>
    run_gen Sequential_Next n \<lparr>sequential_counter = k, sequential_interval = hi - lo + 1, sequential_start = lo\<rparr> r =
      Ret (map (\<lambda>j. lo + (k + 1 + int j) mod (hi - lo + 1)) [0..<n],
           \<lparr>sequential_counter = k + int n, sequential_interval = hi - lo + 1, sequential_start = lo\<rparr>, r)"
proof (induction n arbitrary: k)
  case (Suc n)
  have "map (\<lambda>j. lo + (k + 1 + int j) mod (hi - lo + 1)) [0..<Suc n] =
      (lo + (k + 1) mod (hi - lo + 1)) # map (\<lambda>j. lo + (k + 1 + 1 + int j) mod (hi - lo + 1)) [0..<n]"
    by (simp add: upt_conv_Cons map_Suc_upt [symmetric] comp_def algebra_simps del: upt_Suc)
  with Suc Sequential_Next_eq [OF assms, of k r] show ?case by (simp add: algebra_simps)
qed simp

section \<open>Discrete\<close>

lemma roulette_in: "roulette wsum val ps = Some v \<Longrightarrow> v \<in> snd ` set ps"
  by (induction wsum val ps rule: roulette.induct) (auto simp: Let_def split: if_splits)

lemma Discrete_Next_value:
  "Discrete_Next d r = Ret (v, d', r') \<Longrightarrow>
   v \<in> snd ` set (discrete_values d) \<and> discrete_values d' = discrete_values d"
  by (auto simp: Discrete_Next_def Let_def SetLastValue_def split: option.splits prod.splits
      dest: roulette_in)

interpretation discrete: last_gen Discrete_Next Number_Last
  by unfold_locales (auto simp: Discrete_Next_def Let_def split: option.splits prod.splits)

section \<open>Hotspot\<close>

text \<open>
  The rounding laws a bounds argument about \<open>float64(n) * f\<close> needs, and the bound itself, for any
  rounding that is monotone and exact on the integers of the range.
\<close>

locale rounding =
  fixes rd :: "real \<Rightarrow> real" and exact :: int
  assumes rd_mono: "x \<le> y \<Longrightarrow> rd x \<le> rd y"
    and rd_exact: "\<bar>n\<bar> \<le> exact \<Longrightarrow> rd (of_int n) = of_int n"
begin

lemma rd_between:
  assumes "of_int a \<le> x" and "x \<le> of_int b" and "\<bar>a\<bar> \<le> exact" and "\<bar>b\<bar> \<le> exact"
  shows "of_int a \<le> rd x \<and> rd x \<le> of_int b"
  using rd_mono [OF assms(1)] rd_mono [OF assms(2)] rd_exact [OF assms(3)] rd_exact [OF assms(4)]
  by simp

lemma scaled_bound:
  assumes "0 \<le> n" and "n \<le> exact" and "0 \<le> f" and "f \<le> 1"
  shows "0 \<le> rd (rd (of_int n) * f) \<and> rd (rd (of_int n) * f) \<le> of_int n"
proof -
  have e: "rd (of_int n) = of_int n" using assms by (intro rd_exact) simp
  have "of_int 0 \<le> of_int n * f" "of_int n * f \<le> of_int n"
    using assms by (auto intro: mult_left_le)
  with rd_between [of 0 "of_int n * f" n] assms show ?thesis by (simp add: e)
qed

end

interpretation binary64: rounding rnd "2 ^ 53"
  by unfold_locales (auto intro: rnd_mono simp: rnd_of_int)

lemma trunc_bound: "0 \<le> x \<Longrightarrow> x \<le> of_int n \<Longrightarrow> 0 \<le> trunc x \<and> trunc x \<le> n"
  by (simp add: trunc_def floor_le_iff)

lemma of_int64_Fin: "\<bar>n\<bar> \<le> 2 ^ 53 \<Longrightarrow> of_int64 n = Fin (of_int n)"
proof -
  assume n: "\<bar>n\<bar> \<le> 2 ^ 53"
  then have "real_of_int \<bar>n\<bar> \<le> real_of_int (2 ^ 53)" by (simp only: of_int_le_iff)
  also have "real_of_int (2 ^ 53) \<le> 2 ^ 1023" by simp
  finally show ?thesis using n by (simp add: of_int64_def fl_Fin rnd_of_int)
qed

lemma scaled_interval:
  assumes "0 \<le> n" and "n \<le> 2 ^ 53" and "0 \<le> f" and "f \<le> 1"
  shows "0 \<le> to_int64 (fmul (of_int64 n) (Fin f)) \<and> to_int64 (fmul (of_int64 n) (Fin f)) \<le> n"
proof -
  have e: "rnd (of_int n) = of_int n" using assms(1,2) by (intro rnd_of_int) simp
  have b: "0 \<le> rnd (of_int n * f)" "rnd (of_int n * f) \<le> of_int n"
    using binary64.scaled_bound [OF assms] unfolding e by auto
  have "of_int n * f \<le> of_int n" using assms by (auto intro: mult_left_le)
  also have "real_of_int n \<le> real_of_int (2 ^ 53)" using assms by (simp only: of_int_le_iff)
  also have "real_of_int (2 ^ 53) \<le> 2 ^ 1023" by simp
  finally have "\<bar>of_int n * f\<bar> \<le> 2 ^ 1023" using assms by simp
  then have "fmul (of_int64 n) (Fin f) = Fin (rnd (of_int n * f))"
    using assms by (simp add: of_int64_Fin fl_Fin)
  moreover have "in_i64 (trunc (rnd (of_int n * f)))"
    using trunc_bound [OF b] assms by (simp add: in_i64_def)
  ultimately show ?thesis using trunc_bound [OF b] by simp
qed

definition hotspot_inv :: "hotspot \<Rightarrow> bool" where
  "hotspot_inv h \<longleftrightarrow>
     in_i64 (hot_lowerBound h) \<and> in_i64 (hot_upperBound h)
     \<and> 0 \<le> hot_hotInterval h \<and> 0 \<le> hot_coldInterval h
     \<and> hot_hotInterval h + hot_coldInterval h = hot_upperBound h - hot_lowerBound h + 1
     \<and> (\<exists>q. hot_hotOpnFraction h = Fin q \<and> (0 < q \<longrightarrow> 0 < hot_hotInterval h)
            \<and> (q < 1 \<longrightarrow> 0 < hot_coldInterval h))"

lemma NewHotspot_intervals:
  assumes "in_i64 lb" and "in_i64 ub" and "lb \<le> ub" and "ub - lb + 1 \<le> 2 ^ 53"
    and "0 \<le> f" and "f \<le> 1"
  shows "hot_lowerBound (NewHotspot lb ub (Fin f) q) = lb"
    and "hot_upperBound (NewHotspot lb ub (Fin f) q) = ub"
    and "0 \<le> hot_hotInterval (NewHotspot lb ub (Fin f) q)"
    and "0 \<le> hot_coldInterval (NewHotspot lb ub (Fin f) q)"
    and "hot_hotInterval (NewHotspot lb ub (Fin f) q) + hot_coldInterval (NewHotspot lb ub (Fin f) q) = ub - lb + 1"
    and "hot_hotOpnFraction (NewHotspot lb ub (Fin f) q) = unit_fraction q"
proof -
  have uf: "unit_fraction (Fin f) = Fin f" using assms by (simp add: unit_fraction_def)
  have i: "i64 (i64 (ub - lb) + 1) = ub - lb + 1"
    using assms by (simp add: i64_add_left) (intro i64_id, simp add: in_i64_def)
  have h: "0 \<le> to_int64 (fmul (of_int64 (ub - lb + 1)) (Fin f))
      \<and> to_int64 (fmul (of_int64 (ub - lb + 1)) (Fin f)) \<le> ub - lb + 1"
    using assms by (intro scaled_interval) auto
  then have "i64 (ub - lb + 1 - to_int64 (fmul (of_int64 (ub - lb + 1)) (Fin f))) =
      ub - lb + 1 - to_int64 (fmul (of_int64 (ub - lb + 1)) (Fin f))"
    using assms by (intro i64_id) (auto simp: in_i64_def)
  with h uf i assms show
      "hot_lowerBound (NewHotspot lb ub (Fin f) q) = lb"
      "hot_upperBound (NewHotspot lb ub (Fin f) q) = ub"
      "0 \<le> hot_hotInterval (NewHotspot lb ub (Fin f) q)"
      "0 \<le> hot_coldInterval (NewHotspot lb ub (Fin f) q)"
      "hot_hotInterval (NewHotspot lb ub (Fin f) q) + hot_coldInterval (NewHotspot lb ub (Fin f) q) = ub - lb + 1"
      "hot_hotOpnFraction (NewHotspot lb ub (Fin f) q) = unit_fraction q"
    by (auto simp: NewHotspot_def Let_def)
qed

text \<open>The outcome of \<open>Hotspot.Next\<close>: which of the two intervals is drawn from, and the value.\<close>

lemma Hotspot_Next_eq:
  assumes "hotspot_inv h" and "hot_hotOpnFraction h = Fin q"
  shows "\<exists>v. Hotspot_Next h r = Ret (v, SetLastValue h v, advance (advance r))
     \<and> (if unit_draw r < q then hot_lowerBound h \<le> v \<and> v < hot_lowerBound h + hot_hotInterval h
        else hot_lowerBound h + hot_hotInterval h \<le> v \<and> v \<le> hot_upperBound h)"
proof -
  let ?lb = "hot_lowerBound h" and ?hi = "hot_hotInterval h" and ?ci = "hot_coldInterval h"
  have inv: "in_i64 ?lb" "in_i64 (hot_upperBound h)" "0 \<le> ?hi" "0 \<le> ?ci"
      "?hi + ?ci = hot_upperBound h - ?lb + 1" "0 < q \<Longrightarrow> 0 < ?hi" "q < 1 \<Longrightarrow> 0 < ?ci"
    using assms by (auto simp: hotspot_inv_def)
  have u: "0 \<le> unit_draw r" "unit_draw r < 1" using unit_draw_range [of r] by auto
  show ?thesis
  proof (cases "unit_draw r < q")
    case True
    let ?k = "int (advance r 0) mod ?hi"
    have "0 < ?hi" using True u inv by simp
    then have k: "0 \<le> ?k" "?k < ?hi" by auto
    with inv have "i64 (?lb + ?k) = ?lb + ?k" by (intro i64_id) (auto simp: in_i64_def)
    with True k \<open>0 < ?hi\<close> assms(2) show ?thesis
      by (simp add: Hotspot_Next_def rFloat64_eq Int63n_def)
  next
    case False
    let ?k = "int (advance r 0) mod ?ci"
    have "0 < ?ci" using False u inv by simp
    then have k: "0 \<le> ?k" "?k < ?ci" by auto
    with inv have "i64 (i64 (?lb + ?hi) + ?k) = ?lb + ?hi + ?k"
      unfolding i64_add_left by (intro i64_id) (auto simp: in_i64_def)
    moreover have "?lb + ?hi + ?k \<le> hot_upperBound h" using k inv by linarith
    ultimately show ?thesis
      using False k \<open>0 < ?ci\<close> assms(2) by (simp add: Hotspot_Next_def rFloat64_eq Int63n_def)
  qed
qed

interpretation hotspot: last_gen Hotspot_Next Number_Last
  by unfold_locales (auto simp: Hotspot_Next_def go_simps split: prod.splits if_splits)

interpretation hotspot: ranged_gen Hotspot_Next hotspot_inv hot_lowerBound hot_upperBound
proof unfold_locales
  fix h :: hotspot and r v h' r'
  assume h: "hotspot_inv h"
  then obtain q where q: "hot_hotOpnFraction h = Fin q" by (auto simp: hotspot_inv_def)
  from Hotspot_Next_eq [OF h q, of r] show "returns (Hotspot_Next h r)" by (auto simp: returns_iff)
  assume n: "Hotspot_Next h r = Ret (v, h', r')"
  from Hotspot_Next_eq [OF h q, of r] n h show "hot_lowerBound h \<le> v \<and> v \<le> hot_upperBound h"
    by (auto simp: hotspot_inv_def split: if_splits)
  from Hotspot_Next_eq [OF h q, of r] n h show
    "hotspot_inv h' \<and> hot_lowerBound h' = hot_lowerBound h \<and> hot_upperBound h' = hot_upperBound h"
    by (auto simp: hotspot_inv_def SetLastValue_def)
qed

text \<open>A hot set that rounds to no item makes every hot operation panic.\<close>

lemma Hotspot_empty_hot_panics:
  "hot_hotInterval h \<le> 0 \<Longrightarrow> hot_hotOpnFraction h = Fin q \<Longrightarrow> unit_draw r < q \<Longrightarrow>
   Hotspot_Next h r = Panic ''invalid argument to Int63n''"
  by (simp add: Hotspot_Next_def rFloat64_eq Int63n_def)

section \<open>Histogram\<close>

text \<open>
  The loop returns the first index whose cumulative weight reaches \<open>n\<close>, plus one, and falls through
  at the last index when none does.
\<close>

definition first_reaching :: "int \<Rightarrow> int list \<Rightarrow> nat \<Rightarrow> bool" where
  "first_reaching n bs j \<longleftrightarrow> j + 1 < length bs \<and> n \<le> sum_list (take (j + 1) bs)
     \<and> (\<forall>i<j. sum_list (take (i + 1) bs) < n)"

lemma first_reaching_Suc:
  "first_reaching n (b # bs) (Suc j) \<longleftrightarrow> b < n \<and> first_reaching (n - b) bs j"
  by (auto simp: first_reaching_def less_Suc_eq_0_disj)

lemma first_reaching_0: "first_reaching n (b # bs) 0 \<longleftrightarrow> bs \<noteq> [] \<and> n \<le> b"
  by (auto simp: first_reaching_def)

definition histo_fits :: "int \<Rightarrow> int \<Rightarrow> int list \<Rightarrow> bool" where
  "histo_fits blockSize i bs \<longleftrightarrow>
     (\<forall>b\<in>set bs. 0 \<le> b \<and> b < 2 ^ 63) \<and> 0 \<le> i \<and> i + int (length bs) < 2 ^ 63
     \<and> 0 \<le> blockSize \<and> (i + int (length bs)) * blockSize < 2 ^ 63"

lemma histo_fits_Cons: "histo_fits bsz i (b # bs) \<Longrightarrow> histo_fits bsz (i + 1) bs"
  by (auto simp: histo_fits_def algebra_simps)

lemma histo_loop_spec:
  "histo_fits bsz i bs \<Longrightarrow> bs \<noteq> [] \<Longrightarrow> 0 \<le> n \<Longrightarrow> n < 2 ^ 63 \<Longrightarrow>
   (case histo_loop bsz i n bs of
      Inr v \<Rightarrow> \<exists>j. first_reaching n bs j \<and> v = (i + int j + 1) * bsz
    | Inl k \<Rightarrow> (\<forall>j. \<not> first_reaching n bs j) \<and> k = i + int (length bs) - 1)"
proof (induction bsz i n bs rule: histo_loop.induct)
  case (1 bsz i n)
  then show ?case by simp
next
  case (2 bsz i n b)
  then show ?case by (simp add: first_reaching_def)
next
  case (3 bsz i n b c bs)
  have "0 \<le> b" "b < 2 ^ 63" using "3.prems"(1) by (auto simp: histo_fits_def)
  then have nb: "i64 (n - b) = n - b" using "3.prems"(3,4) by (intro i64_id) (auto simp: in_i64_def)
  have i1: "i64 (i + 1) = i + 1" using "3.prems"(1) by (intro i64_id) (auto simp: histo_fits_def in_i64_def)
  show ?case
  proof (cases "n \<le> b")
    case True
    have "(i + 1) * bsz \<le> (i + int (length (b # c # bs))) * bsz"
      using "3.prems"(1) by (intro mult_right_mono) (auto simp: histo_fits_def)
    then have "i64 ((i + 1) * bsz) = (i + 1) * bsz"
      using "3.prems"(1) by (intro i64_id) (auto simp: histo_fits_def in_i64_def intro: order_trans [of _ 0])
    with True nb i1 show ?thesis
      by (auto simp: first_reaching_0 intro: exI [of _ 0])
  next
    case False
    have "histo_fits bsz (i + 1) (c # bs)" using "3.prems"(1) by (rule histo_fits_Cons)
    then have IH: "case histo_loop bsz (i + 1) (n - b) (c # bs) of
        Inr v \<Rightarrow> \<exists>j. first_reaching (n - b) (c # bs) j \<and> v = (i + 1 + int j + 1) * bsz
      | Inl k \<Rightarrow> (\<forall>j. \<not> first_reaching (n - b) (c # bs) j) \<and> k = i + 1 + int (length (c # bs)) - 1"
      using False "3.prems" \<open>0 \<le> b\<close> by (intro "3.IH" [of "n - b", unfolded nb i1]) auto
    have step: "histo_loop bsz i n (b # c # bs) = histo_loop bsz (i + 1) (n - b) (c # bs)"
      using False nb i1 by simp
    show ?thesis
    proof (cases "histo_loop bsz (i + 1) (n - b) (c # bs)")
      case (Inl k)
      have "\<not> first_reaching n (b # c # bs) j" for j
        using IH Inl False by (cases j) (auto simp: first_reaching_0 first_reaching_Suc)
      with IH Inl step show ?thesis by simp
    next
      case (Inr v)
      with IH obtain j where "first_reaching (n - b) (c # bs) j" "v = (i + 1 + int j + 1) * bsz" by auto
      with False Inr step show ?thesis
        by (auto simp: first_reaching_Suc intro!: exI [of _ "Suc j"] simp: algebra_simps)
    qed
  qed
qed

lemma bucket_areas_eq:
  "\<forall>b\<in>set bs. 0 \<le> b \<Longrightarrow> 0 \<le> a \<Longrightarrow> a + sum_list bs < 2 ^ 63 \<Longrightarrow> fst (bucket_areas i bs (a, w)) = a + sum_list bs"
proof (induction bs arbitrary: i a w)
  case (Cons b bs)
  have "0 \<le> sum_list bs" using Cons.prems(1) by (intro sum_list_nonneg) auto
  then have "i64 (a + b) = a + b" using Cons.prems by (intro i64_id) (auto simp: in_i64_def)
  moreover have "fst (bucket_areas (i + 1) bs (a + b, i64 (w + i64 (i * b)))) = a + b + sum_list bs"
    using Cons.prems by (intro Cons.IH) auto
  ultimately show ?case by (simp add: add.assoc)
qed simp

lemma roulette_leftover:
  "roulette (weight_sum [(fl (6 / 100), 1), (fl (10 / 100), 2), (fl (84 / 100), 3)])
      (Fin (9007199254740991 / 9007199254740992))
      [(fl (6 / 100), 1), (fl (10 / 100), 2), (fl (84 / 100), 3)] = None"
proof -
  have w: "fl (6 / 100) = Fin (8646911284551352 / 2 ^ 57)" "fl (10 / 100) = Fin (7205759403792794 / 2 ^ 56)"
    "fl (84 / 100) = Fin (7566047373982433 / 2 ^ 53)"
    using fl_eqI [of "6 / 100" 5 8646911284551352] fl_eqI [of "10 / 100" 4 7205759403792794]
      fl_eqI [of "84 / 100" 1 7566047373982433] by simp_all
  have s: "fl (8646911284551352 / 2 ^ 57) = Fin (8646911284551352 / 2 ^ 57)"
    "fl (8646911284551352 / 2 ^ 57 + 7205759403792794 / 2 ^ 56) = Fin (5764607523034235 / 2 ^ 55)"
    "fl (5764607523034235 / 2 ^ 55 + 7566047373982433 / 2 ^ 53) = Fin 1"
    "fl (7205759403792794 / 2 ^ 56) = Fin (7205759403792794 / 2 ^ 56)"
    "fl (7566047373982433 / 2 ^ 53) = Fin (7566047373982433 / 2 ^ 53)"
    "fl (9007199254740991 / 9007199254740992 - 8646911284551352 / 2 ^ 57) = Fin (8466767299456532 / 2 ^ 53)"
    "fl (8466767299456532 / 2 ^ 53 - 7205759403792794 / 2 ^ 56) = Fin (7566047373982433 / 2 ^ 53)"
    using fl_eqI [of "8646911284551352 / 2 ^ 57" 5 8646911284551352]
      fl_eqI [of "8646911284551352 / 2 ^ 57 + 7205759403792794 / 2 ^ 56" 3 5764607523034235]
      fl_eqI [of "5764607523034235 / 2 ^ 55 + 7566047373982433 / 2 ^ 53" 1 9007199254740992]
      fl_eqI [of "7205759403792794 / 2 ^ 56" 4 7205759403792794]
      fl_eqI [of "7566047373982433 / 2 ^ 53" 1 7566047373982433]
      fl_eqI [of "9007199254740991 / 9007199254740992 - 8646911284551352 / 2 ^ 57" 1 8466767299456532]
      fl_eqI [of "8466767299456532 / 2 ^ 53 - 7205759403792794 / 2 ^ 56" 1 7566047373982433]
    by simp_all
  show ?thesis using s unfolding w by (simp add: weight_sum_def fsub_def Let_def)
qed
section \<open>Properties\<close>


text \<open>
  A counter hands out \<open>start, start + 1, \<dots>\<close> without gap or repetition, and \<open>Last\<close> is the value handed out
  last, until the end of \<open>int64\<close> is reached.
\<close>

theorem counter_sequence:
  assumes "in_i64 start" and "start + int n < 2 ^ 63"
  shows "\<exists>c. run_gen Counter_Next n (NewCounter start) r = Ret (map (\<lambda>k. start + int k) [0..<n], c, r)
    \<and> (0 < n \<longrightarrow> Counter_Last c = start + int n - 1)"
  using Counter_run [of start n r] assms by (auto simp: NewCounter_def Counter_Last_def in_i64_def i64_id)

theorem counter_sequence_witness:
  "\<exists>c. run_gen Counter_Next 3 (NewCounter 7) (\<lambda>_. 0) = Ret ([7, 8, 9], c, (\<lambda>_. 0)) \<and> Counter_Last c = 9"
  using counter_sequence [of 7 3 "\<lambda>_. 0"] by (simp add: in_i64_def numeral_3_eq_3)

text \<open>
  A run of \<open>Uniform.Next\<close> of any length over \<open>[lb, ub]\<close> returns, every value lies between the bounds, both
  included, \<open>Last\<close> is the last value, and every value of the interval is drawn by some random source.
\<close>

theorem uniform_run:
  assumes "in_i64 lb" and "in_i64 ub" and "lb \<le> ub" and "ub - lb + 1 < 2 ^ 63"
  shows "(\<exists>vs u r'. run_gen Uniform_Next n (NewUniform lb ub) r = Ret (vs, u, r') \<and> length vs = n
      \<and> set vs \<subseteq> {lb..ub} \<and> (vs \<noteq> [] \<longrightarrow> Number_Last u = last vs))
    \<and> (\<forall>v\<in>{lb..ub}. \<exists>r u r'. Uniform_Next (NewUniform lb ub) r = Ret (v, u, r'))"
proof
  have inv: "uniform_inv (NewUniform lb ub)" using assms by (intro uniform_inv_New) (auto simp: in_i64_def)
  have b: "uniform_lb (NewUniform lb ub) = lb" "uniform_ub (NewUniform lb ub) = ub" by (simp_all add: NewUniform_def)
  obtain vs u r' where run: "run_gen Uniform_Next n (NewUniform lb ub) r = Ret (vs, u, r')" "length vs = n"
      "\<forall>v\<in>set vs. lb \<le> v \<and> v \<le> ub"
    using uniform.run_in_range [OF inv, of n r] unfolding b by blast
  then show "\<exists>vs u r'. run_gen Uniform_Next n (NewUniform lb ub) r = Ret (vs, u, r') \<and> length vs = n
      \<and> set vs \<subseteq> {lb..ub} \<and> (vs \<noteq> [] \<longrightarrow> Number_Last u = last vs)"
    using uniform.last_run [OF run(1)] by (auto simp: subset_eq)
  show "\<forall>v\<in>{lb..ub}. \<exists>r u r'. Uniform_Next (NewUniform lb ub) r = Ret (v, u, r')"
  proof
    fix v assume v: "v \<in> {lb..ub}"
    have "int (nat (v - lb)) mod (ub - lb + 1) = v - lb" using v by simp
    then show "\<exists>r u r'. Uniform_Next (NewUniform lb ub) r = Ret (v, u, r')"
      using Uniform_Next_eq [OF inv, of "\<lambda>_. nat (v - lb)"] unfolding b by (auto simp: Let_def)
  qed
qed

theorem uniform_run_witness:
  "\<exists>vs u r'. run_gen Uniform_Next 2 (NewUniform 5 9) (\<lambda>i. i) = Ret (vs, u, r') \<and> set vs \<subseteq> {5..9}"
  using uniform_run [of 5 9 2 "\<lambda>i. i"] by (auto simp: in_i64_def)

text \<open>
  \<open>Sequential.Next\<close> visits every value of \<open>[countStart, countEnd]\<close> exactly once per cycle. The cycle begins
  with the second value of the interval: the counter is incremented before it is used, although
  the comment announces the sequence \<open>0, 1, \<dots>\<close>.
\<close>

theorem sequential_cycle:
  assumes "in_i64 lo" and "in_i64 hi" and "lo < hi" and "hi - lo + 1 < 2 ^ 63"
  shows "\<exists>vs s. run_gen Sequential_Next (nat (hi - lo + 1)) (NewSequential lo hi) r = Ret (vs, s, r)
    \<and> distinct vs \<and> set vs = {lo..hi} \<and> hd vs = lo + 1 \<and> last vs = lo"
proof -
  let ?n = "nat (hi - lo + 1)" and ?k = "hi - lo + 1"
  let ?vs = "map (\<lambda>j. lo + (1 + int j) mod ?k) [0..<?n]"
  have new: "NewSequential lo hi = \<lparr>sequential_counter = 0, sequential_interval = ?k, sequential_start = lo\<rparr>"
    using assms by (simp add: NewSequential_def i64_id in_i64_def)
  have "\<exists>s. run_gen Sequential_Next ?n (NewSequential lo hi) r = Ret (?vs, s, r)"
    using Sequential_run [of lo hi 0 ?n r] assms by (auto simp: new in_i64_def)
  moreover have img: "set ?vs = {lo..hi}"
  proof
    show "set ?vs \<subseteq> {lo..hi}" using assms(3) by (auto intro: pos_mod_sign) (smt (verit) pos_mod_bound)
    show "{lo..hi} \<subseteq> set ?vs"
    proof
      fix v assume v: "v \<in> {lo..hi}"
      show "v \<in> set ?vs"
      proof (cases "v = lo")
        case True
        have n1: "1 + int (?n - 1) = ?k" using assms(3) by simp
        have "v = lo + (1 + int (?n - 1)) mod ?k" unfolding n1 using True by simp
        moreover have "?n - 1 \<in> set [0..<?n]" using assms(3) by simp
        ultimately show ?thesis unfolding set_map by blast
      next
        case False
        then have "v = lo + (1 + int (nat (v - lo - 1))) mod ?k" "nat (v - lo - 1) \<in> set [0..<?n]" using v by auto
        then show ?thesis unfolding set_map by blast
      qed
    qed
  qed
  moreover have "distinct ?vs" using img by (intro card_distinct) simp
  moreover have "hd ?vs = lo + 1" using assms(3) by (simp add: hd_map)
  moreover have "last ?vs = lo"
  proof -
    have "1 + int (?n - 1) = ?k" using assms(3) by simp
    then have "(1 + int (?n - 1)) mod ?k = 0" by (simp only: mod_self)
    then show ?thesis using assms(3) by (simp add: last_map last_upt del: of_nat_diff)
  qed
  ultimately show ?thesis by blast
qed

theorem sequential_cycle_witness:
  "\<exists>vs s. run_gen Sequential_Next 3 (NewSequential 4 6) (\<lambda>_. 0) = Ret (vs, s, (\<lambda>_. 0))
     \<and> distinct vs \<and> set vs = {4..6} \<and> hd vs = 5 \<and> last vs = 4"
  using sequential_cycle [of 4 6 "\<lambda>_. 0"] by (simp add: in_i64_def)

text \<open>
  \<open>Hotspot\<close>: with fractions strictly between 0 and 1 and a hot set and a cold set that are not empty, every run
  of \<open>Next\<close> returns and stays within the bounds; an operation is drawn from the hot set, the first
  \<open>hotInterval\<close> items, exactly when the random fraction is below \<open>hotOpnFraction\<close>, and from the rest otherwise.
\<close>

theorem hotspot_split:
  assumes "in_i64 lb" and "in_i64 ub" and "lb \<le> ub" and "ub - lb + 1 \<le> 2 ^ 53"
    and "0 < f" and "f < 1" and "0 < q" and "q < 1"
    and "h = NewHotspot lb ub (Fin f) (Fin q)" and "0 < hot_hotInterval h" and "0 < hot_coldInterval h"
  shows "(\<exists>vs h' r'. run_gen Hotspot_Next n h r = Ret (vs, h', r') \<and> length vs = n \<and> set vs \<subseteq> {lb..ub})
    \<and> (\<exists>v h' r'. Hotspot_Next h r = Ret (v, h', r')
         \<and> v \<in> (if unit_draw r < q then {lb..<lb + hot_hotInterval h} else {lb + hot_hotInterval h..ub}))"
proof -
  note n = NewHotspot_intervals [OF assms(1-4), of f "Fin q", folded assms(9)]
  have q: "hot_hotOpnFraction h = Fin q" using n(6) assms by (simp add: unit_fraction_def)
  have b: "hot_lowerBound h = lb" "hot_upperBound h = ub" using n(1,2) assms(5,6) by simp_all
  have inv: "hotspot_inv h" using n assms q by (simp add: hotspot_inv_def)
  show ?thesis using hotspot.run_in_range [OF inv, of n r] Hotspot_Next_eq [OF inv q, of r]
    by (fastforce simp: b subset_eq split: if_splits)
qed

theorem hotspot_split_witness:
  "\<exists>vs h' r'. run_gen Hotspot_Next 4 (NewHotspot 0 99 (Fin (1 / 4)) (Fin (1 / 2))) (\<lambda>i. i) = Ret (vs, h', r')
     \<and> set vs \<subseteq> {0..99}"
proof -
  let ?h = "NewHotspot 0 99 (Fin (1 / 4)) (Fin (1 / 2))"
  have "rnd (100 :: real) = 100" "rnd (25 :: real) = 25" using rnd_of_int [of 100] rnd_of_int [of 25] by simp_all
  then have "hot_hotInterval ?h = 25" "hot_coldInterval ?h = 75"
    by (simp_all add: NewHotspot_def unit_fraction_def Let_def i64_id in_i64_def of_int64_def fl_Fin trunc_def)
  then show ?thesis
    using hotspot_split [of 0 99 "1 / 4" "1 / 2" ?h 4 "\<lambda>i. i"] by (auto simp: in_i64_def)
qed

text \<open>
  A hot set fraction outside \<open>[0, 1]\<close> is replaced by 0, which leaves no hot item: with a positive hot
  operation fraction some draw then panics in \<open>Int63n\<close> instead of the value being rejected at start-up.
\<close>

theorem hotspot_bad_fraction_panics:
  assumes "in_i64 lb" and "in_i64 ub" and "lb \<le> ub" and "ub - lb + 1 \<le> 2 ^ 53"
    and "f < 0 \<or> 1 < f" and "0 < q" and "q \<le> 1"
  shows "Hotspot_Next (NewHotspot lb ub (Fin f) (Fin q)) (\<lambda>_. 0) = Panic ''invalid argument to Int63n''"
proof (rule Hotspot_empty_hot_panics [of _ q])
  show "hot_hotInterval (NewHotspot lb ub (Fin f) (Fin q)) \<le> 0"
  proof -
    have "i64 (i64 (ub - lb) + 1) = ub - lb + 1" using assms by (simp add: i64_id in_i64_def)
    moreover have "to_int64 (fmul (of_int64 (ub - lb + 1)) (Fin 0)) = 0"
      using scaled_interval [of "ub - lb + 1" 0] of_int64_Fin [of "ub - lb + 1"] assms
      by (simp add: fl_def trunc_def in_i64_def)
    ultimately show ?thesis using assms by (auto simp: NewHotspot_def unit_fraction_def Let_def)
  qed
  show "hot_hotOpnFraction (NewHotspot lb ub (Fin f) (Fin q)) = Fin q"
    using assms by (auto simp: NewHotspot_def unit_fraction_def Let_def)
  show "unit_draw (\<lambda>_. 0) < q" using assms by (simp add: unit_draw_def)
qed

theorem hotspot_bad_fraction_panics_witness:
  "Hotspot_Next (NewHotspot 0 99 (Fin 2) (Fin (1 / 2))) (\<lambda>_. 0) = Panic ''invalid argument to Int63n''"
  using hotspot_bad_fraction_panics [of 0 99 2 "1 / 2"] by (simp add: in_i64_def)

text \<open>
  \<open>Histogram.Next\<close> returns for every draw the upper end of the first bucket whose cumulative weight reaches
  it, and the last block if there is none; every value is between one block and the number of
  buckets minus one, in blocks.
\<close>

theorem histogram_bucket:
  assumes "histo_fits bsz 0 bs" and "2 \<le> length bs" and "0 < sum_list bs" and "sum_list bs < 2 ^ 63"
  shows "\<exists>k h' r'. Histogram_Next (NewHistogram bs bsz) r = Ret (int k * bsz, h', r') \<and> 1 \<le> k \<and> k < length bs
    \<and> (first_reaching (int (r 0) mod sum_list bs) bs (k - 1)
       \<or> k = length bs - 1 \<and> (\<forall>j. \<not> first_reaching (int (r 0) mod sum_list bs) bs j))"
proof -
  let ?h = "NewHistogram bs bsz" and ?n = "int (r 0) mod sum_list bs"
  have area: "histo_area ?h = sum_list bs" and f: "histo_blockSize ?h = bsz" "histo_buckets ?h = bs"
    using bucket_areas_eq [of bs 0 0 0] assms
    by (auto simp: NewHistogram_def histo_fits_def split: prod.splits)
  have n: "0 \<le> ?n" "?n < 2 ^ 63"
    using assms(3,4) by (auto intro: less_trans [OF pos_mod_bound [OF assms(3)]])
  have "bs \<noteq> []" using assms(2) by auto
  note spec = histo_loop_spec [OF assms(1) this n]
  show ?thesis
  proof (cases "histo_loop bsz 0 ?n bs")
    case (Inl k)
    with spec have k: "k = int (length bs - 1)" and no: "\<forall>j. \<not> first_reaching ?n bs j" using assms(2) by auto
    then have "k * bsz \<le> int (length bs) * bsz" "0 \<le> k * bsz"
      using assms(1,2) by (auto intro!: mult_right_mono mult_nonneg_nonneg simp: histo_fits_def)
    then have "i64 (k * bsz) = k * bsz"
      using assms(1) by (intro i64_id) (auto simp: histo_fits_def in_i64_def)
    then have "Histogram_Next ?h r = Ret (int (length bs - 1) * bsz, SetLastValue ?h (int (length bs - 1) * bsz), advance r)"
      using Inl k assms(3) by (simp add: Histogram_Next_def Int63n_def area f Let_def)
    then show ?thesis using no assms(2) by (intro exI [of _ "length bs - 1"]) auto
  next
    case (Inr v)
    with spec obtain j where j: "first_reaching ?n bs j" "v = int (j + 1) * bsz" by auto
    then have "Histogram_Next ?h r = Ret (int (j + 1) * bsz, ?h, advance r)"
      using Inr assms(3) by (simp add: Histogram_Next_def Int63n_def area f)
    then show ?thesis using j(1) by (intro exI [of _ "j + 1"]) (auto simp: first_reaching_def)
  qed
qed

theorem histogram_bucket_witness:
  "\<exists>k h' r'. Histogram_Next (NewHistogram [0, 3, 5] 10) (\<lambda>_. 12) = Ret (int k * 10, h', r') \<and> 1 \<le> k \<and> k < 3"
  using histogram_bucket [of 10 "[0, 3, 5]" "\<lambda>_. 12"] by (auto simp: histo_fits_def numeral_3_eq_3)

text \<open>
  \<open>Discrete.Next\<close> can reach its ``oops'' panic: with the proportions 0.06, 0.10 and 0.84 and the largest
  fraction \<open>Float64\<close> returns, rounding leaves a remainder that is not below the last weight.
\<close>

theorem discrete_rounding_panics:
  "Discrete_Next (Discrete_Add (Discrete_Add (Discrete_Add NewDiscrete (fl (6 / 100)) 1) (fl (10 / 100)) 2) (fl (84 / 100)) 3)
     (\<lambda>_. 2 ^ 53 - 1) = Panic ''oops, should not get here.''"
proof -
  let ?ps = "[(fl (6 / 100), 1), (fl (10 / 100), 2), (fl (84 / 100), 3)] :: (float64 \<times> int) list"
  have d: "unit_draw (\<lambda>_. 2 ^ 53 - 1) = 9007199254740991 / 9007199254740992" by (simp add: unit_draw_def)
  have "discrete_values (Discrete_Add (Discrete_Add (Discrete_Add NewDiscrete (fl (6 / 100)) 1) (fl (10 / 100)) 2) (fl (84 / 100)) 3) = ?ps"
    by (simp only: Discrete_Add_def NewDiscrete_def discrete.simps append.simps)
  then show ?thesis
    unfolding Discrete_Next_def rFloat64_eq Let_def prod.case d by (simp only: roulette_leftover option.case)
qed

end
