(* ===== verification/AckCounter.thy ===== *)
theory AckCounter
  imports Generators
begin

text \<open>
  \<open>SpinLock\<close> of \<^verbatim>\<open>pkg/util/spinlock.go\<close> and \<open>AcknowledgedCounter\<close> of \<^verbatim>\<open>pkg/generator/acknowledged_counter.go\<close>. The
  window is an array of \<open>WindowSize\<close> flags, a function on slots; every access is through
  \<open>value & WindowMask\<close>, so it is in range. First the sequential operations with their refinement of the
  set of acknowledged values, then the interleaving of concurrent \<open>Acknowledge\<close> calls as a step relation.
\<close>

section \<open>SpinLock\<close>

record spinlock =
  spin_f :: int

definition Lock_free :: spinlock where
  "Lock_free = \<lparr>spin_f = 0\<rparr>"

definition TryLock :: "spinlock \<Rightarrow> bool \<times> spinlock" where
  "TryLock sl = (if spin_f sl = 0 then (True, sl\<lparr>spin_f := 1\<rparr>) else (False, sl))"

definition Unlock :: "spinlock \<Rightarrow> spinlock" where
  "Unlock sl = sl\<lparr>spin_f := 0\<rparr>"

text \<open>\<open>Lock\<close> spins on \<open>TryLock\<close>; alone it does not return while the lock is held.\<close>

fun Lock :: "nat \<Rightarrow> spinlock \<Rightarrow> spinlock go" where
  "Lock 0 sl = Hang"
| "Lock (Suc fuel) sl = (let (ok, sl') = TryLock sl in if ok then Ret sl' else Lock fuel sl')"

definition SpinLock_String :: "spinlock \<Rightarrow> string" where
  "SpinLock_String sl = (if spin_f sl = 1 then ''Locked'' else ''Unlocked'')"

lemma Lock_returns_iff: "returns (Lock (Suc fuel) sl) \<longleftrightarrow> spin_f sl = 0"
proof (cases "spin_f sl = 0")
  case False
  have "Lock n sl = Hang" for n using False by (induction n) (auto simp: TryLock_def)
  then show ?thesis using False by (simp add: TryLock_def)
qed (simp add: TryLock_def)

lemma TryLock_excludes: "TryLock sl = (True, sl') \<Longrightarrow> TryLock sl' = (False, sl')"
  by (auto simp: TryLock_def split: if_splits)

lemma TryLock_Unlock: "TryLock sl = (True, sl') \<Longrightarrow> Unlock sl' = sl"
  by (auto simp: TryLock_def Unlock_def split: if_splits)

section \<open>AcknowledgedCounter\<close>

definition WindowSize :: int where
  "WindowSize = push_bit 20 1"

definition WindowMask :: int where
  "WindowMask = WindowSize - 1"

record ackcounter =
  ack_c :: counter
  ack_lock :: spinlock
  ack_window :: "int \<Rightarrow> bool"
  ack_limit :: int

definition NewAcknowledgedCounter :: "int \<Rightarrow> ackcounter" where
  "NewAcknowledgedCounter start =
     \<lparr>ack_c = \<lparr>counter_val = start\<rparr>, ack_lock = Lock_free, ack_window = (\<lambda>_. False),
      ack_limit = i64 (start - 1)\<rparr>"

definition Ack_Next :: "ackcounter \<Rightarrow> rand \<Rightarrow> (int \<times> ackcounter \<times> rand) go" where
  "Ack_Next a r = gbind (Counter_Next (ack_c a) r) (\<lambda>(v, c', r'). Ret (v, a\<lparr>ack_c := c'\<rparr>, r'))"

definition Ack_Last :: "ackcounter \<Rightarrow> int" where
  "Ack_Last a = ack_limit a"

definition slot :: "int \<Rightarrow> int" where
  "slot value = value AND WindowMask"

lemma WindowSize_eq: "WindowSize = 2 ^ 20"
  by (simp add: WindowSize_def)

lemma slot_eq_mod: "slot v = v mod 2 ^ 20"
proof -
  have m: "WindowMask = mask 20" by (simp add: WindowMask_def WindowSize_eq mask_eq_exp_minus_1)
  have "slot v = take_bit 20 v" by (simp only: slot_def m take_bit_eq_mask)
  then show ?thesis by (simp add: take_bit_eq_mod)
qed

lemma slot_range: "0 \<le> slot v \<and> slot v < WindowSize"
  by (simp add: slot_eq_mod WindowSize_eq)

text \<open>
  The loop that moves a contiguous sequence from the window over to the limit. Each iteration
  clears a flag that was set, so it ends after at most \<open>WindowSize\<close> iterations.
\<close>

definition flags_set :: "(int \<Rightarrow> bool) \<Rightarrow> nat" where
  "flags_set w = card {s. 0 \<le> s \<and> s < WindowSize \<and> w s}"

lemma flags_set_clear: "w (slot v) \<Longrightarrow> flags_set (w(slot v := False)) < flags_set w"
proof -
  assume w: "w (slot v)"
  have fin: "finite {s. 0 \<le> s \<and> s < WindowSize \<and> w s}"
    by (rule finite_subset [of _ "{0..<WindowSize}"]) auto
  have "{s. 0 \<le> s \<and> s < WindowSize \<and> (w(slot v := False)) s} = {s. 0 \<le> s \<and> s < WindowSize \<and> w s} - {slot v}"
    by auto
  moreover have "slot v \<in> {s. 0 \<le> s \<and> s < WindowSize \<and> w s}" using w slot_range by auto
  ultimately show ?thesis unfolding flags_set_def by (metis card_Diff1_less fin)
qed

function ack_loop :: "int \<Rightarrow> int \<Rightarrow> (int \<Rightarrow> bool) \<Rightarrow> int \<times> (int \<Rightarrow> bool)" where
  "ack_loop beforeFirstSlot index window =
     (if index \<noteq> beforeFirstSlot \<and> window (slot index)
      then ack_loop beforeFirstSlot (i64 (index + 1)) (window(slot index := False))
      else (index, window))"
  by pat_completeness auto
termination
  by (relation "measure (\<lambda>(b, i, w). flags_set w)") (auto simp: flags_set_clear)

declare ack_loop.simps [simp del]

definition Acknowledge :: "ackcounter \<Rightarrow> int \<Rightarrow> ackcounter go" where
  "Acknowledge a value =
     (let currentSlot = slot value in
      if ack_window a currentSlot then Panic ''Too many unacknowledged insertion keys.''
      else
        let a1 = a\<lparr>ack_window := (ack_window a)(currentSlot := True)\<rparr>;
            (ok, l) = TryLock (ack_lock a1) in
        if \<not> ok then Ret a1
        else
          let limit = ack_limit a1;
              beforeFirstSlot = slot limit;
              (index, w) = ack_loop beforeFirstSlot (i64 (limit + 1)) (ack_window a1)
          in Ret (a1\<lparr>ack_window := w, ack_limit := i64 (index - 1), ack_lock := Unlock l\<rparr>))"

section \<open>Refinement: the limit is the end of the acknowledged prefix\<close>

text \<open>
  The abstract state of a counter that started at \<open>start\<close> is the set of values acknowledged so far.
  The invariant ties the window to the acknowledged values above the limit, which lie within one
  window of it.
\<close>

definition pending :: "int set \<Rightarrow> int \<Rightarrow> int set" where
  "pending A i = {v \<in> A. i \<le> v}"

definition window_ok :: "(int \<Rightarrow> bool) \<Rightarrow> int set \<Rightarrow> int \<Rightarrow> bool" where
  "window_ok w A i \<longleftrightarrow> (\<forall>s. w s \<longleftrightarrow> (\<exists>v\<in>pending A i. slot v = s))"

lemma slot_same: "slot u = slot v \<Longrightarrow> \<bar>u - v\<bar> < WindowSize \<Longrightarrow> u = v"
proof -
  assume "slot u = slot v" and lt: "\<bar>u - v\<bar> < WindowSize"
  then have "2 ^ 20 dvd u - v" by (simp add: slot_eq_mod mod_eq_dvd_iff)
  with lt show ?thesis
    by (metis WindowSize_eq dvd_abs_iff eq_iff_diff_eq_0 abs_eq_0 abs_ge_zero order_le_less zdvd_not_zless)
qed

lemma window_head:
  assumes "window_ok w A i" and "pending A i \<subseteq> {i..<i + WindowSize}"
  shows "w (slot i) \<longleftrightarrow> i \<in> A"
proof
  assume "w (slot i)"
  then obtain v where "v \<in> pending A i" "slot v = slot i" using assms(1) by (auto simp: window_ok_def)
  moreover from this(1) assms(2) have "\<bar>v - i\<bar> < WindowSize" by auto
  ultimately show "i \<in> A" using slot_same [of v i] by (auto simp: pending_def)
qed (use assms(1) in \<open>auto simp: window_ok_def pending_def\<close>)

lemma window_step:
  assumes "window_ok w A i" and "pending A i \<subseteq> {i..<i + WindowSize}" and "i \<in> A"
  shows "window_ok (w(slot i := False)) A (i + 1)"
proof -
  have "pending A (i + 1) = pending A i - {i}" by (auto simp: pending_def)
  moreover have "slot v \<noteq> slot i" if "v \<in> pending A i - {i}" for v
    using that assms(2) slot_same [of v i] by auto
  ultimately show ?thesis using assms(1,3) by (auto simp: window_ok_def pending_def)
qed

lemma ack_loop_spec:
  assumes "window_ok w A i" and "pending A i \<subseteq> {i..<M}" and "M \<le> i + WindowSize" and "M < 2 ^ 63"
    and "- (2 ^ 63) \<le> i" and "b < i"
  shows "\<exists>j w'. ack_loop b i w = (j, w') \<and> i \<le> j \<and> {i..<j} \<subseteq> A \<and> j \<notin> A \<and> window_ok w' A j"
  using assms
proof (induction b i w rule: ack_loop.induct)
  case (1 b i w)
  have sub: "pending A i \<subseteq> {i..<i + WindowSize}" using "1.prems"(2,3) by auto
  note head = window_head [OF "1.prems"(1) sub]
  show ?case
  proof (cases "i \<in> A")
    case True
    then have "i < M" using "1.prems"(2) by (auto simp: pending_def)
    then have i1: "i64 (i + 1) = i + 1" using "1.prems"(4,5) by (intro i64_id) (auto simp: in_i64_def)
    have c: "i \<noteq> b \<and> w (slot i)" using "1.prems"(6) head True by simp
    have wok: "window_ok (w(slot i := False)) A (i + 1)" using "1.prems"(1) sub True by (rule window_step)
    have pend: "pending A (i + 1) \<subseteq> {i + 1..<M}" using "1.prems"(2) by (auto simp: pending_def)
    have bounds: "M \<le> i + 1 + WindowSize" "- (2 ^ 63) \<le> i + 1" "b < i + 1" using "1.prems"(3,5,6) by auto
    have "\<exists>j w'. ack_loop b (i + 1) (w(slot i := False)) = (j, w') \<and> i + 1 \<le> j
        \<and> {i + 1..<j} \<subseteq> A \<and> j \<notin> A \<and> window_ok w' A j"
      using "1.IH" [unfolded i1, OF c wok pend bounds(1) "1.prems"(4) bounds(2,3)] .
    then obtain j w' where IH: "ack_loop b (i + 1) (w(slot i := False)) = (j, w')" "i + 1 \<le> j"
        "{i + 1..<j} \<subseteq> A" "j \<notin> A" "window_ok w' A j" by blast
    have "{i..<j} \<subseteq> A" using IH(2,3) True by (auto simp: subset_eq order_le_less)
    with IH show ?thesis
      using "1.prems"(6) head True by (auto simp: ack_loop.simps [of b i w] i1)
  next
    case False
    then show ?thesis using head "1.prems"(1) by (auto simp: ack_loop.simps [of b i w])
  qed
qed

text \<open>
  The invariant of the sequential counter: the lock is free, everything up to the limit is
  acknowledged, the next value is not, and the values above the limit are those in the window.
\<close>

definition ack_inv :: "int \<Rightarrow> int set \<Rightarrow> ackcounter \<Rightarrow> bool" where
  "ack_inv start A a \<longleftrightarrow>
     ack_lock a = Lock_free \<and> 1 \<le> start \<and> start - 1 \<le> ack_limit a
     \<and> {start..ack_limit a} \<subseteq> A \<and> ack_limit a + 1 \<notin> A
     \<and> window_ok (ack_window a) A (ack_limit a + 1)
     \<and> pending A (ack_limit a + 1) \<subseteq> {ack_limit a + 1..ack_limit a + WindowSize}
     \<and> ack_limit a + WindowSize < 2 ^ 63 - 1"

lemma ack_inv_New:
  "1 \<le> start \<Longrightarrow> start + WindowSize < 2 ^ 63 \<Longrightarrow> ack_inv start {} (NewAcknowledgedCounter start)"
  by (auto simp: ack_inv_def NewAcknowledgedCounter_def window_ok_def pending_def WindowSize_eq
      intro!: i64_id simp: i64_id in_i64_def)

lemma slot_le: "0 \<le> v \<Longrightarrow> slot v \<le> v"
  by (simp add: slot_eq_mod zmod_le_nonneg_dividend)

lemma Acknowledge_step:
  assumes inv: "ack_inv start A a" and v: "v \<notin> A" "ack_limit a < v" "v \<le> ack_limit a + WindowSize"
  shows "\<exists>a'. Acknowledge a v = Ret a' \<and> ack_limit a \<le> ack_limit a' \<and> ack_c a' = ack_c a
    \<and> (ack_limit a' + WindowSize < 2 ^ 63 - 1 \<longrightarrow> ack_inv start (insert v A) a')
    \<and> {start..ack_limit a'} \<subseteq> insert v A \<and> ack_limit a' + 1 \<notin> insert v A"
proof -
  let ?l = "ack_limit a" and ?w = "(ack_window a)(slot v := True)" and ?A = "insert v A"
  have base: "ack_lock a = Lock_free" "1 \<le> start" "start - 1 \<le> ?l" "{start..?l} \<subseteq> A" "?l + 1 \<notin> A"
      "window_ok (ack_window a) A (?l + 1)" "pending A (?l + 1) \<subseteq> {?l + 1..?l + WindowSize}"
      "?l + WindowSize < 2 ^ 63 - 1"
    using inv by (auto simp: ack_inv_def)
  have free: "\<not> ack_window a (slot v)"
  proof
    assume "ack_window a (slot v)"
    then obtain u where "u \<in> pending A (?l + 1)" "slot u = slot v" using base(6) by (auto simp: window_ok_def)
    moreover from this(1) base(7) have "?l + 1 \<le> u" "u \<le> ?l + WindowSize" by auto
    then have "\<bar>u - v\<bar> < WindowSize" using v by linarith
    ultimately show False using slot_same [of u v] v by (auto simp: pending_def)
  qed
  have "window_ok ?w ?A (?l + 1)" using base(6) v(2) by (auto simp: window_ok_def pending_def)
  moreover have pend: "pending ?A (?l + 1) \<subseteq> {?l + 1..<?l + 1 + WindowSize}"
    using base(7) v by (auto simp: pending_def)
  ultimately obtain j w' where loop: "ack_loop (slot ?l) (?l + 1) ?w = (j, w')" "?l + 1 \<le> j"
      "{?l + 1..<j} \<subseteq> ?A" "j \<notin> ?A" "window_ok w' ?A j"
    using ack_loop_spec [of ?w ?A "?l + 1" "?l + 1 + WindowSize" "slot ?l"] base slot_le [of ?l]
    by (auto simp: WindowSize_eq)
  have "{?l + 1..<j} \<subseteq> pending ?A (?l + 1)" using loop(3) by (auto simp: pending_def)
  then have run: "{?l + 1..<j} \<subseteq> {?l + 1..<?l + 1 + WindowSize}" using pend by (rule subset_trans)
  have "j \<le> ?l + 1 + WindowSize"
  proof (rule ccontr)
    assume "\<not> j \<le> ?l + 1 + WindowSize"
    then have "?l + 1 + WindowSize \<in> {?l + 1..<j}" by (simp add: WindowSize_eq)
    with run show False by auto
  qed
  then have j: "i64 (j - 1) = j - 1" "i64 (?l + 1) = ?l + 1"
    using loop(2) base by (auto intro!: i64_id simp: in_i64_def WindowSize_eq)
  define a' where "a' = a\<lparr>ack_window := w', ack_limit := j - 1, ack_lock := Lock_free\<rparr>"
  have "Acknowledge a v = Ret a'"
    using free base(1) loop(1) j by (simp add: Acknowledge_def TryLock_def Unlock_def Lock_free_def a'_def)
  moreover have "{start..j - 1} \<subseteq> ?A"
    using base(4) loop(3) by (force simp: subset_eq)
  moreover have "pending ?A j \<subseteq> {j..j - 1 + WindowSize}"
    using pend loop(2) by (auto simp: pending_def)
  ultimately show ?thesis
    using loop base by (auto simp: a'_def ack_inv_def)
qed

text \<open>Acknowledging a list of values one after the other.\<close>

fun ack_all :: "ackcounter \<Rightarrow> int list \<Rightarrow> ackcounter go" where
  "ack_all a [] = Ret a"
| "ack_all a (v # vs) = gbind (Acknowledge a v) (\<lambda>a'. ack_all a' vs)"

lemma ack_all_inv:
  assumes "ack_inv start A a" and "distinct vs" and "set vs \<inter> A = {}"
    and "set vs \<union> A \<subseteq> {start..<start + WindowSize}" and "start + 2 * WindowSize < 2 ^ 63"
  shows "\<exists>a'. ack_all a vs = Ret a' \<and> ack_inv start (set vs \<union> A) a'"
  using assms
proof (induction vs arbitrary: a A)
  case (Cons v vs)
  have lim: "{start..ack_limit a} \<subseteq> A" "start - 1 \<le> ack_limit a" using Cons.prems(1) by (auto simp: ack_inv_def)
  have v: "v \<notin> A" "start \<le> v" "v < start + WindowSize" using Cons.prems(3,4) by auto
  then have "ack_limit a < v" using lim by (meson atLeastAtMost_iff not_less subsetD)
  moreover have "v \<le> ack_limit a + WindowSize" using v lim by simp
  ultimately obtain a' where a': "Acknowledge a v = Ret a'" "{start..ack_limit a'} \<subseteq> insert v A"
      "ack_limit a' + WindowSize < 2 ^ 63 - 1 \<longrightarrow> ack_inv start (insert v A) a'"
    using Acknowledge_step [OF Cons.prems(1) v(1)] by blast
  have "ack_limit a' < start + WindowSize"
  proof (rule ccontr)
    assume "\<not> ack_limit a' < start + WindowSize"
    then have "start + WindowSize \<in> {start..ack_limit a'}" by (auto simp: WindowSize_eq)
    then have "start + WindowSize \<in> insert v A" using a'(2) by (rule subsetD [rotated])
    with Cons.prems(4) show False by auto
  qed
  then have "ack_inv start (insert v A) a'" using a'(3) Cons.prems(5) by simp
  with Cons.IH [of "insert v A" a'] Cons.prems a'(1) show ?case by auto
qed simp

section \<open>Properties\<close>

text \<open>
  C4. Inserts that complete out of order: whatever the order in which keys less than one window apart are
  acknowledged, every \<open>Acknowledge\<close> returns, and afterwards \<open>Last\<close> is the end of the longest run of
  acknowledged keys that begins at the start value. A reader that takes keys up to \<open>Last\<close> never sees a
  key whose insertion has not been acknowledged, and misses none below the first gap.
\<close>

theorem acknowledged_prefix:
  assumes "1 \<le> start" and "start + 2 * WindowSize < 2 ^ 63"
    and "distinct vs" and "set vs \<subseteq> {start..<start + WindowSize}"
  shows "\<exists>a. ack_all (NewAcknowledgedCounter start) vs = Ret a \<and> start - 1 \<le> Ack_Last a
    \<and> {start..Ack_Last a} \<subseteq> set vs \<and> Ack_Last a + 1 \<notin> set vs"
proof -
  have "ack_inv start {} (NewAcknowledgedCounter start)"
    using assms(1,2) by (intro ack_inv_New) (auto simp: WindowSize_eq)
  then obtain a where "ack_all (NewAcknowledgedCounter start) vs = Ret a" "ack_inv start (set vs) a"
    using ack_all_inv [of start "{}" _ vs] assms by auto
  then show ?thesis by (auto simp: ack_inv_def Ack_Last_def)
qed

theorem acknowledged_prefix_witness:
  "\<exists>a. ack_all (NewAcknowledgedCounter 1000) [1001, 1003, 1000] = Ret a \<and> Ack_Last a = 1001"
proof -
  obtain a where a: "ack_all (NewAcknowledgedCounter 1000) [1001, 1003, 1000] = Ret a" "999 \<le> Ack_Last a"
      "{1000..Ack_Last a} \<subseteq> {1000, 1001, 1003}" "Ack_Last a + 1 \<notin> {1000, 1001, 1003}"
    using acknowledged_prefix [of 1000 "[1001, 1003, 1000]"] by (auto simp: WindowSize_eq)
  have "Ack_Last a < 1002"
  proof (rule ccontr)
    assume "\<not> Ack_Last a < 1002"
    then have "1002 \<in> {1000..Ack_Last a}" by simp
    from subsetD [OF a(3) this] show False by simp
  qed
  with a(2,4) have "Ack_Last a = 1001" by auto
  with a(1) show ?thesis by blast
qed

text \<open>
  The window check does not catch a key that is exactly one window ahead: acknowledging
  \<open>start + WindowSize\<close> first sets the flag of the slot that \<open>start\<close> uses, and \<open>Last\<close> then reports \<open>start\<close> although only
  \<open>start + WindowSize\<close> has been acknowledged. No panic signals the overrun.
\<close>

theorem acknowledge_window_overrun:
  assumes "1 \<le> start" and "start + 2 * WindowSize < 2 ^ 63"
  shows "\<exists>a. ack_all (NewAcknowledgedCounter start) [start + WindowSize] = Ret a \<and> Ack_Last a = start"
proof -
  have s: "slot (start + WindowSize) = slot start" by (simp add: slot_eq_mod WindowSize_eq)
  have i: "i64 (start - 1) = start - 1" "i64 start = start" "i64 (start + 1) = start + 1"
    using assms by (auto intro!: i64_id simp: in_i64_def WindowSize_eq)
  have ne: "start \<noteq> slot (start - 1)" using slot_le [of "start - 1"] assms(1) by simp
  have "slot (start + 1) \<noteq> slot start" using slot_same [of "start + 1" start] by (auto simp: WindowSize_eq)
  then show ?thesis
    by (simp add: Acknowledge_def NewAcknowledgedCounter_def Ack_Last_def s TryLock_def Lock_free_def Let_def
        i ne ack_loop.simps [of _ start] ack_loop.simps [of _ "start + 1"])
qed

theorem acknowledge_window_overrun_witness:
  "\<exists>a. ack_all (NewAcknowledgedCounter 1000) [1049576] = Ret a \<and> Ack_Last a = 1000"
  using acknowledge_window_overrun [of 1000] by (simp add: WindowSize_eq slot_eq_mod)

end
