(* ===== verification/AckConcurrent.thy ===== *)
theory AckConcurrent
  imports AckCounter
begin

text \<open>
  Concurrent \<open>Acknowledge\<close> calls (\<^verbatim>\<open>pkg/generator/acknowledged_counter.go\<close>): every worker goroutine that
  inserts a key acknowledges it on the shared counter. The step relation has one rule per memory
  access of the code, in program order within a goroutine and in any order between goroutines. The
  invariant shows that the spin lock excludes, and that \<open>Last\<close> never reports a key that has not been
  acknowledged as long as the keys in flight fit into one window.
\<close>

section \<open>States and steps\<close>

datatype ackpc =
    Idle
  | Marking int
  | Trying
  | Loading
  | Scanning int int
  | Storing int
  | Releasing
  | Panicked

record ackstate =
  as_counter :: int
  as_window :: "int \<Rightarrow> bool"
  as_limit :: int
  as_lock :: spinlock
  as_pcs :: "nat \<Rightarrow> ackpc"
  as_acked :: "int set"

definition ack_init :: "int \<Rightarrow> ackstate" where
  "ack_init start = \<lparr>as_counter = start, as_window = (\<lambda>_. False), as_limit = i64 (start - 1),
     as_lock = Lock_free, as_pcs = (\<lambda>_. Idle), as_acked = {}\<rparr>"

abbreviation goto :: "ackstate \<Rightarrow> nat \<Rightarrow> ackpc \<Rightarrow> ackstate" where
  "goto s t pc \<equiv> s\<lparr>as_pcs := (as_pcs s)(t := pc)\<rparr>"

inductive ack_step :: "int \<Rightarrow> ackstate \<Rightarrow> ackstate \<Rightarrow> bool" for start where
  gen: "ack_step start s (s\<lparr>as_counter := i64 (as_counter s + 1)\<rparr>)"
| enter: "as_pcs s t = Idle \<Longrightarrow> start \<le> v \<Longrightarrow> v < as_counter s \<Longrightarrow> v \<notin> as_acked s \<Longrightarrow>
     \<forall>u. as_pcs s u \<noteq> Marking v \<Longrightarrow> \<not> as_window s (slot v) \<Longrightarrow>
     ack_step start s (goto s t (Marking v))"
| panic: "as_pcs s t = Idle \<Longrightarrow> as_window s (slot v) \<Longrightarrow> ack_step start s (goto s t Panicked)"
| mark: "as_pcs s t = Marking v \<Longrightarrow>
     ack_step start s ((goto s t Trying)
       \<lparr>as_window := (as_window s)(slot v := True), as_acked := insert v (as_acked s)\<rparr>)"
| lock_ok: "as_pcs s t = Trying \<Longrightarrow> TryLock (as_lock s) = (True, l) \<Longrightarrow>
     ack_step start s ((goto s t Loading)\<lparr>as_lock := l\<rparr>)"
| lock_busy: "as_pcs s t = Trying \<Longrightarrow> TryLock (as_lock s) = (False, l) \<Longrightarrow>
     ack_step start s (goto s t Idle)"
| load: "as_pcs s t = Loading \<Longrightarrow>
     ack_step start s (goto s t (Scanning (slot (as_limit s)) (i64 (as_limit s + 1))))"
| scan: "as_pcs s t = Scanning b i \<Longrightarrow> i \<noteq> b \<Longrightarrow> as_window s (slot i) \<Longrightarrow>
     ack_step start s ((goto s t (Scanning b (i64 (i + 1))))
       \<lparr>as_window := (as_window s)(slot i := False)\<rparr>)"
| stop: "as_pcs s t = Scanning b i \<Longrightarrow> i = b \<or> \<not> as_window s (slot i) \<Longrightarrow>
     ack_step start s (goto s t (Storing i))"
| store: "as_pcs s t = Storing i \<Longrightarrow>
     ack_step start s ((goto s t Releasing)\<lparr>as_limit := i64 (i - 1)\<rparr>)"
| release: "as_pcs s t = Releasing \<Longrightarrow>
     ack_step start s ((goto s t Idle)\<lparr>as_lock := Unlock (as_lock s)\<rparr>)"

text \<open>
  The keys in flight fit into the window, and the counter stays away from the end of \<open>int64\<close>. The
  code does not enforce the first condition; it holds when fewer than \<open>WindowSize\<close> insertions
  overtake the slowest one.
\<close>

definition in_window :: "ackstate \<Rightarrow> bool" where
  "in_window s \<longleftrightarrow> (\<forall>t v. as_pcs s t = Marking v \<longrightarrow> v \<le> as_limit s + WindowSize)
     \<and> as_limit s + WindowSize < 2 ^ 63 - 1"

inductive ack_reach :: "int \<Rightarrow> ackstate \<Rightarrow> bool" for start where
  init: "ack_reach start (ack_init start)"
| step: "ack_reach start s \<Longrightarrow> ack_step start s s' \<Longrightarrow> in_window s' \<Longrightarrow> ack_reach start s'"

section \<open>Invariant\<close>

fun critical :: "ackpc \<Rightarrow> bool" where
  "critical Loading = True"
| "critical (Scanning b i) = True"
| "critical (Storing i) = True"
| "critical Releasing = True"
| "critical _ = False"

text \<open>
  The frontier is the first value not yet known to be moved out of the window: the index of the
  goroutine that is scanning, and one past the limit otherwise.
\<close>

fun frontier_of :: "ackpc \<Rightarrow> int option" where
  "frontier_of (Scanning b i) = Some i"
| "frontier_of (Storing i) = Some i"
| "frontier_of _ = None"

definition frontier_is :: "ackstate \<Rightarrow> int \<Rightarrow> bool" where
  "frontier_is s F \<longleftrightarrow> (\<forall>t i. frontier_of (as_pcs s t) = Some i \<longrightarrow> F = i)
     \<and> ((\<forall>t. frontier_of (as_pcs s t) = None) \<longrightarrow> F = as_limit s + 1)"

definition exclusion :: "ackstate \<Rightarrow> bool" where
  "exclusion s \<longleftrightarrow> (\<forall>t u. critical (as_pcs s t) \<longrightarrow> critical (as_pcs s u) \<longrightarrow> t = u)
     \<and> ((\<exists>t. critical (as_pcs s t)) \<longleftrightarrow> spin_f (as_lock s) \<noteq> 0)"

definition marking_ok :: "int \<Rightarrow> ackstate \<Rightarrow> bool" where
  "marking_ok start s \<longleftrightarrow>
     (\<forall>t v. as_pcs s t = Marking v \<longrightarrow> start \<le> v \<and> v \<notin> as_acked s)
     \<and> (\<forall>t u v. as_pcs s t = Marking v \<longrightarrow> as_pcs s u = Marking v \<longrightarrow> t = u)"

definition data_ok :: "int \<Rightarrow> ackstate \<Rightarrow> int \<Rightarrow> bool" where
  "data_ok start s F \<longleftrightarrow>
     0 \<le> as_limit s \<and> start \<le> as_limit s + 1 \<and> as_limit s < F \<and> F \<le> as_limit s + 1 + WindowSize
     \<and> {start..<F} \<subseteq> as_acked s
     \<and> window_ok (as_window s) (as_acked s) F
     \<and> pending (as_acked s) F \<subseteq> {..as_limit s + WindowSize}
     \<and> (\<forall>t b i. as_pcs s t = Scanning b i \<longrightarrow> b \<le> as_limit s)"

definition conc_inv :: "int \<Rightarrow> ackstate \<Rightarrow> bool" where
  "conc_inv start s \<longleftrightarrow> exclusion s \<and> marking_ok start s \<and> in_window s
     \<and> (\<exists>F. frontier_is s F \<and> data_ok start s F)"

lemma conc_inv_init: "1 \<le> start \<Longrightarrow> start + WindowSize < 2 ^ 63 \<Longrightarrow> conc_inv start (ack_init start)"
  by (auto simp: conc_inv_def exclusion_def marking_ok_def in_window_def frontier_is_def data_ok_def
      ack_init_def Lock_free_def window_ok_def pending_def WindowSize_eq i64_id in_i64_def)

lemma exclusion_step: "ack_step start s s' \<Longrightarrow> exclusion s \<Longrightarrow> exclusion s'"
proof (induction rule: ack_step.induct)
qed (auto simp: exclusion_def TryLock_def Unlock_def split: if_splits; metis critical.simps)+

lemma marking_step: "ack_step start s s' \<Longrightarrow> marking_ok start s \<Longrightarrow> marking_ok start s'"
  by (induction rule: ack_step.induct) (auto simp: marking_ok_def split: if_splits)

text \<open>
  A step that leaves the shared data alone and moves a goroutine between two program points with
  the same frontier keeps the frontier and the data.
\<close>

lemma frontier_cong:
  "(\<And>u. frontier_of (as_pcs s' u) = frontier_of (as_pcs s u)) \<Longrightarrow> as_limit s' = as_limit s \<Longrightarrow>
   frontier_is s' F = frontier_is s F"
  by (simp add: frontier_is_def)

lemma frontier_at: "frontier_is s F \<Longrightarrow> frontier_of (as_pcs s t) = Some i \<Longrightarrow> F = i"
  by (auto simp: frontier_is_def)

lemma data_frame:
  assumes "frontier_is s F" and "data_ok start s F"
    and "as_limit s' = as_limit s" and "as_window s' = as_window s" and "as_acked s' = as_acked s"
    and "as_pcs s' = (as_pcs s)(t := pc)"
    and "frontier_of (as_pcs s t) = frontier_of pc"
    and "\<And>b i. pc = Scanning b i \<Longrightarrow> b \<le> as_limit s"
  shows "frontier_is s' F \<and> data_ok start s' F"
proof
  show "frontier_is s' F"
    using assms(1,3,6,7) by (subst frontier_cong [of _ s]) auto
  show "data_ok start s' F"
    using assms(2-6,8) by (auto simp: data_ok_def)
qed

lemma data_frame_counter:
  "frontier_is s F \<Longrightarrow> data_ok start s F \<Longrightarrow>
   frontier_is (s\<lparr>as_counter := c\<rparr>) F \<and> data_ok start (s\<lparr>as_counter := c\<rparr>) F"
  by (auto simp: frontier_is_def data_ok_def)

lemma data_mark:
  assumes "frontier_is s F" and "data_ok start s F" and "marking_ok start s" and "in_window s"
    and t: "as_pcs s t = Marking v"
  shows "frontier_is ((goto s t Trying)\<lparr>as_window := (as_window s)(slot v := True), as_acked := insert v (as_acked s)\<rparr>) F
    \<and> data_ok start ((goto s t Trying)\<lparr>as_window := (as_window s)(slot v := True), as_acked := insert v (as_acked s)\<rparr>) F"
proof -
  have v: "start \<le> v" "v \<notin> as_acked s" "v \<le> as_limit s + WindowSize"
    using assms(3,4) t by (auto simp: marking_ok_def in_window_def)
  moreover have "{start..<F} \<subseteq> as_acked s" using assms(2) by (simp add: data_ok_def)
  ultimately have "F \<le> v" by (auto simp: subset_eq not_le [symmetric])
  then have "pending (insert v (as_acked s)) F = insert v (pending (as_acked s) F)"
    by (auto simp: pending_def)
  then have "window_ok ((as_window s)(slot v := True)) (insert v (as_acked s)) F"
    and "pending (insert v (as_acked s)) F \<subseteq> {..as_limit s + WindowSize}"
    using assms(2) v(3) by (auto simp: data_ok_def window_ok_def)
  moreover have "frontier_is ((goto s t Trying)\<lparr>as_window := (as_window s)(slot v := True),
      as_acked := insert v (as_acked s)\<rparr>) F"
    using assms(1) t by (subst frontier_cong [of _ s]) auto
  ultimately show ?thesis using assms(2) by (auto simp: data_ok_def)
qed

lemma data_load:
  assumes "frontier_is s F" and "data_ok start s F" and "exclusion s" and "in_window s"
    and t: "as_pcs s t = Loading"
  shows "frontier_is (goto s t (Scanning (slot (as_limit s)) (i64 (as_limit s + 1)))) F
    \<and> data_ok start (goto s t (Scanning (slot (as_limit s)) (i64 (as_limit s + 1)))) F"
proof -
  have others: "frontier_of (as_pcs s u) = None" for u
  proof (rule ccontr)
    assume "frontier_of (as_pcs s u) \<noteq> None"
    then have "critical (as_pcs s u)" by (cases "as_pcs s u") auto
    with assms(3) t have "u = t" by (auto simp: exclusion_def)
    with t \<open>frontier_of (as_pcs s u) \<noteq> None\<close> show False by simp
  qed
  then have F: "F = as_limit s + 1" using assms(1) by (simp add: frontier_is_def)
  have l: "0 \<le> as_limit s" "as_limit s + WindowSize < 2 ^ 63 - 1"
    using assms(2,4) by (auto simp: data_ok_def in_window_def)
  then have "i64 (as_limit s + 1) = F"
    unfolding F by (intro i64_id) (simp add: in_i64_def WindowSize_eq)
  moreover have "slot (as_limit s) \<le> as_limit s" using l by (intro slot_le)
  ultimately show ?thesis
    using assms(2) others by (auto simp: frontier_is_def data_ok_def)
qed

lemma data_scan:
  assumes "frontier_is s F" and "data_ok start s F" and "exclusion s" and "in_window s"
    and t: "as_pcs s t = Scanning b i" and w: "as_window s (slot i)"
  shows "frontier_is ((goto s t (Scanning b (i64 (i + 1))))\<lparr>as_window := (as_window s)(slot i := False)\<rparr>) (F + 1)
    \<and> data_ok start ((goto s t (Scanning b (i64 (i + 1))))\<lparr>as_window := (as_window s)(slot i := False)\<rparr>) (F + 1)"
proof -
  have F: "F = i" using frontier_at [OF assms(1), of t i] t by simp
  have d: "0 \<le> as_limit s" "as_limit s < i" "{start..<i} \<subseteq> as_acked s" "window_ok (as_window s) (as_acked s) i"
      "pending (as_acked s) i \<subseteq> {..as_limit s + WindowSize}" "start \<le> as_limit s + 1"
      "as_limit s + WindowSize < 2 ^ 63 - 1"
    using assms(2,4) t unfolding F by (auto simp: data_ok_def in_window_def)
  have "\<forall>u b. (\<exists>i. as_pcs s u = Scanning b i) \<longrightarrow> b \<le> as_limit s"
    using assms(2) unfolding data_ok_def by simp
  with t have b: "b \<le> as_limit s" by blast
  have sub: "pending (as_acked s) i \<subseteq> {i..<i + WindowSize}" using d(2,5) by (auto simp: pending_def)
  have i: "i \<in> as_acked s" using window_head [OF d(4) sub] w by simp
  then have le: "i \<le> as_limit s + WindowSize" using d(5) by (auto simp: pending_def)
  have i1: "i64 (i + 1) = i + 1" using le d(1,2,7) by (intro i64_id) (auto simp: in_i64_def)
  have others: "frontier_of (as_pcs s u) = None" if "u \<noteq> t" for u
  proof (rule ccontr)
    assume "frontier_of (as_pcs s u) \<noteq> None"
    then have "critical (as_pcs s u)" by (cases "as_pcs s u") auto
    with assms(3) t that show False by (auto simp: exclusion_def)
  qed
  have "{start..<i + 1} \<subseteq> as_acked s" using d(3) i by (auto simp: subset_eq zless_add1_eq)
  moreover have "window_ok ((as_window s)(slot i := False)) (as_acked s) (i + 1)"
    using d(4) sub i by (rule window_step)
  moreover have "pending (as_acked s) (i + 1) \<subseteq> {..as_limit s + WindowSize}"
    using d(5) by (auto simp: pending_def)
  moreover have "\<forall>u b' j. u \<noteq> t \<longrightarrow> as_pcs s u \<noteq> Scanning b' j" using others by force
  ultimately show ?thesis
    using d b le others unfolding F by (auto simp: frontier_is_def data_ok_def i1)
qed

lemma data_store:
  assumes "frontier_is s F" and "data_ok start s F" and "exclusion s" and "in_window s"
    and t: "as_pcs s t = Storing i"
  shows "frontier_is ((goto s t Releasing)\<lparr>as_limit := i64 (i - 1)\<rparr>) F
    \<and> data_ok start ((goto s t Releasing)\<lparr>as_limit := i64 (i - 1)\<rparr>) F"
proof -
  have F: "F = i" using frontier_at [OF assms(1), of t i] t by simp
  have d: "0 \<le> as_limit s" "as_limit s < i" "i \<le> as_limit s + 1 + WindowSize" "as_limit s + WindowSize < 2 ^ 63 - 1"
    using assms(2,4) unfolding F by (auto simp: data_ok_def in_window_def)
  then have i1: "i64 (i - 1) = i - 1" by (intro i64_id) (auto simp: in_i64_def)
  have others: "\<not> critical (as_pcs s u)" if "u \<noteq> t" for u
    using assms(3) t that by (force simp: exclusion_def)
  then have "frontier_of (as_pcs s u) = None" if "u \<noteq> t" for u
    using that by (cases "as_pcs s u") force+
  moreover have "\<forall>u b j. u \<noteq> t \<longrightarrow> as_pcs s u \<noteq> Scanning b j" using others by force
  ultimately show ?thesis
    using assms(2) d unfolding F by (auto simp: frontier_is_def data_ok_def i1)
qed

lemma data_step:
  assumes "ack_step start s s'" and "exclusion s" and "marking_ok start s" and "in_window s"
    and "frontier_is s F" and "data_ok start s F"
  shows "\<exists>F'. frontier_is s' F' \<and> data_ok start s' F'"
  using assms
proof (cases rule: ack_step.cases)
  case gen
  then show ?thesis using data_frame_counter assms(5,6) by blast
next
  case (mark t v)
  then show ?thesis using data_mark [OF assms(5,6,3,4)] by blast
next
  case (load t)
  then show ?thesis using data_load [OF assms(5,6,2,4)] by blast
next
  case (scan t b i)
  then show ?thesis using data_scan [OF assms(5,6,2,4)] by blast
next
  case (store t i)
  then show ?thesis using data_store [OF assms(5,6,2,4)] by blast
next
  case (stop t b i)
  then show ?thesis
    by (intro exI [of _ F] data_frame [OF assms(5,6), of _ t "Storing i"]) auto
next
  case (enter t v)
  then show ?thesis
    by (intro exI [of _ F] data_frame [OF assms(5,6), of _ t "Marking v"]) auto
next
  case (panic t v)
  then show ?thesis
    by (intro exI [of _ F] data_frame [OF assms(5,6), of _ t Panicked]) auto
next
  case (lock_ok t l)
  then show ?thesis
    by (intro exI [of _ F] data_frame [OF assms(5,6), of _ t Loading]) auto
next
  case (lock_busy t l)
  then show ?thesis
    by (intro exI [of _ F] data_frame [OF assms(5,6), of _ t Idle]) auto
next
  case (release t)
  then show ?thesis
    by (intro exI [of _ F] data_frame [OF assms(5,6), of _ t Idle]) auto
qed

lemma ack_reach_inv:
  "ack_reach start s \<Longrightarrow> 1 \<le> start \<Longrightarrow> start + WindowSize < 2 ^ 63 \<Longrightarrow> conc_inv start s"
proof (induction rule: ack_reach.induct)
  case init
  then show ?case by (rule conc_inv_init)
next
  case (step s s')
  then have inv: "conc_inv start s" by simp
  then obtain F where "frontier_is s F" "data_ok start s F" by (auto simp: conc_inv_def)
  with inv step.hyps show ?case
    using data_step [OF step.hyps(2), of F] exclusion_step [OF step.hyps(2)] marking_step [OF step.hyps(2)]
    by (auto simp: conc_inv_def)
qed

section \<open>A run of the system\<close>

definition solo_state :: ackstate where
  "solo_state = \<lparr>as_counter = 2, as_window = (\<lambda>_. False), as_limit = 1,
     as_lock = \<lparr>spin_f = 1\<rparr>, as_pcs = (\<lambda>_. Idle)(0 := Releasing), as_acked = {1}\<rparr>"

text \<open>One goroutine acknowledges the first key and has stored the new limit.\<close>

lemma solo_run: "ack_reach 1 solo_state"
proof -
  let ?s = "\<lambda>pc w lim lck ack. \<lparr>as_counter = 2, as_window = (\<lambda>_. False)(1 := w), as_limit = lim,
     as_lock = \<lparr>spin_f = lck\<rparr>, as_pcs = (\<lambda>_. Idle)(0 := pc), as_acked = ack\<rparr> :: ackstate"
  have sl: "slot 1 = 1" "slot 0 = 0" "slot 2 = 2" by (simp_all add: slot_eq_mod)
  have i: "i64 0 = 0" "i64 1 = 1" "i64 2 = 2" by (simp_all add: i64_id in_i64_def)
  have init: "ack_init 1 = (?s Idle False 0 0 {})\<lparr>as_counter := 1\<rparr>"
    by (auto simp: ack_init_def Lock_free_def i)
  have "ack_reach 1 ((?s Idle False 0 0 {})\<lparr>as_counter := 1\<rparr>)" using ack_reach.init [of 1] by (simp only: init)
  then have "ack_reach 1 (?s Idle False 0 0 {})"
    by (rule ack_reach.step) (use ack_step.gen [of 1 "(?s Idle False 0 0 {})\<lparr>as_counter := 1\<rparr>"]
        in \<open>simp_all add: i in_window_def WindowSize_eq\<close>)
  then have "ack_reach 1 (?s (Marking 1) False 0 0 {})"
    by (rule ack_reach.step) (use ack_step.enter [of "?s Idle False 0 0 {}" 0 1 1]
        in \<open>simp_all add: sl in_window_def WindowSize_eq\<close>)
  then have "ack_reach 1 (?s Trying True 0 0 {1})"
    by (rule ack_reach.step) (use ack_step.mark [of "?s (Marking 1) False 0 0 {}" 0 1 1]
        in \<open>simp_all add: sl in_window_def WindowSize_eq\<close>)
  then have "ack_reach 1 (?s Loading True 0 1 {1})"
    by (rule ack_reach.step) (use ack_step.lock_ok [of "?s Trying True 0 0 {1}" 0 _ 1]
        in \<open>simp_all add: TryLock_def in_window_def WindowSize_eq\<close>)
  then have "ack_reach 1 (?s (Scanning 0 1) True 0 1 {1})"
    by (rule ack_reach.step) (use ack_step.load [of "?s Loading True 0 1 {1}" 0 1]
        in \<open>simp_all add: sl i in_window_def WindowSize_eq\<close>)
  then have "ack_reach 1 (?s (Scanning 0 2) False 0 1 {1})"
    by (rule ack_reach.step) (use ack_step.scan [of "?s (Scanning 0 1) True 0 1 {1}" 0 0 1 1]
        in \<open>simp_all add: sl i in_window_def WindowSize_eq\<close>)
  then have "ack_reach 1 (?s (Storing 2) False 0 1 {1})"
    by (rule ack_reach.step) (use ack_step.stop [of "?s (Scanning 0 2) False 0 1 {1}" 0 0 2 1]
        in \<open>simp_all add: sl i in_window_def WindowSize_eq\<close>)
  then have "ack_reach 1 (?s Releasing False 1 1 {1})"
    by (rule ack_reach.step) (use ack_step.store [of "?s (Storing 2) False 0 1 {1}" 0 2 1]
        in \<open>simp_all add: sl i in_window_def WindowSize_eq\<close>)
  moreover have "(\<lambda>_ :: int. False)(1 := False) = (\<lambda>_. False)" by auto
  ultimately show ?thesis by (simp add: solo_state_def)
qed

section \<open>Properties\<close>





end
