(* ===== verification/RowCodec.thy ===== *)
theory RowCodec
  imports GoPrelude
begin

text \<open>
  The TiDB row format of \<^verbatim>\<open>pkg/util/row.go\<close>: variable-length integers (\<open>encoding/binary\<close>), \<open>EncodeRow\<close> and
  \<open>DecodeRow\<close> on column identifiers. The lemmas show the round trip of integers and of rows, and what
  decoding does on truncated input.
\<close>

section \<open>Variable-length integers\<close>

text \<open>\<open>binary.PutUvarint\<close>, \<open>binary.PutVarint\<close>: the bytes written, least significant group first.\<close>

function putUvarint :: "u64 \<Rightarrow> byte list" where
  "putUvarint x =
     (if 128 \<le> x then (ucast x OR 128) # putUvarint (drop_bit 7 x) else [ucast x])"
  by pat_completeness auto
termination
  by (relation "measure unat") (auto simp: drop_bit_eq_div word_less_nat_alt word_le_nat_alt unat_div)

declare putUvarint.simps [simp del]

definition zigzag :: "int \<Rightarrow> u64" where
  "zigzag x = (let ux = push_bit 1 (word_of_int x) in if x < 0 then NOT ux else ux)"

definition putVarint :: "int \<Rightarrow> byte list" where
  "putVarint x = putUvarint (zigzag x)"

text \<open>
  \<open>binary.Uvarint\<close>: the value and the number of bytes read, 0 when the buffer is too small,
  negative on overflow. The loop carries the index, the shift and the value read so far.
\<close>

fun uvarint_loop :: "nat \<Rightarrow> nat \<Rightarrow> u64 \<Rightarrow> byte list \<Rightarrow> u64 \<times> int" where
  "uvarint_loop i s x [] = (0, 0)"
| "uvarint_loop i s x (b # bs) =
     (if i = 10 then (0, - (int i + 1))
      else if b < 128 then
        (if i = 9 \<and> 1 < b then (0, - (int i + 1))
         else (x OR push_bit s (ucast b), int i + 1))
      else uvarint_loop (Suc i) (s + 7) (x OR push_bit s (ucast (b AND 127))) bs)"

definition uvarint :: "byte list \<Rightarrow> u64 \<times> int" where
  "uvarint buf = uvarint_loop 0 0 0 buf"

definition unzigzag :: "u64 \<Rightarrow> int" where
  "unzigzag ux = (let x = sint (drop_bit 1 ux) in if bit ux 0 then NOT x else x)"

definition varint :: "byte list \<Rightarrow> int \<times> int" where
  "varint buf = (let (ux, n) = uvarint buf in (unzigzag ux, n))"

section \<open>Encoding and decoding rows\<close>

definition compactBytesFlag :: byte where
  "compactBytesFlag = 2"

definition varintFlag :: byte where
  "varintFlag = 8"

definition appendVarint :: "byte list \<Rightarrow> int \<Rightarrow> byte list" where
  "appendVarint b v = b @ putVarint v"

definition encodeInt64 :: "byte list \<Rightarrow> int \<Rightarrow> byte list" where
  "encodeInt64 b v = appendVarint (b @ [varintFlag]) v"

definition encodeBytes :: "byte list \<Rightarrow> byte list \<Rightarrow> byte list" where
  "encodeBytes b v = appendVarint (b @ [compactBytesFlag]) (int (length v)) @ v"

fun encode_cols :: "byte list \<Rightarrow> (byte list \<times> int) list \<Rightarrow> byte list" where
  "encode_cols valBuf [] = valBuf"
| "encode_cols valBuf ((col, colID) # rest) =
     encode_cols (encodeBytes (encodeInt64 valBuf colID) col) rest"

text \<open>
  \<open>EncodeRow\<close>. The incoming buffer only lends its memory: \<open>valBuf[:0]\<close> drops its contents.
\<close>

definition EncodeRow :: "byte list list \<Rightarrow> int list \<Rightarrow> byte list \<Rightarrow> error + byte list" where
  "EncodeRow cols colIDs valBuf =
     (if length cols \<noteq> length colIDs then Inl (''EncodeRow error: cols and colIDs count not match '' @ itoa (int (length cols))
             @ '' vs '' @ itoa (int (length colIDs)))
      else if cols = [] then Inr (take 0 valBuf @ [0])
      else Inr (encode_cols (take 0 valBuf) (zip cols colIDs)))"

definition decodeVarint :: "byte list \<Rightarrow> (error + byte list \<times> int) go" where
  "decodeVarint b =
     (let (v, n) = varint b in
      if 0 < n then gbind (slice_from b n) (\<lambda>r. Ret (Inr (r, v)))
      else if n < 0 then Ret (Inl ''value larger than 64 bits'')
      else Ret (Inl ''insufficient bytes to decode value''))"

definition decodeInt64 :: "byte list \<Rightarrow> (error + byte list \<times> int) go" where
  "decodeInt64 b = gbind (slice_from b 1) decodeVarint"

definition decodeBytes :: "byte list \<Rightarrow> (error + byte list \<times> byte list) go" where
  "decodeBytes b =
     gbind (slice_from b 1) (\<lambda>b1.
     ebind (decodeVarint b1) (\<lambda>(remain, n).
       if int (length remain) < n
       then Ret (Inl (''insufficient bytes to decode value, expected length: '' @ itoa n))
       else gbind (slice_from remain n) (\<lambda>rest.
            gbind (slice_to remain n) (\<lambda>v. Ret (Inr (rest, v))))))"

text \<open>Every successful read consumes input, so the decoding loop terminates.\<close>

lemma slice_from_length: "slice_from xs n = Ret ys \<Longrightarrow> length ys = length xs - nat n"
  by (auto simp: slice_from_def split: if_splits)

lemma slice_from_1: "slice_from b 1 = Ret b1 \<Longrightarrow> length b1 < length b"
  by (auto simp: slice_from_def split: if_splits)

lemma decodeVarint_length: "decodeVarint b = Ret (Inr (r, v)) \<Longrightarrow> length r \<le> length b"
  by (auto simp: decodeVarint_def go_simps split: prod.splits if_splits dest: slice_from_length)

lemma decodeInt64_length: "decodeInt64 b = Ret (Inr (r, v)) \<Longrightarrow> length r < length b"
  by (auto simp: decodeInt64_def go_simps dest!: slice_from_1 decodeVarint_length)

lemma decodeBytes_length: "decodeBytes b = Ret (Inr (r, v)) \<Longrightarrow> length r < length b"
proof -
  assume "decodeBytes b = Ret (Inr (r, v))"
  then obtain b1 remain n where "slice_from b 1 = Ret b1" "decodeVarint b1 = Ret (Inr (remain, n))"
      "slice_from remain n = Ret r"
    by (auto simp: decodeBytes_def go_simps split: if_splits)
  then show ?thesis
    using slice_from_1 decodeVarint_length slice_from_length by fastforce
qed

function decode_loop ::
  "(int \<rightharpoonup> byte list) \<Rightarrow> byte list \<Rightarrow> ((int \<rightharpoonup> byte list) \<times> error option) go" where
  "decode_loop row b =
     (if b = [] then Ret (row, None)
      else gbind (decodeInt64 b) (\<lambda>r1. case r1 of
             Inl e \<Rightarrow> Ret (row, Some e)
           | Inr (remain, rowID) \<Rightarrow>
               gbind (decodeBytes remain) (\<lambda>r2. case r2 of
                 Inl e \<Rightarrow> Ret (row, Some e)
               | Inr (rest, v) \<Rightarrow> decode_loop (row(rowID \<mapsto> v)) rest)))"
  by pat_completeness auto
termination
  by (relation "measure (\<lambda>(row, b). length b)")
    (auto dest!: decodeInt64_length decodeBytes_length)

declare decode_loop.simps [simp del]

text \<open>\<open>DecodeRow\<close> returns the columns read so far together with the error, if any.\<close>

definition DecodeRow :: "byte list \<Rightarrow> ((int \<rightharpoonup> byte list) \<times> error option) go" where
  "DecodeRow b =
     (if b = [] then Ret (Map.empty, None)
      else if b = [0] then Ret (Map.empty, None)
      else decode_loop Map.empty b)"

section \<open>Round trip of variable-length integers\<close>

lemma putUvarint_nonempty [simp]: "putUvarint x \<noteq> []"
  by (subst putUvarint.simps) simp

lemma continuation_byte:
  fixes b :: byte
  shows "\<not> (b OR 128) < 128" and "(b OR 128) AND 127 = b AND 127"
proof -
  have "128 \<le> b OR (128 :: byte)" by (simp add: le_word_or2 or.commute [of b])
  then show "\<not> (b OR 128) < 128" by simp
  have "(128 :: byte) AND 127 = 0" by simp
  then show "(b OR 128) AND 127 = b AND 127" by (simp add: bit.conj_disj_distrib2)
qed

lemma split_group:
  fixes x acc :: u64
  shows "(acc OR push_bit s (ucast ((ucast x :: byte) AND 127))) OR push_bit (s + 7) (drop_bit 7 x)
    = acc OR push_bit s x"
proof -
  have m: "(127 :: byte) = mask 7" by (simp add: mask_eq_exp_minus_1)
  show ?thesis
    unfolding m
  proof (rule bit_word_eqI)
    fix n
    assume "n < LENGTH(64)"
    moreover have "\<not> n - s < 7 \<Longrightarrow> 7 + (n - (s + 7)) = n - s" by simp
    ultimately show "bit ((acc OR push_bit s (ucast ((ucast x :: byte) AND mask 7)))
        OR push_bit (s + 7) (drop_bit 7 x)) n = bit (acc OR push_bit s x) n"
      by (cases "n - s < 7") (auto simp: bit_simps)
  qed
qed

lemma unat_drop_bit_7: "unat (drop_bit 7 x) = unat x div 128" for x :: u64
  by (simp only: unat_drop_bit_eq) (simp add: drop_bit_eq_div)

lemma small_group:
  fixes x :: u64
  assumes "x < 128"
  shows "(ucast x :: byte) < 128" and "ucast (ucast x :: byte) = x" and "unat (ucast x :: byte) = unat x"
proof -
  have "unat x < 128" using assms by (simp add: word_less_nat_alt)
  then show u: "unat (ucast x :: byte) = unat x"
    by (simp add: unsigned_ucast_eq take_bit_nat_def)
  with \<open>unat x < 128\<close> show "(ucast x :: byte) < 128" by (simp add: word_less_nat_alt)
  from u show "ucast (ucast x :: byte) = x"
    by (simp add: word_unat_eq_iff unsigned_ucast_eq [where ?'b = 64] unsigned_take_bit_eq take_bit_nat_def)
qed

lemma uvarint_loop_put:
  "unat x < 2 ^ (64 - 7 * i) \<Longrightarrow> i \<le> 9 \<Longrightarrow>
   uvarint_loop i (7 * i) acc (putUvarint x @ rest) =
     (acc OR push_bit (7 * i) x, int (i + length (putUvarint x)))"
proof (induction x arbitrary: i acc rule: putUvarint.induct)
  case (1 x)
  show ?case
  proof (cases "128 \<le> x")
    case True
    then have ge: "128 \<le> unat x" by (simp add: word_le_nat_alt)
    have "i \<noteq> 9" using ge "1.prems"(1) by auto
    then have i: "Suc i \<le> 9" using "1.prems"(2) by simp
    have "64 - 7 * i = 7 + (64 - 7 * Suc i)" using i by simp
    then have "(2 :: nat) ^ (64 - 7 * i) = 2 ^ (7 + (64 - 7 * Suc i))" by (rule arg_cong)
    also have "\<dots> = 128 * 2 ^ (64 - 7 * Suc i)" by (simp only: power_add) simp
    finally have "unat x < 128 * 2 ^ (64 - 7 * Suc i)" using "1.prems"(1) by (simp only:)
    then have lt: "unat (drop_bit 7 x) < 2 ^ (64 - 7 * Suc i)"
      by (simp add: unat_drop_bit_7 less_mult_imp_div_less mult.commute)
    show ?thesis
      using True i "1.IH" [OF True lt i, of "acc OR push_bit (7 * i) (ucast ((ucast x :: byte) AND 127))"]
      by (simp add: putUvarint.simps [of x] continuation_byte split_group add.commute [of 7])
  next
    case False
    then have lt: "x < 128" by simp
    have "i = 9 \<Longrightarrow> unat x \<le> 1" using "1.prems"(1) by auto
    then have "i = 9 \<Longrightarrow> \<not> 1 < (ucast x :: byte)"
      using small_group(3) [OF lt] by (simp add: word_less_nat_alt)
    with False small_group [OF lt] "1.prems"(2) show ?thesis
      by (simp add: putUvarint.simps [of x])
  qed
qed

lemma uvarint_put: "uvarint (putUvarint x @ rest) = (x, int (length (putUvarint x)))"
  using uvarint_loop_put [of x 0 0 rest] unsigned_less [of x, where ?'a = nat]
  by (simp add: uvarint_def)

text \<open>The buffer \<open>[binary.MaxVarintLen64]byte\<close> of \<open>appendVarint\<close> is large enough.\<close>

lemma length_putUvarint_le: "unat x < 2 ^ (7 * Suc k) \<Longrightarrow> length (putUvarint x) \<le> Suc k"
proof (induction x arbitrary: k rule: putUvarint.induct)
  case (1 x)
  show ?case
  proof (cases "128 \<le> x")
    case True
    then have "128 \<le> unat x" by (simp add: word_le_nat_alt)
    with "1.prems" obtain j where k: "k = Suc j" by (cases k) auto
    have "unat (drop_bit 7 x) < 2 ^ (7 * Suc j)"
      using "1.prems" by (simp add: k unat_drop_bit_7 less_mult_imp_div_less power_add)
    from "1.IH" [OF True this] show ?thesis
      using True by (simp add: putUvarint.simps [of x] k)
  next
    case False
    then show ?thesis by (simp add: putUvarint.simps [of x])
  qed
qed

lemma putVarint_nonempty [simp]: "putVarint x \<noteq> []"
  by (simp add: putVarint_def)

lemma length_putVarint_le: "length (putVarint x) \<le> 10"
  using length_putUvarint_le [of "zigzag x" 9] unsigned_less [of "zigzag x", where ?'a = nat]
  by (simp add: putVarint_def)

lemma sint_shifted:
  assumes "0 \<le> y" and "y < 2 ^ 63" and "w = 0 \<or> w = 1"
  shows "sint (drop_bit 1 (push_bit 1 (word_of_int y :: u64) OR w)) = y"
proof -
  have "drop_bit 1 (push_bit 1 (word_of_int y :: u64) OR w) = word_of_int y"
  proof (rule bit_word_eqI)
    fix k
    assume "k < LENGTH(64)"
    moreover have "bit y 63 = False"
      using assms by (simp add: bit_iff_odd)
    ultimately show "bit (drop_bit 1 (push_bit 1 (word_of_int y :: u64) OR w)) k = bit (word_of_int y :: u64) k"
      using assms(3) by (cases "k = 63") (auto simp: bit_simps simp del: push_bit_Suc)
  qed
  moreover have "sint (word_of_int y :: u64) = y"
    using assms by (simp add: sint_sbintrunc' signed_take_bit_int_eq_self)
  ultimately show ?thesis by simp
qed

lemma zigzag_neg: "NOT (push_bit 1 (word_of_int x)) = push_bit 1 (word_of_int (NOT x)) OR (1 :: u64)"
  by (rule bit_word_eqI) (auto simp: bit_simps simp del: push_bit_Suc)

lemma unzigzag_zigzag: "in_i64 x \<Longrightarrow> unzigzag (zigzag x) = x"
proof (cases "x < 0")
  case True
  assume "in_i64 x"
  with True have "0 \<le> NOT x" "NOT x < 2 ^ 63" by (auto simp: in_i64_def not_int_def)
  then have "sint (drop_bit 1 (zigzag x)) = NOT x"
    using True by (simp only: zigzag_def Let_def zigzag_neg if_True sint_shifted simp_thms)
  moreover have "bit (zigzag x) 0"
    using True by (simp add: zigzag_def bit_simps del: push_bit_Suc)
  ultimately show ?thesis by (simp add: unzigzag_def)
next
  case False
  assume "in_i64 x"
  with False show ?thesis
    using sint_shifted [of x 0] by (simp add: zigzag_def unzigzag_def in_i64_def bit_simps Let_def del: push_bit_Suc)
qed

lemma varint_putVarint:
  "in_i64 x \<Longrightarrow> varint (putVarint x @ rest) = (x, int (length (putVarint x)))"
  by (simp add: varint_def putVarint_def uvarint_put unzigzag_zigzag)

section \<open>Round trip of rows\<close>

lemma decodeVarint_putVarint: "in_i64 x \<Longrightarrow> decodeVarint (putVarint x @ rest) = Ret (Inr (rest, x))"
  by (simp add: decodeVarint_def varint_putVarint slice_from_def)

lemma decodeInt64_encode: "in_i64 x \<Longrightarrow> decodeInt64 (varintFlag # putVarint x @ rest) = Ret (Inr (rest, x))"
  by (simp add: decodeInt64_def slice_from_def decodeVarint_putVarint)

lemma decodeBytes_encode:
  "int (length v) < 2 ^ 63 \<Longrightarrow>
   decodeBytes (compactBytesFlag # putVarint (int (length v)) @ v @ rest) = Ret (Inr (rest, v))"
  by (simp add: decodeBytes_def slice_from_def slice_to_def decodeVarint_putVarint in_i64_def)

definition col_bytes :: "byte list \<times> int \<Rightarrow> byte list" where
  "col_bytes = (\<lambda>(col, colID). varintFlag # putVarint colID
     @ compactBytesFlag # putVarint (int (length col)) @ col)"

lemma encode_cols_eq: "encode_cols buf kvs = buf @ concat (map col_bytes kvs)"
  by (induction buf kvs rule: encode_cols.induct)
    (simp_all add: col_bytes_def encodeInt64_def encodeBytes_def appendVarint_def)

definition encodable :: "byte list \<times> int \<Rightarrow> bool" where
  "encodable = (\<lambda>(col, colID). in_i64 colID \<and> int (length col) < 2 ^ 63)"

lemma decode_loop_cols:
  "\<forall>kv\<in>set kvs. encodable kv \<Longrightarrow>
   decode_loop row (concat (map col_bytes kvs)) = Ret (row ++ map_of (rev (map prod.swap kvs)), None)"
proof (induction kvs arbitrary: row)
  case Nil
  then show ?case by (simp add: decode_loop.simps)
next
  case (Cons kv kvs)
  obtain col colID where kv: "kv = (col, colID)" by (cases kv)
  let ?rest = "concat (map col_bytes kvs)"
  have "decode_loop row (concat (map col_bytes (kv # kvs))) = decode_loop (row(colID \<mapsto> col)) ?rest"
    using Cons.prems kv
    by (subst decode_loop.simps)
      (simp add: col_bytes_def encodable_def decodeInt64_encode decodeBytes_encode)
  with Cons show ?case by (simp add: kv map_add_upd_left)
qed

lemma col_bytes_not_zero: "kvs \<noteq> [] \<Longrightarrow> concat (map col_bytes kvs) \<notin> {[], [0]}"
  by (cases kvs) (auto simp: col_bytes_def varintFlag_def)

lemma map_swap_zip: "map prod.swap (zip xs ys) = zip ys xs"
  by (induction xs ys rule: list_induct2') auto

lemma DecodeRow_EncodeRow:
  assumes "length cols = length colIDs" and "\<forall>kv\<in>set (zip cols colIDs). encodable kv"
  shows "\<exists>bs. EncodeRow cols colIDs valBuf = Inr bs
    \<and> DecodeRow bs = Ret (map_of (rev (zip colIDs cols)), None)"
proof (cases "cols = []")
  case True
  with assms(1) show ?thesis by (simp add: EncodeRow_def DecodeRow_def)
next
  case False
  with assms(1) have "zip cols colIDs \<noteq> []" by (cases cols; cases colIDs) auto
  with False assms show ?thesis
    using col_bytes_not_zero [of "zip cols colIDs"]
    by (simp add: EncodeRow_def DecodeRow_def encode_cols_eq decode_loop_cols map_swap_zip)
qed

section \<open>Properties\<close>

text \<open>
  A signed 64-bit integer appended by \<open>appendVarint\<close> takes at most \<open>binary.MaxVarintLen64\<close> = 10 bytes, so
  the fixed buffer never overflows, and \<open>decodeVarint\<close> reads it back and returns what follows it.
\<close>

theorem varint_roundtrip:
  assumes "in_i64 v"
  shows "\<exists>enc. appendVarint b v = b @ enc \<and> length enc \<le> 10 \<and> decodeVarint (enc @ rest) = Ret (Inr (rest, v))"
  using assms length_putVarint_le decodeVarint_putVarint by (auto simp: appendVarint_def)

theorem varint_roundtrip_witness:
  "\<exists>enc. appendVarint [] (- 300) = enc \<and> decodeVarint (enc @ [1, 2]) = Ret (Inr ([1, 2], - 300))"
  using varint_roundtrip [of "- 300" "[]" "[1, 2]"] by (auto simp: in_i64_def)

text \<open>
  A row that ends after a column identifier makes \<open>DecodeRow\<close> panic in \<open>b[1:]\<close>: the truncation is not
  reported as an error value, as a short varint is.
\<close>

theorem truncated_row_panics:
  assumes "in_i64 colID"
  shows "DecodeRow (encodeInt64 [] colID) = Panic ''slice bounds out of range''"
proof -
  have "decodeInt64 (varintFlag # putVarint colID) = Ret (Inr ([], colID))"
    using decodeInt64_encode [OF assms, of "[]"] by simp
  then show ?thesis
    by (simp add: DecodeRow_def encodeInt64_def appendVarint_def varintFlag_def decode_loop.simps
        decodeBytes_def slice_from_def)
qed

theorem truncated_row_panics_witness:
  "DecodeRow (encodeInt64 [] 5) = Panic ''slice bounds out of range''"
  using truncated_row_panics [of 5] by (simp add: in_i64_def)

end
