(* ===== verification/Props.thy ===== *)
theory Props
  imports Float64
begin

text \<open>
  The property names and defaults of \<^verbatim>\<open>pkg/prop/prop.go\<close>, and the parameter \<open>props\<close> that stands for a
  loaded \<open>properties.Properties\<close> of the package \<open>magiconair/properties\<close>, which is not part of this
  repository: every component receives its getters as functions of the key and the default.
\<close>

named_theorems prop_defs \<open>values of the property names and defaults\<close>

record props =
  GetString :: "string \<Rightarrow> string \<Rightarrow> string"
  GetInt64 :: "string \<Rightarrow> int \<Rightarrow> int"
  GetInt :: "string \<Rightarrow> int \<Rightarrow> int"
  GetUint64 :: "string \<Rightarrow> int \<Rightarrow> int"
  GetDuration :: "string \<Rightarrow> int \<Rightarrow> int"
  GetFloat64 :: "string \<Rightarrow> float64 \<Rightarrow> float64"
  GetBool :: "string \<Rightarrow> bool \<Rightarrow> bool"
  Get :: "string \<Rightarrow> string option"

text \<open>
  Integer getters deliver values of their type. This is all that the theorems ask of the parameter.
\<close>

definition props_typed :: "props \<Rightarrow> bool" where
  "props_typed p \<longleftrightarrow> (\<forall>k d. in_i64 d \<longrightarrow> in_i64 (GetInt64 p k d) \<and> in_i64 (GetInt p k d))"

text \<open>An instance: a file that sets integer and string properties and leaves the rest at the defaults.\<close>

definition props_of :: "int smap \<Rightarrow> string smap \<Rightarrow> props" where
  "props_of ints strs =
     (let num = (\<lambda>k d. case map_of ints k of Some i \<Rightarrow> i | None \<Rightarrow> d) in
      \<lparr>GetString = (\<lambda>k d. case map_of strs k of Some s \<Rightarrow> s | None \<Rightarrow> d),
       GetInt64 = num, GetInt = num, GetUint64 = num, GetDuration = num, GetFloat64 = (\<lambda>k d. d), GetBool = (\<lambda>k d. d),
       Get = map_of strs\<rparr>)"

section \<open>Property names and defaults\<close>

definition prop_MixGraphNumRegions :: string where [prop_defs]:
  "prop_MixGraphNumRegions = ''mixgraph.num_regions''"

definition prop_MixGraphExpA :: string where [prop_defs]:
  "prop_MixGraphExpA = ''mixgraph.exp_a''"

definition prop_MixGraphExpB :: string where [prop_defs]:
  "prop_MixGraphExpB = ''mixgraph.exp_b''"

definition prop_MixGraphExpC :: string where [prop_defs]:
  "prop_MixGraphExpC = ''mixgraph.exp_c''"

definition prop_MixGraphExpD :: string where [prop_defs]:
  "prop_MixGraphExpD = ''mixgraph.exp_d''"

definition prop_MixGraphKeyDistA :: string where [prop_defs]:
  "prop_MixGraphKeyDistA = ''mixgraph.key_dist_a''"

definition prop_MixGraphKeyDistB :: string where [prop_defs]:
  "prop_MixGraphKeyDistB = ''mixgraph.key_dist_b''"

definition prop_MixGraphNumRegionsDefault :: int where [prop_defs]:
  "prop_MixGraphNumRegionsDefault = 100"

definition prop_MixGraphExpADefault :: float64 where [prop_defs]:
  "prop_MixGraphExpADefault = fl (5 / 10)"

definition prop_MixGraphExpBDefault :: float64 where [prop_defs]:
  "prop_MixGraphExpBDefault = fl (- (1 / 10))"

definition prop_MixGraphExpCDefault :: float64 where [prop_defs]:
  "prop_MixGraphExpCDefault = fl (5 / 10)"

definition prop_MixGraphExpDDefault :: float64 where [prop_defs]:
  "prop_MixGraphExpDDefault = fl (- (1 / 100))"

definition prop_MixGraphKeyDistADefault :: float64 where [prop_defs]:
  "prop_MixGraphKeyDistADefault = fl 1"

definition prop_MixGraphKeyDistBDefault :: float64 where [prop_defs]:
  "prop_MixGraphKeyDistBDefault = fl (25 / 100)"

definition prop_InsertStart :: string where [prop_defs]:
  "prop_InsertStart = ''insertstart''"

definition prop_InsertCount :: string where [prop_defs]:
  "prop_InsertCount = ''insertcount''"

definition prop_InsertStartDefault :: int where [prop_defs]:
  "prop_InsertStartDefault = 0"

definition prop_OperationCount :: string where [prop_defs]:
  "prop_OperationCount = ''operationcount''"

definition prop_RecordCount :: string where [prop_defs]:
  "prop_RecordCount = ''recordcount''"

definition prop_RecordCountDefault :: int where [prop_defs]:
  "prop_RecordCountDefault = 0"

definition prop_Workload :: string where [prop_defs]:
  "prop_Workload = ''workload''"

definition prop_DB :: string where [prop_defs]:
  "prop_DB = ''db''"

definition prop_Exporter :: string where [prop_defs]:
  "prop_Exporter = ''exporter''"

definition prop_ExportFile :: string where [prop_defs]:
  "prop_ExportFile = ''exportfile''"

definition prop_ThreadCount :: string where [prop_defs]:
  "prop_ThreadCount = ''threadcount''"

definition prop_ThreadCountDefault :: int where [prop_defs]:
  "prop_ThreadCountDefault = 200"

definition prop_Target :: string where [prop_defs]:
  "prop_Target = ''target''"

definition prop_MaxExecutiontime :: string where [prop_defs]:
  "prop_MaxExecutiontime = ''maxexecutiontime''"

definition prop_WarmUpTime :: string where [prop_defs]:
  "prop_WarmUpTime = ''warmuptime''"

definition prop_DoTransactions :: string where [prop_defs]:
  "prop_DoTransactions = ''dotransactions''"

definition prop_Status :: string where [prop_defs]:
  "prop_Status = ''status''"

definition prop_Label :: string where [prop_defs]:
  "prop_Label = ''label''"

definition prop_BatchSize :: string where [prop_defs]:
  "prop_BatchSize = ''batch.size''"

definition prop_DefaultBatchSize :: int where [prop_defs]:
  "prop_DefaultBatchSize = 1"

definition prop_TableName :: string where [prop_defs]:
  "prop_TableName = ''table''"

definition prop_TableNameDefault :: string where [prop_defs]:
  "prop_TableNameDefault = ''usertable''"

definition prop_FieldCount :: string where [prop_defs]:
  "prop_FieldCount = ''fieldcount''"

definition prop_FieldCountDefault :: int where [prop_defs]:
  "prop_FieldCountDefault = 10"

definition prop_FieldLengthDistribution :: string where [prop_defs]:
  "prop_FieldLengthDistribution = ''fieldlengthdistribution''"

definition prop_FieldLengthDistributionDefault :: string where [prop_defs]:
  "prop_FieldLengthDistributionDefault = ''constant''"

definition prop_FieldLength :: string where [prop_defs]:
  "prop_FieldLength = ''fieldlength''"

definition prop_FieldLengthDefault :: int where [prop_defs]:
  "prop_FieldLengthDefault = 100"

definition prop_FieldLengthHistogramFile :: string where [prop_defs]:
  "prop_FieldLengthHistogramFile = ''fieldlengthhistogram''"

definition prop_FieldLengthHistogramFileDefault :: string where [prop_defs]:
  "prop_FieldLengthHistogramFileDefault = ''hist.txt''"

definition prop_ReadAllFields :: string where [prop_defs]:
  "prop_ReadAllFields = ''readallfields''"

definition prop_ReadALlFieldsDefault :: bool where [prop_defs]:
  "prop_ReadALlFieldsDefault = True"

definition prop_WriteAllFields :: string where [prop_defs]:
  "prop_WriteAllFields = ''writeallfields''"

definition prop_WriteAllFieldsDefault :: bool where [prop_defs]:
  "prop_WriteAllFieldsDefault = False"

definition prop_DataIntegrity :: string where [prop_defs]:
  "prop_DataIntegrity = ''dataintegrity''"

definition prop_DataIntegrityDefault :: bool where [prop_defs]:
  "prop_DataIntegrityDefault = False"

definition prop_ReadProportion :: string where [prop_defs]:
  "prop_ReadProportion = ''readproportion''"

definition prop_ReadProportionDefault :: float64 where [prop_defs]:
  "prop_ReadProportionDefault = fl (95 / 100)"

definition prop_UpdateProportion :: string where [prop_defs]:
  "prop_UpdateProportion = ''updateproportion''"

definition prop_UpdateProportionDefault :: float64 where [prop_defs]:
  "prop_UpdateProportionDefault = fl (5 / 100)"

definition prop_InsertProportion :: string where [prop_defs]:
  "prop_InsertProportion = ''insertproportion''"

definition prop_InsertProportionDefault :: float64 where [prop_defs]:
  "prop_InsertProportionDefault = fl 0"

definition prop_ScanProportion :: string where [prop_defs]:
  "prop_ScanProportion = ''scanproportion''"

definition prop_ScanProportionDefault :: float64 where [prop_defs]:
  "prop_ScanProportionDefault = fl 0"

definition prop_ReadModifyWriteProportion :: string where [prop_defs]:
  "prop_ReadModifyWriteProportion = ''readmodifywriteproportion''"

definition prop_ReadModifyWriteProportionDefault :: float64 where [prop_defs]:
  "prop_ReadModifyWriteProportionDefault = fl 0"

definition prop_RequestDistribution :: string where [prop_defs]:
  "prop_RequestDistribution = ''requestdistribution''"

definition prop_RequestDistributionDefault :: string where [prop_defs]:
  "prop_RequestDistributionDefault = ''uniform''"

definition prop_ZeroPadding :: string where [prop_defs]:
  "prop_ZeroPadding = ''zeropadding''"

definition prop_ZeroPaddingDefault :: int where [prop_defs]:
  "prop_ZeroPaddingDefault = 1"

definition prop_MinScanLength :: string where [prop_defs]:
  "prop_MinScanLength = ''minscanlength''"

definition prop_MinScanLengthDefault :: int where [prop_defs]:
  "prop_MinScanLengthDefault = 1"

definition prop_MaxScanLength :: string where [prop_defs]:
  "prop_MaxScanLength = ''maxscanlength''"

definition prop_MaxScanLengthDefault :: int where [prop_defs]:
  "prop_MaxScanLengthDefault = 1000"

definition prop_ScanLengthDistribution :: string where [prop_defs]:
  "prop_ScanLengthDistribution = ''scanlengthdistribution''"

definition prop_ScanLengthDistributionDefault :: string where [prop_defs]:
  "prop_ScanLengthDistributionDefault = ''uniform''"

definition prop_InsertOrder :: string where [prop_defs]:
  "prop_InsertOrder = ''insertorder''"

definition prop_InsertOrderDefault :: string where [prop_defs]:
  "prop_InsertOrderDefault = ''hashed''"

definition prop_HotspotDataFraction :: string where [prop_defs]:
  "prop_HotspotDataFraction = ''hotspotdatafraction''"

definition prop_HotspotDataFractionDefault :: float64 where [prop_defs]:
  "prop_HotspotDataFractionDefault = fl (2 / 10)"

definition prop_HotspotOpnFraction :: string where [prop_defs]:
  "prop_HotspotOpnFraction = ''hotspotopnfraction''"

definition prop_HotspotOpnFractionDefault :: float64 where [prop_defs]:
  "prop_HotspotOpnFractionDefault = fl (8 / 10)"

definition prop_InsertionRetryLimit :: string where [prop_defs]:
  "prop_InsertionRetryLimit = ''core_workload_insertion_retry_limit''"

definition prop_InsertionRetryLimitDefault :: int where [prop_defs]:
  "prop_InsertionRetryLimitDefault = 0"

definition prop_InsertionRetryInterval :: string where [prop_defs]:
  "prop_InsertionRetryInterval = ''core_workload_insertion_retry_interval''"

definition prop_InsertionRetryIntervalDefault :: int where [prop_defs]:
  "prop_InsertionRetryIntervalDefault = 3"

definition prop_ExponentialPercentile :: string where [prop_defs]:
  "prop_ExponentialPercentile = ''exponential.percentile''"

definition prop_ExponentialPercentileDefault :: float64 where [prop_defs]:
  "prop_ExponentialPercentileDefault = fl 95"

definition prop_ExponentialFrac :: string where [prop_defs]:
  "prop_ExponentialFrac = ''exponential.frac''"

definition prop_ExponentialFracDefault :: float64 where [prop_defs]:
  "prop_ExponentialFracDefault = fl (8571428571 / 10000000000)"

definition prop_DebugPprof :: string where [prop_defs]:
  "prop_DebugPprof = ''debug.pprof''"

definition prop_DebugPprofDefault :: string where [prop_defs]:
  "prop_DebugPprofDefault = '':6060''"

definition prop_Verbose :: string where [prop_defs]:
  "prop_Verbose = ''verbose''"

definition prop_VerboseDefault :: bool where [prop_defs]:
  "prop_VerboseDefault = False"

definition prop_DropData :: string where [prop_defs]:
  "prop_DropData = ''dropdata''"

definition prop_DropDataDefault :: bool where [prop_defs]:
  "prop_DropDataDefault = False"

definition prop_Silence :: string where [prop_defs]:
  "prop_Silence = ''silence''"

definition prop_SilenceDefault :: bool where [prop_defs]:
  "prop_SilenceDefault = True"

definition prop_KeyPrefix :: string where [prop_defs]:
  "prop_KeyPrefix = ''keyprefix''"

definition prop_KeyPrefixDefault :: string where [prop_defs]:
  "prop_KeyPrefixDefault = ''user''"

definition prop_LogInterval :: string where [prop_defs]:
  "prop_LogInterval = ''measurement.interval''"

definition prop_MeasurementType :: string where [prop_defs]:
  "prop_MeasurementType = ''measurementtype''"

definition prop_MeasurementTypeDefault :: string where [prop_defs]:
  "prop_MeasurementTypeDefault = ''histogram''"

definition prop_MeasurementRawOutputFile :: string where [prop_defs]:
  "prop_MeasurementRawOutputFile = ''measurement.output_file''"

definition prop_Command :: string where [prop_defs]:
  "prop_Command = ''command''"

definition prop_OutputStyle :: string where [prop_defs]:
  "prop_OutputStyle = ''outputstyle''"

definition prop_MeasurementHistogramPercentileExport :: string where [prop_defs]:
  "prop_MeasurementHistogramPercentileExport = ''histogram.percentiles.export''"

definition prop_MeasurementHistogramPercentileExportDefault :: bool where [prop_defs]:
  "prop_MeasurementHistogramPercentileExportDefault = False"

definition prop_MeasurementHistogramPercentileExportFilepath :: string where [prop_defs]:
  "prop_MeasurementHistogramPercentileExportFilepath = ''histogram.percentiles.export.filepath''"

definition prop_MeasurementHistogramPercentileExportFilepathDefault :: string where [prop_defs]:
  "prop_MeasurementHistogramPercentileExportFilepathDefault = ''./''"

section \<open>The instance is well typed\<close>

lemma props_of_sel [simp]:
  "GetString (props_of ints strs) k s = (case map_of strs k of Some v \<Rightarrow> v | None \<Rightarrow> s)"
  "GetInt64 (props_of ints strs) k d = (case map_of ints k of Some i \<Rightarrow> i | None \<Rightarrow> d)"
  "GetInt (props_of ints strs) k d = (case map_of ints k of Some i \<Rightarrow> i | None \<Rightarrow> d)"
  "GetUint64 (props_of ints strs) k d = (case map_of ints k of Some i \<Rightarrow> i | None \<Rightarrow> d)"
  "GetDuration (props_of ints strs) k d = (case map_of ints k of Some i \<Rightarrow> i | None \<Rightarrow> d)"
  "GetFloat64 (props_of ints strs) k f = f"
  "GetBool (props_of ints strs) k b = b"
  "Get (props_of ints strs) k = map_of strs k"
  by (simp_all add: props_of_def Let_def)

lemma props_of_typed: "\<forall>kv\<in>set ints. in_i64 (snd kv) \<Longrightarrow> props_typed (props_of ints strs)"
  by (auto simp: props_typed_def split: option.splits dest!: map_of_SomeD)

end
