(* ===== verification/RowFields.thy ===== *)
theory RowFields
  imports RowCodec Props "HOL-Library.List_Lexorder" "HOL-Library.Char_ord" "HOL-Library.Multiset"
begin

text \<open>
  \<open>RowCodec\<close> and \<open>FieldPairs\<close> of \<^verbatim>\<open>pkg/util/core.go\<close>: field names are mapped to column identifiers and back,
  and a row is turned into a slice sorted by field name. A Go map that is ranged over is an
  association list with distinct keys, in the order the iteration delivers; the theorems hold for
  every such order.
\<close>

section \<open>Definitions\<close>

definition field_name :: "int \<Rightarrow> string" where
  "field_name i = ''field'' @ itoa i"

definition createFieldIndices :: "props \<Rightarrow> int smap" where
  "createFieldIndices p =
     (let fieldCount = GetInt64 p prop_FieldCount prop_FieldCountDefault
      in map (\<lambda>i. (field_name i, i)) [0..fieldCount - 1])"

text \<open>\<open>make([]string, 0, n)\<close> panics when \<open>n\<close> is negative.\<close>

definition allFields :: "props \<Rightarrow> string list go" where
  "allFields p =
     (let fieldCount = GetInt64 p prop_FieldCount prop_FieldCountDefault in
      if fieldCount < 0 then Panic ''makeslice: cap out of range''
      else Ret (map field_name [0..fieldCount - 1]))"

record rowcodec =
  fieldIndices :: "int smap"
  codec_fields :: "string list"

definition NewRowCodec :: "props \<Rightarrow> rowcodec go" where
  "NewRowCodec p =
     (let m = createFieldIndices p in
      gbind (allFields p) (\<lambda>fs. Ret \<lparr>fieldIndices = m, codec_fields = fs\<rparr>))"

text \<open>Indexing a Go map delivers the zero value for a missing key.\<close>

definition field_index :: "rowcodec \<Rightarrow> string \<Rightarrow> int" where
  "field_index r k = (case map_of (fieldIndices r) k of Some i \<Rightarrow> i | None \<Rightarrow> 0)"

definition select_fields :: "rowcodec \<Rightarrow> (int \<rightharpoonup> byte list) \<Rightarrow> string list \<Rightarrow> byte list smap" where
  "select_fields r data fnames =
     foldl (\<lambda>res field. case data (field_index r field) of Some v \<Rightarrow> AList.update field v res | None \<Rightarrow> res)
       [] fnames"

definition RowCodec_Decode :: "rowcodec \<Rightarrow> byte list \<Rightarrow> string list \<Rightarrow> (error + byte list smap) go" where
  "RowCodec_Decode r row fnames =
     (let fnames = (if fnames = [] then codec_fields r else fnames) in
      gbind (DecodeRow row) (\<lambda>(data, err). case err of
        Some e \<Rightarrow> Ret (Inl e)
      | None \<Rightarrow> Ret (Inr (select_fields r data fnames))))"

definition RowCodec_Encode :: "rowcodec \<Rightarrow> byte list \<Rightarrow> byte list smap \<Rightarrow> error + byte list" where
  "RowCodec_Encode r buf values =
     EncodeRow (map snd values) (map (\<lambda>(k, v). field_index r k) values) buf"

text \<open>
  \<open>FieldPairs\<close>: the pairs of a row, with the three methods of \<open>sort.Interface\<close>. \<open>sort.Sort\<close> returns a
  permutation sorted by \<open>Less\<close>; field names are distinct, so there is only one.
\<close>

definition FieldPairs_Len :: "(string \<times> byte list) list \<Rightarrow> int" where
  "FieldPairs_Len s = int (length s)"

definition FieldPairs_Swap :: "(string \<times> byte list) list \<Rightarrow> int \<Rightarrow> int \<Rightarrow> (string \<times> byte list) list go" where
  "FieldPairs_Swap s i j =
     gbind (go_index s j) (\<lambda>b. gbind (go_index s i) (\<lambda>a. Ret (s[nat i := b, nat j := a])))"

definition FieldPairs_Less :: "(string \<times> byte list) list \<Rightarrow> int \<Rightarrow> int \<Rightarrow> bool go" where
  "FieldPairs_Less s i j =
     gbind (go_index s i) (\<lambda>a. gbind (go_index s j) (\<lambda>b. Ret (fst a < fst b)))"

definition NewFieldPairs :: "byte list smap \<Rightarrow> (string \<times> byte list) list" where
  "NewFieldPairs values = sort_key fst values"

section \<open>Field names and column identifiers\<close>

lemma digits_inj: "digits m = digits n \<Longrightarrow> m = n"
  by (metis undigits_digits)

lemma itoa_inj: "0 \<le> i \<Longrightarrow> 0 \<le> j \<Longrightarrow> itoa i = itoa j \<Longrightarrow> i = j"
  by (auto simp: itoa_def dest!: digits_inj)

lemma field_names [simp]:
  "field_name 0 = ''field0''" "field_name 1 = ''field1''" "field_name 2 = ''field2''"
  by code_simp+

lemma field_name_inj: "inj_on field_name {0..}"
  by (auto simp: field_name_def inj_on_def intro: itoa_inj)

definition codec_ok :: "rowcodec \<Rightarrow> int \<Rightarrow> bool" where
  "codec_ok r n \<longleftrightarrow> 0 \<le> n \<and> n < 2 ^ 63
     \<and> fieldIndices r = map (\<lambda>i. (field_name i, i)) [0..n - 1]
     \<and> codec_fields r = map field_name [0..n - 1]"

lemma NewRowCodec_ok:
  assumes "GetInt64 p prop_FieldCount prop_FieldCountDefault = n" and "0 \<le> n" and "n < 2 ^ 63"
  shows "\<exists>r. NewRowCodec p = Ret r \<and> codec_ok r n"
  using assms by (simp add: NewRowCodec_def allFields_def createFieldIndices_def codec_ok_def)

lemma map_of_field_names:
  assumes "i \<in> set is" and "set is \<subseteq> {0..}"
  shows "map_of (map (\<lambda>i. (field_name i, i)) is) (field_name i) = Some i"
  using assms by (induction "is") (auto dest: inj_onD [OF field_name_inj])

lemma field_index_name: "codec_ok r n \<Longrightarrow> 0 \<le> i \<Longrightarrow> i < n \<Longrightarrow> field_index r (field_name i) = i"
  by (simp add: field_index_def codec_ok_def map_of_field_names)

lemma field_index_unknown: "codec_ok r n \<Longrightarrow> k \<notin> set (codec_fields r) \<Longrightarrow> field_index r k = 0"
  by (auto simp: field_index_def codec_ok_def split: option.splits dest!: map_of_SomeD)

lemma field_index_range: "codec_ok r n \<Longrightarrow> in_i64 (field_index r k)"
  by (auto simp: field_index_def codec_ok_def in_i64_def split: option.splits dest!: map_of_SomeD)

lemma field_index_inj: "codec_ok r n \<Longrightarrow> inj_on (field_index r) (set (codec_fields r))"
  by (auto simp: inj_on_def codec_ok_def field_index_def map_of_field_names)

section \<open>Decoding selects columns\<close>

lemma select_fields_lookup:
  "map_of (select_fields r data fs) f = (if f \<in> set fs then data (field_index r f) else None)"
  unfolding select_fields_def
  by (induction fs rule: rev_induct) (auto simp: update_conv' split: option.splits)

lemma map_of_zip_inj:
  assumes "inj_on g (insert k (fst ` set kvs))"
  shows "map_of (map (\<lambda>kv. (g (fst kv), snd kv)) kvs) (g k) = map_of kvs k"
  using assms by (induction kvs) (auto simp: inj_on_def)

lemma map_of_rev: "distinct (map fst kvs) \<Longrightarrow> map_of (rev kvs) = map_of kvs"
  by (rule map_of_inject_set [THEN iffD2]) (simp_all add: rev_map [symmetric])

definition row_fits :: "rowcodec \<Rightarrow> byte list smap \<Rightarrow> bool" where
  "row_fits r values \<longleftrightarrow> distinct (map fst values) \<and> fst ` set values \<subseteq> set (codec_fields r)
     \<and> (\<forall>kv\<in>set values. int (length (snd kv)) < 2 ^ 63)"

text \<open>What the codec wrote is read back, for every selection of known fields.\<close>

lemma Encode_columns:
  assumes "codec_ok r n" and "row_fits r values"
  shows "\<exists>bs data. RowCodec_Encode r buf values = Inr bs \<and> DecodeRow bs = Ret (data, None)
    \<and> (\<forall>f\<in>set (codec_fields r). data (field_index r f) = map_of values f)"
proof -
  let ?ids = "map (\<lambda>(k, v). field_index r k) values" and ?cols = "map snd values"
  have "\<forall>kv\<in>set (zip ?cols ?ids). encodable kv"
    using assms field_index_range [OF assms(1)] by (auto simp: row_fits_def encodable_def set_zip split_def)
  then obtain bs where bs: "RowCodec_Encode r buf values = Inr bs"
      "DecodeRow bs = Ret (map_of (rev (zip ?ids ?cols)), None)"
    using DecodeRow_EncodeRow [of ?cols ?ids buf] by (auto simp: RowCodec_Encode_def)
  have z: "zip ?ids ?cols = map (\<lambda>kv. (field_index r (fst kv), snd kv)) values"
    by (simp add: zip_map_map zip_same_conv_map split_def)
  have inj: "inj_on (field_index r) (insert f (fst ` set values))" if "f \<in> set (codec_fields r)" for f
    by (rule inj_on_subset [OF field_index_inj [OF assms(1)]]) (use that assms(2) in \<open>simp add: row_fits_def\<close>)
  have keys: "map fst (zip ?ids ?cols) = map (field_index r) (map fst values)" by (simp add: z)
  have "inj_on (field_index r) (set (map fst values))"
    by (rule inj_on_subset [OF field_index_inj [OF assms(1)]]) (use assms(2) in \<open>simp add: row_fits_def\<close>)
  then have "distinct (map fst (zip ?ids ?cols))"
    using assms(2) unfolding keys row_fits_def distinct_map [of "field_index r"] by simp
  then have "map_of (rev (zip ?ids ?cols)) (field_index r f) = map_of values f" if "f \<in> set (codec_fields r)" for f
    using map_of_zip_inj [OF inj [OF that]] by (simp add: map_of_rev z)
  with bs show ?thesis by blast
qed


lemma RowCodec_Decode_lookup:
  "DecodeRow row = Ret (data, None) \<Longrightarrow>
   \<exists>res. RowCodec_Decode r row fnames = Ret (Inr res)
     \<and> (\<forall>f. map_of res f = (if f \<in> set (if fnames = [] then codec_fields r else fnames)
                            then data (field_index r f) else None))"
  by (simp add: RowCodec_Decode_def select_fields_lookup)

section \<open>Sorted field pairs\<close>

lemma NewFieldPairs_unique:
  assumes "distinct (map fst values)" and "mset ys = mset values" and "sorted (map fst ys)"
  shows "NewFieldPairs values = ys"
  using assms unfolding NewFieldPairs_def
  by (intro sort_key_inj_key_eq) (auto simp: distinct_map)

lemma NewRowCodec_codec_ok:
  assumes "NewRowCodec p = Ret r" and "GetInt64 p prop_FieldCount prop_FieldCountDefault < 2 ^ 63"
  shows "codec_ok r (GetInt64 p prop_FieldCount prop_FieldCountDefault)"
  using assms by (auto simp: NewRowCodec_def allFields_def createFieldIndices_def codec_ok_def Let_def split: if_splits)

section \<open>Properties\<close>

text \<open>
  C7. A row written by \<open>RowCodec.Encode\<close> is read back by \<open>RowCodec.Decode\<close>: for every set of values of known
  fields, in every iteration order of the map, every requested known field has the value that was
  stored, a field that was not stored is absent, and no field is returned that was not asked for.
\<close>

theorem row_codec_roundtrip:
  assumes "NewRowCodec p = Ret r" and "GetInt64 p prop_FieldCount prop_FieldCountDefault < 2 ^ 63"
    and "row_fits r values" and "set fnames \<subseteq> set (codec_fields r)"
  shows "\<exists>bs res. RowCodec_Encode r buf values = Inr bs \<and> RowCodec_Decode r bs fnames = Ret (Inr res)
    \<and> (\<forall>f. map_of res f = (if f \<in> set (if fnames = [] then codec_fields r else fnames) then map_of values f else None))"
proof -
  obtain bs data where bs: "RowCodec_Encode r buf values = Inr bs" "DecodeRow bs = Ret (data, None)"
    and data: "\<forall>f\<in>set (codec_fields r). data (field_index r f) = map_of values f"
    using Encode_columns [OF NewRowCodec_codec_ok [OF assms(1,2)] assms(3)] by blast
  have "data (field_index r f) = map_of values f" if "f \<in> set (if fnames = [] then codec_fields r else fnames)" for f
    using data assms(4) that by (auto split: if_splits)
  with bs(1) RowCodec_Decode_lookup [OF bs(2), of r fnames] show ?thesis by auto
qed

theorem row_codec_roundtrip_witness:
  "\<exists>r bs res. NewRowCodec (props_of [(''fieldcount'', 3)] []) = Ret r
     \<and> RowCodec_Encode r [] [(''field2'', [7, 8]), (''field0'', [9])] = Inr bs
     \<and> RowCodec_Decode r bs [''field0'', ''field1''] = Ret (Inr res)
     \<and> map_of res ''field0'' = Some [9] \<and> map_of res ''field1'' = None"
proof -
  let ?p = "props_of [(''fieldcount'', 3)] []"
  let ?v = "[(''field2'', [7, 8]), (''field0'', [9])] :: byte list smap"
  obtain r where r: "NewRowCodec ?p = Ret r" and fs: "codec_fields r = [''field0'', ''field1'', ''field2'']"
    by (simp add: NewRowCodec_def allFields_def prop_defs upto.simps)
  have "GetInt64 ?p prop_FieldCount prop_FieldCountDefault < 2 ^ 63" by (simp add: prop_defs)
  moreover have "row_fits r ?v" by (simp add: row_fits_def fs)
  ultimately show ?thesis
    using row_codec_roundtrip [OF r, of ?v "[''field0'', ''field1'']" "[]"] r fs by fastforce
qed

text \<open>
  A field name the codec does not know is read as column 0: \<open>Decode\<close> returns the value of \<open>field0\<close> under
  the unknown name instead of leaving it out.
\<close>

theorem decode_unknown_field:
  assumes "NewRowCodec p = Ret r" and "GetInt64 p prop_FieldCount prop_FieldCountDefault < 2 ^ 63"
    and "row_fits r values" and "''field0'' \<in> set (codec_fields r)" and "k \<notin> set (codec_fields r)"
  shows "\<exists>bs res. RowCodec_Encode r buf values = Inr bs \<and> RowCodec_Decode r bs [k] = Ret (Inr res)
    \<and> map_of res k = map_of values ''field0''"
proof -
  have ok: "codec_ok r (GetInt64 p prop_FieldCount prop_FieldCountDefault)" by (rule NewRowCodec_codec_ok [OF assms(1,2)])
  obtain bs data where bs: "RowCodec_Encode r buf values = Inr bs" "DecodeRow bs = Ret (data, None)"
    and data: "\<forall>f\<in>set (codec_fields r). data (field_index r f) = map_of values f"
    using Encode_columns [OF ok assms(3)] by blast
  have "field_index r ''field0'' = 0"
    using ok assms(4) field_index_name [OF ok, of 0] by (auto simp: codec_ok_def)
  then have "data (field_index r k) = map_of values ''field0''"
    using data assms(4) field_index_unknown [OF ok assms(5)] by metis
  with bs(1) RowCodec_Decode_lookup [OF bs(2), of r "[k]"] show ?thesis by auto
qed

theorem decode_unknown_field_witness:
  "\<exists>r bs res. NewRowCodec (props_of [(''fieldcount'', 2)] []) = Ret r
     \<and> RowCodec_Encode r [] [(''field0'', [9])] = Inr bs
     \<and> RowCodec_Decode r bs [''extra''] = Ret (Inr res) \<and> map_of res ''extra'' = Some [9]"
proof -
  let ?p = "props_of [(''fieldcount'', 2)] []"
  obtain r where r: "NewRowCodec ?p = Ret r" and fs: "codec_fields r = [''field0'', ''field1'']"
    by (simp add: NewRowCodec_def allFields_def prop_defs upto.simps)
  have "GetInt64 ?p prop_FieldCount prop_FieldCountDefault < 2 ^ 63" by (simp add: prop_defs)
  moreover have "row_fits r [(''field0'', [9])]" by (simp add: row_fits_def fs)
  ultimately show ?thesis
    using decode_unknown_field [OF r, of "[(''field0'', [9])]" "''extra''" "[]"] r fs by simp
qed

text \<open>
  \<open>NewFieldPairs\<close> is strictly sorted by field name, holds exactly the pairs of the map, and does not depend
  on the order in which the map is ranged over.
\<close>

theorem field_pairs_canonical:
  assumes "distinct (map fst values)" and "mset values' = mset values"
  shows "sorted_wrt (\<lambda>a b. fst a < fst b) (NewFieldPairs values) \<and> mset (NewFieldPairs values) = mset values
    \<and> NewFieldPairs values' = NewFieldPairs values"
proof -
  let ?s = "NewFieldPairs values"
  have m: "mset ?s = mset values" and s: "sorted (map fst ?s)" by (simp_all add: NewFieldPairs_def)
  have "distinct (map fst ?s)" "distinct (map fst values')"
    using assms m by (metis distinct_count_atmost_1 mset_map set_mset_mset)+
  then have "sorted_wrt (<) (map fst ?s)" using s by (simp add: strict_sorted_iff)
  moreover have "NewFieldPairs values' = ?s"
    by (rule NewFieldPairs_unique) (use \<open>distinct (map fst values')\<close> m s assms in simp_all)
  ultimately show ?thesis using m by (simp add: sorted_wrt_map)
qed

theorem field_pairs_canonical_witness:
  "NewFieldPairs [(''field1'', [1]), (''field0'', [2])] = NewFieldPairs [(''field0'', [2]), (''field1'', [1])]
   \<and> sorted_wrt (\<lambda>a b. fst a < fst b) (NewFieldPairs [(''field0'', [2]), (''field1'', [1])])"
  using field_pairs_canonical [of "[(''field0'', [2]), (''field1'', [1])]" "[(''field1'', [1]), (''field0'', [2])]"]
  by simp

end
