(* ===== verification/Zipf.thy ===== *)
theory Zipf
  imports AckCounter
begin

text \<open>
  The skewed generators of \<^verbatim>\<open>pkg/generator\<close>: \<open>Zipfian\<close>, \<open>ScrambledZipfian\<close>, \<open>SkewedLatest\<close>, \<open>Exponential\<close> and the
  generalized Pareto generator. The functions of package \<open>math\<close> are a parameter \<^typ>\<open>mathlib\<close>; what a bounds
  theorem needs of them is a named hypothesis. A constructor that draws from a generator seeded with
  the time takes that random stream as an argument. Progress messages on the console are left out.
\<close>

section \<open>Zipfian\<close>

definition ZipfianConstant :: float64 where
  "ZipfianConstant = fl (99 / 100)"

record zipfian = number +
  zipf_lock :: spinlock
  zipf_items :: int
  zipf_base :: int
  zipf_zipfianConstant :: float64
  zipf_alpha :: float64
  zipf_zetan :: float64
  zipf_theta :: float64
  zipf_eta :: float64
  zipf_zeta2Theta :: float64
  zipf_countForZeta :: int
  zipf_allowItemCountDecrease :: bool

text \<open>The loop variable stays below \<open>n\<close>, so \<open>i + 1\<close> does not wrap.\<close>

function zetaStatic :: "mathlib \<Rightarrow> int \<Rightarrow> int \<Rightarrow> float64 \<Rightarrow> float64 \<Rightarrow> float64" where
  "zetaStatic M st n theta initialSum =
     (if st < n
      then zetaStatic M (st + 1) n theta (fadd initialSum (fdiv (Fin 1) (mPow M (of_int64 (st + 1)) theta)))
      else initialSum)"
  by auto
termination by (relation "measure (\<lambda>(M, st, n, theta, s). nat (n - st))") auto

declare zetaStatic.simps [simp del]

definition Zipfian_zeta :: "mathlib \<Rightarrow> zipfian \<Rightarrow> int \<Rightarrow> int \<Rightarrow> float64 \<Rightarrow> float64 \<Rightarrow> float64 \<times> zipfian" where
  "Zipfian_zeta M z st n thetaVal initialSum =
     (zetaStatic M st n thetaVal initialSum, z\<lparr>zipf_countForZeta := n\<rparr>)"

definition zipf_eta_of :: "mathlib \<Rightarrow> int \<Rightarrow> float64 \<Rightarrow> float64 \<Rightarrow> float64 \<Rightarrow> float64" where
  "zipf_eta_of M items theta zeta2Theta zetan =
     fdiv (fsub (Fin 1) (mPow M (fdiv (Fin 2) (of_int64 items)) (fsub (Fin 1) theta)))
          (fsub (Fin 1) (fdiv zeta2Theta zetan))"

text \<open>The part of \<open>next\<close> under the lock: adapt \<open>zetan\<close> and \<open>eta\<close> to a changed item count.\<close>

definition zipf_adapt :: "mathlib \<Rightarrow> zipfian \<Rightarrow> int \<Rightarrow> zipfian" where
  "zipf_adapt M z itemCount =
     (if zipf_countForZeta z < itemCount then
        let (zetan, z) = Zipfian_zeta M z (zipf_countForZeta z) itemCount (zipf_theta z) (zipf_zetan z)
        in z\<lparr>zipf_zetan := zetan, zipf_eta := zipf_eta_of M (zipf_items z) (zipf_theta z) (zipf_zeta2Theta z) zetan\<rparr>
      else if itemCount < zipf_countForZeta z \<and> zipf_allowItemCountDecrease z then
        let (zetan, z) = Zipfian_zeta M z 0 itemCount (zipf_theta z) (Fin 0)
        in z\<lparr>zipf_zetan := zetan, zipf_eta := zipf_eta_of M (zipf_items z) (zipf_theta z) (zipf_zeta2Theta z) zetan\<rparr>
      else z)"

definition zipf_draw :: "mathlib \<Rightarrow> zipfian \<Rightarrow> rand \<Rightarrow> int \<Rightarrow> int \<times> zipfian \<times> rand" where
  "zipf_draw M z r itemCount =
     (let (u, r') = rFloat64 r; uz = fmul u (zipf_zetan z) in
      if flt uz (Fin 1) then (zipf_base z, z, r')
      else if flt uz (fadd (Fin 1) (mPow M (Fin (1 / 2)) (zipf_theta z))) then (i64 (zipf_base z + 1), z, r')
      else
        let ret = i64 (zipf_base z + to_int64 (fmul (of_int64 itemCount)
                    (mPow M (fadd (fsub (fmul (zipf_eta z) u) (zipf_eta z)) (Fin 1)) (zipf_alpha z))))
        in (ret, SetLastValue z ret, r'))"

definition Zipfian_next :: "mathlib \<Rightarrow> zipfian \<Rightarrow> rand \<Rightarrow> int \<Rightarrow> (int \<times> zipfian \<times> rand) go" where
  "Zipfian_next M z r itemCount =
     (if itemCount \<noteq> zipf_countForZeta z then
        gbind (Lock 1 (zipf_lock z)) (\<lambda>l.
          let z1 = zipf_adapt M (z\<lparr>zipf_lock := l\<rparr>) itemCount
          in Ret (zipf_draw M (z1\<lparr>zipf_lock := Unlock (zipf_lock z1)\<rparr>) r itemCount))
      else Ret (zipf_draw M z r itemCount))"

definition Zipfian_Next :: "mathlib \<Rightarrow> zipfian \<Rightarrow> rand \<Rightarrow> (int \<times> zipfian \<times> rand) go" where
  "Zipfian_Next M z r = Zipfian_next M z r (zipf_items z)"

definition NewZipfian :: "mathlib \<Rightarrow> rand \<Rightarrow> int \<Rightarrow> int \<Rightarrow> float64 \<Rightarrow> float64 \<Rightarrow> zipfian go" where
  "NewZipfian M seed lo hi zipfianConstant zetan =
     (let items = i64 (i64 (hi - lo) + 1);
          theta = zipfianConstant;
          z = \<lparr>LastValue = 0, zipf_lock = Lock_free, zipf_items = items, zipf_base = lo,
               zipf_zipfianConstant = zipfianConstant, zipf_alpha = Fin 0, zipf_zetan = Fin 0,
               zipf_theta = theta, zipf_eta = Fin 0, zipf_zeta2Theta = Fin 0, zipf_countForZeta = 0,
               zipf_allowItemCountDecrease = False\<rparr>;
          (zeta2Theta, z) = Zipfian_zeta M z 0 2 theta (Fin 0);
          z = z\<lparr>zipf_zeta2Theta := zeta2Theta, zipf_alpha := fdiv (Fin 1) (fsub (Fin 1) theta),
                zipf_zetan := zetan, zipf_countForZeta := items,
                zipf_eta := zipf_eta_of M items theta zeta2Theta zetan\<rparr>
      in gbind (Zipfian_Next M z seed) (\<lambda>(v, z, r). Ret z))"

definition NewZipfianWithRange :: "mathlib \<Rightarrow> rand \<Rightarrow> int \<Rightarrow> int \<Rightarrow> float64 \<Rightarrow> zipfian go" where
  "NewZipfianWithRange M seed lo hi zipfianConstant =
     NewZipfian M seed lo hi zipfianConstant
       (zetaStatic M 0 (i64 (i64 (hi - lo) + 1)) zipfianConstant (Fin 0))"

definition NewZipfianWithItems :: "mathlib \<Rightarrow> rand \<Rightarrow> int \<Rightarrow> float64 \<Rightarrow> zipfian go" where
  "NewZipfianWithItems M seed items zipfianConstant =
     NewZipfianWithRange M seed 0 (i64 (items - 1)) zipfianConstant"

section \<open>ScrambledZipfian, SkewedLatest\<close>

record scrambled = number +
  scr_gen :: zipfian
  scr_min :: int
  scr_max :: int
  scr_itemCount :: int

definition NewScrambledZipfian :: "mathlib \<Rightarrow> rand \<Rightarrow> int \<Rightarrow> int \<Rightarrow> float64 \<Rightarrow> scrambled go" where
  "NewScrambledZipfian M seed lo hi zipfianConstant =
     (let zetan = fl (26.46902820178302); usedZipfianConstant = fl (99 / 100); itemCount = 10000000000 in
      gbind (if feq zipfianConstant usedZipfianConstant then NewZipfian M seed 0 itemCount zipfianConstant zetan
             else NewZipfianWithRange M seed 0 itemCount zipfianConstant)
        (\<lambda>gen. Ret \<lparr>LastValue = 0, scr_gen = gen, scr_min = lo, scr_max = hi,
                     scr_itemCount = i64 (i64 (hi - lo) + 1)\<rparr>))"

definition Scrambled_Next :: "mathlib \<Rightarrow> scrambled \<Rightarrow> rand \<Rightarrow> (int \<times> scrambled \<times> rand) go" where
  "Scrambled_Next M s r =
     gbind (Zipfian_Next M (scr_gen s) r) (\<lambda>(n, gen, r').
       if scr_itemCount s = 0 then Panic ''integer divide by zero''
       else let n = i64 (scr_min s + go_mod (Hash64 n) (scr_itemCount s))
            in Ret (n, SetLastValue (s\<lparr>scr_gen := gen\<rparr>) n, r'))"

text \<open>
  The basis of \<open>SkewedLatest\<close> is shared with the insert path, so its current \<open>Last\<close> is an argument of
  every call.
\<close>

record skewedlatest = number +
  skew_zipfian :: zipfian

definition SkewedLatest_Next :: "mathlib \<Rightarrow> int \<Rightarrow> skewedlatest \<Rightarrow> rand \<Rightarrow> (int \<times> skewedlatest \<times> rand) go" where
  "SkewedLatest_Next M basis_last s r =
     gbind (Zipfian_next M (skew_zipfian s) r basis_last) (\<lambda>(v, z, r').
       let nxt = i64 (basis_last - v) in Ret (nxt, SetLastValue (s\<lparr>skew_zipfian := z\<rparr>) nxt, r'))"

definition NewSkewedLatest :: "mathlib \<Rightarrow> rand \<Rightarrow> rand \<Rightarrow> int \<Rightarrow> skewedlatest go" where
  "NewSkewedLatest M seed1 seed2 basis_last =
     gbind (NewZipfianWithItems M seed1 basis_last ZipfianConstant) (\<lambda>z.
     gbind (SkewedLatest_Next M basis_last \<lparr>LastValue = 0, skew_zipfian = z\<rparr> seed2) (\<lambda>(v, s, r). Ret s))"

section \<open>Exponential\<close>

record exponential = number +
  exp_gamma :: float64

definition NewExponentialWithMean :: "float64 \<Rightarrow> exponential" where
  "NewExponentialWithMean mean = \<lparr>LastValue = 0, exp_gamma = fdiv (Fin 1) mean\<rparr>"

definition NewExponential :: "mathlib \<Rightarrow> float64 \<Rightarrow> float64 \<Rightarrow> exponential" where
  "NewExponential M percentile rng =
     \<lparr>LastValue = 0, exp_gamma = fdiv (fneg (mLog M (fsub (Fin 1) (fdiv percentile (Fin 100))))) rng\<rparr>"

definition Exponential_Next :: "mathlib \<Rightarrow> exponential \<Rightarrow> rand \<Rightarrow> (int \<times> exponential \<times> rand) go" where
  "Exponential_Next M e r =
     (let (u, r') = rFloat64 r; v = to_int64 (fdiv (fneg (mLog M u)) (exp_gamma e))
      in Ret (v, SetLastValue e v, r'))"

section \<open>Generalized Pareto distribution\<close>

record gpd =
  gpd_k :: float64
  gpd_sigma :: float64
  gpd_mu :: float64
  gpd_lastVal :: int

definition NewGPDGenerator :: "float64 \<Rightarrow> float64 \<Rightarrow> float64 \<Rightarrow> gpd" where
  "NewGPDGenerator k sigma mu = \<lparr>gpd_k = k, gpd_sigma = sigma, gpd_mu = mu, gpd_lastVal = 0\<rparr>"

definition fabs :: "float64 \<Rightarrow> float64" where
  "fabs x = (if flt x (Fin 0) then fneg x else x)"

text \<open>The loop that draws until the fraction is neither 0 nor 1; it ends with the first such draw.\<close>

fun gpd_draw :: "nat \<Rightarrow> rand \<Rightarrow> (float64 \<times> rand) go" where
  "gpd_draw 0 r = Hang"
| "gpd_draw (Suc fuel) r =
     (let (u, r') = rFloat64 r in
      if feq u (Fin 0) \<or> feq u (Fin 1) then gpd_draw fuel r' else Ret (u, r'))"

definition GPD_Next :: "mathlib \<Rightarrow> nat \<Rightarrow> gpd \<Rightarrow> rand \<Rightarrow> (int \<times> gpd \<times> rand) go" where
  "GPD_Next M fuel g r =
     gbind (gpd_draw fuel r) (\<lambda>(u, r').
       let val = (if flt (fabs (gpd_k g)) (fl (1 / 1000000000))
                  then fsub (gpd_mu g) (fmul (gpd_sigma g) (mLog M (fsub (Fin 1) u)))
                  else fadd (gpd_mu g) (fmul (fdiv (gpd_sigma g) (gpd_k g))
                         (fsub (mPow M (fsub (Fin 1) u) (fneg (gpd_k g))) (Fin 1))));
           valInt = to_int64 val;
           valInt = (if valInt \<le> 0 then 1 else valInt)
       in Ret (valInt, g\<lparr>gpd_lastVal := valInt\<rparr>, r'))"

definition GPD_Last :: "gpd \<Rightarrow> int" where
  "GPD_Last g = gpd_lastVal g"

section \<open>Bounds of the Zipfian draw\<close>

text \<open>
  What the bounds need of \<open>math.Pow\<close>: on the unit interval, with an exponent that is not negative, it stays in
  the unit interval.
\<close>

definition pow_unit :: "mathlib \<Rightarrow> bool" where
  "pow_unit M \<longleftrightarrow> (\<forall>x y. 0 \<le> x \<and> x \<le> 1 \<and> 0 \<le> y \<longrightarrow> (\<exists>p. mPow M (Fin x) (Fin y) = Fin p \<and> 0 \<le> p \<and> p \<le> 1))"

definition zipf_ok :: "zipfian \<Rightarrow> bool" where
  "zipf_ok z \<longleftrightarrow> (\<exists>e. zipf_eta z = Fin e \<and> rnd e = e \<and> 0 \<le> e \<and> e \<le> 1)
     \<and> (\<exists>a. zipf_alpha z = Fin a \<and> 0 \<le> a)"

lemma fl_unit: "\<bar>x\<bar> \<le> 1 \<Longrightarrow> fl x = Fin (rnd x)"
proof -
  assume "\<bar>x\<bar> \<le> 1"
  also have "(1 :: real) \<le> 2 ^ 1023" by (rule one_le_power) simp
  finally show ?thesis by (rule fl_Fin)
qed

lemma rnd_1 [simp]: "rnd 1 = 1"
  using rnd_of_int [of 1] by simp

lemma skew_argument:
  assumes "0 \<le> e" and "e \<le> 1" and "rnd e = e"
  shows "\<exists>x. fadd (fsub (fmul (Fin e) (Fin (unit_draw r))) (Fin e)) (Fin 1) = Fin x \<and> 0 \<le> x \<and> x \<le> 1"
proof -
  have u: "0 \<le> unit_draw r" "unit_draw r \<le> 1" using unit_draw_range [of r] by (auto intro: order_trans)
  have eu: "0 \<le> e * unit_draw r" "e * unit_draw r \<le> e"
    using assms(1) u mult_left_le [of "unit_draw r" e] by auto
  let ?a = "rnd (e * unit_draw r)" let ?b = "rnd (?a - e)"
  have a: "0 \<le> ?a" "?a \<le> e" using rnd_mono [OF eu(2)] eu(1) assms(3) by (auto intro: rnd_nonneg)
  have b: "- e \<le> ?b" "?b \<le> 0"
    using rnd_mono [of "- e" "?a - e"] rnd_mono [of "?a - e" 0] a assms(3) by (auto simp: rnd_minus)
  have c: "0 \<le> rnd (?b + 1)" "rnd (?b + 1) \<le> 1"
    using b assms(2) rnd_mono [of "?b + 1" 1] by (auto intro: rnd_nonneg)
  have "fmul (Fin e) (Fin (unit_draw r)) = Fin ?a" using eu assms(2) by (simp add: fl_unit)
  moreover have "fsub (Fin ?a) (Fin e) = Fin ?b" using a assms by (simp add: fsub_def fl_unit)
  moreover have "fadd (Fin ?b) (Fin 1) = Fin (rnd (?b + 1))" using b assms by (simp add: fl_unit)
  ultimately show ?thesis using c by auto
qed

lemma zipf_draw_range:
  assumes "pow_unit M" and "zipf_ok z" and "1 \<le> n" and "n \<le> 2 ^ 53"
    and "in_i64 (zipf_base z)" and "zipf_base z + n < 2 ^ 63"
  shows "\<exists>v z'. zipf_draw M z r n = (v, z', advance r) \<and> zipf_base z \<le> v \<and> v \<le> zipf_base z + n
    \<and> (z' = z \<or> z' = SetLastValue z v)"
proof -
  obtain e a where e: "zipf_eta z = Fin e" "rnd e = e" "0 \<le> e" "e \<le> 1" and a: "zipf_alpha z = Fin a" "0 \<le> a"
    using assms(2) by (auto simp: zipf_ok_def)
  obtain x where x: "fadd (fsub (fmul (Fin e) (Fin (unit_draw r))) (Fin e)) (Fin 1) = Fin x" "0 \<le> x" "x \<le> 1"
    using skew_argument [OF e(3,4,2)] by blast
  obtain p where p: "mPow M (Fin x) (Fin a) = Fin p" "0 \<le> p" "p \<le> 1"
    using assms(1) x(2,3) a(2) unfolding pow_unit_def by blast
  have k: "0 \<le> to_int64 (fmul (of_int64 n) (Fin p))" "to_int64 (fmul (of_int64 n) (Fin p)) \<le> n"
    using scaled_interval [of n p] assms(3,4) p by auto
  have i: "i64 (zipf_base z + 1) = zipf_base z + 1"
      "i64 (zipf_base z + to_int64 (fmul (of_int64 n) (Fin p))) = zipf_base z + to_int64 (fmul (of_int64 n) (Fin p))"
    using assms(3,5,6) k by (auto intro!: i64_id simp: in_i64_def)
  show ?thesis using assms(3) k by (simp add: zipf_draw_def rFloat64_eq Let_def e(1) a(1) x(1) p(1) i del: fmul.simps fadd.simps)
qed

definition zipf_inv :: "mathlib \<Rightarrow> zipfian \<Rightarrow> bool" where
  "zipf_inv M z \<longleftrightarrow> pow_unit M \<and> zipf_ok z \<and> zipf_countForZeta z = zipf_items z \<and> 1 \<le> zipf_items z
     \<and> zipf_items z \<le> 2 ^ 53 \<and> in_i64 (zipf_base z) \<and> zipf_base z + zipf_items z < 2 ^ 63"

lemma zipf_sel_SetLast [simp]:
  "zipf_items (SetLastValue z v) = zipf_items z" "zipf_base (SetLastValue z v) = zipf_base z"
  "zipf_eta (SetLastValue z v) = zipf_eta z" "zipf_alpha (SetLastValue z v) = zipf_alpha z"
  "zipf_countForZeta (SetLastValue z v) = zipf_countForZeta z" "zipf_zetan (SetLastValue z v) = zipf_zetan z"
  "zipf_lock (SetLastValue z v) = zipf_lock z"
  by (simp_all add: SetLastValue_def)

lemma skew_zipfian_SetLast [simp]: "skew_zipfian (SetLastValue s v) = skew_zipfian s"
  by (cases s) (simp add: SetLastValue_def)

lemma Zipfian_Next_range:
  assumes "zipf_inv M z"
  shows "\<exists>v z'. Zipfian_Next M z r = Ret (v, z', advance r) \<and> zipf_base z \<le> v \<and> v \<le> zipf_base z + zipf_items z
    \<and> zipf_inv M z' \<and> zipf_base z' = zipf_base z \<and> zipf_items z' = zipf_items z"
  using zipf_draw_range [of M z "zipf_items z" r] assms
  by (auto simp: zipf_inv_def Zipfian_Next_def Zipfian_next_def zipf_ok_def)

interpretation zipfian: ranged_gen "Zipfian_Next M" "zipf_inv M" zipf_base "\<lambda>z. zipf_base z + zipf_items z" for M
proof
  fix g r v g' r'
  assume inv: "zipf_inv M g"
  show "returns (Zipfian_Next M g r)" using Zipfian_Next_range [OF inv, of r] by auto
  assume "Zipfian_Next M g r = Ret (v, g', r')"
  with Zipfian_Next_range [OF inv, of r]
  show "zipf_base g \<le> v \<and> v \<le> zipf_base g + zipf_items g"
    and "zipf_inv M g' \<and> zipf_base g' = zipf_base g \<and> zipf_base g' + zipf_items g' = zipf_base g + zipf_items g"
    by auto
qed

text \<open>The constructor's own draw leaves every field but the last value alone.\<close>

lemma zipf_draw_frame: "zipf_draw M z r n = (v, z', r') \<Longrightarrow> z' = z \<or> z' = SetLastValue z v"
  by (auto simp: zipf_draw_def rFloat64_eq Let_def split: if_splits)

lemma NewZipfian_fields:
  assumes "NewZipfian M seed lo hi c zetan = Ret z"
  shows "zipf_base z = lo \<and> zipf_items z = i64 (i64 (hi - lo) + 1) \<and> zipf_countForZeta z = zipf_items z
    \<and> zipf_zetan z = zetan \<and> zipf_theta z = c \<and> zipf_alpha z = fdiv (Fin 1) (fsub (Fin 1) c)
    \<and> zipf_eta z = zipf_eta_of M (zipf_items z) c (zetaStatic M 0 2 c (Fin 0)) zetan \<and> zipf_lock z = Lock_free"
  using assms
  by (auto simp: NewZipfian_def Zipfian_zeta_def Zipfian_Next_def Zipfian_next_def SetLastValue_def Let_def
      dest!: zipf_draw_frame split: prod.splits)

lemma NewZipfian_returns: "returns (NewZipfian M seed lo hi c zetan)"
  by (simp add: NewZipfian_def Zipfian_zeta_def Zipfian_Next_def Zipfian_next_def Let_def split: prod.splits)

lemma zipf_adapt_lock: "zipf_adapt M (z\<lparr>zipf_lock := l\<rparr>) n = (zipf_adapt M z n)\<lparr>zipf_lock := l\<rparr>"
  by (simp add: zipf_adapt_def Zipfian_zeta_def)

text \<open>\<open>next\<close> with a changing item count: the state the draw is made in.\<close>

definition zipf_drawn :: "mathlib \<Rightarrow> zipfian \<Rightarrow> int \<Rightarrow> zipfian" where
  "zipf_drawn M z n = (if n \<noteq> zipf_countForZeta z then zipf_adapt M z n else z)"

lemma Zipfian_next_eq:
  assumes "zipf_lock z = Lock_free"
  shows "Zipfian_next M z r n = Ret (zipf_draw M (zipf_drawn M z n) r n)"
proof -
  have "(zipf_adapt M z n)\<lparr>zipf_lock := Lock_free\<rparr> = zipf_adapt M (z\<lparr>zipf_lock := Lock_free\<rparr>) n"
    by (rule zipf_adapt_lock [symmetric])
  also have "z\<lparr>zipf_lock := Lock_free\<rparr> = z" using assms by simp
  finally show ?thesis using assms
    by (simp add: Zipfian_next_def zipf_drawn_def zipf_adapt_lock TryLock_def Lock_free_def Unlock_def)
qed

lemma zipf_drawn_base: "zipf_base (zipf_drawn M z n) = zipf_base z"
  by (simp add: zipf_drawn_def zipf_adapt_def Zipfian_zeta_def)

text \<open>The harmonic sum is extended, not recomputed, when the item count grows.\<close>

lemma zetaStatic_split:
  "st \<le> m \<Longrightarrow> m \<le> n \<Longrightarrow> zetaStatic M m n theta (zetaStatic M st m theta s) = zetaStatic M st n theta s"
proof (induction M st m theta s rule: zetaStatic.induct)
  case (1 M st m theta s)
  show ?case
  proof (cases "st < m")
    case True
    then have "zetaStatic M st n theta s
        = zetaStatic M (st + 1) n theta (fadd s (fdiv (Fin 1) (mPow M (of_int64 (st + 1)) theta)))"
      using "1.prems" by (subst zetaStatic.simps) simp
    with True 1 show ?thesis by (simp add: zetaStatic.simps [of M st m])
  next
    case False
    with "1.prems" have "st = m" by simp
    then show ?thesis by (simp add: zetaStatic.simps [of M m m])
  qed
qed

section \<open>The largest draw\<close>

lemma rnd_error: "x \<noteq> 0 \<Longrightarrow> \<bar>rnd x - x\<bar> \<le> 2 powi ulp_exp x / 2"
proof -
  assume "x \<noteq> 0"
  let ?g = "2 powi ulp_exp x :: real"
  have "\<bar>of_int (round_even (x / ?g)) - x / ?g\<bar> \<le> 1 / 2"
    unfolding round_even_def Let_def by (auto; linarith)
  then have "\<bar>of_int (round_even (x / ?g)) - x / ?g\<bar> * ?g \<le> 1 / 2 * ?g"
    by (intro mult_right_mono) auto
  moreover have "\<bar>of_int (round_even (x / ?g)) - x / ?g\<bar> * ?g = \<bar>(of_int (round_even (x / ?g)) - x / ?g) * ?g\<bar>"
    by (simp add: abs_mult)
  moreover have "(of_int (round_even (x / ?g)) - x / ?g) * ?g = rnd x - x"
    using \<open>x \<noteq> 0\<close> by (simp add: rnd_def left_diff_distrib)
  ultimately show ?thesis by simp
qed

lemma rnd_near_one: "1 - 1 / 2 ^ 54 \<le> x \<Longrightarrow> x \<le> 1 \<Longrightarrow> rnd x = 1"
proof -
  assume "1 - 1 / 2 ^ 54 \<le> x" "x \<le> 1"
  then have "rnd (1 - 1 / 2 ^ 54) \<le> rnd x" "rnd x \<le> 1" using rnd_mono [of _ x] rnd_mono [of x 1] by auto
  moreover have "rnd (1 - 1 / 2 ^ 54 :: real) = 1" using rnd_eqI [of "1 - 1 / 2 ^ 54" 1 "2 ^ 53"] by simp
  ultimately show ?thesis by simp
qed

lemma small_eta_absorbed:
  assumes "0 \<le> e" and "e \<le> 1 / 4" and "rnd e = e" and u: "u = 1 - 1 / 2 ^ 53"
  shows "fadd (fsub (fmul (Fin e) (Fin u)) (Fin e)) (Fin 1) = Fin 1"
proof -
  have eu: "0 \<le> e * u" "e * u \<le> e" "e - 1 / 2 ^ 55 \<le> e * u"
    using assms(1,2) by (auto simp: u algebra_simps)
  let ?a = "rnd (e * u)" let ?b = "rnd (?a - e)"
  have a: "0 \<le> ?a" "?a \<le> e" using rnd_mono [OF eu(2)] eu(1) assms(3) by (auto intro: rnd_nonneg)
  have "e - 1 / 2 ^ 54 \<le> ?a"
  proof (cases "e * u = 0")
    case True
    have "e \<le> 1 / 2 ^ 55" using eu(3) unfolding True by simp
    then show ?thesis using a(1) by simp
  next
    case False
    then have "0 < e * u" "e * u < 2 powi - 2" using eu assms(2) by (auto simp: u power_int_minus)
    then have "ilog2 (e * u) < - 2" by (rule ilog2_less)
    then have "ulp_exp (e * u) \<le> - 55" using eu(1) by (simp add: ulp_exp_def)
    then have "(2 :: real) powi ulp_exp (e * u) \<le> 2 powi - 55" by (rule power_int_increasing) simp
    with rnd_error [OF False] have "\<bar>?a - e * u\<bar> \<le> 1 / 2 ^ 56" by (simp add: power_int_minus)
    then have "e * u - 1 / 2 ^ 56 \<le> ?a" by linarith
    with eu(3) show ?thesis by simp
  qed
  then have "rnd (- (1 / 2 ^ 54)) \<le> ?b" "?b \<le> 0"
    using a rnd_mono [of "- (1 / 2 ^ 54)" "?a - e"] rnd_mono [of "?a - e" 0] by auto
  moreover have "rnd (1 / 2 ^ 54 :: real) = 1 / 2 ^ 54" using rnd_pow2 [of "- 54"] by (simp add: power_int_minus)
  ultimately have b: "- (1 / 2 ^ 54) \<le> ?b" "?b \<le> 0" by (simp_all only: rnd_minus)
  then have "rnd (?b + 1) = 1" by (intro rnd_near_one) auto
  moreover have "\<bar>?b + 1\<bar> \<le> 1" using b by auto
  moreover have "\<bar>e * u\<bar> \<le> 1" "\<bar>?a - e\<bar> \<le> 1" using eu(1,2) a assms(1,2) by linarith+
  ultimately show ?thesis by (simp add: fsub_def fl_unit)
qed

section \<open>An instance of the mathematical functions\<close>

text \<open>The exact functions of the reals, rounded; they satisfy the hypotheses on the parameter.\<close>

definition real_math :: mathlib where
  "real_math =
     \<lparr>mExp = (\<lambda>x. case x of Fin a \<Rightarrow> fl (exp a) | PosInf \<Rightarrow> PosInf | NegInf \<Rightarrow> Fin 0 | NaN \<Rightarrow> NaN),
      mLog = (\<lambda>x. case x of Fin a \<Rightarrow> if 0 < a then fl (ln a) else if a = 0 then NegInf else NaN
                  | PosInf \<Rightarrow> PosInf | _ \<Rightarrow> NaN),
      mPow = (\<lambda>x y. case (x, y) of (Fin a, Fin b) \<Rightarrow> if b = 0 then Fin 1 else if 0 \<le> a then fl (a powr b) else NaN
                    | _ \<Rightarrow> NaN)\<rparr>"

lemma pow_unit_real_math: "pow_unit real_math"
  unfolding pow_unit_def
proof (intro allI impI)
  fix x y :: real
  assume xy: "0 \<le> x \<and> x \<le> 1 \<and> 0 \<le> y"
  then have "0 \<le> x powr y" "x powr y \<le> 1" by (auto intro: powr_le1)
  moreover from this have "0 \<le> rnd (x powr y)" "rnd (x powr y) \<le> 1"
    using rnd_mono [of "x powr y" 1] by (auto intro: rnd_nonneg)
  ultimately show "\<exists>p. mPow real_math (Fin x) (Fin y) = Fin p \<and> 0 \<le> p \<and> p \<le> 1"
    using xy by (auto simp: real_math_def fl_unit)
qed

text \<open>With exponent 0 the distribution is uniform and every constant is exact.\<close>

lemma rnd_small [simp]: "rnd 2 = 2" "rnd 8 = 8" "rnd (3 / 4) = 3 / 4" "rnd (1 / 4) = 1 / 4"
  using rnd_of_int [of 2] rnd_of_int [of 8] rnd_eqI [of "3 / 4" 1 "3 * 2 ^ 51"] rnd_eqI [of "1 / 4" 2 "2 ^ 52"]
  by simp_all

lemma real_pow_0: "mPow real_math (Fin a) (Fin 0) = Fin 1"
  by (simp add: real_math_def)

lemma zeta2_flat: "zetaStatic real_math 0 2 (Fin 0) (Fin 0) = Fin 2"
  by (simp add: zetaStatic.simps [of real_math 0] zetaStatic.simps [of real_math 1] zetaStatic.simps [of real_math 2]
      real_pow_0 of_int64_Fin fl_unit fl_Fin)

lemma flat_eta: "zipf_eta_of real_math 8 (Fin 0) (Fin 2) (Fin 8) = Fin 1"
  by (simp add: zipf_eta_of_def fsub_def of_int64_Fin fl_unit real_math_def)

section \<open>Properties\<close>



text \<open>
  The upper end \<open>max + 1\<close> is reached: when \<open>eta\<close> is at most one quarter, the largest fraction \<open>Float64\<close> returns
  is absorbed by rounding, \<open>Pow\<close> is called with 1, and \<open>Next\<close> returns \<open>min + items\<close>, one past the range of \<open>min\<close> to \<open>max\<close>
  inclusive that the comment promises.
\<close>

theorem zipfian_exceeds_max:
  assumes "pow_unit M" and "mPow M (Fin 1) (zipf_alpha z) = Fin 1"
    and "zipf_eta z = Fin e" and "0 \<le> e" and "e \<le> 1 / 4" and "rnd e = e"
    and "zipf_zetan z = Fin zn" and "4 \<le> zn" and "zn \<le> 2 ^ 53" and "zipf_theta z = Fin t" and "0 \<le> t"
    and "zipf_countForZeta z = zipf_items z" and "1 \<le> zipf_items z" and "zipf_items z \<le> 2 ^ 53"
    and "in_i64 (zipf_base z)" and "zipf_base z + zipf_items z < 2 ^ 63"
  shows "\<exists>z' r'. Zipfian_Next M z (\<lambda>_. 2 ^ 53 - 1) = Ret (zipf_base z + zipf_items z, z', r')"
proof -
  define r0 :: rand where "r0 = (\<lambda>_. 2 ^ 53 - 1)"
  let ?u = "unit_draw r0" and ?n = "zipf_items z"
  have u: "?u = 1 - 1 / 2 ^ 53" by (simp add: unit_draw_def r0_def)
  obtain p where p: "mPow M (Fin (1 / 2)) (Fin t) = Fin p" "0 \<le> p" "p \<le> 1"
    using assms(1) [unfolded pow_unit_def, rule_format, of "1 / 2" t] assms(11) by auto
  have big: "2 \<le> ?u * zn" "?u * zn \<le> 2 ^ 53"
    using assms(8,9) by (auto simp: u algebra_simps)
  then have uz: "2 \<le> rnd (?u * zn)" using rnd_mono [of 2 "?u * zn"] by simp
  have "fmul (Fin ?u) (Fin zn) = Fin (rnd (?u * zn))"
    using big by (simp add: fl_Fin power_increasing [of 53 1023 "2 :: real", THEN order_trans [rotated]])
  moreover have "fadd (Fin 1) (Fin p) = Fin (rnd (1 + p))" "rnd (1 + p) \<le> 2"
    using p rnd_mono [of "1 + p" 2] by (auto simp: fl_Fin)
  ultimately have no: "\<not> flt (fmul (Fin ?u) (Fin zn)) (Fin 1)" "\<not> flt (fmul (Fin ?u) (Fin zn)) (fadd (Fin 1) (Fin p))"
    using uz by auto
  have n: "to_int64 (fmul (of_int64 ?n) (Fin 1)) = ?n"
    using assms(13,14) rnd_of_int [of ?n] of_int64_Fin [of ?n] by (simp add: of_int64_def trunc_def in_i64_def)
  have "zipf_draw M z r0 ?n = (zipf_base z + ?n, SetLastValue z (zipf_base z + ?n), advance r0)"
    using assms(2,13,15,16) no unfolding zipf_draw_def rFloat64_eq Let_def prod.case assms(3,7,10) p(1)
      small_eta_absorbed [OF assms(4-6) u] n
    by (simp add: n i64_id in_i64_def del: fmul.simps fadd.simps)
  then show ?thesis using assms(12) unfolding r0_def [symmetric] by (simp add: Zipfian_Next_def Zipfian_next_def)
qed

theorem zipfian_exceeds_max_witness:
  "\<exists>z' r'. Zipfian_Next real_math
      \<lparr>LastValue = 0, zipf_lock = Lock_free, zipf_items = 1000, zipf_base = 1, zipf_zipfianConstant = Fin 0,
       zipf_alpha = Fin 0, zipf_zetan = Fin 26, zipf_theta = Fin 0, zipf_eta = Fin (1 / 4), zipf_zeta2Theta = Fin 2,
       zipf_countForZeta = 1000, zipf_allowItemCountDecrease = False\<rparr> (\<lambda>_. 2 ^ 53 - 1) = Ret (1001, z', r')"
  using zipfian_exceeds_max [OF pow_unit_real_math, of
      "\<lparr>LastValue = 0, zipf_lock = Lock_free, zipf_items = 1000, zipf_base = 1, zipf_zipfianConstant = Fin 0,
       zipf_alpha = Fin 0, zipf_zetan = Fin 26, zipf_theta = Fin 0, zipf_eta = Fin (1 / 4), zipf_zeta2Theta = Fin 2,
       zipf_countForZeta = 1000, zipf_allowItemCountDecrease = False\<rparr>" "1 / 4" 26 0]
  by (simp add: real_pow_0 in_i64_def)

text \<open>
  \<open>SkewedLatest\<close> never picks a key outside \<open>[0, Last]\<close> of its basis: even when the Zipfian draw overshoots,
  the key is not negative, and it is never beyond the last acknowledged insert. The generator
  adapts to a basis that has grown since the previous call and leaves the lock free.
\<close>

theorem skewed_latest_range:
  assumes "pow_unit M" and "zipf_ok (zipf_drawn M (skew_zipfian s) lst)" and "zipf_base (skew_zipfian s) = 0"
    and "zipf_lock (skew_zipfian s) = Lock_free" and "1 \<le> lst" and "lst \<le> 2 ^ 53"
  shows "\<exists>v s' r'. SkewedLatest_Next M lst s r = Ret (v, s', r') \<and> 0 \<le> v \<and> v \<le> lst \<and> Number_Last s' = v
    \<and> zipf_lock (skew_zipfian s') = Lock_free"
proof -
  let ?z = "zipf_drawn M (skew_zipfian s) lst"
  obtain v z' where v: "zipf_draw M ?z r lst = (v, z', advance r)" "0 \<le> v" "v \<le> lst" "z' = ?z \<or> z' = SetLastValue ?z v"
    using zipf_draw_range [OF assms(1,2,5,6), of r] assms(3,6) by (auto simp: zipf_drawn_base in_i64_def)
  have "i64 (lst - v) = lst - v" using v assms(6) by (intro i64_id) (auto simp: in_i64_def)
  then have "SkewedLatest_Next M lst s r = Ret (lst - v, SetLastValue (s\<lparr>skew_zipfian := z'\<rparr>) (lst - v), advance r)"
    by (simp add: SkewedLatest_Next_def Zipfian_next_eq [OF assms(4)] v(1) Let_def)
  moreover have "zipf_lock ?z = Lock_free"
    using assms(4) by (simp add: zipf_drawn_def zipf_adapt_def Zipfian_zeta_def)
  ultimately show ?thesis using v(2-4) by auto
qed

theorem skewed_latest_range_witness:
  "\<exists>v s' r'. SkewedLatest_Next real_math 8
      \<lparr>LastValue = 0, skew_zipfian = \<lparr>LastValue = 0, zipf_lock = Lock_free, zipf_items = 8, zipf_base = 0,
       zipf_zipfianConstant = Fin 0, zipf_alpha = Fin 1, zipf_zetan = Fin 8, zipf_theta = Fin 0, zipf_eta = Fin 1,
       zipf_zeta2Theta = Fin 2, zipf_countForZeta = 8, zipf_allowItemCountDecrease = False\<rparr>\<rparr> (\<lambda>i. i)
     = Ret (v, s', r') \<and> 0 \<le> v \<and> v \<le> 8"
  using skewed_latest_range [OF pow_unit_real_math, of
      "\<lparr>LastValue = 0, skew_zipfian = \<lparr>LastValue = 0, zipf_lock = Lock_free, zipf_items = 8, zipf_base = 0,
       zipf_zipfianConstant = Fin 0, zipf_alpha = Fin 1, zipf_zetan = Fin 8, zipf_theta = Fin 0, zipf_eta = Fin 1,
       zipf_zeta2Theta = Fin 2, zipf_countForZeta = 8, zipf_allowItemCountDecrease = False\<rparr>\<rparr>" 8 "\<lambda>i. i"]
  by (simp add: zipf_drawn_def zipf_ok_def) blast

text \<open>
  \<open>ScrambledZipfian\<close> spreads the Zipfian items over \<open>[min, max]\<close> by hashing: the value is \<open>min\<close> plus the hash
  modulo the item count, \<open>Last\<close> is the value, and the value lies within the range unless the hash is the
  one that \<open>Hash64\<close> leaves negative.
\<close>

theorem scrambled_range:
  assumes "zipf_inv M (scr_gen s)" and "in_i64 (scr_min s)" and "in_i64 (scr_max s)" and "scr_min s \<le> scr_max s"
    and "scr_itemCount s = scr_max s - scr_min s + 1" and "scr_itemCount s < 2 ^ 63"
  shows "\<exists>n v s' r'. Scrambled_Next M s r = Ret (v, s', r') \<and> zipf_base (scr_gen s) \<le> n
    \<and> n \<le> zipf_base (scr_gen s) + zipf_items (scr_gen s) \<and> Number_Last s' = v
    \<and> (if 0 \<le> Hash64 n then v = scr_min s + Hash64 n mod scr_itemCount s \<and> scr_min s \<le> v \<and> v \<le> scr_max s
       else Hash64 n = minInt64)"
proof -
  obtain n z' where n: "Zipfian_Next M (scr_gen s) r = Ret (n, z', advance r)"
      "zipf_base (scr_gen s) \<le> n" "n \<le> zipf_base (scr_gen s) + zipf_items (scr_gen s)"
    using Zipfian_Next_range [OF assms(1), of r] by blast
  let ?c = "scr_itemCount s" let ?v = "i64 (scr_min s + go_mod (Hash64 n) ?c)"
  have c: "0 < ?c" using assms(4,5) by simp
  have m: "0 \<le> Hash64 n mod ?c" "Hash64 n mod ?c < ?c" using c by simp_all
  have "Scrambled_Next M s r = Ret (?v, SetLastValue (s\<lparr>scr_gen := z'\<rparr>) ?v, advance r)"
    using c by (simp add: Scrambled_Next_def n(1) Let_def)
  moreover have "?v = scr_min s + Hash64 n mod ?c \<and> scr_min s \<le> ?v \<and> ?v \<le> scr_max s" if "0 \<le> Hash64 n"
  proof -
    have "i64 (scr_min s + Hash64 n mod ?c) = scr_min s + Hash64 n mod ?c"
      using m assms(2,3,5) unfolding in_i64_def by (intro i64_id) (simp only: in_i64_def, linarith)
    then show ?thesis using m assms(5) go_mod_nonneg [OF that c] by simp
  qed
  moreover have "Hash64 n = minInt64" if "\<not> 0 \<le> Hash64 n" using Hash64_cases [of n] that by auto
  ultimately show ?thesis using n(2,3) by (intro exI [of _ n] exI [of _ ?v]) auto
qed

theorem scrambled_range_witness:
  "\<exists>v s' r'. Scrambled_Next real_math
      \<lparr>LastValue = 0, scr_gen = \<lparr>LastValue = 0, zipf_lock = Lock_free, zipf_items = 8, zipf_base = 0,
       zipf_zipfianConstant = Fin 0, zipf_alpha = Fin 1, zipf_zetan = Fin 8, zipf_theta = Fin 0, zipf_eta = Fin 1,
       zipf_zeta2Theta = Fin 2, zipf_countForZeta = 8, zipf_allowItemCountDecrease = False\<rparr>,
       scr_min = 100, scr_max = 199, scr_itemCount = 100\<rparr> (\<lambda>i. i) = Ret (v, s', r') \<and> Number_Last s' = v"
proof -
  let ?s = "\<lparr>LastValue = 0, scr_gen = \<lparr>LastValue = 0, zipf_lock = Lock_free, zipf_items = 8, zipf_base = 0,
       zipf_zipfianConstant = Fin 0, zipf_alpha = Fin 1, zipf_zetan = Fin 8, zipf_theta = Fin 0, zipf_eta = Fin 1,
       zipf_zeta2Theta = Fin 2, zipf_countForZeta = 8, zipf_allowItemCountDecrease = False\<rparr>,
       scr_min = 100, scr_max = 199, scr_itemCount = 100\<rparr>"
  have "zipf_inv real_math (scr_gen ?s)"
    by (simp add: zipf_inv_def zipf_ok_def pow_unit_real_math in_i64_def)
  with scrambled_range [of real_math ?s "\<lambda>i. i"] show ?thesis by (auto simp: in_i64_def)
qed

lemma gpd_draw_returns:
  "k < fuel \<Longrightarrow> unit_draw (\<lambda>i. r (k + i)) \<noteq> 0 \<Longrightarrow> \<exists>u r'. gpd_draw fuel r = Ret (u, r')"
proof (induction fuel arbitrary: r k)
  case (Suc fuel)
  show ?case
  proof (cases "unit_draw r = 0")
    case True
    with Suc.prems obtain k' where k: "k = Suc k'" by (cases k) auto
    with Suc.IH [of k' "advance r"] Suc.prems True show ?thesis by (simp add: rFloat64_eq advance_def)
  next
    case False
    moreover have "unit_draw r < 1" using unit_draw_range [of r] by (auto intro: order_le_less_trans)
    ultimately show ?thesis by (simp add: rFloat64_eq)
  qed
qed simp

text \<open>
  The generalized Pareto generator: as soon as one of the first \<open>fuel\<close> draws is not 0, \<open>Next\<close> returns a length of at
  least 1 and \<open>Last\<close> reports it, whatever the parameters and the mathematical functions deliver,
  infinities and \<open>NaN\<close> included.
\<close>

theorem gpd_positive:
  assumes "k < fuel" and "unit_draw (\<lambda>i. r (k + i)) \<noteq> 0"
  shows "\<exists>v g' r'. GPD_Next M fuel g r = Ret (v, g', r') \<and> 1 \<le> v \<and> GPD_Last g' = v"
  using gpd_draw_returns [OF assms] by (auto simp: GPD_Next_def GPD_Last_def Let_def)

theorem gpd_positive_witness:
  "\<exists>v g' r'. GPD_Next real_math 3 (NewGPDGenerator (fl 0.2615) (fl 25.45) NaN) (\<lambda>i. i) = Ret (v, g', r') \<and> 1 \<le> v"
  using gpd_positive [of 1 3 "\<lambda>i. i" real_math "NewGPDGenerator (fl 0.2615) (fl 25.45) NaN"] by (auto simp: unit_draw_def)

end
