(* ===== verification/MixGraph.thy ===== *)
theory MixGraph
  imports Zipf "HOL-Library.Multiset"
begin

text \<open>
  \<open>PrefixMixGraphGenerator\<close> of \<^verbatim>\<open>pkg/generator/mixgraph.go\<close>: keys are drawn in two steps, first a region by its
  hotness rank, then an offset within the region, and every region has its own mix of operations.
  The stream of \<open>rand.New(rand.NewSource(seed))\<close> is a function of the seed, an argument of the constructor. The
  lemmas show that the shuffle is a permutation, that a drawn key lies in the drawn region, and that
  the operation mix used for a key is the one of the rank it was drawn from.
\<close>

section \<open>Definitions\<close>

record mixgraph =
  mg_numKeys :: int
  mg_numRegions :: int
  mg_regionSize :: int
  mg_regionCDF :: "float64 list"
  mg_regionMap :: "int list"
  mg_keyDistA :: float64
  mg_keyDistB :: float64
  mg_lastVal :: int
  mg_regionChoosers :: "discrete option list"

definition region_weight :: "mathlib \<Rightarrow> float64 \<Rightarrow> float64 \<Rightarrow> float64 \<Rightarrow> float64 \<Rightarrow> nat \<Rightarrow> float64" where
  "region_weight M expA expB expC expD i =
     (let x = of_int64 (int i);
          w = fadd (fmul expA (mExp M (fmul expB x))) (fmul expC (mExp M (fmul expD x)))
      in if flt w (Fin 0) then Fin 0 else w)"

fun region_cdf :: "float64 \<Rightarrow> float64 \<Rightarrow> float64 list \<Rightarrow> float64 list" where
  "region_cdf totalWeight cumulative [] = []"
| "region_cdf totalWeight cumulative (w # ws) =
     (let cumulative = fadd cumulative (fdiv w totalWeight)
      in cumulative # region_cdf totalWeight cumulative ws)"

fun shuffle_regions :: "int \<Rightarrow> nat list \<Rightarrow> int list \<Rightarrow> rand \<Rightarrow> int list go" where
  "shuffle_regions numRegions [] regionMap r = Ret regionMap"
| "shuffle_regions numRegions (i # is) regionMap r =
     gbind (Int63n r numRegions) (\<lambda>(pos, r').
       shuffle_regions numRegions is
         (regionMap[i := regionMap ! nat pos, nat pos := regionMap ! i]) r')"

definition region_chooser :: "int \<Rightarrow> nat \<Rightarrow> discrete" where
  "region_chooser numRegions i =
     (let pos = fdiv (of_int64 (int i)) (of_int64 numRegions) in
      if fle pos (fl (10 / 100)) then Discrete_Add (Discrete_Add NewDiscrete (fl (3 / 10)) 1) (fl (7 / 10)) 2
      else if flt (fl (10 / 100)) pos \<and> fle pos (fl (30 / 100))
      then Discrete_Add (Discrete_Add NewDiscrete (fl (5 / 10)) 1) (fl (5 / 10)) 2
      else Discrete_Add (Discrete_Add NewDiscrete (fl (9 / 10)) 1) (fl (1 / 10)) 2)"

fun place_choosers :: "int \<Rightarrow> int list \<Rightarrow> nat list \<Rightarrow> discrete option list \<Rightarrow> discrete option list" where
  "place_choosers numRegions regionMap [] choosers = choosers"
| "place_choosers numRegions regionMap (i # is) choosers =
     place_choosers numRegions regionMap is
       (choosers[nat (regionMap ! i) := Some (region_chooser numRegions i)])"

definition NewPrefixMixGraphGenerator ::
  "mathlib \<Rightarrow> (int \<Rightarrow> rand) \<Rightarrow> int \<Rightarrow> int \<Rightarrow> float64 \<Rightarrow> float64 \<Rightarrow> float64 \<Rightarrow> float64 \<Rightarrow> float64 \<Rightarrow> float64 \<Rightarrow> mixgraph go" where
  "NewPrefixMixGraphGenerator M newSource numKeys numRegions expA expB expC expD keyDistA keyDistB =
     (let numRegions = (if numRegions \<le> 0 then 100 else numRegions);
          regionSize = go_div numKeys numRegions;
          regionSize = (if regionSize = 0 then 1 else regionSize);
          n = nat numRegions;
          weights = map (region_weight M expA expB expC expD) [0..<n];
          totalWeight = foldl fadd (Fin 0) weights;
          cdf = (region_cdf totalWeight (Fin 0) weights)[n - 1 := Fin 1]
      in gbind (shuffle_regions numRegions [0..<n] (map int [0..<n]) (newSource (i64 (numRegions * 997)))) (\<lambda>regionMap.
         Ret \<lparr>mg_numKeys = numKeys, mg_numRegions = numRegions, mg_regionSize = regionSize,
              mg_regionCDF = cdf, mg_regionMap = regionMap, mg_keyDistA = keyDistA, mg_keyDistB = keyDistB,
              mg_lastVal = 0,
              mg_regionChoosers = place_choosers numRegions regionMap [0..<n] (replicate n None)\<rparr>))"

definition powerCdfInversion :: "mathlib \<Rightarrow> mixgraph \<Rightarrow> float64 \<Rightarrow> int" where
  "powerCdfInversion M m u =
     (let u = (if flt u (fl (1 / 100000000)) then fl (1 / 100000000) else u);
          val = fmul (mg_keyDistA m) (mExp M (fdiv (mLog M u) (mg_keyDistB m)))
      in to_int64 (fmul val (Fin 10000000)))"

text \<open>\<open>sort.SearchFloat64s\<close>: binary search for the first element that is not below the argument.\<close>

function search_floats :: "float64 list \<Rightarrow> float64 \<Rightarrow> nat \<Rightarrow> nat \<Rightarrow> nat" where
  "search_floats a x i j =
     (if i < j then
        let h = (i + j) div 2 in
        if \<not> fle x (a ! h) then search_floats a x (h + 1) j else search_floats a x i h
      else i)"
  by auto
termination by (relation "measure (\<lambda>(a, x, i, j). j - i)") auto

declare search_floats.simps [simp del]

definition SearchFloat64s :: "float64 list \<Rightarrow> float64 \<Rightarrow> int" where
  "SearchFloat64s a x = int (search_floats a x 0 (length a))"

definition region_offset :: "int \<Rightarrow> int \<Rightarrow> int \<Rightarrow> int" where
  "region_offset skewedFeature physicalRegion regionSize =
     (let mixedHash = (word_of_int skewedFeature :: u64) XOR push_bit 16 (word_of_int physicalRegion)
                      XOR 0x9e3779b97f4a7c15;
          lcgValue = mixedHash * 6364136223846793005 + 1442695040888963407
      in sint (lcgValue mod word_of_int regionSize))"

definition MixGraph_Next :: "mathlib \<Rightarrow> mixgraph \<Rightarrow> rand \<Rightarrow> (int \<times> mixgraph \<times> rand) go" where
  "MixGraph_Next M m r =
     (let (u1, r1) = rFloat64 r;
          hotnessBucket = SearchFloat64s (mg_regionCDF m) u1;
          hotnessBucket = (if mg_numRegions m \<le> hotnessBucket then i64 (mg_numRegions m - 1) else hotnessBucket)
      in gbind (go_index (mg_regionMap m) hotnessBucket) (\<lambda>physicalRegion.
         let regionBase = i64 (physicalRegion * mg_regionSize m);
             (u2, r2) = rFloat64 r1;
             offset = region_offset (powerCdfInversion M m u2) physicalRegion (mg_regionSize m);
             finalKey = i64 (regionBase + offset);
             finalKey = (if mg_numKeys m \<le> finalKey then i64 (mg_numKeys m - 1) else finalKey)
         in Ret (finalKey, m\<lparr>mg_lastVal := finalKey\<rparr>, r2)))"

definition MixGraph_Last :: "mixgraph \<Rightarrow> int" where
  "MixGraph_Last m = mg_lastVal m"

definition ChooseOperationForKey :: "mixgraph \<Rightarrow> int \<Rightarrow> rand \<Rightarrow> (int \<times> mixgraph \<times> rand) go" where
  "ChooseOperationForKey m keyNum r =
     (if mg_regionSize m = 0 then Panic ''integer divide by zero''
      else
        let physicalRegion = go_div keyNum (mg_regionSize m);
            physicalRegion = (if mg_numRegions m \<le> physicalRegion then i64 (mg_numRegions m - 1) else physicalRegion)
        in gbind (go_index (mg_regionChoosers m) physicalRegion) (\<lambda>chooser. case chooser of
             None \<Rightarrow> Panic ''nil pointer dereference''
           | Some d \<Rightarrow> gbind (Discrete_Next d r) (\<lambda>(op, d', r').
               Ret (op, m\<lparr>mg_regionChoosers := (mg_regionChoosers m)[nat physicalRegion := Some d']\<rparr>, r'))))"

section \<open>The shuffle is a permutation\<close>

lemma shuffle_regions_mset:
  assumes "0 < n" and "\<forall>i\<in>set is. i < length xs" and "n = int (length xs)"
  shows "\<exists>ys. shuffle_regions n is xs r = Ret ys \<and> mset ys = mset xs"
  using assms
proof (induction "is" arbitrary: xs r)
  case (Cons i "is")
  let ?p = "nat (int (r 0) mod n)"
  have p: "?p < length xs" using Cons.prems by (simp add: nat_less_iff)
  let ?ys = "xs[i := xs ! ?p, ?p := xs ! i]"
  have "mset ?ys = mset xs" using p Cons.prems mset_swap [of ?p xs i] by simp
  moreover have "\<exists>zs. shuffle_regions n is ?ys (advance r) = Ret zs \<and> mset zs = mset ?ys"
    using Cons.prems by (intro Cons.IH) auto
  ultimately show ?case using Cons.prems(1) by (auto simp: Int63n_def)
qed simp

definition is_perm :: "int \<Rightarrow> int list \<Rightarrow> bool" where
  "is_perm n xs \<longleftrightarrow> 0 < n \<and> length xs = nat n \<and> set xs = {0..<n} \<and> distinct xs"

lemma is_perm_mset:
  assumes "mset xs = mset (map int [0..<nat n])" and "0 < n"
  shows "is_perm n xs"
proof -
  have "set xs = set (map int [0..<nat n])" using assms(1) by (metis set_mset_mset)
  also have "\<dots> = {0..<n}" by (auto simp: image_iff) (metis atLeast0LessThan lessThan_iff nat_0_le nat_less_iff zless_nat_eq_int_zless)
  finally have s: "set xs = {0..<n}" .
  have l: "length xs = nat n" using assms(1) by (metis length_map length_upt minus_nat.diff_0 size_mset)
  have "distinct xs" using s l by (intro card_distinct) simp
  with s l assms(2) show ?thesis by (simp add: is_perm_def)
qed

text \<open>Placing the choosers along a permutation fills every slot, the one of rank \<open>i\<close> at \<open>regionMap ! i\<close>.\<close>

lemma place_choosers_length [simp]: "length (place_choosers n rm is cs) = length cs"
  by (induction "is" arbitrary: cs) auto

lemma place_choosers_keep:
  "\<forall>i\<in>set is. nat (rm ! i) \<noteq> j \<Longrightarrow> place_choosers n rm is cs ! j = cs ! j"
  by (induction "is" arbitrary: cs) auto

lemma place_choosers_at:
  assumes "inj_on (\<lambda>i. nat (rm ! i)) (set is)" and "distinct is" and "i \<in> set is"
    and "nat (rm ! i) < length cs"
  shows "place_choosers n rm is cs ! nat (rm ! i) = Some (region_chooser n i)"
  using assms
proof (induction "is" arbitrary: cs)
  case (Cons k ks)
  show ?case
  proof (cases "i = k")
    case True
    then have "\<forall>j\<in>set ks. nat (rm ! j) \<noteq> nat (rm ! i)" using Cons.prems(1,2) by (auto simp: inj_on_def)
    with True Cons.prems(4) show ?thesis by (simp add: place_choosers_keep)
  next
    case False
    with Cons show ?thesis by (simp add: inj_on_def)
  qed
qed simp

lemma perm_place:
  assumes "is_perm n rm" and "i < nat n"
  shows "place_choosers n rm [0..<nat n] (replicate (nat n) None) ! nat (rm ! i) = Some (region_chooser n i)"
proof (rule place_choosers_at)
  have r: "0 \<le> rm ! j \<and> rm ! j < n" if "j < nat n" for j
    using assms(1) that nth_mem [of j rm] by (auto simp: is_perm_def)
  show "inj_on (\<lambda>i. nat (rm ! i)) (set [0..<nat n])"
  proof (rule inj_onI)
    fix x y assume xy: "x \<in> set [0..<nat n]" "y \<in> set [0..<nat n]" "nat (rm ! x) = nat (rm ! y)"
    then have "rm ! x = rm ! y" using r [of x] r [of y] by (simp add: eq_nat_nat_iff)
    with xy assms(1) show "x = y" by (simp add: is_perm_def nth_eq_iff_index_eq)
  qed
  show "nat (rm ! i) < length (replicate (nat n) None)" using r [OF assms(2)] by simp
qed (use assms in auto)

section \<open>Invariant\<close>

definition mixgraph_inv :: "mixgraph \<Rightarrow> bool" where
  "mixgraph_inv m \<longleftrightarrow>
     1 \<le> mg_numKeys m \<and> mg_numKeys m < 2 ^ 63 \<and> mg_numRegions m < 2 ^ 63
     \<and> is_perm (mg_numRegions m) (mg_regionMap m)
     \<and> mg_regionSize m = max 1 (mg_numKeys m div mg_numRegions m)
     \<and> length (mg_regionCDF m) = nat (mg_numRegions m)
     \<and> length (mg_regionChoosers m) = nat (mg_numRegions m)
     \<and> (\<forall>i<nat (mg_numRegions m). \<exists>d. mg_regionChoosers m ! nat (mg_regionMap m ! i) = Some d
          \<and> discrete_values d = discrete_values (region_chooser (mg_numRegions m) i))"

lemma length_region_cdf [simp]: "length (region_cdf t c ws) = length ws"
  by (induction ws arbitrary: c) (auto simp: Let_def)

definition regions_of :: "int \<Rightarrow> int" where
  "regions_of numRegions = (if numRegions \<le> 0 then 100 else numRegions)"

lemma NewMixGraph_inv:
  assumes "1 \<le> numKeys" and "numKeys < 2 ^ 63" and "numRegions < 2 ^ 63"
  shows "\<exists>m. NewPrefixMixGraphGenerator M src numKeys numRegions a b c d ka kb = Ret m \<and> mixgraph_inv m
    \<and> mg_numKeys m = numKeys \<and> mg_numRegions m = regions_of numRegions"
proof -
  let ?n = "regions_of numRegions"
  have n: "1 \<le> ?n" "?n < 2 ^ 63" using assms(3) by (auto simp: regions_of_def)
  obtain rm where rm: "shuffle_regions ?n [0..<nat ?n] (map int [0..<nat ?n]) (src (i64 (?n * 997))) = Ret rm"
      "mset rm = mset (map int [0..<nat ?n])"
    using shuffle_regions_mset [of ?n "[0..<nat ?n]" "map int [0..<nat ?n]"] n by auto
  have "is_perm ?n rm" using is_perm_mset [OF rm(2)] n by simp
  moreover have "(if go_div numKeys ?n = 0 then 1 else go_div numKeys ?n) = max 1 (numKeys div ?n)"
    using assms(1) n pos_imp_zdiv_nonneg_iff [of ?n numKeys] by (auto simp: go_div_nonneg max_def)
  ultimately show ?thesis
    using rm(1) assms n perm_place [OF \<open>is_perm ?n rm\<close>]
    by (simp add: NewPrefixMixGraphGenerator_def Let_def mixgraph_inv_def flip: regions_of_def)
qed

lemma search_floats_range: "i \<le> j \<Longrightarrow> i \<le> search_floats a x i j \<and> search_floats a x i j \<le> j"
proof (induction a x i j rule: search_floats.induct)
  case (1 a x i j)
  show ?case
  proof (cases "i < j")
    case True
    then have "(i + j) div 2 < j" "i \<le> (i + j) div 2" by auto
    with True 1 show ?thesis by (subst (1 2) search_floats.simps) (fastforce simp: Let_def)
  next
    case False
    with "1.prems" show ?thesis by (subst (1 2) search_floats.simps) simp
  qed
qed

text \<open>The offset stays within the region.\<close>

lemma region_offset_range:
  assumes "1 \<le> sz" and "sz < 2 ^ 63"
  shows "0 \<le> region_offset f p sz \<and> region_offset f p sz < sz"
proof -
  have u: "uint (word_of_int sz :: u64) = sz" using assms by (simp add: uint_word_of_int_eq take_bit_int_eq_self)
  have "0 \<le> sint (w mod word_of_int sz) \<and> sint (w mod word_of_int sz) < sz" for w :: u64
  proof -
    have m: "uint (w mod word_of_int sz) = uint w mod sz" by (simp add: uint_mod_distrib u)
    have r: "0 \<le> uint w mod sz" "uint w mod sz < sz" using assms by simp_all
    then have "i64 (uint w mod sz) = uint w mod sz"
      using assms by (intro i64_id) (simp only: in_i64_def, linarith)
    then have "sint (w mod word_of_int sz) = uint w mod sz" by (simp add: sint_uint i64_def m)
    with r show ?thesis by simp
  qed
  then show ?thesis by (simp add: region_offset_def Let_def)
qed

section \<open>Drawing keys and operations\<close>

text \<open>The rank that a draw selects.\<close>

definition drawn_rank :: "mixgraph \<Rightarrow> rand \<Rightarrow> nat" where
  "drawn_rank m r =
     (let b = search_floats (mg_regionCDF m) (Fin (unit_draw r)) 0 (length (mg_regionCDF m))
      in min b (nat (mg_numRegions m) - 1))"

lemma drawn_rank_less: "mixgraph_inv m \<Longrightarrow> drawn_rank m r < nat (mg_numRegions m)"
  by (auto simp: drawn_rank_def mixgraph_inv_def is_perm_def Let_def min_def)

lemma region_at:
  "mixgraph_inv m \<Longrightarrow> i < nat (mg_numRegions m) \<Longrightarrow> 0 \<le> mg_regionMap m ! i \<and> mg_regionMap m ! i < mg_numRegions m"
  using nth_mem [of i "mg_regionMap m"] by (auto simp: mixgraph_inv_def is_perm_def)

lemma region_rank:
  "mixgraph_inv m \<Longrightarrow> 0 \<le> p \<Longrightarrow> p < mg_numRegions m \<Longrightarrow> \<exists>i<nat (mg_numRegions m). mg_regionMap m ! i = p"
proof -
  assume "mixgraph_inv m" "0 \<le> p" "p < mg_numRegions m"
  then have "p \<in> set (mg_regionMap m)" "length (mg_regionMap m) = nat (mg_numRegions m)"
    by (auto simp: mixgraph_inv_def is_perm_def)
  then show ?thesis by (auto simp: in_set_conv_nth)
qed

lemma regions_cover:
  assumes "1 \<le> n" and "1 \<le> N"
  shows "n * max 1 (N div n) \<le> max n (N :: int)"
proof -
  have "n * (N div n) \<le> N" using assms mult_div_mod_eq [of n N] pos_mod_sign [of n N] by linarith
  then show ?thesis by (auto simp: max_def)
qed

lemma MixGraph_Next_eq:
  assumes inv: "mixgraph_inv m" and p_def: "p = mg_regionMap m ! drawn_rank m r"
  shows "\<exists>off. 0 \<le> off \<and> off < mg_regionSize m \<and> MixGraph_Next M m r =
     (let k = min (p * mg_regionSize m + off) (mg_numKeys m - 1) in Ret (k, m\<lparr>mg_lastVal := k\<rparr>, advance (advance r)))"
proof -
  let ?n = "mg_numRegions m" and ?sz = "mg_regionSize m" and ?N = "mg_numKeys m"
  have m: "1 \<le> ?n" "?n < 2 ^ 63" "1 \<le> ?N" "?N < 2 ^ 63" "?sz = max 1 (?N div ?n)" "length (mg_regionMap m) = nat ?n"
      "length (mg_regionCDF m) = nat ?n"
    using inv by (auto simp: mixgraph_inv_def is_perm_def)
  have sz1: "1 \<le> ?sz" using m by simp
  have "1 * ?sz \<le> ?n * ?sz" using m sz1 by (intro mult_right_mono) auto
  moreover have cover: "?n * ?sz \<le> max ?n ?N" using regions_cover [of ?n ?N] m(1,3) by (simp only: m(5))
  ultimately have sz: "1 \<le> ?sz" "?sz < 2 ^ 63" using m(2,4) sz1 by linarith+
  have p: "0 \<le> p" "p < ?n" using region_at [OF inv drawn_rank_less [OF inv]] by (auto simp: p_def)
  define off where "off = region_offset (powerCdfInversion M m (Fin (unit_draw (advance r)))) p ?sz"
  have off: "0 \<le> off" "off < ?sz" using region_offset_range [OF sz] by (simp_all add: off_def)
  let ?b = "search_floats (mg_regionCDF m) (Fin (unit_draw r)) 0 (nat ?n)"
  have "?b \<le> nat ?n" using search_floats_range [of 0 "nat ?n"] by simp
  then have bucket: "(if ?n \<le> SearchFloat64s (mg_regionCDF m) (Fin (unit_draw r)) then i64 (?n - 1)
      else SearchFloat64s (mg_regionCDF m) (Fin (unit_draw r))) = int (drawn_rank m r)"
    using m by (auto simp: SearchFloat64s_def drawn_rank_def Let_def min_def i64_id in_i64_def)
  have idx: "go_index (mg_regionMap m) (int (drawn_rank m r)) = Ret p"
    using drawn_rank_less [OF inv, of r] m(1,6) by (auto simp: go_index_def p_def)
  have "p * ?sz + ?sz \<le> ?n * ?sz" using p sz mult_right_mono [of "p + 1" ?n ?sz] by (simp add: algebra_simps)
  then have top: "0 \<le> p * ?sz" "p * ?sz + ?sz < 2 ^ 63"
    using cover m(2,4) p sz by (simp, linarith)
  have i: "i64 (p * ?sz) = p * ?sz" "i64 (p * ?sz + off) = p * ?sz + off" "i64 (?N - 1) = ?N - 1"
    using top off m by (auto intro!: i64_id simp: in_i64_def)
  show ?thesis
    by (rule exI [of _ off])
      (use off i in \<open>simp add: MixGraph_Next_def rFloat64_eq Let_def bucket idx off_def [symmetric] min_def\<close>)
qed

text \<open>
  A wheel with two weights that add up to 1 stops for every draw below the largest one, provided it
  does for the second largest: the rounded difference is monotone in the draw.
\<close>

lemma two_way_stops:
  assumes "fl (a + b) = Fin 1" and "fl a = Fin a" and "fl b = Fin b" and "0 \<le> a" and "a \<le> 1"
    and "rnd (1 - 1 / 2 ^ 52 - a) < b" and "u \<le> 1 - 1 / 2 ^ 52" and "0 \<le> u"
  shows "\<exists>v\<in>{1, 2}. roulette (weight_sum [(Fin a, 1), (Fin b, 2)]) (Fin u) [(Fin a, 1), (Fin b, 2)] = Some v"
proof -
  have w: "weight_sum [(Fin a, 1), (Fin b, 2)] = Fin 1" using assms(1,2) by (simp add: weight_sum_def)
  have d: "rnd (u - a) < b" using assms(6,7) rnd_mono [of "u - a" "1 - 1 / 2 ^ 52 - a"] by simp
  show ?thesis
  proof (cases "u < a")
    case True
    then show ?thesis using assms(2) by (simp add: w)
  next
    case False
    moreover have "u \<le> 1" using assms(7) by (auto intro: order_trans)
    ultimately have "\<bar>u - a\<bar> \<le> 1" using assms(4,5,8) by auto
    then have "fsub (Fin u) (Fin a) = Fin (rnd (u - a))" by (simp add: fsub_def fl_unit)
    then show ?thesis using False assms(2,3) d by (simp add: w)
  qed
qed

lemma wheel_weights:
  "fl (3 / 10) = Fin (5404319552844595 / 2 ^ 54)" "fl (7 / 10) = Fin (6305039478318694 / 2 ^ 53)"
  "fl (5 / 10) = Fin (1 / 2)" "fl (9 / 10) = Fin (8106479329266893 / 2 ^ 53)" "fl (1 / 10) = Fin (7205759403792794 / 2 ^ 56)"
  using fl_eqI [of "3 / 10" 2 5404319552844595] fl_eqI [of "7 / 10" 1 6305039478318694] fl_eqI [of "1 / 2" 1 "2 ^ 52"]
    fl_eqI [of "9 / 10" 1 8106479329266893] fl_eqI [of "1 / 10" 4 7205759403792794]
  by simp_all

definition two_way :: "(float64 \<times> int) list \<Rightarrow> bool" where
  "two_way ps \<longleftrightarrow> (\<forall>u. 0 \<le> u \<longrightarrow> u \<le> 1 - 1 / 2 ^ 52 \<longrightarrow> (\<exists>v\<in>{1, 2}. roulette (weight_sum ps) (Fin u) ps = Some v))"

lemma wheel_hot: "two_way [(fl (3 / 10), 1), (fl (7 / 10), 2)]"
proof -
  let ?a = "5404319552844595 / 2 ^ 54 :: real" and ?b = "6305039478318694 / 2 ^ 53 :: real"
  have "fl (?a + ?b) = Fin 1" "fl ?a = Fin ?a" "fl ?b = Fin ?b"
    using fl_eqI [of "?a + ?b" 1 "2 ^ 53"] fl_eqI [of ?a 2 5404319552844595] fl_eqI [of ?b 1 6305039478318694] by simp_all
  moreover have "rnd (1 - 1 / 2 ^ 52 - ?a) < ?b"
    using rnd_eqI [of "1 - 1 / 2 ^ 52 - ?a" 1 6305039478318692] by simp
  ultimately show ?thesis unfolding two_way_def wheel_weights by (intro allI impI two_way_stops) simp_all
qed

lemma wheel_hot_leftover:
  "roulette (weight_sum [(fl (3 / 10), 1), (fl (7 / 10), 2)]) (Fin (1 - 1 / 2 ^ 53)) [(fl (3 / 10), 1), (fl (7 / 10), 2)] = None"
proof -
  let ?a = "5404319552844595 / 2 ^ 54 :: real" and ?b = "6305039478318694 / 2 ^ 53 :: real"
  have "fl (?a + ?b) = Fin 1" "fl ?a = Fin ?a" "fl ?b = Fin ?b"
    using fl_eqI [of "?a + ?b" 1 "2 ^ 53"] fl_eqI [of ?a 2 5404319552844595] fl_eqI [of ?b 1 6305039478318694] by simp_all
  moreover have "fl (1 - 1 / 2 ^ 53 - ?a) = Fin ?b"
    using fl_eqI [of "1 - 1 / 2 ^ 53 - ?a" 1 6305039478318694] by simp
  ultimately show ?thesis unfolding wheel_weights by (simp add: weight_sum_def fsub_def)
qed

lemma rank0_chooser:
  assumes "1 \<le> n" and "n \<le> 2 ^ 53"
  shows "discrete_values (region_chooser n 0) = [(fl (3 / 10), 1), (fl (7 / 10), 2)]"
proof -
  have "of_int64 n = Fin (of_int n)" "of_int64 0 = Fin 0" using assms of_int64_Fin [of n] of_int64_Fin [of 0] by auto
  then have "fle (fdiv (of_int64 (int 0)) (of_int64 n)) (fl (10 / 100))"
    using assms wheel_weights(5) by (simp add: fl_unit fle_def)
  then show ?thesis by (simp add: region_chooser_def Let_def Discrete_Add_def NewDiscrete_def)
qed

lemma wheel_mild: "two_way [(fl (5 / 10), 1), (fl (5 / 10), 2)]"
proof -
  have "fl (1 / 2 + 1 / 2) = Fin 1" "fl (1 / 2) = Fin (1 / 2)"
    using fl_unit [of 1] fl_eqI [of "1 / 2" 1 "2 ^ 52"] by simp_all
  moreover have "rnd (1 - 1 / 2 ^ 52 - 1 / 2 :: real) < 1 / 2"
    using rnd_eqI [of "1 - 1 / 2 ^ 52 - 1 / 2" 2 "2 ^ 53 - 4"] by simp
  ultimately show ?thesis unfolding two_way_def wheel_weights by (intro allI impI two_way_stops) simp_all
qed

lemma wheel_cold: "two_way [(fl (9 / 10), 1), (fl (1 / 10), 2)]"
proof -
  let ?a = "8106479329266893 / 2 ^ 53 :: real" and ?b = "7205759403792794 / 2 ^ 56 :: real"
  have "fl (?a + ?b) = Fin 1" "fl ?a = Fin ?a" "fl ?b = Fin ?b"
    using fl_eqI [of "?a + ?b" 0 "2 ^ 52"] fl_eqI [of ?a 1 8106479329266893] fl_eqI [of ?b 4 7205759403792794] by simp_all
  moreover have "rnd (1 - 1 / 2 ^ 52 - ?a) < ?b"
    using rnd_eqI [of "1 - 1 / 2 ^ 52 - ?a" 4 7205759403792776] by simp
  ultimately show ?thesis unfolding two_way_def wheel_weights by (intro allI impI two_way_stops) simp_all
qed

lemma region_chooser_two_way: "two_way (discrete_values (region_chooser n i))"
  using wheel_hot wheel_mild wheel_cold
  by (simp add: region_chooser_def Let_def Discrete_Add_def NewDiscrete_def del: fl_def)

lemma unit_draw_below: "unit_draw r < 1 - 1 / 2 ^ 53 \<Longrightarrow> unit_draw r \<le> 1 - 1 / 2 ^ 52"
proof -
  assume "unit_draw r < 1 - 1 / 2 ^ 53"
  then have "real_of_int (int (r 0) mod 2 ^ 53) < real_of_int (2 ^ 53 - 1)" by (simp add: unit_draw_def divide_simps)
  then have "int (r 0) mod 2 ^ 53 \<le> 2 ^ 53 - 2" by linarith
  then have "real_of_int (int (r 0) mod 2 ^ 53) \<le> real_of_int (2 ^ 53 - 2)" by (simp only: of_int_le_iff)
  then show ?thesis by (simp add: unit_draw_def divide_simps)
qed

text \<open>The operation for a key is chosen by the wheel of the rank whose region holds the key.\<close>

lemma ChooseOperation_rank:
  assumes inv: "mixgraph_inv m" and k: "0 \<le> k" "k div mg_regionSize m = mg_regionMap m ! i" and i: "i < nat (mg_numRegions m)"
  shows "\<exists>d. discrete_values d = discrete_values (region_chooser (mg_numRegions m) i)
    \<and> ChooseOperationForKey m k r = gbind (Discrete_Next d r) (\<lambda>(op, d', r').
        Ret (op, m\<lparr>mg_regionChoosers := (mg_regionChoosers m)[nat (mg_regionMap m ! i) := Some d']\<rparr>, r'))"
proof -
  obtain d where d: "mg_regionChoosers m ! nat (mg_regionMap m ! i) = Some d"
      "discrete_values d = discrete_values (region_chooser (mg_numRegions m) i)"
    using inv i by (auto simp: mixgraph_inv_def)
  have sz: "0 < mg_regionSize m" using inv by (simp add: mixgraph_inv_def)
  have p: "go_div k (mg_regionSize m) = mg_regionMap m ! i" using k sz by (simp add: go_div_nonneg)
  have "go_index (mg_regionChoosers m) (mg_regionMap m ! i) = Ret (Some d)"
    using region_at [OF inv i] inv d(1) by (simp add: go_index_def mixgraph_inv_def)
  then show ?thesis using d(2) sz region_at [OF inv i] by (auto simp: ChooseOperationForKey_def Let_def p)
qed

section \<open>Properties\<close>

text \<open>
  C24. The two-step draw of \<open>PrefixMixGraphGenerator\<close>: for any numbers of keys and regions, any weights and any random
  source, \<open>Next\<close> returns a key between 0 and \<open>numKeys - 1\<close> and \<open>Last\<close> reports it. When there are at least as many
  keys as regions, the key lies in the region that the shuffle assigned to the drawn hotness rank,
  and \<open>ChooseOperationForKey\<close> uses for it the operation mix of that same rank.
\<close>

theorem mixgraph_key_and_operation:
  assumes "1 \<le> numKeys" and "numKeys < 2 ^ 63" and "numRegions < 2 ^ 63"
    and "NewPrefixMixGraphGenerator M src numKeys numRegions a b c d ka kb = Ret m"
  shows "\<exists>k m'. MixGraph_Next M m r = Ret (k, m', advance (advance r)) \<and> 0 \<le> k \<and> k < numKeys \<and> MixGraph_Last m' = k
    \<and> (mg_numRegions m \<le> numKeys \<longrightarrow>
        k div mg_regionSize m = mg_regionMap m ! drawn_rank m r
        \<and> (\<exists>w. discrete_values w = discrete_values (region_chooser (mg_numRegions m) (drawn_rank m r))
             \<and> ChooseOperationForKey m' k r2 = gbind (Discrete_Next w r2) (\<lambda>(op, w', r3).
                 Ret (op, m'\<lparr>mg_regionChoosers := (mg_regionChoosers m)[nat (mg_regionMap m ! drawn_rank m r) := Some w']\<rparr>, r3))))"
proof -
  let ?i = "drawn_rank m r" let ?p = "mg_regionMap m ! drawn_rank m r" and ?sz = "mg_regionSize m"
  have m: "mixgraph_inv m" "mg_numKeys m = numKeys" 
    using NewMixGraph_inv [OF assms(1-3), of M src a b c d ka kb] assms(4) by auto
  note i = drawn_rank_less [OF m(1), of r] and p = region_at [OF m(1) drawn_rank_less [OF m(1)], of r]
  have sz: "1 \<le> ?sz" "?sz = max 1 (numKeys div mg_numRegions m)" using m by (auto simp: mixgraph_inv_def)
  obtain off where off: "0 \<le> off" "off < ?sz" and nxt: "MixGraph_Next M m r =
      (let k = min (?p * ?sz + off) (numKeys - 1) in Ret (k, m\<lparr>mg_lastVal := k\<rparr>, advance (advance r)))"
    using MixGraph_Next_eq [OF m(1) refl, where r = r and M = M] m(2) by auto
  define k where "k = min (?p * ?sz + off) (numKeys - 1)"
  have kr: "0 \<le> k" "k < numKeys" using p sz off assms(1) by (auto simp: k_def)
  have "MixGraph_Next M m r = Ret (k, m\<lparr>mg_lastVal := k\<rparr>, advance (advance r))" by (simp add: nxt k_def Let_def)
  moreover have inv': "mixgraph_inv (m\<lparr>mg_lastVal := k\<rparr>)" using m(1) by (simp add: mixgraph_inv_def)
  moreover have "k div ?sz = ?p" if "mg_numRegions m \<le> numKeys"
  proof -
    have "(?p + 1) * ?sz \<le> mg_numRegions m * ?sz" using p sz by (intro mult_right_mono) auto
    also have "\<dots> \<le> numKeys"
      using regions_cover [of "mg_numRegions m" numKeys] that assms(1) p unfolding sz(2) by simp
    finally have "k = off + ?p * ?sz" using off by (simp add: k_def algebra_simps)
    then show ?thesis using off sz by simp
  qed
  ultimately show ?thesis
    using kr ChooseOperation_rank [OF inv', of k ?i r2] i by (auto simp: MixGraph_Last_def)
qed

theorem mixgraph_key_and_operation_witness:
  "\<exists>m k m'. NewPrefixMixGraphGenerator real_math (\<lambda>seed i. nat seed + i) 10 4 (Fin 1) (Fin 0) (Fin 0) (Fin 0) (Fin 1) (Fin 1) = Ret m
     \<and> MixGraph_Next real_math m (\<lambda>i. i) = Ret (k, m', advance (advance (\<lambda>i. i))) \<and> 0 \<le> k \<and> k < 10"
proof -
  obtain m where m: "NewPrefixMixGraphGenerator real_math (\<lambda>seed i. nat seed + i) 10 4 (Fin 1) (Fin 0) (Fin 0) (Fin 0) (Fin 1) (Fin 1) = Ret m"
    using NewMixGraph_inv [of 10 4 real_math "\<lambda>seed i. nat seed + i" "Fin 1" "Fin 0" "Fin 0" "Fin 0" "Fin 1" "Fin 1"] by auto
  with mixgraph_key_and_operation [of 10 4, OF _ _ _ m, of "\<lambda>i. i" "\<lambda>i. i"] show ?thesis by simp blast
qed

text \<open>
  \<open>ChooseOperationForKey\<close> returns read (1) or update (2), and nothing else, for every key of the key space and
  every random fraction but the largest one.
\<close>

theorem mixgraph_operation_total:
  assumes "mixgraph_inv m" and "0 \<le> k" and "k < mg_regionSize m * mg_numRegions m" and "unit_draw r < 1 - 1 / 2 ^ 53"
  shows "\<exists>op m' r'. ChooseOperationForKey m k r = Ret (op, m', r') \<and> op \<in> {1, 2}"
proof -
  have sz: "0 < mg_regionSize m" using assms(1) by (simp add: mixgraph_inv_def)
  have "k div mg_regionSize m < mg_numRegions m"
  proof (rule ccontr)
    assume "\<not> k div mg_regionSize m < mg_numRegions m"
    then have "mg_regionSize m * mg_numRegions m \<le> mg_regionSize m * (k div mg_regionSize m)"
      using sz by (intro mult_left_mono) auto
    then show False using assms(3) mult_div_mod_eq [of "mg_regionSize m" k] pos_mod_sign [OF sz, of k] by linarith
  qed
  moreover have "0 \<le> k div mg_regionSize m" using assms(2) sz by (simp add: pos_imp_zdiv_nonneg_iff)
  ultimately obtain i where i: "i < nat (mg_numRegions m)" "k div mg_regionSize m = mg_regionMap m ! i"
    using region_rank [OF assms(1)] by metis
  obtain d where d: "discrete_values d = discrete_values (region_chooser (mg_numRegions m) i)"
    and c: "ChooseOperationForKey m k r = gbind (Discrete_Next d r) (\<lambda>(op, d', r').
        Ret (op, m\<lparr>mg_regionChoosers := (mg_regionChoosers m)[nat (mg_regionMap m ! i) := Some d']\<rparr>, r'))"
    using ChooseOperation_rank [OF assms(1,2) i(2,1)] by blast
  have "\<exists>v\<in>{1, 2}. roulette (weight_sum (discrete_values d)) (Fin (unit_draw r)) (discrete_values d) = Some v"
    using region_chooser_two_way [of "mg_numRegions m" i] unit_draw_below [OF assms(4)] unit_draw_range [of r]
    unfolding d two_way_def by blast
  then show ?thesis by (auto simp: c Discrete_Next_def rFloat64_eq Let_def)
qed

theorem mixgraph_operation_total_witness:
  "\<exists>m op m' r'. NewPrefixMixGraphGenerator real_math (\<lambda>seed i. nat seed + i) 10 4 (Fin 1) (Fin 0) (Fin 0) (Fin 0) (Fin 1) (Fin 1) = Ret m
     \<and> ChooseOperationForKey m 3 (\<lambda>i. i) = Ret (op, m', r') \<and> op \<in> {1, 2}"
proof -
  obtain m where m: "NewPrefixMixGraphGenerator real_math (\<lambda>seed i. nat seed + i) 10 4 (Fin 1) (Fin 0) (Fin 0) (Fin 0) (Fin 1) (Fin 1) = Ret m"
      "mixgraph_inv m" "mg_numKeys m = 10" "mg_numRegions m = 4"
    using NewMixGraph_inv [of 10 4 real_math "\<lambda>seed i. nat seed + i" "Fin 1" "Fin 0" "Fin 0" "Fin 0" "Fin 1" "Fin 1"]
    by (auto simp: regions_of_def)
  moreover have "mg_regionSize m = 2" using m(2-4) by (simp add: mixgraph_inv_def)
  ultimately show ?thesis
    using mixgraph_operation_total [OF m(2), of 3 "\<lambda>i. i"] by (auto simp: unit_draw_def)
qed

text \<open>
  The largest random fraction makes the wheel of the hottest region panic: \<open>1 - 2 ^ -53 - 0.3\<close> rounds to 0.7,
  which is not below the second weight.
\<close>

theorem mixgraph_hot_region_panics:
  assumes "mixgraph_inv m" and "mg_numRegions m \<le> 2 ^ 53"
  shows "ChooseOperationForKey m (mg_regionMap m ! 0 * mg_regionSize m) (\<lambda>_. 2 ^ 53 - 1)
    = Panic ''oops, should not get here.''"
proof -
  define r0 :: rand where "r0 = (\<lambda>_. 2 ^ 53 - 1)"
  have u: "unit_draw r0 = 1 - 1 / 2 ^ 53" by (simp add: unit_draw_def r0_def)
  have n: "1 \<le> mg_numRegions m" and sz: "1 \<le> mg_regionSize m"
    using assms(1) by (auto simp: mixgraph_inv_def is_perm_def)
  have i: "0 < nat (mg_numRegions m)" using n by simp
  have k: "0 \<le> mg_regionMap m ! 0 * mg_regionSize m" "mg_regionMap m ! 0 * mg_regionSize m div mg_regionSize m = mg_regionMap m ! 0"
    using region_at [OF assms(1) i] sz by simp_all
  obtain d where d: "discrete_values d = discrete_values (region_chooser (mg_numRegions m) 0)"
    and c: "ChooseOperationForKey m (mg_regionMap m ! 0 * mg_regionSize m) r0 = gbind (Discrete_Next d r0) (\<lambda>(op, d', r').
        Ret (op, m\<lparr>mg_regionChoosers := (mg_regionChoosers m)[nat (mg_regionMap m ! 0) := Some d']\<rparr>, r'))"
    using ChooseOperation_rank [OF assms(1) k i] by blast
  have "Discrete_Next d r0 = Panic ''oops, should not get here.''"
    unfolding Discrete_Next_def rFloat64_eq u d rank0_chooser [OF n assms(2)] by (simp only: Let_def prod.case wheel_hot_leftover option.case)
  then show ?thesis by (simp only: c [unfolded r0_def] r0_def gbind.simps)
qed

theorem mixgraph_hot_region_panics_witness:
  "\<exists>m k. NewPrefixMixGraphGenerator real_math (\<lambda>seed i. nat seed + i) 10 4 (Fin 1) (Fin 0) (Fin 0) (Fin 0) (Fin 1) (Fin 1) = Ret m
     \<and> ChooseOperationForKey m k (\<lambda>_. 2 ^ 53 - 1) = Panic ''oops, should not get here.''"
proof -
  obtain m where m: "NewPrefixMixGraphGenerator real_math (\<lambda>seed i. nat seed + i) 10 4 (Fin 1) (Fin 0) (Fin 0) (Fin 0) (Fin 1) (Fin 1) = Ret m"
      "mixgraph_inv m" "mg_numRegions m = 4"
    using NewMixGraph_inv [of 10 4 real_math "\<lambda>seed i. nat seed + i" "Fin 1" "Fin 0" "Fin 0" "Fin 0" "Fin 1" "Fin 1"]
    by (auto simp: regions_of_def)
  with mixgraph_hot_region_panics [OF m(2)] show ?thesis by (intro exI conjI) (assumption, simp)
qed

end
