(* ===== verification/KVSpec.thy ===== *)
theory KVSpec
  imports GoPrelude
begin

text \<open>
  The interface of a key-value map as its clients see it, shared by the stores of the development:
  a lookup, an update and a deletion with the laws that relate them, and the facts about sequences
  of updates that clients use. The sharded map of \<^verbatim>\<open>pkg/util/concurrent_map.go\<close> and the stores under
  the database adapters are instances.
\<close>

locale kv_map =
  fixes get :: "'m \<Rightarrow> 'k \<Rightarrow> 'v option"
    and upd :: "'m \<Rightarrow> 'k \<Rightarrow> 'v \<Rightarrow> 'm"
    and del :: "'m \<Rightarrow> 'k \<Rightarrow> 'm"
    and inv :: "'m \<Rightarrow> bool"
  assumes get_upd: "inv m \<Longrightarrow> get (upd m k v) = (get m)(k \<mapsto> v)"
    and get_del: "inv m \<Longrightarrow> get (del m k) = (get m)(k := None)"
    and inv_upd: "inv m \<Longrightarrow> inv (upd m k v)"
    and inv_del: "inv m \<Longrightarrow> inv (del m k)"
begin

text \<open>Updating with every pair of a list, as a batch does: later pairs win.\<close>

lemma upd_all:
  "inv m \<Longrightarrow> inv (foldl (\<lambda>m kv. upd m (fst kv) (snd kv)) m kvs)
     \<and> get (foldl (\<lambda>m kv. upd m (fst kv) (snd kv)) m kvs) = get m ++ map_of (rev kvs)"
proof (induction kvs arbitrary: m)
  case (Cons kv kvs)
  let ?m = "upd m (fst kv) (snd kv)"
  have "get ?m ++ map_of (rev kvs) = get m ++ map_of (rev (kv # kvs))"
    by (cases kv) (auto simp: get_upd [OF Cons.prems] fun_eq_iff map_add_def split: option.splits)
  with Cons.IH [OF inv_upd [OF Cons.prems]] show ?case by simp
qed simp

lemma del_all:
  "inv m \<Longrightarrow> inv (foldl del m ks) \<and> get (foldl del m ks) = (\<lambda>k. if k \<in> set ks then None else get m k)"
  by (induction ks arbitrary: m) (auto simp: get_del inv_del fun_eq_iff)

end

text \<open>Association lists with distinct keys are the first instance.\<close>

interpretation alist_kv: kv_map map_of "\<lambda>m k v. AList.update k v m" "\<lambda>m k. AList.delete k m" "\<lambda>m. distinct (map fst m)"
  by unfold_locales (auto simp: update_conv delete_conv distinct_update distinct_delete)

end
