(* ===== verification/ConcMap.thy ===== *)
theory ConcMap
  imports KVSpec
begin

text \<open>
  \<open>ConcurrentMap\<close> of \<^verbatim>\<open>pkg/util/concurrent_map.go\<close>: a map from \<open>int\<close> to \<open>int64\<close> that is split into shards by a hash
  of the key. Every operation on a key holds the lock of its shard from the first access to the last,
  so concurrent single-key operations take effect one after the other, and the model has them as
  atomic steps on the shard. A shard is an association list in iteration order. The development shows
  that the sharded map behaves as one map, for every sequence of operations.
\<close>

section \<open>State and operations\<close>

record cmap =
  cm_shards :: "(int \<times> int) list list"
  cm_shardCount :: int

definition CMap_New :: "int \<Rightarrow> cmap go" where
  "CMap_New shardCount =
     (if shardCount < 0 then Panic ''makeslice: len out of range''
      else Ret \<lparr>cm_shards = replicate (nat shardCount) [], cm_shardCount = shardCount\<rparr>)"

definition fnv32 :: "cmap \<Rightarrow> int \<Rightarrow> 32 word go" where
  "fnv32 m key =
     (let key = i64 (i64 (key + 0x7ed55d16) + i64 (push_bit 12 key));
          key = (key XOR 0xc761c23c) XOR drop_bit 19 key;
          key = i64 (i64 (key + 0x165667b1) + i64 (push_bit 5 key));
          key = i64 (key + 0xd3a2646c) XOR i64 (push_bit 9 key);
          key = i64 (i64 (key + 0xfd7046c5) + i64 (push_bit 3 key));
          key = (key XOR 0xb55a4f09) XOR drop_bit 16 key
      in if cm_shardCount m = 0 then Panic ''integer divide by zero''
         else Ret (word_of_int (go_mod key (cm_shardCount m))))"

text \<open>The index of \<open>GetShard\<close>; the shard itself is read and written through it.\<close>

definition GetShard :: "cmap \<Rightarrow> int \<Rightarrow> nat go" where
  "GetShard m key =
     gbind (fnv32 m key) (\<lambda>h.
       let i = (ucast h :: u64) mod word_of_int (cm_shardCount m) in
       if unat i < length (cm_shards m) then Ret (unat i) else Panic ''index out of range'')"

definition put_shard :: "cmap \<Rightarrow> nat \<Rightarrow> (int \<times> int) list \<Rightarrow> cmap" where
  "put_shard m i items = m\<lparr>cm_shards := (cm_shards m)[i := items]\<rparr>"

text \<open>Reading a Go map: the value or 0, and whether the key is present.\<close>

definition item :: "(int \<times> int) list \<Rightarrow> int \<Rightarrow> int \<times> bool" where
  "item items key = (case map_of items key of Some v \<Rightarrow> (v, True) | None \<Rightarrow> (0, False))"

definition CMap_Set :: "cmap \<Rightarrow> int \<Rightarrow> int \<Rightarrow> cmap go" where
  "CMap_Set m key value =
     gbind (GetShard m key) (\<lambda>i. Ret (put_shard m i (AList.update key value (cm_shards m ! i))))"

fun CMap_MSet :: "cmap \<Rightarrow> (int \<times> int) list \<Rightarrow> cmap go" where
  "CMap_MSet m [] = Ret m"
| "CMap_MSet m ((key, value) # data) = gbind (CMap_Set m key value) (\<lambda>m'. CMap_MSet m' data)"

definition CMap_Upsert :: "cmap \<Rightarrow> int \<Rightarrow> int \<Rightarrow> (bool \<Rightarrow> int \<Rightarrow> int \<Rightarrow> int) \<Rightarrow> (int \<times> cmap) go" where
  "CMap_Upsert m key value cb =
     gbind (GetShard m key) (\<lambda>i.
       let (v, ok) = item (cm_shards m ! i) key; res = cb ok v value
       in Ret (res, put_shard m i (AList.update key res (cm_shards m ! i))))"

definition CMap_SetIfAbsent :: "cmap \<Rightarrow> int \<Rightarrow> int \<Rightarrow> (bool \<times> cmap) go" where
  "CMap_SetIfAbsent m key value =
     gbind (GetShard m key) (\<lambda>i.
       let (_, ok) = item (cm_shards m ! i) key
       in Ret (\<not> ok, if ok then m else put_shard m i (AList.update key value (cm_shards m ! i))))"

definition CMap_Get :: "cmap \<Rightarrow> int \<Rightarrow> (int \<times> bool) go" where
  "CMap_Get m key = gbind (GetShard m key) (\<lambda>i. Ret (item (cm_shards m ! i) key))"

definition CMap_Count :: "cmap \<Rightarrow> int go" where
  "CMap_Count m =
     (if cm_shardCount m \<le> int (length (cm_shards m))
      then Ret (\<Sum>i<nat (cm_shardCount m). int (length (cm_shards m ! i)))
      else Panic ''index out of range'')"

definition CMap_Has :: "cmap \<Rightarrow> int \<Rightarrow> bool go" where
  "CMap_Has m key = gbind (GetShard m key) (\<lambda>i. Ret (snd (item (cm_shards m ! i) key)))"

definition CMap_Remove :: "cmap \<Rightarrow> int \<Rightarrow> cmap go" where
  "CMap_Remove m key =
     gbind (GetShard m key) (\<lambda>i. Ret (put_shard m i (AList.delete key (cm_shards m ! i))))"

definition CMap_RemoveCb :: "cmap \<Rightarrow> int \<Rightarrow> (int \<Rightarrow> int \<Rightarrow> bool \<Rightarrow> bool) \<Rightarrow> (bool \<times> cmap) go" where
  "CMap_RemoveCb m key cb =
     gbind (GetShard m key) (\<lambda>i.
       let (v, ok) = item (cm_shards m ! i) key; remove = cb key v ok
       in Ret (remove, if remove \<and> ok then put_shard m i (AList.delete key (cm_shards m ! i)) else m))"

definition CMap_Pop :: "cmap \<Rightarrow> int \<Rightarrow> ((int \<times> bool) \<times> cmap) go" where
  "CMap_Pop m key =
     gbind (GetShard m key) (\<lambda>i.
       Ret (item (cm_shards m ! i) key, put_shard m i (AList.delete key (cm_shards m ! i))))"

definition CMap_IsEmpty :: "cmap \<Rightarrow> bool go" where
  "CMap_IsEmpty m = gbind (CMap_Count m) (\<lambda>c. Ret (c = 0))"

text \<open>
  Iteration: \<open>snapshot\<close> takes the items of each shard, and \<open>fanIn\<close> merges them in whatever order the
  goroutines run. The set of possible merges models the scheduling.
\<close>

definition snapshot :: "cmap \<Rightarrow> (int \<times> int) list list" where
  "snapshot m = cm_shards m"

fun fanIn :: "(int \<times> int) list list \<Rightarrow> (int \<times> int) list set" where
  "fanIn [] = {[]}"
| "fanIn (ch # chans) = (\<Union>out\<in>fanIn chans. shuffles ch out)"

definition IterBuffered :: "cmap \<Rightarrow> (int \<times> int) list set" where
  "IterBuffered m = fanIn (snapshot m)"

definition CMap_Items :: "(int \<times> int) list \<Rightarrow> (int \<times> int) list" where
  "CMap_Items stream = foldl (\<lambda>tmp kv. AList.update (fst kv) (snd kv) tmp) [] stream"

definition CMap_IterCb :: "cmap \<Rightarrow> ('s \<Rightarrow> int \<Rightarrow> int \<Rightarrow> 's) \<Rightarrow> 's \<Rightarrow> 's" where
  "CMap_IterCb m fn s = foldl (\<lambda>s kv. fn s (fst kv) (snd kv)) s (concat (cm_shards m))"

definition CMap_Keys :: "(int \<times> int) list \<Rightarrow> int list" where
  "CMap_Keys stream = map fst stream"

section \<open>Shards\<close>

definition shard_of :: "int \<Rightarrow> int \<Rightarrow> nat" where
  "shard_of n key = (case GetShard \<lparr>cm_shards = replicate (nat n) [], cm_shardCount = n\<rparr> key of Ret i \<Rightarrow> i | _ \<Rightarrow> 0)"

definition cmap_ok :: "cmap \<Rightarrow> bool" where
  "cmap_ok m \<longleftrightarrow> 0 < cm_shardCount m \<and> cm_shardCount m < 2 ^ 63
     \<and> length (cm_shards m) = nat (cm_shardCount m)
     \<and> (\<forall>i<length (cm_shards m). distinct (map fst (cm_shards m ! i))
          \<and> (\<forall>k\<in>fst ` set (cm_shards m ! i). shard_of (cm_shardCount m) k = i))"

lemma shard_index_less:
  assumes "0 < n" and "n < 2 ^ 63"
  shows "unat ((ucast (h :: 32 word) :: u64) mod word_of_int n) < nat n"
proof -
  have "uint (word_of_int n :: u64) = n" using assms by (simp add: uint_word_of_int_eq take_bit_int_eq_self)
  then have "uint ((ucast h :: u64) mod word_of_int n) = uint (ucast h :: u64) mod n" by (simp add: uint_mod_distrib)
  also have "\<dots> < n" using assms by simp
  finally have "nat (uint ((ucast h :: u64) mod word_of_int n)) < nat n" using assms(1) by (simp only: nat_less_eq_zless uint_ge_0)
  then show ?thesis by (simp only: nat_uint_eq)
qed

lemma fnv32_shards: "fnv32 m k = fnv32 m' k" if "cm_shardCount m = cm_shardCount m'"
  unfolding fnv32_def that ..

lemma GetShard_eq:
  assumes "0 < cm_shardCount m" and "cm_shardCount m < 2 ^ 63" and "length (cm_shards m) = nat (cm_shardCount m)"
  shows "GetShard m k = Ret (shard_of (cm_shardCount m) k) \<and> shard_of (cm_shardCount m) k < nat (cm_shardCount m)"
proof -
  let ?n = "cm_shardCount m" let ?m = "\<lparr>cm_shards = replicate (nat ?n) [], cm_shardCount = ?n\<rparr>"
  have f: "fnv32 m k = fnv32 ?m k" by (rule fnv32_shards) simp
  obtain h where h: "fnv32 ?m k = Ret h" using assms(1) by (simp add: fnv32_def Let_def)
  show ?thesis using shard_index_less [OF assms(1,2), of h] assms(3) by (simp add: GetShard_def shard_of_def f h)
qed

lemma cmap_ok_GetShard:
  "cmap_ok m \<Longrightarrow> GetShard m k = Ret (shard_of (cm_shardCount m) k) \<and> shard_of (cm_shardCount m) k < length (cm_shards m)"
  using GetShard_eq [of m k] by (simp add: cmap_ok_def)

lemma CMap_New_ok: "0 < n \<Longrightarrow> n < 2 ^ 63 \<Longrightarrow> \<exists>m. CMap_New n = Ret m \<and> cmap_ok m"
  by (simp add: CMap_New_def cmap_ok_def)

section \<open>Abstraction\<close>

definition cmap_get :: "cmap \<Rightarrow> int \<Rightarrow> int option" where
  "cmap_get m k = map_of (cm_shards m ! shard_of (cm_shardCount m) k) k"

definition cmap_upd :: "cmap \<Rightarrow> int \<Rightarrow> int \<Rightarrow> cmap" where
  "cmap_upd m k v = (let i = shard_of (cm_shardCount m) k in put_shard m i (AList.update k v (cm_shards m ! i)))"

definition cmap_del :: "cmap \<Rightarrow> int \<Rightarrow> cmap" where
  "cmap_del m k = (let i = shard_of (cm_shardCount m) k in put_shard m i (AList.delete k (cm_shards m ! i)))"

lemma put_shard_ok:
  assumes "cmap_ok m" and "distinct (map fst items)" and "\<forall>k\<in>fst ` set items. shard_of (cm_shardCount m) k = i"
  shows "cmap_ok (put_shard m i items)"
proof -
  have "distinct (map fst ((cm_shards m)[i := items] ! j))
      \<and> (\<forall>k\<in>fst ` set ((cm_shards m)[i := items] ! j). shard_of (cm_shardCount m) k = j)"
    if "j < length (cm_shards m)" for j
    using assms that unfolding cmap_ok_def by (cases "i = j") simp_all
  with assms(1) show ?thesis by (simp add: cmap_ok_def put_shard_def)
qed

lemma put_shard_get:
  assumes "cmap_ok m" and "i = shard_of (cm_shardCount m) k" and "\<And>j. j \<noteq> k \<Longrightarrow> map_of items j = map_of (cm_shards m ! i) j"
  shows "cmap_get (put_shard m i items) = (cmap_get m)(k := map_of items k)"
  using assms cmap_ok_GetShard [OF assms(1), of k]
  by (auto simp: fun_eq_iff cmap_get_def put_shard_def nth_list_update)

interpretation cmap: kv_map cmap_get cmap_upd cmap_del cmap_ok
proof
  fix m k v
  assume ok: "cmap_ok m"
  let ?i = "shard_of (cm_shardCount m) k"
  have s: "distinct (map fst (cm_shards m ! ?i))" "\<forall>j\<in>fst ` set (cm_shards m ! ?i). shard_of (cm_shardCount m) j = ?i"
    using ok cmap_ok_GetShard [OF ok, of k] by (auto simp: cmap_ok_def)
  show "cmap_get (cmap_upd m k v) = (cmap_get m)(k \<mapsto> v)"
    unfolding cmap_upd_def Let_def by (subst put_shard_get [OF ok refl]) (simp_all add: update_conv')
  show "cmap_get (cmap_del m k) = (cmap_get m)(k := None)"
    unfolding cmap_del_def Let_def by (subst put_shard_get [OF ok refl]) (simp_all add: delete_conv')
  show "cmap_ok (cmap_upd m k v)"
    unfolding cmap_upd_def Let_def using s by (intro put_shard_ok [OF ok] distinct_update) (simp_all only: dom_update, blast)
  show "cmap_ok (cmap_del m k)"
    unfolding cmap_del_def Let_def
  proof (rule put_shard_ok [OF ok])
    show "distinct (map fst (AList.delete k (cm_shards m ! ?i)))" using s(1) by (rule distinct_delete)
    show "\<forall>j\<in>fst ` set (AList.delete k (cm_shards m ! ?i)). shard_of (cm_shardCount m) j = ?i"
      using s(2) dom_delete_subset [of k "cm_shards m ! ?i"] by blast
  qed
qed

section \<open>Operations on the abstract map\<close>

definition zlookup :: "(int \<rightharpoonup> int) \<Rightarrow> int \<Rightarrow> int \<times> bool" where
  "zlookup f k = (case f k of Some v \<Rightarrow> (v, True) | None \<Rightarrow> (0, False))"

lemma item_at: "item (cm_shards m ! shard_of (cm_shardCount m) k) k = zlookup (cmap_get m) k"
  by (simp add: item_def zlookup_def cmap_get_def)

text \<open>Every operation of the code is an operation of the interface on the shard of its key.\<close>

lemma CMap_ops:
  assumes "cmap_ok m"
  shows "CMap_Set m k v = Ret (cmap_upd m k v)"
    and "CMap_Upsert m k v cb = (let (old, ok) = zlookup (cmap_get m) k; res = cb ok old v in Ret (res, cmap_upd m k res))"
    and "CMap_SetIfAbsent m k v = (if cmap_get m k = None then Ret (True, cmap_upd m k v) else Ret (False, m))"
    and "CMap_Get m k = Ret (zlookup (cmap_get m) k)"
    and "CMap_Has m k = Ret (cmap_get m k \<noteq> None)"
    and "CMap_Remove m k = Ret (cmap_del m k)"
    and "CMap_RemoveCb m k rcb = (let (old, ok) = zlookup (cmap_get m) k; b = rcb k old ok
           in Ret (b, if b \<and> ok then cmap_del m k else m))"
    and "CMap_Pop m k = Ret (zlookup (cmap_get m) k, cmap_del m k)"
  using cmap_ok_GetShard [OF assms, of k]
  by (simp_all add: CMap_Set_def CMap_Upsert_def CMap_SetIfAbsent_def CMap_Get_def CMap_Has_def CMap_Remove_def
      CMap_RemoveCb_def CMap_Pop_def item_at cmap_upd_def cmap_del_def Let_def zlookup_def split: option.splits)

lemma CMap_MSet_eq:
  "cmap_ok m \<Longrightarrow> CMap_MSet m kvs = Ret (foldl (\<lambda>m kv. cmap_upd m (fst kv) (snd kv)) m kvs)"
  by (induction kvs arbitrary: m) (auto simp: CMap_ops cmap.inv_upd)

lemma shard_keys:
  "cmap_ok m \<Longrightarrow> i < length (cm_shards m) \<Longrightarrow> k \<in> fst ` set (cm_shards m ! i) \<Longrightarrow> shard_of (cm_shardCount m) k = i"
  unfolding cmap_ok_def by blast

lemma shards_dom:
  assumes "cmap_ok m"
  shows "dom (cmap_get m) = (\<Union>i<length (cm_shards m). fst ` set (cm_shards m ! i))"
proof
  show "dom (cmap_get m) \<subseteq> (\<Union>i<length (cm_shards m). fst ` set (cm_shards m ! i))"
  proof
    fix k assume "k \<in> dom (cmap_get m)"
    then have "k \<in> fst ` set (cm_shards m ! shard_of (cm_shardCount m) k)"
      by (simp add: cmap_get_def domIff map_of_eq_None_iff)
    with cmap_ok_GetShard [OF assms, of k] show "k \<in> (\<Union>i<length (cm_shards m). fst ` set (cm_shards m ! i))" by blast
  qed
  show "(\<Union>i<length (cm_shards m). fst ` set (cm_shards m ! i)) \<subseteq> dom (cmap_get m)"
  proof
    fix k assume "k \<in> (\<Union>i<length (cm_shards m). fst ` set (cm_shards m ! i))"
    then obtain i where i: "i < length (cm_shards m)" "k \<in> fst ` set (cm_shards m ! i)" by blast
    then have "shard_of (cm_shardCount m) k = i" by (rule shard_keys [OF assms])
    with i(2) show "k \<in> dom (cmap_get m)" by (simp add: cmap_get_def domIff map_of_eq_None_iff)
  qed
qed

lemma CMap_Count_eq:
  assumes "cmap_ok m"
  shows "CMap_Count m = Ret (int (card (dom (cmap_get m))))"
proof -
  let ?s = "cm_shards m"
  have "card (dom (cmap_get m)) = (\<Sum>i<length ?s. card (fst ` set (?s ! i)))"
    unfolding shards_dom [OF assms]
  proof (rule card_UN_disjoint)
    show "\<forall>i\<in>{..<length ?s}. \<forall>j\<in>{..<length ?s}. i \<noteq> j \<longrightarrow> fst ` set (?s ! i) \<inter> fst ` set (?s ! j) = {}"
      using shard_keys [OF assms] by (metis disjoint_iff lessThan_iff)
  qed auto
  also have "\<dots> = (\<Sum>i<length ?s. length (?s ! i))"
  proof (rule sum.cong)
    fix i assume "i \<in> {..<length ?s}"
    then have "distinct (map fst (?s ! i))" using assms by (simp add: cmap_ok_def)
    from distinct_card [OF this] show "card (fst ` set (?s ! i)) = length (?s ! i)" by simp
  qed simp
  finally show ?thesis using assms by (simp add: CMap_Count_def cmap_ok_def)
qed

section \<open>Iteration\<close>

lemma fanIn_set: "out \<in> fanIn chans \<Longrightarrow> set out = \<Union> (set ` set chans)"
  by (induction chans arbitrary: out) (auto simp: set_shuffles)

lemma fanIn_mset: "out \<in> fanIn chans \<Longrightarrow> length out = sum_list (map length chans)"
  by (induction chans arbitrary: out) (auto simp: length_shuffles)

lemma CMap_Items_lookup: "map_of (CMap_Items out) = map_of (rev out)"
  using alist_kv.upd_all [of "[]" out] by (simp add: CMap_Items_def)

text \<open>Whatever the order in which the shards are drained, every pair of the map is delivered, and no other.\<close>

lemma stream_pairs:
  assumes "cmap_ok m" and "out \<in> IterBuffered m"
  shows "(k, v) \<in> set out \<longleftrightarrow> cmap_get m k = Some v"
proof -
  let ?i = "shard_of (cm_shardCount m) k"
  have out: "set out = (\<Union>i<length (cm_shards m). set (cm_shards m ! i))"
    using fanIn_set [of out "cm_shards m"] assms(2) by (auto simp: IterBuffered_def snapshot_def set_conv_nth)
  have "(k, v) \<in> set out \<longleftrightarrow> (k, v) \<in> set (cm_shards m ! ?i)"
  proof
    assume "(k, v) \<in> set out"
    then obtain i where i: "i < length (cm_shards m)" "(k, v) \<in> set (cm_shards m ! i)" using out by blast
    moreover have "?i = i" using shard_keys [OF assms(1) i(1), of k] i(2) by force
    ultimately show "(k, v) \<in> set (cm_shards m ! ?i)" by simp
  qed (use out cmap_ok_GetShard [OF assms(1), of k] in blast)
  moreover have "distinct (map fst (cm_shards m ! ?i))"
    using assms(1) cmap_ok_GetShard [OF assms(1), of k] by (simp add: cmap_ok_def)
  ultimately show ?thesis by (simp add: cmap_get_def)
qed

lemma Items_eq:
  assumes "cmap_ok m" and "out \<in> IterBuffered m"
  shows "map_of (CMap_Items out) = cmap_get m"
proof
  fix k
  have iff: "(k, v) \<in> set (rev out) \<longleftrightarrow> cmap_get m k = Some v" for v using stream_pairs [OF assms] by simp
  show "map_of (CMap_Items out) k = cmap_get m k"
  proof (cases "map_of (rev out) k")
    case None
    then have "k \<notin> fst ` set (rev out)" by (simp add: map_of_eq_None_iff)
    then have "cmap_get m k \<noteq> Some v" for v using iff by (metis fst_conv image_eqI)
    then have "cmap_get m k = None" by (cases "cmap_get m k") blast+
    then show ?thesis using None by (simp add: CMap_Items_lookup)
  next
    case (Some v)
    then show ?thesis using iff [of v] map_of_SomeD [OF Some] by (simp add: CMap_Items_lookup)
  qed
qed

section \<open>Sequences of operations\<close>

datatype cmop =
    SetOp int int
  | MSetOp "(int \<times> int) list"
  | UpsertOp int int "bool \<Rightarrow> int \<Rightarrow> int \<Rightarrow> int"
  | SetIfAbsentOp int int
  | GetOp int
  | HasOp int
  | RemoveOp int
  | RemoveCbOp int "int \<Rightarrow> int \<Rightarrow> bool \<Rightarrow> bool"
  | PopOp int
  | CountOp
  | IsEmptyOp

datatype cmres = RUnit | RInt int | RBool bool | RLookup "int \<times> bool"

fun cmap_exec :: "cmop \<Rightarrow> cmap \<Rightarrow> (cmres \<times> cmap) go" where
  "cmap_exec (SetOp k v) m = gbind (CMap_Set m k v) (\<lambda>m'. Ret (RUnit, m'))"
| "cmap_exec (MSetOp kvs) m = gbind (CMap_MSet m kvs) (\<lambda>m'. Ret (RUnit, m'))"
| "cmap_exec (UpsertOp k v cb) m = gbind (CMap_Upsert m k v cb) (\<lambda>(r, m'). Ret (RInt r, m'))"
| "cmap_exec (SetIfAbsentOp k v) m = gbind (CMap_SetIfAbsent m k v) (\<lambda>(b, m'). Ret (RBool b, m'))"
| "cmap_exec (GetOp k) m = gbind (CMap_Get m k) (\<lambda>r. Ret (RLookup r, m))"
| "cmap_exec (HasOp k) m = gbind (CMap_Has m k) (\<lambda>b. Ret (RBool b, m))"
| "cmap_exec (RemoveOp k) m = gbind (CMap_Remove m k) (\<lambda>m'. Ret (RUnit, m'))"
| "cmap_exec (RemoveCbOp k cb) m = gbind (CMap_RemoveCb m k cb) (\<lambda>(b, m'). Ret (RBool b, m'))"
| "cmap_exec (PopOp k) m = gbind (CMap_Pop m k) (\<lambda>(r, m'). Ret (RLookup r, m'))"
| "cmap_exec CountOp m = gbind (CMap_Count m) (\<lambda>c. Ret (RInt c, m))"
| "cmap_exec IsEmptyOp m = gbind (CMap_IsEmpty m) (\<lambda>b. Ret (RBool b, m))"

text \<open>The same operations on a single map, the specification.\<close>

fun spec_exec :: "cmop \<Rightarrow> (int \<rightharpoonup> int) \<Rightarrow> cmres \<times> (int \<rightharpoonup> int)" where
  "spec_exec (SetOp k v) f = (RUnit, f(k \<mapsto> v))"
| "spec_exec (MSetOp kvs) f = (RUnit, f ++ map_of (rev kvs))"
| "spec_exec (UpsertOp k v cb) f = (let (old, ok) = zlookup f k in (RInt (cb ok old v), f(k \<mapsto> cb ok old v)))"
| "spec_exec (SetIfAbsentOp k v) f = (if f k = None then (RBool True, f(k \<mapsto> v)) else (RBool False, f))"
| "spec_exec (GetOp k) f = (RLookup (zlookup f k), f)"
| "spec_exec (HasOp k) f = (RBool (f k \<noteq> None), f)"
| "spec_exec (RemoveOp k) f = (RUnit, f(k := None))"
| "spec_exec (RemoveCbOp k cb) f = (let (old, ok) = zlookup f k; b = cb k old ok in (RBool b, if b \<and> ok then f(k := None) else f))"
| "spec_exec (PopOp k) f = (RLookup (zlookup f k), f(k := None))"
| "spec_exec CountOp f = (RInt (int (card (dom f))), f)"
| "spec_exec IsEmptyOp f = (RBool (f = Map.empty), f)"

lemma cmap_dom_finite: "cmap_ok m \<Longrightarrow> finite (dom (cmap_get m))"
  by (simp add: shards_dom)

lemma cmap_exec_simulates:
  assumes "cmap_ok m"
  shows "\<exists>r m'. cmap_exec op m = Ret (r, m') \<and> cmap_ok m' \<and> spec_exec op (cmap_get m) = (r, cmap_get m')"
proof (cases op)
  case (MSetOp kvs)
  then show ?thesis using assms cmap.upd_all [OF assms, of kvs] by (simp add: CMap_MSet_eq)
next
  case IsEmptyOp
  have "card (dom (cmap_get m)) = 0 \<longleftrightarrow> cmap_get m = Map.empty"
    using cmap_dom_finite [OF assms] by simp
  with IsEmptyOp assms show ?thesis by (simp add: CMap_IsEmpty_def CMap_Count_eq)
qed (use assms in \<open>auto simp: CMap_ops CMap_Count_eq cmap.get_upd cmap.get_del cmap.inv_upd cmap.inv_del Let_def
      split: prod.splits\<close>)

fun cmap_run :: "cmop list \<Rightarrow> cmap \<Rightarrow> (cmres list \<times> cmap) go" where
  "cmap_run [] m = Ret ([], m)"
| "cmap_run (op # ops) m =
     gbind (cmap_exec op m) (\<lambda>(r, m'). gbind (cmap_run ops m') (\<lambda>(rs, m''). Ret (r # rs, m'')))"

fun spec_run :: "cmop list \<Rightarrow> (int \<rightharpoonup> int) \<Rightarrow> cmres list \<times> (int \<rightharpoonup> int)" where
  "spec_run [] f = ([], f)"
| "spec_run (op # ops) f = (let (r, f') = spec_exec op f; (rs, f'') = spec_run ops f' in (r # rs, f''))"

lemma cmap_run_simulates:
  "cmap_ok m \<Longrightarrow> \<exists>rs m'. cmap_run ops m = Ret (rs, m') \<and> cmap_ok m' \<and> spec_run ops (cmap_get m) = (rs, cmap_get m')"
proof (induction ops arbitrary: m)
  case (Cons op ops)
  obtain r m1 where r: "cmap_exec op m = Ret (r, m1)" "cmap_ok m1" "spec_exec op (cmap_get m) = (r, cmap_get m1)"
    using cmap_exec_simulates [OF Cons.prems] by blast
  with Cons.IH [OF r(2)] show ?case by auto
qed simp

lemma CMap_New_get: "0 < n \<Longrightarrow> n < 2 ^ 63 \<Longrightarrow> CMap_New n = Ret m \<Longrightarrow> cmap_get m = Map.empty"
  using GetShard_eq [of m] by (auto simp: fun_eq_iff cmap_get_def CMap_New_def)

section \<open>Properties\<close>

text \<open>
  C17. The sharded map refines one map: for every number of shards and every sequence of operations, no operation
  panics and each returns what it would return on a single map; and every iteration over the final state,
  in whatever order the goroutines of \<open>fanIn\<close> run, delivers exactly the pairs of that map.
\<close>

theorem concurrent_map_refines_map:
  assumes "0 < n" and "n < 2 ^ 63" and "CMap_New n = Ret m"
  shows "\<exists>rs m'. cmap_run ops m = Ret (rs, m') \<and> fst (spec_run ops Map.empty) = rs
    \<and> (\<forall>out\<in>IterBuffered m'. map_of (CMap_Items out) = snd (spec_run ops Map.empty)
         \<and> set (CMap_Keys out) = dom (snd (spec_run ops Map.empty)))"
proof -
  have "cmap_ok m" "cmap_get m = Map.empty" using CMap_New_ok [OF assms(1,2)] CMap_New_get [OF assms] assms(3) by auto
  then obtain rs m' where r: "cmap_run ops m = Ret (rs, m')" "cmap_ok m'" "spec_run ops Map.empty = (rs, cmap_get m')"
    using cmap_run_simulates [of m ops] by auto
  have "set (CMap_Keys out) = dom (cmap_get m')" if "out \<in> IterBuffered m'" for out
    using stream_pairs [OF r(2) that] by (force simp: CMap_Keys_def dom_def)
  with r Items_eq [OF r(2)] show ?thesis by auto
qed

theorem concurrent_map_refines_map_witness:
  "\<exists>m rs m'. CMap_New 32 = Ret m \<and> cmap_run [SetOp 7 70, SetOp (-3) 5, PopOp 7, GetOp (-3), CountOp] m = Ret (rs, m')
     \<and> rs = [RUnit, RUnit, RLookup (70, True), RLookup (5, True), RInt 1]"
proof -
  obtain m where m: "CMap_New 32 = Ret m" using CMap_New_ok [of 32] by auto
  have "fst (spec_run [SetOp 7 70, SetOp (-3) 5, PopOp 7, GetOp (-3), CountOp] Map.empty)
      = [RUnit, RUnit, RLookup (70, True), RLookup (5, True), RInt 1]"
    by (simp add: zlookup_def Let_def)
  with concurrent_map_refines_map [OF _ _ m, of "[SetOp 7 70, SetOp (-3) 5, PopOp 7, GetOp (-3), CountOp]"] m
  show ?thesis by auto
qed

end
