(* ===== verification/GoStrings.thy ===== *)
theory GoStrings
  imports GoPrelude
begin

text \<open>
  The functions of packages \<open>strings\<close> and \<open>strconv\<close> that the sources use, on ASCII text: \<open>Split\<close> by a character,
  \<open>TrimSpace\<close>, \<open>ToLower\<close>, \<open>Join\<close>, \<open>ParseInt\<close> in base 10, and \<open>Sprintf\<close> with a width taken from an argument.
\<close>

section \<open>Splitting and trimming\<close>

fun split_on :: "char \<Rightarrow> string \<Rightarrow> string list" where
  "split_on c [] = [[]]"
| "split_on c (x # xs) =
     (if x = c then [] # split_on c xs
      else case split_on c xs of w # ws \<Rightarrow> (x # w) # ws | [] \<Rightarrow> [[x]])"

fun join_with :: "string \<Rightarrow> string list \<Rightarrow> string" where
  "join_with sep [] = []"
| "join_with sep [w] = w"
| "join_with sep (w # v # ws) = w @ sep @ join_with sep (v # ws)"

definition is_space :: "char \<Rightarrow> bool" where
  "is_space c \<longleftrightarrow> c \<in> {CHR 0x09, CHR 0x0A, CHR 0x0B, CHR 0x0C, CHR 0x0D, CHR '' ''}"

definition trim_space :: "string \<Rightarrow> string" where
  "trim_space s = rev (dropWhile is_space (rev (dropWhile is_space s)))"

definition lower_char :: "char \<Rightarrow> char" where
  "lower_char c = (let n = of_char c :: nat in if 65 \<le> n \<and> n \<le> 90 then char_of (n + 32) else c)"

definition to_lower :: "string \<Rightarrow> string" where
  "to_lower s = map lower_char s"

text \<open>\<open>strings.Contains\<close>: whether the second text occurs in the first.\<close>

fun contains :: "string \<Rightarrow> string \<Rightarrow> bool" where
  "contains [] w = (w = [])"
| "contains (c # s) w = (take (length w) (c # s) = w \<or> contains s w)"

section \<open>Decimal integers\<close>

definition is_digit :: "char \<Rightarrow> bool" where
  "is_digit c \<longleftrightarrow> (let n = of_char c :: nat in 48 \<le> n \<and> n \<le> 57)"

text \<open>
  \<open>strconv.ParseInt(s, 10, 64)\<close>: the value and whether it was accepted. A syntax error yields 0, a value out of
  range the nearest \<open>int64\<close>.
\<close>

definition parse_digits :: "string \<Rightarrow> nat option" where
  "parse_digits s = (if s \<noteq> [] \<and> list_all is_digit s then Some (undigits s) else None)"

definition parse_signed :: "bool \<Rightarrow> string \<Rightarrow> int \<times> bool" where
  "parse_signed neg s =
     (case parse_digits s of
        None \<Rightarrow> (0, False)
      | Some n \<Rightarrow>
          if \<not> neg \<and> 2 ^ 63 \<le> n then (maxInt64, False)
          else if neg \<and> 2 ^ 63 < n then (minInt64, False)
          else (if neg then - int n else int n, True))"

definition ParseInt :: "string \<Rightarrow> int \<times> bool" where
  "ParseInt s =
     (case s of
        [] \<Rightarrow> (0, False)
      | c # cs \<Rightarrow> if c = CHR ''-'' then parse_signed True cs
                 else if c = CHR ''+'' then parse_signed False cs
                 else parse_signed False s)"

text \<open>\<open>%0*d\<close>: the width is an argument; above a million it is refused, and a negative one pads with spaces on the right.\<close>

definition pad_int :: "int \<Rightarrow> int \<Rightarrow> string" where
  "pad_int w n =
     (if 1000000 < \<bar>w\<bar> then ''%!(BADWIDTH)'' @ itoa n
      else if w < 0 then itoa n @ replicate (nat (- w) - length (itoa n)) (CHR '' '')
      else if n < 0 then CHR ''-'' # replicate (nat w - 1 - length (digits (nat (- n)))) (CHR ''0'') @ digits (nat (- n))
      else replicate (nat w - length (digits (nat n))) (CHR ''0'') @ digits (nat n))"

section \<open>Lemmas\<close>

lemma split_on_nonempty [simp]: "split_on c s \<noteq> []"
  by (induction s) (auto split: list.splits)

lemma split_on_plain: "c \<notin> set s \<Longrightarrow> split_on c s = [s]"
  by (induction s) auto

lemma split_on_append: "c \<notin> set s \<Longrightarrow> split_on c (s @ c # t) = s # split_on c t"
  by (induction s) auto

lemma split_on_join: "ws \<noteq> [] \<Longrightarrow> \<forall>w\<in>set ws. c \<notin> set w \<Longrightarrow> split_on c (join_with [c] ws) = ws"
  by (induction "[c]" ws rule: join_with.induct) (auto simp: split_on_plain split_on_append)

lemma digit_char: "n < 10 \<Longrightarrow> is_digit (char_of (48 + n))" for n :: nat
  by (simp add: is_digit_def)

lemma digits_all: "list_all is_digit (digits n)"
  by (induction n rule: digits.induct) (subst digits.simps, simp add: digit_char)

lemma digits_nonempty [simp]: "digits n \<noteq> []"
  by (subst digits.simps) simp

lemma is_digit_not: "is_digit c \<Longrightarrow> c \<noteq> CHR ''-'' \<and> c \<noteq> CHR ''+'' \<and> \<not> is_space c"
  by (auto simp: is_digit_def is_space_def)

lemma digits_cons: "\<exists>c cs. digits n = c # cs \<and> is_digit c"
  using digits_all [of n] digits_nonempty [of n] by (cases "digits n") auto

lemma parse_digits_digits: "parse_digits (digits n) = Some n"
  by (simp add: parse_digits_def digits_all)

lemma ParseInt_itoa:
  assumes "in_i64 n"
  shows "ParseInt (itoa n) = (n, True)"
proof (cases "n < 0")
  case True
  then have "\<not> 2 ^ 63 < nat (- n)" using assms by (simp add: in_i64_def nat_less_iff not_less nat_le_iff)
  with True show ?thesis by (simp add: ParseInt_def itoa_def parse_signed_def parse_digits_digits)
next
  case False
  obtain c cs where c: "digits (nat n) = c # cs" "is_digit c" using digits_cons by blast
  have "\<not> 2 ^ 63 \<le> nat n" using assms False by (simp add: in_i64_def not_le nat_less_iff)
  moreover have "ParseInt (digits (nat n)) = parse_signed False (digits (nat n))"
    using is_digit_not [OF c(2)] by (simp add: ParseInt_def c(1))
  ultimately show ?thesis using False by (simp add: itoa_def parse_signed_def parse_digits_digits)
qed

text \<open>Padding loses nothing.\<close>

lemma undigits_zeros: "undigits (replicate k (CHR ''0'') @ s) = undigits s"
proof (induction k)
  case (Suc k)
  have "undigits (CHR ''0'' # t) = undigits t" for t by (simp add: undigits_def)
  with Suc show ?case by simp
qed simp

lemma hd_padded: "is_digit (hd (replicate k (CHR ''0'') @ digits n))"
  using digits_cons [of n] by (cases k) (auto simp: is_digit_def)

lemma pad_int_inj:
  assumes "0 \<le> w" and "w \<le> 1000000" and "pad_int w m = pad_int w n"
  shows "m = n"
proof -
  have nz: "replicate k (CHR ''0'') @ digits j \<noteq> CHR ''-'' # t" for k j t
    using hd_padded [of k j] is_digit_not by (metis list.sel(1))
  show ?thesis
  proof (cases "m < 0 \<longleftrightarrow> n < 0")
    case True
    then have "undigits (digits (nat \<bar>m\<bar>)) = undigits (digits (nat \<bar>n\<bar>))"
      using assms by (auto simp: pad_int_def split: if_splits) (metis undigits_zeros undigits_digits)+
    then show ?thesis using True by (auto simp: abs_if split: if_splits)
  next
    case False
    then show ?thesis using assms nz nz [symmetric] by (auto simp: pad_int_def)
  qed
qed

lemma undigits_digits_pad: "0 \<le> w \<Longrightarrow> w \<le> 1000000 \<Longrightarrow> 0 \<le> n \<Longrightarrow> undigits (pad_int w n) = nat n"
  by (simp add: pad_int_def undigits_zeros)

end
