(* ===== verification/HistFile.thy ===== *)
theory HistFile
  imports Generators GoStrings
begin

text \<open>
  \<open>NewHistogramFromFile\<close> of \<^verbatim>\<open>pkg/generator/histogram.go\<close>: the text format in which a field length histogram is
  stored. The file system is an argument, a function from names to the contents or an error. The
  property is the round trip: a histogram written in this format is read back.
\<close>

section \<open>Reading\<close>

type_synonym bucketInfo = "int \<times> int"

text \<open>One line per bucket, up to the first blank line; \<open>ParseInt\<close> errors are ignored, a missing column panics.\<close>

fun read_buckets :: "string list \<Rightarrow> int \<Rightarrow> bucketInfo list \<Rightarrow> (int \<times> bucketInfo list) go" where
  "read_buckets [] maxLocation ay = Ret (maxLocation, ay)"
| "read_buckets (s # ls) maxLocation ay =
     (let s = trim_space s in
      if s = [] then Ret (maxLocation, ay)
      else
        let line = split_on (CHR 0x09) s;
            location = fst (ParseInt (hd line));
            maxLocation = (if maxLocation < location then location else maxLocation)
        in gbind (go_index line 1) (\<lambda>col.
           read_buckets ls maxLocation (ay @ [(location, fst (ParseInt col))])))"

fun fill_buckets :: "int list \<Rightarrow> bucketInfo list \<Rightarrow> int list go" where
  "fill_buckets buckets [] = Ret buckets"
| "fill_buckets buckets ((location, v) # ay) =
     (if 0 \<le> location \<and> location < int (length buckets) then fill_buckets (buckets[nat location := v]) ay
      else Panic ''index out of range'')"

definition NewHistogramFromFile :: "(string \<Rightarrow> error + string) \<Rightarrow> string \<Rightarrow> histo go" where
  "NewHistogramFromFile readFile name =
     (case readFile name of
        Inl err \<Rightarrow> Exit (''load histogram file '' @ name @ '' failed '' @ err)
      | Inr data \<Rightarrow>
          let lines = split_on (CHR 0x0A) (trim_space data);
              line = split_on (CHR 0x09) (trim_space (hd lines)) in
          if hd line \<noteq> ''BlockSize''
          then Exit (''First line of histogram is not the BlockSize but ['' @ join_with '' '' line @ '']'')
          else gbind (go_index line 1) (\<lambda>col.
            let (blockSize, ok) = ParseInt col in
            if \<not> ok then Exit ''parse BlockSize failed''
            else gbind (read_buckets (tl lines) 0 []) (\<lambda>(maxLocation, ay).
              if i64 (maxLocation + 1) < 0 then Panic ''makeslice: len out of range''
              else gbind (fill_buckets (replicate (nat (i64 (maxLocation + 1))) 0) ay) (\<lambda>buckets.
                Ret (NewHistogram buckets blockSize)))))"

section \<open>Writing and reading back\<close>

definition bucket_line :: "int \<Rightarrow> int \<Rightarrow> string" where
  "bucket_line i b = itoa i @ CHR 0x09 # itoa b"

definition histogram_text :: "int list \<Rightarrow> int \<Rightarrow> string" where
  "histogram_text buckets blockSize =
     join_with [CHR 0x0A] ((''BlockSize'' @ CHR 0x09 # itoa blockSize)
       # map (\<lambda>i. bucket_line (int i) (buckets ! i)) [0..<length buckets])"

definition plain_char :: "char \<Rightarrow> bool" where
  "plain_char c \<longleftrightarrow> is_digit c \<or> c = CHR ''-''"

lemma itoa_plain: "list_all plain_char (itoa i)"
  using digits_all [of "nat i"] digits_all [of "nat (- i)"]
  by (auto simp: itoa_def plain_char_def list_all_iff)

lemma plain_not_space: "plain_char c \<Longrightarrow> \<not> is_space c"
  by (auto simp: plain_char_def is_digit_def is_space_def)

lemma itoa_not_space: "c \<in> set (itoa i) \<Longrightarrow> \<not> is_space c"
  using itoa_plain [of i] plain_not_space by (auto simp: list_all_iff)

lemma itoa_no_sep: "CHR 0x09 \<notin> set (itoa i)" "CHR 0x0A \<notin> set (itoa i)"
  using itoa_not_space [of _ i] by (auto simp: is_space_def)

lemma itoa_nonempty [simp]: "itoa i \<noteq> []"
  by (simp add: itoa_def)

lemma trim_space_id:
  assumes "s \<noteq> []" and "\<not> is_space (hd s)" and "\<not> is_space (last s)"
  shows "trim_space s = s"
proof -
  have "dropWhile is_space s = s" using assms(1,2) by (cases s) auto
  moreover have "dropWhile is_space (rev s) = rev s" using assms(1,3) by (cases s rule: rev_cases) auto
  ultimately show ?thesis by (simp add: trim_space_def)
qed

lemma bucket_line_trim [simp]: "trim_space (bucket_line i b) = bucket_line i b"
  by (rule trim_space_id)
    (use itoa_not_space [OF hd_in_set [OF itoa_nonempty]] itoa_not_space [OF last_in_set [OF itoa_nonempty]]
      in \<open>auto simp: bucket_line_def\<close>)

lemma bucket_line_split: "split_on (CHR 0x09) (bucket_line i b) = [itoa i, itoa b]"
  by (simp add: bucket_line_def split_on_append split_on_plain itoa_no_sep)

lemma bucket_line_nonempty [simp]: "bucket_line i b \<noteq> []"
  by (simp add: bucket_line_def)

lemma read_buckets_lines:
  assumes "\<forall>(i, b)\<in>set ibs. in_i64 i \<and> in_i64 b"
  shows "read_buckets (map (\<lambda>(i, b). bucket_line i b) ibs) mx ay = Ret (foldl (\<lambda>m ib. max m (fst ib)) mx ibs, ay @ ibs)"
  using assms
proof (induction ibs arbitrary: mx ay)
  case (Cons ib ibs)
  obtain i b where ib: "ib = (i, b)" by (cases ib)
  have "(if mx < i then i else mx) = max mx i" by (simp add: max_def)
  with Cons ib show ?case by (simp add: bucket_line_split ParseInt_itoa go_index_def)
qed simp

lemma fill_buckets_all:
  assumes "k \<le> length buckets" and "length acc = length buckets" and "\<forall>i<k. acc ! i = buckets ! i"
  shows "fill_buckets acc (map (\<lambda>i. (int i, buckets ! i)) [k..<length buckets]) = Ret buckets"
  using assms
proof (induction "length buckets - k" arbitrary: k acc)
  case 0
  then have "acc = buckets" by (intro nth_equalityI) auto
  with 0 show ?case by simp
next
  case (Suc n)
  then have k: "k < length buckets" by simp
  have "fill_buckets (acc[k := buckets ! k]) (map (\<lambda>i. (int i, buckets ! i)) [Suc k..<length buckets]) = Ret buckets"
    using Suc k by (intro Suc.hyps(1)) (auto simp: nth_list_update less_Suc_eq)
  with k Suc.prems show ?case by (simp add: upt_conv_Cons)
qed

lemma foldl_max_upt: "foldl (\<lambda>m ib. max m (fst ib)) 0 (map (\<lambda>i. (int i, f i)) [0..<Suc n]) = int n"
  by (induction n) (auto simp: max_def)

lemma histogram_text_lines:
  "split_on (CHR 0x0A) (histogram_text buckets bs) = (''BlockSize'' @ CHR 0x09 # itoa bs)
     # map (\<lambda>i. bucket_line (int i) (buckets ! i)) [0..<length buckets]"
  unfolding histogram_text_def by (rule split_on_join) (auto simp: bucket_line_def itoa_no_sep)

lemma join_with_last: "ws \<noteq> [] \<Longrightarrow> last ws \<noteq> [] \<Longrightarrow> join_with sep ws \<noteq> [] \<and> last (join_with sep ws) = last (last ws)"
  by (induction sep ws rule: join_with.induct) (auto split: if_splits)

lemma histogram_text_trim: "trim_space (histogram_text buckets bs) = histogram_text buckets bs"
proof (rule trim_space_id)
  let ?ws = "(''BlockSize'' @ CHR 0x09 # itoa bs) # map (\<lambda>i. bucket_line (int i) (buckets ! i)) [0..<length buckets]"
  have l: "\<exists>i. last (last ?ws) = last (itoa i)" "last ?ws \<noteq> []"
    by (auto simp: last_map bucket_line_def)
  show "histogram_text buckets bs \<noteq> []" unfolding histogram_text_def using join_with_last [of ?ws "[CHR 0x0A]"] l by simp
  show "\<not> is_space (last (histogram_text buckets bs))"
    unfolding histogram_text_def using join_with_last [of ?ws "[CHR 0x0A]"] l itoa_not_space [OF last_in_set] by fastforce
  show "\<not> is_space (hd (histogram_text buckets bs))"
    unfolding histogram_text_def by (cases "[0..<length buckets]") (auto simp: is_space_def)
qed

section \<open>Properties\<close>

text \<open>
  A histogram file that lists the block size and one line per bucket is read back as exactly that histogram,
  for every list of buckets and every block size of type \<open>int64\<close>.
\<close>

theorem histogram_file_roundtrip:
  assumes "readFile name = Inr (histogram_text buckets blockSize)" and "buckets \<noteq> []"
    and "\<forall>b\<in>set buckets. in_i64 b" and "in_i64 blockSize" and "int (length buckets) < 2 ^ 63"
  shows "NewHistogramFromFile readFile name = Ret (NewHistogram buckets blockSize)"
proof -
  let ?ibs = "map (\<lambda>i. (int i, buckets ! i)) [0..<length buckets]"
  have n: "length buckets = Suc (length buckets - 1)" using assms(2) by simp
  have ls: "map (\<lambda>i. bucket_line (int i) (buckets ! i)) [0..<length buckets] = map (\<lambda>(i, b). bucket_line i b) ?ibs" by simp
  have "\<forall>(i, b)\<in>set ?ibs. in_i64 i \<and> in_i64 b" using assms(3,5) by (auto simp: in_i64_def)
  then have rd: "read_buckets (map (\<lambda>(i, b). bucket_line i b) ?ibs) 0 [] = Ret (int (length buckets) - 1, ?ibs)"
    using read_buckets_lines [of ?ibs 0 "[]"] foldl_max_upt [of "(!) buckets" "length buckets - 1"] assms(2)
    by (simp add: of_nat_diff Suc_le_eq flip: n)
  have i: "i64 (int (length buckets)) = int (length buckets)" using assms(5) by (simp add: i64_id in_i64_def)
  have hdr: "trim_space (''BlockSize'' @ CHR 0x09 # itoa blockSize) = ''BlockSize'' @ CHR 0x09 # itoa blockSize"
    by (rule trim_space_id) (use itoa_not_space [OF last_in_set] in \<open>auto simp: is_space_def\<close>)
  have sp: "split_on (CHR 0x09) (''BlockSize'' @ CHR 0x09 # itoa blockSize) = [''BlockSize'', itoa blockSize]"
    by (subst split_on_append) (auto simp: split_on_plain itoa_no_sep)
  show ?thesis
    using fill_buckets_all [of 0 buckets "replicate (length buckets) 0"]
    unfolding NewHistogramFromFile_def assms(1) sum.case histogram_text_trim histogram_text_lines Let_def list.sel hdr sp ls
    by (simp only: rd) (simp add: go_index_def ParseInt_itoa [OF assms(4)] i)
qed

theorem histogram_file_roundtrip_witness:
  "NewHistogramFromFile (\<lambda>_. Inr (histogram_text [0, 3, 5] 100)) ''hist.txt'' = Ret (NewHistogram [0, 3, 5] 100)"
  using histogram_file_roundtrip [of "\<lambda>_. Inr (histogram_text [0, 3, 5] 100)" "''hist.txt''" "[0, 3, 5]" 100]
  by (simp add: in_i64_def)

end
