(* ===== verification/YcsbDB.thy ===== *)
theory YcsbDB
  imports GoPrelude
begin

text \<open>
  The database interfaces of \<^verbatim>\<open>pkg/ycsb/db.go\<close> and \<^verbatim>\<open>pkg/ycsb/workload.go\<close>: the methods of \<open>DB\<close>, \<open>BatchDB\<close> and \<open>AnalyzeDB\<close> as
  records of functions over the state \<open>'d\<close> of a database, and the registries of creators. The context that
  \<open>InitThread\<close> returns and every later call passes back is part of that state. A method that returns \<open>(T, error)\<close>
  delivers a sum, a method that returns \<open>error\<close> an option. A row is a Go map from field names to bytes, as an
  association list in the order of its iteration.
\<close>

section \<open>Databases\<close>

type_synonym row = "byte list smap"

record 'd batchdb =
  db_BatchInsert :: "'d \<Rightarrow> string \<Rightarrow> string list \<Rightarrow> row list \<Rightarrow> (error option \<times> 'd) go"
  db_BatchRead :: "'d \<Rightarrow> string \<Rightarrow> string list \<Rightarrow> string list \<Rightarrow> ((error + row option list) \<times> 'd) go"
  db_BatchUpdate :: "'d \<Rightarrow> string \<Rightarrow> string list \<Rightarrow> row list \<Rightarrow> (error option \<times> 'd) go"
  db_BatchDelete :: "'d \<Rightarrow> string \<Rightarrow> string list \<Rightarrow> (error option \<times> 'd) go"

record 'd db =
  db_Close :: "'d \<Rightarrow> (error option \<times> 'd) go"
  db_InitThread :: "'d \<Rightarrow> int \<Rightarrow> int \<Rightarrow> 'd go"
  db_CleanupThread :: "'d \<Rightarrow> 'd go"
  db_Read :: "'d \<Rightarrow> string \<Rightarrow> string \<Rightarrow> string list \<Rightarrow> ((error + row) \<times> 'd) go"
  db_Scan :: "'d \<Rightarrow> string \<Rightarrow> string \<Rightarrow> int \<Rightarrow> string list \<Rightarrow> ((error + row option list) \<times> 'd) go"
  db_Update :: "'d \<Rightarrow> string \<Rightarrow> string \<Rightarrow> row \<Rightarrow> (error option \<times> 'd) go"
  db_Insert :: "'d \<Rightarrow> string \<Rightarrow> string \<Rightarrow> row \<Rightarrow> (error option \<times> 'd) go"
  db_Delete :: "'d \<Rightarrow> string \<Rightarrow> string \<Rightarrow> (error option \<times> 'd) go"
  db_Batch :: "'d batchdb option"
  db_Analyze :: "('d \<Rightarrow> string \<Rightarrow> (error option \<times> 'd) go) option"
  db_TypeName :: string

section \<open>Registries\<close>

text \<open>
  The global maps \<open>dbCreators\<close> and \<open>workloadCreators\<close>; a name that is not registered gives the nil interface.
\<close>

definition RegisterDBCreator :: "'c smap \<Rightarrow> string \<Rightarrow> 'c \<Rightarrow> 'c smap go" where
  "RegisterDBCreator dbCreators name creator =
     (if map_of dbCreators name \<noteq> None then Panic (''duplicate register database '' @ name)
      else Ret (AList.update name creator dbCreators))"

definition GetDBCreator :: "'c smap \<Rightarrow> string \<Rightarrow> 'c option" where
  "GetDBCreator dbCreators name = map_of dbCreators name"

definition RegisterWorkloadCreator :: "'c smap \<Rightarrow> string \<Rightarrow> 'c \<Rightarrow> 'c smap go" where
  "RegisterWorkloadCreator workloadCreators name creator =
     (if map_of workloadCreators name \<noteq> None then Panic (''duplicate register workload '' @ name)
      else Ret (AList.update name creator workloadCreators))"

definition GetWorkloadCreator :: "'c smap \<Rightarrow> string \<Rightarrow> 'c option" where
  "GetWorkloadCreator workloadCreators name = map_of workloadCreators name"

lemma GetDBCreator_Register:
  "RegisterDBCreator cs name c = Ret cs' \<Longrightarrow>
   GetDBCreator cs' = (GetDBCreator cs)(name \<mapsto> c) \<and> GetDBCreator cs name = None"
  by (auto simp: RegisterDBCreator_def GetDBCreator_def fun_eq_iff update_Some_unfold update_conv' split: if_splits)

lemma GetWorkloadCreator_Register:
  "RegisterWorkloadCreator cs name c = Ret cs' \<Longrightarrow>
   GetWorkloadCreator cs' = (GetWorkloadCreator cs)(name \<mapsto> c) \<and> GetWorkloadCreator cs name = None"
  by (auto simp: RegisterWorkloadCreator_def GetWorkloadCreator_def fun_eq_iff update_conv' split: if_splits)

end
