(* ===== verification/Workload.thy ===== *)
theory Workload
  imports MixGraph HistFile RowFields YcsbDB
begin

text \<open>
  The core workload, \<^verbatim>\<open>pkg/workload/core.go\<close>, over an arbitrary database: the generators behind the interface
  \<open>ycsb.Generator\<close> as a sum type, the state of a worker goroutine, and every operation of the workload as a
  function of that state. The database is a record of the methods of \<open>ycsb.DB\<close> over a state of its own type.
  The recycling of value buffers in \<open>valuePool\<close> has no effect on the values, since every byte handed out is
  overwritten, and is left out; so are sleeps and console output.
\<close>

section \<open>Environment and state\<close>

text \<open>
  What the workload takes from outside: the mathematical functions, the fuel of the two loops without a
  bound, the streams of explicitly seeded and of time-seeded random sources, and the file system.
\<close>

record wenv =
  e_math :: mathlib
  e_fuel :: nat
  e_source :: "int \<Rightarrow> rand"
  e_seed :: "nat \<Rightarrow> rand"
  e_readFile :: "string \<Rightarrow> error + string"

datatype generator =
    GConstant constant_gen
  | GCounter counter
  | GUniform uniform
  | GSequential sequential
  | GZipfian zipfian
  | GScrambled scrambled
  | GSkewedLatest skewedlatest
  | GHotspot hotspot
  | GExponential exponential
  | GHistogram histo
  | GMixGraph mixgraph
  | GGPD gpd

definition wrap_gen :: "('g \<Rightarrow> generator) \<Rightarrow> (int \<times> 'g \<times> rand) go \<Rightarrow> (int \<times> generator \<times> rand) go" where
  "wrap_gen con m = gbind m (\<lambda>(v, g, r). Ret (v, con g, r))"

text \<open>The dynamic dispatch of \<open>Generator.Next\<close>; \<open>lst\<close> is \<open>Last\<close> of the insert sequence, the basis of \<open>SkewedLatest\<close>.\<close>

fun gen_Next :: "wenv \<Rightarrow> int \<Rightarrow> generator \<Rightarrow> rand \<Rightarrow> (int \<times> generator \<times> rand) go" where
  "gen_Next E lst (GConstant g) r = wrap_gen GConstant (Constant_Next g r)"
| "gen_Next E lst (GCounter g) r = wrap_gen GCounter (Counter_Next g r)"
| "gen_Next E lst (GUniform g) r = wrap_gen GUniform (Uniform_Next g r)"
| "gen_Next E lst (GSequential g) r = wrap_gen GSequential (Sequential_Next g r)"
| "gen_Next E lst (GZipfian g) r = wrap_gen GZipfian (Zipfian_Next (e_math E) g r)"
| "gen_Next E lst (GScrambled g) r = wrap_gen GScrambled (Scrambled_Next (e_math E) g r)"
| "gen_Next E lst (GSkewedLatest g) r = wrap_gen GSkewedLatest (SkewedLatest_Next (e_math E) lst g r)"
| "gen_Next E lst (GHotspot g) r = wrap_gen GHotspot (Hotspot_Next g r)"
| "gen_Next E lst (GExponential g) r = wrap_gen GExponential (Exponential_Next (e_math E) g r)"
| "gen_Next E lst (GHistogram g) r = wrap_gen GHistogram (Histogram_Next g r)"
| "gen_Next E lst (GMixGraph g) r = wrap_gen GMixGraph (MixGraph_Next (e_math E) g r)"
| "gen_Next E lst (GGPD g) r = wrap_gen GGPD (GPD_Next (e_math E) (e_fuel E) g r)"

record core =
  c_p :: props
  c_table :: string
  c_fieldCount :: int
  c_fieldNames :: "string list"
  c_fieldLengthGenerator :: generator
  c_readAllFields :: bool
  c_writeAllFields :: bool
  c_dataIntegrity :: bool
  c_keySequence :: generator
  c_operationChooser :: discrete
  c_keyChooser :: generator
  c_fieldChooser :: generator
  c_transactionInsertKeySequence :: ackcounter
  c_scanLength :: generator
  c_orderedInserts :: bool
  c_recordCount :: int
  c_zeroPadding :: int
  c_insertionRetryLimit :: int
  c_insertionRetryInterval :: int

text \<open>
  The state one worker sees: the shared workload, its own \<open>coreState\<close> (random source and field names), the
  database, and the operations measured so far.
\<close>

record 'd wstate =
  w_core :: core
  w_rand :: rand
  w_fieldNames :: "string list"
  w_db :: 'd
  w_measured :: "string list"

section \<open>Sequencing\<close>

definition aret :: "'a \<Rightarrow> 's \<Rightarrow> ('a \<times> 's) go" where
  "aret a s = Ret (a, s)"

definition abind :: "('s \<Rightarrow> ('a \<times> 's) go) \<Rightarrow> ('a \<Rightarrow> 's \<Rightarrow> ('b \<times> 's) go) \<Rightarrow> 's \<Rightarrow> ('b \<times> 's) go" where
  "abind m f s = gbind (m s) (\<lambda>(a, s'). f a s')"

definition alift :: "'a go \<Rightarrow> 's \<Rightarrow> ('a \<times> 's) go" where
  "alift m s = gbind m (\<lambda>a. Ret (a, s))"

text \<open>A call of \<open>Next\<close> on one of the generators of the workload.\<close>

definition draw :: "wenv \<Rightarrow> (core \<Rightarrow> generator) \<Rightarrow> (generator \<Rightarrow> core \<Rightarrow> core) \<Rightarrow> 'd wstate \<Rightarrow> (int \<times> 'd wstate) go" where
  "draw E sel upd s =
     (let c = w_core s in
      gbind (gen_Next E (Ack_Last (c_transactionInsertKeySequence c)) (sel c) (w_rand s)) (\<lambda>(v, g, r).
        Ret (v, s\<lparr>w_core := upd g c, w_rand := r\<rparr>)))"

definition next_fieldLength :: "wenv \<Rightarrow> 'd wstate \<Rightarrow> (int \<times> 'd wstate) go" where
  "next_fieldLength E = draw E c_fieldLengthGenerator (\<lambda>g c. c\<lparr>c_fieldLengthGenerator := g\<rparr>)"

definition next_field :: "wenv \<Rightarrow> 'd wstate \<Rightarrow> (int \<times> 'd wstate) go" where
  "next_field E = draw E c_fieldChooser (\<lambda>g c. c\<lparr>c_fieldChooser := g\<rparr>)"

definition next_keySequence :: "wenv \<Rightarrow> 'd wstate \<Rightarrow> (int \<times> 'd wstate) go" where
  "next_keySequence E = draw E c_keySequence (\<lambda>g c. c\<lparr>c_keySequence := g\<rparr>)"

definition next_keyChooser :: "wenv \<Rightarrow> 'd wstate \<Rightarrow> (int \<times> 'd wstate) go" where
  "next_keyChooser E = draw E c_keyChooser (\<lambda>g c. c\<lparr>c_keyChooser := g\<rparr>)"

definition next_scanLength :: "wenv \<Rightarrow> 'd wstate \<Rightarrow> (int \<times> 'd wstate) go" where
  "next_scanLength E = draw E c_scanLength (\<lambda>g c. c\<lparr>c_scanLength := g\<rparr>)"

section \<open>Keys and values\<close>

definition buildKeyName :: "core \<Rightarrow> int \<Rightarrow> string" where
  "buildKeyName c keyNum =
     (let keyNum = (if c_orderedInserts c then keyNum else Hash64 keyNum);
          prefix = GetString (c_p c) prop_KeyPrefix prop_KeyPrefixDefault
      in prefix @ pad_int (c_zeroPadding c) keyNum)"

definition letters :: string where
  "letters = ''abcdefghijklmnopqrstuvwxyzABCDEFGHIJKLMNOPQRSTUVWXYZ''"

text \<open>\<open>util.RandBytes\<close> on a buffer of \<open>n\<close> bytes.\<close>

fun RandBytes :: "rand \<Rightarrow> nat \<Rightarrow> (byte list \<times> rand) go" where
  "RandBytes r 0 = Ret ([], r)"
| "RandBytes r (Suc n) =
     gbind (Intn r (int (length letters))) (\<lambda>(k, r1).
     gbind (RandBytes r1 n) (\<lambda>(bs, r2). Ret (of_char (letters ! nat k) # bs, r2)))"

definition getValueBuffer :: "int \<Rightarrow> nat go" where
  "getValueBuffer sz = (if sz < 0 then Panic ''slice bounds out of range'' else Ret (nat sz))"

definition buildRandomValue :: "wenv \<Rightarrow> 'd wstate \<Rightarrow> (byte list \<times> 'd wstate) go" where
  "buildRandomValue E =
     abind (next_fieldLength E) (\<lambda>len.
     abind (alift (getValueBuffer len)) (\<lambda>n s.
       gbind (RandBytes (w_rand s) n) (\<lambda>(buf, r). Ret (buf, s\<lparr>w_rand := r\<rparr>))))"

text \<open>The loop of \<open>buildDeterministicValue\<close>: append a colon and the hash of the text so far until it is long enough.\<close>

function fill_value :: "int \<Rightarrow> byte list \<Rightarrow> byte list" where
  "fill_value sz b =
     (if int (length b) < sz
      then let b = b @ bytes_of '':'' in fill_value sz (b @ bytes_of (digits (unat (word_of_int (BytesHash64 b) :: u64))))
      else b)"
  by auto
termination by (relation "measure (\<lambda>(sz, b). nat (sz - int (length b)))") (auto simp: bytes_of_def Let_def)

declare fill_value.simps [simp del]

definition deterministic_value :: "int \<Rightarrow> string \<Rightarrow> string \<Rightarrow> byte list" where
  "deterministic_value sz key fieldKey =
     take (nat sz) (fill_value sz (bytes_of (key @ '':'' @ to_lower fieldKey)))"

definition buildDeterministicValue :: "wenv \<Rightarrow> string \<Rightarrow> string \<Rightarrow> 'd wstate \<Rightarrow> (byte list \<times> 'd wstate) go" where
  "buildDeterministicValue E key fieldKey =
     abind (next_fieldLength E) (\<lambda>sz.
     abind (alift (getValueBuffer (i64 (sz + 21)))) (\<lambda>_.
       if sz < 0 then (\<lambda>s. Panic ''bytes.Buffer: truncation out of range'')
       else aret (deterministic_value sz key fieldKey)))"

definition buildValue :: "wenv \<Rightarrow> string \<Rightarrow> string \<Rightarrow> 'd wstate \<Rightarrow> (byte list \<times> 'd wstate) go" where
  "buildValue E key fieldKey s =
     (if c_dataIntegrity (w_core s) then buildDeterministicValue E key fieldKey s else buildRandomValue E s)"

definition pick_fieldName :: "wenv \<Rightarrow> 'd wstate \<Rightarrow> (string \<times> 'd wstate) go" where
  "pick_fieldName E = abind (next_field E) (\<lambda>i s. alift (go_index (w_fieldNames s) i) s)"

definition buildSingleValue :: "wenv \<Rightarrow> string \<Rightarrow> 'd wstate \<Rightarrow> (row \<times> 'd wstate) go" where
  "buildSingleValue E key =
     abind (pick_fieldName E) (\<lambda>fieldKey.
     abind (buildValue E key fieldKey) (\<lambda>buf. aret [(fieldKey, buf)]))"

fun build_fields :: "wenv \<Rightarrow> string \<Rightarrow> string list \<Rightarrow> row \<Rightarrow> 'd wstate \<Rightarrow> (row \<times> 'd wstate) go" where
  "build_fields E key [] values = aret values"
| "build_fields E key (fieldKey # fs) values =
     abind (buildValue E key fieldKey) (\<lambda>buf. build_fields E key fs (AList.update fieldKey buf values))"

definition buildValues :: "wenv \<Rightarrow> string \<Rightarrow> 'd wstate \<Rightarrow> (row \<times> 'd wstate) go" where
  "buildValues E key s = build_fields E key (w_fieldNames s) [] s"

fun verifyRow :: "wenv \<Rightarrow> string \<Rightarrow> row \<Rightarrow> 'd wstate \<Rightarrow> (unit \<times> 'd wstate) go" where
  "verifyRow E key [] = aret ()"
| "verifyRow E key ((fieldKey, value) # values) =
     abind (buildDeterministicValue E key fieldKey) (\<lambda>expected.
       if expected \<noteq> value then (\<lambda>s. Exit ''unexpected deterministic value'')
       else verifyRow E key values)"

section \<open>Inserting\<close>

text \<open>
  The loop of \<open>DoInsert\<close> and \<open>DoBatchInsert\<close>. \<open>canceled n\<close> says whether the context is cancelled when the \<open>n\<close>-th attempt
  has returned.
\<close>

fun retry_loop :: "('d wstate \<Rightarrow> (error option \<times> 'd wstate) go) \<Rightarrow> (nat \<Rightarrow> bool) \<Rightarrow> nat \<Rightarrow> int \<Rightarrow>
    'd wstate \<Rightarrow> (error option \<times> 'd wstate) go" where
  "retry_loop attempt canceled 0 numOfRetries s = Hang"
| "retry_loop attempt canceled (Suc fuel) numOfRetries s =
     gbind (attempt s) (\<lambda>(err, s).
       if err \<noteq> None then Ret (err, s)
       else if canceled (nat numOfRetries) then Ret (None, s)
       else
         let numOfRetries = i64 (numOfRetries + 1) in
         if c_insertionRetryLimit (w_core s) < numOfRetries then Ret (err, s)
         else
           let (_, r) = rFloat64 (w_rand s)
           in retry_loop attempt canceled fuel numOfRetries (s\<lparr>w_rand := r\<rparr>))"

definition run_db :: "('d \<Rightarrow> ('a \<times> 'd) go) \<Rightarrow> 'd wstate \<Rightarrow> ('a \<times> 'd wstate) go" where
  "run_db op s = gbind (op (w_db s)) (\<lambda>(a, d). Ret (a, s\<lparr>w_db := d\<rparr>))"

definition DoInsert :: "wenv \<Rightarrow> 'd db \<Rightarrow> (nat \<Rightarrow> bool) \<Rightarrow> 'd wstate \<Rightarrow> (error option \<times> 'd wstate) go" where
  "DoInsert E db canceled =
     abind (next_keySequence E) (\<lambda>keyNum s.
       let dbKey = buildKeyName (w_core s) keyNum in
       abind (buildValues E dbKey) (\<lambda>values s.
         retry_loop (run_db (\<lambda>d. db_Insert db d (c_table (w_core s)) dbKey values)) canceled (e_fuel E) 0 s) s)"

fun build_batch :: "wenv \<Rightarrow> nat \<Rightarrow> 'd wstate \<Rightarrow> ((string \<times> row) list \<times> 'd wstate) go" where
  "build_batch E 0 = aret []"
| "build_batch E (Suc n) =
     abind (next_keySequence E) (\<lambda>keyNum s.
       let dbKey = buildKeyName (w_core s) keyNum in
       abind (buildValues E dbKey) (\<lambda>values.
       abind (build_batch E n) (\<lambda>rest. aret ((dbKey, values) # rest))) s)"

definition no_batch :: "'d db \<Rightarrow> error" where
  "no_batch db = ''the '' @ db_TypeName db @ '' does't implement the batchDB interface''"

definition DoBatchInsert :: "wenv \<Rightarrow> int \<Rightarrow> 'd db \<Rightarrow> (nat \<Rightarrow> bool) \<Rightarrow> 'd wstate \<Rightarrow> (error option \<times> 'd wstate) go" where
  "DoBatchInsert E batchSize db canceled =
     (case db_Batch db of
        None \<Rightarrow> aret (Some (no_batch db))
      | Some batchDB \<Rightarrow>
          abind (build_batch E (nat batchSize)) (\<lambda>kvs s.
            retry_loop (run_db (\<lambda>d. db_BatchInsert batchDB d (c_table (w_core s)) (map fst kvs) (map snd kvs)))
              canceled (e_fuel E) 0 s))"

section \<open>Transactions\<close>

datatype operationType = read_op | update_op | insert_op | scan_op | readModifyWrite_op

text \<open>The constants 1 to 5; every other value takes the \<open>default\<close> branch of the switch, as 5 does.\<close>

definition operation_of :: "int \<Rightarrow> operationType" where
  "operation_of n = (if n = 1 then read_op else if n = 2 then update_op else if n = 3 then insert_op
                     else if n = 4 then scan_op else readModifyWrite_op)"

fun exponential_loop :: "wenv \<Rightarrow> nat \<Rightarrow> 'd wstate \<Rightarrow> (int \<times> 'd wstate) go" where
  "exponential_loop E 0 s = Hang"
| "exponential_loop E (Suc fuel) s =
     gbind (next_keyChooser E s) (\<lambda>(v, s1).
       let keyNum = i64 (Ack_Last (c_transactionInsertKeySequence (w_core s)) - v)
       in if keyNum < 0 then exponential_loop E fuel s1 else Ret (keyNum, s1))"

definition nextKeyNum :: "wenv \<Rightarrow> 'd wstate \<Rightarrow> (int \<times> 'd wstate) go" where
  "nextKeyNum E s =
     (case c_keyChooser (w_core s) of
        GExponential e \<Rightarrow> exponential_loop E (e_fuel E) s
      | _ \<Rightarrow> next_keyChooser E s)"

text \<open>A key of -1 stands for one that has not been drawn yet.\<close>

definition resolve_key :: "wenv \<Rightarrow> int \<Rightarrow> 'd wstate \<Rightarrow> (int \<times> 'd wstate) go" where
  "resolve_key E keyNum = (if keyNum = - 1 then nextKeyNum E else aret keyNum)"

definition choose_fields :: "wenv \<Rightarrow> 'd wstate \<Rightarrow> (string list \<times> 'd wstate) go" where
  "choose_fields E s =
     (if \<not> c_readAllFields (w_core s) then abind (pick_fieldName E) (\<lambda>f. aret [f]) s
      else Ret (w_fieldNames s, s))"

definition build_update :: "wenv \<Rightarrow> string \<Rightarrow> 'd wstate \<Rightarrow> (row \<times> 'd wstate) go" where
  "build_update E keyName s =
     (if c_writeAllFields (w_core s) then buildValues E keyName s else buildSingleValue E keyName s)"

definition key_name :: "int \<Rightarrow> 'd wstate \<Rightarrow> (string \<times> 'd wstate) go" where
  "key_name keyNum s = Ret (buildKeyName (w_core s) keyNum, s)"

definition doTransactionRead :: "wenv \<Rightarrow> 'd db \<Rightarrow> int \<Rightarrow> 'd wstate \<Rightarrow> (error option \<times> 'd wstate) go" where
  "doTransactionRead E db keyNum =
     abind (resolve_key E keyNum) (\<lambda>keyNum.
     abind (key_name keyNum) (\<lambda>keyName.
     abind (choose_fields E) (\<lambda>fnames s.
     abind (run_db (\<lambda>d. db_Read db d (c_table (w_core s)) keyName fnames)) (\<lambda>res s. case res of
         Inl err \<Rightarrow> Ret (Some err, s)
       | Inr values \<Rightarrow>
           if c_dataIntegrity (w_core s) then abind (verifyRow E keyName values) (\<lambda>_. aret None) s
           else Ret (None, s)) s)))"

definition measured :: "string \<Rightarrow> 'd wstate \<Rightarrow> 'd wstate" where
  "measured op s = s\<lparr>w_measured := w_measured s @ [op]\<rparr>"

definition doTransactionReadModifyWrite :: "wenv \<Rightarrow> 'd db \<Rightarrow> int \<Rightarrow> 'd wstate \<Rightarrow> (error option \<times> 'd wstate) go" where
  "doTransactionReadModifyWrite E db keyNum =
     abind (abind (resolve_key E keyNum) (\<lambda>keyNum.
     abind (key_name keyNum) (\<lambda>keyName.
     abind (choose_fields E) (\<lambda>fnames.
     abind (build_update E keyName) (\<lambda>values s.
     abind (run_db (\<lambda>d. db_Read db d (c_table (w_core s)) keyName fnames)) (\<lambda>res s. case res of
         Inl err \<Rightarrow> Ret (Some err, s)
       | Inr readValues \<Rightarrow>
           abind (run_db (\<lambda>d. db_Update db d (c_table (w_core s)) keyName values)) (\<lambda>err s.
             if err \<noteq> None then Ret (err, s)
             else if c_dataIntegrity (w_core s) then abind (verifyRow E keyName readValues) (\<lambda>_. aret None) s
             else Ret (None, s)) s) s)))))
       (\<lambda>err s. Ret (err, measured ''READ_MODIFY_WRITE'' s))"

definition next_insertKey :: "'d wstate \<Rightarrow> (int \<times> 'd wstate) go" where
  "next_insertKey s =
     gbind (Ack_Next (c_transactionInsertKeySequence (w_core s)) (w_rand s)) (\<lambda>(v, a, r).
       Ret (v, s\<lparr>w_core := (w_core s)\<lparr>c_transactionInsertKeySequence := a\<rparr>, w_rand := r\<rparr>))"

definition acknowledge_key :: "int \<Rightarrow> 'd wstate \<Rightarrow> (unit \<times> 'd wstate) go" where
  "acknowledge_key keyNum s =
     gbind (Acknowledge (c_transactionInsertKeySequence (w_core s)) keyNum) (\<lambda>a.
       Ret ((), s\<lparr>w_core := (w_core s)\<lparr>c_transactionInsertKeySequence := a\<rparr>\<rparr>))"

text \<open>The deferred \<open>Acknowledge\<close> runs after the insert, whether it returned an error or not.\<close>

definition doTransactionInsert :: "wenv \<Rightarrow> 'd db \<Rightarrow> 'd wstate \<Rightarrow> (error option \<times> 'd wstate) go" where
  "doTransactionInsert E db =
     abind next_insertKey (\<lambda>keyNum.
     abind (key_name keyNum) (\<lambda>dbKey.
     abind (buildValues E dbKey) (\<lambda>values s.
     abind (run_db (\<lambda>d. db_Insert db d (c_table (w_core s)) dbKey values)) (\<lambda>err.
     abind (acknowledge_key keyNum) (\<lambda>_. aret err)) s)))"

definition doTransactionScan :: "wenv \<Rightarrow> 'd db \<Rightarrow> int \<Rightarrow> 'd wstate \<Rightarrow> (error option \<times> 'd wstate) go" where
  "doTransactionScan E db keyNum =
     abind (resolve_key E keyNum) (\<lambda>keyNum.
     abind (key_name keyNum) (\<lambda>startKeyName.
     abind (next_scanLength E) (\<lambda>scanLen.
     abind (choose_fields E) (\<lambda>fnames s.
     abind (run_db (\<lambda>d. db_Scan db d (c_table (w_core s)) startKeyName scanLen fnames)) (\<lambda>res.
       aret (case res of Inl err \<Rightarrow> Some err | Inr _ \<Rightarrow> None)) s))))"

definition doTransactionUpdate :: "wenv \<Rightarrow> 'd db \<Rightarrow> int \<Rightarrow> 'd wstate \<Rightarrow> (error option \<times> 'd wstate) go" where
  "doTransactionUpdate E db keyNum =
     abind (resolve_key E keyNum) (\<lambda>keyNum.
     abind (key_name keyNum) (\<lambda>keyName.
     abind (build_update E keyName) (\<lambda>values s.
       run_db (\<lambda>d. db_Update db d (c_table (w_core s)) keyName values) s)))"

definition next_operation :: "'d wstate \<Rightarrow> (int \<times> 'd wstate) go" where
  "next_operation s =
     gbind (Discrete_Next (c_operationChooser (w_core s)) (w_rand s)) (\<lambda>(v, g, r).
       Ret (v, s\<lparr>w_core := (w_core s)\<lparr>c_operationChooser := g\<rparr>, w_rand := r\<rparr>))"

definition mixgraph_operation :: "int \<Rightarrow> 'd wstate \<Rightarrow> (int \<times> 'd wstate) go" where
  "mixgraph_operation keyNum s =
     (case c_keyChooser (w_core s) of
        GMixGraph mg \<Rightarrow>
          gbind (ChooseOperationForKey mg keyNum (w_rand s)) (\<lambda>(v, mg', r).
            Ret (v, s\<lparr>w_core := (w_core s)\<lparr>c_keyChooser := GMixGraph mg'\<rparr>, w_rand := r\<rparr>))
      | _ \<Rightarrow> Panic ''unreachable'')"

definition is_mixgraph :: "generator \<Rightarrow> bool" where
  "is_mixgraph g = (case g of GMixGraph _ \<Rightarrow> True | _ \<Rightarrow> False)"

text \<open>With the MixGraph generator the key is drawn first and decides the operation; otherwise the operation is.\<close>

definition choose_transaction :: "wenv \<Rightarrow> 'd wstate \<Rightarrow> ((int \<times> int) \<times> 'd wstate) go" where
  "choose_transaction E s =
     (if is_mixgraph (c_keyChooser (w_core s))
      then abind (nextKeyNum E) (\<lambda>keyNum. abind (mixgraph_operation keyNum) (\<lambda>op. aret (keyNum, op))) s
      else abind next_operation (\<lambda>op. aret (- 1, op)) s)"

definition DoTransaction :: "wenv \<Rightarrow> 'd db \<Rightarrow> 'd wstate \<Rightarrow> (error option \<times> 'd wstate) go" where
  "DoTransaction E db =
     abind (choose_transaction E) (\<lambda>(keyNum, operation).
       case operation_of operation of
         read_op \<Rightarrow> doTransactionRead E db keyNum
       | update_op \<Rightarrow> doTransactionUpdate E db keyNum
       | insert_op \<Rightarrow> doTransactionInsert E db
       | scan_op \<Rightarrow> doTransactionScan E db keyNum
       | readModifyWrite_op \<Rightarrow> doTransactionReadModifyWrite E db keyNum)"

section \<open>Batch transactions\<close>

text \<open>\<open>make\<close> of a slice of negative length panics.\<close>

definition make_len :: "int \<Rightarrow> nat go" where
  "make_len n = (if n < 0 then Panic ''makeslice: len out of range'' else Ret (nat n))"

fun batch_keys :: "wenv \<Rightarrow> nat \<Rightarrow> 'd wstate \<Rightarrow> (string list \<times> 'd wstate) go" where
  "batch_keys E 0 = aret []"
| "batch_keys E (Suc n) =
     abind (nextKeyNum E) (\<lambda>keyNum. abind (key_name keyNum) (\<lambda>k.
     abind (batch_keys E n) (\<lambda>ks. aret (k # ks))))"

definition doBatchTransactionRead :: "wenv \<Rightarrow> int \<Rightarrow> 'd batchdb \<Rightarrow> 'd wstate \<Rightarrow> (error option \<times> 'd wstate) go" where
  "doBatchTransactionRead E batchSize db =
     abind (choose_fields E) (\<lambda>fnames.
     abind (alift (make_len batchSize)) (\<lambda>n.
     abind (batch_keys E n) (\<lambda>keys s.
     abind (run_db (\<lambda>d. db_BatchRead db d (c_table (w_core s)) keys fnames)) (\<lambda>res.
       aret (case res of Inl err \<Rightarrow> Some err | Inr _ \<Rightarrow> None)) s)))"

text \<open>Every key of a batch is acknowledged while the batch is built, before it is inserted.\<close>

fun batch_inserts :: "wenv \<Rightarrow> nat \<Rightarrow> 'd wstate \<Rightarrow> ((string \<times> row) list \<times> 'd wstate) go" where
  "batch_inserts E 0 = aret []"
| "batch_inserts E (Suc n) =
     abind next_insertKey (\<lambda>keyNum. abind (key_name keyNum) (\<lambda>k.
     abind (build_update E k) (\<lambda>v. abind (acknowledge_key keyNum) (\<lambda>_.
     abind (batch_inserts E n) (\<lambda>kvs. aret ((k, v) # kvs))))))"

definition doBatchTransactionInsert :: "wenv \<Rightarrow> int \<Rightarrow> 'd batchdb \<Rightarrow> 'd wstate \<Rightarrow> (error option \<times> 'd wstate) go" where
  "doBatchTransactionInsert E batchSize db =
     abind (alift (make_len batchSize)) (\<lambda>n.
     abind (batch_inserts E n) (\<lambda>kvs s.
       run_db (\<lambda>d. db_BatchInsert db d (c_table (w_core s)) (map fst kvs) (map snd kvs)) s))"

fun batch_updates :: "wenv \<Rightarrow> nat \<Rightarrow> 'd wstate \<Rightarrow> ((string \<times> row) list \<times> 'd wstate) go" where
  "batch_updates E 0 = aret []"
| "batch_updates E (Suc n) =
     abind (nextKeyNum E) (\<lambda>keyNum. abind (key_name keyNum) (\<lambda>k.
     abind (build_update E k) (\<lambda>v.
     abind (batch_updates E n) (\<lambda>kvs. aret ((k, v) # kvs)))))"

definition doBatchTransactionUpdate :: "wenv \<Rightarrow> int \<Rightarrow> 'd batchdb \<Rightarrow> 'd wstate \<Rightarrow> (error option \<times> 'd wstate) go" where
  "doBatchTransactionUpdate E batchSize db =
     abind (alift (make_len batchSize)) (\<lambda>n.
     abind (batch_updates E n) (\<lambda>kvs s.
       run_db (\<lambda>d. db_BatchUpdate db d (c_table (w_core s)) (map fst kvs) (map snd kvs)) s))"

definition DoBatchTransaction :: "wenv \<Rightarrow> int \<Rightarrow> 'd db \<Rightarrow> 'd wstate \<Rightarrow> (error option \<times> 'd wstate) go" where
  "DoBatchTransaction E batchSize db =
     (case db_Batch db of
        None \<Rightarrow> aret (Some (no_batch db))
      | Some batchDB \<Rightarrow>
          abind next_operation (\<lambda>operation. case operation_of operation of
              read_op \<Rightarrow> doBatchTransactionRead E batchSize batchDB
            | insert_op \<Rightarrow> doBatchTransactionInsert E batchSize batchDB
            | update_op \<Rightarrow> doBatchTransactionUpdate E batchSize batchDB
            | scan_op \<Rightarrow> (\<lambda>s. Panic ''The batch mode don't support the scan operation'')
            | readModifyWrite_op \<Rightarrow> aret None))"

section \<open>Creation\<close>

definition getFieldLengthGenerator :: "wenv \<Rightarrow> props \<Rightarrow> generator go" where
  "getFieldLengthGenerator E p =
     (let fieldLengthDistribution = GetString p prop_FieldLengthDistribution prop_FieldLengthDistributionDefault;
          fieldLength = GetInt64 p prop_FieldLength prop_FieldLengthDefault;
          fieldLengthHistogram = GetString p prop_FieldLengthHistogramFile prop_FieldLengthHistogramFileDefault;
          dist = to_lower fieldLengthDistribution in
      if dist = ''constant'' then Ret (GConstant (NewConstant fieldLength))
      else if dist = ''uniform'' then Ret (GUniform (NewUniform 1 fieldLength))
      else if dist = ''zipfian'' then
        gbind (NewZipfianWithRange (e_math E) (e_seed E 0) 1 fieldLength ZipfianConstant) (\<lambda>z. Ret (GZipfian z))
      else if dist = ''histogram'' then
        gbind (NewHistogramFromFile (e_readFile E) fieldLengthHistogram) (\<lambda>h. Ret (GHistogram h))
      else Exit (''unknown field length distribution '' @ fieldLengthDistribution))"

definition add_positive :: "float64 \<Rightarrow> int \<Rightarrow> discrete \<Rightarrow> discrete" where
  "add_positive w op d = (if flt (Fin 0) w then Discrete_Add d w op else d)"

definition createOperationGenerator :: "props \<Rightarrow> discrete" where
  "createOperationGenerator p =
     (let readProportion = GetFloat64 p prop_ReadProportion prop_ReadProportionDefault;
          updateProportion = GetFloat64 p prop_UpdateProportion prop_UpdateProportionDefault;
          insertProportion = GetFloat64 p prop_InsertProportion prop_InsertProportionDefault;
          scanProportion = GetFloat64 p prop_ScanProportion prop_ScanProportionDefault;
          readModifyWriteProportion = GetFloat64 p prop_ReadModifyWriteProportion prop_ReadModifyWriteProportionDefault
      in add_positive readModifyWriteProportion 5 (add_positive scanProportion 4
           (add_positive insertProportion 3 (add_positive updateProportion 2
             (add_positive readProportion 1 NewDiscrete)))))"

text \<open>The key chooser, and the field length generator that the MixGraph distribution may replace.\<close>

definition create_keyChooser :: "wenv \<Rightarrow> props \<Rightarrow> int \<Rightarrow> int \<Rightarrow> int \<Rightarrow> generator \<Rightarrow> (generator \<times> generator) go" where
  "create_keyChooser E p recordCount insertStart insertCount fieldLengthGenerator =
     (let requestDistrib = GetString p prop_RequestDistribution prop_RequestDistributionDefault;
          lb = insertStart; ub = i64 (i64 (insertStart + insertCount) - 1);
          keep = (\<lambda>g. Ret (g, fieldLengthGenerator)) in
      if requestDistrib = ''uniform'' then keep (GUniform (NewUniform lb ub))
      else if requestDistrib = ''sequential'' then keep (GSequential (NewSequential lb ub))
      else if requestDistrib = ''zipfian'' then
        let insertProportion = GetFloat64 p prop_InsertProportion prop_InsertProportionDefault;
            opCount = GetInt64 p prop_OperationCount 0;
            expectedNewKeys = to_int64 (fmul (fmul (of_int64 opCount) insertProportion) (Fin 2));
            ub = i64 (i64 (insertStart + insertCount) + expectedNewKeys)
        in gbind (NewScrambledZipfian (e_math E) (e_seed E 1) lb ub ZipfianConstant) (\<lambda>g. keep (GScrambled g))
      else if requestDistrib = ''latest'' then
        gbind (NewSkewedLatest (e_math E) (e_seed E 1) (e_seed E 2) (Ack_Last (NewAcknowledgedCounter recordCount)))
          (\<lambda>g. keep (GSkewedLatest g))
      else if requestDistrib = ''hotspot'' then
        keep (GHotspot (NewHotspot lb ub (GetFloat64 p prop_HotspotDataFraction prop_HotspotDataFractionDefault)
                          (GetFloat64 p prop_HotspotOpnFraction prop_HotspotOpnFractionDefault)))
      else if requestDistrib = ''exponential'' then
        keep (GExponential (NewExponential (e_math E)
                (GetFloat64 p prop_ExponentialPercentile prop_ExponentialPercentileDefault)
                (fmul (of_int64 recordCount) (GetFloat64 p prop_ExponentialFrac prop_ExponentialFracDefault))))
      else if requestDistrib = ''mixgraph'' then
        let numRegions = go_div recordCount 100000;
            numRegions = (if numRegions < 10 then 10 else numRegions) in
        gbind (NewPrefixMixGraphGenerator (e_math E) (e_source E) recordCount numRegions
                 (GetFloat64 p prop_MixGraphExpA prop_MixGraphExpADefault)
                 (GetFloat64 p prop_MixGraphExpB prop_MixGraphExpBDefault)
                 (GetFloat64 p prop_MixGraphExpC prop_MixGraphExpCDefault)
                 (GetFloat64 p prop_MixGraphExpD prop_MixGraphExpDDefault)
                 (GetFloat64 p prop_MixGraphKeyDistA prop_MixGraphKeyDistADefault)
                 (GetFloat64 p prop_MixGraphKeyDistB prop_MixGraphKeyDistBDefault)) (\<lambda>mg.
          Ret (GMixGraph mg,
               if GetBool p ''mixgraph.gpd_value'' False
               then GGPD (NewGPDGenerator (GetFloat64 p ''mixgraph.value_k'' (fl 0.2615))
                            (GetFloat64 p ''mixgraph.value_sigma'' (fl 25.45)) (GetFloat64 p ''mixgraph.value_mu'' (Fin 0)))
               else fieldLengthGenerator))
      else Exit (''unknown request distribution '' @ requestDistrib))"

definition create_scanLength :: "wenv \<Rightarrow> props \<Rightarrow> generator go" where
  "create_scanLength E p =
     (let minScanLength = GetInt64 p prop_MinScanLength prop_MinScanLengthDefault;
          maxScanLength = GetInt64 p prop_MaxScanLength prop_MaxScanLengthDefault;
          scanLengthDistrib = GetString p prop_ScanLengthDistribution prop_ScanLengthDistributionDefault in
      if scanLengthDistrib = ''uniform'' then Ret (GUniform (NewUniform minScanLength maxScanLength))
      else if scanLengthDistrib = ''zipfian'' then
        gbind (NewZipfianWithRange (e_math E) (e_seed E 3) minScanLength maxScanLength ZipfianConstant) (\<lambda>z. Ret (GZipfian z))
      else Exit (''distribution '' @ scanLengthDistrib @ '' not allowed for scan length''))"

definition cfg_recordCount :: "props \<Rightarrow> int" where
  "cfg_recordCount p =
     (let recordCount = GetInt64 p prop_RecordCount prop_RecordCountDefault
      in if recordCount = 0 then 2147483647 else recordCount)"

definition cfg_insertStart :: "props \<Rightarrow> int" where
  "cfg_insertStart p = GetInt64 p prop_InsertStart prop_InsertStartDefault"

definition cfg_insertCount :: "props \<Rightarrow> int" where
  "cfg_insertCount p = GetInt64 p prop_InsertCount (i64 (cfg_recordCount p - cfg_insertStart p))"

definition coreCreator_Create :: "wenv \<Rightarrow> props \<Rightarrow> core go" where
  "coreCreator_Create E p =
     (let fieldCount = GetInt64 p prop_FieldCount prop_FieldCountDefault in
      gbind (make_len fieldCount) (\<lambda>n.
      gbind (getFieldLengthGenerator E p) (\<lambda>fieldLengthGenerator.
        let recordCount = cfg_recordCount p; insertStart = cfg_insertStart p; insertCount = cfg_insertCount p in
        if recordCount < i64 (insertStart + insertCount)
        then Exit (''record count '' @ itoa recordCount @ '' must be bigger than insert start '' @ itoa insertStart
                   @ '' + count '' @ itoa insertCount)
        else
          let dataIntegrity = GetBool p prop_DataIntegrity prop_DataIntegrityDefault;
              fieldLengthDistribution = GetString p prop_FieldLengthDistribution prop_FieldLengthDistributionDefault in
          if dataIntegrity \<and> fieldLengthDistribution \<noteq> ''constant''
          then Exit ''must have constant field size to check data integrity''
          else
            gbind (create_keyChooser E p recordCount insertStart insertCount fieldLengthGenerator) (\<lambda>(keyChooser, fieldLengthGenerator).
            gbind (create_scanLength E p) (\<lambda>scanLength.
              Ret \<lparr>c_p = p, c_table = GetString p prop_TableName prop_TableNameDefault, c_fieldCount = fieldCount,
                   c_fieldNames = map (\<lambda>i. field_name (int i)) [0..<n],
                   c_fieldLengthGenerator = fieldLengthGenerator,
                   c_readAllFields = GetBool p prop_ReadAllFields prop_ReadALlFieldsDefault,
                   c_writeAllFields = GetBool p prop_WriteAllFields prop_WriteAllFieldsDefault,
                   c_dataIntegrity = dataIntegrity,
                   c_keySequence = GCounter (NewCounter insertStart),
                   c_operationChooser = createOperationGenerator p,
                   c_keyChooser = keyChooser,
                   c_fieldChooser = GUniform (NewUniform 0 (i64 (fieldCount - 1))),
                   c_transactionInsertKeySequence = NewAcknowledgedCounter recordCount,
                   c_scanLength = scanLength,
                   c_orderedInserts = (GetString p prop_InsertOrder prop_InsertOrderDefault \<noteq> ''hashed''),
                   c_recordCount = recordCount,
                   c_zeroPadding = GetInt64 p prop_ZeroPadding prop_ZeroPaddingDefault,
                   c_insertionRetryLimit = GetInt64 p prop_InsertionRetryLimit prop_InsertionRetryLimitDefault,
                   c_insertionRetryInterval = GetInt64 p prop_InsertionRetryInterval prop_InsertionRetryIntervalDefault\<rparr>)))))"

definition core_InitThread :: "core \<Rightarrow> rand \<Rightarrow> 'd \<Rightarrow> 'd wstate" where
  "core_InitThread c seed d =
     \<lparr>w_core = c, w_rand = seed, w_fieldNames = c_fieldNames c, w_db = d, w_measured = []\<rparr>"

end
