(* ===== verification/Measurement.thy ===== *)
theory Measurement
  imports Props GoStrings KVSpec "HOL-Library.List_Lexorder" "HOL-Library.Char_ord"
begin

text \<open>
  Package \<^verbatim>\<open>pkg/measurement\<close> and the rendering of its tables in \<^verbatim>\<open>pkg/util/output.go\<close>: the raw (CSV) measurer, the
  histogram measurer, and the global measurement with its warm-up gate. Instants are nanoseconds since the
  Unix epoch, durations are nanoseconds. The HdrHistogram library, the table writer and the files are parameters.
  A writer is a state with a write operation that may report an error. The global measurement is changed under
  its lock, so the model has \<open>Measure\<close> as one step.
\<close>

section \<open>Text output\<close>

text \<open>Where output goes: \<open>os.Stdout\<close>, files that are created, and buffered writing with \<open>bufio\<close>.\<close>

record 'w outenv =
  o_stdout :: 'w
  o_create :: "string \<Rightarrow> error + 'w"
  o_write :: "'w \<Rightarrow> string \<Rightarrow> error option \<times> 'w"
  o_flush :: "'w \<Rightarrow> error option \<times> 'w"
  o_table :: "string list \<Rightarrow> string list list \<Rightarrow> string"

definition newline :: string where
  "newline = [CHR 0x0A]"

definition IntToString :: "int \<Rightarrow> string" where
  "IntToString i = itoa i"

text \<open>\<open>%.1f\<close>: the exact value rounded to one decimal, ties to even.\<close>

fun FloatToOneString :: "float64 \<Rightarrow> string" where
  "FloatToOneString (Fin x) =
     (let n = nat (round_even (10 * \<bar>x\<bar>))
      in (if x < 0 then ''-'' else []) @ digits (n div 10) @ ''.'' @ digits (n mod 10))"
| "FloatToOneString PosInf = ''+Inf''"
| "FloatToOneString NegInf = ''-Inf''"
| "FloatToOneString NaN = ''NaN''"

text \<open>Mapping a call over a slice, left to right.\<close>

fun gmap :: "('a \<Rightarrow> 'b go) \<Rightarrow> 'a list \<Rightarrow> 'b list go" where
  "gmap f [] = Ret []"
| "gmap f (x # xs) = gbind (f x) (\<lambda>y. gbind (gmap f xs) (\<lambda>ys. Ret (y # ys)))"

text \<open>
  \<open>RenderString\<close> with the format \<open>%-6s - %s\<close> and a newline, the only one in use: the text it prints, which is
  nothing for an empty table.
\<close>

definition pad6 :: "string \<Rightarrow> string" where
  "pad6 s = s @ replicate (6 - length s) (CHR '' '')"

definition render_line :: "string list \<Rightarrow> string list \<Rightarrow> string go" where
  "render_line headers vs =
     gbind (slice_from headers 1) (\<lambda>hs.
     gbind (gmap (\<lambda>(i, h). gbind (go_index vs (int i + 1)) (\<lambda>v. Ret (h @ '': '' @ v))) (enumerate 0 hs)) (\<lambda>args.
     gbind (go_index vs 0) (\<lambda>v0. Ret (pad6 v0 @ '' - '' @ join_with '', '' args @ newline))))"

definition RenderString :: "string list \<Rightarrow> string list list \<Rightarrow> string go" where
  "RenderString headers lines =
     (if lines = [] then Ret [] else gbind (gmap (render_line headers) lines) (\<lambda>ls. Ret (concat ls)))"

definition RenderTable :: "'w outenv \<Rightarrow> string list \<Rightarrow> string list list \<Rightarrow> string" where
  "RenderTable W headers lines = (if lines = [] then [] else o_table W headers lines)"

text \<open>\<open>json.Marshal\<close> of a list of string maps over ASCII text: keys sorted, HTML characters escaped.\<close>

definition hex_digit :: "nat \<Rightarrow> char" where
  "hex_digit n = ''0123456789abcdef'' ! n"

definition json_char :: "char \<Rightarrow> string" where
  "json_char c =
     (let n = of_char c :: nat in
      if n = 34 \<or> n = 92 then [CHR 0x5C, c]
      else if n = 10 then [CHR 0x5C, CHR ''n''] else if n = 13 then [CHR 0x5C, CHR ''r'']
      else if n = 9 then [CHR 0x5C, CHR ''t'']
      else if n < 32 \<or> n = 60 \<or> n = 62 \<or> n = 38
        then [CHR 0x5C, CHR ''u'', CHR ''0'', CHR ''0'', hex_digit (n div 16), hex_digit (n mod 16)]
      else [c])"

definition json_string :: "string \<Rightarrow> string" where
  "json_string s = [CHR 0x22] @ concat (map json_char s) @ [CHR 0x22]"

definition json_map :: "string smap \<Rightarrow> string" where
  "json_map m = ''{'' @ join_with '','' (map (\<lambda>(k, v). json_string k @ '':'' @ json_string v) (sort_key fst m)) @ ''}''"

definition json_line :: "string list \<Rightarrow> string list \<Rightarrow> string smap go" where
  "json_line headers vs =
     gbind (gmap (\<lambda>(i, h). gbind (go_index vs (int i)) (\<lambda>v. Ret (h, v))) (enumerate 0 headers)) (\<lambda>kvs.
       Ret (fold (\<lambda>(h, v) m. AList.update h v m) kvs []))"

definition RenderJson :: "string list \<Rightarrow> string list list \<Rightarrow> string go" where
  "RenderJson headers lines =
     (if lines = [] then Ret []
      else gbind (gmap (json_line headers) lines) (\<lambda>data.
        Ret (''['' @ join_with '','' (map json_map data) @ '']'' @ newline)))"

section \<open>Raw measurements\<close>

record csventry =
  startUs :: int
  latencyUs :: int

type_synonym csvs = "csventry list smap"

definition InitCSV :: csvs where
  "InitCSV = []"

text \<open>\<open>UnixMicro\<close> rounds down, \<open>Microseconds\<close> towards zero.\<close>

definition csventry_of :: "int \<Rightarrow> int \<Rightarrow> csventry" where
  "csventry_of start lan = \<lparr>startUs = start div 1000, latencyUs = go_div lan 1000\<rparr>"

definition csv_entries :: "csvs \<Rightarrow> string \<Rightarrow> csventry list" where
  "csv_entries c op = (case map_of c op of Some es \<Rightarrow> es | None \<Rightarrow> [])"

definition csvs_Measure :: "csvs \<Rightarrow> string \<Rightarrow> int \<Rightarrow> int \<Rightarrow> csvs" where
  "csvs_Measure c op start lan = AList.update op (csv_entries c op @ [csventry_of start lan]) c"

definition csv_header :: string where
  "csv_header = ''operation,timestamp_us,latency_us'' @ newline"

definition csv_line :: "string \<Rightarrow> csventry \<Rightarrow> string" where
  "csv_line op e = op @ '','' @ itoa (startUs e) @ '','' @ itoa (latencyUs e) @ newline"

text \<open>The association list is in the order in which the map is ranged over.\<close>

definition csv_lines :: "csvs \<Rightarrow> string list" where
  "csv_lines c = csv_header # concat (map (\<lambda>(op, es). map (csv_line op) es) c)"

fun write_all :: "'w outenv \<Rightarrow> 'w \<Rightarrow> string list \<Rightarrow> error option \<times> 'w" where
  "write_all W w [] = (None, w)"
| "write_all W w (l # ls) = (case o_write W w l of (Some e, w') \<Rightarrow> (Some e, w') | (None, w') \<Rightarrow> write_all W w' ls)"

definition csvs_Output :: "'w outenv \<Rightarrow> csvs \<Rightarrow> 'w \<Rightarrow> error option \<times> 'w" where
  "csvs_Output W c w = write_all W w (csv_lines c)"

section \<open>Histograms\<close>

text \<open>The operations of HdrHistogram that the code calls. \<open>PercentilesPrint\<close> writes the pieces it is given by \<open>hdr_Percentiles\<close>.\<close>

record 'h hdr =
  hdr_New :: "int \<Rightarrow> int \<Rightarrow> int \<Rightarrow> 'h"
  hdr_RecordValue :: "'h \<Rightarrow> int \<Rightarrow> error option \<times> 'h"
  hdr_Min :: "'h \<Rightarrow> int"
  hdr_Max :: "'h \<Rightarrow> int"
  hdr_Mean :: "'h \<Rightarrow> float64"
  hdr_TotalCount :: "'h \<Rightarrow> int"
  hdr_ValueAtPercentile :: "'h \<Rightarrow> float64 \<Rightarrow> int"
  hdr_Percentiles :: "'h \<Rightarrow> int \<Rightarrow> float64 \<Rightarrow> string list"

text \<open>
  \<open>boundCounts\<close> stays the zero \<open>ConcurrentMap\<close>, whose \<open>Keys\<close> is empty, and what \<open>getInfo\<close> computes from it is not used;
  the record leaves it out.
\<close>

record 'h histogram =
  hg_startTime :: int
  hg_hist :: 'h

definition newHistogram :: "'h hdr \<Rightarrow> int \<Rightarrow> 'h histogram" where
  "newHistogram H now = \<lparr>hg_startTime = now, hg_hist = hdr_New H 1 (24 * 60 * 60 * 1000 * 1000) 3\<rparr>"

text \<open>The error of \<open>RecordValue\<close> is dropped.\<close>

definition histogram_Measure :: "'h hdr \<Rightarrow> 'h histogram \<Rightarrow> int \<Rightarrow> 'h histogram" where
  "histogram_Measure H h latency = h\<lparr>hg_hist := snd (hdr_RecordValue H (hg_hist h) (go_div latency 1000))\<rparr>"

text \<open>The map that \<open>getInfo\<close> fills, as a record.\<close>

record hist_info =
  i_ELAPSED :: float64
  i_COUNT :: int
  i_QPS :: float64
  i_AVG :: int
  i_MIN :: int
  i_MAX :: int
  i_PER50TH :: int
  i_PER90TH :: int
  i_PER95TH :: int
  i_PER99TH :: int
  i_PER999TH :: int
  i_PER9999TH :: int

text \<open>\<open>Duration.Seconds\<close>.\<close>

definition duration_Seconds :: "int \<Rightarrow> float64" where
  "duration_Seconds d = fadd (of_int64 (go_div d 1000000000)) (fdiv (of_int64 (go_mod d 1000000000)) (Fin 1000000000))"

definition getInfo :: "'h hdr \<Rightarrow> 'h histogram \<Rightarrow> int \<Rightarrow> hist_info" where
  "getInfo H h now =
     (let x = hg_hist h; cnt = hdr_TotalCount H x; elapsed = duration_Seconds (now - hg_startTime h) in
      \<lparr>i_ELAPSED = elapsed, i_COUNT = cnt, i_QPS = fdiv (of_int64 cnt) elapsed, i_AVG = to_int64 (hdr_Mean H x),
       i_MIN = hdr_Min H x, i_MAX = hdr_Max H x,
       i_PER50TH = hdr_ValueAtPercentile H x (Fin 50), i_PER90TH = hdr_ValueAtPercentile H x (Fin 90),
       i_PER95TH = hdr_ValueAtPercentile H x (Fin 95), i_PER99TH = hdr_ValueAtPercentile H x (Fin 99),
       i_PER999TH = hdr_ValueAtPercentile H x (fl 99.9), i_PER9999TH = hdr_ValueAtPercentile H x (fl 99.99)\<rparr>)"

definition histogram_Summary :: "'h hdr \<Rightarrow> 'h histogram \<Rightarrow> int \<Rightarrow> string list" where
  "histogram_Summary H h now =
     (let res = getInfo H h now in
      [FloatToOneString (i_ELAPSED res), IntToString (i_COUNT res), FloatToOneString (i_QPS res), IntToString (i_AVG res),
       IntToString (i_MIN res), IntToString (i_MAX res), IntToString (i_PER50TH res), IntToString (i_PER90TH res),
       IntToString (i_PER95TH res), IntToString (i_PER99TH res), IntToString (i_PER999TH res), IntToString (i_PER9999TH res)])"

record 'h histograms =
  hs_p :: props
  hs_histograms :: "'h histogram smap"

definition InitHistograms :: "props \<Rightarrow> 'h histograms" where
  "InitHistograms p = \<lparr>hs_p = p, hs_histograms = []\<rparr>"

text \<open>\<open>now\<close> is the time at which a new histogram is started.\<close>

definition histograms_Measure :: "'h hdr \<Rightarrow> int \<Rightarrow> 'h histograms \<Rightarrow> string \<Rightarrow> int \<Rightarrow> 'h histograms" where
  "histograms_Measure H now hs op lan =
     (let opM = (case map_of (hs_histograms hs) op of Some h \<Rightarrow> h | None \<Rightarrow> newHistogram H now)
      in hs\<lparr>hs_histograms := AList.update op (histogram_Measure H opM lan) (hs_histograms hs)\<rparr>)"

text \<open>\<open>summary\<close>; the \<open>i\<close>-th histogram of the map is read at time \<open>now i\<close>.\<close>

definition histograms_summary :: "'h hdr \<Rightarrow> (nat \<Rightarrow> int) \<Rightarrow> 'h histograms \<Rightarrow> string list smap" where
  "histograms_summary H now hs =
     map (\<lambda>(i, op, h). (op, histogram_Summary H h (now i))) (enumerate 0 (hs_histograms hs))"

definition measurement_header :: "string list" where
  "measurement_header = [''Operation'', ''Takes(s)'', ''Count'', ''OPS'', ''Avg(us)'', ''Min(us)'', ''Max(us)'', ''50th(us)'',
     ''90th(us)'', ''95th(us)'', ''99th(us)'', ''99.9th(us)'', ''99.99th(us)'']"

definition summary_lines :: "string list smap \<Rightarrow> string list list" where
  "summary_lines summaries =
     map (\<lambda>op. op # (case map_of summaries op of Some l \<Rightarrow> l | None \<Rightarrow> [])) (sort (map fst summaries))"

text \<open>Errors of the writer are dropped by the rendering functions.\<close>

definition histograms_Output :: "'w outenv \<Rightarrow> 'h hdr \<Rightarrow> (nat \<Rightarrow> int) \<Rightarrow> 'h histograms \<Rightarrow> 'w \<Rightarrow> (error option \<times> 'w) go" where
  "histograms_Output W H now hs w =
     (let lines = summary_lines (histograms_summary H now hs);
          outputStyle = GetString (hs_p hs) prop_OutputStyle ''plain'';
          emit = (\<lambda>t. Ret (None, if lines = [] then w else snd (o_write W w t))) in
      if outputStyle = ''plain'' then gbind (RenderString measurement_header lines) emit
      else if outputStyle = ''json'' then gbind (RenderJson measurement_header lines) emit
      else if outputStyle = ''table'' then emit (RenderTable W measurement_header lines)
      else Panic (''unsupported outputstyle: '' @ outputStyle))"

text \<open>The files written by \<open>GenerateExtendedOutputs\<close>; the error of \<open>Flush\<close> is dropped.\<close>

fun export_percentiles :: "'w outenv \<Rightarrow> 'h hdr \<Rightarrow> string \<Rightarrow> 'h histogram smap \<Rightarrow> (string \<times> 'w) list go" where
  "export_percentiles W H path [] = Ret []"
| "export_percentiles W H path ((op, opM) # hs) =
     (let outFile = path @ op @ ''-percentiles.txt'' in
      case o_create W outFile of
        Inl err \<Rightarrow> Panic (''failed to create percentile output file: '' @ err)
      | Inr f \<Rightarrow>
          let (err, w) = write_all W f (hdr_Percentiles H (hg_hist opM) 1 (Fin 1)); w = snd (o_flush W w) in
          case err of
            Some e \<Rightarrow> Panic (''failed to print percentiles: '' @ e)
          | None \<Rightarrow> gbind (export_percentiles W H path hs) (\<lambda>fs. Ret ((outFile, w) # fs)))"

definition histograms_GenerateExtendedOutputs :: "'w outenv \<Rightarrow> 'h hdr \<Rightarrow> 'h histograms \<Rightarrow> (string \<times> 'w) list go" where
  "histograms_GenerateExtendedOutputs W H hs =
     (if GetBool (hs_p hs) prop_MeasurementHistogramPercentileExport prop_MeasurementHistogramPercentileExportDefault
      then export_percentiles W H
             (GetString (hs_p hs) prop_MeasurementHistogramPercentileExportFilepath prop_MeasurementHistogramPercentileExportFilepathDefault)
             (hs_histograms hs)
      else Ret [])"

section \<open>The global measurement\<close>

datatype 'h measurer = MHistograms "'h histograms" | MCsv csvs

record 'h measurement =
  m_p :: props
  m_measurer :: "'h measurer"

text \<open>The two global variables; the pointer is nil before \<open>InitMeasure\<close>.\<close>

record 'h mstate =
  globalMeasure :: "'h measurement option"
  warmUp :: int

definition EnableWarmUp :: "bool \<Rightarrow> 'h mstate \<Rightarrow> 'h mstate" where
  "EnableWarmUp b m = m\<lparr>warmUp := if b then 1 else 0\<rparr>"

definition IsWarmUpFinished :: "'h mstate \<Rightarrow> bool" where
  "IsWarmUpFinished m \<longleftrightarrow> warmUp m = 0"

definition InitMeasure :: "props \<Rightarrow> 'h mstate \<Rightarrow> 'h mstate go" where
  "InitMeasure p m =
     (let measurementType = GetString p prop_MeasurementType prop_MeasurementTypeDefault;
          start = (\<lambda>x. Ret (EnableWarmUp (0 < GetInt64 p prop_WarmUpTime 0) (m\<lparr>globalMeasure := Some \<lparr>m_p = p, m_measurer = x\<rparr>\<rparr>))) in
      if measurementType = ''histogram'' then start (MHistograms (InitHistograms p))
      else if measurementType = ''raw'' \<or> measurementType = ''csv'' then start (MCsv InitCSV)
      else Panic (''unsupported measurement type: '' @ measurementType))"

fun measurer_Measure :: "'h hdr \<Rightarrow> int \<Rightarrow> 'h measurer \<Rightarrow> string \<Rightarrow> int \<Rightarrow> int \<Rightarrow> 'h measurer" where
  "measurer_Measure H now (MHistograms hs) op start lan = MHistograms (histograms_Measure H now hs op lan)"
| "measurer_Measure H now (MCsv c) op start lan = MCsv (csvs_Measure c op start lan)"

definition global_Measure :: "'h hdr \<Rightarrow> int \<Rightarrow> string \<Rightarrow> int \<Rightarrow> int \<Rightarrow> 'h mstate \<Rightarrow> 'h mstate go" where
  "global_Measure H now op start lan m =
     (if IsWarmUpFinished m then
        case globalMeasure m of
          None \<Rightarrow> Panic ''nil pointer dereference''
        | Some g \<Rightarrow> Ret (m\<lparr>globalMeasure := Some (g\<lparr>m_measurer := measurer_Measure H now (m_measurer g) op start lan\<rparr>)\<rparr>)
      else Ret m)"

fun measurer_Output :: "'w outenv \<Rightarrow> 'h hdr \<Rightarrow> (nat \<Rightarrow> int) \<Rightarrow> 'h measurer \<Rightarrow> 'w \<Rightarrow> (error option \<times> 'w) go" where
  "measurer_Output W H now (MHistograms hs) w = histograms_Output W H now hs w"
| "measurer_Output W H now (MCsv c) w = Ret (csvs_Output W c w)"

fun measurer_GenerateExtendedOutputs :: "'w outenv \<Rightarrow> 'h hdr \<Rightarrow> 'h measurer \<Rightarrow> (string \<times> 'w) list go" where
  "measurer_GenerateExtendedOutputs W H (MHistograms hs) = histograms_GenerateExtendedOutputs W H hs"
| "measurer_GenerateExtendedOutputs W H (MCsv c) = Ret []"

definition measurement_output :: "'w outenv \<Rightarrow> 'h hdr \<Rightarrow> (nat \<Rightarrow> int) \<Rightarrow> 'h measurement \<Rightarrow> 'w go" where
  "measurement_output W H now g =
     (let outFile = GetString (m_p g) prop_MeasurementRawOutputFile [];
          target = (if outFile = [] then Inr (o_stdout W) else o_create W outFile) in
      case target of
        Inl err \<Rightarrow> Panic (''failed to create output file: '' @ err)
      | Inr w \<Rightarrow>
          gbind (measurer_Output W H now (m_measurer g) w) (\<lambda>(err, w). case err of
              Some e \<Rightarrow> Panic (''failed to write output: '' @ e)
            | None \<Rightarrow> (case o_flush W w of
                (Some e, _) \<Rightarrow> Panic (''failed to flush output: '' @ e)
              | (None, w') \<Rightarrow> Ret w')))"

text \<open>\<open>Output\<close>: the percentile files, then the report.\<close>

definition global_Output :: "'w outenv \<Rightarrow> 'h hdr \<Rightarrow> (nat \<Rightarrow> int) \<Rightarrow> 'h mstate \<Rightarrow> ((string \<times> 'w) list \<times> 'w) go" where
  "global_Output W H now m =
     (case globalMeasure m of
        None \<Rightarrow> Panic ''nil pointer dereference''
      | Some g \<Rightarrow> gbind (measurer_GenerateExtendedOutputs W H (m_measurer g)) (\<lambda>fs.
                 gbind (measurement_output W H now g) (\<lambda>w. Ret (fs, w))))"

text \<open>\<open>Summary\<close>: histograms are printed to standard output, raw measurements have no summary.\<close>

definition global_Summary :: "'w outenv \<Rightarrow> 'h hdr \<Rightarrow> (nat \<Rightarrow> int) \<Rightarrow> 'h mstate \<Rightarrow> 'w go" where
  "global_Summary W H now m =
     (case globalMeasure m of
        None \<Rightarrow> Panic ''nil pointer dereference''
      | Some g \<Rightarrow> (case m_measurer g of
            MHistograms hs \<Rightarrow> gbind (histograms_Output W H now hs (o_stdout W)) (\<lambda>(_, w). Ret w)
          | MCsv c \<Rightarrow> Ret (o_stdout W)))"

end
