(* ===== verification/Client.thy ===== *)
theory Client
  imports Workload Measurement
begin

text \<open>
  Package \<^verbatim>\<open>pkg/client\<close>. \<open>DbWrapper\<close> of \<^verbatim>\<open>dbwrapper.go\<close> turns a database into one that measures every call. The worker of
  \<^verbatim>\<open>client.go\<close> is a record, its loop a function with fuel, and \<open>Client.Run\<close> a relation whose steps are those of
  the goroutines: start a worker, one round of its loop, end it, the end of the warm-up, cancellation, and the
  analysis after a load. A round of a worker is one step: the shared generators and the database serialise
  their own accesses, and the model does not split a round further.
\<close>

section \<open>Measuring a database\<close>

text \<open>
  The state of a wrapped database: the database, the global measurement, and the readings of the clock to come. A
  place in the code that may read the clock takes one reading.
\<close>

record ('d, 'h) wrapped =
  wr_db :: 'd
  wr_m :: "'h mstate"
  wr_clock :: "nat \<Rightarrow> int"

definition tick :: "('d, 'h) wrapped \<Rightarrow> int \<times> ('d, 'h) wrapped" where
  "tick s = (wr_clock s 0, s\<lparr>wr_clock := (\<lambda>i. wr_clock s (Suc i))\<rparr>)"

definition record_op :: "'h hdr \<Rightarrow> string \<Rightarrow> int \<Rightarrow> int \<Rightarrow> ('d, 'h) wrapped \<Rightarrow> ('d, 'h) wrapped go" where
  "record_op H op start lan s =
     (let (now, s) = tick s in gbind (global_Measure H now op start lan (wr_m s)) (\<lambda>m. Ret (s\<lparr>wr_m := m\<rparr>)))"

definition client_measure :: "'h hdr \<Rightarrow> int \<Rightarrow> string \<Rightarrow> error option \<Rightarrow> ('d, 'h) wrapped \<Rightarrow> ('d, 'h) wrapped go" where
  "client_measure H start op err s =
     (let (now, s) = tick s; lan = now - start in
      case err of
        Some _ \<Rightarrow> record_op H (op @ ''_ERROR'') start lan s
      | None \<Rightarrow> gbind (record_op H op start lan s) (record_op H ''TOTAL'' start lan))"

text \<open>The shape of every measured method: read the clock, call, and measure in the deferred function.\<close>

definition measured_call :: "'h hdr \<Rightarrow> string \<Rightarrow> ('a \<Rightarrow> error option) \<Rightarrow> ('d \<Rightarrow> ('a \<times> 'd) go) \<Rightarrow>
    ('d, 'h) wrapped \<Rightarrow> ('a \<times> ('d, 'h) wrapped) go" where
  "measured_call H op err_of call s =
     (let (start, s) = tick s in
      gbind (call (wr_db s)) (\<lambda>(r, d).
      gbind (client_measure H start op (err_of r) (s\<lparr>wr_db := d\<rparr>)) (\<lambda>s'. Ret (r, s'))))"

text \<open>A call that is passed on without measuring.\<close>

definition plain_call :: "('d \<Rightarrow> ('a \<times> 'd) go) \<Rightarrow> ('d, 'h) wrapped \<Rightarrow> ('a \<times> ('d, 'h) wrapped) go" where
  "plain_call call s = gbind (call (wr_db s)) (\<lambda>(r, d). Ret (r, s\<lparr>wr_db := d\<rparr>))"

definition sum_err :: "error + 'a \<Rightarrow> error option" where
  "sum_err r = (case r of Inl e \<Rightarrow> Some e | Inr _ \<Rightarrow> None)"

definition wrapper_Close :: "'d db \<Rightarrow> ('d, 'h) wrapped \<Rightarrow> (error option \<times> ('d, 'h) wrapped) go" where
  "wrapper_Close D = plain_call (db_Close D)"

definition wrapper_InitThread :: "'d db \<Rightarrow> ('d, 'h) wrapped \<Rightarrow> int \<Rightarrow> int \<Rightarrow> ('d, 'h) wrapped go" where
  "wrapper_InitThread D s threadID threadCount =
     gbind (db_InitThread D (wr_db s) threadID threadCount) (\<lambda>d. Ret (s\<lparr>wr_db := d\<rparr>))"

definition wrapper_CleanupThread :: "'d db \<Rightarrow> ('d, 'h) wrapped \<Rightarrow> ('d, 'h) wrapped go" where
  "wrapper_CleanupThread D s = gbind (db_CleanupThread D (wr_db s)) (\<lambda>d. Ret (s\<lparr>wr_db := d\<rparr>))"

definition wrapper_Read :: "'h hdr \<Rightarrow> 'd db \<Rightarrow> ('d, 'h) wrapped \<Rightarrow> string \<Rightarrow> string \<Rightarrow> string list \<Rightarrow>
    ((error + row) \<times> ('d, 'h) wrapped) go" where
  "wrapper_Read H D s t key fnames = measured_call H ''READ'' sum_err (\<lambda>d. db_Read D d t key fnames) s"

definition wrapper_Scan :: "'h hdr \<Rightarrow> 'd db \<Rightarrow> ('d, 'h) wrapped \<Rightarrow> string \<Rightarrow> string \<Rightarrow> int \<Rightarrow> string list \<Rightarrow>
    ((error + row option list) \<times> ('d, 'h) wrapped) go" where
  "wrapper_Scan H D s t startKey n fnames = measured_call H ''SCAN'' sum_err (\<lambda>d. db_Scan D d t startKey n fnames) s"

definition wrapper_Update :: "'h hdr \<Rightarrow> 'd db \<Rightarrow> ('d, 'h) wrapped \<Rightarrow> string \<Rightarrow> string \<Rightarrow> row \<Rightarrow> (error option \<times> ('d, 'h) wrapped) go" where
  "wrapper_Update H D s t key vs = measured_call H ''UPDATE'' id (\<lambda>d. db_Update D d t key vs) s"

definition wrapper_Insert :: "'h hdr \<Rightarrow> 'd db \<Rightarrow> ('d, 'h) wrapped \<Rightarrow> string \<Rightarrow> string \<Rightarrow> row \<Rightarrow> (error option \<times> ('d, 'h) wrapped) go" where
  "wrapper_Insert H D s t key vs = measured_call H ''INSERT'' id (\<lambda>d. db_Insert D d t key vs) s"

definition wrapper_Delete :: "'h hdr \<Rightarrow> 'd db \<Rightarrow> ('d, 'h) wrapped \<Rightarrow> string \<Rightarrow> string \<Rightarrow> (error option \<times> ('d, 'h) wrapped) go" where
  "wrapper_Delete H D s t key = measured_call H ''DELETE'' id (\<lambda>d. db_Delete D d t key) s"

text \<open>The loops for a database without batches stop at the first error; they are not measured.\<close>

fun each_key :: "('d \<Rightarrow> 'k \<Rightarrow> (error option \<times> 'd) go) \<Rightarrow> 'k list \<Rightarrow> 'd \<Rightarrow> (error option \<times> 'd) go" where
  "each_key f [] d = Ret (None, d)"
| "each_key f (k # ks) d = gbind (f d k) (\<lambda>(err, d). if err \<noteq> None then Ret (err, d) else each_key f ks d)"

text \<open>The \<open>i\<close>-th value for the \<open>i\<close>-th key; indexing past the end panics.\<close>

fun each_row :: "('d \<Rightarrow> string \<Rightarrow> row \<Rightarrow> (error option \<times> 'd) go) \<Rightarrow> string list \<Rightarrow> row list \<Rightarrow> 'd \<Rightarrow> (error option \<times> 'd) go" where
  "each_row f [] vs d = Ret (None, d)"
| "each_row f (k # ks) [] d = Panic ''index out of range''"
| "each_row f (k # ks) (v # vs) d = gbind (f d k v) (\<lambda>(err, d). if err \<noteq> None then Ret (err, d) else each_row f ks vs d)"

definition wrapper_BatchRead :: "'h hdr \<Rightarrow> 'd db \<Rightarrow> ('d, 'h) wrapped \<Rightarrow> string \<Rightarrow> string list \<Rightarrow> string list \<Rightarrow>
    ((error + row option list) \<times> ('d, 'h) wrapped) go" where
  "wrapper_BatchRead H D s t keys fnames =
     (case db_Batch D of
        Some batchDB \<Rightarrow> measured_call H ''BATCH_READ'' sum_err (\<lambda>d. db_BatchRead batchDB d t keys fnames) s
      | None \<Rightarrow> plain_call (\<lambda>d.
          gbind (each_key (\<lambda>d key. gbind (db_Read D d t key fnames) (\<lambda>(r, d). Ret (sum_err r, d))) keys d) (\<lambda>(err, d).
            Ret (case err of Some e \<Rightarrow> Inl e | None \<Rightarrow> Inr [], d))) s)"

definition wrapper_BatchUpdate :: "'h hdr \<Rightarrow> 'd db \<Rightarrow> ('d, 'h) wrapped \<Rightarrow> string \<Rightarrow> string list \<Rightarrow> row list \<Rightarrow>
    (error option \<times> ('d, 'h) wrapped) go" where
  "wrapper_BatchUpdate H D s t keys vs =
     (case db_Batch D of
        Some batchDB \<Rightarrow> measured_call H ''BATCH_UPDATE'' id (\<lambda>d. db_BatchUpdate batchDB d t keys vs) s
      | None \<Rightarrow> plain_call (each_row (\<lambda>d key v. db_Update D d t key v) keys vs) s)"

definition wrapper_BatchInsert :: "'h hdr \<Rightarrow> 'd db \<Rightarrow> ('d, 'h) wrapped \<Rightarrow> string \<Rightarrow> string list \<Rightarrow> row list \<Rightarrow>
    (error option \<times> ('d, 'h) wrapped) go" where
  "wrapper_BatchInsert H D s t keys vs =
     (case db_Batch D of
        Some batchDB \<Rightarrow> measured_call H ''BATCH_INSERT'' id (\<lambda>d. db_BatchInsert batchDB d t keys vs) s
      | None \<Rightarrow> plain_call (each_row (\<lambda>d key v. db_Insert D d t key v) keys vs) s)"

definition wrapper_BatchDelete :: "'h hdr \<Rightarrow> 'd db \<Rightarrow> ('d, 'h) wrapped \<Rightarrow> string \<Rightarrow> string list \<Rightarrow>
    (error option \<times> ('d, 'h) wrapped) go" where
  "wrapper_BatchDelete H D s t keys =
     (case db_Batch D of
        Some batchDB \<Rightarrow> measured_call H ''BATCH_DELETE'' id (\<lambda>d. db_BatchDelete batchDB d t keys) s
      | None \<Rightarrow> plain_call (each_key (\<lambda>d key. db_Delete D d t key) keys) s)"

definition wrapper_Analyze :: "'d db \<Rightarrow> ('d, 'h) wrapped \<Rightarrow> string \<Rightarrow> (error option \<times> ('d, 'h) wrapped) go" where
  "wrapper_Analyze D s t =
     (case db_Analyze D of Some analyze \<Rightarrow> plain_call (\<lambda>d. analyze d t) s | None \<Rightarrow> Ret (None, s))"

text \<open>The wrapper implements \<open>BatchDB\<close> and \<open>AnalyzeDB\<close> whatever it wraps.\<close>

definition DbWrapper :: "'h hdr \<Rightarrow> 'd db \<Rightarrow> ('d, 'h) wrapped db" where
  "DbWrapper H D =
     \<lparr>db_Close = wrapper_Close D, db_InitThread = wrapper_InitThread D, db_CleanupThread = wrapper_CleanupThread D,
      db_Read = wrapper_Read H D, db_Scan = wrapper_Scan H D, db_Update = wrapper_Update H D,
      db_Insert = wrapper_Insert H D, db_Delete = wrapper_Delete H D,
      db_Batch = Some \<lparr>db_BatchInsert = wrapper_BatchInsert H D, db_BatchRead = wrapper_BatchRead H D,
                       db_BatchUpdate = wrapper_BatchUpdate H D, db_BatchDelete = wrapper_BatchDelete H D\<rparr>,
      db_Analyze = Some (wrapper_Analyze D), db_TypeName = ''client.DbWrapper''\<rparr>"

section \<open>Workers\<close>

record worker =
  wk_p :: props
  wk_doTransactions :: bool
  wk_doBatch :: bool
  wk_batchSize :: int
  wk_opCount :: int
  wk_targetOpsPerMs :: float64
  wk_threadID :: int
  wk_targetOpsTickNs :: int
  wk_opsDone :: int

definition totalOpCount :: "props \<Rightarrow> int" where
  "totalOpCount p =
     (if GetBool p prop_DoTransactions True then GetInt64 p prop_OperationCount 0
      else case Get p prop_InsertCount of
             Some _ \<Rightarrow> GetInt64 p prop_InsertCount 0
           | None \<Rightarrow> GetInt64 p prop_RecordCount 0)"

definition newWorker :: "props \<Rightarrow> int \<Rightarrow> int \<Rightarrow> worker go" where
  "newWorker p threadID threadCount =
     (let batchSize = GetInt p prop_BatchSize prop_DefaultBatchSize;
          total = totalOpCount p in
      if total < threadCount then
        Exit (''totalOpCount('' @ prop_OperationCount @ ''/'' @ prop_InsertCount @ ''/'' @ prop_RecordCount @ ''): '' @ itoa total
              @ '' should be bigger than threadCount: '' @ itoa threadCount)
      else if threadCount = 0 then Panic ''integer divide by zero''
      else
        let opCount = go_div total threadCount;
            opCount = (if threadID < go_mod total threadCount then i64 (opCount + 1) else opCount);
            v = GetInt64 p prop_Target 0;
            perms = (if 0 < v then fdiv (fdiv (of_int64 v) (of_int64 threadCount)) (Fin 1000) else Fin (- 1)) in
        Ret \<lparr>wk_p = p, wk_doTransactions = GetBool p prop_DoTransactions True, wk_doBatch = (1 < batchSize),
             wk_batchSize = batchSize, wk_opCount = opCount,
             wk_targetOpsPerMs = (if flt (Fin 0) perms then perms else Fin 0), wk_threadID = threadID,
             wk_targetOpsTickNs = (if flt (Fin 0) perms then to_int64 (fdiv (Fin 1000000) perms) else 0),
             wk_opsDone = 0\<rparr>)"

text \<open>\<open>throttle\<close>: how long the worker waits at time \<open>now\<close>, unless the context is cancelled meanwhile; \<open>None\<close> is no wait.\<close>

definition throttle :: "worker \<Rightarrow> int \<Rightarrow> int \<Rightarrow> int option" where
  "throttle w startTime now =
     (if fle (wk_targetOpsPerMs w) (Fin 0) then None
      else let d = startTime + i64 (wk_opsDone w * wk_targetOpsTickNs w) - now
           in if d < 0 then None else Some d)"

text \<open>The sleep that spreads the workers out before their first operation.\<close>

definition spread_sleep :: "worker \<Rightarrow> rand \<Rightarrow> int go" where
  "spread_sleep w r =
     (if flt (Fin 0) (wk_targetOpsPerMs w) \<and> fle (wk_targetOpsPerMs w) (Fin 1)
      then gbind (Int63n r (wk_targetOpsTickNs w)) (\<lambda>(d, _). Ret d)
      else Ret 0)"

text \<open>The operation of one round; its error is printed at most.\<close>

definition worker_op :: "wenv \<Rightarrow> 'd db \<Rightarrow> (nat \<Rightarrow> bool) \<Rightarrow> worker \<Rightarrow> 'd wstate \<Rightarrow> (error option \<times> 'd wstate) go" where
  "worker_op E db canceled w =
     (if wk_doTransactions w then
        if wk_doBatch w then DoBatchTransaction E (wk_batchSize w) db else DoTransaction E db
      else
        if wk_doBatch w then DoBatchInsert E (wk_batchSize w) db canceled else DoInsert E db canceled)"

definition opsCount :: "worker \<Rightarrow> int" where
  "opsCount w = (if wk_doBatch w then wk_batchSize w else 1)"

definition count_ops :: "bool \<Rightarrow> worker \<Rightarrow> worker" where
  "count_ops warmUpFinished w =
     (if warmUpFinished then w\<lparr>wk_opsDone := i64 (wk_opsDone w + opsCount w)\<rparr> else w)"

definition more_ops :: "worker \<Rightarrow> bool" where
  "more_ops w \<longleftrightarrow> wk_opCount w = 0 \<or> wk_opsDone w < wk_opCount w"

text \<open>
  The loop of \<open>run\<close> by itself. \<open>warm i\<close> says whether the warm-up is finished after the \<open>i\<close>-th round, \<open>cancelled i\<close>
  whether the context is done then.
\<close>

fun worker_run :: "('s \<Rightarrow> (error option \<times> 's) go) \<Rightarrow> (nat \<Rightarrow> bool) \<Rightarrow> (nat \<Rightarrow> bool) \<Rightarrow> nat \<Rightarrow> nat \<Rightarrow> worker \<Rightarrow> 's \<Rightarrow> (worker \<times> 's) go" where
  "worker_run op warm cancelled fuel i w s =
     (if \<not> more_ops w then Ret (w, s)
      else case fuel of
        0 \<Rightarrow> Hang
      | Suc fuel' \<Rightarrow>
          gbind (op s) (\<lambda>(err, s).
            let w = count_ops (warm i) w
            in if cancelled i then Ret (w, s) else worker_run op warm cancelled fuel' (Suc i) w s))"

declare worker_run.simps [simp del]

section \<open>Running the workers\<close>

text \<open>
  The goroutines of one run. A worker is running with its own random source and field names; the flag says that
  it has seen the end of its context.
\<close>

datatype thread = Starting | Running worker rand "string list" bool | Finished

record 'd client =
  cl_p :: props
  cl_threads :: "thread list"
  cl_core :: core
  cl_db :: 'd
  cl_measured :: "string list"
  cl_warmUpFinished :: bool
  cl_cancelled :: bool
  cl_analyzed :: bool

definition threadCount :: "'d client \<Rightarrow> int" where
  "threadCount c = int (length (cl_threads c))"

text \<open>\<open>wg.Add\<close> of a negative number panics. Whether a warm-up is in progress is the state of the measurement.\<close>

definition client_Run :: "props \<Rightarrow> core \<Rightarrow> 'd \<Rightarrow> bool \<Rightarrow> 'd client go" where
  "client_Run p c d warmUpFinished =
     (let n = GetInt p prop_ThreadCount 1 in
      if n < 0 then Panic ''sync: negative WaitGroup counter''
      else Ret \<lparr>cl_p = p, cl_threads = replicate (nat n) Starting, cl_core = c, cl_db = d, cl_measured = [],
                cl_warmUpFinished = warmUpFinished, cl_cancelled = False, cl_analyzed = False\<rparr>)"

text \<open>What the worker with random source \<open>r\<close> and field names \<open>fs\<close> sees, and the state it leaves.\<close>

definition thread_view :: "'d client \<Rightarrow> rand \<Rightarrow> string list \<Rightarrow> 'd wstate" where
  "thread_view c r fs = \<lparr>w_core = cl_core c, w_rand = r, w_fieldNames = fs, w_db = cl_db c, w_measured = cl_measured c\<rparr>"

definition put_view :: "'d wstate \<Rightarrow> 'd client \<Rightarrow> 'd client" where
  "put_view s c = c\<lparr>cl_core := w_core s, cl_db := w_db s, cl_measured := w_measured s\<rparr>"

definition set_thread :: "nat \<Rightarrow> thread \<Rightarrow> 'd client \<Rightarrow> 'd client" where
  "set_thread i t c = c\<lparr>cl_threads := (cl_threads c)[i := t]\<rparr>"

text \<open>The goroutine starts: \<open>newWorker\<close>, the thread state of the workload, the thread of the database.\<close>

definition thread_start :: "'d db \<Rightarrow> rand \<Rightarrow> nat \<Rightarrow> 'd client \<Rightarrow> 'd client go" where
  "thread_start D seed i c =
     gbind (newWorker (cl_p c) (int i) (threadCount c)) (\<lambda>w.
     gbind (db_InitThread D (cl_db c) (int i) (threadCount c)) (\<lambda>d.
       let s = core_InitThread (cl_core c) seed d
       in Ret (set_thread i (Running w (w_rand s) (w_fieldNames s) False) (c\<lparr>cl_db := d\<rparr>))))"

text \<open>One round of \<open>run\<close>. \<open>canceled\<close> is what the operation sees of the context while it runs.\<close>

definition thread_round :: "wenv \<Rightarrow> 'd db \<Rightarrow> (nat \<Rightarrow> bool) \<Rightarrow> nat \<Rightarrow> worker \<Rightarrow> rand \<Rightarrow> string list \<Rightarrow> 'd client \<Rightarrow> 'd client go" where
  "thread_round E D canceled i w r fs c =
     gbind (worker_op E D canceled w (thread_view c r fs)) (\<lambda>(err, s).
       Ret (set_thread i (Running (count_ops (cl_warmUpFinished c) w) (w_rand s) (w_fieldNames s) (cl_cancelled c)) (put_view s c)))"

text \<open>The end of a worker.\<close>

definition thread_end :: "'d db \<Rightarrow> nat \<Rightarrow> 'd client \<Rightarrow> 'd client go" where
  "thread_end D i c = gbind (db_CleanupThread D (cl_db c)) (\<lambda>d. Ret (set_thread i Finished (c\<lparr>cl_db := d\<rparr>)))"

text \<open>After all workers have ended, a load analyses the table; the error is dropped.\<close>

definition client_analyze :: "'d db \<Rightarrow> 'd client \<Rightarrow> 'd client go" where
  "client_analyze D c =
     (case (GetBool (cl_p c) prop_DoTransactions True, db_Analyze D) of
        (False, Some analyze) \<Rightarrow>
          gbind (analyze (cl_db c) (GetString (cl_p c) prop_TableName prop_TableNameDefault)) (\<lambda>(err, d).
            Ret (c\<lparr>cl_db := d, cl_analyzed := True\<rparr>))
      | _ \<Rightarrow> Ret (c\<lparr>cl_analyzed := True\<rparr>))"

text \<open>The context may be cancelled while an operation runs (\<open>late\<close>); the operation may notice then, and the worker stops after it.\<close>

inductive client_step :: "wenv \<Rightarrow> 'd db \<Rightarrow> 'd client \<Rightarrow> 'd client \<Rightarrow> bool" for E D where
  Start: "i < length (cl_threads c) \<Longrightarrow> cl_threads c ! i = Starting \<Longrightarrow> thread_start D seed i c = Ret c' \<Longrightarrow> client_step E D c c'"
| Round: "i < length (cl_threads c) \<Longrightarrow> cl_threads c ! i = Running w r fs False \<Longrightarrow> more_ops w \<Longrightarrow>
    (cl_cancelled c \<Longrightarrow> \<forall>n. canceled n) \<Longrightarrow> (\<not> cl_cancelled c \<and> \<not> late \<Longrightarrow> \<forall>n. \<not> canceled n) \<Longrightarrow>
    thread_round E D canceled i w r fs (c\<lparr>cl_cancelled := cl_cancelled c \<or> late\<rparr>) = Ret c' \<Longrightarrow> client_step E D c c'"
| End: "i < length (cl_threads c) \<Longrightarrow> cl_threads c ! i = Running w r fs stop \<Longrightarrow> stop \<or> \<not> more_ops w \<Longrightarrow>
    thread_end D i c = Ret c' \<Longrightarrow> client_step E D c c'"
| WarmedUp: "client_step E D c (c\<lparr>cl_warmUpFinished := True\<rparr>)"
| Cancel: "client_step E D c (c\<lparr>cl_cancelled := True\<rparr>)"
| Analyze: "\<forall>t\<in>set (cl_threads c). t = Finished \<Longrightarrow> \<not> cl_analyzed c \<Longrightarrow> client_analyze D c = Ret c' \<Longrightarrow> client_step E D c c'"

end
