(* ===== verification/MeasurementProps.thy ===== *)
theory MeasurementProps
  imports Measurement HistFile
begin

text \<open>
  What the measurements show: after any sequence of measured operations and switches of the warm-up phase, the
  raw measurer holds exactly the operations measured outside the warm-up, per operation in order, and its CSV
  report can be read back without loss; the histogram of an operation has counted each of them once.
\<close>

section \<open>The contract of a measurer\<close>

text \<open>
  Each measured operation changes what the measurer keeps of its own name, and nothing else. \<open>fits\<close> says which
  latencies the measurer can represent.
\<close>

locale measurer_view =
  fixes step :: "'m \<Rightarrow> int \<Rightarrow> string \<Rightarrow> int \<Rightarrow> int \<Rightarrow> 'm"
    and view :: "'m \<Rightarrow> string \<Rightarrow> 'v"
    and add :: "'v \<Rightarrow> int \<Rightarrow> int \<Rightarrow> 'v"
    and inv :: "'m \<Rightarrow> bool"
    and fits :: "int \<Rightarrow> bool"
  assumes step_inv: "inv m \<Longrightarrow> fits lan \<Longrightarrow> inv (step m now op start lan)"
    and step_view: "inv m \<Longrightarrow> fits lan \<Longrightarrow> view (step m now op start lan) = (view m)(op := add (view m op) start lan)"
begin

lemma run_view:
  assumes "inv m" and "\<forall>(now, op, start, lan)\<in>set calls. fits lan"
  shows "inv (foldl (\<lambda>m (now, op, start, lan). step m now op start lan) m calls)
    \<and> view (foldl (\<lambda>m (now, op, start, lan). step m now op start lan) m calls) op
        = foldl (\<lambda>v (_, _, start, lan). add v start lan) (view m op) (filter (\<lambda>c. fst (snd c) = op) calls)"
  using assms by (induction calls arbitrary: m) (auto simp: step_inv step_view)

end

text \<open>What the documentation of HdrHistogram promises of a histogram that \<open>newHistogram\<close> creates: a value up to the limit is recorded.\<close>

definition hdr_laws :: "'h hdr \<Rightarrow> ('h \<Rightarrow> bool) \<Rightarrow> bool" where
  "hdr_laws H ok \<longleftrightarrow>
     ok (hdr_New H 1 86400000000 3) \<and> hdr_TotalCount H (hdr_New H 1 86400000000 3) = 0
     \<and> (\<forall>h v. ok h \<and> 0 \<le> v \<and> v \<le> 86400000000 \<longrightarrow>
          fst (hdr_RecordValue H h v) = None \<and> ok (snd (hdr_RecordValue H h v))
          \<and> hdr_TotalCount H (snd (hdr_RecordValue H h v)) = hdr_TotalCount H h + 1)"

definition one_day :: "int \<Rightarrow> bool" where
  "one_day lan \<longleftrightarrow> 0 \<le> lan \<and> lan \<le> 86400000000000"

definition measured_count :: "'h hdr \<Rightarrow> 'h histograms \<Rightarrow> string \<Rightarrow> int" where
  "measured_count H hs op = (case map_of (hs_histograms hs) op of Some h \<Rightarrow> hdr_TotalCount H (hg_hist h) | None \<Rightarrow> 0)"

definition hists_inv :: "'h hdr \<Rightarrow> ('h \<Rightarrow> bool) \<Rightarrow> 'h histograms \<Rightarrow> bool" where
  "hists_inv H ok hs \<longleftrightarrow> hdr_laws H ok \<and> (\<forall>op h. map_of (hs_histograms hs) op = Some h \<longrightarrow> ok (hg_hist h))"

interpretation csv: measurer_view "\<lambda>c now. csvs_Measure c" csv_entries "\<lambda>es start lan. es @ [csventry_of start lan]" "\<lambda>c. distinct (map fst c)" "\<lambda>_. True"
  by unfold_locales (auto simp: csvs_Measure_def csv_entries_def update_conv' fun_eq_iff distinct_update)

lemma histogram_Measure_ok:
  assumes "hdr_laws H ok" and "ok (hg_hist h)" and "one_day lan"
  shows "ok (hg_hist (histogram_Measure H h lan)) \<and> hdr_TotalCount H (hg_hist (histogram_Measure H h lan)) = hdr_TotalCount H (hg_hist h) + 1"
proof -
  have "0 \<le> go_div lan 1000 \<and> go_div lan 1000 \<le> 86400000000" using assms(3) by (auto simp: one_day_def go_div_nonneg)
  then show ?thesis using assms(1,2) by (simp add: hdr_laws_def histogram_Measure_def)
qed

interpretation hists: measurer_view "\<lambda>hs now op start lan. histograms_Measure H now hs op lan" "measured_count H"
    "\<lambda>n start lan. n + 1" "hists_inv H ok" one_day for H :: "'h hdr" and ok
proof
  fix m :: "'h histograms" and lan start now op
  assume a: "hists_inv H ok m" "one_day lan"
  let ?h = "case map_of (hs_histograms m) op of Some h \<Rightarrow> h | None \<Rightarrow> newHistogram H now"
  have h: "ok (hg_hist ?h)" "hdr_TotalCount H (hg_hist ?h) = measured_count H m op"
    using a(1) by (auto simp: hists_inv_def hdr_laws_def newHistogram_def measured_count_def split: option.split)
  have l: "hdr_laws H ok" using a(1) by (simp add: hists_inv_def)
  note s = histogram_Measure_ok [OF l h(1) a(2)]
  show "hists_inv H ok (histograms_Measure H now m op lan)"
    using a(1) s by (auto simp: hists_inv_def histograms_Measure_def Let_def update_Some_unfold)
  show "measured_count H (histograms_Measure H now m op lan) = (measured_count H m)(op := measured_count H m op + 1)"
    using s h(2) by (auto simp: measured_count_def [abs_def] histograms_Measure_def Let_def update_conv' fun_eq_iff)
qed

section \<open>The warm-up gate\<close>

text \<open>What happens to the global measurement: an operation is measured, or the warm-up is switched.\<close>

datatype mevent = EMeasure int string int int | EWarmUp bool

fun mevent_step :: "'h hdr \<Rightarrow> mevent \<Rightarrow> 'h mstate \<Rightarrow> 'h mstate go" where
  "mevent_step H (EMeasure now op start lan) m = global_Measure H now op start lan m"
| "mevent_step H (EWarmUp b) m = Ret (EnableWarmUp b m)"

fun mevents :: "'h hdr \<Rightarrow> mevent list \<Rightarrow> 'h mstate \<Rightarrow> 'h mstate go" where
  "mevents H [] m = Ret m"
| "mevents H (e # es) m = gbind (mevent_step H e m) (mevents H es)"

text \<open>The operations measured outside the warm-up.\<close>

fun accepted :: "bool \<Rightarrow> mevent list \<Rightarrow> (int \<times> string \<times> int \<times> int) list" where
  "accepted warm [] = []"
| "accepted warm (EMeasure now op start lan # es) = (if warm then [] else [(now, op, start, lan)]) @ accepted warm es"
| "accepted warm (EWarmUp b # es) = accepted b es"

definition measure_calls :: "'h hdr \<Rightarrow> 'h measurer \<Rightarrow> (int \<times> string \<times> int \<times> int) list \<Rightarrow> 'h measurer" where
  "measure_calls H = foldl (\<lambda>m (now, op, start, lan). measurer_Measure H now m op start lan)"

text \<open>Outside the warm-up every call reaches the measurer, during it none does.\<close>

lemma mevents_gate:
  assumes "globalMeasure m = Some g"
  shows "\<exists>wu. mevents H es m =
    Ret (m\<lparr>globalMeasure := Some (g\<lparr>m_measurer := measure_calls H (m_measurer g) (accepted (warmUp m \<noteq> 0) es)\<rparr>), warmUp := wu\<rparr>)"
  using assms
proof (induction es arbitrary: m g)
  case Nil
  then have "m = m\<lparr>globalMeasure := Some g, warmUp := warmUp m\<rparr>" by simp
  then show ?case unfolding mevents.simps accepted.simps measure_calls_def foldl.simps
    by (intro exI [of _ "warmUp m"]) simp
next
  case (Cons e es)
  show ?case
  proof (cases e)
    case (EMeasure now op start lan)
    show ?thesis
    proof (cases "warmUp m = 0")
      case True
      let ?g = "g\<lparr>m_measurer := measurer_Measure H now (m_measurer g) op start lan\<rparr>"
      have "mevent_step H e m = Ret (m\<lparr>globalMeasure := Some ?g\<rparr>)"
        using True Cons.prems EMeasure by (simp add: global_Measure_def IsWarmUpFinished_def)
      then show ?thesis using Cons.IH [of "m\<lparr>globalMeasure := Some ?g\<rparr>" ?g] True EMeasure by (simp add: measure_calls_def)
    next
      case False
      then show ?thesis using Cons.IH [of m g] Cons.prems EMeasure by (simp add: global_Measure_def IsWarmUpFinished_def)
    qed
  next
    case (EWarmUp b)
    then show ?thesis using Cons.IH [of "EnableWarmUp b m" g] Cons.prems by (cases b) (simp_all add: EnableWarmUp_def)
  qed
qed

lemma measure_calls_csv:
  "measure_calls H (MCsv c) calls = MCsv (foldl (\<lambda>m (now, op, start, lan). csvs_Measure m op start lan) c calls)"
  by (induction calls arbitrary: c) (auto simp: measure_calls_def)

lemma measure_calls_hists:
  "measure_calls H (MHistograms hs) calls
     = MHistograms (foldl (\<lambda>m (now, op, start, lan). histograms_Measure H now m op lan) hs calls)"
  by (induction calls arbitrary: hs) (auto simp: measure_calls_def)

lemma foldl_snoc_map: "foldl (\<lambda>v (_, _, start, lan). v @ [f start lan]) acc calls = acc @ map (\<lambda>(_, _, start, lan). f start lan) calls"
  by (induction calls arbitrary: acc) auto

lemma foldl_count: "foldl (\<lambda>v (_, _, start, lan). v + 1) acc calls = acc + int (length calls)"
  by (induction calls arbitrary: acc) auto

section \<open>The raw report\<close>

text \<open>A writer that takes everything: its state is the text written so far.\<close>

definition string_writer :: "string outenv \<Rightarrow> bool" where
  "string_writer W \<longleftrightarrow> o_stdout W = [] \<and> (\<forall>f. o_create W f = Inr [])
     \<and> (\<forall>w s. o_write W w s = (None, w @ s)) \<and> (\<forall>w. o_flush W w = (None, w))"

text \<open>Reading a report: the lines after the header, split at commas.\<close>

definition parse_csv_line :: "string \<Rightarrow> string \<times> int \<times> int" where
  "parse_csv_line l =
     (case split_on (CHR '','') l of [op, a, b] \<Rightarrow> (op, fst (ParseInt a), fst (ParseInt b)) | _ \<Rightarrow> ([], 0, 0))"

definition parse_csv :: "string \<Rightarrow> (string \<times> int \<times> int) list" where
  "parse_csv text = map parse_csv_line (butlast (tl (split_on (CHR 0x0A) text)))"

definition clean_name :: "string \<Rightarrow> bool" where
  "clean_name op \<longleftrightarrow> CHR '','' \<notin> set op \<and> CHR 0x0A \<notin> set op"

lemma split_lines: "\<forall>l\<in>set ls. CHR 0x0A \<notin> set l \<Longrightarrow> split_on (CHR 0x0A) (concat (map (\<lambda>l. l @ newline) ls)) = ls @ [[]]"
  by (induction ls) (auto simp: newline_def split_on_append)

lemma itoa_no_comma: "CHR '','' \<notin> set (itoa i)"
  using itoa_plain [of i] by (auto simp: list_all_iff plain_char_def is_digit_def)

lemma write_all_string: "string_writer W \<Longrightarrow> write_all W w ls = (None, w @ concat ls)"
  by (induction ls arbitrary: w) (auto simp: string_writer_def)

lemma csvs_Output_string: "string_writer W \<Longrightarrow> csvs_Output W c w = (None, w @ concat (csv_lines c))"
  by (simp add: csvs_Output_def write_all_string)

definition csv_body :: "string \<Rightarrow> csventry \<Rightarrow> string" where
  "csv_body op e = op @ '','' @ itoa (startUs e) @ '','' @ itoa (latencyUs e)"

lemma parse_csv_body:
  "clean_name op \<Longrightarrow> in_i64 (startUs e) \<Longrightarrow> in_i64 (latencyUs e) \<Longrightarrow> parse_csv_line (csv_body op e) = (op, startUs e, latencyUs e)"
  by (simp add: parse_csv_line_def csv_body_def clean_name_def split_on_append split_on_plain itoa_no_comma ParseInt_itoa)

definition entry_ok :: "csventry \<Rightarrow> bool" where
  "entry_ok e \<longleftrightarrow> in_i64 (startUs e) \<and> in_i64 (latencyUs e)"

lemma parse_csv_report:
  assumes "\<forall>(op, es)\<in>set c. clean_name op \<and> (\<forall>e\<in>set es. entry_ok e)"
  shows "parse_csv (concat (csv_lines c)) = concat (map (\<lambda>(op, es). map (\<lambda>e. (op, startUs e, latencyUs e)) es) c)"
proof -
  let ?ls = "concat (map (\<lambda>(op, es). map (csv_body op) es) c)"
  have "csv_lines c = map (\<lambda>l. l @ newline) (''operation,timestamp_us,latency_us'' # ?ls)"
    by (simp add: csv_lines_def csv_header_def map_concat csv_line_def [abs_def] csv_body_def split_def o_def)
  moreover have "CHR 0x0A \<notin> set l" if "l \<in> set ?ls" for l
    using that assms by (fastforce simp: csv_body_def clean_name_def itoa_no_sep)
  ultimately have "split_on (CHR 0x0A) (concat (csv_lines c)) = (''operation,timestamp_us,latency_us'' # ?ls) @ [[]]"
    using split_lines [of "''operation,timestamp_us,latency_us'' # ?ls"] by auto
  then have "parse_csv (concat (csv_lines c)) = map parse_csv_line ?ls"
    by (simp add: parse_csv_def)
  also have "\<dots> = concat (map (\<lambda>(op, es). map (\<lambda>e. (op, startUs e, latencyUs e)) es) c)"
    using assms by (auto simp: map_concat entry_ok_def parse_csv_body intro!: arg_cong [of _ _ concat]) (use parse_csv_body in fastforce)
  finally show ?thesis .
qed

lemma filter_entries:
  assumes "distinct (map fst c)"
  shows "filter (\<lambda>r. fst r = op) (concat (map (\<lambda>(op, es). map (\<lambda>e. (op, startUs e, latencyUs e)) es) c))
    = map (\<lambda>e. (op, startUs e, latencyUs e)) (csv_entries c op)"
  using assms
proof (induction c)
  case (Cons x c)
  have "csv_entries c (fst x) = []" using Cons.prems by (auto simp: csv_entries_def map_of_eq_None_iff [THEN iffD2])
  with Cons show ?case by (cases x) (auto simp: csv_entries_def filter_map o_def)
qed (simp add: csv_entries_def)

definition csv_run :: "(int \<times> string \<times> int \<times> int) list \<Rightarrow> csvs" where
  "csv_run = foldl (\<lambda>m (now, op, start, lan). csvs_Measure m op start lan) []"

lemma csv_run_entries:
  "distinct (map fst (csv_run calls))
   \<and> csv_entries (csv_run calls) op = map (\<lambda>(_, _, start, lan). csventry_of start lan) (filter (\<lambda>c. fst (snd c) = op) calls)"
  using csv.run_view [of "[]" calls op] by (simp add: csv_run_def foldl_snoc_map csv_entries_def)

lemma csv_run_members:
  assumes "(op, es) \<in> set (csv_run calls)"
  shows "op \<in> (\<lambda>c. fst (snd c)) ` set calls \<and> (\<forall>e\<in>set es. \<exists>c\<in>set calls. e = csventry_of (fst (snd (snd c))) (snd (snd (snd c))))"
proof -
  have "fst ` set (foldl (\<lambda>m (now, op, start, lan). csvs_Measure m op start lan) c0 calls) = fst ` set c0 \<union> (\<lambda>c. fst (snd c)) ` set calls" for c0 :: csvs
  proof (induction calls arbitrary: c0)
    case (Cons x calls)
    have "fst ` set (csvs_Measure c0 (fst (snd x)) start lan) = fst ` set c0 \<union> {fst (snd x)}" for start lan
      by (simp add: csvs_Measure_def dom_map_of_conv_image_fst [symmetric] update_conv')
    with Cons show ?case by (simp add: split_def)
  qed simp
  from this [of "[]"] have "fst ` set (csv_run calls) = (\<lambda>c. fst (snd c)) ` set calls" by (simp add: csv_run_def)
  then have "op \<in> (\<lambda>c. fst (snd c)) ` set calls" using image_eqI [OF _ assms, of op fst] by simp
  moreover have "es = csv_entries (csv_run calls) op"
    using csv_run_entries [of calls op] assms by (simp add: csv_entries_def)
  then have "\<exists>c\<in>set calls. e = csventry_of (fst (snd (snd c))) (snd (snd (snd c)))" if "e \<in> set es" for e
    using that csv_run_entries [of calls op] by (auto simp: split_def)
  ultimately show ?thesis by blast
qed

lemma InitMeasure_cases:
  assumes "InitMeasure p m0 = Ret m"
  shows "warmUp m \<noteq> 0 \<longleftrightarrow> 0 < GetInt64 p prop_WarmUpTime 0"
    and "GetString p prop_MeasurementType prop_MeasurementTypeDefault \<in> {''raw'', ''csv''} \<Longrightarrow> globalMeasure m = Some \<lparr>m_p = p, m_measurer = MCsv []\<rparr>"
    and "GetString p prop_MeasurementType prop_MeasurementTypeDefault = ''histogram'' \<Longrightarrow>
      globalMeasure m = Some \<lparr>m_p = p, m_measurer = MHistograms (InitHistograms p)\<rparr>"
  using assms by (auto simp: InitMeasure_def Let_def EnableWarmUp_def InitCSV_def split: if_splits)

text \<open>
  C18. With the measurement type \<open>raw\<close> or \<open>csv\<close>, whatever the interleaving of measured operations and of switches of the
  warm-up phase, the report that \<open>Output\<close> writes can be read back without loss: for every operation name it lists
  exactly the operations measured outside the warm-up, in their order, with start and latency in microseconds.
\<close>

theorem raw_report_lossless:
  assumes "InitMeasure p m0 = Ret m" and "GetString p prop_MeasurementType prop_MeasurementTypeDefault \<in> {''raw'', ''csv''}"
    and "string_writer W" and "calls = accepted (0 < GetInt64 p prop_WarmUpTime 0) es"
    and "\<forall>(now, op, start, lan)\<in>set calls. clean_name op \<and> in_i64 (start div 1000) \<and> in_i64 (go_div lan 1000)"
  shows "\<exists>m' text. mevents H es m = Ret m' \<and> global_Output W H nows m' = Ret ([], text)
    \<and> (\<forall>op. filter (\<lambda>r. fst r = op) (parse_csv text)
          = map (\<lambda>(_, op, start, lan). (op, start div 1000, go_div lan 1000)) (filter (\<lambda>c. fst (snd c) = op) calls))"
proof -
  let ?g = "\<lparr>m_p = p, m_measurer = MCsv (csv_run calls)\<rparr>"
  obtain wu where m': "mevents H es m = Ret (m\<lparr>globalMeasure := Some ?g, warmUp := wu\<rparr>)"
    using mevents_gate [OF InitMeasure_cases(2) [OF assms(1,2)], of H es] InitMeasure_cases(1) [OF assms(1)] assms(4)
    by (auto simp: measure_calls_csv csv_run_def)
  have ok: "\<forall>(op, es)\<in>set (csv_run calls). clean_name op \<and> (\<forall>e\<in>set es. entry_ok e)"
    using csv_run_members [of _ _ calls] assms(5) by (fastforce simp: entry_ok_def csventry_of_def)
  have out: "global_Output W H nows (m\<lparr>globalMeasure := Some ?g, warmUp := wu\<rparr>) = Ret ([], concat (csv_lines (csv_run calls)))"
    using assms(3) by (auto simp: global_Output_def measurement_output_def csvs_Output_string string_writer_def Let_def)
  have "filter (\<lambda>r. fst r = op) (parse_csv (concat (csv_lines (csv_run calls))))
      = map (\<lambda>(_, op, start, lan). (op, start div 1000, go_div lan 1000)) (filter (\<lambda>c. fst (snd c) = op) calls)" for op
    using csv_run_entries [of calls op] by (auto simp: parse_csv_report [OF ok] filter_entries csventry_of_def)
  then show ?thesis using m' out by blast
qed

text \<open>A concrete run: a warm-up operation is dropped, two reads and an update are reported.\<close>

definition text_env :: "string outenv" where
  "text_env = \<lparr>o_stdout = [], o_create = (\<lambda>f. Inr []), o_write = (\<lambda>w s. (None, w @ s)), o_flush = (\<lambda>w. (None, w)), o_table = (\<lambda>hs ls. [])\<rparr>"

definition raw_props :: props where
  "raw_props = props_of [(''warmuptime'', 5)] [(''measurementtype'', ''csv'')]"

definition sample_events :: "mevent list" where
  "sample_events = [EMeasure 0 ''READ'' 1000000 2000, EWarmUp False, EMeasure 0 ''READ'' 5000000 7000,
     EMeasure 0 ''UPDATE'' 6000000 9999, EMeasure 0 ''READ'' 8000000 1500]"

definition null_hdr :: "unit hdr" where
  "null_hdr = \<lparr>hdr_New = (\<lambda>_ _ _. ()), hdr_RecordValue = (\<lambda>h v. (None, h)), hdr_Min = (\<lambda>_. 0), hdr_Max = (\<lambda>_. 0), hdr_Mean = (\<lambda>_. Fin 0),
     hdr_TotalCount = (\<lambda>_. 0), hdr_ValueAtPercentile = (\<lambda>_ _. 0), hdr_Percentiles = (\<lambda>_ _ _. [])\<rparr>"

theorem raw_report_lossless_witness:
  "\<exists>m m' text. InitMeasure raw_props \<lparr>globalMeasure = None, warmUp = 0\<rparr> = Ret m \<and> mevents null_hdr sample_events m = Ret m'
     \<and> global_Output text_env null_hdr (\<lambda>_. 0) m' = Ret ([], text)
     \<and> filter (\<lambda>r. fst r = ''READ'') (parse_csv text) = [(''READ'', 5000, 7), (''READ'', 8000, 1)]"
proof -
  let ?es = "[(0, ''READ'', 5000000, 7000), (0, ''UPDATE'', 6000000, 9999), (0, ''READ'', 8000000, 1500)] :: (int \<times> string \<times> int \<times> int) list"
  let ?m = "\<lparr>globalMeasure = Some \<lparr>m_p = raw_props, m_measurer = MCsv InitCSV\<rparr>, warmUp = 1\<rparr> :: unit mstate"
  have i: "InitMeasure raw_props \<lparr>globalMeasure = None, warmUp = 0\<rparr> = Ret ?m"
    by (simp add: InitMeasure_def EnableWarmUp_def raw_props_def props_of_def prop_defs Let_def)
  have "\<exists>m' text. mevents null_hdr sample_events ?m = Ret m' \<and> global_Output text_env null_hdr (\<lambda>_. 0) m' = Ret ([], text)
    \<and> (\<forall>op. filter (\<lambda>r. fst r = op) (parse_csv text)
          = map (\<lambda>(_, op, start, lan). (op, start div 1000, go_div lan 1000)) (filter (\<lambda>c. fst (snd c) = op) ?es))"
    by (rule raw_report_lossless [OF i])
      (simp_all add: string_writer_def text_env_def sample_events_def raw_props_def props_of_def prop_defs Let_def clean_name_def in_i64_def go_div_def)
  then show ?thesis using i by (auto simp: go_div_def)
qed

section \<open>The histogram report\<close>

lemma gmap_Ret: "(\<And>x. x \<in> set xs \<Longrightarrow> f x = Ret (g x)) \<Longrightarrow> gmap f xs = Ret (map g xs)"
  by (induction xs) auto

definition hist_run :: "'h hdr \<Rightarrow> props \<Rightarrow> (int \<times> string \<times> int \<times> int) list \<Rightarrow> 'h histograms" where
  "hist_run H p = foldl (\<lambda>m (now, op, start, lan). histograms_Measure H now m op lan) (InitHistograms p)"

lemma hist_run_counts:
  assumes "hdr_laws H ok" and "\<forall>(now, op, start, lan)\<in>set calls. one_day lan"
  shows "measured_count H (hist_run H p calls) op = int (length (filter (\<lambda>c. fst (snd c) = op) calls))"
  using hists.run_view [of H ok "InitHistograms p" calls op] assms
  by (simp add: hist_run_def foldl_count hists_inv_def measured_count_def InitHistograms_def)

lemma histograms_Measure_keys:
  "fst ` set (hs_histograms (histograms_Measure H now hs op lan)) = fst ` set (hs_histograms hs) \<union> {op}"
  by (simp add: histograms_Measure_def Let_def dom_map_of_conv_image_fst [symmetric] update_conv')

lemma hist_run_keys:
  "fst ` set (hs_histograms (hist_run H p calls)) = (\<lambda>c. fst (snd c)) ` set calls
   \<and> distinct (map fst (hs_histograms (hist_run H p calls))) \<and> hs_p (hist_run H p calls) = p"
proof -
  have "fst ` set (hs_histograms (foldl (\<lambda>m (now, op, start, lan). histograms_Measure H now m op lan) hs calls))
        = fst ` set (hs_histograms hs) \<union> (\<lambda>c. fst (snd c)) ` set calls
      \<and> distinct (map fst (hs_histograms (foldl (\<lambda>m (now, op, start, lan). histograms_Measure H now m op lan) hs calls)))
      \<and> hs_p (foldl (\<lambda>m (now, op, start, lan). histograms_Measure H now m op lan) hs calls) = hs_p hs"
    if "distinct (map fst (hs_histograms hs))" for hs
    using that
  proof (induction calls arbitrary: hs)
    case (Cons x calls)
    let ?hs = "histograms_Measure H (fst x) hs (fst (snd x)) (snd (snd (snd x)))"
    have "distinct (map fst (hs_histograms ?hs))" "hs_p ?hs = hs_p hs"
      using Cons.prems by (simp_all add: histograms_Measure_def Let_def distinct_update)
    with Cons.IH [of ?hs] show ?case by (simp add: split_def histograms_Measure_keys)
  qed simp
  from this [of "InitHistograms p"] show ?thesis by (simp add: hist_run_def InitHistograms_def)
qed

lemma summary_names: "map fst (map (\<lambda>(i, op, h). (op, f i h)) (enumerate k hs)) = map fst hs"
  by (induction hs arbitrary: k) auto

lemma map_of_summary:
  assumes "distinct (map fst hs)" and "map_of hs op = Some h"
  shows "\<exists>i. map_of (map (\<lambda>(i, op, h). (op, histogram_Summary H h (now i))) (enumerate k hs)) op = Some (histogram_Summary H h (now i))"
  using assms by (induction hs arbitrary: k) auto

text \<open>The rows of the report: one per operation in alphabetical order, the count in the third column.\<close>

lemma summary_rows:
  assumes "distinct (map fst (hs_histograms hs))"
  shows "map (\<lambda>l. (l ! 0, l ! 2)) (summary_lines (histograms_summary H now hs))
      = map (\<lambda>op. (op, itoa (measured_count H hs op))) (sorted_list_of_set (fst ` set (hs_histograms hs)))
    \<and> (\<forall>l\<in>set (summary_lines (histograms_summary H now hs)). length l = 13)"
proof -
  let ?s = "histograms_summary H now hs"
  have k: "map fst ?s = map fst (hs_histograms hs)"
    unfolding histograms_summary_def by (rule summary_names)
  have row: "\<exists>h i. map_of (hs_histograms hs) op = Some h \<and> map_of ?s op = Some (histogram_Summary H h (now i))"
    if "op \<in> set (map fst (hs_histograms hs))" for op
  proof -
    from that obtain h where h: "map_of (hs_histograms hs) op = Some h" by (auto dest: weak_map_of_SomeI)
    from map_of_summary [OF assms h, of H now 0] h show ?thesis by (auto simp: histograms_summary_def)
  qed
  have s: "sort (map fst ?s) = sorted_list_of_set (fst ` set (hs_histograms hs))"
    using sorted_list_of_set_sort_remdups [of "map fst ?s"] k assms by (simp add: distinct_remdups_id)
  let ?line = "\<lambda>op. op # (case map_of ?s op of Some l \<Rightarrow> l | None \<Rightarrow> [])"
  have l: "?line op ! 0 = op \<and> ?line op ! 2 = itoa (measured_count H hs op) \<and> length (?line op) = 13"
    if "op \<in> fst ` set (hs_histograms hs)" for op
    using row [of op] that by (auto simp: histogram_Summary_def getInfo_def Let_def measured_count_def IntToString_def)
  have "summary_lines ?s = map ?line (sorted_list_of_set (fst ` set (hs_histograms hs)))"
    by (simp only: summary_lines_def s)
  then show ?thesis using l by (simp only: map_map o_def set_map) (simp del: One_nat_def)
qed

lemma RenderString_rows:
  assumes "\<forall>l\<in>set lines. length l = 13"
  shows "\<exists>text. RenderString measurement_header lines = Ret text"
proof -
  have "\<exists>t. render_line measurement_header l = Ret t" if "l \<in> set lines" for l
  proof -
    have "gmap (\<lambda>(i, h). gbind (go_index l (int i + 1)) (\<lambda>v. Ret (h @ '': '' @ v))) (enumerate 0 (tl measurement_header))
        = Ret (map (\<lambda>(i, h). h @ '': '' @ l ! nat (int i + 1)) (enumerate 0 (tl measurement_header)))"
      using assms that by (intro gmap_Ret) (auto simp: go_index_def in_set_enumerate_eq measurement_header_def)
    then show ?thesis using assms that
      by (simp add: render_line_def slice_from_def go_index_def drop_Suc measurement_header_def)
  qed
  then obtain g where "\<And>l. l \<in> set lines \<Longrightarrow> render_line measurement_header l = Ret (g l)" by metis
  then have "gmap (render_line measurement_header) lines = Ret (map g lines)" by (rule gmap_Ret)
  then show ?thesis by (simp add: RenderString_def)
qed

text \<open>
  C22. With histograms, every operation measured outside the warm-up is counted once: the report has one row per
  measured operation, in alphabetical order, whose \<open>Count\<close> is the number of its measurements, and printing it in
  the plain style does not panic.
\<close>

theorem histogram_report_counts:
  assumes "InitMeasure p m0 = Ret m" and "GetString p prop_MeasurementType prop_MeasurementTypeDefault = ''histogram''"
    and "GetString p prop_OutputStyle ''plain'' = ''plain''" and "hdr_laws H ok"
    and "calls = accepted (0 < GetInt64 p prop_WarmUpTime 0) es" and "\<forall>(now, op, start, lan)\<in>set calls. one_day lan"
  shows "\<exists>m' g hs. mevents H es m = Ret m' \<and> globalMeasure m' = Some g \<and> m_measurer g = MHistograms hs
    \<and> map (\<lambda>l. (l ! 0, l ! 2)) (summary_lines (histograms_summary H nows hs))
        = map (\<lambda>op. (op, itoa (int (length (filter (\<lambda>c. fst (snd c) = op) calls))))) (sorted_list_of_set ((\<lambda>c. fst (snd c)) ` set calls))
    \<and> returns (global_Summary W H nows m')"
proof -
  let ?hs = "hist_run H p calls"
  let ?g = "\<lparr>m_p = p, m_measurer = MHistograms ?hs\<rparr>"
  obtain wu where m': "mevents H es m = Ret (m\<lparr>globalMeasure := Some ?g, warmUp := wu\<rparr>)"
    using mevents_gate [OF InitMeasure_cases(3) [OF assms(1,2)], of H es] InitMeasure_cases(1) [OF assms(1)] assms(5)
    by (auto simp: measure_calls_hists hist_run_def)
  note keys = hist_run_keys [of H p calls]
  have rows: "map (\<lambda>l. (l ! 0, l ! 2)) (summary_lines (histograms_summary H nows ?hs))
        = map (\<lambda>op. (op, itoa (int (length (filter (\<lambda>c. fst (snd c) = op) calls))))) (sorted_list_of_set ((\<lambda>c. fst (snd c)) ` set calls))"
    and len: "\<forall>l\<in>set (summary_lines (histograms_summary H nows ?hs)). length l = 13"
    using summary_rows [of ?hs H nows] keys hist_run_counts [OF assms(4,6)] by simp_all
  have "returns (global_Summary W H nows (m\<lparr>globalMeasure := Some ?g, warmUp := wu\<rparr>))"
    using RenderString_rows [OF len] assms(3) keys by (auto simp: global_Summary_def histograms_Output_def Let_def)
  then show ?thesis using m' rows by (intro exI [of _ "m\<lparr>globalMeasure := Some ?g, warmUp := wu\<rparr>"] exI [of _ ?g] exI [of _ ?hs]) simp
qed

text \<open>A histogram that keeps its values satisfies the laws.\<close>

definition list_hdr :: "int list hdr" where
  "list_hdr = \<lparr>hdr_New = (\<lambda>_ _ _. []), hdr_RecordValue = (\<lambda>h v. (None, h @ [v])), hdr_Min = (\<lambda>h. if h = [] then 0 else Min (set h)),
     hdr_Max = (\<lambda>h. if h = [] then 0 else Max (set h)), hdr_Mean = (\<lambda>h. fdiv (of_int64 (sum_list h)) (of_int64 (int (length h)))),
     hdr_TotalCount = (\<lambda>h. int (length h)), hdr_ValueAtPercentile = (\<lambda>h q. if h = [] then 0 else last (sort h)), hdr_Percentiles = (\<lambda>_ _ _. [])\<rparr>"

lemma list_hdr_laws: "hdr_laws list_hdr (\<lambda>_. True)"
  by (simp add: hdr_laws_def list_hdr_def)

definition hist_props :: props where
  "hist_props = props_of [(''warmuptime'', 5)] []"

theorem histogram_report_counts_witness:
  "\<exists>m m' g hs. InitMeasure hist_props \<lparr>globalMeasure = None, warmUp = 0\<rparr> = Ret m \<and> mevents list_hdr sample_events m = Ret m'
     \<and> globalMeasure m' = Some g \<and> m_measurer g = MHistograms hs
     \<and> map (\<lambda>l. (l ! 0, l ! 2)) (summary_lines (histograms_summary list_hdr (\<lambda>_. 0) hs)) = [(''READ'', ''2''), (''UPDATE'', ''1'')]
     \<and> returns (global_Summary text_env list_hdr (\<lambda>_. 0) m')"
proof -
  let ?es = "[(0, ''READ'', 5000000, 7000), (0, ''UPDATE'', 6000000, 9999), (0, ''READ'', 8000000, 1500)] :: (int \<times> string \<times> int \<times> int) list"
  let ?m = "\<lparr>globalMeasure = Some \<lparr>m_p = hist_props, m_measurer = MHistograms (InitHistograms hist_props)\<rparr>, warmUp = 1\<rparr> :: int list mstate"
  have i: "InitMeasure hist_props \<lparr>globalMeasure = None, warmUp = 0\<rparr> = Ret ?m"
    by (simp add: InitMeasure_def EnableWarmUp_def hist_props_def props_of_def prop_defs Let_def)
  have r: "\<exists>m' g hs. mevents list_hdr sample_events ?m = Ret m' \<and> globalMeasure m' = Some g \<and> m_measurer g = MHistograms hs
    \<and> map (\<lambda>l. (l ! 0, l ! 2)) (summary_lines (histograms_summary list_hdr (\<lambda>_. 0) hs))
        = map (\<lambda>op. (op, itoa (int (length (filter (\<lambda>c. fst (snd c) = op) ?es))))) (sorted_list_of_set ((\<lambda>c. fst (snd c)) ` set ?es))
    \<and> returns (global_Summary text_env list_hdr (\<lambda>_. 0) m')"
    by (rule histogram_report_counts [OF i _ _ list_hdr_laws])
      (simp_all add: sample_events_def hist_props_def props_of_def prop_defs Let_def one_day_def)
  have o: "sorted_list_of_set ((\<lambda>c. fst (snd c)) ` set ?es) = [''READ'', ''UPDATE'']"
    by (rule sorted_list_of_set_unique [THEN iffD1]) (auto simp: insert_commute)
  have n: "itoa (int (length (filter (\<lambda>c. fst (snd c) = ''READ'') ?es))) = ''2''" "itoa (int (length (filter (\<lambda>c. fst (snd c) = ''UPDATE'') ?es))) = ''1''"
    by (simp_all add: itoa_def) (subst digits.simps, simp add: char_of_def bit_iff_odd)+
  show ?thesis using r [unfolded o list.map n] i by (elim exE conjE) (rule exI [of _ ?m], (rule exI)+, (rule conjI, assumption)+, assumption)
qed

end
