(* ===== verification/RowStore.thy ===== *)
theory RowStore
  imports RowFields YcsbDB Hash
begin

text \<open>
  What the adapters over byte stores share: the row key, the encoded rows and what they stand for, merging an
  update into a stored row, and the pool of buffers. The locale \<open>row_db\<close> is the contract of \<open>ycsb.DB\<close> that
  the workload relies on: a table of rows on which \<open>Insert\<close>, \<open>Update\<close>, \<open>Delete\<close> and \<open>Read\<close> act. Its lemmas
  hold for every adapter that is an instance of it.
\<close>

section \<open>Row keys and buffers\<close>

definition getRowKey :: "string \<Rightarrow> string \<Rightarrow> byte list" where
  "getRowKey table key = bytes_of (table @ '':'' @ key)"

text \<open>
  \<open>util.BufPool\<close>: the buffers that have been put back, and the \<open>New\<close> function that gives a nil slice. \<open>sync.Pool\<close> may
  hand out any of them or drop them; \<open>choice\<close> says which one \<open>Get\<close> delivers, if any. The length of a buffer
  is reset, so the contents cannot be seen.
\<close>

type_synonym bufpool = "byte list list"

definition NewBufPool :: bufpool where
  "NewBufPool = []"

definition BufPool_Get :: "nat option \<Rightarrow> bufpool \<Rightarrow> byte list \<times> bufpool" where
  "BufPool_Get choice p =
     (case choice of
        Some i \<Rightarrow> if i < length p then (take 0 (p ! i), take i p @ drop (Suc i) p) else ([], p)
      | None \<Rightarrow> ([], p))"

definition BufPool_Put :: "byte list \<Rightarrow> bufpool \<Rightarrow> bufpool" where
  "BufPool_Put buf p = p @ [buf]"

lemma BufPool_Get_empty: "fst (BufPool_Get choice p) = []"
  by (simp add: BufPool_Get_def split: option.split)

text \<open>Tables whose names contain no colon do not share row keys.\<close>

lemma unat_of_char: "unat (of_char c :: byte) = of_char c"
proof -
  have "(of_char c :: nat) < 256" by (rule nat_of_char_less_256)
  then have "unat (of_nat (of_char c) :: byte) = of_char c" by (simp add: unat_of_nat)
  then show ?thesis by (simp add: of_nat_of_char)
qed

lemma bytes_of_inj [simp]: "bytes_of s = bytes_of t \<longleftrightarrow> s = t"
proof -
  have "inj (of_char :: char \<Rightarrow> byte)" by (rule injI) (metis of_char_eq_iff unat_of_char)
  then show ?thesis by (simp add: bytes_of_def inj_map_eq_map)
qed

definition plain_table :: "string \<Rightarrow> bool" where
  "plain_table t \<longleftrightarrow> CHR '':'' \<notin> set t"

lemma getRowKey_inj:
  assumes "plain_table t" and "plain_table t'"
  shows "getRowKey t k = getRowKey t' k' \<longleftrightarrow> t = t' \<and> k = k'"
proof -
  have "t @ '':'' @ k = t' @ '':'' @ k' \<Longrightarrow> t = t' \<and> k = k'"
    using assms unfolding plain_table_def
    by (induction t arbitrary: t') (auto simp: Cons_eq_append_conv append_eq_Cons_conv)
  then show ?thesis by (auto simp: getRowKey_def)
qed

section \<open>Encoded rows\<close>

text \<open>What a stored row stands for, and when it can be read at all.\<close>

definition row_of :: "rowcodec \<Rightarrow> byte list \<Rightarrow> string \<rightharpoonup> byte list" where
  "row_of r bs =
     (case DecodeRow bs of
        Ret (data, None) \<Rightarrow> (\<lambda>f. if f \<in> set (codec_fields r) then data (field_index r f) else None)
      | _ \<Rightarrow> Map.empty)"

definition row_wf :: "rowcodec \<Rightarrow> byte list \<Rightarrow> bool" where
  "row_wf r bs \<longleftrightarrow> (\<exists>data. DecodeRow bs = Ret (data, None)) \<and> (\<forall>v\<in>ran (row_of r bs). int (length v) < 2 ^ 63)"

text \<open>The loop \<open>for field, value := range values { data[field] = value }\<close>.\<close>

fun merge_fields :: "row \<Rightarrow> row \<Rightarrow> row" where
  "merge_fields data [] = data"
| "merge_fields data ((field, value) # values) = merge_fields (AList.update field value data) values"

lemma merge_fields_keys:
  "distinct (map fst data) \<Longrightarrow> distinct (map fst (merge_fields data vs))
     \<and> fst ` set (merge_fields data vs) = fst ` set data \<union> fst ` set vs"
  by (induction data vs rule: merge_fields.induct) (auto simp: distinct_update dom_update)

lemma merge_fields_map:
  "distinct (map fst vs) \<Longrightarrow> map_of (merge_fields data vs) = map_of data ++ map_of vs"
proof (induction data vs rule: merge_fields.induct)
  case (2 data field v vs)
  then have "map_of vs field = None" by (auto simp: map_of_eq_None_iff)
  with 2 show ?case by (auto simp: fun_eq_iff map_add_def update_conv' split: option.split)
qed simp

lemma ran_map_of_subset: "ran (map_of vs) \<subseteq> snd ` set vs"
  by (force simp: ran_def dest: map_of_SomeD)

lemma encode_row:
  assumes "codec_ok r n" and "row_fits r vs"
  shows "\<exists>bs. RowCodec_Encode r buf vs = Inr bs \<and> row_wf r bs \<and> row_of r bs = map_of vs"
proof -
  obtain bs data where bs: "RowCodec_Encode r buf vs = Inr bs" "DecodeRow bs = Ret (data, None)"
    and data: "\<forall>f\<in>set (codec_fields r). data (field_index r f) = map_of vs f"
    using Encode_columns [OF assms] by blast
  have "map_of vs f = None" if "f \<notin> set (codec_fields r)" for f
    using that assms(2) by (auto simp: row_fits_def map_of_eq_None_iff)
  then have eq: "row_of r bs = map_of vs" using bs(2) data by (auto simp: row_of_def)
  moreover have "int (length v) < 2 ^ 63" if "v \<in> ran (map_of vs)" for v
    using that assms(2) ran_map_of_subset [of vs] by (fastforce simp: row_fits_def)
  ultimately show ?thesis using bs by (auto simp: row_wf_def)
qed

definition wanted :: "rowcodec \<Rightarrow> string list \<Rightarrow> string set" where
  "wanted r fs = set (if fs = [] then codec_fields r else fs)"

lemma select_fields_distinct: "distinct (map fst (select_fields r data fs))"
proof -
  have "distinct (map fst acc) \<Longrightarrow> distinct (map fst (foldl (\<lambda>res field. case data (field_index r field) of
          Some v \<Rightarrow> AList.update field v res | None \<Rightarrow> res) acc fs))" for acc
    by (induction fs arbitrary: acc) (auto simp: distinct_update split: option.splits)
  then show ?thesis by (simp add: select_fields_def)
qed

lemma row_of_known: "dom (row_of r bs) \<subseteq> set (codec_fields r)"
  by (auto simp: row_of_def split: go.splits option.splits if_splits)

lemma restrict_wanted_all [simp]: "row_of r bs |` wanted r [] = row_of r bs"
proof
  fix x
  show "(row_of r bs |` wanted r []) x = row_of r bs x"
    using row_of_known [of r bs] by (cases "row_of r bs x") (auto simp: wanted_def restrict_map_def)
qed

lemma decode_row:
  assumes "row_wf r bs" and "set fs \<subseteq> set (codec_fields r)"
  shows "\<exists>res. RowCodec_Decode r bs fs = Ret (Inr res) \<and> map_of res = (if fs = [] then row_of r bs else row_of r bs |` set fs) \<and> distinct (map fst res)"
proof -
  obtain data where data: "DecodeRow bs = Ret (data, None)" using assms(1) by (auto simp: row_wf_def)
  let ?fs = "if fs = [] then codec_fields r else fs"
  have "map_of (select_fields r data ?fs) = row_of r bs |` wanted r fs"
    using assms(2) by (auto simp: select_fields_lookup row_of_def data wanted_def restrict_map_def fun_eq_iff)
  also have "\<dots> = (if fs = [] then row_of r bs else row_of r bs |` set fs)"
    using restrict_wanted_all [of r bs] by (auto simp: wanted_def)
  finally show ?thesis using data select_fields_distinct by (simp add: RowCodec_Decode_def)
qed

text \<open>Reading a row, overwriting some of its fields and writing it back.\<close>

lemma merge_row:
  assumes "codec_ok r n" and "row_wf r bs" and "row_fits r vs"
  shows "\<exists>res bs'. RowCodec_Decode r bs [] = Ret (Inr res) \<and> RowCodec_Encode r buf (merge_fields res vs) = Inr bs'
    \<and> row_wf r bs' \<and> row_of r bs' = row_of r bs ++ map_of vs
    \<and> distinct (map fst (merge_fields res vs)) \<and> map_of (merge_fields res vs) = row_of r bs ++ map_of vs"
proof -
  obtain res where res: "RowCodec_Decode r bs [] = Ret (Inr res)" "map_of res = row_of r bs" "distinct (map fst res)"
    using decode_row [OF assms(2), of "[]"] by auto
  let ?m = "merge_fields res vs"
  have map: "map_of ?m = row_of r bs ++ map_of vs"
    using merge_fields_map [of vs res] assms(3) res(2) by (simp add: row_fits_def)
  have dist: "distinct (map fst ?m)" and keys: "fst ` set ?m = fst ` set res \<union> fst ` set vs"
    using merge_fields_keys [OF res(3)] by auto
  have "fst ` set res \<subseteq> set (codec_fields r)"
    using row_of_known [of r bs] unfolding res(2) [symmetric] by (simp add: dom_map_of_conv_image_fst)
  moreover have "int (length (snd kv)) < 2 ^ 63" if kv: "kv \<in> set ?m" for kv
  proof -
    have "map_of ?m (fst kv) = Some (snd kv)" using map_of_is_SomeI [OF dist, of "fst kv" "snd kv"] kv by simp
    then have "map_of vs (fst kv) = Some (snd kv) \<or> row_of r bs (fst kv) = Some (snd kv)" by (auto simp: map map_add_Some_iff)
    then have "snd kv \<in> snd ` set vs \<or> snd kv \<in> ran (row_of r bs)"
      using ran_map_of_subset [of vs] by (auto intro: ranI)
    then show ?thesis using assms(2,3) by (auto simp: row_wf_def row_fits_def)
  qed
  ultimately have "row_fits r ?m" using dist keys assms(3) by (auto simp: row_fits_def)
  then show ?thesis using encode_row [OF assms(1)] res(1) map dist by metis
qed

text \<open>Every encoding of a row, in whatever order its fields are written, satisfies a condition of the store.\<close>

definition all_encodings :: "(byte list \<Rightarrow> bool) \<Rightarrow> (string \<rightharpoonup> byte list) \<Rightarrow> bool" where
  "all_encodings P m \<longleftrightarrow> (\<forall>r vs bs. distinct (map fst vs) \<longrightarrow> map_of vs = m \<longrightarrow> RowCodec_Encode r [] vs = Inr bs \<longrightarrow> P bs)"

text \<open>The rows of a byte store whose keys are row keys, and how a write changes them.\<close>

definition kv_rows :: "rowcodec \<Rightarrow> (byte list \<rightharpoonup> byte list) \<Rightarrow> string \<times> string \<rightharpoonup> (string \<rightharpoonup> byte list)" where
  "kv_rows r m = (\<lambda>(t, k). if plain_table t then map_option (row_of r) (m (getRowKey t k)) else None)"

definition kv_wf :: "rowcodec \<Rightarrow> (byte list \<rightharpoonup> byte list) \<Rightarrow> bool" where
  "kv_wf r m \<longleftrightarrow> (\<forall>bs\<in>ran m. row_wf r bs)"

lemma kv_rows_empty [simp]: "kv_rows r Map.empty = Map.empty"
  by (auto simp: kv_rows_def fun_eq_iff)

lemma kv_rows_upd:
  "plain_table t \<Longrightarrow> kv_rows r (m(getRowKey t k := e)) = (kv_rows r m)((t, k) := map_option (row_of r) e)"
  by (auto simp: kv_rows_def fun_eq_iff getRowKey_inj)

lemma kv_wf_upd: "kv_wf r m \<Longrightarrow> (\<And>bs. e = Some bs \<Longrightarrow> row_wf r bs) \<Longrightarrow> kv_wf r (m(k := e))"
  by (auto simp: kv_wf_def ran_def split: if_splits)

lemma kv_stored:
  assumes "kv_wf r m" and "plain_table t" and "kv_rows r m (t, k) = Some row"
  shows "\<exists>bs. m (getRowKey t k) = Some bs \<and> row_wf r bs \<and> row_of r bs = row"
  using assms by (auto simp: kv_rows_def kv_wf_def ranI)

definition row_accepts :: "(byte list \<Rightarrow> byte list \<Rightarrow> bool) \<Rightarrow> string \<Rightarrow> string \<Rightarrow> (string \<rightharpoonup> byte list) \<Rightarrow> bool" where
  "row_accepts adm t k = all_encodings (adm (getRowKey t k))"

lemma encode_accepted:
  assumes "codec_ok r n" and "row_fits r vs" and "row_accepts adm t k (map_of vs)"
  shows "\<exists>bs. RowCodec_Encode r [] vs = Inr bs \<and> adm (getRowKey t k) bs \<and> row_wf r bs \<and> row_of r bs = map_of vs"
  using encode_row [OF assms(1,2), of "[]"] assms(2,3) by (auto simp: row_accepts_def all_encodings_def row_fits_def)

lemma merge_accepted:
  assumes "codec_ok r n" and "row_wf r old" and "row_fits r vs" and "row_accepts adm t k (row_of r old ++ map_of vs)"
  shows "\<exists>data bs. RowCodec_Decode r old [] = Ret (Inr data) \<and> RowCodec_Encode r [] (merge_fields data vs) = Inr bs
    \<and> adm (getRowKey t k) bs \<and> row_wf r bs \<and> row_of r bs = row_of r old ++ map_of vs"
  using merge_row [OF assms(1-3), of "[]"] assms(4) by (auto simp: row_accepts_def all_encodings_def)

section \<open>The contract of a database\<close>

text \<open>
  The operations of a client as data, their execution through the methods of a database, and the same operations on
  a table that maps table name and key to a row. The result of a read is compared as a map, since the iteration
  order of a Go map is not fixed.
\<close>

datatype dbop =
    OpInsert string string row
  | OpUpdate string string row
  | OpDelete string string
  | OpRead string string "string list"

datatype dbres = Done "error option" | Row "error + (string \<rightharpoonup> byte list)"

type_synonym table = "string \<times> string \<rightharpoonup> (string \<rightharpoonup> byte list)"

definition map_res :: "('a \<Rightarrow> 'b) \<Rightarrow> ('a \<times> 'd) go \<Rightarrow> ('b \<times> 'd) go" where
  "map_res f m = gbind m (\<lambda>(a, d). Ret (f a, d))"

fun db_exec :: "'d db \<Rightarrow> dbop \<Rightarrow> 'd \<Rightarrow> (dbres \<times> 'd) go" where
  "db_exec D (OpInsert t k v) d = map_res Done (db_Insert D d t k v)"
| "db_exec D (OpUpdate t k v) d = map_res Done (db_Update D d t k v)"
| "db_exec D (OpDelete t k) d = map_res Done (db_Delete D d t k)"
| "db_exec D (OpRead t k fs) d = map_res (\<lambda>res. Row (map_sum id map_of res)) (db_Read D d t k fs)"

fun db_run :: "'d db \<Rightarrow> dbop list \<Rightarrow> 'd \<Rightarrow> (dbres list \<times> 'd) go" where
  "db_run D [] d = Ret ([], d)"
| "db_run D (op # ops) d =
     gbind (db_exec D op d) (\<lambda>(x, d1). gbind (db_run D ops d1) (\<lambda>(xs, d2). Ret (x # xs, d2)))"

fun table_exec :: "dbop \<Rightarrow> table \<Rightarrow> dbres \<times> table" where
  "table_exec (OpInsert t k v) T = (Done None, T((t, k) \<mapsto> map_of v))"
| "table_exec (OpUpdate t k v) T = (Done None, T((t, k) \<mapsto> the (T (t, k)) ++ map_of v))"
| "table_exec (OpDelete t k) T = (Done None, T((t, k) := None))"
| "table_exec (OpRead t k fs) T = (Row (Inr (if fs = [] then the (T (t, k)) else the (T (t, k)) |` set fs)), T)"

fun table_run :: "dbop list \<Rightarrow> table \<Rightarrow> dbres list \<times> table" where
  "table_run [] T = ([], T)"
| "table_run (op # ops) T =
     (let (x, T1) = table_exec op T; (xs, T2) = table_run ops T1 in (x # xs, T2))"

text \<open>
  An operation is admissible when the table name is one the adapter separates from others, the fields are known
  and distinct, the store accepts the entry, and a row that is read or updated exists.
\<close>

definition row_ok :: "string set \<Rightarrow> row \<Rightarrow> bool" where
  "row_ok known v \<longleftrightarrow> distinct (map fst v) \<and> fst ` set v \<subseteq> known \<and> (\<forall>kv\<in>set v. int (length (snd kv)) < 2 ^ 63)"

lemma row_ok_fits: "row_ok (set (codec_fields r)) v \<longleftrightarrow> row_fits r v"
  by (simp add: row_ok_def row_fits_def)

fun op_ok :: "string set \<Rightarrow> (string \<Rightarrow> bool) \<Rightarrow> (string \<Rightarrow> string \<Rightarrow> (string \<rightharpoonup> byte list) \<Rightarrow> bool) \<Rightarrow> dbop \<Rightarrow> table \<Rightarrow> bool" where
  "op_ok known tables accepts (OpInsert t k v) T \<longleftrightarrow> tables t \<and> row_ok known v \<and> accepts t k (map_of v)"
| "op_ok known tables accepts (OpUpdate t k v) T \<longleftrightarrow>
     tables t \<and> row_ok known v \<and> T (t, k) \<noteq> None \<and> accepts t k (the (T (t, k)) ++ map_of v)"
| "op_ok known tables accepts (OpDelete t k) T \<longleftrightarrow> tables t \<and> T (t, k) \<noteq> None"
| "op_ok known tables accepts (OpRead t k fs) T \<longleftrightarrow> tables t \<and> set fs \<subseteq> known \<and> T (t, k) \<noteq> None"

fun ops_ok :: "string set \<Rightarrow> (string \<Rightarrow> bool) \<Rightarrow> (string \<Rightarrow> string \<Rightarrow> (string \<rightharpoonup> byte list) \<Rightarrow> bool) \<Rightarrow> dbop list \<Rightarrow> table \<Rightarrow> bool" where
  "ops_ok known tables accepts [] T \<longleftrightarrow> True"
| "ops_ok known tables accepts (op # ops) T \<longleftrightarrow>
     op_ok known tables accepts op T \<and> ops_ok known tables accepts ops (snd (table_exec op T))"

locale row_db =
  fixes D :: "'d db"
    and inv :: "'d \<Rightarrow> bool"
    and rows :: "'d \<Rightarrow> table"
    and known :: "'d \<Rightarrow> string set"
    and tables :: "string \<Rightarrow> bool"
    and accepts :: "string \<Rightarrow> string \<Rightarrow> (string \<rightharpoonup> byte list) \<Rightarrow> bool"
  assumes Insert: "inv d \<Longrightarrow> tables t \<Longrightarrow> row_ok (known d) v \<Longrightarrow> accepts t k (map_of v) \<Longrightarrow>
      \<exists>d'. db_Insert D d t k v = Ret (None, d') \<and> inv d' \<and> known d' = known d \<and> rows d' = (rows d)((t, k) \<mapsto> map_of v)"
    and Update: "inv d \<Longrightarrow> tables t \<Longrightarrow> row_ok (known d) v \<Longrightarrow> rows d (t, k) = Some m \<Longrightarrow> accepts t k (m ++ map_of v) \<Longrightarrow>
      \<exists>d'. db_Update D d t k v = Ret (None, d') \<and> inv d' \<and> known d' = known d \<and> rows d' = (rows d)((t, k) \<mapsto> m ++ map_of v)"
    and Delete: "inv d \<Longrightarrow> tables t \<Longrightarrow> rows d (t, k) = Some m \<Longrightarrow>
      \<exists>d'. db_Delete D d t k = Ret (None, d') \<and> inv d' \<and> known d' = known d \<and> rows d' = (rows d)((t, k) := None)"
    and Read: "inv d \<Longrightarrow> tables t \<Longrightarrow> set fs \<subseteq> known d \<Longrightarrow> rows d (t, k) = Some m \<Longrightarrow>
      \<exists>res d'. db_Read D d t k fs = Ret (Inr res, d') \<and> inv d' \<and> known d' = known d \<and> rows d' = rows d
        \<and> map_of res = (if fs = [] then m else m |` set fs) \<and> distinct (map fst res)"
begin

text \<open>Every admissible sequence of operations behaves as on one table of rows.\<close>

lemma exec_refines:
  assumes "inv d" and "op_ok (known d) tables accepts op (rows d)"
  shows "\<exists>d'. db_exec D op d = Ret (fst (table_exec op (rows d)), d') \<and> inv d' \<and> known d' = known d
    \<and> rows d' = snd (table_exec op (rows d))"
proof (cases op)
  case (OpInsert t k v)
  then show ?thesis using assms Insert [of d t v k] by (auto simp: map_res_def)
next
  case (OpUpdate t k v)
  then show ?thesis using assms Update [of d t v k] by (auto simp: map_res_def)
next
  case (OpDelete t k)
  then show ?thesis using assms Delete [of d t k] by (auto simp: map_res_def)
next
  case (OpRead t k fs)
  then show ?thesis using assms Read [of d t fs k] by (auto simp: map_res_def)
qed

lemma run_refines:
  assumes "inv d" and "ops_ok (known d) tables accepts ops (rows d)"
  shows "\<exists>d'. db_run D ops d = Ret (fst (table_run ops (rows d)), d') \<and> inv d' \<and> known d' = known d
    \<and> rows d' = snd (table_run ops (rows d))"
  using assms
proof (induction ops arbitrary: d)
  case (Cons op ops)
  obtain d1 where d1: "db_exec D op d = Ret (fst (table_exec op (rows d)), d1)" "inv d1" "known d1 = known d"
      "rows d1 = snd (table_exec op (rows d))"
    using exec_refines [of d op] Cons.prems by auto
  with Cons.IH [of d1] Cons.prems(2) obtain d2 where
    "db_run D ops d1 = Ret (fst (table_run ops (rows d1)), d2)" "inv d2" "known d2 = known d" "rows d2 = snd (table_run ops (rows d1))"
    by auto
  with d1 show ?case by (simp add: Let_def split_def)
qed simp

end

end
