(* ===== verification/ClientProps.thy ===== *)
theory ClientProps
  imports Client MeasurementProps RowStore
begin

text \<open>
  Properties of the client. The measuring wrapper is transparent and measures every call exactly once; a wrapped
  database keeps the contract \<open>row_db\<close> of the database it wraps. The workers share out the operations without loss
  and their loops end after exactly the rounds their share needs.
\<close>

section \<open>Transparency of the wrapper\<close>

text \<open>The value and the database a wrapped call leaves.\<close>

definition unwrap :: "('a \<times> ('d, 'h) wrapped) go \<Rightarrow> ('a \<times> 'd) go" where
  "unwrap m = gbind m (\<lambda>(a, s). Ret (a, wr_db s))"

definition event_op :: "mevent \<Rightarrow> string" where
  "event_op e = (case e of EMeasure _ op _ _ \<Rightarrow> op | EWarmUp _ \<Rightarrow> [])"

definition names_of :: "string \<Rightarrow> error option \<Rightarrow> string list" where
  "names_of op err = (if err = None then [op, ''TOTAL''] else [op @ ''_ERROR''])"

lemma global_Measure_Ret:
  assumes "globalMeasure m \<noteq> None"
  shows "\<exists>m'. global_Measure H now op start lan m = Ret m' \<and> globalMeasure m' \<noteq> None"
  using assms by (auto simp: global_Measure_def)

text \<open>Recording is an event of the measurement, and touches nothing else but the clock.\<close>

lemma record_op_event:
  assumes "globalMeasure (wr_m s) \<noteq> None"
  shows "\<exists>s' now. record_op H op start lan s = Ret s' \<and> wr_db s' = wr_db s \<and> globalMeasure (wr_m s') \<noteq> None
    \<and> mevent_step H (EMeasure now op start lan) (wr_m s) = Ret (wr_m s')"
proof -
  obtain m' where "global_Measure H (wr_clock s 0) op start lan (wr_m s) = Ret m'" "globalMeasure m' \<noteq> None"
    using global_Measure_Ret [OF assms] by blast
  then show ?thesis by (auto simp: record_op_def tick_def)
qed

lemma client_measure_events:
  assumes "globalMeasure (wr_m s) \<noteq> None"
  shows "\<exists>s' evs. client_measure H start op err s = Ret s' \<and> wr_db s' = wr_db s \<and> globalMeasure (wr_m s') \<noteq> None
    \<and> mevents H evs (wr_m s) = Ret (wr_m s') \<and> map event_op evs = names_of op err"
proof -
  define s0 where "s0 = snd (tick s)"
  define lan where "lan = wr_clock s 0 - start"
  have g: "globalMeasure (wr_m s0) \<noteq> None" "wr_m s0 = wr_m s" "wr_db s0 = wr_db s" using assms by (simp_all add: s0_def tick_def)
  show ?thesis
  proof (cases err)
    case None
    obtain s1 n1 where s1: "record_op H op start lan s0 = Ret s1" "wr_db s1 = wr_db s0" "globalMeasure (wr_m s1) \<noteq> None"
        "mevent_step H (EMeasure n1 op start lan) (wr_m s0) = Ret (wr_m s1)"
      using record_op_event [OF g(1)] by blast
    obtain s2 n2 where s2: "record_op H ''TOTAL'' start lan s1 = Ret s2" "wr_db s2 = wr_db s1" "globalMeasure (wr_m s2) \<noteq> None"
        "mevent_step H (EMeasure n2 ''TOTAL'' start lan) (wr_m s1) = Ret (wr_m s2)"
      using record_op_event [OF s1(3)] by blast
    have "client_measure H start op err s = Ret s2"
      using s1(1) s2(1) None by (simp add: client_measure_def s0_def lan_def tick_def)
    then show ?thesis using s1 s2 g None
      by (intro exI [of _ s2] exI [of _ "[EMeasure n1 op start lan, EMeasure n2 ''TOTAL'' start lan]"])
        (simp add: names_of_def event_op_def)
  next
    case (Some e)
    obtain s1 n1 where s1: "record_op H (op @ ''_ERROR'') start lan s0 = Ret s1" "wr_db s1 = wr_db s0" "globalMeasure (wr_m s1) \<noteq> None"
        "mevent_step H (EMeasure n1 (op @ ''_ERROR'') start lan) (wr_m s0) = Ret (wr_m s1)"
      using record_op_event [OF g(1)] by blast
    have "client_measure H start op err s = Ret s1"
      using s1(1) Some by (simp add: client_measure_def s0_def lan_def tick_def)
    then show ?thesis using s1 g Some
      by (intro exI [of _ s1] exI [of _ "[EMeasure n1 (op @ ''_ERROR'') start lan]"]) (simp add: names_of_def event_op_def)
  qed
qed

text \<open>What a measured call does: it returns what the call returns, panics when it does, and records its names.\<close>

definition call_logged :: "'h hdr \<Rightarrow> string list \<Rightarrow> ('d, 'h) wrapped \<Rightarrow> ('d, 'h) wrapped \<Rightarrow> bool" where
  "call_logged H names s s' \<longleftrightarrow> globalMeasure (wr_m s') \<noteq> None
     \<and> (\<exists>evs. mevents H evs (wr_m s) = Ret (wr_m s') \<and> map event_op evs = names)"

lemma measured_call_spec:
  assumes "globalMeasure (wr_m s) \<noteq> None"
  shows "unwrap (measured_call H op err_of call s) = call (wr_db s)"
    and "measured_call H op err_of call s = Ret (r, s') \<Longrightarrow> call_logged H (names_of op (err_of r)) s s'"
proof -
  define s0 where "s0 = snd (tick s)"
  have s0: "wr_db s0 = wr_db s" "wr_m s0 = wr_m s" by (simp_all add: s0_def tick_def)
  have eq: "measured_call H op err_of call s = gbind (call (wr_db s)) (\<lambda>(r, d).
      gbind (client_measure H (wr_clock s 0) op (err_of r) (s0\<lparr>wr_db := d\<rparr>)) (\<lambda>s'. Ret (r, s')))"
    by (simp add: measured_call_def s0_def tick_def)
  have m: "\<exists>s' evs. client_measure H (wr_clock s 0) op e (s0\<lparr>wr_db := d\<rparr>) = Ret s' \<and> wr_db s' = d \<and> globalMeasure (wr_m s') \<noteq> None
      \<and> mevents H evs (wr_m s) = Ret (wr_m s') \<and> map event_op evs = names_of op e" for e d
    using client_measure_events [of "s0\<lparr>wr_db := d\<rparr>" H "wr_clock s 0" op e] assms s0 by simp
  show "unwrap (measured_call H op err_of call s) = call (wr_db s)"
  proof (cases "call (wr_db s)")
    case (Ret x)
    obtain s' where "client_measure H (wr_clock s 0) op (err_of (fst x)) (s0\<lparr>wr_db := snd x\<rparr>) = Ret s'" "wr_db s' = snd x"
      using m by blast
    then show ?thesis using Ret by (cases x) (simp add: unwrap_def eq)
  qed (simp_all add: unwrap_def eq)
  show "call_logged H (names_of op (err_of r)) s s'" if asm: "measured_call H op err_of call s = Ret (r, s')"
  proof -
    obtain d where d: "client_measure H (wr_clock s 0) op (err_of r) (s0\<lparr>wr_db := d\<rparr>) = Ret s'"
      using asm unfolding eq by (auto simp: gbind_eq_Ret_iff)
    then show ?thesis using m [of "err_of r" d] by (auto simp: call_logged_def)
  qed
qed

section \<open>Sequences of calls\<close>

definition op_name :: "dbop \<Rightarrow> string" where
  "op_name op = (case op of OpInsert _ _ _ \<Rightarrow> ''INSERT'' | OpUpdate _ _ _ \<Rightarrow> ''UPDATE'' | OpDelete _ _ \<Rightarrow> ''DELETE'' | OpRead _ _ _ \<Rightarrow> ''READ'')"

definition res_err :: "dbres \<Rightarrow> error option" where
  "res_err x = (case x of Done e \<Rightarrow> e | Row r \<Rightarrow> sum_err r)"

lemma map_res_unwrap: "map_res f (unwrap m) = unwrap (map_res f m)"
  by (cases m) (auto simp: map_res_def unwrap_def)

lemma sum_err_map [simp]: "sum_err (map_sum id f r) = sum_err r"
  by (cases r) (auto simp: sum_err_def)

lemma map_res_Ret: "map_res f m = Ret (x, s') \<Longrightarrow> \<exists>r. m = Ret (r, s') \<and> x = f r"
  by (cases m) (auto simp: map_res_def split: prod.splits)

lemma measured_exec:
  assumes "globalMeasure (wr_m s) \<noteq> None" and "\<And>r. res_err (f r) = err_of r"
  shows "unwrap (map_res f (measured_call H nm err_of call s)) = map_res f (call (wr_db s))"
    and "map_res f (measured_call H nm err_of call s) = Ret (x, s') \<Longrightarrow> call_logged H (names_of nm (res_err x)) s s'"
  using measured_call_spec [OF assms(1), of H nm err_of call] map_res_Ret [of f "measured_call H nm err_of call s" x s'] assms(2)
  by (auto simp: map_res_unwrap [symmetric])

lemma wrapper_exec:
  assumes "globalMeasure (wr_m s) \<noteq> None"
  shows "unwrap (db_exec (DbWrapper H D) op s) = db_exec D op (wr_db s)"
    and "db_exec (DbWrapper H D) op s = Ret (x, s') \<Longrightarrow> call_logged H (names_of (op_name op) (res_err x)) s s'"
proof -
  have e: "res_err (Done r) = id r" "res_err (Row (map_sum id f q)) = sum_err q" for r f q by (simp_all add: res_err_def)
  note m = measured_exec [OF assms, where H = H]
  show "unwrap (db_exec (DbWrapper H D) op s) = db_exec D op (wr_db s)"
    by (cases op) (simp_all add: DbWrapper_def wrapper_Insert_def wrapper_Update_def wrapper_Delete_def wrapper_Read_def m(1) e)
  show "call_logged H (names_of (op_name op) (res_err x)) s s'" if asm: "db_exec (DbWrapper H D) op s = Ret (x, s')"
    using asm
    by (cases op) (auto simp: DbWrapper_def wrapper_Insert_def wrapper_Update_def wrapper_Delete_def wrapper_Read_def op_name_def
        intro: m(2) [OF e(1)] m(2) [OF e(2)])
qed

lemma mevents_append: "mevents H (es @ fs) m = gbind (mevents H es m) (mevents H fs)"
proof (induction es arbitrary: m)
  case (Cons e es)
  show ?case by (cases "mevent_step H e m") (simp_all add: Cons.IH)
qed simp

lemma unwrap_gbind:
  assumes "\<And>a s'. m = Ret (a, s') \<Longrightarrow> unwrap (f a s') = g a (wr_db s')"
  shows "unwrap (gbind m (\<lambda>(a, s'). f a s')) = gbind (unwrap m) (\<lambda>(a, d). g a d)"
  using assms by (cases m) (auto simp: unwrap_def split: prod.splits)


text \<open>A concrete run over a database that keeps the keys it is given: an insert, a delete that fails, a read.\<close>

definition key_db :: "string list db" where
  "key_db =
     \<lparr>db_Close = (\<lambda>d. Ret (None, d)), db_InitThread = (\<lambda>d i n. Ret d), db_CleanupThread = Ret,
      db_Read = (\<lambda>d t k fs. Ret (if k \<in> set d then Inr [] else Inl ''missing'', d)), db_Scan = (\<lambda>d t k n fs. Ret (Inr [], d)),
      db_Update = (\<lambda>d t k v. Ret (None, d)), db_Insert = (\<lambda>d t k v. Ret (None, d @ [k])),
      db_Delete = (\<lambda>d t k. Ret (if k \<in> set d then None else Some ''missing'', removeAll k d)),
      db_Batch = None, db_Analyze = None, db_TypeName = ''*keys''\<rparr>"

definition sample_wrapped :: "(string list, unit) wrapped" where
  "sample_wrapped = \<lparr>wr_db = [], wr_m = \<lparr>globalMeasure = Some \<lparr>m_p = raw_props, m_measurer = MCsv []\<rparr>, warmUp = 0\<rparr>, wr_clock = (\<lambda>i. 1000 * int i)\<rparr>"

definition sample_ops :: "dbop list" where
  "sample_ops = [OpInsert ''t'' ''a'' [], OpDelete ''t'' ''b'', OpRead ''t'' ''a'' []]"


section \<open>Databases with threads\<close>

text \<open>The contract of a database that workers start and end threads on: neither that nor the analysis changes a row.\<close>

locale row_db_threads = row_db +
  assumes InitThread: "inv d \<Longrightarrow> \<exists>d'. db_InitThread D d i n = Ret d' \<and> inv d' \<and> known d' = known d \<and> rows d' = rows d"
    and CleanupThread: "inv d \<Longrightarrow> \<exists>d'. db_CleanupThread D d = Ret d' \<and> inv d' \<and> known d' = known d \<and> rows d' = rows d"
    and Analyze: "inv d \<Longrightarrow> db_Analyze D = Some f \<Longrightarrow> \<exists>e d'. f d t = Ret (e, d') \<and> inv d' \<and> known d' = known d \<and> rows d' = rows d"

lemma measured_call_Ret:
  assumes "globalMeasure (wr_m s) \<noteq> None" and "call (wr_db s) = Ret (r, d)"
  shows "\<exists>s'. measured_call H op err_of call s = Ret (r, s') \<and> wr_db s' = d \<and> globalMeasure (wr_m s') \<noteq> None"
proof -
  have "unwrap (measured_call H op err_of call s) = Ret (r, d)" using measured_call_spec(1) [OF assms(1), of H op err_of call] assms(2) by simp
  then obtain s' where s': "measured_call H op err_of call s = Ret (r, s')" "wr_db s' = d" by (auto simp: unwrap_def gbind_eq_Ret_iff)
  have "call_logged H (names_of op (err_of r)) s s'" by (rule measured_call_spec(2) [OF assms(1) s'(1)])
  then show ?thesis using s' by (simp add: call_logged_def)
qed

context row_db_threads
begin

text \<open>A wrapped database keeps the contract of the database.\<close>

lemma wrapped_contract:
  "row_db_threads (DbWrapper H D) (\<lambda>s. inv (wr_db s) \<and> globalMeasure (wr_m s) \<noteq> None) (\<lambda>s. rows (wr_db s)) (\<lambda>s. known (wr_db s)) tables accepts"
proof (unfold_locales, goal_cases)
  case (1 d t v k)
  then show ?case using Insert [of "wr_db d" t v k] measured_call_Ret [where s = d]
    by (fastforce simp: DbWrapper_def wrapper_Insert_def)
next
  case (2 d t v k m)
  then show ?case using Update [of "wr_db d" t v k m] measured_call_Ret [where s = d]
    by (fastforce simp: DbWrapper_def wrapper_Update_def)
next
  case (3 d t k m)
  then show ?case using Delete [of "wr_db d" t k m] measured_call_Ret [where s = d]
    by (fastforce simp: DbWrapper_def wrapper_Delete_def)
next
  case (4 d t fs k m)
  then obtain res d' where d': "db_Read D (wr_db d) t k fs = Ret (Inr res, d')" "inv d'" "known d' = known (wr_db d)" "rows d' = rows (wr_db d)"
      "map_of res = (if fs = [] then m else m |` set fs)" "distinct (map fst res)"
    using Read [of "wr_db d" t fs k m] by blast
  then obtain s' where "measured_call H ''READ'' sum_err (\<lambda>d. db_Read D d t k fs) d = Ret (Inr res, s')" "wr_db s' = d'" "globalMeasure (wr_m s') \<noteq> None"
    using measured_call_Ret [where s = d and call = "\<lambda>d. db_Read D d t k fs"] 4 by blast
  then show ?case using d' by (auto simp: DbWrapper_def wrapper_Read_def)
next
  case (5 d i n)
  then show ?case using InitThread [of "wr_db d" i n] by (auto simp: DbWrapper_def wrapper_InitThread_def)
next
  case (6 d)
  then show ?case using CleanupThread [of "wr_db d"] by (auto simp: DbWrapper_def wrapper_CleanupThread_def)
next
  case (7 d f t)
  then show ?case using Analyze [of "wr_db d" _ t]
    by (auto simp: DbWrapper_def wrapper_Analyze_def plain_call_def split: option.splits)
qed

end

section \<open>Workers\<close>

definition worker_share :: "int \<Rightarrow> nat \<Rightarrow> nat \<Rightarrow> int" where
  "worker_share tot n i = tot div int n + (if int i < tot mod int n then 1 else 0)"

lemma newWorker_share:
  assumes "int n \<le> totalOpCount p" and "totalOpCount p < 2 ^ 63" and "0 < n" and "i < n"
  shows "\<exists>w. newWorker p (int i) (int n) = Ret w \<and> wk_opCount w = worker_share (totalOpCount p) n i \<and> wk_opsDone w = 0
    \<and> wk_batchSize w = GetInt p prop_BatchSize prop_DefaultBatchSize \<and> wk_doBatch w = (1 < wk_batchSize w)
    \<and> wk_doTransactions w = GetBool p prop_DoTransactions True"
proof -
  let ?t = "totalOpCount p"
  have q: "go_div ?t (int n) = ?t div int n" "go_mod ?t (int n) = ?t mod int n" "0 \<le> ?t div int n"
    using assms by (simp_all add: go_div_nonneg go_mod_nonneg pos_imp_zdiv_nonneg_iff)
  have "?t div int n + 1 < 2 ^ 63" if "int i < ?t mod int n"
  proof -
    have "0 < ?t mod int n" using that by linarith
    then have "int n \<noteq> 1" by auto
    then have "2 \<le> int n" using assms(3) by linarith
    then have "?t div int n \<le> ?t div 2" using assms(1) by (intro zdiv_mono2) auto
    moreover have "?t div 2 + 1 < 2 ^ 63" using assms(2) by simp
    ultimately show ?thesis by linarith
  qed
  then have "i64 (?t div int n + 1) = ?t div int n + 1" if "int i < ?t mod int n"
    using that q(3) by (intro i64_id) (simp add: in_i64_def)
  then show ?thesis using assms q by (auto simp: newWorker_def worker_share_def Let_def)
qed

lemma sum_worker_share:
  assumes "0 < n" and "0 \<le> tot"
  shows "(\<Sum>i<n. worker_share tot n i) = tot"
proof -
  have "(\<Sum>i<n. if int i < tot mod int n then 1 else 0 :: int) = int (card {i. i < n \<and> int i < tot mod int n})"
    by (simp add: sum.If_cases Int_def lessThan_def)
  also have "{i. i < n \<and> int i < tot mod int n} = {..<nat (tot mod int n)}"
    using order.strict_trans [OF _ pos_mod_bound [of "int n" tot]] assms(1) by (force simp: zless_nat_eq_int_zless)
  finally have "(\<Sum>i<n. if int i < tot mod int n then 1 else 0 :: int) = tot mod int n" using assms by simp
  then show ?thesis by (simp add: worker_share_def sum.distrib)
qed

text \<open>
  C20. The client shares the operations out without loss: with at least one operation per thread every worker is
  created, the shares of the workers add up to the configured total, no two differ by more than one, and each is
  positive, so that no worker takes the endless loop that a share of 0 stands for.
\<close>

theorem operations_are_shared:
  assumes "0 < n" and "int n \<le> totalOpCount p" and "totalOpCount p < 2 ^ 63"
  shows "\<exists>w. (\<forall>i<n. newWorker p (int i) (int n) = Ret (w i)) \<and> (\<Sum>i<n. wk_opCount (w i)) = totalOpCount p
    \<and> (\<forall>i<n. 0 < wk_opCount (w i) \<and> (\<forall>j<n. wk_opCount (w i) \<le> wk_opCount (w j) + 1))"
proof -
  define w where "w i = (case newWorker p (int i) (int n) of Ret w \<Rightarrow> w)" for i
  have w: "newWorker p (int i) (int n) = Ret (w i)" "wk_opCount (w i) = worker_share (totalOpCount p) n i" if "i < n" for i
    using newWorker_share [OF assms(2,3,1) that] by (auto simp: w_def)
  have "1 \<le> totalOpCount p div int n"
    using zdiv_mono1 [OF assms(2), of "int n"] assms(1) by simp
  then have "0 < worker_share (totalOpCount p) n i \<and> worker_share (totalOpCount p) n i \<le> worker_share (totalOpCount p) n j + 1" for i j
    by (simp add: worker_share_def)
  moreover have "(\<Sum>i<n. wk_opCount (w i)) = totalOpCount p" using sum_worker_share [OF assms(1)] assms(2) w(2) by simp
  ultimately show ?thesis using w by (intro exI [of _ w]) auto
qed

definition run_props :: props where
  "run_props = props_of [(''operationcount'', 10)] []"

theorem operations_are_shared_witness:
  "\<exists>w. (\<forall>i<3. newWorker run_props (int i) 3 = Ret (w i)) \<and> (\<Sum>i<3. wk_opCount (w i)) = 10"
proof -
  have t: "totalOpCount run_props = 10" by (simp add: totalOpCount_def run_props_def props_of_def prop_defs Let_def)
  show ?thesis using operations_are_shared [of 3 run_props] unfolding t by auto
qed

section \<open>The loop of a worker\<close>

definition rounds :: "worker \<Rightarrow> nat" where
  "rounds w = nat ((wk_opCount w - wk_opsDone w + opsCount w - 1) div opsCount w)"

lemma count_ops_more:
  assumes "0 < wk_opCount w" and "more_ops w" and "0 < opsCount w" and "0 \<le> wk_opsDone w" and "wk_opCount w + opsCount w < 2 ^ 63"
  shows "wk_opsDone (count_ops True w) = wk_opsDone w + opsCount w" and "wk_opCount (count_ops True w) = wk_opCount w"
    and "opsCount (count_ops True w) = opsCount w" and "rounds w = Suc (rounds (count_ops True w))"
proof -
  have d: "wk_opsDone w < wk_opCount w" using assms(1,2) by (simp add: more_ops_def)
  then show o: "wk_opsDone (count_ops True w) = wk_opsDone w + opsCount w"
    using assms by (simp add: count_ops_def i64_id in_i64_def)
  show c: "wk_opCount (count_ops True w) = wk_opCount w" "opsCount (count_ops True w) = opsCount w"
    by (simp_all add: count_ops_def opsCount_def)
  let ?x = "wk_opCount w - wk_opsDone w - 1"
  have "wk_opCount w - wk_opsDone w + opsCount w - 1 = ?x + opsCount w" by simp
  then have "(wk_opCount w - wk_opsDone w + opsCount w - 1) div opsCount w = ?x div opsCount w + 1"
    using assms(3) by (simp only: div_add_self2)
  moreover have "wk_opCount w - (wk_opsDone w + opsCount w) + opsCount w - 1 = ?x" by simp
  moreover have "0 \<le> ?x div opsCount w" using d assms(3) by (simp add: pos_imp_zdiv_nonneg_iff)
  ultimately show "rounds w = Suc (rounds (count_ops True w))"
    unfolding rounds_def o c by (simp only: Suc_nat_eq_nat_zadd1 add.commute)
qed

lemma no_more_rounds:
  assumes "\<not> more_ops w" and "0 < wk_opCount w" and "0 < opsCount w"
  shows "rounds w = 0"
proof -
  have "wk_opCount w - wk_opsDone w + opsCount w - 1 \<le> opsCount w - 1" using assms(1,2) by (simp add: more_ops_def)
  from zdiv_mono1 [OF this assms(3)] show ?thesis using assms(3) by (simp add: rounds_def div_pos_pos_trivial)
qed

lemma worker_run_bounded:
  assumes "\<And>j s. I j s \<Longrightarrow> j < i + fuel \<Longrightarrow> \<exists>err s'. op s = Ret (err, s') \<and> I (Suc j) s'" and "I i s"
    and "0 < wk_opCount w" and "0 < opsCount w" and "0 \<le> wk_opsDone w" and "wk_opCount w + opsCount w < 2 ^ 63"
    and "wk_opsDone w < wk_opCount w + opsCount w" and "\<And>j. k \<le> j \<Longrightarrow> warm j" and "(k - i) + rounds w \<le> fuel"
  shows "\<exists>w' s' j. worker_run op warm (\<lambda>_. False) fuel i w s = Ret (w', s') \<and> I j s' \<and> j \<le> i + fuel \<and> \<not> more_ops w'
    \<and> wk_opCount w' = wk_opCount w \<and> wk_opsDone w' < wk_opCount w + opsCount w"
  using assms
proof (induction fuel arbitrary: i w s)
  case 0
  have "\<not> more_ops w"
  proof
    assume "more_ops w"
    from count_ops_more(4) [OF "0.prems"(3) this "0.prems"(4-6)] show False using "0.prems"(9) by simp
  qed
  then show ?case using "0.prems"(2,7) by (subst worker_run.simps) auto
next
  case (Suc fuel)
  show ?case
  proof (cases "more_ops w")
    case True
    note c = count_ops_more [OF Suc.prems(3) True Suc.prems(4-6)]
    obtain err s1 where s1: "op s = Ret (err, s1)" "I (Suc i) s1" using Suc.prems(1) [of i s] Suc.prems(2) by auto
    have d: "wk_opsDone w < wk_opCount w" using True Suc.prems(3) by (simp add: more_ops_def)
    let ?w = "count_ops (warm i) w"
    have w: "wk_opCount ?w = wk_opCount w" "opsCount ?w = opsCount w" by (simp_all add: count_ops_def opsCount_def)
    have dn: "0 \<le> wk_opsDone ?w" "wk_opsDone ?w < wk_opCount w + opsCount w"
    proof -
      consider "warm i" "?w = count_ops True w" | "?w = w" by (cases "warm i") (auto simp: count_ops_def)
      then show "0 \<le> wk_opsDone ?w" "wk_opsDone ?w < wk_opCount w + opsCount w"
        by (cases; use c(1) d Suc.prems(4,5) in simp)+
    qed
    have "\<exists>w' s' j. worker_run op warm (\<lambda>_. False) fuel (Suc i) ?w s1 = Ret (w', s') \<and> I j s' \<and> j \<le> Suc i + fuel \<and> \<not> more_ops w'
        \<and> wk_opCount w' = wk_opCount ?w \<and> wk_opsDone w' < wk_opCount ?w + opsCount ?w"
    proof (rule Suc.IH [OF _ s1(2)])
      show "(k - Suc i) + rounds ?w \<le> fuel"
      proof (cases "warm i")
        case False
        then have "i < k" using Suc.prems(8) [of i] by (cases "i < k") auto
        then show ?thesis using Suc.prems(9) False by (simp add: count_ops_def)
      qed (use Suc.prems(9) c(4) in auto)
      show "0 \<le> wk_opsDone ?w" "wk_opsDone ?w < wk_opCount ?w + opsCount ?w"
        using dn by (simp_all only: w)
    qed (use Suc.prems w in auto)
    then show ?thesis using s1(1) True w by (subst worker_run.simps) (auto simp: Let_def)
  next
    case False
    then show ?thesis using Suc.prems(2,7) by (subst worker_run.simps) auto
  qed
qed

text \<open>
  C21. The loop of a worker ends: if the warm-up is over after \<open>k\<close> rounds and the operations return, then \<open>k\<close> rounds and as many
  as the share needs suffice. It ends when the counted operations reach the share, exactly when operations are single
  ones, and with at most one batch more in batch mode.
\<close>

theorem worker_run_ends:
  assumes "newWorker p (int i) (int n) = Ret w" and "0 < n" and "i < n" and "totalOpCount p + max 1 (wk_batchSize w) < 2 ^ 63"
    and "\<And>j. k \<le> j \<Longrightarrow> warm j" and "fuel = k + rounds w"
    and "\<And>j s. I j s \<Longrightarrow> j < fuel \<Longrightarrow> \<exists>err s'. worker_op E D (\<lambda>_. False) w s = Ret (err, s') \<and> I (Suc j) s'" and "I 0 s"
  shows "\<exists>w' s'. worker_run (worker_op E D (\<lambda>_. False) w) warm (\<lambda>_. False) fuel 0 w s = Ret (w', s')
    \<and> wk_opCount w \<le> wk_opsDone w' \<and> wk_opsDone w' < wk_opCount w + opsCount w \<and> (\<not> wk_doBatch w \<longrightarrow> wk_opsDone w' = wk_opCount w)"
proof -
  have t: "int n \<le> totalOpCount p" using assms(1) by (auto simp: newWorker_def Let_def split: if_splits)
  have lt: "totalOpCount p < 2 ^ 63" using assms(4) by linarith
  have w: "wk_opCount w = worker_share (totalOpCount p) n i" "wk_opsDone w = 0" "wk_doBatch w = (1 < wk_batchSize w)"
    using newWorker_share [OF t lt assms(2,3)] assms(1) by auto
  have o: "0 < opsCount w" "opsCount w \<le> max 1 (wk_batchSize w)" using w(3) by (auto simp: opsCount_def)
  have q: "1 \<le> totalOpCount p div int n" using zdiv_mono1 [OF t, of "int n"] assms(2) by simp
  have "wk_opCount w \<le> (\<Sum>j<n. worker_share (totalOpCount p) n j)"
    unfolding w(1) using assms(3) q by (intro member_le_sum) (auto simp: worker_share_def)
  also have "\<dots> = totalOpCount p" using sum_worker_share [OF assms(2)] t by simp
  finally have le: "wk_opCount w \<le> totalOpCount p" .
  have pos: "0 < wk_opCount w" using q by (simp add: w(1) worker_share_def)
  have "\<exists>w' s' j. worker_run (worker_op E D (\<lambda>_. False) w) warm (\<lambda>_. False) fuel 0 w s = Ret (w', s') \<and> I j s' \<and> j \<le> 0 + fuel \<and> \<not> more_ops w'
      \<and> wk_opCount w' = wk_opCount w \<and> wk_opsDone w' < wk_opCount w + opsCount w"
    by (rule worker_run_bounded [where k = k]) (use assms o le pos w(2) in auto)
  moreover have "\<not> wk_doBatch w \<Longrightarrow> opsCount w = 1" by (simp add: opsCount_def)
  ultimately show ?thesis using pos by (auto simp: more_ops_def)
qed

definition batch_props :: props where
  "batch_props = props_of [(''operationcount'', 10), (''batch.size'', 4)] []"

text \<open>A batch worker on a database without batches: its operations return an error each, and it still ends.\<close>

theorem worker_run_ends_witness:
  "\<forall>E (s :: string list wstate). \<exists>w w' s'. newWorker batch_props 0 1 = Ret w
     \<and> worker_run (worker_op E key_db (\<lambda>_. False) w) (\<lambda>j. 2 \<le> j) (\<lambda>_. False) 5 0 w s = Ret (w', s') \<and> 10 \<le> wk_opsDone w' \<and> wk_opsDone w' < 14"
proof (intro allI)
  fix E and s :: "string list wstate"
  let ?w = "\<lparr>wk_p = batch_props, wk_doTransactions = True, wk_doBatch = True, wk_batchSize = 4, wk_opCount = 10,
     wk_targetOpsPerMs = Fin 0, wk_threadID = 0, wk_targetOpsTickNs = 0, wk_opsDone = 0\<rparr>"
  have w: "newWorker batch_props (int 0) (int 1) = Ret ?w"
    by (simp add: newWorker_def totalOpCount_def batch_props_def props_of_def prop_defs Let_def go_div_def go_mod_def)
  have "\<exists>w' s'. worker_run (worker_op E key_db (\<lambda>_. False) ?w) (\<lambda>j. 2 \<le> j) (\<lambda>_. False) 5 0 ?w s = Ret (w', s')
    \<and> wk_opCount ?w \<le> wk_opsDone w' \<and> wk_opsDone w' < wk_opCount ?w + opsCount ?w \<and> (\<not> wk_doBatch ?w \<longrightarrow> wk_opsDone w' = wk_opCount ?w)"
    by (rule worker_run_ends [OF w, where k = 2 and I = "\<lambda>_ _. True"])
      (simp_all add: rounds_def opsCount_def totalOpCount_def batch_props_def props_of_def prop_defs Let_def worker_op_def DoBatchTransaction_def key_db_def aret_def)
  then show "\<exists>w w' s'. newWorker batch_props 0 1 = Ret w
      \<and> worker_run (worker_op E key_db (\<lambda>_. False) w) (\<lambda>j. 2 \<le> j) (\<lambda>_. False) 5 0 w s = Ret (w', s') \<and> 10 \<le> wk_opsDone w' \<and> wk_opsDone w' < 14"
    using w by (auto simp: opsCount_def)
qed

end
