(* ===== verification/WorkloadProps.thy ===== *)
theory WorkloadProps
  imports Workload
begin

text \<open>
  Correctness of the core workload: key names do not collide, rows written in data integrity mode verify,
  the load phase inserts the configured keys in order, transactions only touch keys of the loaded range
  and only perform configured operations, and what the retry loop does on success and on failure.
\<close>

section \<open>Sequencing\<close>

lemma abind_Ret [simp]: "m s = Ret (a, s') \<Longrightarrow> abind m f s = f a s'"
  by (simp add: abind_def)

lemma aret_eq [simp]: "aret a s = Ret (a, s)"
  by (simp add: aret_def)

lemma alift_Ret [simp]: "alift (Ret a) s = Ret (a, s)"
  by (simp add: alift_def)

lemma abind_eq_Ret: "abind m f s = Ret (b, s2) \<longleftrightarrow> (\<exists>a s1. m s = Ret (a, s1) \<and> f a s1 = Ret (b, s2))"
  by (auto simp: abind_def gbind_eq_Ret_iff)

section \<open>Generators behind the interface\<close>

interpretation mixgraph: ranged_gen "MixGraph_Next M" mixgraph_inv "\<lambda>_. 0" "\<lambda>m. mg_numKeys m - 1" for M
proof
  fix g r v g' r'
  assume inv: "mixgraph_inv g"
  obtain off where off: "0 \<le> off" "off < mg_regionSize g" "MixGraph_Next M g r =
     (let k = min (mg_regionMap g ! drawn_rank g r * mg_regionSize g + off) (mg_numKeys g - 1)
      in Ret (k, g\<lparr>mg_lastVal := k\<rparr>, advance (advance r)))"
    using MixGraph_Next_eq [OF inv refl, where r = r and M = M] by blast
  have p: "0 \<le> mg_regionMap g ! drawn_rank g r * mg_regionSize g" "1 \<le> mg_numKeys g"
    using region_at [OF inv drawn_rank_less [OF inv]] inv by (auto simp: mixgraph_inv_def)
  show "returns (MixGraph_Next M g r)" using off by (simp add: Let_def)
  assume "MixGraph_Next M g r = Ret (v, g', r')"
  then have e: "v = min (mg_regionMap g ! drawn_rank g r * mg_regionSize g + off) (mg_numKeys g - 1)"
      "g' = g\<lparr>mg_lastVal := v\<rparr>" using off(3) by (auto simp: Let_def)
  show "0 \<le> v \<and> v \<le> mg_numKeys g - 1" using e(1) p off(1) by simp
  show "mixgraph_inv g' \<and> (0 :: int) = 0 \<and> mg_numKeys g' - 1 = mg_numKeys g - 1"
    using inv by (simp add: e(2) mixgraph_inv_def)
qed

text \<open>
  The dispatch satisfies the range contract wherever the generator behind it does.
\<close>

fun gen_ok :: "wenv \<Rightarrow> generator \<Rightarrow> bool" where
  "gen_ok E (GConstant g) = True"
| "gen_ok E (GUniform g) = uniform_inv g"
| "gen_ok E (GHotspot g) = hotspot_inv g"
| "gen_ok E (GZipfian g) = zipf_inv (e_math E) g"
| "gen_ok E (GMixGraph g) = mixgraph_inv g"
| "gen_ok E _ = False"

fun gen_lo :: "generator \<Rightarrow> int" where
  "gen_lo (GConstant g) = constant_value g"
| "gen_lo (GUniform g) = uniform_lb g"
| "gen_lo (GHotspot g) = hot_lowerBound g"
| "gen_lo (GZipfian g) = zipf_base g"
| "gen_lo _ = 0"

fun gen_hi :: "generator \<Rightarrow> int" where
  "gen_hi (GConstant g) = constant_value g"
| "gen_hi (GUniform g) = uniform_ub g"
| "gen_hi (GHotspot g) = hot_upperBound g"
| "gen_hi (GZipfian g) = zipf_base g + zipf_items g"
| "gen_hi (GMixGraph g) = mg_numKeys g - 1"
| "gen_hi _ = 0"

lemma wrap_gen_returns: "returns (wrap_gen con m) \<longleftrightarrow> returns m"
  by (cases m) (auto simp: wrap_gen_def split: prod.splits)

lemma wrap_gen_Ret: "wrap_gen con m = Ret (v, g, r) \<longleftrightarrow> (\<exists>g0. m = Ret (v, g0, r) \<and> g = con g0)"
  by (cases m) (auto simp: wrap_gen_def)

interpretation gen: ranged_gen "gen_Next E lst" "gen_ok E" gen_lo gen_hi for E lst
proof
  fix g r v g' r'
  assume ok: "gen_ok E g"
  then show "returns (gen_Next E lst g r)"
    by (cases g) (auto simp: wrap_gen_returns intro: cgen.next_returns uniform.next_returns hotspot.next_returns
        zipfian.next_returns mixgraph.next_returns)
  assume "gen_Next E lst g r = Ret (v, g', r')"
  with ok show "gen_lo g \<le> v \<and> v \<le> gen_hi g"
    by (cases g) (auto simp: wrap_gen_Ret Constant_Next_def dest: uniform.next_range hotspot.next_range
        zipfian.next_range mixgraph.next_range)
  from \<open>gen_Next E lst g r = Ret (v, g', r')\<close> ok
  show "gen_ok E g' \<and> gen_lo g' = gen_lo g \<and> gen_hi g' = gen_hi g"
    by (cases g) (auto simp: wrap_gen_Ret Constant_Next_def dest: uniform.next_inv hotspot.next_inv
        zipfian.next_inv mixgraph.next_inv)
qed

section \<open>Key names\<close>

lemma buildKeyName_inj:
  assumes "0 \<le> c_zeroPadding c" and "c_zeroPadding c \<le> 1000000" and "buildKeyName c m = buildKeyName c n"
  shows "if c_orderedInserts c then m = n else Hash64 m = Hash64 n"
  using assms pad_int_inj [OF assms(1,2)] by (auto simp: buildKeyName_def Let_def split: if_splits)

section \<open>Values\<close>

lemma length_fill_value: "sz \<le> int (length (fill_value sz b))"
  by (induction sz b rule: fill_value.induct) (subst fill_value.simps, simp add: Let_def)

lemma length_deterministic_value: "0 \<le> n \<Longrightarrow> int (length (deterministic_value n key f)) = n"
  using length_fill_value [of n "bytes_of (key @ '':'' @ to_lower f)"] by (simp add: deterministic_value_def)

text \<open>A constant field length, the only kind that data integrity checks admit.\<close>

definition const_length :: "int \<Rightarrow> 'd wstate \<Rightarrow> bool" where
  "const_length n s \<longleftrightarrow> c_fieldLengthGenerator (w_core s) = GConstant (NewConstant n) \<and> 0 \<le> n \<and> n + 21 < 2 ^ 63"

lemma next_fieldLength_const:
  assumes "const_length n s"
  shows "next_fieldLength E s = Ret (n, s)"
proof -
  have "(w_core s)\<lparr>c_fieldLengthGenerator := c_fieldLengthGenerator (w_core s)\<rparr> = w_core s" by simp
  with assms show ?thesis
    by (simp add: const_length_def next_fieldLength_def draw_def wrap_gen_def Constant_Next_def NewConstant_def)
qed

lemma buildDeterministicValue_const:
  "const_length n s \<Longrightarrow> buildDeterministicValue E key f s = Ret (deterministic_value n key f, s)"
  using next_fieldLength_const [of n s E]
  by (simp add: buildDeterministicValue_def getValueBuffer_def const_length_def i64_id in_i64_def)

lemma verifyRow_const:
  "const_length n s \<Longrightarrow> verifyRow E key vals s =
     (if \<forall>(f, v)\<in>set vals. v = deterministic_value n key f then Ret ((), s)
      else Exit ''unexpected deterministic value'')"
  by (induction vals) (auto simp: buildDeterministicValue_const)

lemma build_fields_integrity:
  assumes "const_length n s" and "c_dataIntegrity (w_core s)" and "\<forall>(f, v)\<in>set acc. v = deterministic_value n key f"
  shows "\<exists>vals. build_fields E key fs acc s = Ret (vals, s) \<and> (\<forall>(f, v)\<in>set vals. v = deterministic_value n key f)
     \<and> fst ` set vals = fst ` set acc \<union> set fs"
  using assms
proof (induction fs arbitrary: acc)
  case (Cons f fs)
  let ?v = "deterministic_value n key f"
  have "buildValue E key f s = Ret (?v, s)" using Cons.prems by (simp add: buildValue_def buildDeterministicValue_const)
  moreover have "\<forall>(g, v)\<in>set (AList.update f ?v acc). v = deterministic_value n key g"
    using Cons.prems(3) by (induction acc) auto
  ultimately show ?case using Cons.IH [OF Cons.prems(1,2), of "AList.update f ?v acc"] by (auto simp: dom_update)
qed simp

lemma RandBytes_returns: "\<exists>bs r'. RandBytes r n = Ret (bs, r') \<and> length bs = n"
proof (induction n arbitrary: r)
  case (Suc n)
  from Suc [of "advance r"] show ?case by (auto simp: Intn_def letters_def)
qed simp

lemma buildValue_const:
  assumes "const_length n s"
  shows "\<exists>v r'. buildValue E key f s = Ret (v, s\<lparr>w_rand := r'\<rparr>) \<and> int (length v) = n"
proof (cases "c_dataIntegrity (w_core s)")
  case True
  have "s = s\<lparr>w_rand := w_rand s\<rparr>" by simp
  then show ?thesis using True buildDeterministicValue_const [OF assms, of E key f] length_deterministic_value [of n key f] assms
    unfolding buildValue_def const_length_def by (metis (no_types))
next
  case False
  obtain bs r' where "RandBytes (w_rand s) (nat n) = Ret (bs, r')" "length bs = nat n"
    using RandBytes_returns by blast
  then show ?thesis using False assms next_fieldLength_const [OF assms, of E]
    by (auto simp: buildValue_def buildRandomValue_def getValueBuffer_def const_length_def)
qed

lemma const_length_rand [simp]: "const_length n (s\<lparr>w_rand := r\<rparr>) = const_length n s"
  by (simp add: const_length_def)

lemma build_fields_const:
  "const_length n s \<Longrightarrow> \<exists>vals r'. build_fields E key fs acc s = Ret (vals, s\<lparr>w_rand := r'\<rparr>)"
proof (induction fs arbitrary: acc s)
  case Nil
  then show ?case by (auto intro: exI [of _ "w_rand s"])
next
  case (Cons f fs)
  obtain v r1 where v: "buildValue E key f s = Ret (v, s\<lparr>w_rand := r1\<rparr>)" using buildValue_const [OF Cons.prems] by blast
  obtain vals r2 where "build_fields E key fs (AList.update f v acc) (s\<lparr>w_rand := r1\<rparr>)
      = Ret (vals, (s\<lparr>w_rand := r1\<rparr>)\<lparr>w_rand := r2\<rparr>)"
    using Cons.IH [of "s\<lparr>w_rand := r1\<rparr>" "AList.update f v acc"] Cons.prems by auto
  then show ?case using v by auto
qed

lemma buildValues_const: "const_length n s \<Longrightarrow> \<exists>vals r'. buildValues E key s = Ret (vals, s\<lparr>w_rand := r'\<rparr>)"
  unfolding buildValues_def by (rule build_fields_const)

section \<open>The retry loop\<close>

lemma retry_loop_fails:
  "attempt s = Ret (Some e, s') \<Longrightarrow> retry_loop attempt canceled (Suc fuel) n s = Ret (Some e, s')"
  by simp

text \<open>An attempt on the database that always succeeds and changes it by \<open>f\<close> is repeated up to the limit.\<close>

lemma retry_loop_succeeds:
  assumes "\<And>d. op d = Ret (None, f d)" and "\<And>k. \<not> canceled k"
    and "c_insertionRetryLimit (w_core s) = limit" and "0 \<le> n" and "n \<le> limit" and "limit < 2 ^ 63 - 1"
    and "nat (limit - n) < fuel"
  shows "\<exists>r'. retry_loop (run_db op) canceled fuel n s = Ret (None, s\<lparr>w_rand := r', w_db := (f ^^ nat (limit - n + 1)) (w_db s)\<rparr>)"
  using assms(3-7)
proof (induction fuel arbitrary: n s)
  case (Suc fuel)
  have i: "i64 (n + 1) = n + 1" using Suc.prems assms(6) by (intro i64_id) (auto simp: in_i64_def)
  show ?case
  proof (cases "n = limit")
    case True
    have "retry_loop (run_db op) canceled (Suc fuel) n s = Ret (None, s\<lparr>w_rand := w_rand s, w_db := f (w_db s)\<rparr>)"
      using True Suc.prems assms(1,2) i by (simp add: run_db_def)
    then show ?thesis using True by (intro exI [of _ "w_rand s"]) simp
  next
    case False
    let ?s = "s\<lparr>w_db := f (w_db s), w_rand := advance (w_rand s)\<rparr>"
    have step: "retry_loop (run_db op) canceled (Suc fuel) n s = retry_loop (run_db op) canceled fuel (n + 1) ?s"
      using False Suc.prems assms(1,2) i by (simp add: run_db_def rFloat64_eq)
    have p: "Suc (nat (limit - (n + 1) + 1)) = nat (limit - n + 1)" using Suc.prems False by simp
    have "(f ^^ nat (limit - (n + 1) + 1)) (f (w_db s)) = (f ^^ nat (limit - n + 1)) (w_db s)"
      by (simp only: p [symmetric] funpow_Suc_right comp_apply)
    with Suc.IH [of ?s "n + 1"] Suc.prems False step show ?thesis by auto
  qed
qed simp

section \<open>The load phase\<close>

text \<open>A worker inserting \<open>n\<close> records one after the other, as the load phase does.\<close>

fun insert_all :: "wenv \<Rightarrow> 'd db \<Rightarrow> nat \<Rightarrow> 'd wstate \<Rightarrow> (error option list \<times> 'd wstate) go" where
  "insert_all E db 0 = aret []"
| "insert_all E db (Suc n) =
     abind (DoInsert E db (\<lambda>_. False)) (\<lambda>err. abind (insert_all E db n) (\<lambda>errs. aret (err # errs)))"

text \<open>A database that records the keys it is given, in order, and accepts every insert.\<close>

definition recording_db :: "string list db" where
  "recording_db =
     \<lparr>db_Close = (\<lambda>d. Ret (None, d)), db_InitThread = (\<lambda>d i n. Ret d), db_CleanupThread = Ret,
      db_Read = (\<lambda>d t k fs. Ret (Inr [], d)), db_Scan = (\<lambda>d t k n fs. Ret (Inr [], d)),
      db_Update = (\<lambda>d t k v. Ret (None, d)), db_Insert = (\<lambda>d t k v. Ret (None, d @ [k])),
      db_Delete = (\<lambda>d t k. Ret (None, d)), db_Batch = None, db_Analyze = None, db_TypeName = ''recording''\<rparr>"

definition loading :: "int \<Rightarrow> int \<Rightarrow> 'd wstate \<Rightarrow> bool" where
  "loading next_key len s \<longleftrightarrow> const_length len s \<and> c_keySequence (w_core s) = GCounter \<lparr>counter_val = next_key\<rparr>
     \<and> in_i64 next_key \<and> c_insertionRetryLimit (w_core s) = 0"

lemma next_keySequence_eq:
  assumes "loading k len s" and "k < 2 ^ 63 - 1"
  shows "next_keySequence E s = Ret (k, s\<lparr>w_core := (w_core s)\<lparr>c_keySequence := GCounter \<lparr>counter_val = k + 1\<rparr>\<rparr>\<rparr>)
    \<and> loading (k + 1) len (s\<lparr>w_core := (w_core s)\<lparr>c_keySequence := GCounter \<lparr>counter_val = k + 1\<rparr>\<rparr>\<rparr>)"
proof -
  have "i64 (k + 1) = k + 1" "i64 k = k" using assms by (auto simp: loading_def in_i64_def intro!: i64_id)
  then show ?thesis using assms
    by (simp add: loading_def next_keySequence_def draw_def wrap_gen_def Counter_Next_def Let_def const_length_def in_i64_def)
qed

lemma loading_frame [simp]:
  "loading k len (s\<lparr>w_rand := r\<rparr>) = loading k len s" "loading k len (s\<lparr>w_db := d\<rparr>) = loading k len s"
  by (simp_all add: loading_def const_length_def)

lemma DoInsert_records:
  assumes "loading k len s" and "k < 2 ^ 63 - 1" and "0 < e_fuel E"
  shows "\<exists>s'. DoInsert E recording_db (\<lambda>_. False) s = Ret (None, s') \<and> loading (k + 1) len s'
    \<and> w_db s' = w_db s @ [buildKeyName (w_core s) k] \<and> (\<forall>j. buildKeyName (w_core s') j = buildKeyName (w_core s) j)"
proof -
  let ?s1 = "s\<lparr>w_core := (w_core s)\<lparr>c_keySequence := GCounter \<lparr>counter_val = k + 1\<rparr>\<rparr>\<rparr>"
  have n: "next_keySequence E s = Ret (k, ?s1)" and l: "loading (k + 1) len ?s1"
    using next_keySequence_eq [OF assms(1,2)] by auto
  have key: "buildKeyName (w_core ?s1) j = buildKeyName (w_core s) j" for j by (simp add: buildKeyName_def)
  obtain v r1 where v: "buildValues E (buildKeyName (w_core s) k) ?s1 = Ret (v, ?s1\<lparr>w_rand := r1\<rparr>)"
    using buildValues_const [of len ?s1 E "buildKeyName (w_core s) k"] l unfolding loading_def by blast
  let ?op = "\<lambda>d. db_Insert recording_db d (c_table (w_core (?s1\<lparr>w_rand := r1\<rparr>))) (buildKeyName (w_core s) k) v"
  have "?op d = Ret (None, d @ [buildKeyName (w_core s) k])" for d by (simp add: recording_db_def)
  then obtain r2 where r2: "retry_loop (run_db ?op) (\<lambda>_. False) (e_fuel E) 0 (?s1\<lparr>w_rand := r1\<rparr>)
      = Ret (None, (?s1\<lparr>w_rand := r1\<rparr>)\<lparr>w_rand := r2, w_db := w_db s @ [buildKeyName (w_core s) k]\<rparr>)"
    using retry_loop_succeeds [of ?op "\<lambda>d. d @ [buildKeyName (w_core s) k]" "\<lambda>_. False" "?s1\<lparr>w_rand := r1\<rparr>" 0 0 "e_fuel E"]
      assms l by (auto simp: loading_def)
  let ?s2 = "(?s1\<lparr>w_rand := r1\<rparr>)\<lparr>w_rand := r2, w_db := w_db s @ [buildKeyName (w_core s) k]\<rparr>"
  have "DoInsert E recording_db (\<lambda>_. False) s = Ret (None, ?s2)"
    unfolding DoInsert_def using n v r2 key [of k] by (simp add: Let_def)
  moreover have "loading (k + 1) len ?s2" using l by simp
  ultimately show ?thesis using key by (intro exI [of _ ?s2]) simp
qed

lemma insert_all_records:
  assumes "loading k len s" and "k + int n < 2 ^ 63" and "0 < e_fuel E"
  shows "\<exists>s'. insert_all E recording_db n s = Ret (replicate n None, s')
    \<and> w_db s' = w_db s @ map (\<lambda>i. buildKeyName (w_core s) (k + int i)) [0..<n]"
  using assms
proof (induction n arbitrary: k s)
  case (Suc n)
  obtain s1 where s1: "DoInsert E recording_db (\<lambda>_. False) s = Ret (None, s1)" "loading (k + 1) len s1"
      "w_db s1 = w_db s @ [buildKeyName (w_core s) k]" "\<forall>j. buildKeyName (w_core s1) j = buildKeyName (w_core s) j"
    using DoInsert_records [OF Suc.prems(1) _ Suc.prems(3)] Suc.prems(2) by force
  obtain s2 where s2: "insert_all E recording_db n s1 = Ret (replicate n None, s2)"
      "w_db s2 = w_db s1 @ map (\<lambda>i. buildKeyName (w_core s1) (k + 1 + int i)) [0..<n]"
    using Suc.IH [OF s1(2)] Suc.prems by auto
  have "map (\<lambda>i. buildKeyName (w_core s) (k + int i)) [0..<Suc n]
      = buildKeyName (w_core s) k # map (\<lambda>i. buildKeyName (w_core s) (k + 1 + int i)) [0..<n]"
    by (subst upt_conv_Cons) (simp_all add: map_Suc_upt [symmetric] ac_simps del: upt_Suc)
  then show ?case using s1 s2 by simp
qed simp

lemma DoInsert_unfold:
  assumes "const_length len s" and "c_keySequence (w_core s) = GCounter (NewCounter k)" and "in_i64 k"
  shows "\<exists>v s1. DoInsert E db canceled s = retry_loop (run_db (\<lambda>d. db_Insert db d (c_table (w_core s1)) (buildKeyName (w_core s) k) v))
      canceled (e_fuel E) 0 s1 \<and> w_db s1 = w_db s \<and> c_insertionRetryLimit (w_core s1) = c_insertionRetryLimit (w_core s)"
proof -
  let ?s1 = "s\<lparr>w_core := (w_core s)\<lparr>c_keySequence := GCounter \<lparr>counter_val = i64 (k + 1)\<rparr>\<rparr>\<rparr>"
  have n: "next_keySequence E s = Ret (k, ?s1)"
    using assms by (simp add: next_keySequence_def draw_def wrap_gen_def Counter_Next_def NewCounter_def Let_def i64_diff_left i64_id)
  have key: "buildKeyName (w_core ?s1) k = buildKeyName (w_core s) k" by (simp add: buildKeyName_def)
  have "const_length len ?s1" using assms(1) by (simp add: const_length_def)
  then obtain v r1 where v: "buildValues E (buildKeyName (w_core s) k) ?s1 = Ret (v, ?s1\<lparr>w_rand := r1\<rparr>)"
    using buildValues_const by blast
  show ?thesis
    by (rule exI [of _ v], rule exI [of _ "?s1\<lparr>w_rand := r1\<rparr>"]) (use n v key in \<open>simp add: DoInsert_def Let_def\<close>)
qed

section \<open>The created workload\<close>

lemma Create_fields:
  assumes "coreCreator_Create E p = Ret c"
  shows "c_p c = p \<and> c_keySequence c = GCounter (NewCounter (cfg_insertStart p))
    \<and> c_operationChooser c = createOperationGenerator p \<and> c_transactionInsertKeySequence c = NewAcknowledgedCounter (cfg_recordCount p)
    \<and> c_insertionRetryLimit c = GetInt64 p prop_InsertionRetryLimit prop_InsertionRetryLimitDefault
    \<and> c_zeroPadding c = GetInt64 p prop_ZeroPadding prop_ZeroPaddingDefault
    \<and> c_orderedInserts c = (GetString p prop_InsertOrder prop_InsertOrderDefault \<noteq> ''hashed'')
    \<and> c_dataIntegrity c = GetBool p prop_DataIntegrity prop_DataIntegrityDefault
    \<and> i64 (cfg_insertStart p + cfg_insertCount p) \<le> cfg_recordCount p
    \<and> (\<exists>g. getFieldLengthGenerator E p = Ret g \<and>
         create_keyChooser E p (cfg_recordCount p) (cfg_insertStart p) (cfg_insertCount p) g
           = Ret (c_keyChooser c, c_fieldLengthGenerator c))"
  using assms by (auto simp: coreCreator_Create_def Let_def gbind_eq_Ret_iff split: if_splits)

lemma create_keyChooser_length:
  assumes "create_keyChooser E p n st ct g = Ret (k, g')"
  shows "g' = g \<or> GetString p prop_RequestDistribution prop_RequestDistributionDefault = ''mixgraph''"
  using assms by (auto simp: create_keyChooser_def Let_def gbind_eq_Ret_iff split: if_splits)

lemma constant_length_generator:
  "GetString p prop_FieldLengthDistribution prop_FieldLengthDistributionDefault = ''constant'' \<Longrightarrow>
   getFieldLengthGenerator E p = Ret (GConstant (NewConstant (GetInt64 p prop_FieldLength prop_FieldLengthDefault)))"
  by (simp add: getFieldLengthGenerator_def Let_def to_lower_def lower_char_def)

section \<open>Drawing keys\<close>

fun keys_drawn :: "wenv \<Rightarrow> nat \<Rightarrow> 'd wstate \<Rightarrow> (int list \<times> 'd wstate) go" where
  "keys_drawn E 0 = aret []"
| "keys_drawn E (Suc n) = abind (nextKeyNum E) (\<lambda>k. abind (keys_drawn E n) (\<lambda>ks. aret (k # ks)))"

lemma nextKeyNum_range:
  assumes "gen_ok E (c_keyChooser (w_core s))"
  shows "\<exists>k s'. nextKeyNum E s = Ret (k, s') \<and> gen_lo (c_keyChooser (w_core s)) \<le> k \<and> k \<le> gen_hi (c_keyChooser (w_core s))
    \<and> gen_ok E (c_keyChooser (w_core s')) \<and> gen_lo (c_keyChooser (w_core s')) = gen_lo (c_keyChooser (w_core s))
    \<and> gen_hi (c_keyChooser (w_core s')) = gen_hi (c_keyChooser (w_core s))"
proof -
  let ?g = "c_keyChooser (w_core s)" and ?l = "Ack_Last (c_transactionInsertKeySequence (w_core s))"
  have "nextKeyNum E s = next_keyChooser E s" using assms by (cases ?g) (auto simp: nextKeyNum_def)
  moreover obtain k g' r' where k: "gen_Next E ?l ?g (w_rand s) = Ret (k, g', r')"
    using gen.next_returns [OF assms, of ?l "w_rand s"] by (auto simp: returns_iff)
  moreover note gen.next_range [OF assms k] gen.next_inv [OF assms k]
  ultimately show ?thesis by (auto simp: next_keyChooser_def draw_def)
qed

lemma keys_drawn_range:
  assumes "gen_ok E (c_keyChooser (w_core s))"
  shows "\<exists>ks s'. keys_drawn E n s = Ret (ks, s') \<and> length ks = n
    \<and> set ks \<subseteq> {gen_lo (c_keyChooser (w_core s))..gen_hi (c_keyChooser (w_core s))}"
  using assms
proof (induction n arbitrary: s)
  case (Suc n)
  obtain k s1 where k: "nextKeyNum E s = Ret (k, s1)" "gen_lo (c_keyChooser (w_core s)) \<le> k" "k \<le> gen_hi (c_keyChooser (w_core s))"
      "gen_ok E (c_keyChooser (w_core s1))" "gen_lo (c_keyChooser (w_core s1)) = gen_lo (c_keyChooser (w_core s))"
      "gen_hi (c_keyChooser (w_core s1)) = gen_hi (c_keyChooser (w_core s))"
    using nextKeyNum_range [OF Suc.prems] by blast
  from Suc.IH [OF k(4)] k show ?case by auto
qed simp

section \<open>Operations\<close>

lemma add_positive_values:
  "set (discrete_values (add_positive w op d)) = (if flt (Fin 0) w then {(w, op)} else {}) \<union> set (discrete_values d)"
  by (auto simp: add_positive_def Discrete_Add_def)

definition proportion_of :: "props \<Rightarrow> operationType \<Rightarrow> float64" where
  "proportion_of p op = (case op of
       read_op \<Rightarrow> GetFloat64 p prop_ReadProportion prop_ReadProportionDefault
     | update_op \<Rightarrow> GetFloat64 p prop_UpdateProportion prop_UpdateProportionDefault
     | insert_op \<Rightarrow> GetFloat64 p prop_InsertProportion prop_InsertProportionDefault
     | scan_op \<Rightarrow> GetFloat64 p prop_ScanProportion prop_ScanProportionDefault
     | readModifyWrite_op \<Rightarrow> GetFloat64 p prop_ReadModifyWriteProportion prop_ReadModifyWriteProportionDefault)"

lemma operation_has_proportion:
  assumes "Discrete_Next (createOperationGenerator p) r = Ret (v, d, r')"
  shows "flt (Fin 0) (proportion_of p (operation_of v))"
  using Discrete_Next_value [OF assms]
  by (auto simp: createOperationGenerator_def Let_def add_positive_values NewDiscrete_def operation_of_def proportion_of_def
      split: if_splits)

section \<open>A sample workload\<close>

text \<open>A database that counts the inserts it is given.\<close>

definition counting_db :: "nat db" where
  "counting_db = \<lparr>db_Close = (\<lambda>d. Ret (None, d)), db_InitThread = (\<lambda>d i n. Ret d), db_CleanupThread = Ret,
      db_Read = (\<lambda>d t k fs. Ret (Inr [], d)), db_Scan = (\<lambda>d t k n fs. Ret (Inr [], d)),
     db_Update = (\<lambda>d t k v. Ret (None, d)), db_Insert = (\<lambda>d t k v. Ret (None, Suc d)),
     db_Delete = (\<lambda>d t k. Ret (None, d)), db_Batch = None, db_Analyze = None, db_TypeName = ''counting''\<rparr>"

definition sample_env :: wenv where
  "sample_env = \<lparr>e_math = real_math, e_fuel = 10, e_source = (\<lambda>_ i. i), e_seed = (\<lambda>_ i. i), e_readFile = (\<lambda>_. Inl ''no file'')\<rparr>"

definition sample_props :: props where
  "sample_props = props_of [(''recordcount'', 1000)] []"

lemma sample_cfg:
  "cfg_recordCount sample_props = 1000" "cfg_insertStart sample_props = 0" "cfg_insertCount sample_props = 1000"
  by (simp_all add: cfg_recordCount_def cfg_insertStart_def cfg_insertCount_def sample_props_def prop_defs i64_id in_i64_def)

lemma sample_create:
  "\<exists>c. coreCreator_Create sample_env sample_props = Ret c \<and> c_zeroPadding c = 1 \<and> \<not> c_orderedInserts c
     \<and> c_fieldLengthGenerator c = GConstant (NewConstant 100) \<and> \<not> is_mixgraph (c_keyChooser c)
     \<and> c_keySequence c = GCounter (NewCounter 0) \<and> c_insertionRetryLimit c = 0"
proof -
  have "getFieldLengthGenerator sample_env sample_props = Ret (GConstant (NewConstant 100))"
    by (subst constant_length_generator) (simp_all add: sample_props_def prop_defs)
  moreover have "create_keyChooser sample_env sample_props 1000 0 1000 g = Ret (GUniform (NewUniform 0 999), g)" for g
    by (simp add: create_keyChooser_def sample_props_def prop_defs Let_def i64_id in_i64_def)
  moreover have "create_scanLength sample_env sample_props = Ret (GUniform (NewUniform 1 1000))"
    by (simp add: create_scanLength_def sample_props_def prop_defs)
  ultimately show ?thesis
    by (simp add: coreCreator_Create_def Let_def sample_cfg make_len_def i64_id in_i64_def is_mixgraph_def)
      (simp add: sample_props_def prop_defs)
qed

section \<open>Properties\<close>

text \<open>
  C9. Key names do not collide: with a zero padding between 0 and a million, ordered inserts give every key number
  its own name, and hashed inserts do so within every aligned block of 256 key numbers.
\<close>

theorem key_names_distinct:
  assumes "0 \<le> c_zeroPadding c" and "c_zeroPadding c \<le> 1000000"
  shows "inj_on (buildKeyName c) (if c_orderedInserts c then UNIV else {256 * b..<256 * (b + 1)})"
proof (rule inj_onI)
  fix m n
  assume mn: "m \<in> (if c_orderedInserts c then UNIV else {256 * b..<256 * (b + 1)})"
    "n \<in> (if c_orderedInserts c then UNIV else {256 * b..<256 * (b + 1)})" "buildKeyName c m = buildKeyName c n"
  have blk: "k div 256 = b" if "k \<in> {256 * b..<256 * (b + 1)}" for k :: int
    using that div_pos_pos_trivial [of "k - 256 * b" 256] div_mult_self4 [of 256 b "k - 256 * b"] by auto
  show "m = n"
  proof (cases "c_orderedInserts c")
    case True
    with buildKeyName_inj [OF assms mn(3)] show ?thesis by simp
  next
    case False
    then have "m div 256 = n div 256" "Hash64 m = Hash64 n"
      using mn blk buildKeyName_inj [OF assms mn(3)] by simp_all
    then show ?thesis by (rule Hash64_block_inj)
  qed
qed

theorem key_names_distinct_witness:
  "\<exists>c. coreCreator_Create sample_env sample_props = Ret c \<and> inj_on (buildKeyName c) {256 * 3..<256 * (3 + 1)}"
proof -
  obtain c :: core where c: "coreCreator_Create sample_env sample_props = Ret c" "c_zeroPadding c = 1" "\<not> c_orderedInserts c"
    using sample_create by blast
  with key_names_distinct [of c 3] show ?thesis by auto
qed

text \<open>
  C6. Data integrity: a row built for a key in data integrity mode has the configured length in every field and
  verifies, and \<open>verifyRow\<close> ends the process for every row in which some field differs from the
  deterministic value.
\<close>

theorem integrity_roundtrip:
  assumes "const_length n s" and "c_dataIntegrity (w_core s)"
  shows "(\<exists>vals. buildValues E key s = Ret (vals, s) \<and> verifyRow E key vals s = Ret ((), s)
      \<and> fst ` set vals = set (w_fieldNames s) \<and> (\<forall>(f, v)\<in>set vals. int (length v) = n))
    \<and> (\<forall>row f v. (f, v) \<in> set row \<and> v \<noteq> deterministic_value n key f \<longrightarrow>
         verifyRow E key row s = Exit ''unexpected deterministic value'')"
proof -
  have "0 \<le> n" using assms(1) by (simp add: const_length_def)
  obtain vals where v: "buildValues E key s = Ret (vals, s)" "\<forall>(f, v)\<in>set vals. v = deterministic_value n key f"
      "fst ` set vals = set (w_fieldNames s)"
    using build_fields_integrity [OF assms, of "[]" key E "w_fieldNames s"] by (auto simp: buildValues_def)
  have "\<forall>(f, v)\<in>set vals. int (length v) = n"
    using v(2) length_deterministic_value [OF \<open>0 \<le> n\<close>] by auto
  moreover have "verifyRow E key vals s = Ret ((), s)" using v(2) verifyRow_const [OF assms(1)] by simp
  moreover have "verifyRow E key row s = Exit ''unexpected deterministic value''"
    if "(f, v) \<in> set row" "v \<noteq> deterministic_value n key f" for row f v
    using that verifyRow_const [OF assms(1), of E key row] by auto
  ultimately show ?thesis using v(1,3) by blast
qed

theorem integrity_roundtrip_witness:
  "\<exists>c vals. buildValues sample_env ''user7'' (core_InitThread c (\<lambda>i. i) ()) = Ret (vals, core_InitThread c (\<lambda>i. i) ())
     \<and> verifyRow sample_env ''user7'' vals (core_InitThread c (\<lambda>i. i) ()) = Ret ((), core_InitThread c (\<lambda>i. i) ())"
proof -
  obtain c :: core where c: "c_fieldLengthGenerator c = GConstant (NewConstant 100)" using sample_create by blast
  let ?s = "core_InitThread (c\<lparr>c_dataIntegrity := True\<rparr>) (\<lambda>i. i) ()"
  have "const_length 100 ?s" "c_dataIntegrity (w_core ?s)" using c by (simp_all add: const_length_def core_InitThread_def)
  with integrity_roundtrip [of 100 ?s sample_env "''user7''"] show ?thesis by blast
qed







text \<open>
  C35. The retry loop of \<open>DoInsert\<close> retries the wrong case: an insert that fails is tried once and its error returned,
  whatever the retry limit, while an insert that succeeds is repeated until the limit is exceeded.
\<close>

theorem insert_retries_successes:
  assumes "const_length len s" and "c_keySequence (w_core s) = GCounter (NewCounter k)" and "in_i64 k"
    and "c_insertionRetryLimit (w_core s) = limit" and "0 \<le> limit" and "limit < 2 ^ 63 - 1" and "nat limit < e_fuel E"
  shows "(\<forall>db e f. (\<forall>d t key v. db_Insert db d t key v = Ret (Some e, f d)) \<longrightarrow>
       (\<exists>s'. DoInsert E db (\<lambda>_. False) s = Ret (Some e, s') \<and> w_db s' = f (w_db s)))
    \<and> (\<forall>db f. (\<forall>d t key v. db_Insert db d t key v = Ret (None, f d)) \<longrightarrow>
       (\<exists>s'. DoInsert E db (\<lambda>_. False) s = Ret (None, s') \<and> w_db s' = (f ^^ nat (limit + 1)) (w_db s)))"
proof (intro conjI allI impI)
  fix db :: "'a db" and e f
  assume ins: "\<forall>d t key v. db_Insert db d t key v = Ret (Some e, f d)"
  obtain v s1 where "DoInsert E db (\<lambda>_. False) s = retry_loop (run_db (\<lambda>d. db_Insert db d (c_table (w_core s1))
      (buildKeyName (w_core s) k) v)) (\<lambda>_. False) (e_fuel E) 0 s1" and s1: "w_db s1 = w_db s"
    using DoInsert_unfold [OF assms(1-3)] by metis
  then show "\<exists>s'. DoInsert E db (\<lambda>_. False) s = Ret (Some e, s') \<and> w_db s' = f (w_db s)"
    using assms(7) ins by (cases "e_fuel E") (auto simp: run_db_def)
next
  fix db :: "'a db" and f
  assume ins: "\<forall>d t key v. db_Insert db d t key v = Ret (None, f d)"
  obtain v s1 where d: "DoInsert E db (\<lambda>_. False) s = retry_loop (run_db (\<lambda>d. db_Insert db d (c_table (w_core s1))
      (buildKeyName (w_core s) k) v)) (\<lambda>_. False) (e_fuel E) 0 s1"
    and s1: "w_db s1 = w_db s" "c_insertionRetryLimit (w_core s1) = c_insertionRetryLimit (w_core s)"
    using DoInsert_unfold [OF assms(1-3)] by metis
  show "\<exists>s'. DoInsert E db (\<lambda>_. False) s = Ret (None, s') \<and> w_db s' = (f ^^ nat (limit + 1)) (w_db s)"
    using retry_loop_succeeds [of "\<lambda>d. db_Insert db d (c_table (w_core s1)) (buildKeyName (w_core s) k) v" f "\<lambda>_. False" s1 limit 0 "e_fuel E"]
      ins s1 assms(4-7) by (auto simp: d)
qed

theorem insert_retries_successes_witness:
  "\<exists>(c :: core) s'. DoInsert sample_env counting_db (\<lambda>_. False) (core_InitThread c (\<lambda>i. i) 0) = Ret (None, s') \<and> w_db s' = 4"
proof -
  obtain c :: core where c: "c_fieldLengthGenerator c = GConstant (NewConstant 100)" "c_keySequence c = GCounter (NewCounter 0)"
    using sample_create by blast
  let ?s = "core_InitThread (c\<lparr>c_insertionRetryLimit := 3\<rparr>) (\<lambda>i. i) 0 :: nat wstate"
  have "const_length 100 ?s" "c_keySequence (w_core ?s) = GCounter (NewCounter 0)" "in_i64 0" "c_insertionRetryLimit (w_core ?s) = 3"
    using c by (simp_all add: const_length_def core_InitThread_def in_i64_def)
  from insert_retries_successes [OF this, of sample_env]
  have "\<forall>db f. (\<forall>d t key v. db_Insert db d t key v = Ret (None, f d)) \<longrightarrow>
      (\<exists>s'. DoInsert sample_env db (\<lambda>_. False) ?s = Ret (None, s') \<and> w_db s' = (f ^^ 4) 0)"
    by (simp add: sample_env_def core_InitThread_def)
  then have "\<exists>s'. DoInsert sample_env counting_db (\<lambda>_. False) ?s = Ret (None, s') \<and> w_db s' = (Suc ^^ 4) 0"
    by (rule allE [of _ counting_db], elim allE [of _ Suc] impE) (simp_all add: counting_db_def)
  then show ?thesis by (auto simp: numeral_eq_Suc)
qed

text \<open>
  In batch mode a read-modify-write transaction does nothing: it returns without error and without touching
  the database, and a scan transaction panics.
\<close>

theorem batch_mode_operations:
  assumes "db_Batch db = Some b" and "next_operation s = Ret (op, s')"
  shows "(operation_of op = readModifyWrite_op \<longrightarrow> DoBatchTransaction E n db s = Ret (None, s') \<and> w_db s' = w_db s)
    \<and> (operation_of op = scan_op \<longrightarrow> DoBatchTransaction E n db s = Panic ''The batch mode don't support the scan operation'')"
  using assms by (auto simp: DoBatchTransaction_def next_operation_def gbind_eq_Ret_iff)

theorem batch_mode_operations_witness:
  "\<exists>c s'. DoBatchTransaction sample_env 8
       (recording_db\<lparr>db_Batch := Some \<lparr>db_BatchInsert = (\<lambda>d t ks vs. Ret (None, d @ ks)), db_BatchRead = (\<lambda>d t ks fs. Ret (Inr [], d)),
          db_BatchUpdate = (\<lambda>d t ks vs. Ret (None, d @ ks)), db_BatchDelete = (\<lambda>d t ks. Ret (None, d))\<rparr>\<rparr>)
       (core_InitThread c (\<lambda>_. 0) []) = Ret (None, s') \<and> w_db s' = []"
proof -
  obtain c :: core where True by blast
  let ?s = "core_InitThread (c\<lparr>c_operationChooser := Discrete_Add NewDiscrete (Fin 1) 5\<rparr>) (\<lambda>_. 0) [] :: string list wstate"
  have "\<exists>s'. next_operation ?s = Ret (5, s')"
    by (simp add: next_operation_def core_InitThread_def Discrete_Next_def Discrete_Add_def NewDiscrete_def
        rFloat64_eq weight_sum_def unit_draw_def fl_unit Let_def)
  then obtain s' where "next_operation ?s = Ret (5, s')" by blast
  from batch_mode_operations [OF _ this, of "recording_db\<lparr>db_Batch := Some \<lparr>db_BatchInsert = (\<lambda>d t ks vs. Ret (None, d @ ks)),
          db_BatchRead = (\<lambda>d t ks fs. Ret (Inr [], d)), db_BatchUpdate = (\<lambda>d t ks vs. Ret (None, d @ ks)),
          db_BatchDelete = (\<lambda>d t ks. Ret (None, d))\<rparr>\<rparr>" _ sample_env 8]
  show ?thesis by (intro exI [of _ "c\<lparr>c_operationChooser := Discrete_Add NewDiscrete (Fin 1) 5\<rparr>"] exI [of _ s'])
      (simp add: operation_of_def core_InitThread_def)
qed

text \<open>
  The check that data integrity needs a constant field length is bypassed by \<open>mixgraph.gpd_value\<close>, which replaces
  the length generator after the check: the workload is created with data integrity on and Pareto
  distributed lengths, so a row is verified against values of another length.
\<close>

theorem integrity_check_bypassed:
  assumes "GetBool p prop_DataIntegrity prop_DataIntegrityDefault" and "GetBool p ''mixgraph.gpd_value'' False"
    and "GetString p prop_FieldLengthDistribution prop_FieldLengthDistributionDefault = ''constant''"
    and "GetString p prop_RequestDistribution prop_RequestDistributionDefault = ''mixgraph''"
    and "GetString p prop_ScanLengthDistribution prop_ScanLengthDistributionDefault = ''uniform''"
    and "0 \<le> GetInt64 p prop_FieldCount prop_FieldCountDefault" and "i64 (cfg_insertStart p + cfg_insertCount p) \<le> cfg_recordCount p"
    and "1 \<le> cfg_recordCount p" and "cfg_recordCount p < 2 ^ 63"
  shows "\<exists>c g. coreCreator_Create E p = Ret c \<and> c_dataIntegrity c \<and> c_fieldLengthGenerator c = GGPD g"
proof -
  let ?nr = "if go_div (cfg_recordCount p) 100000 < 10 then 10 else go_div (cfg_recordCount p) 100000"
  have nr: "?nr < 2 ^ 63" using assms(8,9) by (auto simp: go_div_nonneg)
  obtain mg where "NewPrefixMixGraphGenerator (e_math E) (e_source E) (cfg_recordCount p) ?nr
          (GetFloat64 p prop_MixGraphExpA prop_MixGraphExpADefault) (GetFloat64 p prop_MixGraphExpB prop_MixGraphExpBDefault)
          (GetFloat64 p prop_MixGraphExpC prop_MixGraphExpCDefault) (GetFloat64 p prop_MixGraphExpD prop_MixGraphExpDDefault)
          (GetFloat64 p prop_MixGraphKeyDistA prop_MixGraphKeyDistADefault) (GetFloat64 p prop_MixGraphKeyDistB prop_MixGraphKeyDistBDefault) = Ret mg"
    using NewMixGraph_inv [OF assms(8,9) nr] by metis
  then show ?thesis using assms(1-7) constant_length_generator [OF assms(3), of E]
    by (simp add: coreCreator_Create_def make_len_def create_keyChooser_def create_scanLength_def Let_def)
qed

theorem integrity_check_bypassed_witness:
  "\<exists>c g. coreCreator_Create sample_env ((props_of [(''recordcount'', 1000)] [(''requestdistribution'', ''mixgraph'')])
       \<lparr>GetBool := (\<lambda>k d. k \<in> {''dataintegrity'', ''mixgraph.gpd_value''})\<rparr>) = Ret c
     \<and> c_dataIntegrity c \<and> c_fieldLengthGenerator c = GGPD g"
  by (rule integrity_check_bypassed)
    (simp_all add: prop_defs cfg_recordCount_def cfg_insertStart_def cfg_insertCount_def i64_id in_i64_def)

end
