(* ===== verification/Badger.thy ===== *)
theory Badger
  imports RowStore GoStrings Props
begin

text \<open>
  The Badger adapter, \<^verbatim>\<open>db/badger/db.go\<close>: options, creation, the row operations as transactions, the count of
  logically written bytes, closing with its wait for compaction and its report. The engine
  (\<open>dgraph-io/badger\<close>) is a parameter, a record of the calls the adapter makes on a state \<open>'s\<close>; what the
  theorems ask of it is \<open>badger_laws\<close>, the documented behaviour of a transactional ordered map.
\<close>

section \<open>The engine\<close>

text \<open>
  \<open>bg_Get\<close> delivers the item, that is what \<open>ValueCopy\<close> returns for it; \<open>bg_Seek\<close> the items of the iterator from
  a key on. \<open>bg_Set\<close> and \<open>bg_Delete\<close> act on the state of a transaction, \<open>bg_Commit\<close> applies it.
\<close>

record 's badger_api =
  bg_Get :: "'s \<Rightarrow> byte list \<Rightarrow> error + (error + byte list)"
  bg_Seek :: "'s \<Rightarrow> byte list \<Rightarrow> (error + byte list) list"
  bg_Set :: "'s \<Rightarrow> byte list \<Rightarrow> byte list \<Rightarrow> error option \<times> 's"
  bg_Delete :: "'s \<Rightarrow> byte list \<Rightarrow> error option \<times> 's"
  bg_Commit :: "'s \<Rightarrow> 's \<Rightarrow> error option \<times> 's"
  bg_Close :: "'s \<Rightarrow> error option \<times> 's"
  bg_RunValueLogGC :: "'s \<Rightarrow> float64 \<Rightarrow> error option \<times> 's"
  bg_Size :: "'s \<Rightarrow> int \<times> int"

section \<open>Options\<close>

record badger_options =
  bo_Dir :: string
  bo_ValueDir :: string
  bo_SyncWrites :: bool
  bo_NumVersionsToKeep :: int
  bo_MemTableSize :: int
  bo_LevelSizeMultiplier :: int
  bo_MaxLevels :: int
  bo_NumMemtables :: int
  bo_NumLevelZeroTables :: int
  bo_NumLevelZeroTablesStall :: int
  bo_BaseLevelSize :: int
  bo_ValueLogFileSize :: int
  bo_ValueLogMaxEntries :: int
  bo_NumCompactors :: int
  bo_ValueThreshold :: int

definition badger_getOptions :: "(string \<Rightarrow> badger_options) \<Rightarrow> props \<Rightarrow> badger_options" where
  "badger_getOptions DefaultOptions p =
     (let dir = GetString p ''badger.dir'' ''/tmp/badger'';
          opts = DefaultOptions dir;
          opts = opts\<lparr>
            bo_ValueDir := GetString p ''badger.valuedir'' (bo_Dir opts),
            bo_SyncWrites := GetBool p ''badger.sync_writes'' False,
            bo_NumVersionsToKeep := GetInt p ''badger.num_versions_to_keep'' 1,
            bo_MemTableSize := GetInt64 p ''badger.max_table_size'' (64 * 2 ^ 20),
            bo_LevelSizeMultiplier := GetInt p ''badger.level_size_multiplier'' 10,
            bo_MaxLevels := GetInt p ''badger.max_levels'' 7,
            bo_NumMemtables := GetInt p ''badger.num_memtables'' 5,
            bo_NumLevelZeroTables := GetInt p ''badger.num_level0_tables'' 5,
            bo_NumLevelZeroTablesStall := GetInt p ''badger.num_level0_tables_stall'' 15,
            bo_BaseLevelSize := GetInt64 p ''badger.level_one_size'' (10 * 2 ^ 20),
            bo_ValueLogFileSize := GetInt64 p ''badger.value_log_file_size'' (2 ^ 30 - 1),
            bo_ValueLogMaxEntries := GetUint64 p ''badger.value_log_max_entries'' 1000000 mod 2 ^ 32,
            bo_NumCompactors := GetInt p ''badger.num_compactors'' 4\<rparr>;
          opts = (if GetBool p ''badger.do_not_compact'' False then opts\<lparr>bo_NumCompactors := 0\<rparr> else opts)
      in opts\<lparr>bo_ValueThreshold := 2 ^ 10\<rparr>)"

section \<open>The adapter\<close>

text \<open>The global \<open>GlobalLogicalWriteBytes\<close> is a component of the state.\<close>

record 's badgerDB =
  bdb_p :: props
  bdb_db :: 's
  bdb_r :: rowcodec
  bdb_localBytesCount :: int
  bdb_GlobalLogicalWriteBytes :: int

text \<open>
  \<open>Open\<close> opens the engine on the file system from which the given directories have been removed.
\<close>

definition badger_Create ::
    "(string \<Rightarrow> badger_options) \<Rightarrow> (string list \<Rightarrow> badger_options \<Rightarrow> error + 's) \<Rightarrow> props \<Rightarrow> (error + 's badgerDB) go" where
  "badger_Create DefaultOptions Open p =
     (let opts = badger_getOptions DefaultOptions p;
          removed = (if GetBool p prop_DropData prop_DropDataDefault then [bo_Dir opts, bo_ValueDir opts] else [])
      in case Open removed opts of
           Inl err \<Rightarrow> Ret (Inl err)
         | Inr db \<Rightarrow> gbind (NewRowCodec p) (\<lambda>r.
             Ret (Inr \<lparr>bdb_p = p, bdb_db = db, bdb_r = r, bdb_localBytesCount = 0, bdb_GlobalLogicalWriteBytes = 0\<rparr>)))"

text \<open>The accounting of logically written bytes, the same lines in \<open>Update\<close>, \<open>Insert\<close> and \<open>Delete\<close>.\<close>

definition count_payload :: "int \<Rightarrow> 's badgerDB \<Rightarrow> 's badgerDB" where
  "count_payload payloadSize db =
     (let local = i64 (bdb_localBytesCount db + payloadSize) in
      if 1048576 \<le> local
      then db\<lparr>bdb_GlobalLogicalWriteBytes := i64 (bdb_GlobalLogicalWriteBytes db + local), bdb_localBytesCount := 0\<rparr>
      else db\<lparr>bdb_localBytesCount := local\<rparr>)"

text \<open>\<open>db.db.Update(fn)\<close>: an error of \<open>fn\<close> discards the transaction, otherwise it is committed.\<close>

definition badger_txn ::
    "'s badger_api \<Rightarrow> ('s \<Rightarrow> 's badgerDB \<Rightarrow> ((error option \<times> 's) \<times> 's badgerDB) go) \<Rightarrow> 's badgerDB \<Rightarrow> (error option \<times> 's badgerDB) go" where
  "badger_txn api fn db =
     gbind (fn (bdb_db db) db) (\<lambda>((err, txn), db').
       if err \<noteq> None then Ret (err, db')
       else let (err, s) = bg_Commit api (bdb_db db') txn in Ret (err, db'\<lparr>bdb_db := s\<rparr>))"

definition badger_Read :: "'s badger_api \<Rightarrow> 's badgerDB \<Rightarrow> string \<Rightarrow> string \<Rightarrow> string list \<Rightarrow> ((error + row) \<times> 's badgerDB) go" where
  "badger_Read api db table key fnames =
     (let rowKey = getRowKey table key in
      case bg_Get api (bdb_db db) rowKey of
        Inl err \<Rightarrow> Ret (Inl err, db)
      | Inr item \<Rightarrow> (case item of
            Inl err \<Rightarrow> Ret (Inl err, db)
          | Inr row \<Rightarrow> gbind (RowCodec_Decode (bdb_r db) row fnames) (\<lambda>m. Ret (m, db))))"

text \<open>The loop of \<open>Scan\<close>: the rows decoded so far and the items still under the iterator.\<close>

fun scan_loop :: "rowcodec \<Rightarrow> string list \<Rightarrow> nat \<Rightarrow> (error + byte list) list \<Rightarrow> (error + row list) go" where
  "scan_loop r fnames 0 items = Ret (Inr [])"
| "scan_loop r fnames (Suc n) [] = Ret (Inr [])"
| "scan_loop r fnames (Suc n) (item # items) =
     (case item of
        Inl err \<Rightarrow> Ret (Inl err)
      | Inr value \<Rightarrow> ebind (RowCodec_Decode r value fnames) (\<lambda>m.
                     ebind (scan_loop r fnames n items) (\<lambda>ms. Ret (Inr (m # ms)))))"

text \<open>The result has as many entries as asked for; those past the last row found are nil.\<close>

definition pad_rows :: "nat \<Rightarrow> row list \<Rightarrow> row option list" where
  "pad_rows n ms = map Some ms @ replicate (n - length ms) None"

definition badger_Scan ::
    "'s badger_api \<Rightarrow> 's badgerDB \<Rightarrow> string \<Rightarrow> string \<Rightarrow> int \<Rightarrow> string list \<Rightarrow> ((error + row option list) \<times> 's badgerDB) go" where
  "badger_Scan api db table startKey cnt fnames =
     (if cnt < 0 then Panic ''makeslice: len out of range''
      else gbind (scan_loop (bdb_r db) fnames (nat cnt) (bg_Seek api (bdb_db db) (getRowKey table startKey))) (\<lambda>res.
        Ret (map_sum id (pad_rows (nat cnt)) res, db)))"

definition badger_Update :: "'s badger_api \<Rightarrow> 's badgerDB \<Rightarrow> string \<Rightarrow> string \<Rightarrow> row \<Rightarrow> (error option \<times> 's badgerDB) go" where
  "badger_Update api db table key vals =
     badger_txn api (\<lambda>txn db.
       let rowKey = getRowKey table key in
       case bg_Get api txn rowKey of
         Inl err \<Rightarrow> Ret ((Some err, txn), db)
       | Inr (Inl err) \<Rightarrow> Ret ((Some err, txn), db)
       | Inr (Inr value) \<Rightarrow>
           gbind (RowCodec_Decode (bdb_r db) value []) (\<lambda>res. case res of
               Inl err \<Rightarrow> Ret ((Some err, txn), db)
             | Inr data \<Rightarrow> (case RowCodec_Encode (bdb_r db) [] (merge_fields data vals) of
                   Inl err \<Rightarrow> Ret ((Some err, txn), db)
                 | Inr safeBuf \<Rightarrow> Ret (bg_Set api txn rowKey safeBuf,
                                    count_payload (int (length rowKey) + int (length safeBuf)) db)))) db"

definition badger_Insert :: "'s badger_api \<Rightarrow> 's badgerDB \<Rightarrow> string \<Rightarrow> string \<Rightarrow> row \<Rightarrow> (error option \<times> 's badgerDB) go" where
  "badger_Insert api db table key vals =
     badger_txn api (\<lambda>txn db.
       let rowKey = getRowKey table key in
       case RowCodec_Encode (bdb_r db) [] vals of
         Inl err \<Rightarrow> Ret ((Some err, txn), db)
       | Inr safeBuf \<Rightarrow> Ret (bg_Set api txn rowKey safeBuf,
                          count_payload (int (length rowKey) + int (length safeBuf)) db)) db"

definition badger_Delete :: "'s badger_api \<Rightarrow> 's badgerDB \<Rightarrow> string \<Rightarrow> string \<Rightarrow> (error option \<times> 's badgerDB) go" where
  "badger_Delete api db table key =
     badger_txn api (\<lambda>txn db.
       let rowKey = getRowKey table key
       in Ret (bg_Delete api txn rowKey, count_payload (int (length rowKey)) db)) db"

section \<open>Closing\<close>

text \<open>
  \<open>waitForCompactionHealthy\<close>: \<open>clock i\<close> is the time, in nanoseconds, at the \<open>i\<close>-th test of the loop, \<open>levels i\<close> what
  \<open>db.Levels()\<close> returns there, as pairs of the number of tables and the score. The loop has fuel; the result
  says whether the tree was found healthy before the deadline.
\<close>

definition all_healthy :: "(int \<times> float64) list \<Rightarrow> bool" where
  "all_healthy levels = list_all (\<lambda>(numTables, score). numTables = 0 \<or> \<not> fle (Fin 1) score) levels"

fun wait_loop :: "(nat \<Rightarrow> int) \<Rightarrow> (nat \<Rightarrow> (int \<times> float64) list) \<Rightarrow> int \<Rightarrow> nat \<Rightarrow> nat \<Rightarrow> bool option" where
  "wait_loop clock levels deadline 0 i = None"
| "wait_loop clock levels deadline (Suc fuel) i =
     (if clock i < deadline
      then if all_healthy (levels i) then Some True else wait_loop clock levels deadline fuel (Suc i)
      else Some False)"

definition waitForCompactionHealthy :: "(nat \<Rightarrow> int) \<Rightarrow> (nat \<Rightarrow> (int \<times> float64) list) \<Rightarrow> nat \<Rightarrow> int \<Rightarrow> bool option" where
  "waitForCompactionHealthy clock levels fuel maxWaitSec =
     (let deadline = clock 0 + i64 (maxWaitSec * 1000000000) in wait_loop clock levels deadline fuel 1)"

text \<open>
  \<open>fmt.Sscanf(line, "write_bytes: %d", &n)\<close> on a line with that prefix: at least one space, then an integer; on a
  mismatch or overflow the variable keeps its value 0.
\<close>

definition sscanf_int :: "string \<Rightarrow> int" where
  "sscanf_int s =
     (let s1 = dropWhile is_space s;
          (sign, s2) = (case s1 of c # cs \<Rightarrow> if c = CHR ''+'' \<or> c = CHR ''-'' then ([c], cs) else ([], s1) | [] \<Rightarrow> ([], []));
          (n, ok) = ParseInt (sign @ takeWhile is_digit s2)
      in if s \<noteq> [] \<and> is_space (hd s) \<and> ok then n else 0)"

fun write_bytes_line :: "string list \<Rightarrow> int" where
  "write_bytes_line [] = 0"
| "write_bytes_line (line # ls) =
     (if take 12 line = ''write_bytes:'' then sscanf_int (drop 12 line) else write_bytes_line ls)"

definition physical_bytes :: "error + string \<Rightarrow> int" where
  "physical_bytes ioData = (case ioData of Inl err \<Rightarrow> 0 | Inr text \<Rightarrow> write_bytes_line (split_on (CHR 0x0A) text))"

text \<open>The figures that \<open>Close\<close> prints.\<close>

record badger_report =
  rep_logicalMB :: float64
  rep_physicalBytes :: int
  rep_physicalMB :: float64
  rep_finalWA :: float64

definition badger_flush :: "'s badgerDB \<Rightarrow> 's badgerDB" where
  "badger_flush db =
     (if 0 < bdb_localBytesCount db
      then db\<lparr>bdb_GlobalLogicalWriteBytes := i64 (bdb_GlobalLogicalWriteBytes db + bdb_localBytesCount db), bdb_localBytesCount := 0\<rparr>
      else db)"

text \<open>What \<open>Close\<close> reads of its surroundings: the clock, the levels of the tree, \<open>/proc/self/io\<close> after closing; and the fuel.\<close>

record close_env =
  ce_clock :: "nat \<Rightarrow> int"
  ce_levels :: "nat \<Rightarrow> (int \<times> float64) list"
  ce_io :: "error + string"
  ce_fuel :: nat

definition badger_Close :: "'s badger_api \<Rightarrow> close_env \<Rightarrow> 's badgerDB \<Rightarrow> ((error option \<times> badger_report) \<times> 's badgerDB) go" where
  "badger_Close api env db =
     (let db = badger_flush db;
          logicalMB = fdiv (of_int64 (bdb_GlobalLogicalWriteBytes db)) (Fin 1048576);
          stabilizeSec = GetInt64 (bdb_p db) ''stabilization_time'' 0
      in gbind (if 0 < stabilizeSec
                then case waitForCompactionHealthy (ce_clock env) (ce_levels env) (ce_fuel env) stabilizeSec of
                       None \<Rightarrow> Hang | Some healthy \<Rightarrow> Ret ()
                else Ret ()) (\<lambda>_.
         let (closeErr, s) = bg_Close api (bdb_db db);
             physicalBytes = physical_bytes (ce_io env);
             physicalMB = fdiv (of_int64 physicalBytes) (Fin 1048576);
             finalWA = (if flt (Fin 0) logicalMB then fdiv physicalMB logicalMB else Fin 0)
         in Ret ((closeErr, \<lparr>rep_logicalMB = logicalMB, rep_physicalBytes = physicalBytes,
                            rep_physicalMB = physicalMB, rep_finalWA = finalWA\<rparr>), db\<lparr>bdb_db := s\<rparr>)))"

definition badger_RunValueLogGC :: "'s badger_api \<Rightarrow> float64 \<Rightarrow> 's badgerDB \<Rightarrow> error option \<times> 's badgerDB" where
  "badger_RunValueLogGC api discardRatio db =
     (let (err, s) = bg_RunValueLogGC api (bdb_db db) discardRatio in (err, db\<lparr>bdb_db := s\<rparr>))"

definition badger_VlogSize :: "'s badger_api \<Rightarrow> 's badgerDB \<Rightarrow> int \<times> int" where
  "badger_VlogSize api db = bg_Size api (bdb_db db)"

definition badger_db :: "'s badger_api \<Rightarrow> close_env \<Rightarrow> 's badgerDB db" where
  "badger_db api env =
     \<lparr>db_Close = (\<lambda>d. gbind (badger_Close api env d) (\<lambda>((err, _), d'). Ret (err, d'))),
      db_InitThread = (\<lambda>d i n. Ret d), db_CleanupThread = Ret,
      db_Read = badger_Read api, db_Scan = badger_Scan api, db_Update = badger_Update api,
      db_Insert = badger_Insert api, db_Delete = badger_Delete api,
      db_Batch = None, db_Analyze = None, db_TypeName = ''*badger.badgerDB''\<rparr>"

section \<open>The behaviour of the engine\<close>

text \<open>
  The documented behaviour of Badger that the adapter relies on: a state stands for a map \<open>view\<close> from keys to values;
  \<open>Get\<close> finds what the map holds and reports a missing key, \<open>Set\<close> and \<open>Delete\<close> change one key of the transaction,
  provided the engine takes an entry of that size (\<open>adm\<close>), a commit applies the transaction, and an iterator
  visits the keys in byte order from the one it seeks.
\<close>

definition keys_from :: "(byte list \<rightharpoonup> byte list) \<Rightarrow> byte list \<Rightarrow> byte list list" where
  "keys_from m k = sorted_list_of_set {k' \<in> dom m. k \<le> k'}"

definition badger_laws ::
    "'s badger_api \<Rightarrow> ('s \<Rightarrow> bool) \<Rightarrow> ('s \<Rightarrow> byte list \<rightharpoonup> byte list) \<Rightarrow> (byte list \<Rightarrow> byte list \<Rightarrow> bool) \<Rightarrow> bool" where
  "badger_laws api ok view adm \<longleftrightarrow>
     (\<forall>s k. ok s \<longrightarrow> bg_Get api s k = (case view s k of Some v \<Rightarrow> Inr (Inr v) | None \<Rightarrow> Inl ''Key not found''))
   \<and> (\<forall>s k v. ok s \<longrightarrow> adm k v \<longrightarrow> (\<exists>t. bg_Set api s k v = (None, t) \<and> ok t \<and> view t = (view s)(k \<mapsto> v)))
   \<and> (\<forall>s k. ok s \<longrightarrow> k \<noteq> [] \<longrightarrow> (\<exists>t. bg_Delete api s k = (None, t) \<and> ok t \<and> view t = (view s)(k := None)))
   \<and> (\<forall>s t. ok s \<longrightarrow> ok t \<longrightarrow> (\<exists>s'. bg_Commit api s t = (None, s') \<and> ok s' \<and> view s' = view t))
   \<and> (\<forall>s k. ok s \<longrightarrow> finite (dom (view s)) \<and> bg_Seek api s k = map (\<lambda>k'. Inr (the (view s k'))) (keys_from (view s) k))"

lemma badger_lawsD:
  assumes "badger_laws api ok view adm" and "ok s"
  shows badger_Get_law: "bg_Get api s k = (case view s k of Some v \<Rightarrow> Inr (Inr v) | None \<Rightarrow> Inl ''Key not found'')"
    and badger_Set_law: "adm k v \<Longrightarrow> \<exists>t. bg_Set api s k v = (None, t) \<and> ok t \<and> view t = (view s)(k \<mapsto> v)"
    and badger_Delete_law: "k \<noteq> [] \<Longrightarrow> \<exists>t. bg_Delete api s k = (None, t) \<and> ok t \<and> view t = (view s)(k := None)"
    and badger_Commit_law: "ok t \<Longrightarrow> \<exists>s'. bg_Commit api s t = (None, s') \<and> ok s' \<and> view s' = view t"
    and badger_Seek_law: "finite (dom (view s)) \<and> bg_Seek api s k = map (\<lambda>k'. Inr (the (view s k'))) (keys_from (view s) k)"
  using assms unfolding badger_laws_def by blast+

section \<open>The adapter keeps the contract of a database\<close>

text \<open>
  The rows of a state, and the invariant of the adapter: the engine behaves as documented, and every stored value
  is a readable row.
\<close>

definition badger_rows :: "('s \<Rightarrow> byte list \<rightharpoonup> byte list) \<Rightarrow> 's badgerDB \<Rightarrow> table" where
  "badger_rows view db = kv_rows (bdb_r db) (view (bdb_db db))"

definition badger_inv ::
    "'s badger_api \<Rightarrow> ('s \<Rightarrow> bool) \<Rightarrow> ('s \<Rightarrow> byte list \<rightharpoonup> byte list) \<Rightarrow> (byte list \<Rightarrow> byte list \<Rightarrow> bool) \<Rightarrow> 's badgerDB \<Rightarrow> bool" where
  "badger_inv api ok view adm db \<longleftrightarrow> badger_laws api ok view adm \<and> ok (bdb_db db) \<and> (\<exists>n. codec_ok (bdb_r db) n)
     \<and> kv_wf (bdb_r db) (view (bdb_db db))"

lemma count_payload_sel [simp]:
  "bdb_db (count_payload n db) = bdb_db db" "bdb_r (count_payload n db) = bdb_r db" "bdb_p (count_payload n db) = bdb_p db"
  by (simp_all add: count_payload_def Let_def)

lemma getRowKey_nonempty [simp]: "getRowKey t k \<noteq> []"
  by (simp add: getRowKey_def bytes_of_def)

text \<open>The state has counted a payload of \<open>n\<close> bytes.\<close>

definition counted :: "int \<Rightarrow> 's badgerDB \<Rightarrow> 's badgerDB \<Rightarrow> bool" where
  "counted n db db' \<longleftrightarrow> bdb_localBytesCount db' = bdb_localBytesCount (count_payload n db)
     \<and> bdb_GlobalLogicalWriteBytes db' = bdb_GlobalLogicalWriteBytes (count_payload n db) \<and> bdb_p db' = bdb_p db"

definition entry_bytes :: "('s \<Rightarrow> byte list \<rightharpoonup> byte list) \<Rightarrow> 's badgerDB \<Rightarrow> string \<Rightarrow> string \<Rightarrow> int" where
  "entry_bytes view db t k = int (length (getRowKey t k))
     + (case view (bdb_db db) (getRowKey t k) of Some bs \<Rightarrow> int (length bs) | None \<Rightarrow> 0)"

text \<open>A write that the engine commits changes one row and keeps the invariant.\<close>

lemma badger_written:
  assumes "badger_inv api ok view adm db" and "plain_table t" and "ok s'" and "view s' = (view (bdb_db db))(getRowKey t k := e)"
    and "\<And>bs. e = Some bs \<Longrightarrow> row_wf (bdb_r db) bs" and "bdb_db db' = s'" and "bdb_r db' = bdb_r db"
  shows "badger_inv api ok view adm db' \<and> badger_rows view db' = (badger_rows view db)((t, k) := map_option (row_of (bdb_r db)) e)"
  using assms by (auto simp: badger_inv_def badger_rows_def kv_rows_upd kv_wf_upd)

lemma badger_set_commit:
  assumes "badger_inv api ok view adm db" and "adm key bs"
  shows "\<exists>t s'. bg_Set api (bdb_db db) key bs = (None, t) \<and> bg_Commit api (bdb_db db) t = (None, s') \<and> ok s'
    \<and> view s' = (view (bdb_db db))(key \<mapsto> bs)"
proof -
  have laws: "badger_laws api ok view adm" "ok (bdb_db db)" using assms(1) by (auto simp: badger_inv_def)
  obtain t where "bg_Set api (bdb_db db) key bs = (None, t)" "ok t" "view t = (view (bdb_db db))(key \<mapsto> bs)"
    using badger_Set_law [OF laws assms(2)] by blast
  then show ?thesis using badger_Commit_law [OF laws, of t] by auto
qed

lemma badger_delete_commit:
  assumes "badger_inv api ok view adm db" and "key \<noteq> []"
  shows "\<exists>t s'. bg_Delete api (bdb_db db) key = (None, t) \<and> bg_Commit api (bdb_db db) t = (None, s') \<and> ok s'
    \<and> view s' = (view (bdb_db db))(key := None)"
proof -
  have laws: "badger_laws api ok view adm" "ok (bdb_db db)" using assms(1) by (auto simp: badger_inv_def)
  obtain t where "bg_Delete api (bdb_db db) key = (None, t)" "ok t" "view t = (view (bdb_db db))(key := None)"
    using badger_Delete_law [OF laws assms(2)] by blast
  then show ?thesis using badger_Commit_law [OF laws, of t] by auto
qed

lemma badger_Insert_ok:
  assumes inv: "badger_inv api ok view adm db" and "plain_table t" and "row_fits (bdb_r db) vs" and "row_accepts adm t k (map_of vs)"
  shows "\<exists>db'. badger_Insert api db t k vs = Ret (None, db') \<and> badger_inv api ok view adm db' \<and> bdb_r db' = bdb_r db
    \<and> badger_rows view db' = (badger_rows view db)((t, k) \<mapsto> map_of vs) \<and> counted (entry_bytes view db' t k) db db'"
proof -
  obtain n where n: "codec_ok (bdb_r db) n" using inv by (auto simp: badger_inv_def)
  obtain bs where bs: "RowCodec_Encode (bdb_r db) [] vs = Inr bs" "row_wf (bdb_r db) bs" "row_of (bdb_r db) bs = map_of vs"
    using encode_row [OF n assms(3)] by blast
  have adm: "adm (getRowKey t k) bs"
    using assms(3,4) bs(1) by (auto simp: row_accepts_def all_encodings_def row_fits_def)
  obtain txn s' where w: "bg_Set api (bdb_db db) (getRowKey t k) bs = (None, txn)" "bg_Commit api (bdb_db db) txn = (None, s')"
      and s': "ok s'" "view s' = (view (bdb_db db))(getRowKey t k \<mapsto> bs)"
    using badger_set_commit [OF inv adm] by blast
  let ?db = "(count_payload (int (length (getRowKey t k)) + int (length bs)) db)\<lparr>bdb_db := s'\<rparr>"
  have "badger_Insert api db t k vs = Ret (None, ?db)" by (simp add: badger_Insert_def badger_txn_def bs(1) Let_def w)
  then show ?thesis using badger_written [OF inv assms(2) s', of ?db] bs by (auto simp: counted_def entry_bytes_def s'(2))
qed

lemma badger_stored:
  assumes "badger_inv api ok view adm db" and "plain_table t" and "badger_rows view db (t, k) = Some m"
  shows "\<exists>bs. bg_Get api (bdb_db db) (getRowKey t k) = Inr (Inr bs) \<and> row_wf (bdb_r db) bs \<and> row_of (bdb_r db) bs = m"
  using kv_stored [of "bdb_r db" "view (bdb_db db)" t k m] assms badger_Get_law [of api ok view adm "bdb_db db" "getRowKey t k"]
  by (auto simp: badger_inv_def badger_rows_def)

lemma badger_Update_ok:
  assumes inv: "badger_inv api ok view adm db" and "plain_table t" and "row_fits (bdb_r db) vs"
    and "badger_rows view db (t, k) = Some m" and "row_accepts adm t k (m ++ map_of vs)"
  shows "\<exists>db'. badger_Update api db t k vs = Ret (None, db') \<and> badger_inv api ok view adm db' \<and> bdb_r db' = bdb_r db
    \<and> badger_rows view db' = (badger_rows view db)((t, k) \<mapsto> m ++ map_of vs) \<and> counted (entry_bytes view db' t k) db db'"
proof -
  obtain n where n: "codec_ok (bdb_r db) n" using inv by (auto simp: badger_inv_def)
  obtain old where old: "bg_Get api (bdb_db db) (getRowKey t k) = Inr (Inr old)" "row_wf (bdb_r db) old" "row_of (bdb_r db) old = m"
    using badger_stored [OF assms(1,2,4)] by blast
  obtain data bs where m: "RowCodec_Decode (bdb_r db) old [] = Ret (Inr data)"
      "RowCodec_Encode (bdb_r db) [] (merge_fields data vs) = Inr bs" "row_wf (bdb_r db) bs"
      "row_of (bdb_r db) bs = m ++ map_of vs" "distinct (map fst (merge_fields data vs))"
      "map_of (merge_fields data vs) = m ++ map_of vs"
    using merge_row [OF n old(2) assms(3)] old(3) by metis
  have adm: "adm (getRowKey t k) bs"
    using assms(5) m(2,5,6) by (auto simp: row_accepts_def all_encodings_def)
  obtain txn s' where w: "bg_Set api (bdb_db db) (getRowKey t k) bs = (None, txn)" "bg_Commit api (bdb_db db) txn = (None, s')"
      and s': "ok s'" "view s' = (view (bdb_db db))(getRowKey t k \<mapsto> bs)"
    using badger_set_commit [OF inv adm] by blast
  let ?db = "(count_payload (int (length (getRowKey t k)) + int (length bs)) db)\<lparr>bdb_db := s'\<rparr>"
  have "badger_Update api db t k vs = Ret (None, ?db)" by (simp add: badger_Update_def badger_txn_def old(1) m(1,2) Let_def w)
  then show ?thesis using badger_written [OF inv assms(2) s', of ?db] m(3,4) by (auto simp: counted_def entry_bytes_def s'(2))
qed

lemma badger_Delete_ok:
  assumes inv: "badger_inv api ok view adm db" and "plain_table t"
  shows "\<exists>db'. badger_Delete api db t k = Ret (None, db') \<and> badger_inv api ok view adm db' \<and> bdb_r db' = bdb_r db
    \<and> badger_rows view db' = (badger_rows view db)((t, k) := None) \<and> counted (entry_bytes view db' t k) db db'"
proof -
  obtain txn s' where w: "bg_Delete api (bdb_db db) (getRowKey t k) = (None, txn)" "bg_Commit api (bdb_db db) txn = (None, s')"
      and s': "ok s'" "view s' = (view (bdb_db db))(getRowKey t k := None)"
    using badger_delete_commit [OF inv getRowKey_nonempty] by blast
  let ?db = "(count_payload (int (length (getRowKey t k))) db)\<lparr>bdb_db := s'\<rparr>"
  have "badger_Delete api db t k = Ret (None, ?db)" by (simp add: badger_Delete_def badger_txn_def Let_def w)
  then show ?thesis using badger_written [OF inv assms(2) s', of ?db] by (auto simp: counted_def entry_bytes_def s'(2))
qed

lemma badger_Read_ok:
  assumes inv: "badger_inv api ok view adm db" and "plain_table t" and "set fs \<subseteq> set (codec_fields (bdb_r db))"
    and "badger_rows view db (t, k) = Some m"
  shows "\<exists>res. badger_Read api db t k fs = Ret (Inr res, db) \<and> map_of res = (if fs = [] then m else m |` set fs) \<and> distinct (map fst res)"
proof -
  obtain bs where bs: "bg_Get api (bdb_db db) (getRowKey t k) = Inr (Inr bs)" "row_wf (bdb_r db) bs" "row_of (bdb_r db) bs = m"
    using badger_stored [OF assms(1,2,4)] by blast
  then show ?thesis using decode_row [OF bs(2) assms(3)] by (auto simp: badger_Read_def)
qed

interpretation badger: row_db "badger_db api env" "badger_inv api ok view adm" "badger_rows view"
    "\<lambda>db. set (codec_fields (bdb_r db))" plain_table "row_accepts adm" for api env ok view adm
proof
  show "\<exists>d'. db_Insert (badger_db api env) d t k v = Ret (None, d') \<and> badger_inv api ok view adm d'
      \<and> set (codec_fields (bdb_r d')) = set (codec_fields (bdb_r d)) \<and> badger_rows view d' = (badger_rows view d)((t, k) \<mapsto> map_of v)"
    if "badger_inv api ok view adm d" "plain_table t" "row_ok (set (codec_fields (bdb_r d))) v" "row_accepts adm t k (map_of v)" for d t v k
    using badger_Insert_ok [OF that(1,2) _ that(4)] that(3) by (auto simp: badger_db_def row_ok_fits)
  show "\<exists>d'. db_Update (badger_db api env) d t k v = Ret (None, d') \<and> badger_inv api ok view adm d'
      \<and> set (codec_fields (bdb_r d')) = set (codec_fields (bdb_r d)) \<and> badger_rows view d' = (badger_rows view d)((t, k) \<mapsto> m ++ map_of v)"
    if "badger_inv api ok view adm d" "plain_table t" "row_ok (set (codec_fields (bdb_r d))) v" "badger_rows view d (t, k) = Some m"
      "row_accepts adm t k (m ++ map_of v)" for d t v k m
    using badger_Update_ok [OF that(1,2) _ that(4,5)] that(3) by (auto simp: badger_db_def row_ok_fits)
  show "\<exists>d'. db_Delete (badger_db api env) d t k = Ret (None, d') \<and> badger_inv api ok view adm d'
      \<and> set (codec_fields (bdb_r d')) = set (codec_fields (bdb_r d)) \<and> badger_rows view d' = (badger_rows view d)((t, k) := None)"
    if "badger_inv api ok view adm d" "plain_table t" "badger_rows view d (t, k) = Some m" for d t k m
    using badger_Delete_ok [OF that(1,2), of k] by (auto simp: badger_db_def)
  show "\<exists>res d'. db_Read (badger_db api env) d t k fs = Ret (Inr res, d') \<and> badger_inv api ok view adm d'
      \<and> set (codec_fields (bdb_r d')) = set (codec_fields (bdb_r d)) \<and> badger_rows view d' = badger_rows view d
      \<and> map_of res = (if fs = [] then m else m |` set fs) \<and> distinct (map fst res)"
    if "badger_inv api ok view adm d" "plain_table t" "set fs \<subseteq> set (codec_fields (bdb_r d))" "badger_rows view d (t, k) = Some m" for d t fs k m
    using badger_Read_ok [OF that] that(1) by (auto simp: badger_db_def)
qed

section \<open>An engine\<close>

text \<open>An engine in memory that behaves as documented: an association list that the iterator visits in key order.\<close>

definition mem_badger :: "(byte list \<times> byte list) list badger_api" where
  "mem_badger =
     \<lparr>bg_Get = (\<lambda>s k. case map_of s k of Some v \<Rightarrow> Inr (Inr v) | None \<Rightarrow> Inl ''Key not found''),
      bg_Seek = (\<lambda>s k. map (\<lambda>k'. Inr (the (map_of s k'))) (filter (\<lambda>k'. k \<le> k') (sort (remdups (map fst s))))),
      bg_Set = (\<lambda>s k v. (None, AList.update k v s)), bg_Delete = (\<lambda>s k. (None, AList.delete k s)),
      bg_Commit = (\<lambda>s t. (None, t)), bg_Close = (\<lambda>s. (None, s)),
      bg_RunValueLogGC = (\<lambda>s ratio. (None, s)), bg_Size = (\<lambda>s. (0, 0))\<rparr>"

lemma keys_from_map_of: "keys_from (map_of s) k = filter (\<lambda>k'. k \<le> k') (sort (remdups (map fst s)))"
proof -
  let ?l = "filter (\<lambda>k'. k \<le> k') (sort (remdups (map fst s)))"
  have set: "{k' \<in> dom (map_of s). k \<le> k'} = set ?l" by (auto simp: dom_map_of_conv_image_fst)
  have "sorted ?l" by (rule sorted_wrt_filter) simp
  moreover have "distinct ?l" by simp
  ultimately show ?thesis unfolding keys_from_def set
    by (rule linorder_class.sorted_list_of_set.idem_if_sorted_distinct)
qed

lemma mem_badger_laws: "badger_laws mem_badger (\<lambda>s. True) map_of (\<lambda>k v. True)"
  by (auto simp: badger_laws_def mem_badger_def keys_from_map_of finite_dom_map_of update_conv' delete_conv' split: option.split)

section \<open>Properties\<close>

lemma badger_Create_inv:
  assumes "badger_laws api ok view adm" and "badger_Create DefaultOptions Open p = Ret (Inr db)"
    and "ok (bdb_db db)" and "view (bdb_db db) = Map.empty" and "GetInt64 p prop_FieldCount prop_FieldCountDefault < 2 ^ 63"
  shows "badger_inv api ok view adm db \<and> badger_rows view db = Map.empty \<and> bdb_p db = p
    \<and> bdb_localBytesCount db = 0 \<and> bdb_GlobalLogicalWriteBytes db = 0"
proof -
  have db: "NewRowCodec p = Ret (bdb_r db)" "bdb_p db = p" "bdb_localBytesCount db = 0" "bdb_GlobalLogicalWriteBytes db = 0"
    using assms(2) by (auto simp: badger_Create_def Let_def gbind_eq_Ret_iff split: sum.splits)
  have "badger_rows view db = Map.empty" using assms(4) by (simp add: badger_rows_def)
  then show ?thesis using db assms NewRowCodec_codec_ok [OF db(1) assms(5)] by (auto simp: badger_inv_def kv_wf_def)
qed

text \<open>
  C3. The Badger adapter refines a table of rows: on a freshly created database over an engine that behaves as
  documented, every admissible sequence of inserts, updates, deletes and reads returns without error what the same
  sequence returns on a map from table and key to the row, for all tables without a colon in their name.
\<close>

theorem badger_refines_table:
  assumes "badger_laws api ok view adm" and "badger_Create DefaultOptions Open p = Ret (Inr db)"
    and "ok (bdb_db db)" and "view (bdb_db db) = Map.empty" and "GetInt64 p prop_FieldCount prop_FieldCountDefault < 2 ^ 63"
    and "ops_ok (set (codec_fields (bdb_r db))) plain_table (row_accepts adm) ops Map.empty"
  shows "\<exists>db'. db_run (badger_db api env) ops db = Ret (fst (table_run ops Map.empty), db')
    \<and> badger_rows view db' = snd (table_run ops Map.empty)"
  using badger.run_refines [of api ok view adm db ops env] badger_Create_inv [OF assms(1-5)] assms(6) by auto

definition sample_close :: close_env where
  "sample_close = \<lparr>ce_clock = (\<lambda>i. int i), ce_levels = (\<lambda>_. []), ce_io = Inl ''no file'', ce_fuel = 10\<rparr>"

definition sample_options :: "string \<Rightarrow> badger_options" where
  "sample_options dir = \<lparr>bo_Dir = dir, bo_ValueDir = dir, bo_SyncWrites = False, bo_NumVersionsToKeep = 1, bo_MemTableSize = 0,
     bo_LevelSizeMultiplier = 10, bo_MaxLevels = 7, bo_NumMemtables = 5, bo_NumLevelZeroTables = 5, bo_NumLevelZeroTablesStall = 15,
     bo_BaseLevelSize = 0, bo_ValueLogFileSize = 0, bo_ValueLogMaxEntries = 0, bo_NumCompactors = 4, bo_ValueThreshold = 0\<rparr>"

definition sample_badger :: "(byte list \<times> byte list) list badgerDB" where
  "sample_badger = \<lparr>bdb_p = props_of [(''fieldcount'', 2)] [], bdb_db = [],
     bdb_r = \<lparr>fieldIndices = [(''field0'', 0), (''field1'', 1)], codec_fields = [''field0'', ''field1'']\<rparr>,
     bdb_localBytesCount = 0, bdb_GlobalLogicalWriteBytes = 0\<rparr>"

lemma sample_badger_created:
  "badger_Create sample_options (\<lambda>removed opts. Inr []) (props_of [(''fieldcount'', 2)] []) = Ret (Inr sample_badger)"
  by (simp add: badger_Create_def NewRowCodec_def allFields_def createFieldIndices_def prop_defs upto.simps sample_badger_def Let_def)

theorem badger_refines_table_witness:
  "\<exists>db'. db_run (badger_db mem_badger sample_close)
       [OpInsert ''t'' ''k'' [(''field0'', [1]), (''field1'', [2])], OpUpdate ''t'' ''k'' [(''field1'', [3])], OpRead ''t'' ''k'' [''field1'']] sample_badger
     = Ret ([Done None, Done None, Row (Inr [''field1'' \<mapsto> [3]])], db')"
proof -
  let ?ops = "[OpInsert ''t'' ''k'' [(''field0'', [1]), (''field1'', [2])], OpUpdate ''t'' ''k'' [(''field1'', [3])], OpRead ''t'' ''k'' [''field1'']]"
  have "ops_ok (set (codec_fields (bdb_r sample_badger))) plain_table (row_accepts (\<lambda>k v. True)) ?ops Map.empty"
    by (simp add: plain_table_def row_ok_def row_accepts_def all_encodings_def sample_badger_def)
  from badger_refines_table [OF mem_badger_laws sample_badger_created _ _ _ this, of sample_close]
  obtain db' where "db_run (badger_db mem_badger sample_close) ?ops sample_badger = Ret (fst (table_run ?ops Map.empty), db')"
    by (auto simp: sample_badger_def prop_defs)
  moreover have "fst (table_run ?ops Map.empty) = [Done None, Done None, Row (Inr [''field1'' \<mapsto> [3]])]"
    by (auto simp: fun_eq_iff restrict_map_def)
  ultimately show ?thesis by auto
qed

subsection \<open>Counting written bytes\<close>

text \<open>The bytes of the entries that a sequence of operations writes: the row key, and the stored row unless it is a deletion.\<close>

fun op_bytes :: "('s \<Rightarrow> byte list \<rightharpoonup> byte list) \<Rightarrow> dbop \<Rightarrow> 's badgerDB \<Rightarrow> int" where
  "op_bytes view (OpInsert t k v) db = entry_bytes view db t k"
| "op_bytes view (OpUpdate t k v) db = entry_bytes view db t k"
| "op_bytes view (OpDelete t k) db = entry_bytes view db t k"
| "op_bytes view (OpRead t k fs) db = 0"

fun run_bytes :: "'s badger_api \<Rightarrow> close_env \<Rightarrow> ('s \<Rightarrow> byte list \<rightharpoonup> byte list) \<Rightarrow> dbop list \<Rightarrow> 's badgerDB \<Rightarrow> int" where
  "run_bytes api env view [] db = 0"
| "run_bytes api env view (op # ops) db =
     (case db_exec (badger_db api env) op db of
        Ret (_, db') \<Rightarrow> op_bytes view op db' + run_bytes api env view ops db'
      | _ \<Rightarrow> 0)"

definition counter_inv :: "'s badgerDB \<Rightarrow> bool" where
  "counter_inv db \<longleftrightarrow> 0 \<le> bdb_localBytesCount db \<and> bdb_localBytesCount db < 1048576 \<and> 0 \<le> bdb_GlobalLogicalWriteBytes db"

definition total_bytes :: "'s badgerDB \<Rightarrow> int" where
  "total_bytes db = bdb_GlobalLogicalWriteBytes db + bdb_localBytesCount db"

lemma entry_bytes_nonneg: "0 \<le> entry_bytes view db t k"
  by (simp add: entry_bytes_def split: option.split)

lemma op_bytes_nonneg: "0 \<le> op_bytes view op db"
  by (cases op) (simp_all add: entry_bytes_nonneg)

lemma run_bytes_nonneg: "0 \<le> run_bytes api env view ops db"
  by (induction ops arbitrary: db) (auto simp: op_bytes_nonneg split: go.split)

lemma counted_total:
  assumes "counted n db db'" and "counter_inv db" and "0 \<le> n" and "total_bytes db + n < 2 ^ 63"
  shows "counter_inv db' \<and> total_bytes db' = total_bytes db + n"
proof -
  let ?l = "bdb_localBytesCount db" and ?g = "bdb_GlobalLogicalWriteBytes db"
  have b: "0 \<le> ?l" "0 \<le> ?g" "?l < 1048576" "?g + ?l + n < 2 ^ 63"
    using assms(2,4) by (auto simp: counter_inv_def total_bytes_def)
  then have "i64 (?l + n) = ?l + n" "i64 (?g + (?l + n)) = ?g + (?l + n)"
    using assms(3) by (auto simp: i64_id in_i64_def)
  then show ?thesis using assms(1,3) b
    by (simp add: counted_def count_payload_def Let_def counter_inv_def total_bytes_def split: if_splits)
qed

lemma badger_exec_counts:
  assumes "badger_inv api ok view adm db" and "op_ok (set (codec_fields (bdb_r db))) plain_table (row_accepts adm) op (badger_rows view db)"
  shows "\<exists>x db'. db_exec (badger_db api env) op db = Ret (x, db') \<and> (db' = db \<and> op_bytes view op db' = 0 \<or> counted (op_bytes view op db') db db')"
proof (cases op)
  case (OpInsert t k v)
  then show ?thesis using badger_Insert_ok [OF assms(1), of t v k] assms(2)
    by (auto simp: badger_db_def map_res_def row_ok_fits)
next
  case (OpUpdate t k v)
  then show ?thesis using badger_Update_ok [OF assms(1), of t v k] assms(2)
    by (auto simp: badger_db_def map_res_def row_ok_fits)
next
  case (OpDelete t k)
  then show ?thesis using badger_Delete_ok [OF assms(1), of t k] assms(2) by (auto simp: badger_db_def map_res_def)
next
  case (OpRead t k fs)
  then show ?thesis using badger_Read_ok [OF assms(1), of t fs k] assms(2) by (auto simp: badger_db_def map_res_def)
qed

lemma badger_run_counts:
  assumes "badger_inv api ok view adm db" and "ops_ok (set (codec_fields (bdb_r db))) plain_table (row_accepts adm) ops (badger_rows view db)"
    and "counter_inv db" and "total_bytes db + run_bytes api env view ops db < 2 ^ 63"
  shows "\<exists>xs db'. db_run (badger_db api env) ops db = Ret (xs, db') \<and> counter_inv db' \<and> bdb_p db' = bdb_p db
    \<and> total_bytes db' = total_bytes db + run_bytes api env view ops db"
  using assms
proof (induction ops arbitrary: db)
  case (Cons op ops)
  let ?K = "set (codec_fields (bdb_r db))"
  have opk: "op_ok ?K plain_table (row_accepts adm) op (badger_rows view db)" using Cons.prems(2) by simp
  obtain x db1 where x: "db_exec (badger_db api env) op db = Ret (x, db1)"
      and c: "db1 = db \<and> op_bytes view op db1 = 0 \<or> counted (op_bytes view op db1) db db1"
    using badger_exec_counts [OF Cons.prems(1) opk, of env] by blast
  have r: "badger_inv api ok view adm db1" "set (codec_fields (bdb_r db1)) = ?K" "badger_rows view db1 = snd (table_exec op (badger_rows view db))"
    using badger.exec_refines [OF Cons.prems(1) opk, of env] x by auto
  have b: "total_bytes db + op_bytes view op db1 + run_bytes api env view ops db1 < 2 ^ 63" using Cons.prems(4) x by simp
  then have t: "counter_inv db1 \<and> total_bytes db1 = total_bytes db + op_bytes view op db1"
    using c Cons.prems(3) counted_total [of _ db db1] op_bytes_nonneg [of view op db1] run_bytes_nonneg [of api env view ops db1]
    by auto
  have p: "bdb_p db1 = bdb_p db" using c by (auto simp: counted_def)
  have "ops_ok (set (codec_fields (bdb_r db1))) plain_table (row_accepts adm) ops (badger_rows view db1)"
    using Cons.prems(2) r by simp
  from Cons.IH [OF r(1) this] t b obtain xs db2 where
    "db_run (badger_db api env) ops db1 = Ret (xs, db2)" "counter_inv db2" "bdb_p db2 = bdb_p db1"
    "total_bytes db2 = total_bytes db1 + run_bytes api env view ops db1" by auto
  then show ?case using x t p by auto
qed simp

lemma badger_flush_total:
  assumes "counter_inv db" and "total_bytes db < 2 ^ 63"
  shows "bdb_GlobalLogicalWriteBytes (badger_flush db) = total_bytes db \<and> bdb_p (badger_flush db) = bdb_p db"
  using assms by (auto simp: badger_flush_def counter_inv_def total_bytes_def i64_id in_i64_def)

text \<open>
  C26. The count of logically written bytes is exact when the operations run one after the other: after every
  admissible sequence the global and the local counter together hold the bytes of the row keys and rows that were
  written, the local counter stays below its flush limit of one mebibyte, and \<open>Close\<close> reports that total.
\<close>

theorem badger_counts_written_bytes:
  assumes "badger_laws api ok view adm" and "badger_Create DefaultOptions Open p = Ret (Inr db)"
    and "ok (bdb_db db)" and "view (bdb_db db) = Map.empty" and "GetInt64 p prop_FieldCount prop_FieldCountDefault < 2 ^ 63"
    and "ops_ok (set (codec_fields (bdb_r db))) plain_table (row_accepts adm) ops Map.empty"
    and "run_bytes api env view ops db < 2 ^ 63" and "GetInt64 p ''stabilization_time'' 0 \<le> 0"
  shows "\<exists>xs db' err rep db''. db_run (badger_db api env) ops db = Ret (xs, db')
    \<and> bdb_GlobalLogicalWriteBytes db' + bdb_localBytesCount db' = run_bytes api env view ops db
    \<and> 0 \<le> bdb_localBytesCount db' \<and> bdb_localBytesCount db' < 1048576
    \<and> badger_Close api env db' = Ret ((err, rep), db'')
    \<and> rep_logicalMB rep = fdiv (of_int64 (run_bytes api env view ops db)) (Fin 1048576)"
proof -
  have i: "badger_inv api ok view adm db" "badger_rows view db = Map.empty" "bdb_p db = p" "counter_inv db" "total_bytes db = 0"
    using badger_Create_inv [OF assms(1-5)] by (auto simp: counter_inv_def total_bytes_def)
  obtain xs db' where r: "db_run (badger_db api env) ops db = Ret (xs, db')" "counter_inv db'" "bdb_p db' = p"
      "total_bytes db' = run_bytes api env view ops db"
    using badger_run_counts [OF i(1) _ i(4), of ops env] assms(6,7) i(2,3,5) by auto
  obtain closeErr s where c: "bg_Close api (bdb_db (badger_flush db')) = (closeErr, s)" by fastforce
  have "\<exists>err rep db''. badger_Close api env db' = Ret ((err, rep), db'')
      \<and> rep_logicalMB rep = fdiv (of_int64 (run_bytes api env view ops db)) (Fin 1048576)"
    using badger_flush_total [OF r(2)] r(3,4) assms(7,8) by (simp add: badger_Close_def Let_def c)
  then show ?thesis using r by (auto simp: counter_inv_def total_bytes_def)
qed

theorem badger_counts_written_bytes_witness:
  "\<exists>xs db' err rep db''. db_run (badger_db mem_badger sample_close) [OpInsert ''t'' ''k'' [(''field0'', [1])], OpDelete ''t'' ''k''] sample_badger = Ret (xs, db')
    \<and> bdb_GlobalLogicalWriteBytes db' + bdb_localBytesCount db' = 11
    \<and> badger_Close mem_badger sample_close db' = Ret ((err, rep), db'') \<and> rep_logicalMB rep = fdiv (of_int64 11) (Fin 1048576)"
proof -
  let ?ops = "[OpInsert ''t'' ''k'' [(''field0'', [1])], OpDelete ''t'' ''k'']"
  have v: "putVarint 0 = [0]" "putVarint 1 = [2]"
    by (simp_all add: putVarint_def zigzag_def putUvarint.simps [of 0] putUvarint.simps [of 2])
  have b: "run_bytes mem_badger sample_close map_of ?ops sample_badger = 11"
    by (simp add: badger_db_def map_res_def badger_Insert_def badger_Delete_def badger_txn_def mem_badger_def sample_badger_def entry_bytes_def
        RowCodec_Encode_def EncodeRow_def field_index_def encodeBytes_def encodeInt64_def appendVarint_def v getRowKey_def bytes_of_def count_payload_def i64_id in_i64_def Let_def)
  have "ops_ok (set (codec_fields (bdb_r sample_badger))) plain_table (row_accepts (\<lambda>k v. True)) ?ops Map.empty"
    by (simp add: plain_table_def row_ok_def row_accepts_def all_encodings_def sample_badger_def)
  from badger_counts_written_bytes [OF mem_badger_laws sample_badger_created _ _ _ this, of sample_close] b
  show ?thesis by (auto simp: sample_badger_def prop_defs)
qed

subsection \<open>Scans\<close>

lemma scan_loop_ok:
  assumes "\<forall>bs\<in>set bss. row_wf r bs" and "set fs \<subseteq> set (codec_fields r)"
  shows "\<exists>ms. scan_loop r fs n (map Inr bss) = Ret (Inr ms) \<and> length ms = min n (length bss)
    \<and> (\<forall>i<length ms. map_of (ms ! i) = (if fs = [] then row_of r (bss ! i) else row_of r (bss ! i) |` set fs))"
  using assms(1)
proof (induction bss arbitrary: n)
  case Nil
  then show ?case by (cases n) auto
next
  case (Cons bs bss)
  show ?case
  proof (cases n)
    case (Suc m)
    obtain res where "RowCodec_Decode r bs fs = Ret (Inr res)" "map_of res = (if fs = [] then row_of r bs else row_of r bs |` set fs)"
      using decode_row [OF _ assms(2), of bs] Cons.prems by auto
    moreover obtain ms where "scan_loop r fs m (map Inr bss) = Ret (Inr ms)" "length ms = min m (length bss)"
        "\<forall>i<length ms. map_of (ms ! i) = (if fs = [] then row_of r (bss ! i) else row_of r (bss ! i) |` set fs)"
      using Cons.IH [of m] Cons.prems by auto
    ultimately show ?thesis using Suc by (auto simp: nth_Cons split: nat.split intro!: exI [of _ "res # ms"])
  qed simp
qed

text \<open>
  \<open>Scan\<close> walks the whole key space, not one table: it returns as many entries as asked for, the \<open>i\<close>-th being the row at
  the \<open>i\<close>-th stored key, in byte order and of whatever table, that is not below the start key, and nil once the
  keys are exhausted.
\<close>

theorem badger_scan_in_key_order:
  assumes "badger_inv api ok view adm db" and "0 \<le> cnt" and "set fs \<subseteq> set (codec_fields (bdb_r db))"
    and "ks = keys_from (view (bdb_db db)) (getRowKey t startKey)"
  shows "\<exists>rs. badger_Scan api db t startKey cnt fs = Ret (Inr rs, db) \<and> length rs = nat cnt
    \<and> (\<forall>i<nat cnt. if i < length ks
         then \<exists>res. rs ! i = Some res \<and> map_of res = (let m = row_of (bdb_r db) (the (view (bdb_db db) (ks ! i))) in if fs = [] then m else m |` set fs)
         else rs ! i = None)"
proof -
  let ?v = "view (bdb_db db)" and ?bss = "map (\<lambda>k. the (view (bdb_db db) k)) ks"
  have seek: "bg_Seek api (bdb_db db) (getRowKey t startKey) = map Inr ?bss" and fin: "finite (dom ?v)"
    using assms(1,4) badger_Seek_law [of api ok view adm "bdb_db db" "getRowKey t startKey"] by (simp_all add: badger_inv_def comp_def)
  have "set ks \<subseteq> dom ?v" using fin by (auto simp: assms(4) keys_from_def)
  then have "the (?v k) \<in> ran ?v" if "k \<in> set ks" for k using that by (force simp: ran_def)
  then have "\<forall>bs\<in>set ?bss. row_wf (bdb_r db) bs" using assms(1) by (auto simp: badger_inv_def kv_wf_def)
  from scan_loop_ok [OF this assms(3), of "nat cnt"] obtain ms where ms: "scan_loop (bdb_r db) fs (nat cnt) (map Inr ?bss) = Ret (Inr ms)"
      "length ms = min (nat cnt) (length ks)"
      "\<forall>i<length ms. map_of (ms ! i) = (if fs = [] then row_of (bdb_r db) (?bss ! i) else row_of (bdb_r db) (?bss ! i) |` set fs)"
    by auto
  have "badger_Scan api db t startKey cnt fs = Ret (Inr (pad_rows (nat cnt) ms), db)"
    using assms(2) ms(1) by (simp add: badger_Scan_def seek)
  then show ?thesis using ms(2,3)
    by (intro exI [of _ "pad_rows (nat cnt) ms"]) (auto simp: pad_rows_def nth_append Let_def)
qed

lemma sample_badger_inv: "row_wf (bdb_r sample_badger) bs \<Longrightarrow> row_wf (bdb_r sample_badger) bs' \<Longrightarrow>
  badger_inv mem_badger (\<lambda>s. True) map_of (\<lambda>k v. True) (sample_badger\<lparr>bdb_db := [(k, bs), (k', bs')]\<rparr>)"
  using badger_Create_inv [OF mem_badger_laws sample_badger_created]
  by (auto simp: badger_inv_def kv_wf_def sample_badger_def ran_def prop_defs split: if_splits)

text \<open>A scan of table \<open>a\<close> from its only key returns the row of table \<open>b\<close> as well.\<close>

theorem badger_scan_in_key_order_witness:
  "\<exists>rs. badger_Scan mem_badger (sample_badger\<lparr>bdb_db := [(getRowKey ''a'' ''k'', [0]), (getRowKey ''b'' ''k'', [0])]\<rparr>) ''a'' ''k'' 3 []
       = Ret (Inr rs, sample_badger\<lparr>bdb_db := [(getRowKey ''a'' ''k'', [0]), (getRowKey ''b'' ''k'', [0])]\<rparr>)
     \<and> rs ! 1 \<noteq> None \<and> rs ! 2 = None"
proof -
  let ?s = "[(getRowKey ''a'' ''k'', [0]), (getRowKey ''b'' ''k'', [0 :: byte])]"
  have wf: "row_wf (bdb_r sample_badger) [0]" by (simp add: row_wf_def row_of_def DecodeRow_def ran_def)
  have ks: "keys_from (map_of ?s) (getRowKey ''a'' ''k'') = [getRowKey ''a'' ''k'', getRowKey ''b'' ''k'']"
    unfolding keys_from_map_of by (simp add: getRowKey_def bytes_of_def)
  from badger_scan_in_key_order [where cnt = 3 and fs = "[]" and t = "''a''" and startKey = "''k''",
      OF sample_badger_inv [OF wf wf, of "getRowKey ''a'' ''k''" "getRowKey ''b'' ''k''"] _ _ refl] ks
  show ?thesis by (force simp: Let_def numeral_eq_Suc All_less_Suc)
qed

subsection \<open>Waiting for compaction\<close>

lemma ticking_mono:
  fixes clock :: "nat \<Rightarrow> int"
  assumes "\<And>i. clock i + 1000000000 \<le> clock (Suc i)" and "i \<le> j"
  shows "clock i \<le> clock j"
  by (rule lift_Suc_mono_le [OF _ assms(2)]) (use assms(1) in \<open>smt (verit)\<close>)

lemma wait_loop_ends:
  assumes "\<And>i. clock i + 1000000000 \<le> clock (Suc i)" and "deadline \<le> clock i + int fuel * 1000000000"
  shows "wait_loop clock levels deadline (Suc fuel) i = Some (\<exists>j\<ge>i. clock j < deadline \<and> all_healthy (levels j))"
  using assms(2)
proof (induction fuel arbitrary: i)
  case 0
  then show ?case using ticking_mono [of clock, OF assms(1), of i] by fastforce
next
  case (Suc fuel)
  have "(\<exists>j\<ge>i. clock j < deadline \<and> all_healthy (levels j)) \<longleftrightarrow>
      clock i < deadline \<and> all_healthy (levels i) \<or> (\<exists>j\<ge>Suc i. clock j < deadline \<and> all_healthy (levels j))"
    by (metis Suc_le_eq dual_order.order_iff_strict)
  moreover have "wait_loop clock levels deadline (Suc fuel) (Suc i) = Some (\<exists>j\<ge>Suc i. clock j < deadline \<and> all_healthy (levels j))"
    using Suc.IH [of "Suc i"] Suc.prems assms(1) [of i] by simp
  moreover have "\<not> (\<exists>j\<ge>Suc i. clock j < deadline)" if "\<not> clock i < deadline"
    using that ticking_mono [of clock, OF assms(1), of i] by (meson Suc_leD le_less_trans)
  ultimately show ?case by auto
qed

text \<open>
  The wait for compaction ends: if the clock advances by a second from one check to the next, at most one more check
  than the configured number of seconds is made, and the result says whether at some check before the
  deadline every level that holds tables had a score below 1.
\<close>

theorem badger_wait_terminates:
  assumes "\<And>i. clock i + 1000000000 \<le> clock (Suc i)" and "0 \<le> maxWaitSec" and "maxWaitSec * 1000000000 < 2 ^ 63" and "nat maxWaitSec < fuel"
  shows "waitForCompactionHealthy clock levels fuel maxWaitSec =
    Some (\<exists>i\<ge>1. clock i < clock 0 + maxWaitSec * 1000000000 \<and> all_healthy (levels i))"
proof -
  obtain f where f: "fuel = Suc f" "nat maxWaitSec \<le> f" using assms(4) by (cases fuel) auto
  have "i64 (maxWaitSec * 1000000000) = maxWaitSec * 1000000000" using assms(2,3) by (intro i64_id) (simp add: in_i64_def)
  moreover have "clock 0 + maxWaitSec * 1000000000 \<le> clock 1 + int f * 1000000000"
    using assms(1) [of 0] f(2) by simp
  ultimately show ?thesis using wait_loop_ends [of clock, OF assms(1)] by (simp add: waitForCompactionHealthy_def f(1))
qed

theorem badger_wait_terminates_witness:
  "waitForCompactionHealthy (\<lambda>i. 2000000000 * int i) (\<lambda>i. if i = 1 then [(2, Fin 3)] else [(0, Fin 3), (4, Fin (1 / 2))]) 11 10 = Some True"
proof -
  have "waitForCompactionHealthy (\<lambda>i. 2000000000 * int i) (\<lambda>i. if i = 1 then [(2, Fin 3)] else [(0, Fin 3), (4, Fin (1 / 2))]) 11 10
    = Some (\<exists>i\<ge>1. 2000000000 * int i < 10000000000 \<and> all_healthy (if i = 1 then [(2, Fin 3)] else [(0, Fin 3), (4, Fin (1 / 2))]))"
    by (subst badger_wait_terminates) auto
  also have "\<dots> = Some True"
    by (auto simp: all_healthy_def fle_def intro!: exI [of _ 2])
  finally show ?thesis .
qed

end
