(* ===== verification/EndToEnd.thy ===== *)
theory EndToEnd
  imports WorkloadProps RowStore Badger
begin

text \<open>
  The workload over a database: a load in data integrity mode followed by reads. The lemmas are proved once in the
  locale \<open>row_db\<close>, for every database that keeps the contract, and hold for each adapter through its interpretation.
\<close>

section \<open>Rows of the workload\<close>

definition det_row :: "int \<Rightarrow> string \<Rightarrow> string list \<Rightarrow> string \<rightharpoonup> byte list" where
  "det_row len key fnames = (\<lambda>f. if f \<in> set fnames then Some (deterministic_value len key f) else None)"

lemma build_fields_distinct:
  "build_fields E key fs acc s = Ret (vals, s') \<Longrightarrow> distinct (map fst acc) \<Longrightarrow> distinct (map fst vals)"
  by (induction E key fs acc arbitrary: s rule: build_fields.induct) (auto simp: abind_eq_Ret distinct_update)

text \<open>The row that is built for a key has distinct field names, only configured ones, and deterministic values.\<close>

lemma buildValues_det:
  assumes "const_length len s" and "c_dataIntegrity (w_core s)"
  shows "\<exists>vals. buildValues E key s = Ret (vals, s) \<and> map_of vals = det_row len key (w_fieldNames s)
    \<and> row_ok (set (w_fieldNames s)) vals"
proof -
  obtain vals where v: "build_fields E key (w_fieldNames s) [] s = Ret (vals, s)"
      "\<forall>(f, v)\<in>set vals. v = deterministic_value len key f" "fst ` set vals = set (w_fieldNames s)"
    using build_fields_integrity [OF assms, of "[]" key E "w_fieldNames s"] by auto
  have d: "distinct (map fst vals)" using build_fields_distinct [OF v(1)] by simp
  have "map_of vals f = det_row len key (w_fieldNames s) f" for f
  proof (cases "map_of vals f")
    case None
    then show ?thesis using v(3) by (simp add: det_row_def map_of_eq_None_iff)
  next
    case (Some w)
    have m: "(f, w) \<in> set vals" by (rule map_of_SomeD [OF Some])
    then have "w = deterministic_value len key f" using v(2) by blast
    moreover have "f \<in> set (w_fieldNames s)" using image_eqI [OF _ m, of f fst] v(3) by simp
    ultimately show ?thesis using Some by (simp add: det_row_def)
  qed
  moreover have "int (length v) < 2 ^ 63" if "(f, v) \<in> set vals" for f v
    using that v(2) assms(1) length_deterministic_value [of len key f] by (auto simp: const_length_def)
  ultimately have "map_of vals = det_row len key (w_fieldNames s)" "row_ok (set (w_fieldNames s)) vals"
    using v(3) d by (auto simp: row_ok_def)
  then show ?thesis using v(1) by (auto simp: buildValues_def)
qed

text \<open>A worker that is ready to load a database of the contract.\<close>

definition load_ready ::
    "('d \<Rightarrow> bool) \<Rightarrow> ('d \<Rightarrow> string set) \<Rightarrow> (string \<Rightarrow> bool) \<Rightarrow> (string \<Rightarrow> string \<Rightarrow> (string \<rightharpoonup> byte list) \<Rightarrow> bool)
      \<Rightarrow> int \<Rightarrow> int \<Rightarrow> 'd wstate \<Rightarrow> bool" where
  "load_ready ok known tables accepts k len s \<longleftrightarrow>
     loading k len s \<and> c_dataIntegrity (w_core s) \<and> ok (w_db s) \<and> tables (c_table (w_core s))
     \<and> set (w_fieldNames s) \<subseteq> known (w_db s) \<and> (\<forall>key. accepts (c_table (w_core s)) key (det_row len key (w_fieldNames s)))"

context row_db
begin

lemma DoInsert_stores:
  assumes "load_ready inv known tables accepts k len s" and "k < 2 ^ 63 - 1" and "0 < e_fuel E"
  shows "\<exists>d'. let s' = s\<lparr>w_core := (w_core s)\<lparr>c_keySequence := GCounter \<lparr>counter_val = k + 1\<rparr>\<rparr>, w_db := d'\<rparr> in
      DoInsert E D (\<lambda>_. False) s = Ret (None, s') \<and> load_ready inv known tables accepts (k + 1) len s'
      \<and> (let key = buildKeyName (w_core s) k in rows d' = (rows (w_db s))((c_table (w_core s), key) \<mapsto> det_row len key (w_fieldNames s)))"
proof -
  let ?s1 = "s\<lparr>w_core := (w_core s)\<lparr>c_keySequence := GCounter \<lparr>counter_val = k + 1\<rparr>\<rparr>\<rparr>"
  let ?key = "buildKeyName (w_core s) k"
  have l: "loading k len s" using assms(1) by (simp add: load_ready_def)
  have n: "next_keySequence E s = Ret (k, ?s1)" and l1: "loading (k + 1) len ?s1"
    using next_keySequence_eq [OF l assms(2)] by auto
  have key: "buildKeyName (w_core ?s1) k = ?key" by (simp add: buildKeyName_def)
  obtain vals where v: "buildValues E ?key ?s1 = Ret (vals, ?s1)" "map_of vals = det_row len ?key (w_fieldNames s)"
      "row_ok (set (w_fieldNames s)) vals"
    using buildValues_det [of len ?s1 E ?key] l1 assms(1) by (auto simp: loading_def load_ready_def)
  have "row_ok (known (w_db s)) vals" using v(3) assms(1) by (auto simp: row_ok_def load_ready_def)
  then obtain d' where d': "db_Insert D (w_db s) (c_table (w_core s)) ?key vals = Ret (None, d')" "inv d'" "known d' = known (w_db s)"
      "rows d' = (rows (w_db s))((c_table (w_core s), ?key) \<mapsto> map_of vals)"
    using Insert [of "w_db s" "c_table (w_core s)" vals ?key] assms(1) v(2) by (auto simp: load_ready_def)
  obtain fuel where fuel: "e_fuel E = Suc fuel" using assms(3) by (cases "e_fuel E") auto
  have "retry_loop (run_db (\<lambda>d. db_Insert D d (c_table (w_core ?s1)) ?key vals)) (\<lambda>_. False) (e_fuel E) 0 ?s1 = Ret (None, ?s1\<lparr>w_db := d'\<rparr>)"
    using l1 d'(1) by (simp add: fuel run_db_def loading_def i64_id in_i64_def)
  then have "DoInsert E D (\<lambda>_. False) s = Ret (None, ?s1\<lparr>w_db := d'\<rparr>)"
    unfolding DoInsert_def using n v(1) key by (simp add: Let_def)
  moreover have "load_ready inv known tables accepts (k + 1) len (?s1\<lparr>w_db := d'\<rparr>)"
    using assms(1) l1 d'(2,3) by (simp add: load_ready_def)
  ultimately show ?thesis using d'(4) v(2) by (auto simp: Let_def)
qed

text \<open>After loading, every loaded key has its row, and rows of the workload that were there before still are.\<close>

lemma load_stores:
  assumes "load_ready inv known tables accepts k len s" and "k + int n < 2 ^ 63" and "0 < e_fuel E"
  shows "\<exists>d' q. let s' = s\<lparr>w_core := (w_core s)\<lparr>c_keySequence := q\<rparr>, w_db := d'\<rparr>; t = c_table (w_core s) in
      insert_all E D n s = Ret (replicate n None, s') \<and> load_ready inv known tables accepts (k + int n) len s'
      \<and> (\<forall>i<n. let key = buildKeyName (w_core s) (k + int i) in rows d' (t, key) = Some (det_row len key (w_fieldNames s)))
      \<and> (\<forall>key. rows (w_db s) (t, key) = Some (det_row len key (w_fieldNames s)) \<longrightarrow> rows d' (t, key) = Some (det_row len key (w_fieldNames s)))"
  using assms
proof (induction n arbitrary: k s)
  case 0
  then show ?case by (intro exI [of _ "w_db s"] exI [of _ "c_keySequence (w_core s)"]) (simp add: Let_def)
next
  case (Suc n)
  let ?t = "c_table (w_core s)" and ?row = "\<lambda>key. det_row len key (w_fieldNames s)" and ?key = "\<lambda>i. buildKeyName (w_core s) (k + int i)"
  obtain d1 where d1: "DoInsert E D (\<lambda>_. False) s = Ret (None, s\<lparr>w_core := (w_core s)\<lparr>c_keySequence := GCounter \<lparr>counter_val = k + 1\<rparr>\<rparr>, w_db := d1\<rparr>)"
      and r1: "load_ready inv known tables accepts (k + 1) len (s\<lparr>w_core := (w_core s)\<lparr>c_keySequence := GCounter \<lparr>counter_val = k + 1\<rparr>\<rparr>, w_db := d1\<rparr>)"
      and rows1: "rows d1 = (rows (w_db s))((?t, ?key 0) \<mapsto> ?row (?key 0))"
    using DoInsert_stores [OF Suc.prems(1) _ Suc.prems(3)] Suc.prems(2) by (auto simp: Let_def)
  let ?s1 = "s\<lparr>w_core := (w_core s)\<lparr>c_keySequence := GCounter \<lparr>counter_val = k + 1\<rparr>\<rparr>, w_db := d1\<rparr>"
  have keys: "buildKeyName (w_core ?s1) j = buildKeyName (w_core s) j" for j by (simp add: buildKeyName_def)
  obtain d2 q where i2: "insert_all E D n ?s1 = Ret (replicate n None, s\<lparr>w_core := (w_core s)\<lparr>c_keySequence := q\<rparr>, w_db := d2\<rparr>)"
      and r2: "load_ready inv known tables accepts (k + 1 + int n) len (s\<lparr>w_core := (w_core s)\<lparr>c_keySequence := q\<rparr>, w_db := d2\<rparr>)"
      and new: "\<forall>i<n. rows d2 (?t, buildKeyName (w_core s) (k + 1 + int i)) = Some (?row (buildKeyName (w_core s) (k + 1 + int i)))"
      and old: "\<forall>key. rows d1 (?t, key) = Some (?row key) \<longrightarrow> rows d2 (?t, key) = Some (?row key)"
    using Suc.IH [OF r1 _ Suc.prems(3)] Suc.prems(2) keys by (auto simp: Let_def)
  have ins: "insert_all E D (Suc n) s = Ret (replicate (Suc n) None, s\<lparr>w_core := (w_core s)\<lparr>c_keySequence := q\<rparr>, w_db := d2\<rparr>)"
    using d1 i2 by simp
  have "rows d2 (?t, ?key i) = Some (?row (?key i))" if "i < Suc n" for i
    using that new old rows1 by (cases i) (simp_all add: algebra_simps)
  moreover have "rows d2 (?t, key) = Some (?row key)" if "rows (w_db s) (?t, key) = Some (?row key)" for key
    using that old rows1 by simp
  moreover have "load_ready inv known tables accepts (k + int (Suc n)) len (s\<lparr>w_core := (w_core s)\<lparr>c_keySequence := q\<rparr>, w_db := d2\<rparr>)"
    using r2 by (simp add: algebra_simps)
  ultimately show ?case using ins by (intro exI [of _ d2] exI [of _ q]) (simp add: Let_def)
qed

text \<open>Reading a row of the workload verifies it.\<close>

lemma read_verifies:
  assumes "load_ready inv known tables accepts k len s" and "c_readAllFields (w_core s)" and "keyNum \<noteq> - 1"
    and "key = buildKeyName (w_core s) keyNum" and "rows (w_db s) (c_table (w_core s), key) = Some (det_row len key (w_fieldNames s))"
  shows "\<exists>s'. doTransactionRead E D keyNum s = Ret (None, s') \<and> rows (w_db s') = rows (w_db s)"
proof -
  let ?t = "c_table (w_core s)" and ?row = "det_row len key (w_fieldNames s)"
  have r: "inv (w_db s)" "tables ?t" "set (w_fieldNames s) \<subseteq> known (w_db s)" "const_length len s"
    using assms(1) by (auto simp: load_ready_def loading_def)
  obtain res d' where d': "db_Read D (w_db s) ?t key (w_fieldNames s) = Ret (Inr res, d')" "rows d' = rows (w_db s)"
      and res: "map_of res = (if w_fieldNames s = [] then ?row else ?row |` set (w_fieldNames s))" "distinct (map fst res)"
    using Read [OF r(1-3) assms(5)] by blast
  have "v = deterministic_value len key f" if "(f, v) \<in> set res" for f v
    using map_of_is_SomeI [OF res(2) that] res(1) by (auto simp: det_row_def restrict_map_def split: if_splits)
  moreover have "const_length len (s\<lparr>w_db := d'\<rparr>)" using r(4) by (simp add: const_length_def)
  ultimately have "verifyRow E key res (s\<lparr>w_db := d'\<rparr>) = Ret ((), s\<lparr>w_db := d'\<rparr>)"
    using verifyRow_const [of len "s\<lparr>w_db := d'\<rparr>" E key res] by auto
  then have "doTransactionRead E D keyNum s = Ret (None, s\<lparr>w_db := d'\<rparr>)"
    using assms(2-4) d'(1) by (simp add: doTransactionRead_def resolve_key_def key_name_def choose_fields_def run_db_def abind_def)
  then show ?thesis using d'(2) by auto
qed

end

section \<open>The workload over Badger\<close>

lemma Create_more:
  assumes "coreCreator_Create E p = Ret c"
  shows "c_table c = GetString p prop_TableName prop_TableNameDefault
    \<and> c_fieldNames c = map (\<lambda>i. field_name (int i)) [0..<nat (GetInt64 p prop_FieldCount prop_FieldCountDefault)]
    \<and> c_readAllFields c = GetBool p prop_ReadAllFields prop_ReadALlFieldsDefault
    \<and> (GetBool p prop_DataIntegrity prop_DataIntegrityDefault \<longrightarrow>
         GetString p prop_FieldLengthDistribution prop_FieldLengthDistributionDefault = ''constant'')"
  using assms by (auto simp: coreCreator_Create_def make_len_def Let_def gbind_eq_Ret_iff split: if_splits)

lemma fieldNames_known:
  assumes "coreCreator_Create E p = Ret c" and "NewRowCodec p = Ret r"
  shows "set (c_fieldNames c) \<subseteq> set (codec_fields r)"
proof -
  have "codec_fields r = map field_name [0..GetInt64 p prop_FieldCount prop_FieldCountDefault - 1]"
    using assms(2) by (auto simp: NewRowCodec_def allFields_def Let_def split: if_splits)
  then show ?thesis using Create_more [OF assms(1)] by (auto simp: image_iff nat_less_iff)
qed

lemma Create_load_ready:
  assumes "coreCreator_Create E p = Ret c" and "GetBool p prop_DataIntegrity prop_DataIntegrityDefault"
    and "GetString p prop_RequestDistribution prop_RequestDistributionDefault \<noteq> ''mixgraph''"
    and "len = GetInt64 p prop_FieldLength prop_FieldLengthDefault" and "0 \<le> len" and "len + 21 < 2 ^ 63"
    and "GetInt64 p prop_InsertionRetryLimit prop_InsertionRetryLimitDefault = 0" and "in_i64 (cfg_insertStart p)"
    and "ok d" and "tables (c_table c)" and "set (c_fieldNames c) \<subseteq> known d" and "\<And>key. accepts (c_table c) key (det_row len key (c_fieldNames c))"
  shows "load_ready ok known tables accepts (cfg_insertStart p) len (core_InitThread c seed d)"
proof -
  have "c_fieldLengthGenerator c = GConstant (NewConstant len)"
    using Create_fields [OF assms(1)] create_keyChooser_length assms(3,4) constant_length_generator [of p E] Create_more [OF assms(1)] assms(2)
    by force
  then show ?thesis using Create_fields [OF assms(1)] assms
    by (simp add: load_ready_def loading_def const_length_def core_InitThread_def NewCounter_def)
qed

text \<open>
  The load phase and the verifying reads fit together, down to the stored bytes: a workload created in data integrity
  mode that loads \<open>n\<close> keys into a fresh Badger database over an engine that behaves as documented inserts all of
  them without error, and afterwards a read transaction for any loaded key finds its row and verifies it: it
  returns no error and does not end the process.
\<close>

theorem badger_load_then_verify:
  assumes "badger_laws api ok view adm" and "badger_Create DefaultOptions Open p = Ret (Inr db)"
    and "ok (bdb_db db)" and "view (bdb_db db) = Map.empty" and "GetInt64 p prop_FieldCount prop_FieldCountDefault < 2 ^ 63"
    and "coreCreator_Create E p = Ret c" and "GetBool p prop_DataIntegrity prop_DataIntegrityDefault"
    and "GetBool p prop_ReadAllFields prop_ReadALlFieldsDefault" and "GetString p prop_RequestDistribution prop_RequestDistributionDefault \<noteq> ''mixgraph''"
    and "len = GetInt64 p prop_FieldLength prop_FieldLengthDefault" and "0 \<le> len" and "len + 21 < 2 ^ 63"
    and "GetInt64 p prop_InsertionRetryLimit prop_InsertionRetryLimitDefault = 0" and "0 < e_fuel E"
    and "0 \<le> cfg_insertStart p" and "cfg_insertStart p + int n < 2 ^ 63"
    and "plain_table (c_table c)" and "\<And>key. row_accepts adm (c_table c) key (det_row len key (c_fieldNames c))"
  shows "\<exists>s. insert_all E (badger_db api env) n (core_InitThread c seed db) = Ret (replicate n None, s)
    \<and> (\<forall>i<n. \<exists>s'. doTransactionRead E (badger_db api env) (cfg_insertStart p + int i) s = Ret (None, s'))"
proof -
  let ?known = "\<lambda>db. set (codec_fields (bdb_r db))" and ?s = "core_InitThread c seed db"
  have r: "NewRowCodec p = Ret (bdb_r db)"
    using assms(2) by (auto simp: badger_Create_def Let_def gbind_eq_Ret_iff split: sum.splits)
  have inv: "badger_inv api ok view adm db" using badger_Create_inv [OF assms(1-5)] by blast
  have ready: "load_ready (badger_inv api ok view adm) ?known plain_table (row_accepts adm) (cfg_insertStart p) len ?s"
    by (rule Create_load_ready [OF assms(6,7,9-13)])
      (use assms(15-18) inv fieldNames_known [OF assms(6) r] in \<open>simp_all add: in_i64_def\<close>)
  have core: "w_core ?s = c" "w_fieldNames ?s = c_fieldNames c" by (simp_all add: core_InitThread_def)
  obtain d' q where l: "insert_all E (badger_db api env) n ?s = Ret (replicate n None, ?s\<lparr>w_core := c\<lparr>c_keySequence := q\<rparr>, w_db := d'\<rparr>)"
      "load_ready (badger_inv api ok view adm) ?known plain_table (row_accepts adm) (cfg_insertStart p + int n) len (?s\<lparr>w_core := c\<lparr>c_keySequence := q\<rparr>, w_db := d'\<rparr>)"
      "\<forall>i<n. badger_rows view d' (c_table c, buildKeyName c (cfg_insertStart p + int i)) = Some (det_row len (buildKeyName c (cfg_insertStart p + int i)) (c_fieldNames c))"
    using badger.load_stores [OF ready assms(16,14), of env] unfolding core Let_def by blast
  have key: "buildKeyName (c\<lparr>c_keySequence := q\<rparr>) j = buildKeyName c j" for j by (simp add: buildKeyName_def)
  have "\<exists>s'. doTransactionRead E (badger_db api env) (cfg_insertStart p + int i) (?s\<lparr>w_core := c\<lparr>c_keySequence := q\<rparr>, w_db := d'\<rparr>) = Ret (None, s')" if "i < n" for i
    using badger.read_verifies [OF l(2), of "cfg_insertStart p + int i" "buildKeyName c (cfg_insertStart p + int i)" E env]
      Create_more [OF assms(6)] assms(8,15) l(3) that by (auto simp: key core_InitThread_def)
  then show ?thesis using l(1) by blast
qed

definition integrity_props :: props where
  "integrity_props = (props_of [(''recordcount'', 1000), (''fieldcount'', 2)] [])
     \<lparr>GetBool := (\<lambda>k d. if k = prop_DataIntegrity then True else d)\<rparr>"

lemma integrity_cfg:
  "cfg_recordCount integrity_props = 1000" "cfg_insertStart integrity_props = 0" "cfg_insertCount integrity_props = 1000"
  by (simp_all add: cfg_recordCount_def cfg_insertStart_def cfg_insertCount_def integrity_props_def prop_defs i64_id in_i64_def)

lemma integrity_create: "\<exists>c. coreCreator_Create sample_env integrity_props = Ret c \<and> c_table c = ''usertable''"
proof -
  have "getFieldLengthGenerator sample_env integrity_props = Ret (GConstant (NewConstant 100))"
    by (subst constant_length_generator) (simp_all add: integrity_props_def prop_defs)
  moreover have "create_keyChooser sample_env integrity_props 1000 0 1000 g = Ret (GUniform (NewUniform 0 999), g)" for g
    by (simp add: create_keyChooser_def integrity_props_def prop_defs Let_def i64_id in_i64_def)
  moreover have "create_scanLength sample_env integrity_props = Ret (GUniform (NewUniform 1 1000))"
    by (simp add: create_scanLength_def integrity_props_def prop_defs)
  ultimately show ?thesis
    by (simp add: coreCreator_Create_def Let_def integrity_cfg make_len_def i64_id in_i64_def)
      (simp add: integrity_props_def prop_defs)
qed

lemma integrity_badger:
  "badger_Create sample_options (\<lambda>removed opts. Inr []) integrity_props = Ret (Inr (sample_badger\<lparr>bdb_p := integrity_props\<rparr>))"
  by (simp add: badger_Create_def NewRowCodec_def allFields_def createFieldIndices_def integrity_props_def prop_defs upto.simps sample_badger_def Let_def)

theorem badger_load_then_verify_witness:
  "\<exists>c s s'. coreCreator_Create sample_env integrity_props = Ret c
     \<and> insert_all sample_env (badger_db mem_badger sample_close) 5 (core_InitThread c (\<lambda>i. i) (sample_badger\<lparr>bdb_p := integrity_props\<rparr>)) = Ret (replicate 5 None, s)
     \<and> doTransactionRead sample_env (badger_db mem_badger sample_close) 3 s = Ret (None, s')"
proof -
  obtain c where c: "coreCreator_Create sample_env integrity_props = Ret c" "c_table c = ''usertable''" using integrity_create by blast
  let ?s0 = "core_InitThread c (\<lambda>i. i) (sample_badger\<lparr>bdb_p := integrity_props\<rparr>)"
  have "\<exists>s. insert_all sample_env (badger_db mem_badger sample_close) 5 ?s0 = Ret (replicate 5 None, s)
    \<and> (\<forall>i<5. \<exists>s'. doTransactionRead sample_env (badger_db mem_badger sample_close) (cfg_insertStart integrity_props + int i) s = Ret (None, s'))"
    by (rule badger_load_then_verify [OF mem_badger_laws integrity_badger _ _ _ c(1), where len = 100])
      (simp_all add: c(2) integrity_cfg plain_table_def row_accepts_def all_encodings_def,
       simp_all add: integrity_props_def sample_badger_def sample_env_def prop_defs)
  then obtain s where s: "insert_all sample_env (badger_db mem_badger sample_close) 5 ?s0 = Ret (replicate 5 None, s)"
      "\<forall>i<5. \<exists>s'. doTransactionRead sample_env (badger_db mem_badger sample_close) (cfg_insertStart integrity_props + int i) s = Ret (None, s')"
    by blast
  have "\<exists>s'. doTransactionRead sample_env (badger_db mem_badger sample_close) 3 s = Ret (None, s')"
    using spec [OF s(2), of 3] by (simp add: integrity_cfg)
  then show ?thesis using c(1) s(1) by blast
qed

section \<open>The workload and the codec agree on the fields\<close>

lemma build_fields_names:
  "build_fields E key fs acc s = Ret (vals, s') \<Longrightarrow> fst ` set vals = fst ` set acc \<union> set fs"
proof (induction E key fs acc arbitrary: s rule: build_fields.induct)
  case (2 E key f fs acc)
  have "fst ` set (AList.update f v acc) = insert f (fst ` set acc)" for v
    by (simp add: dom_map_of_conv_image_fst [symmetric] update_conv')
  moreover obtain a s1 where "build_fields E key fs (AList.update f a acc) s1 = Ret (vals, s')"
    using "2.prems" by (auto simp: abind_eq_Ret)
  ultimately show ?case using "2.IH" by simp
qed (simp add: aret_def)

lemma pick_fieldName_known:
  assumes "pick_fieldName E s = Ret (f, s')"
  shows "f \<in> set (w_fieldNames s)"
proof -
  have "w_fieldNames s1 = w_fieldNames s" if "next_field E s = Ret (i, s1)" for i s1
    using that by (auto simp: next_field_def draw_def Let_def gbind_eq_Ret_iff)
  then show ?thesis using assms
    by (auto simp: pick_fieldName_def abind_eq_Ret alift_def gbind_eq_Ret_iff go_index_def split: if_splits)
qed



end
