(* ===== verification/ClientLoad.thy ===== *)
theory ClientLoad
  imports ClientProps EndToEnd
begin

text \<open>
  The whole client loading a database with any number of worker threads, in any interleaving of their rounds: an
  invariant of the reachable states relates the key sequence, the work the threads have done and the stored rows.
  It is proved once for every database that keeps the contract \<open>row_db_threads\<close> and used for Badger behind the
  measuring wrapper, the way the program runs it.
\<close>

section \<open>The work done\<close>

fun thread_done :: "int \<Rightarrow> nat \<Rightarrow> nat \<Rightarrow> thread \<Rightarrow> int" where
  "thread_done tot n i Starting = 0"
| "thread_done tot n i (Running w r fs stop) = wk_opsDone w"
| "thread_done tot n i Finished = worker_share tot n i"

definition load_done :: "int \<Rightarrow> thread list \<Rightarrow> int" where
  "load_done tot ts = (\<Sum>i<length ts. thread_done tot (length ts) i (ts ! i))"

lemma load_done_update:
  assumes "i < length ts"
  shows "load_done tot (ts[i := t]) = load_done tot ts + (thread_done tot (length ts) i t - thread_done tot (length ts) i (ts ! i))"
proof -
  let ?f = "\<lambda>ts j. thread_done tot (length ts) j (ts ! j)"
  have "load_done tot (ts[i := t]) = thread_done tot (length ts) i t + (\<Sum>j\<in>{..<length ts} - {i}. ?f (ts[i := t]) j)"
    using assms by (simp add: load_done_def sum.remove [of _ i])
  moreover have "(\<Sum>j\<in>{..<length ts} - {i}. ?f (ts[i := t]) j) = (\<Sum>j\<in>{..<length ts} - {i}. ?f ts j)"
    by (rule sum.cong) auto
  moreover have "load_done tot ts = ?f ts i + (\<Sum>j\<in>{..<length ts} - {i}. ?f ts j)"
    using assms by (simp add: load_done_def sum.remove [of _ i])
  ultimately show ?thesis by simp
qed

text \<open>A loading worker: single inserts, its share, and not stopped.\<close>

fun thread_ok :: "int \<Rightarrow> nat \<Rightarrow> string list \<Rightarrow> nat \<Rightarrow> thread \<Rightarrow> bool" where
  "thread_ok tot n fs0 i (Running w r fs stop) \<longleftrightarrow> fs = fs0 \<and> \<not> stop \<and> \<not> wk_doTransactions w \<and> \<not> wk_doBatch w
     \<and> wk_opCount w = worker_share tot n i \<and> 0 \<le> wk_opsDone w \<and> wk_opsDone w \<le> wk_opCount w"
| "thread_ok tot n fs0 i t \<longleftrightarrow> True"

lemma thread_done_bounds:
  assumes "thread_ok tot n fs i t" and "0 < n" and "int n \<le> tot"
  shows "0 \<le> thread_done tot n i t \<and> thread_done tot n i t \<le> worker_share tot n i"
proof -
  have "0 \<le> tot div int n" using assms(2,3) by (simp add: pos_imp_zdiv_nonneg_iff)
  then show ?thesis using assms(1) by (cases t) (auto simp: worker_share_def)
qed

lemma load_done_bound:
  assumes "\<forall>i<length ts. thread_ok tot (length ts) fs i (ts ! i)" and "i < length ts" and "int (length ts) \<le> tot"
    and "thread_done tot (length ts) i (ts ! i) < worker_share tot (length ts) i"
  shows "0 \<le> load_done tot ts \<and> load_done tot ts < tot"
proof -
  have n: "0 < length ts" using assms(2) by linarith
  have b: "0 \<le> thread_done tot (length ts) j (ts ! j) \<and> thread_done tot (length ts) j (ts ! j) \<le> worker_share tot (length ts) j" if "j < length ts" for j
    using thread_done_bounds [OF _ n assms(3)] assms(1) that by blast
  have "load_done tot ts < (\<Sum>j<length ts. worker_share tot (length ts) j)"
    unfolding load_done_def using b assms(2,4) by (intro sum_strict_mono_ex1) auto
  moreover have "0 \<le> load_done tot ts" unfolding load_done_def using b by (intro sum_nonneg) auto
  ultimately show ?thesis using sum_worker_share [OF n, of tot] assms(3) by simp
qed

lemma load_done_finished:
  assumes "\<forall>t\<in>set ts. t = Finished" and "0 < length ts" and "0 \<le> tot"
  shows "load_done tot ts = tot"
proof -
  have "load_done tot ts = (\<Sum>i<length ts. worker_share tot (length ts) i)"
    unfolding load_done_def using bspec [OF assms(1) nth_mem] by (intro sum.cong) simp_all
  then show ?thesis using sum_worker_share [OF assms(2,3)] by simp
qed

lemma threads_ok_update:
  "\<forall>j<n. thread_ok tot n fs j (ts ! j) \<Longrightarrow> i < n \<Longrightarrow> length ts = n \<Longrightarrow> thread_ok tot n fs i t \<Longrightarrow> \<forall>j<n. thread_ok tot n fs j (ts[i := t] ! j)"
  by (simp add: nth_list_update)

fun thread_rest :: "int \<Rightarrow> nat \<Rightarrow> nat \<Rightarrow> thread \<Rightarrow> nat" where
  "thread_rest tot n i Starting = nat (worker_share tot n i) + 2"
| "thread_rest tot n i (Running w r fs stop) = nat (wk_opCount w - wk_opsDone w) + 1"
| "thread_rest tot n i Finished = 0"

definition load_rest :: "int \<Rightarrow> thread list \<Rightarrow> nat" where
  "load_rest tot ts = (\<Sum>i<length ts. thread_rest tot (length ts) i (ts ! i))"

lemma load_rest_update:
  assumes "i < length ts" and "thread_rest tot (length ts) i t < thread_rest tot (length ts) i (ts ! i)"
  shows "load_rest tot (ts[i := t]) < load_rest tot ts"
  unfolding load_rest_def length_list_update using assms by (intro sum_strict_mono_ex1) (auto simp: nth_list_update)

section \<open>The invariant of a load\<close>

definition load_inv ::
    "('d \<Rightarrow> bool) \<Rightarrow> ('d \<Rightarrow> table) \<Rightarrow> ('d \<Rightarrow> string set) \<Rightarrow> (string \<Rightarrow> bool) \<Rightarrow> (string \<Rightarrow> string \<Rightarrow> (string \<rightharpoonup> byte list) \<Rightarrow> bool)
      \<Rightarrow> props \<Rightarrow> core \<Rightarrow> int \<Rightarrow> int \<Rightarrow> nat \<Rightarrow> 'd client \<Rightarrow> bool" where
  "load_inv ok rows known tables accepts p c0 k0 len n c \<longleftrightarrow>
     (let done = load_done (totalOpCount p) (cl_threads c); fs = c_fieldNames c0 in
      cl_p c = p \<and> length (cl_threads c) = n \<and> cl_warmUpFinished c \<and> \<not> cl_cancelled c
      \<and> load_ready ok known tables accepts (k0 + done) len (thread_view c (\<lambda>_. 0) fs)
      \<and> (\<exists>q. cl_core c = c0\<lparr>c_keySequence := q\<rparr>)
      \<and> (\<forall>i<n. thread_ok (totalOpCount p) n fs i (cl_threads c ! i))
      \<and> (\<forall>j. 0 \<le> j \<and> j < done \<longrightarrow> rows (cl_db c) (c_table c0, buildKeyName c0 (k0 + j)) = Some (det_row len (buildKeyName c0 (k0 + j)) fs)))"

text \<open>What the invariant needs of the configuration.\<close>

definition load_config :: "props \<Rightarrow> int \<Rightarrow> nat \<Rightarrow> bool" where
  "load_config p k0 n \<longleftrightarrow> \<not> GetBool p prop_DoTransactions True \<and> GetInt p prop_BatchSize prop_DefaultBatchSize \<le> 1
     \<and> 0 < n \<and> int n \<le> totalOpCount p \<and> 0 \<le> k0 \<and> k0 + totalOpCount p < 2 ^ 63"

lemma load_ready_rand: "load_ready ok known tables accepts k len (thread_view c r fs) = load_ready ok known tables accepts k len (thread_view c r' fs)"
  by (simp add: load_ready_def loading_def const_length_def thread_view_def)

lemma buildKeyName_seq [simp]: "buildKeyName (c\<lparr>c_keySequence := q\<rparr>) k = buildKeyName c k"
  by (simp add: buildKeyName_def)

context row_db_threads
begin

lemma start_keeps:
  assumes I: "load_inv inv rows known tables accepts p c0 k0 len n c" and conf: "load_config p k0 n"
    and i: "i < length (cl_threads c)" "cl_threads c ! i = Starting" and s: "thread_start D seed i c = Ret c'"
  shows "load_inv inv rows known tables accepts p c0 k0 len n c'"
proof -
  have n: "length (cl_threads c) = n" "cl_p c = p" "inv (cl_db c)"
    using I by (auto simp: load_inv_def Let_def load_ready_def thread_view_def)
  obtain w d where w: "newWorker p (int i) (int n) = Ret w" and d: "db_InitThread D (cl_db c) (int i) (int n) = Ret d"
      and c': "c' = set_thread i (Running w seed (c_fieldNames (cl_core c)) False) (c\<lparr>cl_db := d\<rparr>)"
    using s n by (auto simp: thread_start_def threadCount_def gbind_eq_Ret_iff Let_def core_InitThread_def)
  have t: "int n \<le> totalOpCount p" using w by (auto simp: newWorker_def Let_def split: if_splits)
  have "wk_opCount w = worker_share (totalOpCount p) n i" "wk_opsDone w = 0" "\<not> wk_doTransactions w" "\<not> wk_doBatch w"
    using newWorker_share [of n p i] t conf w i n by (auto simp: load_config_def)
  moreover have "0 \<le> worker_share (totalOpCount p) n i"
    using t conf by (simp add: worker_share_def load_config_def pos_imp_zdiv_nonneg_iff)
  moreover have "inv d" "known d = known (cl_db c)" "rows d = rows (cl_db c)"
    using InitThread [OF n(3), of "int i" "int n"] d by auto
  moreover have "load_done (totalOpCount p) (cl_threads c') = load_done (totalOpCount p) (cl_threads c)"
    using load_done_update [OF i(1), of "totalOpCount p" "Running w seed (c_fieldNames (cl_core c)) False"] i(2) calculation(2)
    by (simp add: c' set_thread_def)
  moreover have "c_fieldNames (cl_core c) = c_fieldNames c0" using I by (auto simp: load_inv_def Let_def)
  moreover have "\<forall>j<n. thread_ok (totalOpCount p) n (c_fieldNames c0) j (cl_threads c' ! j)"
    unfolding c' set_thread_def using I n i(1) calculation
    by (simp add: threads_ok_update load_inv_def Let_def)
  ultimately show ?thesis using I n unfolding load_inv_def Let_def
    by (simp add: c' set_thread_def load_ready_def loading_def const_length_def thread_view_def)
qed

end

lemma load_worker:
  assumes I: "load_inv ok rws kn tabs acc p c0 k0 len n c" and conf: "load_config p k0 n"
    and i: "i < n" "cl_threads c ! i = Running w r fs False" "more_ops w"
  shows "fs = c_fieldNames c0" and "\<not> wk_doTransactions w" and "\<not> wk_doBatch w" and "wk_opCount w = worker_share (totalOpCount p) n i"
    and "wk_opsDone w < wk_opCount w" and "0 \<le> load_done (totalOpCount p) (cl_threads c)"
    and "k0 + load_done (totalOpCount p) (cl_threads c) < 2 ^ 63 - 1" and "wk_opsDone (count_ops True w) = wk_opsDone w + 1" and "0 \<le> wk_opsDone w"
proof -
  let ?tot = "totalOpCount p" and ?done = "load_done (totalOpCount p) (cl_threads c)"
  have n: "length (cl_threads c) = n" "\<forall>i<n. thread_ok ?tot n (c_fieldNames c0) i (cl_threads c ! i)"
    using I by (auto simp: load_inv_def Let_def)
  have "thread_ok ?tot n (c_fieldNames c0) i (Running w r fs False)" using n(2) i(1,2) by metis
  then show w: "fs = c_fieldNames c0" "\<not> wk_doTransactions w" "\<not> wk_doBatch w" "wk_opCount w = worker_share ?tot n i" "0 \<le> wk_opsDone w"
    by auto
  have t: "int n \<le> ?tot" using conf by (simp add: load_config_def)
  have share: "0 < worker_share ?tot n j" for j
    using zdiv_mono1 [OF t, of "int n"] conf by (simp add: worker_share_def load_config_def)
  show lt: "wk_opsDone w < wk_opCount w" using i(3) w(4) share [of i] by (auto simp: more_ops_def)
  show dn: "0 \<le> ?done" and "k0 + ?done < 2 ^ 63 - 1"
    using load_done_bound [of "cl_threads c" ?tot "c_fieldNames c0" i] n i lt w(4) t conf by (auto simp: load_config_def)
  have "worker_share ?tot n i \<le> (\<Sum>j<n. worker_share ?tot n j)" using i(1) share by (intro member_le_sum) (auto intro: less_imp_le)
  then have "wk_opsDone w + 1 < 2 ^ 63" using lt w(4) sum_worker_share [of n ?tot] conf t by (simp add: load_config_def)
  then show "wk_opsDone (count_ops True w) = wk_opsDone w + 1" using w(3,5) by (simp add: count_ops_def opsCount_def i64_id in_i64_def)
qed

context row_db_threads
begin

lemma round_keeps:
  assumes I: "load_inv inv rows known tables accepts p c0 k0 len n c" and conf: "load_config p k0 n" and fuel: "0 < e_fuel E"
    and i: "i < length (cl_threads c)" "cl_threads c ! i = Running w r fs False" "more_ops w"
    and s: "thread_round E D (\<lambda>_. False) i w r fs c = Ret c'"
  shows "load_inv inv rows known tables accepts p c0 k0 len n c'"
proof -
  let ?tot = "totalOpCount p" and ?done = "load_done (totalOpCount p) (cl_threads c)"
  let ?k = "k0 + ?done"
  have n: "length (cl_threads c) = n" "\<forall>i<n. thread_ok ?tot n (c_fieldNames c0) i (cl_threads c ! i)" and ww: "cl_warmUpFinished c" "\<not> cl_cancelled c"
    using I by (auto simp: load_inv_def Let_def)
  note w = load_worker [OF I conf i(1) [unfolded n(1)] i(2,3)]
  obtain q where q: "cl_core c = c0\<lparr>c_keySequence := q\<rparr>" using I by (auto simp: load_inv_def Let_def)
  have ready: "load_ready inv known tables accepts ?k len (thread_view c r fs)"
    using I w(1) load_ready_rand [of inv known tables accepts ?k len c r] by (auto simp: load_inv_def Let_def)
  from DoInsert_stores [OF ready w(7) fuel] obtain d' where
    d': "DoInsert E D (\<lambda>_. False) (thread_view c r fs) = Ret (None, (thread_view c r fs)\<lparr>w_core := (cl_core c)\<lparr>c_keySequence := GCounter \<lparr>counter_val = ?k + 1\<rparr>\<rparr>, w_db := d'\<rparr>)"
      "load_ready inv known tables accepts (?k + 1) len ((thread_view c r fs)\<lparr>w_core := (cl_core c)\<lparr>c_keySequence := GCounter \<lparr>counter_val = ?k + 1\<rparr>\<rparr>, w_db := d'\<rparr>)"
      "rows d' = (rows (cl_db c))((c_table c0, buildKeyName c0 ?k) \<mapsto> det_row len (buildKeyName c0 ?k) fs)"
    by (auto simp: Let_def q thread_view_def)
  let ?w = "count_ops True w"
  have c': "c' = c\<lparr>cl_threads := (cl_threads c)[i := Running ?w r fs False], cl_core := (cl_core c)\<lparr>c_keySequence := GCounter \<lparr>counter_val = ?k + 1\<rparr>\<rparr>, cl_db := d'\<rparr>"
    using s d'(1) w(2,3) ww by (auto simp: thread_round_def worker_op_def set_thread_def put_view_def thread_view_def)
  have dn': "load_done ?tot (cl_threads c') = ?done + 1"
    using load_done_update [OF i(1), of ?tot "Running ?w r fs False"] i(2) w(8) by (simp add: c')
  have tok: "thread_ok ?tot n (c_fieldNames c0) i (Running ?w r fs False)"
    using w by (simp add: count_ops_def)
  have old: "rows (cl_db c) (c_table c0, buildKeyName c0 (k0 + j)) = Some (det_row len (buildKeyName c0 (k0 + j)) fs)" if "0 \<le> j" "j < ?done" for j
    using I that w(1) by (auto simp: load_inv_def Let_def)
  have rows': "rows d' (c_table c0, buildKeyName c0 (k0 + j)) = Some (det_row len (buildKeyName c0 (k0 + j)) fs)" if "0 \<le> j" "j < ?done + 1" for j
  proof (cases "j = ?done")
    case False
    with old [of j] that show ?thesis by (auto simp: d'(3))
  qed (simp add: d'(3))
  have "load_ready inv known tables accepts (k0 + (?done + 1)) len (thread_view c' (\<lambda>_. 0) fs)"
    using d'(2) by (simp add: c' load_ready_def loading_def const_length_def thread_view_def add.assoc)
  moreover have "\<forall>j<n. thread_ok ?tot n (c_fieldNames c0) j (cl_threads c' ! j)"
    using n i(1) tok by (simp add: c' threads_ok_update)
  ultimately show ?thesis using I rows' unfolding load_inv_def Let_def dn' w(1) [symmetric]
    by (auto simp: c' q)
qed

lemma end_keeps:
  assumes I: "load_inv inv rows known tables accepts p c0 k0 len n c" and conf: "load_config p k0 n"
    and i: "i < length (cl_threads c)" "cl_threads c ! i = Running w r fs stop" "stop \<or> \<not> more_ops w" and s: "thread_end D i c = Ret c'"
  shows "load_inv inv rows known tables accepts p c0 k0 len n c'"
proof -
  have n: "length (cl_threads c) = n" "inv (cl_db c)" "\<forall>j<n. thread_ok (totalOpCount p) n (c_fieldNames c0) j (cl_threads c ! j)"
    using I by (auto simp: load_inv_def Let_def load_ready_def thread_view_def)
  have "thread_ok (totalOpCount p) n (c_fieldNames c0) i (Running w r fs stop)" using n(1,3) i(1,2) by metis
  then have w: "wk_opsDone w = worker_share (totalOpCount p) n i" using i(3) by (auto simp: more_ops_def)
  obtain d where d: "db_CleanupThread D (cl_db c) = Ret d" and c': "c' = c\<lparr>cl_threads := (cl_threads c)[i := Finished], cl_db := d\<rparr>"
    using s by (auto simp: thread_end_def set_thread_def gbind_eq_Ret_iff)
  have "inv d" "known d = known (cl_db c)" "rows d = rows (cl_db c)" using CleanupThread [OF n(2)] d by auto
  moreover have "load_done (totalOpCount p) (cl_threads c') = load_done (totalOpCount p) (cl_threads c)"
    using load_done_update [OF i(1), of "totalOpCount p" Finished] i(2) w n(1) by (simp add: c')
  moreover have "\<forall>j<n. thread_ok (totalOpCount p) n (c_fieldNames c0) j (cl_threads c' ! j)"
    using n i(1) by (simp add: c' threads_ok_update)
  ultimately show ?thesis using I n unfolding load_inv_def Let_def
    by (simp add: c' load_ready_def loading_def const_length_def thread_view_def)
qed

lemma analyze_keeps:
  assumes I: "load_inv inv rows known tables accepts p c0 k0 len n c" and s: "client_analyze D c = Ret c'"
  shows "load_inv inv rows known tables accepts p c0 k0 len n c'"
proof -
  have i: "inv (cl_db c)" using I by (auto simp: load_inv_def Let_def load_ready_def thread_view_def)
  have "\<exists>d. c' = c\<lparr>cl_db := d, cl_analyzed := True\<rparr> \<and> inv d \<and> known d = known (cl_db c) \<and> rows d = rows (cl_db c)"
  proof (cases "GetBool (cl_p c) prop_DoTransactions True \<or> db_Analyze D = None")
    case True
    then have "c' = c\<lparr>cl_db := cl_db c, cl_analyzed := True\<rparr>" using s by (auto simp: client_analyze_def split: option.splits bool.splits)
    then show ?thesis using i by blast
  next
    case False
    then obtain f where f: "db_Analyze D = Some f" "\<not> GetBool (cl_p c) prop_DoTransactions True" by auto
    then show ?thesis using s Analyze [OF i f(1), of "GetString (cl_p c) prop_TableName prop_TableNameDefault"]
      by (auto simp: client_analyze_def gbind_eq_Ret_iff)
  qed
  then show ?thesis using I unfolding load_inv_def Let_def
    by (auto simp: load_ready_def loading_def const_length_def thread_view_def)
qed

lemma step_keeps:
  assumes "client_step E D c c'" and "load_inv inv rows known tables accepts p c0 k0 len n c" and "load_config p k0 n" and "0 < e_fuel E" and "\<not> cl_cancelled c'"
  shows "load_inv inv rows known tables accepts p c0 k0 len n c'"
  using assms(1)
proof cases
  case (Round i w r fs canceled late)
  have "\<not> cl_cancelled c" using assms(2) by (simp add: load_inv_def Let_def)
  moreover have "\<not> late"
    using Round(6) assms(5) by (auto simp: thread_round_def set_thread_def put_view_def gbind_eq_Ret_iff)
  ultimately have "canceled = (\<lambda>_. False)" "c\<lparr>cl_cancelled := cl_cancelled c \<or> late\<rparr> = c" using Round(5) by (simp_all add: fun_eq_iff)
  then show ?thesis using round_keeps [OF assms(2-4) Round(1-3)] Round(6) by simp
next
  case WarmedUp
  then show ?thesis using assms(2) by (simp add: load_inv_def Let_def load_ready_def loading_def const_length_def thread_view_def)
qed (use start_keeps [OF assms(2,3)] end_keeps [OF assms(2,3)] analyze_keeps [OF assms(2)] assms(5) in auto)

lemma cancelled_stays: "client_step E D c c' \<Longrightarrow> cl_cancelled c \<Longrightarrow> cl_cancelled c'"
  by (induction rule: client_step.induct)
    (auto simp: thread_start_def thread_round_def thread_end_def client_analyze_def set_thread_def put_view_def gbind_eq_Ret_iff Let_def
      split: option.splits bool.splits)

lemma steps_keep:
  assumes "(client_step E D)\<^sup>*\<^sup>* c c'" and "load_inv inv rows known tables accepts p c0 k0 len n c" and "load_config p k0 n" and "0 < e_fuel E" and "\<not> cl_cancelled c'"
  shows "load_inv inv rows known tables accepts p c0 k0 len n c'"
  using assms(1,5)
proof (induction rule: rtranclp_induct)
  case (step y z)
  have "\<not> cl_cancelled y" using cancelled_stays [OF step(2)] step(4) by blast
  then show ?case using step_keeps [OF step(2) step(3) assms(3,4) step(4)] by blast
qed (rule assms(2))

text \<open>In a load that is not cancelled some worker can always take a step, and each such step brings the end nearer.\<close>

lemma start_returns:
  assumes I: "load_inv inv rows known tables accepts p c0 k0 len n c" and conf: "load_config p k0 n" and i: "i < n"
  shows "\<exists>c' w r fs. thread_start D (\<lambda>_. 0) i c = Ret c' \<and> cl_threads c' = (cl_threads c)[i := Running w r fs False] \<and> cl_cancelled c' = cl_cancelled c
    \<and> wk_opCount w - wk_opsDone w = worker_share (totalOpCount p) n i"
proof -
  have c: "length (cl_threads c) = n" "cl_p c = p" "inv (cl_db c)"
    using I by (auto simp: load_inv_def Let_def load_ready_def thread_view_def)
  have t: "int n \<le> totalOpCount p" using conf by (simp add: load_config_def)
  obtain w where "newWorker p (int i) (int n) = Ret w" "wk_opCount w - wk_opsDone w = worker_share (totalOpCount p) n i"
    using newWorker_share [OF t _ _ i] conf by (auto simp: load_config_def)
  moreover obtain d where "db_InitThread D (cl_db c) (int i) (int n) = Ret d" using InitThread [OF c(3)] by blast
  ultimately show ?thesis using c by (auto simp: thread_start_def threadCount_def set_thread_def Let_def)
qed

lemma round_returns:
  assumes I: "load_inv inv rows known tables accepts p c0 k0 len n c" and conf: "load_config p k0 n" and fuel: "0 < e_fuel E"
    and i: "i < n" "cl_threads c ! i = Running w r fs False" "more_ops w"
  shows "\<exists>c' r'. thread_round E D (\<lambda>_. False) i w r fs c = Ret c' \<and> cl_threads c' = (cl_threads c)[i := Running (count_ops True w) r' fs False]
    \<and> cl_cancelled c' = cl_cancelled c \<and> wk_opCount w - (wk_opsDone w + 1) \<ge> 0 \<and> wk_opsDone (count_ops True w) = wk_opsDone w + 1
    \<and> wk_opCount (count_ops True w) = wk_opCount w"
proof -
  note w = load_worker [OF I conf i]
  have ready: "load_ready inv known tables accepts (k0 + load_done (totalOpCount p) (cl_threads c)) len (thread_view c r fs)"
    using I w(1) load_ready_rand [of inv known tables accepts _ len c r] by (auto simp: load_inv_def Let_def)
  have u: "cl_warmUpFinished c" "\<not> cl_cancelled c" using I by (auto simp: load_inv_def Let_def)
  have "\<exists>s'. DoInsert E D (\<lambda>_. False) (thread_view c r fs) = Ret (None, s') \<and> w_fieldNames s' = fs"
    using DoInsert_stores [OF ready _ fuel] w(7) by (auto simp: Let_def thread_view_def)
  then show ?thesis using w u by (auto simp: thread_round_def worker_op_def set_thread_def put_view_def count_ops_def opsCount_def)
qed

lemma progress:
  assumes I: "load_inv inv rows known tables accepts p c0 k0 len n c" and conf: "load_config p k0 n" and fuel: "0 < e_fuel E"
    and u: "\<exists>x\<in>set (cl_threads c). x \<noteq> Finished"
  shows "\<exists>c'. client_step E D c c' \<and> \<not> cl_cancelled c' \<and> load_rest (totalOpCount p) (cl_threads c') < load_rest (totalOpCount p) (cl_threads c)"
proof -
  have n: "length (cl_threads c) = n" "\<not> cl_cancelled c" "inv (cl_db c)" using I by (auto simp: load_inv_def Let_def load_ready_def thread_view_def)
  from u obtain i where i: "i < n" "cl_threads c ! i \<noteq> Finished" using n(1) by (auto simp: in_set_conv_nth)
  show ?thesis
  proof (cases "cl_threads c ! i")
    case Starting
    obtain c' w r fs where c': "thread_start D (\<lambda>_. 0) i c = Ret c'" "cl_threads c' = (cl_threads c)[i := Running w r fs False]"
        "cl_cancelled c' = cl_cancelled c" "wk_opCount w - wk_opsDone w = worker_share (totalOpCount p) n i"
      using start_returns [OF I conf i(1)] by blast
    then show ?thesis using client_step.Start [of i c D "\<lambda>_. 0" c' E] load_rest_update [of i "cl_threads c"] Starting n i(1) by auto
  next
    case (Running w r fs stop)
    have ok: "thread_ok (totalOpCount p) n (c_fieldNames c0) i (Running w r fs stop)" using I i(1) Running by (auto simp: load_inv_def Let_def)
    show ?thesis
    proof (cases "more_ops w")
      case True
      have st: "cl_threads c ! i = Running w r fs False" using ok Running by simp
      obtain c' r' where c': "thread_round E D (\<lambda>_. False) i w r fs c = Ret c'" "cl_threads c' = (cl_threads c)[i := Running (count_ops True w) r' fs False]"
          "cl_cancelled c' = cl_cancelled c" "wk_opCount w - (wk_opsDone w + 1) \<ge> 0" "wk_opsDone (count_ops True w) = wk_opsDone w + 1"
          "wk_opCount (count_ops True w) = wk_opCount w"
        using round_returns [OF I conf fuel i(1) st True] by blast
      have "thread_round E D (\<lambda>_. False) i w r fs (c\<lparr>cl_cancelled := cl_cancelled c \<or> False\<rparr>) = Ret c'" using c'(1) by simp
      then have "client_step E D c c'"
        by (rule client_step.Round [rotated 5]) (use st True n i(1) in simp_all)
      then show ?thesis using c' load_rest_update [of i "cl_threads c"] st n i(1) by auto
    next
      case False
      obtain d where d: "db_CleanupThread D (cl_db c) = Ret d" using CleanupThread [OF n(3)] by blast
      have "client_step E D c (set_thread i Finished (c\<lparr>cl_db := d\<rparr>))"
        by (rule client_step.End [of i c w r fs stop]) (use d Running False n i(1) in \<open>auto simp: thread_end_def\<close>)
      then show ?thesis using load_rest_update [of i "cl_threads c" _ Finished] Running n i(1) by (auto simp: set_thread_def)
    qed
  qed (use i(2) in simp)
qed

lemma load_can_finish:
  assumes "load_inv inv rows known tables accepts p c0 k0 len n c" and "load_config p k0 n" and "0 < e_fuel E"
  shows "\<exists>c'. (client_step E D)\<^sup>*\<^sup>* c c' \<and> \<not> cl_cancelled c' \<and> (\<forall>x\<in>set (cl_threads c'). x = Finished)"
  using assms(1)
proof (induction "load_rest (totalOpCount p) (cl_threads c)" arbitrary: c rule: less_induct)
  case less
  show ?case
  proof (cases "\<forall>x\<in>set (cl_threads c). x = Finished")
    case True
    then show ?thesis using less.prems by (auto simp: load_inv_def Let_def)
  next
    case False
    then obtain c1 where c1: "client_step E D c c1" "\<not> cl_cancelled c1" "load_rest (totalOpCount p) (cl_threads c1) < load_rest (totalOpCount p) (cl_threads c)"
      using progress [OF less.prems assms(2,3)] by blast
    have "load_inv inv rows known tables accepts p c0 k0 len n c1" by (rule step_keeps [OF c1(1) less.prems assms(2,3) c1(2)])
    from less.hyps [OF c1(3) this] c1(1) show ?thesis by (meson converse_rtranclp_into_rtranclp)
  qed
qed

text \<open>The start of a load satisfies the invariant.\<close>

lemma Run_load_inv:
  assumes "client_Run p c d True = Ret cl" and "load_ready inv known tables accepts k0 len (core_InitThread c seed d)"
    and "n = nat (GetInt p prop_ThreadCount 1)" and "0 < n"
  shows "load_inv inv rows known tables accepts p c k0 len n cl"
proof -
  have cl: "cl = \<lparr>cl_p = p, cl_threads = replicate n Starting, cl_core = c, cl_db = d, cl_measured = [],
      cl_warmUpFinished = True, cl_cancelled = False, cl_analyzed = False\<rparr>"
    using assms(1,3) by (auto simp: client_Run_def Let_def split: if_splits)
  have "load_done (totalOpCount p) (replicate n Starting) = 0" by (simp add: load_done_def)
  moreover have "\<exists>q. c = c\<lparr>c_keySequence := q\<rparr>" by (rule exI [of _ "c_keySequence c"]) simp
  ultimately show ?thesis using assms(2) unfolding load_inv_def Let_def cl
    by (auto simp: load_ready_def loading_def const_length_def thread_view_def core_InitThread_def)
qed

text \<open>A finished load has stored every row, and every later read of a loaded key verifies.\<close>

lemma finished_load:
  assumes I: "load_inv inv rows known tables accepts p c0 k0 len n cl" and conf: "load_config p k0 n"
    and f: "\<forall>x\<in>set (cl_threads cl). x = Finished" and j: "0 \<le> j" "j < totalOpCount p" and r: "c_readAllFields c0"
  shows "\<exists>s'. doTransactionRead E D (k0 + j) (core_InitThread (cl_core cl) seed (cl_db cl)) = Ret (None, s')"
proof -
  let ?s = "core_InitThread (cl_core cl) seed (cl_db cl)" and ?key = "buildKeyName c0 (k0 + j)"
  have n: "length (cl_threads cl) = n" using I by (simp add: load_inv_def Let_def)
  have dn: "load_done (totalOpCount p) (cl_threads cl) = totalOpCount p"
    by (rule load_done_finished [OF f]) (use n conf in \<open>auto simp: load_config_def\<close>)
  obtain q where q: "cl_core cl = c0\<lparr>c_keySequence := q\<rparr>" using I by (auto simp: load_inv_def Let_def)
  have "load_ready inv known tables accepts (k0 + totalOpCount p) len ?s"
    using I dn q by (auto simp: load_inv_def Let_def load_ready_def loading_def const_length_def thread_view_def core_InitThread_def)
  moreover have "rows (w_db ?s) (c_table (w_core ?s), ?key) = Some (det_row len ?key (w_fieldNames ?s))"
    using I j dn q by (auto simp: load_inv_def Let_def core_InitThread_def)
  ultimately show ?thesis using read_verifies [of _ len ?s "k0 + j" ?key E] r q conf j by (auto simp: load_config_def core_InitThread_def)
qed

end

section \<open>Badger behind the wrapper\<close>

interpretation badger_threads: row_db_threads "badger_db api env" "badger_inv api ok view adm" "badger_rows view"
    "\<lambda>db. set (codec_fields (bdb_r db))" plain_table "row_accepts adm" for api env ok view adm
  by unfold_locales (auto simp: badger_db_def)

interpretation client_badger: row_db_threads "DbWrapper H (badger_db api env)"
    "\<lambda>s. badger_inv api ok view adm (wr_db s) \<and> globalMeasure (wr_m s) \<noteq> None" "\<lambda>s. badger_rows view (wr_db s)"
    "\<lambda>s. set (codec_fields (bdb_r (wr_db s)))" plain_table "row_accepts adm" for H api env ok view adm
  by (rule badger_threads.wrapped_contract)

text \<open>A workload in data integrity mode: constant field length, no retries, and a plain table name.\<close>

definition integrity_workload :: "wenv \<Rightarrow> props \<Rightarrow> core \<Rightarrow> bool" where
  "integrity_workload E p c \<longleftrightarrow>
     coreCreator_Create E p = Ret c \<and> GetBool p prop_DataIntegrity prop_DataIntegrityDefault
     \<and> GetBool p prop_ReadAllFields prop_ReadALlFieldsDefault
     \<and> GetString p prop_RequestDistribution prop_RequestDistributionDefault \<noteq> ''mixgraph''
     \<and> 0 \<le> GetInt64 p prop_FieldLength prop_FieldLengthDefault \<and> GetInt64 p prop_FieldLength prop_FieldLengthDefault + 21 < 2 ^ 63
     \<and> GetInt64 p prop_InsertionRetryLimit prop_InsertionRetryLimitDefault = 0 \<and> 0 < e_fuel E \<and> plain_table (c_table c)"

definition row_length :: "props \<Rightarrow> int" where
  "row_length p = GetInt64 p prop_FieldLength prop_FieldLengthDefault"

text \<open>A fresh Badger database over an engine that behaves as documented and accepts the rows of the workload.\<close>

definition fresh_badger ::
    "'s badger_api \<Rightarrow> ('s \<Rightarrow> bool) \<Rightarrow> ('s \<Rightarrow> byte list \<rightharpoonup> byte list) \<Rightarrow> (byte list \<Rightarrow> byte list \<Rightarrow> bool) \<Rightarrow> props \<Rightarrow> core \<Rightarrow> 's badgerDB \<Rightarrow> bool" where
  "fresh_badger api ok view adm p c db \<longleftrightarrow>
     badger_laws api ok view adm \<and> ok (bdb_db db) \<and> view (bdb_db db) = Map.empty \<and> GetInt64 p prop_FieldCount prop_FieldCountDefault < 2 ^ 63
     \<and> (\<forall>key. row_accepts adm (c_table c) key (det_row (row_length p) key (c_fieldNames c)))"

lemma badger_load_start:
  assumes "integrity_workload E p c" and "badger_Create DefaultOptions Open p = Ret (Inr db)" and "fresh_badger api ok view adm p c db"
    and "load_config p (cfg_insertStart p) n" and "n = nat (GetInt p prop_ThreadCount 1)" and "globalMeasure m \<noteq> None"
    and "client_Run p c \<lparr>wr_db = db, wr_m = m, wr_clock = clk\<rparr> True = Ret cl0"
  shows "load_inv (\<lambda>s. badger_inv api ok view adm (wr_db s) \<and> globalMeasure (wr_m s) \<noteq> None) (\<lambda>s. badger_rows view (wr_db s))
    (\<lambda>s. set (codec_fields (bdb_r (wr_db s)))) plain_table (row_accepts adm) p c (cfg_insertStart p) (row_length p) n cl0"
proof -
  let ?ok = "\<lambda>s. badger_inv api ok view adm (wr_db s) \<and> globalMeasure (wr_m s) \<noteq> None" and ?known = "\<lambda>s. set (codec_fields (bdb_r (wr_db s)))"
  let ?d = "\<lparr>wr_db = db, wr_m = m, wr_clock = clk\<rparr>"
  have w: "coreCreator_Create E p = Ret c" "0 < n" using assms(1,4) by (auto simp: integrity_workload_def load_config_def)
  have r: "NewRowCodec p = Ret (bdb_r db)"
    using assms(2) by (auto simp: badger_Create_def Let_def gbind_eq_Ret_iff split: sum.splits)
  have inv: "badger_inv api ok view adm db" using badger_Create_inv [OF _ assms(2)] assms(3) by (auto simp: fresh_badger_def)
  have "load_ready ?ok ?known plain_table (row_accepts adm) (cfg_insertStart p) (row_length p) (core_InitThread c (\<lambda>_. 0) ?d)"
    by (rule Create_load_ready [OF w(1)])
      (use assms inv fieldNames_known [OF w(1) r] in \<open>auto simp: integrity_workload_def row_length_def fresh_badger_def load_config_def in_i64_def\<close>)
  from client_badger.Run_load_inv [OF assms(7) this assms(5) w(2)] show ?thesis .
qed

text \<open>
  C1. The program loads a database completely, with any number of worker threads and in every interleaving of their
  rounds: when all workers of a load in data integrity mode over a fresh Badger database have ended without
  cancellation, every key of the load is stored, and a read transaction for it finds its row and verifies it.
\<close>

theorem client_load_complete:
  assumes "integrity_workload E p c" and "badger_Create DefaultOptions Open p = Ret (Inr db)" and "fresh_badger api ok view adm p c db"
    and "load_config p (cfg_insertStart p) n" and "n = nat (GetInt p prop_ThreadCount 1)" and "globalMeasure m \<noteq> None" and "IsWarmUpFinished m"
    and "client_Run p c \<lparr>wr_db = db, wr_m = m, wr_clock = clk\<rparr> (IsWarmUpFinished m) = Ret cl0"
    and "(client_step E (DbWrapper H (badger_db api env)))\<^sup>*\<^sup>* cl0 cl" and "\<not> cl_cancelled cl" and "\<forall>x\<in>set (cl_threads cl). x = Finished"
    and "0 \<le> j" and "j < totalOpCount p"
  shows "\<exists>s'. doTransactionRead E (DbWrapper H (badger_db api env)) (cfg_insertStart p + j) (core_InitThread (cl_core cl) seed (cl_db cl)) = Ret (None, s')"
proof -
  have w: "0 < e_fuel E" "c_readAllFields c" using assms(1) Create_more [of E p c] by (auto simp: integrity_workload_def)
  have "client_Run p c \<lparr>wr_db = db, wr_m = m, wr_clock = clk\<rparr> True = Ret cl0" using assms(7,8) by simp
  note start = badger_load_start [OF assms(1-6) this]
  note final = client_badger.steps_keep [OF assms(9) start assms(4) w(1) assms(10)]
  show ?thesis by (rule client_badger.finished_load [OF final assms(4,11-13) w(2)])
qed

text \<open>
  C11. A load never gets stuck: from every state it can reach without cancellation, the workers can go on until all of
  them have ended.
\<close>

theorem client_load_can_finish:
  assumes "integrity_workload E p c" and "badger_Create DefaultOptions Open p = Ret (Inr db)" and "fresh_badger api ok view adm p c db"
    and "load_config p (cfg_insertStart p) n" and "n = nat (GetInt p prop_ThreadCount 1)" and "globalMeasure m \<noteq> None" and "IsWarmUpFinished m"
    and "client_Run p c \<lparr>wr_db = db, wr_m = m, wr_clock = clk\<rparr> (IsWarmUpFinished m) = Ret cl0"
    and "(client_step E (DbWrapper H (badger_db api env)))\<^sup>*\<^sup>* cl0 cl" and "\<not> cl_cancelled cl"
  shows "\<exists>cl'. (client_step E (DbWrapper H (badger_db api env)))\<^sup>*\<^sup>* cl cl' \<and> \<not> cl_cancelled cl' \<and> (\<forall>x\<in>set (cl_threads cl'). x = Finished)"
proof -
  have w: "0 < e_fuel E" using assms(1) by (auto simp: integrity_workload_def)
  have "client_Run p c \<lparr>wr_db = db, wr_m = m, wr_clock = clk\<rparr> True = Ret cl0" using assms(7,8) by simp
  note start = badger_load_start [OF assms(1-6) this]
  show ?thesis by (rule client_badger.load_can_finish [OF client_badger.steps_keep [OF assms(9) start assms(4) w assms(10)] assms(4) w])
qed

text \<open>A load of 1000 records by two threads into the in-memory engine.\<close>

definition load_props :: props where
  "load_props = (props_of [(''recordcount'', 1000), (''fieldcount'', 2), (''threadcount'', 2)] [])
     \<lparr>GetBool := (\<lambda>k d. if k = prop_DataIntegrity then True else if k = prop_DoTransactions then False else d)\<rparr>"

definition load_badger :: "(byte list \<times> byte list) list badgerDB" where
  "load_badger = sample_badger\<lparr>bdb_p := load_props\<rparr>"

lemma load_cfg:
  "cfg_recordCount load_props = 1000" "cfg_insertStart load_props = 0" "cfg_insertCount load_props = 1000" "totalOpCount load_props = 1000"
  by (simp_all add: cfg_recordCount_def cfg_insertStart_def cfg_insertCount_def totalOpCount_def load_props_def props_of_def prop_defs i64_id in_i64_def Let_def)

lemma load_create: "\<exists>c. coreCreator_Create sample_env load_props = Ret c \<and> c_table c = ''usertable''"
proof -
  have "getFieldLengthGenerator sample_env load_props = Ret (GConstant (NewConstant 100))"
    by (subst constant_length_generator) (simp_all add: load_props_def props_of_def prop_defs Let_def)
  moreover have "create_keyChooser sample_env load_props 1000 0 1000 g = Ret (GUniform (NewUniform 0 999), g)" for g
    by (simp add: create_keyChooser_def load_props_def props_of_def prop_defs Let_def i64_id in_i64_def)
  moreover have "create_scanLength sample_env load_props = Ret (GUniform (NewUniform 1 1000))"
    by (simp add: create_scanLength_def load_props_def props_of_def prop_defs Let_def)
  ultimately show ?thesis
    by (simp add: coreCreator_Create_def Let_def load_cfg make_len_def i64_id in_i64_def)
      (simp add: load_props_def props_of_def prop_defs Let_def)
qed

lemma load_badger_created: "badger_Create sample_options (\<lambda>removed opts. Inr []) load_props = Ret (Inr load_badger)"
  by (simp add: badger_Create_def NewRowCodec_def allFields_def createFieldIndices_def load_props_def props_of_def prop_defs upto.simps
      load_badger_def sample_badger_def Let_def)

lemma load_sample:
  assumes "coreCreator_Create sample_env load_props = Ret c" and "c_table c = ''usertable''"
  shows "integrity_workload sample_env load_props c" and "fresh_badger mem_badger (\<lambda>_. True) map_of (\<lambda>_ _. True) load_props c load_badger"
    and "load_config load_props (cfg_insertStart load_props) 2" and "2 = nat (GetInt load_props prop_ThreadCount 1)"
  using assms mem_badger_laws
  by (simp_all add: integrity_workload_def fresh_badger_def load_config_def load_cfg plain_table_def row_accepts_def all_encodings_def)
    (simp_all add: load_props_def load_badger_def sample_badger_def sample_env_def props_of_def prop_defs Let_def)

definition sample_mstate :: "int list mstate" where
  "sample_mstate = \<lparr>globalMeasure = Some \<lparr>m_p = load_props, m_measurer = MHistograms (InitHistograms load_props)\<rparr>, warmUp = 0\<rparr>"

definition load_wrapped :: "((byte list \<times> byte list) list badgerDB, int list) wrapped" where
  "load_wrapped = \<lparr>wr_db = load_badger, wr_m = sample_mstate, wr_clock = (\<lambda>_. 0)\<rparr>"

abbreviation sample_client_db where
  "sample_client_db \<equiv> DbWrapper list_hdr (badger_db mem_badger sample_close)"

lemma sample_mstate_ok: "globalMeasure sample_mstate \<noteq> None" "IsWarmUpFinished sample_mstate"
  by (simp_all add: sample_mstate_def IsWarmUpFinished_def)

lemma load_run: "\<exists>cl0. client_Run load_props c load_wrapped (IsWarmUpFinished sample_mstate) = Ret cl0 \<and> \<not> cl_cancelled cl0"
  by (simp add: client_Run_def load_props_def props_of_def prop_defs Let_def)

theorem client_load_can_finish_witness:
  "\<exists>c cl0 cl. coreCreator_Create sample_env load_props = Ret c \<and> client_Run load_props c load_wrapped (IsWarmUpFinished sample_mstate) = Ret cl0
     \<and> (client_step sample_env sample_client_db)\<^sup>*\<^sup>* cl0 cl \<and> \<not> cl_cancelled cl \<and> (\<forall>x\<in>set (cl_threads cl). x = Finished)"
proof -
  obtain c where c: "coreCreator_Create sample_env load_props = Ret c" "c_table c = ''usertable''" using load_create by blast
  obtain cl0 where cl0: "client_Run load_props c load_wrapped (IsWarmUpFinished sample_mstate) = Ret cl0" "\<not> cl_cancelled cl0"
    using load_run by blast
  note l = load_sample [OF c]
  from client_load_can_finish [OF l(1) load_badger_created l(2,3,4) sample_mstate_ok cl0(1) [unfolded load_wrapped_def] rtranclp.rtrancl_refl cl0(2),
      of list_hdr sample_close] c cl0 show ?thesis by blast
qed

theorem client_load_complete_witness:
  "\<exists>c cl0 cl s'. coreCreator_Create sample_env load_props = Ret c \<and> client_Run load_props c load_wrapped (IsWarmUpFinished sample_mstate) = Ret cl0
     \<and> (client_step sample_env sample_client_db)\<^sup>*\<^sup>* cl0 cl \<and> (\<forall>x\<in>set (cl_threads cl). x = Finished)
     \<and> doTransactionRead sample_env sample_client_db 999 (core_InitThread (cl_core cl) (\<lambda>i. i) (cl_db cl)) = Ret (None, s')"
proof -
  obtain c where c: "coreCreator_Create sample_env load_props = Ret c" "c_table c = ''usertable''" using load_create by blast
  obtain cl0 where cl0: "client_Run load_props c load_wrapped (IsWarmUpFinished sample_mstate) = Ret cl0" "\<not> cl_cancelled cl0"
    using load_run by blast
  note l = load_sample [OF c]
  have "client_Run load_props c \<lparr>wr_db = load_badger, wr_m = sample_mstate, wr_clock = (\<lambda>_. 0)\<rparr> True = Ret cl0"
    using cl0(1) sample_mstate_ok(2) by (simp add: load_wrapped_def)
  note start = badger_load_start [OF l(1) load_badger_created l(2,3,4) sample_mstate_ok(1) this]
  have e: "0 < e_fuel sample_env" by (simp add: sample_env_def)
  obtain cl where cl: "(client_step sample_env sample_client_db)\<^sup>*\<^sup>* cl0 cl" "\<not> cl_cancelled cl" "\<forall>x\<in>set (cl_threads cl). x = Finished"
    using client_badger.load_can_finish [OF start l(3) e, of list_hdr sample_close] by blast
  have "\<exists>s'. doTransactionRead sample_env sample_client_db (cfg_insertStart load_props + 999) (core_InitThread (cl_core cl) (\<lambda>i. i) (cl_db cl)) = Ret (None, s')"
    by (rule client_load_complete [OF l(1) load_badger_created l(2,3,4) sample_mstate_ok cl0(1) [unfolded load_wrapped_def] cl]) (simp_all add: load_cfg)
  then show ?thesis using c cl0 cl by (auto simp: load_cfg)
qed

end
