(* ===== verification/App.thy ===== *)
theory App
  imports ClientLoad
begin

text \<open>
  The commands of \<^verbatim>\<open>cmd/go-ycsb\<close>: the set-up of properties, measurement, workload and database in \<open>initialGlobal\<close>
  (\<^verbatim>\<open>main.go\<close>), the property settings of the commands \<open>load\<close> and \<open>run\<close> (\<^verbatim>\<open>client.go\<close>), and the commands of the shell
  (\<^verbatim>\<open>shell.go\<close>). The property library is a parameter: a store with its own \<open>Set\<close>, and the getters as a view of it.
  Signals, the profiling server and the command line parser are left out.
\<close>

section \<open>Setting up\<close>

record 'p propslib =
  pl_New :: 'p
  pl_Load :: "string list \<Rightarrow> 'p go"
  pl_Set :: "'p \<Rightarrow> string \<Rightarrow> string \<Rightarrow> error option \<times> 'p"
  pl_view :: "'p \<Rightarrow> props"

text \<open>\<open>strings.SplitN(s, sep, 2)\<close>.\<close>

definition split2 :: "char \<Rightarrow> string \<Rightarrow> string list" where
  "split2 c s = (let a = takeWhile (\<lambda>x. x \<noteq> c) s in if length a < length s then [a, drop (length a + 1) s] else [s])"

fun set_values :: "'p propslib \<Rightarrow> string list \<Rightarrow> 'p \<Rightarrow> 'p go" where
  "set_values L [] p = Ret p"
| "set_values L (v # vs) p =
     (case split2 (CHR ''='') v of
        [name, x] \<Rightarrow> set_values L vs (snd (pl_Set L p name x))
      | _ \<Rightarrow> Exit (''bad property: `'' @ v @ ''`, expected format `name=value`''))"

record flags =
  fg_propertyFiles :: "string list"
  fg_propertyValues :: "string list"
  fg_tableName :: string
  fg_threads :: "int option"
  fg_target :: "int option"
  fg_interval :: "int option"

text \<open>The properties that the commands \<open>load\<close> and \<open>run\<close> set; a flag counts only when it is given.\<close>

definition set_flag :: "'p propslib \<Rightarrow> string \<Rightarrow> int option \<Rightarrow> 'p \<Rightarrow> 'p" where
  "set_flag L name v p = (case v of Some n \<Rightarrow> snd (pl_Set L p name (itoa n)) | None \<Rightarrow> p)"

definition client_properties :: "'p propslib \<Rightarrow> flags \<Rightarrow> bool \<Rightarrow> string \<Rightarrow> 'p \<Rightarrow> 'p" where
  "client_properties L fg doTransactions command p =
     (let p = snd (pl_Set L p prop_DoTransactions (if doTransactions then ''true'' else ''false''));
          p = snd (pl_Set L p prop_Command command);
          p = set_flag L prop_ThreadCount (fg_threads fg) p;
          p = set_flag L prop_Target (fg_target fg) p
      in set_flag L prop_LogInterval (fg_interval fg) p)"

record ('p, 'd, 'h) global =
  gl_props :: 'p
  gl_tableName :: string
  gl_measure :: "'h mstate"
  gl_workload :: core
  gl_db :: 'd

text \<open>
  A workload that is not registered gives the nil interface, and calling it panics; a database that is not registered
  ends the process with a message.
\<close>

definition initialGlobal ::
    "'p propslib \<Rightarrow> (props \<Rightarrow> (error + core) go) smap \<Rightarrow> (props \<Rightarrow> (error + 'd) go) smap \<Rightarrow> flags \<Rightarrow> string \<Rightarrow> ('p \<Rightarrow> 'p) \<Rightarrow> 'h mstate
      \<Rightarrow> ('p, 'd, 'h) global go" where
  "initialGlobal L workloadCreators dbCreators fg dbName onProperties m =
     gbind (if fg_propertyFiles fg \<noteq> [] then pl_Load L (fg_propertyFiles fg) else Ret (pl_New L)) (\<lambda>p.
     gbind (set_values L (fg_propertyValues fg) p) (\<lambda>p.
       let p = onProperties p in
       gbind (InitMeasure (pl_view L p) m) (\<lambda>m.
         let tableName = (if fg_tableName fg = [] then GetString (pl_view L p) prop_TableName prop_TableNameDefault else fg_tableName fg) in
         case pl_Set L p prop_TableName tableName of
           (Some err, _) \<Rightarrow> Panic err
         | (None, p) \<Rightarrow>
             let workloadName = GetString (pl_view L p) prop_Workload ''core'' in
             case GetWorkloadCreator workloadCreators workloadName of
               None \<Rightarrow> Panic ''nil pointer dereference''
             | Some createWorkload \<Rightarrow>
                 gbind (createWorkload (pl_view L p)) (\<lambda>w. case w of
                   Inl err \<Rightarrow> Exit (''create workload '' @ workloadName @ '' failed '' @ err)
                 | Inr workload \<Rightarrow>
                     (case GetDBCreator dbCreators dbName of
                        None \<Rightarrow> Exit (dbName @ '' is not registered'')
                      | Some createDB \<Rightarrow>
                          gbind (createDB (pl_view L p)) (\<lambda>d. case d of
                            Inl err \<Rightarrow> Exit (''create db '' @ dbName @ '' failed '' @ err)
                          | Inr db \<Rightarrow>
                              Ret \<lparr>gl_props = p, gl_tableName = tableName, gl_measure = m, gl_workload = workload, gl_db = db\<rparr>))))))"

text \<open>\<open>runClientCommandFunc\<close> up to the run of the workers: the state in which the client starts.\<close>

definition runClientCommandFunc ::
    "'p propslib \<Rightarrow> (props \<Rightarrow> (error + core) go) smap \<Rightarrow> (props \<Rightarrow> (error + 'd) go) smap \<Rightarrow> flags \<Rightarrow> string \<Rightarrow> bool \<Rightarrow> string \<Rightarrow> 'h mstate
      \<Rightarrow> (nat \<Rightarrow> int) \<Rightarrow> ('d, 'h) wrapped client go" where
  "runClientCommandFunc L workloadCreators dbCreators fg dbName doTransactions command m clock =
     gbind (initialGlobal L workloadCreators dbCreators fg dbName (client_properties L fg doTransactions command) m) (\<lambda>g.
       client_Run (pl_view L (gl_props g)) (gl_workload g) \<lparr>wr_db = gl_db g, wr_m = gl_measure g, wr_clock = clock\<rparr>
         (IsWarmUpFinished (gl_measure g)))"

definition runLoadCommandFunc where
  "runLoadCommandFunc L workloadCreators dbCreators fg dbName m clock =
     runClientCommandFunc L workloadCreators dbCreators fg dbName False ''load'' m clock"

definition runTransCommandFunc where
  "runTransCommandFunc L workloadCreators dbCreators fg dbName m clock =
     runClientCommandFunc L workloadCreators dbCreators fg dbName True ''run'' m clock"

section \<open>The shell\<close>

text \<open>
  The state of the shell is the database and the current table. A command gets its arguments from the command line
  parser, which checks their number, and returns what it prints. A row is printed with its values, here as they are.
  \<open>Read\<close> may deliver the nil row, which only the shell tells from a row without fields; it is \<^const>\<open>None\<close> here.
\<close>

record 'd shell =
  sh_db :: 'd
  sh_table :: string

datatype shell_out = ShText string | ShRows "row option list"

type_synonym 'd shell_db = "'d db \<times> ('d \<Rightarrow> string \<Rightarrow> string \<Rightarrow> string list \<Rightarrow> ((error + row option) \<times> 'd) go)"

text \<open>A database whose \<open>Read\<close> delivers an error or a row.\<close>

definition never_nil :: "'d db \<Rightarrow> 'd shell_db" where
  "never_nil D = (D, \<lambda>d t k fs. map_res (map_sum id Some) (db_Read D d t k fs))"

fun shell_values :: "string list \<Rightarrow> row \<Rightarrow> row go" where
  "shell_values [] vals = Ret vals"
| "shell_values (arg # args) vals =
     (let sep = split2 (CHR ''='') arg in
      gbind (go_index sep 1) (\<lambda>v. shell_values args (AList.update (hd sep) (bytes_of v) vals)))"

definition runShellReadCommand :: "'d shell_db \<Rightarrow> string list \<Rightarrow> 'd shell \<Rightarrow> (shell_out list \<times> 'd shell) go" where
  "runShellReadCommand D args s =
     gbind (go_index args 0) (\<lambda>key.
     gbind (snd D (sh_db s) (sh_table s) key (tl args)) (\<lambda>(r, d).
       Ret (case r of Inl err \<Rightarrow> [ShText (''Read '' @ key @ '' failed '' @ err)]
                    | Inr None \<Rightarrow> [ShText (''Read empty for '' @ key)]
                    | Inr (Some row) \<Rightarrow> [ShText (''Read '' @ key @ '' ok''), ShRows [Some row]], s\<lparr>sh_db := d\<rparr>)))"

definition runShellScanCommand :: "'d shell_db \<Rightarrow> string list \<Rightarrow> 'd shell \<Rightarrow> (shell_out list \<times> 'd shell) go" where
  "runShellScanCommand D args s =
     gbind (go_index args 0) (\<lambda>key.
     gbind (go_index args 1) (\<lambda>n.
       let (recordCount, ok) = ParseInt n in
       if \<not> ok then Ret ([ShText (''invalid record count '' @ n @ '' for scan'')], s)
       else gbind (db_Scan (fst D) (sh_db s) (sh_table s) key recordCount (drop 2 args)) (\<lambda>(r, d).
         Ret (case r of
                Inl err \<Rightarrow> [ShText (''Scan from '' @ key @ '' with '' @ itoa recordCount @ '' failed '' @ err)]
              | Inr rows \<Rightarrow> if rows = [] then [ShText ''0 records''] else [ShRows rows], s\<lparr>sh_db := d\<rparr>))))"

definition shell_write :: "string \<Rightarrow> ('d \<Rightarrow> string \<Rightarrow> string \<Rightarrow> row \<Rightarrow> (error option \<times> 'd) go) \<Rightarrow> string list \<Rightarrow> 'd shell \<Rightarrow> (shell_out list \<times> 'd shell) go" where
  "shell_write name f args s =
     gbind (go_index args 0) (\<lambda>key.
     gbind (shell_values (tl args) []) (\<lambda>vals.
     gbind (f (sh_db s) (sh_table s) key vals) (\<lambda>(err, d).
       Ret ([ShText (case err of Some e \<Rightarrow> name @ '' '' @ key @ '' failed '' @ e | None \<Rightarrow> name @ '' '' @ key @ '' ok'')], s\<lparr>sh_db := d\<rparr>))))"

definition runShellInsertCommand :: "'d shell_db \<Rightarrow> string list \<Rightarrow> 'd shell \<Rightarrow> (shell_out list \<times> 'd shell) go" where
  "runShellInsertCommand D = shell_write ''Insert'' (db_Insert (fst D))"

definition runShellUpdateCommand :: "'d shell_db \<Rightarrow> string list \<Rightarrow> 'd shell \<Rightarrow> (shell_out list \<times> 'd shell) go" where
  "runShellUpdateCommand D = shell_write ''Update'' (db_Update (fst D))"

definition runShellDeleteCommand :: "'d shell_db \<Rightarrow> string list \<Rightarrow> 'd shell \<Rightarrow> (shell_out list \<times> 'd shell) go" where
  "runShellDeleteCommand D args s =
     gbind (go_index args 0) (\<lambda>key.
     gbind (db_Delete (fst D) (sh_db s) (sh_table s) key) (\<lambda>(err, d).
       Ret ([ShText (case err of Some e \<Rightarrow> ''Delete '' @ key @ '' failed '' @ e | None \<Rightarrow> ''Delete '' @ key @ '' ok'')], s\<lparr>sh_db := d\<rparr>)))"

definition runShellTableCommand :: "string list \<Rightarrow> 'd shell \<Rightarrow> shell_out list \<times> 'd shell" where
  "runShellTableCommand args s =
     (let s = (if length args = 1 then s\<lparr>sh_table := hd args\<rparr> else s) in ([ShText (''Using table '' @ sh_table s)], s))"

text \<open>
  \<open>runShellCommand\<close>. The command line parser (\<open>cobra\<close>) is a parameter: it picks one of the six commands and its arguments,
  or prints the usage (\<^const>\<open>None\<close>).
\<close>

datatype shell_cmd = ShRead | ShScan | ShInsert | ShUpdate | ShDelete | ShTable

definition runShellCommand ::
    "(string list \<Rightarrow> (shell_cmd \<times> string list) option) \<Rightarrow> 'd shell_db \<Rightarrow> string list \<Rightarrow> 'd shell \<Rightarrow> (shell_out list \<times> 'd shell) go" where
  "runShellCommand cobra D words s =
     (case cobra words of
        None \<Rightarrow> Ret ([ShText ''usage''], s)
      | Some (ShRead, args) \<Rightarrow> runShellReadCommand D args s
      | Some (ShScan, args) \<Rightarrow> runShellScanCommand D args s
      | Some (ShInsert, args) \<Rightarrow> runShellInsertCommand D args s
      | Some (ShUpdate, args) \<Rightarrow> runShellUpdateCommand D args s
      | Some (ShDelete, args) \<Rightarrow> runShellDeleteCommand D args s
      | Some (ShTable, args) \<Rightarrow> Ret (runShellTableCommand args s))"

text \<open>\<open>shellLoop\<close> over what the line reader delivers; the end of the list is the end of the input.\<close>

datatype shell_in = Line string | ErrInterrupt | EOF | ErrOther

fun shellLoop ::
    "(string list \<Rightarrow> (shell_cmd \<times> string list) option) \<Rightarrow> 'd shell_db \<Rightarrow> shell_in list \<Rightarrow> 'd shell \<Rightarrow> (shell_out list \<times> 'd shell) go" where
  "shellLoop cobra D [] s = Ret ([], s)"
| "shellLoop cobra D (ErrInterrupt # ins) s = Ret ([], s)"
| "shellLoop cobra D (EOF # ins) s = Ret ([], s)"
| "shellLoop cobra D (ErrOther # ins) s = shellLoop cobra D ins s"
| "shellLoop cobra D (Line line # ins) s =
     (if line = ''exit'' then Ret ([], s)
      else gbind (runShellCommand cobra D (split_on (CHR '' '') (trim_space line)) s) (\<lambda>(out, s).
           gbind (shellLoop cobra D ins s) (\<lambda>(outs, s). Ret (out @ outs, s))))"

text \<open>
  \<open>runShellCommandFunc\<close>: the shell works as thread 0 of 1. The thread state that the workload sets up is not used by any
  command.
\<close>

definition runShellCommandFunc ::
    "(string list \<Rightarrow> (shell_cmd \<times> string list) option) \<Rightarrow> 'd shell_db \<Rightarrow> 'd \<Rightarrow> string \<Rightarrow> shell_in list \<Rightarrow> (shell_out list \<times> 'd) go" where
  "runShellCommandFunc cobra D d tableName ins =
     gbind (db_InitThread (fst D) d 0 1) (\<lambda>d.
     gbind (shellLoop cobra D ins \<lparr>sh_db = d, sh_table = tableName\<rparr>) (\<lambda>(outs, s).
     gbind (db_CleanupThread (fst D) (sh_db s)) (\<lambda>d. Ret (outs, d))))"

section \<open>Parsing of \<open>name=value\<close>\<close>

lemma takeWhile_eq_sep: "c \<notin> set a \<Longrightarrow> takeWhile (\<lambda>x. x \<noteq> c) (a @ c # b) = a"
  by (induction a) auto

lemma split2_pair: "c \<notin> set a \<Longrightarrow> split2 c (a @ c # b) = [a, b]"
  by (simp add: split2_def takeWhile_eq_sep)

lemma takeWhile_absent: "c \<notin> set s \<Longrightarrow> takeWhile (\<lambda>x. x \<noteq> c) s = s"
  by (induction s) auto

lemma split2_absent: "c \<notin> set s \<Longrightarrow> split2 c s = [s]"
  by (simp add: split2_def takeWhile_absent)

definition assignment :: "string \<times> string \<Rightarrow> string" where
  "assignment nv = fst nv @ ''='' @ snd nv"

definition plain_names :: "(string \<times> string) list \<Rightarrow> bool" where
  "plain_names nvs \<longleftrightarrow> (\<forall>nv\<in>set nvs. CHR ''='' \<notin> set (fst nv))"

lemma split2_assignment: "CHR ''='' \<notin> set (fst nv) \<Longrightarrow> split2 (CHR ''='') (assignment nv) = [fst nv, snd nv]"
  using split2_pair [of "CHR ''=''" "fst nv" "snd nv"] by (simp add: assignment_def)

lemma shell_values_assignments:
  assumes "plain_names nvs"
  shows "shell_values (map assignment nvs) vals = Ret (merge_fields vals (map (\<lambda>(f, v). (f, bytes_of v)) nvs))"
  using assms
proof (induction nvs arbitrary: vals)
  case (Cons nv nvs)
  then show ?case by (cases nv) (auto simp: plain_names_def split2_assignment go_index_def)
qed simp

section \<open>The precedence of properties\<close>

text \<open>
  What the commands rely on of the property library: \<open>Set\<close> of a value without an expression succeeds, and the value is
  what \<open>GetString\<close> delivers from then on; other names keep theirs.
\<close>

definition propslib_laws :: "'p propslib \<Rightarrow> (string \<Rightarrow> bool) \<Rightarrow> bool" where
  "propslib_laws L plain \<longleftrightarrow> (\<forall>p name v. plain v \<longrightarrow> fst (pl_Set L p name v) = None
     \<and> (\<forall>n d. GetString (pl_view L (snd (pl_Set L p name v))) n d = (if n = name then v else GetString (pl_view L p) n d)))"

lemma propslib_Set:
  "propslib_laws L plain \<Longrightarrow> plain v \<Longrightarrow> GetString (pl_view L (snd (pl_Set L p name v))) n d = (if n = name then v else GetString (pl_view L p) n d)"
  by (simp add: propslib_laws_def)

lemma set_values_lookup:
  assumes "propslib_laws L plain" and "plain_names nvs" and "\<forall>nv\<in>set nvs. plain (snd nv)"
  shows "\<exists>p'. set_values L (map assignment nvs) p = Ret p'
    \<and> (\<forall>n d. GetString (pl_view L p') n d = (case map_of (rev nvs) n of Some v \<Rightarrow> v | None \<Rightarrow> GetString (pl_view L p) n d))"
  using assms(2,3)
proof (induction nvs arbitrary: p)
  case (Cons nv nvs)
  let ?p = "snd (pl_Set L p (fst nv) (snd nv))"
  obtain p' where p': "set_values L (map assignment nvs) ?p = Ret p'"
      "\<And>n d. GetString (pl_view L p') n d = (case map_of (rev nvs) n of Some v \<Rightarrow> v | None \<Rightarrow> GetString (pl_view L ?p) n d)"
    using Cons.IH [of ?p] Cons.prems by (auto simp: plain_names_def)
  have "set_values L (map assignment (nv # nvs)) p = Ret p'"
    using Cons.prems p'(1) by (simp add: plain_names_def split2_assignment)
  moreover have "GetString (pl_view L ?p) n d = (if n = fst nv then snd nv else GetString (pl_view L p) n d)" for n d
    using propslib_Set [OF assms(1)] Cons.prems(2) by simp
  then have "GetString (pl_view L p') n d = (case map_of (rev (nv # nvs)) n of Some v \<Rightarrow> v | None \<Rightarrow> GetString (pl_view L p) n d)" for n d
    by (cases nv) (auto simp: p'(2) map_add_def split: option.split)
  ultimately show ?case by blast
qed simp

lemma set_flag_lookup:
  assumes "propslib_laws L plain" and "\<And>n. plain (itoa n)"
  shows "GetString (pl_view L (set_flag L name v p)) n d = (if n = name \<and> v \<noteq> None then itoa (the v) else GetString (pl_view L p) n d)"
  using propslib_Set [OF assms(1) assms(2)] by (auto simp: set_flag_def split: option.split)

section \<open>Properties\<close>

text \<open>
  Properties given on the command line as \<open>name=value\<close> take precedence over the property files, the last one for a
  name wins, and a value may itself contain the sign \<open>=\<close>; what the command \<open>load\<close> or \<open>run\<close> sets, and the flag of the
  threads, takes precedence over both.
\<close>

theorem command_line_precedence:
  assumes "propslib_laws L plain" and "plain_names nvs" and "\<forall>nv\<in>set nvs. plain (snd nv)"
    and "plain ''true''" and "plain ''false''" and "plain command" and "\<And>n. plain (itoa n)"
  shows "\<exists>p'. set_values L (map assignment nvs) p = Ret p' \<and>
    (let q = pl_view L (client_properties L fg doTransactions command p') in
       GetString q prop_DoTransactions d = (if doTransactions then ''true'' else ''false'')
     \<and> GetString q prop_Command d = command
     \<and> (\<forall>n. fg_threads fg = Some n \<longrightarrow> GetString q prop_ThreadCount d = itoa n)
     \<and> (\<forall>name. name \<notin> {prop_DoTransactions, prop_Command, prop_ThreadCount, prop_Target, prop_LogInterval} \<longrightarrow>
          GetString q name d = (case map_of (rev nvs) name of Some v \<Rightarrow> v | None \<Rightarrow> GetString (pl_view L p) name d)))"
proof -
  obtain p' where p': "set_values L (map assignment nvs) p = Ret p'"
      "\<forall>n d. GetString (pl_view L p') n d = (case map_of (rev nvs) n of Some v \<Rightarrow> v | None \<Rightarrow> GetString (pl_view L p) n d)"
    using set_values_lookup [OF assms(1-3)] by blast
  then show ?thesis
    using propslib_Set [OF assms(1)] assms(4-6)
    by (intro exI [of _ p']) (simp add: client_properties_def Let_def set_flag_lookup [OF assms(1,7)] prop_defs)
qed

text \<open>A property library in memory: the last value set for a name, without typed getters.\<close>

definition sample_propslib :: "(string \<times> string) list propslib" where
  "sample_propslib = \<lparr>pl_New = [], pl_Load = (\<lambda>files. Ret []), pl_Set = (\<lambda>p n v. (None, (n, v) # p)),
     pl_view = (\<lambda>p. (props_of [] [])\<lparr>GetString := (\<lambda>n d. case map_of p n of Some v \<Rightarrow> v | None \<Rightarrow> d)\<rparr>)\<rparr>"

lemma sample_propslib_laws: "propslib_laws sample_propslib (\<lambda>v. True)"
  by (simp add: propslib_laws_def sample_propslib_def)

theorem command_line_precedence_witness:
  "\<exists>p'. set_values sample_propslib [''workload=core'', ''a=x=y'', ''workload=other'', ''dotransactions=true''] [] = Ret p' \<and>
    (let q = pl_view sample_propslib (client_properties sample_propslib
        \<lparr>fg_propertyFiles = [], fg_propertyValues = [], fg_tableName = [], fg_threads = Some 4, fg_target = None, fg_interval = None\<rparr> False ''load'' p') in
       GetString q prop_DoTransactions [] = ''false'' \<and> GetString q prop_ThreadCount [] = itoa 4
     \<and> GetString q ''workload'' [] = ''other'' \<and> GetString q ''a'' [] = ''x=y'')"
proof -
  let ?nvs = "[(''workload'', ''core''), (''a'', ''x=y''), (''workload'', ''other''), (''dotransactions'', ''true'')]"
  let ?fg = "\<lparr>fg_propertyFiles = [], fg_propertyValues = [], fg_tableName = [], fg_threads = Some 4, fg_target = None, fg_interval = None\<rparr>"
  have args: "map assignment ?nvs = [''workload=core'', ''a=x=y'', ''workload=other'', ''dotransactions=true'']" by (simp add: assignment_def)
  obtain p' where p': "set_values sample_propslib (map assignment ?nvs) [] = Ret p'"
    and q: "\<And>q. q = pl_view sample_propslib (client_properties sample_propslib ?fg False ''load'' p') \<Longrightarrow>
       GetString q prop_DoTransactions [] = (if False then ''true'' else ''false'') \<and> (\<forall>n. fg_threads ?fg = Some n \<longrightarrow> GetString q prop_ThreadCount [] = itoa n)
     \<and> (\<forall>name. name \<notin> {prop_DoTransactions, prop_Command, prop_ThreadCount, prop_Target, prop_LogInterval} \<longrightarrow>
          GetString q name [] = (case map_of (rev ?nvs) name of Some v \<Rightarrow> v | None \<Rightarrow> GetString (pl_view sample_propslib []) name []))"
    using command_line_precedence [OF sample_propslib_laws, where nvs = ?nvs and command = "''load''" and p = "[]" and doTransactions = False and d = "[]" and fg = ?fg]
    unfolding plain_names_def Let_def by force
  define q' where "q' = pl_view sample_propslib (client_properties sample_propslib ?fg False ''load'' p')"
  have "GetString q' ''workload'' [] = ''other''" "GetString q' ''a'' [] = ''x=y''"
    using q [OF q'_def, THEN conjunct2, THEN conjunct2, rule_format, of "''workload''"] q [OF q'_def, THEN conjunct2, THEN conjunct2, rule_format, of "''a''"]
    by (simp_all add: prop_defs)
  then show ?thesis using p' q [OF q'_def] unfolding args q'_def Let_def by auto
qed

text \<open>
  A record that the shell inserts is what the shell reads: over an engine that behaves as documented, the command
  \<open>insert key f0=v0 f1=v1 ...\<close> on known, distinct fields reports success, and the following \<open>read key\<close> prints exactly these
  fields with these values, also when a value contains the sign \<open>=\<close>.
\<close>

theorem shell_insert_then_read:
  assumes "badger_inv api ok view adm d" and "plain_table t" and "plain_names nvs"
    and "row_fits (bdb_r d) (map (\<lambda>(f, v). (f, bytes_of v)) nvs)"
    and "row_accepts adm t key (map_of (map (\<lambda>(f, v). (f, bytes_of v)) nvs))"
  shows "\<exists>s row s'. runShellInsertCommand (never_nil (badger_db api env)) (key # map assignment nvs) \<lparr>sh_db = d, sh_table = t\<rparr>
        = Ret ([ShText (''Insert '' @ key @ '' ok'')], s)
    \<and> runShellReadCommand (never_nil (badger_db api env)) [key] s = Ret ([ShText (''Read '' @ key @ '' ok''), ShRows [Some row]], s')
    \<and> map_of row = map_of (map (\<lambda>(f, v). (f, bytes_of v)) nvs)"
proof -
  let ?vs = "map (\<lambda>(f, v). (f, bytes_of v)) nvs"
  have ord: "map_of (merge_fields [] ?vs) = map_of ?vs" "row_ok (set (codec_fields (bdb_r d))) (merge_fields [] ?vs)"
  proof -
    have fit: "row_fits (bdb_r d) ?vs" by (rule assms(4))
    then have dist: "distinct (map fst ?vs)" by (simp add: row_fits_def)
    show m: "map_of (merge_fields [] ?vs) = map_of ?vs" using merge_fields_map [OF dist, of "[]"] by simp
    have k: "distinct (map fst (merge_fields [] ?vs))" "fst ` set (merge_fields [] ?vs) = fst ` set ?vs"
      using merge_fields_keys [of "[]" ?vs] by simp_all
    have "snd kv \<in> snd ` set ?vs" if "kv \<in> set (merge_fields [] ?vs)" for kv
    proof -
      have "map_of ?vs (fst kv) = Some (snd kv)" using map_of_is_SomeI [OF k(1), of "fst kv" "snd kv"] that m by simp
      then show ?thesis by (force dest: map_of_SomeD)
    qed
    then show "row_ok (set (codec_fields (bdb_r d))) (merge_fields [] ?vs)"
      using fit k by (fastforce simp: row_ok_def row_fits_def)
  qed
  obtain d1 where d1: "db_Insert (badger_db api env) d t key (merge_fields [] ?vs) = Ret (None, d1)" "badger_inv api ok view adm d1"
      "badger_rows view d1 = (badger_rows view d)((t, key) \<mapsto> map_of ?vs)"
    using badger.Insert [OF assms(1,2) ord(2)] assms(5) ord(1) by metis
  obtain row d2 where "db_Read (badger_db api env) d1 t key [] = Ret (Inr row, d2)" "map_of row = map_of ?vs"
    using badger.Read [OF d1(2) assms(2), of "[]" key "map_of ?vs" env] d1(3) by auto
  then show ?thesis
    using d1(1) shell_values_assignments [OF assms(3)]
    by (simp add: runShellInsertCommand_def shell_write_def runShellReadCommand_def never_nil_def map_res_def go_index_def)
qed

theorem shell_insert_then_read_witness:
  "\<exists>s row s'. runShellInsertCommand (never_nil (badger_db mem_badger sample_close)) [''k'', ''field0=a=b'', ''field1=''] \<lparr>sh_db = sample_badger, sh_table = ''t''\<rparr>
        = Ret ([ShText ''Insert k ok''], s)
    \<and> runShellReadCommand (never_nil (badger_db mem_badger sample_close)) [''k''] s = Ret ([ShText ''Read k ok'', ShRows [Some row]], s')
    \<and> map_of row = [''field1'' \<mapsto> [], ''field0'' \<mapsto> bytes_of ''a=b'']"
proof -
  have "badger_inv mem_badger (\<lambda>s. True) map_of (\<lambda>k v. True) sample_badger"
    using badger_Create_inv [OF mem_badger_laws sample_badger_created] by (auto simp: sample_badger_def prop_defs)
  from shell_insert_then_read [OF this, of "''t''" "[(''field0'', ''a=b''), (''field1'', '''')]" "''k''" sample_close]
  show ?thesis
    by (auto simp: plain_table_def plain_names_def row_fits_def row_accepts_def all_encodings_def sample_badger_def assignment_def bytes_of_def)
qed

end
