(* ===== verification/Report.thy ===== *)
theory Report
  imports MeasurementProps
begin

text \<open>
  The report tool, \<^verbatim>\<open>tool/report.go\<close>: it reads the logs of benchmark runs, picks the summary rows that the client printed,
  and writes one CSV file per workload. The files are parameters. The main property closes the loop with the
  measurement: the rows that \<open>histograms.Output\<close> prints are read back with their throughput and percentile.
\<close>

section \<open>Parsing text\<close>

text \<open>\<open>strings.FieldsFunc\<close>: the maximal runs of characters that are no separators.\<close>

function fields_func :: "(char \<Rightarrow> bool) \<Rightarrow> string \<Rightarrow> string list" where
  "fields_func sep [] = []"
| "fields_func sep (c # cs) =
     (if sep c then fields_func sep cs
      else (c # takeWhile (\<lambda>x. \<not> sep x) cs) # fields_func sep (dropWhile (\<lambda>x. \<not> sep x) cs))"
  by pat_completeness auto
termination by (relation "measure (\<lambda>(_, s). length s)") (auto simp: length_dropWhile_le le_imp_less_Suc)

definition has_prefix :: "string \<Rightarrow> string \<Rightarrow> bool" where
  "has_prefix s p \<longleftrightarrow> take (length p) s = p"

definition trim_suffix :: "string \<Rightarrow> string \<Rightarrow> string" where
  "trim_suffix s suf = (if length suf \<le> length s \<and> drop (length s - length suf) s = suf then take (length s - length suf) s else s)"

text \<open>\<open>path.Base\<close>.\<close>

definition path_base :: "string \<Rightarrow> string" where
  "path_base p =
     (if p = [] then ''.''
      else let q = rev (dropWhile (\<lambda>c. c = CHR ''/'') (rev p)) in
           if q = [] then ''/'' else rev (takeWhile (\<lambda>c. c \<noteq> CHR ''/'') (rev q)))"

text \<open>
  \<open>strconv.ParseFloat\<close> on decimal numbers, with an optional exponent, and on the words for infinity and NaN. A number that
  overflows is an error; hexadecimal floats are left out, no log has them.
\<close>

definition syntax_error :: error where
  "syntax_error = ''invalid syntax''"

definition parse_decimal :: "string \<Rightarrow> real option" where
  "parse_decimal s =
     (let a = takeWhile (\<lambda>c. c \<noteq> CHR ''.'') s; b = drop (length a + 1) s in
      if a @ b \<noteq> [] \<and> list_all is_digit (a @ b) then Some (real (undigits (a @ b)) / 10 ^ length b) else None)"

definition parse_exponent :: "string \<Rightarrow> real option" where
  "parse_exponent s =
     (case s of
        [] \<Rightarrow> Some 1
      | _ # t \<Rightarrow>
          let (neg, ds) = (case t of c # u \<Rightarrow> if c = CHR ''-'' then (True, u) else if c = CHR ''+'' then (False, u) else (False, t) | [] \<Rightarrow> (False, t)) in
          case parse_digits ds of
            None \<Rightarrow> None
          | Some n \<Rightarrow> Some (if neg then 1 / 10 ^ n else 10 ^ n))"

definition parse_unsigned :: "bool \<Rightarrow> string \<Rightarrow> error + float64" where
  "parse_unsigned neg s =
     (let m = takeWhile (\<lambda>c. c \<noteq> CHR ''e'' \<and> c \<noteq> CHR ''E'') s; e = drop (length m) s in
      case (parse_decimal m, parse_exponent e) of
        (Some x, Some y) \<Rightarrow>
          (case fl (if neg then - (x * y) else x * y) of Fin z \<Rightarrow> Inr (Fin z) | _ \<Rightarrow> Inl ''value out of range'')
      | _ \<Rightarrow> Inl syntax_error)"

definition ParseFloat :: "string \<Rightarrow> error + float64" where
  "ParseFloat s =
     (let signed = (s \<noteq> [] \<and> (hd s = CHR ''+'' \<or> hd s = CHR ''-'')); neg = (s \<noteq> [] \<and> hd s = CHR ''-'');
          t = (if signed then tl s else s) in
      if to_lower t \<in> {''inf'', ''infinity''} then Inr (if neg then NegInf else PosInf)
      else if \<not> signed \<and> to_lower t = ''nan'' then Inr NaN
      else parse_unsigned neg t)"

section \<open>Reading a log\<close>

definition report_operations :: "string list" where
  "report_operations = [''INSERT'', ''READ'', ''UPDATE'', ''SCAN'', ''READ_MODIFY_WRITE'', ''DELETE'']"

definition report_workloads :: "string list" where
  "report_workloads = [''load'', ''workloada'', ''workloadb'', ''workloadc'', ''workloadd'', ''workloade'', ''workloadf'']"

record stat =
  st_OPS :: float64
  st_P99 :: float64

definition statFieldFunc :: "char \<Rightarrow> bool" where
  "statFieldFunc c \<longleftrightarrow> c = CHR '':'' \<or> c = CHR '',''"

text \<open>The loop over names and values; a name without a value is an index out of range.\<close>

fun stat_pairs :: "string list \<Rightarrow> stat \<Rightarrow> (error + stat) go" where
  "stat_pairs [] s = Ret (Inr s)"
| "stat_pairs [k] s = Panic ''index out of range''"
| "stat_pairs (k # v # kvs) s =
     (case ParseFloat (trim_space v) of
        Inl err \<Rightarrow> Ret (Inl err)
      | Inr x \<Rightarrow>
          stat_pairs kvs
            (if trim_space k = ''OPS'' then s\<lparr>st_OPS := x\<rparr> else if trim_space k = ''99th(us)'' then s\<lparr>st_P99 := x\<rparr> else s))"

definition newStat :: "string \<Rightarrow> (error + stat) go" where
  "newStat line = stat_pairs (fields_func statFieldFunc line) \<lparr>st_OPS = Fin 0, st_P99 = Fin 0\<rparr>"

record dbStat =
  ds_db :: string
  ds_workload :: string
  ds_summary :: "stat smap"

text \<open>
  \<open>bufio.Scanner\<close>: the lines without their ends, and the error for a line that does not fit its buffer, which ends
  the scan.
\<close>

definition drop_cr :: "string \<Rightarrow> string" where
  "drop_cr l = (if l \<noteq> [] \<and> last l = CHR 0x0D then butlast l else l)"

definition raw_lines :: "string \<Rightarrow> string list" where
  "raw_lines text = (let ls = split_on (CHR 0x0A) text in if last ls = [] then butlast ls else ls)"

definition scan_lines :: "string \<Rightarrow> string list \<times> error option" where
  "scan_lines text =
     (let ls = raw_lines text; fit = takeWhile (\<lambda>l. length l < 65536) ls
      in (map drop_cr fit, if length fit < length ls then Some ''bufio.Scanner: token too long'' else None))"

fun scan_summary :: "string list \<Rightarrow> bool \<Rightarrow> stat smap \<Rightarrow> (error + stat smap) go" where
  "scan_summary [] handleSummary summary = Ret (Inr summary)"
| "scan_summary (line # ls) handleSummary summary =
     (if has_prefix line ''Run finished'' then scan_summary ls True summary
      else
        let seps = split_on (CHR ''-'') line; op = trim_space (hd seps) in
        if op \<notin> set report_operations then scan_summary ls handleSummary summary
        else gbind (go_index seps 1) (\<lambda>t. gbind (newStat (trim_space t)) (\<lambda>r. case r of
            Inl err \<Rightarrow> Ret (Inl err)
          | Inr st \<Rightarrow> scan_summary ls handleSummary (if handleSummary then AList.update op st summary else summary))))"

text \<open>\<open>Inr None\<close> is the nil that says that the file is no log.\<close>

definition parseDBStat :: "(string \<Rightarrow> error + string) \<Rightarrow> string \<Rightarrow> (error + dbStat option) go" where
  "parseDBStat readFile pathName =
     (let seps = split_on (CHR ''_'') (path_base pathName) in
      if length seps \<noteq> 2 then Ret (Inr None)
      else
        let workload = trim_suffix (seps ! 1) ''.log'' in
        if workload \<notin> set report_workloads then Ret (Inr None)
        else case readFile pathName of
            Inl err \<Rightarrow> Ret (Inl err)
          | Inr text \<Rightarrow>
              let (ls, err) = scan_lines text in
              gbind (scan_summary ls False []) (\<lambda>r. Ret (case r of
                  Inl e \<Rightarrow> Inl e
                | Inr summary \<Rightarrow> (case err of Some e \<Rightarrow> Inl e
                    | None \<Rightarrow> Inr (Some \<lparr>ds_db = seps ! 0, ds_workload = workload, ds_summary = summary\<rparr>)))))"

section \<open>Writing the report\<close>

definition workload_fields :: "string \<Rightarrow> string list" where
  "workload_fields workload =
     (if workload = ''load'' then [''INSERT'']
      else if workload = ''workloada'' then [''READ'', ''UPDATE'']
      else if workload = ''workloadb'' then [''READ'', ''UPDATE'']
      else if workload = ''workloadc'' then [''READ'']
      else if workload = ''workloadd'' then [''READ'', ''INSERT'']
      else if workload = ''workloade'' then [''SCAN'', ''INSERT'']
      else if workload = ''workloadf'' then [''READ_MODIFY_WRITE'']
      else [])"

text \<open>\<open>%.f\<close>: rounded to an integer, ties to even.\<close>

fun format_float0 :: "float64 \<Rightarrow> string" where
  "format_float0 (Fin x) = (if x < 0 then ''-'' else []) @ digits (nat (round_even \<bar>x\<bar>))"
| "format_float0 PosInf = ''+Inf''"
| "format_float0 NegInf = ''-Inf''"
| "format_float0 NaN = ''NaN''"

definition report_header :: "string list \<Rightarrow> string" where
  "report_header fnames = ''DB'' @ concat (map (\<lambda>f. '','' @ f @ '' OPS,'' @ f @ '' P99(us)'') fnames) @ newline"

definition report_cells :: "stat option \<Rightarrow> string" where
  "report_cells s = (case s of None \<Rightarrow> '',0.0'' | Some st \<Rightarrow> '','' @ format_float0 (st_OPS st) @ '','' @ format_float0 (st_P99 st))"

definition report_row :: "string list \<Rightarrow> dbStat \<Rightarrow> string" where
  "report_row fnames d = ds_db d @ concat (map (\<lambda>f. report_cells (map_of (ds_summary d) f)) fnames) @ newline"

text \<open>
  The file is opened without truncation: what the old file has beyond the new text stays. The rows are sorted by the
  name of the database; two logs of one database and workload (with and without \<open>.log\<close>) come in the order of the directory here, where \<open>sort.Sort\<close> leaves it open. A joined path is written
  without the cleaning of \<open>path.Join\<close>, which does not change the file it names.
\<close>

definition reportDBStats :: "(string \<Rightarrow> error + string) \<Rightarrow> string \<Rightarrow> string \<Rightarrow> dbStat list \<Rightarrow> error + (string \<times> string)" where
  "reportDBStats openFile logsPath workload stats =
     (let fileName = logsPath @ ''/report/'' @ workload @ ''_summary.csv''; fnames = workload_fields workload;
          text = report_header fnames @ concat (map (report_row fnames) (sort_key ds_db stats)) in
      case openFile fileName of
        Inl err \<Rightarrow> Inl err
      | Inr old \<Rightarrow> Inr (fileName, text @ drop (length text) old))"

text \<open>The loop of \<open>main\<close> over the files of the directory, and the grouping by workload in order of appearance.\<close>

fun collect_stats :: "(string \<Rightarrow> error + string) \<Rightarrow> string \<Rightarrow> string list \<Rightarrow> dbStat list smap \<Rightarrow> dbStat list smap go" where
  "collect_stats readFile logsPath [] stats = Ret stats"
| "collect_stats readFile logsPath (f # fs) stats =
     gbind (parseDBStat readFile (logsPath @ ''/'' @ f)) (\<lambda>r. collect_stats readFile logsPath fs (case r of
         Inr (Some s) \<Rightarrow> AList.update (ds_workload s) ((case map_of stats (ds_workload s) of Some l \<Rightarrow> l | None \<Rightarrow> []) @ [s]) stats
       | _ \<Rightarrow> stats))"

definition report_main :: "(string \<Rightarrow> error + string) \<Rightarrow> (string \<Rightarrow> error + string) \<Rightarrow> string \<Rightarrow> string list \<Rightarrow> (error + (string \<times> string)) list go" where
  "report_main readFile openFile logsPath files =
     gbind (collect_stats readFile logsPath files []) (\<lambda>stats.
       Ret (map (\<lambda>(workload, s). reportDBStats openFile logsPath workload s) stats))"

section \<open>Reading numbers back\<close>

lemma digits_small: "n < 10 \<Longrightarrow> digits n = [char_of (48 + n)]"
  by (subst digits.simps) simp

lemma undigits_append_digit: "r < 10 \<Longrightarrow> undigits (s @ digits r) = 10 * undigits s + r"
  by (simp add: digits_small undigits_snoc of_char_of)

lemma digit_facts: "is_digit c \<Longrightarrow> c \<noteq> CHR ''.'' \<and> c \<noteq> CHR ''e'' \<and> c \<noteq> CHR ''E'' \<and> lower_char c \<noteq> CHR ''i'' \<and> lower_char c \<noteq> CHR ''n''"
  by (auto simp: is_digit_def lower_char_def Let_def)

lemma digits_digit: "c \<in> set (digits n) \<Longrightarrow> is_digit c"
  using digits_all [of n] by (auto simp: list_all_iff)

text \<open>A decimal of digits and at most one point is read as the nearest float.\<close>

lemma ParseFloat_decimal:
  assumes "s = digits q @ t" and "\<forall>c\<in>set t. is_digit c \<or> c = CHR ''.''" and "parse_decimal s = Some x" and "0 \<le> x" and "x \<le> 2 ^ 1023"
  shows "ParseFloat s = Inr (Fin (rnd x))"
proof -
  obtain c cs where d: "digits q = c # cs" "is_digit c" using digits_cons by blast
  have e: "\<forall>c\<in>set s. c \<noteq> CHR ''e'' \<and> c \<noteq> CHR ''E''" using assms(1,2) digits_digit [of _ q] digit_facts by auto
  then have tw: "takeWhile (\<lambda>c. c \<noteq> CHR ''e'' \<and> c \<noteq> CHR ''E'') s = s" by (simp add: takeWhile_eq_all_conv)
  have "fl x = Fin (rnd x)" using assms(4,5) by (intro fl_Fin) simp
  then have p: "parse_unsigned False s = Inr (Fin (rnd x))" unfolding parse_unsigned_def Let_def tw using assms(3) by (simp add: parse_exponent_def)
  have "hd (to_lower s) \<noteq> CHR ''i''" "hd (to_lower s) \<noteq> CHR ''n''" "hd s \<noteq> CHR ''+''" "hd s \<noteq> CHR ''-''"
    using d digit_facts [OF d(2)] is_digit_not [OF d(2)] by (simp_all add: assms(1) to_lower_def)
  then show ?thesis using p by (auto simp: ParseFloat_def Let_def)
qed

lemma parse_decimal_digits: "parse_decimal (digits n) = Some (real n)"
proof -
  have tw: "takeWhile (\<lambda>c. c \<noteq> CHR ''.'') (digits n) = digits n"
    using digits_digit [of _ n] digit_facts by (auto simp: takeWhile_eq_all_conv)
  show ?thesis unfolding parse_decimal_def Let_def tw using digits_all [of n] by simp
qed

lemma ParseFloat_int:
  assumes "0 \<le> i" and "i < 2 ^ 63"
  shows "ParseFloat (itoa i) = Inr (of_int64 i)"
proof -
  have b: "real (nat i) \<le> 2 ^ 1023"
  proof -
    have "real_of_int i \<le> 2 ^ 63" using assms(2) by (metis less_imp_le of_int_le_iff of_int_numeral of_int_power)
    also have "(2 :: real) ^ 63 \<le> 2 ^ 1023" by (rule power_increasing) simp_all
    finally show ?thesis using assms(1) by simp
  qed
  have "ParseFloat (digits (nat i)) = Inr (Fin (rnd (real (nat i))))"
    by (rule ParseFloat_decimal [of _ "nat i" "[]"]) (use b in \<open>simp_all add: parse_decimal_digits\<close>)
  then show ?thesis using assms(1) b by (simp add: itoa_def of_int64_def fl_Fin)
qed

definition one_decimal :: "real \<Rightarrow> real" where
  "one_decimal x = of_int (round_even (10 * x)) / 10"

lemma ParseFloat_one:
  assumes "0 \<le> x" and "x \<le> 2 ^ 1000"
  shows "ParseFloat (FloatToOneString (Fin x)) = Inr (Fin (rnd (one_decimal x)))"
proof -
  let ?n = "nat (round_even (10 * x))"
  let ?s = "digits (?n div 10) @ ''.'' @ digits (?n mod 10)"
  have n: "0 \<le> round_even (10 * x)" "real ?n / 10 = one_decimal x" using assms(1) round_even_nonneg [of "10 * x"] by (simp_all add: one_decimal_def)
  have "takeWhile (\<lambda>c. c \<noteq> CHR ''.'') ?s = digits (?n div 10)"
    using digits_digit [of _ "?n div 10"] digit_facts by (subst takeWhile_append2) auto
  moreover have "undigits (digits (?n div 10) @ digits (?n mod 10)) = ?n" by (simp add: undigits_append_digit)
  moreover have "list_all is_digit (digits (?n div 10) @ digits (?n mod 10))" using digits_all by simp
  moreover have "length (digits (?n mod 10)) = 1" by (simp add: digits_small)
  ultimately have p: "parse_decimal ?s = Some (one_decimal x)" using n(2) by (simp add: parse_decimal_def Let_def)
  have "of_int (round_even (10 * x)) \<le> 10 * x + 1" by (simp add: round_even_def Let_def) linarith
  then have "one_decimal x \<le> 2 ^ 1000 + 1" using assms(2) by (simp add: one_decimal_def)
  also have "(2 :: real) ^ 1000 + 1 \<le> 2 ^ 1000 + 2 ^ 1000" by simp
  also have "(2 :: real) ^ 1000 + 2 ^ 1000 = 2 ^ 1001" by simp
  also have "(2 :: real) ^ 1001 \<le> 2 ^ 1023" by (rule power_increasing) simp_all
  finally have le: "one_decimal x \<le> 2 ^ 1023" .
  have "ParseFloat ?s = Inr (Fin (rnd (one_decimal x)))"
    by (rule ParseFloat_decimal [OF refl _ p _ le]) (use digits_digit [of _ "?n mod 10"] n in \<open>auto simp: one_decimal_def\<close>)
  then show ?thesis using assms(1) by (simp add: Let_def)
qed

section \<open>Reading a row back\<close>

lemma fields_func_append:
  "k \<noteq> [] \<Longrightarrow> \<forall>c\<in>set k. \<not> sep c \<Longrightarrow> sep d \<Longrightarrow> fields_func sep (k @ d # r) = k # fields_func sep r"
proof (cases k)
  case (Cons a k')
  assume "\<forall>c\<in>set k. \<not> sep c" "sep d"
  then have "takeWhile (\<lambda>x. \<not> sep x) (k' @ d # r) = k'" "dropWhile (\<lambda>x. \<not> sep x) (k' @ d # r) = d # r"
    using Cons by (simp_all add: takeWhile_append2 dropWhile_append2)
  then show ?thesis using Cons \<open>\<forall>c\<in>set k. \<not> sep c\<close> \<open>sep d\<close> by simp
qed simp

lemma fields_func_last: "k \<noteq> [] \<Longrightarrow> \<forall>c\<in>set k. \<not> sep c \<Longrightarrow> fields_func sep k = [k]"
  by (cases k) (auto simp: takeWhile_eq_all_conv [THEN iffD2] dropWhile_eq_Nil_conv [THEN iffD2])

text \<open>A cell of a row: a name and a value without separators, and neither begins or ends with a space.\<close>

definition cell_text :: "string \<Rightarrow> bool" where
  "cell_text v \<longleftrightarrow> v \<noteq> [] \<and> (\<forall>c\<in>set v. \<not> statFieldFunc c \<and> \<not> is_space c)"

definition cells_text :: "(string \<times> string) list \<Rightarrow> string" where
  "cells_text ps = join_with '', '' (map (\<lambda>(h, v). h @ '': '' @ v) ps)"

lemma trim_cell [simp]: "cell_text v \<Longrightarrow> trim_space v = v" "cell_text v \<Longrightarrow> trim_space (CHR '' '' # v) = v"
  using trim_space_id [of v] hd_in_set [of v] last_in_set [of v]
  by (auto simp: cell_text_def) (auto simp: trim_space_def is_space_def dropWhile_append)

lemma fields_prefixed:
  assumes "cell_text k" and "pre \<in> {[], '' ''}"
  shows "statFieldFunc d \<Longrightarrow> fields_func statFieldFunc ((pre @ k) @ d # r) = (pre @ k) # fields_func statFieldFunc r"
    and "fields_func statFieldFunc (pre @ k) = [pre @ k]"
proof -
  have sp: "\<not> statFieldFunc (CHR '' '')" by (simp add: statFieldFunc_def)
  have "k \<noteq> []" "\<forall>c\<in>set k. \<not> statFieldFunc c" using assms(1) unfolding cell_text_def by blast+
  moreover have "set pre \<subseteq> {CHR '' ''}" using assms(2) by (elim insertE emptyE) simp_all
  ultimately have k: "pre @ k \<noteq> []" "\<forall>c\<in>set (pre @ k). \<not> statFieldFunc c" using sp by auto
  show "statFieldFunc d \<Longrightarrow> fields_func statFieldFunc ((pre @ k) @ d # r) = (pre @ k) # fields_func statFieldFunc r"
    by (rule fields_func_append [OF k])
  show "fields_func statFieldFunc (pre @ k) = [pre @ k]" by (rule fields_func_last [OF k])
qed

lemma fields_of_cells:
  assumes "ps \<noteq> []" and "\<forall>(h, v)\<in>set ps. cell_text h \<and> cell_text v" and "pre \<in> {[], '' ''}"
  shows "fields_func statFieldFunc (pre @ cells_text ps)
    = (pre @ fst (hd ps)) # ('' '' @ snd (hd ps)) # concat (map (\<lambda>(h, v). ['' '' @ h, '' '' @ v]) (tl ps))"
  using assms
proof (induction ps arbitrary: pre rule: list_nonempty_induct)
  case (single p)
  obtain h v where p: "p = (h, v)" by (cases p)
  have c: "cell_text h" "cell_text v" using single p by auto
  have "fields_func statFieldFunc ((pre @ h) @ CHR '':'' # '' '' @ v) = (pre @ h) # fields_func statFieldFunc ('' '' @ v)"
    by (rule fields_prefixed(1) [OF c(1) single(2)]) (simp add: statFieldFunc_def)
  also have "fields_func statFieldFunc ('' '' @ v) = ['' '' @ v]"
    by (rule fields_prefixed(2) [OF c(2)]) simp
  finally show ?case using p by (simp add: cells_text_def)
next
  case (cons p ps)
  obtain h v where p: "p = (h, v)" by (cases p)
  have c: "cell_text h" "cell_text v" using cons.prems p by auto
  obtain q qs where q: "ps = q # qs" using cons.hyps by (cases ps) auto
  have "cells_text (p # ps) = h @ CHR '':'' # ('' '' @ v) @ CHR '','' # '' '' @ cells_text ps"
    using p q by (cases q) (simp add: cells_text_def)
  then have "fields_func statFieldFunc (pre @ cells_text (p # ps)) = (pre @ h) # fields_func statFieldFunc (('' '' @ v) @ CHR '','' # '' '' @ cells_text ps)"
    using fields_prefixed(1) [OF c(1) cons.prems(2), of "CHR '':''"] by (simp add: statFieldFunc_def)
  also have "fields_func statFieldFunc (('' '' @ v) @ CHR '','' # '' '' @ cells_text ps) = ('' '' @ v) # fields_func statFieldFunc ('' '' @ cells_text ps)"
    by (rule fields_prefixed(1) [OF c(2)]) (simp_all add: statFieldFunc_def)
  also have "fields_func statFieldFunc ('' '' @ cells_text ps) = ('' '' @ fst (hd ps)) # ('' '' @ snd (hd ps)) # concat (map (\<lambda>(h, v). ['' '' @ h, '' '' @ v]) (tl ps))"
    using cons.IH [of "'' ''"] cons.prems by auto
  finally show ?case using p q by (cases q) simp
qed

definition set_stat :: "string \<Rightarrow> float64 \<Rightarrow> stat \<Rightarrow> stat" where
  "set_stat k x s = (if k = ''OPS'' then s\<lparr>st_OPS := x\<rparr> else if k = ''99th(us)'' then s\<lparr>st_P99 := x\<rparr> else s)"

lemma stat_pairs_cells:
  assumes "\<forall>(h, v)\<in>set ps. cell_text h \<and> cell_text v \<and> ParseFloat v = Inr (val v)"
  shows "stat_pairs (concat (map (\<lambda>(h, v). ['' '' @ h, '' '' @ v]) ps)) s = Ret (Inr (foldl (\<lambda>s (h, v). set_stat h (val v) s) s ps))"
  using assms by (induction ps arbitrary: s) (auto simp: set_stat_def)

lemma newStat_cells:
  assumes "ps \<noteq> []" and "\<forall>(h, v)\<in>set ps. cell_text h \<and> cell_text v \<and> ParseFloat v = Inr (val v)"
  shows "newStat (cells_text ps) = Ret (Inr (foldl (\<lambda>s (h, v). set_stat h (val v) s) \<lparr>st_OPS = Fin 0, st_P99 = Fin 0\<rparr> ps))"
proof -
  obtain h v qs where p: "ps = (h, v) # qs" using assms(1) by (cases ps) auto
  have "fields_func statFieldFunc (cells_text ps) = h # ('' '' @ v) # concat (map (\<lambda>(h, v). ['' '' @ h, '' '' @ v]) qs)"
    using fields_of_cells [OF assms(1), of "[]"] assms(2) p by fastforce
  then show ?thesis using stat_pairs_cells [of qs val] assms(2) p by (simp add: newStat_def set_stat_def)
qed

lemma trim_cells:
  assumes "ps \<noteq> []" and "\<forall>(h, v)\<in>set ps. cell_text h \<and> cell_text v"
  shows "trim_space ('' '' @ cells_text ps) = cells_text ps"
proof -
  have "cells_text ps \<noteq> [] \<and> \<not> is_space (hd (cells_text ps)) \<and> \<not> is_space (last (cells_text ps))"
    using assms
  proof (induction ps rule: list_nonempty_induct)
    case (single p)
    then show ?case using hd_in_set [of "fst p"] last_in_set [of "snd p"] by (cases p) (auto simp: cells_text_def cell_text_def)
  next
    case (cons p ps)
    obtain q qs where q: "ps = q # qs" using cons.hyps by (cases ps) auto
    have "cells_text (p # ps) = fst p @ '': '' @ snd p @ '', '' @ cells_text ps" using q by (cases p, cases q) (simp add: cells_text_def)
    then show ?case using cons hd_in_set [of "fst p"] by (cases p) (auto simp: cell_text_def)
  qed
  then have "trim_space (cells_text ps) = cells_text ps" using trim_space_id by blast
  then show ?thesis by (simp add: trim_space_def is_space_def dropWhile_append)
qed

section \<open>Reading a report back\<close>

text \<open>The figures of a row that the tool can read: finite and not negative.\<close>

definition info_ok :: "hist_info \<Rightarrow> bool" where
  "info_ok i \<longleftrightarrow> (\<exists>a. i_ELAPSED i = Fin a \<and> 0 \<le> a \<and> a \<le> 2 ^ 1000) \<and> (\<exists>b. i_QPS i = Fin b \<and> 0 \<le> b \<and> b \<le> 2 ^ 1000)
     \<and> list_all (\<lambda>n. 0 \<le> n \<and> n < 2 ^ 63) [i_COUNT i, i_AVG i, i_MIN i, i_MAX i, i_PER50TH i, i_PER90TH i, i_PER95TH i, i_PER99TH i, i_PER999TH i, i_PER9999TH i]"

definition info_stat :: "hist_info \<Rightarrow> stat" where
  "info_stat i = \<lparr>st_OPS = (case i_QPS i of Fin b \<Rightarrow> Fin (rnd (one_decimal b)) | x \<Rightarrow> x), st_P99 = of_int64 (i_PER99TH i)\<rparr>"

lemma cell_digits: "cell_text (digits n)" "cell_text (digits m @ ''.'' @ digits n)"
proof -
  have d: "\<not> statFieldFunc c \<and> \<not> is_space c" if "is_digit c" for c
    using that is_digit_not [OF that] by (auto simp: statFieldFunc_def is_digit_def)
  have p: "\<not> statFieldFunc (CHR ''.'') \<and> \<not> is_space (CHR ''.'')" by (simp add: statFieldFunc_def is_space_def)
  show "cell_text (digits n)" using d digits_digit [of _ n] by (auto simp: cell_text_def)
  show "cell_text (digits m @ ''.'' @ digits n)" using d p digits_digit [of _ m] digits_digit [of _ n] by (auto simp: cell_text_def)
qed

lemma cell_values:
  "0 \<le> i \<Longrightarrow> cell_text (itoa i)" "0 \<le> x \<Longrightarrow> cell_text (FloatToOneString (Fin x))"
  using cell_digits by (simp_all add: itoa_def Let_def)

lemma header_cells: "\<forall>h\<in>set (tl measurement_header). cell_text h"
  by (simp add: measurement_header_def cell_text_def statFieldFunc_def is_space_def)

definition row_cells :: "hist_info \<Rightarrow> (string \<times> string) list" where
  "row_cells res = zip (tl measurement_header)
     [FloatToOneString (i_ELAPSED res), IntToString (i_COUNT res), FloatToOneString (i_QPS res), IntToString (i_AVG res),
      IntToString (i_MIN res), IntToString (i_MAX res), IntToString (i_PER50TH res), IntToString (i_PER90TH res),
      IntToString (i_PER95TH res), IntToString (i_PER99TH res), IntToString (i_PER999TH res), IntToString (i_PER9999TH res)]"

definition float_of :: "string \<Rightarrow> float64" where
  "float_of v = (case ParseFloat v of Inr x \<Rightarrow> x | Inl _ \<Rightarrow> NaN)"

lemma row_cells_ok:
  assumes "info_ok res"
  shows "\<forall>(h, v)\<in>set (row_cells res). cell_text h \<and> cell_text v \<and> ParseFloat v = Inr (float_of v)"
proof -
  have f: "cell_text (FloatToOneString x) \<and> ParseFloat (FloatToOneString x) = Inr (float_of (FloatToOneString x))"
    if "\<exists>a. x = Fin a \<and> 0 \<le> a \<and> a \<le> 2 ^ 1000" for x
    using that cell_values(2) ParseFloat_one by (auto simp: float_of_def simp del: FloatToOneString.simps)
  have n: "cell_text (IntToString i) \<and> ParseFloat (IntToString i) = Inr (float_of (IntToString i))" if "0 \<le> i \<and> i < 2 ^ 63" for i
    using that cell_values(1) ParseFloat_int by (auto simp: float_of_def IntToString_def)
  let ?good = "\<lambda>v. cell_text v \<and> ParseFloat v = Inr (float_of v)"
  have "list_all ?good (map snd (row_cells res))"
    using assms f n by (simp add: row_cells_def measurement_header_def info_ok_def)
  then have "?good v" if "(h, v) \<in> set (row_cells res)" for h v using that by (auto simp: list_all_iff)
  moreover have "cell_text h" if "(h, v) \<in> set (row_cells res)" for h v
    using that header_cells set_zip_leftD [of h v] by (auto simp: row_cells_def)
  ultimately show ?thesis by blast
qed

lemma row_stat:
  assumes "info_ok res"
  shows "newStat (cells_text (row_cells res)) = Ret (Inr (info_stat res))"
proof -
  have "row_cells res \<noteq> []" by (simp add: row_cells_def measurement_header_def)
  moreover have "foldl (\<lambda>s (h, v). set_stat h (float_of v) s) \<lparr>st_OPS = Fin 0, st_P99 = Fin 0\<rparr> (row_cells res)
      = \<lparr>st_OPS = float_of (FloatToOneString (i_QPS res)), st_P99 = float_of (IntToString (i_PER99TH res))\<rparr>"
    by (simp add: row_cells_def measurement_header_def set_stat_def)
  moreover have "float_of (FloatToOneString (i_QPS res)) = st_OPS (info_stat res)" "float_of (IntToString (i_PER99TH res)) = st_P99 (info_stat res)"
    using assms ParseFloat_one ParseFloat_int by (auto simp: info_ok_def info_stat_def float_of_def IntToString_def simp del: FloatToOneString.simps)
  ultimately show ?thesis using newStat_cells [OF _ row_cells_ok [OF assms]] by (simp add: info_stat_def)
qed

lemma map_enumerate_zip: "length hs = length vs \<Longrightarrow> map (\<lambda>(i, h). f h (vs ! i)) (enumerate 0 hs) = map (\<lambda>(h, v). f h v) (zip hs vs)"
  by (rule nth_equalityI) (auto simp: nth_enumerate_eq)

lemma render_row:
  "render_line measurement_header (op # histogram_Summary H h t)
     = Ret (pad6 op @ '' - '' @ cells_text (row_cells (getInfo H h t)) @ newline)"
proof -
  let ?vs = "histogram_Summary H h t" and ?hs = "tl measurement_header"
  have l: "length ?vs = 12" "length ?hs = 12" by (simp_all add: histogram_Summary_def Let_def measurement_header_def)
  have "gmap (\<lambda>(i, h). gbind (go_index (op # ?vs) (int i + 1)) (\<lambda>v. Ret (h @ '': '' @ v))) (enumerate 0 ?hs)
      = Ret (map (\<lambda>(i, h). h @ '': '' @ ?vs ! i) (enumerate 0 ?hs))"
    using l by (intro gmap_Ret) (auto simp: go_index_def in_set_enumerate_eq nat_add_distrib)
  also have "map (\<lambda>(i, h). h @ '': '' @ ?vs ! i) (enumerate 0 ?hs) = map (\<lambda>(h, v). h @ '': '' @ v) (zip ?hs ?vs)"
    using l by (intro map_enumerate_zip [where f = "\<lambda>h v. h @ '': '' @ v"]) simp
  finally have g: "gmap (\<lambda>(i, h). gbind (go_index (op # ?vs) (int i + 1)) (\<lambda>v. Ret (h @ '': '' @ v))) (enumerate 0 ?hs)
      = Ret (map (\<lambda>(h, v). h @ '': '' @ v) (zip ?hs ?vs))" .
  have s: "slice_from measurement_header 1 = Ret ?hs" by (simp add: slice_from_def measurement_header_def)
  have z: "zip ?hs ?vs = row_cells (getInfo H h t)" by (simp add: row_cells_def histogram_Summary_def Let_def)
  show ?thesis unfolding render_line_def s gbind.simps g z by (simp add: go_index_def cells_text_def)
qed

text \<open>A name that a row can start with: no spaces or dashes, and not the beginning of the line that ends a run.\<close>

definition op_text :: "string \<Rightarrow> bool" where
  "op_text op \<longleftrightarrow> op \<noteq> [] \<and> (\<forall>c\<in>set op. \<not> is_space c \<and> c \<noteq> CHR ''-'') \<and> take 3 op \<noteq> ''Run''"

definition row_line :: "string \<times> hist_info \<Rightarrow> string" where
  "row_line r = pad6 (fst r) @ '' - '' @ cells_text (row_cells (snd r))"

lemma cells_no_char:
  assumes "\<forall>(h, v)\<in>set ps. c \<notin> set h \<and> c \<notin> set v" and "c \<notin> {CHR '':'', CHR '','', CHR '' ''}"
  shows "c \<notin> set (cells_text ps)"
  using assms unfolding cells_text_def by (induction ps rule: induct_list012) auto

definition num_text :: "string \<Rightarrow> bool" where
  "num_text v \<longleftrightarrow> (\<forall>c\<in>set v. is_digit c \<or> c = CHR ''.'')"

lemma row_value_chars:
  assumes "info_ok res" and "(h, v) \<in> set (row_cells res)" and "c \<in> set v"
  shows "is_digit c \<or> c = CHR ''.''"
proof -
  have f: "num_text (FloatToOneString x)" if "\<exists>a. x = Fin a \<and> 0 \<le> a \<and> a \<le> 2 ^ 1000" for x
    using that digits_digit by (auto simp: Let_def num_text_def)
  have n: "num_text (IntToString i)" if "0 \<le> i \<and> i < 2 ^ 63" for i
    using that digits_digit by (auto simp: IntToString_def itoa_def num_text_def)
  have "list_all num_text (map snd (row_cells res))"
    using assms(1) f n by (simp add: row_cells_def measurement_header_def info_ok_def)
  then have "num_text v" using assms(2) by (auto simp: list_all_iff)
  then show ?thesis using assms(3) by (simp add: num_text_def)
qed

lemma row_cells_no_char:
  assumes "info_ok res" and "c \<in> {CHR ''-'', CHR 0x0A, CHR 0x0D}"
  shows "c \<notin> set (cells_text (row_cells res))"
proof (rule cells_no_char)
  have "\<forall>h\<in>set (tl measurement_header). c \<notin> set h" using assms(2) by (auto simp: measurement_header_def)
  moreover have "\<not> is_digit c \<and> c \<noteq> CHR ''.''" using assms(2) by (auto simp: is_digit_def)
  ultimately show "\<forall>(h, v)\<in>set (row_cells res). c \<notin> set h \<and> c \<notin> set v"
    using row_value_chars [OF assms(1)] set_zip_leftD by (fastforce simp: row_cells_def)
qed (use assms(2) in auto)

lemma op_no_char: "op_text op \<Longrightarrow> c \<in> {CHR ''-'', CHR 0x0A, CHR 0x0D} \<Longrightarrow> c \<notin> set (pad6 op)"
  by (auto simp: op_text_def pad6_def is_space_def)

lemma row_line_split:
  assumes "op_text op" and "info_ok res"
  shows "split_on (CHR ''-'') (row_line (op, res)) = [pad6 op @ '' '', '' '' @ cells_text (row_cells res)]"
proof -
  have e: "row_line (op, res) = (pad6 op @ '' '') @ CHR ''-'' # '' '' @ cells_text (row_cells res)" by (simp add: row_line_def)
  show ?thesis unfolding e using op_no_char [OF assms(1)] row_cells_no_char [OF assms(2)]
    by (subst split_on_append) (simp_all add: split_on_plain)
qed

lemma trim_op:
  assumes "op_text op"
  shows "trim_space (pad6 op @ '' '') = op"
proof -
  have "trim_space op = op" using trim_space_id [of op] assms hd_in_set [of op] last_in_set [of op] by (auto simp: op_text_def)
  moreover have "trim_space (op @ replicate k (CHR '' '')) = trim_space op" for k
    using assms by (simp add: trim_space_def op_text_def dropWhile_append1 [of "hd op"] dropWhile_append is_space_def)
  moreover have "pad6 op @ '' '' = op @ replicate (6 - length op + 1) (CHR '' '')" by (simp add: pad6_def replicate_append_same)
  ultimately show ?thesis by metis
qed

lemma not_run_finished:
  assumes "op_text op"
  shows "\<not> has_prefix (row_line (op, res)) ''Run finished''"
proof
  assume "has_prefix (row_line (op, res)) ''Run finished''"
  then have "take 3 (take (length ''Run finished'') (row_line (op, res))) = take 3 ''Run finished''" by (simp only: has_prefix_def)
  then have "take 3 (row_line (op, res)) = ''Run''" by (simp add: numeral_3_eq_3)
  then have t: "take 3 (op @ replicate (6 - length op) (CHR '' '') @ '' - '' @ cells_text (row_cells res)) = ''Run''" by (simp add: row_line_def pad6_def)
  show False
  proof (cases "3 \<le> length op")
    case True
    then show ?thesis using t assms by (simp add: op_text_def)
  next
    case False
    then have "CHR '' '' \<in> set (take 3 (op @ replicate (6 - length op) (CHR '' '') @ '' - '' @ cells_text (row_cells res)))" by simp
    then show ?thesis unfolding t by simp
  qed
qed

text \<open>What the scan makes of printed rows.\<close>

lemma scan_rows:
  assumes "\<forall>(op, res)\<in>set rs. op_text op \<and> info_ok res"
  shows "scan_summary (map row_line rs) True summary
    = Ret (Inr (foldl (\<lambda>m (op, res). AList.update op (info_stat res) m) summary (filter (\<lambda>r. fst r \<in> set report_operations) rs)))"
  using assms
proof (induction rs arbitrary: summary)
  case (Cons r rs)
  obtain op res where r: "r = (op, res)" by (cases r)
  have o: "op_text op" "info_ok res" using Cons.prems r by auto
  have "trim_space ('' '' @ cells_text (row_cells res)) = cells_text (row_cells res)"
    using row_cells_ok [OF o(2)] by (intro trim_cells) (auto simp: row_cells_def measurement_header_def)
  then show ?case using Cons not_run_finished [OF o(1)] row_line_split [OF o] trim_op [OF o(1)] row_stat [OF o(2)]
    by (simp add: r go_index_def Let_def)
qed simp

lemma update_fold_map_of:
  "map_of (foldl (\<lambda>m (k, x). AList.update k (f x) m) m kvs) = map_of m ++ map_of (rev (map (\<lambda>(k, x). (k, f x)) kvs))"
  by (induction kvs arbitrary: m) (auto simp: update_conv' fun_eq_iff map_add_def split: option.splits)

lemma summary_entry:
  assumes "distinct (map fst (hs_histograms hs))" and "op \<in> set (map fst (hs_histograms hs))"
  shows "\<exists>h i. map_of (hs_histograms hs) op = Some h \<and> map_of (histograms_summary H now hs) op = Some (histogram_Summary H h (now i))"
proof -
  from assms(2) obtain h where h: "map_of (hs_histograms hs) op = Some h" by (auto dest: weak_map_of_SomeI)
  from map_of_summary [OF assms(1) h, of H now 0] h show ?thesis by (auto simp: histograms_summary_def)
qed

text \<open>The rows of a report, each with the figures of its histogram.\<close>

lemma summary_as_rows:
  assumes "distinct (map fst (hs_histograms hs))"
  shows "\<exists>rs. RenderString measurement_header (summary_lines (histograms_summary H now hs)) = Ret (concat (map (\<lambda>r. row_line r @ newline) rs))
    \<and> map fst rs = sorted_list_of_set (fst ` set (hs_histograms hs))
    \<and> (\<forall>(op, res)\<in>set rs. \<exists>h i. map_of (hs_histograms hs) op = Some h \<and> res = getInfo H h (now i))"
proof -
  let ?s = "histograms_summary H now hs" and ?ops = "sort (map fst (histograms_summary H now hs))"
  have k: "map fst ?s = map fst (hs_histograms hs)" unfolding histograms_summary_def by (rule summary_names)
  have s: "?ops = sorted_list_of_set (fst ` set (hs_histograms hs))"
    using sorted_list_of_set_sort_remdups [of "map fst ?s"] k assms by (simp add: distinct_remdups_id)
  have "\<exists>res. op \<in> set ?ops \<longrightarrow> (\<exists>h i. map_of (hs_histograms hs) op = Some h \<and> map_of ?s op = Some (histogram_Summary H h (now i)) \<and> res = getInfo H h (now i))" for op
    using summary_entry [OF assms, of op H now] k by (metis set_sort)
  then obtain res where res: "\<And>op. op \<in> set ?ops \<Longrightarrow> \<exists>h i. map_of (hs_histograms hs) op = Some h \<and> map_of ?s op = Some (histogram_Summary H h (now i)) \<and> res op = getInfo H h (now i)"
    by metis
  define rs where "rs = map (\<lambda>op. (op, res op)) ?ops"
  have "gmap (render_line measurement_header) (summary_lines ?s) = Ret (map (\<lambda>r. row_line r @ newline) rs)"
  proof -
    have "gmap (\<lambda>op. render_line measurement_header (op # (case map_of ?s op of Some l \<Rightarrow> l | None \<Rightarrow> []))) ?ops
        = Ret (map (\<lambda>op. row_line (op, res op) @ newline) ?ops)"
    proof (rule gmap_Ret)
      fix op assume "op \<in> set ?ops"
      then show "render_line measurement_header (op # (case map_of ?s op of Some l \<Rightarrow> l | None \<Rightarrow> [])) = Ret (row_line (op, res op) @ newline)"
        using res [of op] by (auto simp: render_row row_line_def)
    qed
    moreover have "gmap f (map g xs) = gmap (\<lambda>x. f (g x)) xs" for f :: "string list \<Rightarrow> string go" and g :: "string \<Rightarrow> string list" and xs
      by (induction xs) auto
    ultimately show ?thesis by (simp add: summary_lines_def rs_def o_def)
  qed
  moreover have "summary_lines ?s = [] \<longleftrightarrow> rs = []" by (auto simp: summary_lines_def rs_def)
  ultimately have "RenderString measurement_header (summary_lines ?s) = Ret (concat (map (\<lambda>r. row_line r @ newline) rs))"
    by (auto simp: RenderString_def)
  moreover have "map fst rs = sorted_list_of_set (fst ` set (hs_histograms hs))" by (simp add: rs_def o_def s)
  moreover have "\<forall>(op, r)\<in>set rs. \<exists>h i. map_of (hs_histograms hs) op = Some h \<and> r = getInfo H h (now i)"
  proof (clarify)
    fix op r assume "(op, r) \<in> set rs"
    then have "op \<in> set ?ops" "r = res op" by (auto simp: rs_def)
    then show "\<exists>h i. map_of (hs_histograms hs) op = Some h \<and> r = getInfo H h (now i)" using res by blast
  qed
  ultimately show ?thesis by blast
qed

lemma scan_lines_of:
  assumes "\<forall>l\<in>set ls. CHR 0x0A \<notin> set l \<and> CHR 0x0D \<notin> set l \<and> length l < 65536"
  shows "scan_lines (concat (map (\<lambda>l. l @ newline) ls)) = (ls, None)"
proof -
  have r: "raw_lines (concat (map (\<lambda>l. l @ newline) ls)) = ls" using split_lines [of ls] assms by (simp add: raw_lines_def Let_def)
  have f: "takeWhile (\<lambda>l. length l < 65536) ls = ls" using assms by (simp add: takeWhile_eq_all_conv)
  have "drop_cr l = l" if "l \<in> set ls" for l using that assms by (metis drop_cr_def last_in_set)
  then have "map drop_cr ls = ls" by (simp add: map_idI)
  then show ?thesis unfolding scan_lines_def Let_def r f by simp
qed

lemma row_line_chars:
  assumes "op_text op" and "info_ok res"
  shows "CHR 0x0A \<notin> set (row_line (op, res))" and "CHR 0x0D \<notin> set (row_line (op, res))"
  using op_no_char [OF assms(1)] row_cells_no_char [OF assms(2)] by (auto simp: row_line_def)

lemma log_name:
  assumes "path_base path = db @ ''_'' @ w @ ''.log''" and "CHR ''_'' \<notin> set db" and "w \<in> set report_workloads"
  shows "split_on (CHR ''_'') (path_base path) = [db, w @ ''.log'']" and "trim_suffix (w @ ''.log'') ''.log'' = w"
proof -
  have "CHR ''_'' \<notin> set (w @ ''.log'')" using assms(3) by (auto simp: report_workloads_def)
  then show "split_on (CHR ''_'') (path_base path) = [db, w @ ''.log'']"
    unfolding assms(1) using split_on_append [OF assms(2), of "w @ ''.log''"] by (simp add: split_on_plain)
  show "trim_suffix (w @ ''.log'') ''.log'' = w" by (simp add: trim_suffix_def)
qed


text \<open>A log of a load with 2 inserts in one second.\<close>

definition sample_histogram :: "int list histogram" where
  "sample_histogram = \<lparr>hg_startTime = 0, hg_hist = [7, 9]\<rparr>"

definition sample_hists :: "int list histograms" where
  "sample_hists = \<lparr>hs_p = hist_props, hs_histograms = [(''INSERT'', sample_histogram)]\<rparr>"

lemma fl_of_int: "\<bar>n\<bar> \<le> 2 ^ 53 \<Longrightarrow> fl (of_int n) = Fin (of_int n)"
proof -
  assume n: "\<bar>n\<bar> \<le> 2 ^ 53"
  have "\<bar>real_of_int n\<bar> \<le> 2 ^ 53" using n by (metis of_int_abs of_int_le_iff of_int_numeral of_int_power)
  also have "(2 :: real) ^ 53 \<le> 2 ^ 1023" by (rule power_increasing) simp_all
  finally show ?thesis by (simp add: fl_Fin rnd_of_int [OF n])
qed

lemma sample_info: "getInfo list_hdr sample_histogram 1000000000
    = \<lparr>i_ELAPSED = Fin 1, i_COUNT = 2, i_QPS = Fin 2, i_AVG = 8, i_MIN = 7, i_MAX = 9, i_PER50TH = 9, i_PER90TH = 9, i_PER95TH = 9,
       i_PER99TH = 9, i_PER999TH = 9, i_PER9999TH = 9\<rparr>"
proof -
  note f = fl_of_int [of 0] fl_of_int [of 1] fl_of_int [of 2] fl_of_int [of 8] fl_of_int [of 16]
  have d: "duration_Seconds 1000000000 = Fin 1" using f by (simp add: duration_Seconds_def go_div_def go_mod_def of_int64_def)
  have m: "hdr_Mean list_hdr [7, 9] = Fin 8" using f by (simp add: list_hdr_def of_int64_def)
  show ?thesis using d m f by (simp add: getInfo_def Let_def sample_histogram_def) (simp add: list_hdr_def of_int64_def trunc_def in_i64_def)
qed

lemma sample_info_ok: "info_ok (getInfo list_hdr sample_histogram 1000000000)"
  by (simp add: sample_info info_ok_def)

lemma round_even_numeral: "round_even (numeral n) = numeral n" "round_even 10 = 10"
  using round_even_of_int [of "numeral n"] round_even_of_int [of 10] by simp_all

lemma sample_row_short: "length (row_line (''INSERT'', getInfo list_hdr sample_histogram 1000000000)) < 65536"
  by (simp add: row_line_def sample_info row_cells_def measurement_header_def cells_text_def pad6_def IntToString_def itoa_def Let_def
      round_even_numeral digits_small)


end
