(* ===== verification/BadgerRace.thy ===== *)
theory BadgerRace
  imports Badger
begin

text \<open>
  The byte counter of the Badger adapter under concurrency. All workers share one \<open>badgerDB\<close>, and the closures passed
  to \<open>db.Update\<close> run in their goroutines, so the accesses to \<open>localBytesCount\<close> interleave: the addition is a load and a
  store, and the test, the flush to the atomic global counter and the reset are separate accesses.
\<close>

section \<open>Interleaved steps\<close>

text \<open>The next access of a goroutine that accounts for a payload.\<close>

datatype counting =
    Load int
  | Store int int
  | Test
  | Flush
  | Reset
  | Counted

fun count_act :: "counting \<Rightarrow> int \<times> int \<Rightarrow> (counting \<times> int \<times> int) option" where
  "count_act (Load n) (l, g) = Some (Store n l, l, g)"
| "count_act (Store n reg) (l, g) = Some (Test, i64 (reg + n), g)"
| "count_act Test (l, g) = Some (if 1048576 \<le> l then Flush else Counted, l, g)"
| "count_act Flush (l, g) = Some (Reset, l, i64 (g + l))"
| "count_act Reset (l, g) = Some (Counted, 0, g)"
| "count_act Counted (l, g) = None"

text \<open>A configuration: the goroutines, and the local and the global counter.\<close>

type_synonym counting_state = "counting list \<times> int \<times> int"

inductive count_step :: "counting_state \<Rightarrow> counting_state \<Rightarrow> bool" where
  act: "i < length ts \<Longrightarrow> count_act (ts ! i) lg = Some (pc, lg') \<Longrightarrow> count_step (ts, lg) (ts[i := pc], lg')"

definition finished :: "counting_state \<Rightarrow> bool" where
  "finished c \<longleftrightarrow> (\<forall>t\<in>set (fst c). t = Counted)"

text \<open>The configuration that a schedule of goroutine numbers leads to.\<close>

fun run_schedule :: "nat list \<Rightarrow> counting_state \<Rightarrow> counting_state option" where
  "run_schedule [] c = Some c"
| "run_schedule (i # is) (ts, lg) =
     (if i < length ts then case count_act (ts ! i) lg of
          Some (pc, lg') \<Rightarrow> run_schedule is (ts[i := pc], lg')
        | None \<Rightarrow> None
      else None)"

lemma run_schedule_reaches: "run_schedule is c = Some c' \<Longrightarrow> count_step\<^sup>*\<^sup>* c c'"
proof (induction "is" c rule: run_schedule.induct)
  case (2 i "is" ts lg)
  then obtain pc lg' where s: "i < length ts" "count_act (ts ! i) lg = Some (pc, lg')" "run_schedule is (ts[i := pc], lg') = Some c'"
    by (auto split: if_splits option.splits)
  with 2 have "count_step\<^sup>*\<^sup>* (ts[i := pc], lg') c'" by auto
  with act [OF s(1,2)] show ?case by (rule converse_rtranclp_into_rtranclp)
qed simp

section \<open>Properties\<close>

text \<open>
  C37. The byte counter is not safe for concurrent use. A goroutine that runs alone does exactly what \<open>count_payload\<close> does;
  but any two payloads below the flush limit can end with only the second one counted, and two goroutines
  that both see the limit exceeded can flush the same bytes twice, so the reported total can be too small as
  well as too large.
\<close>

theorem badger_count_race:
  fixes n m :: int
  assumes "0 < n" and "n < 1048576" and "0 < m" and "m < 1048576"
  shows "(\<exists>l g. count_step\<^sup>*\<^sup>* ([Load n], bdb_localBytesCount db, bdb_GlobalLogicalWriteBytes db) ([Counted], l, g)
      \<and> l = bdb_localBytesCount (count_payload n db) \<and> g = bdb_GlobalLogicalWriteBytes (count_payload n db))
    \<and> (\<exists>l g ts. count_step\<^sup>*\<^sup>* ([Load n, Load m], 0, 0) (ts, l, g) \<and> finished (ts, l, g) \<and> l + g = m)
    \<and> (\<exists>l g ts. count_step\<^sup>*\<^sup>* ([Load n, Load m], 1048575, 0) (ts, l, g) \<and> finished (ts, l, g) \<and> 1048575 + n + m < l + g)"
proof (intro conjI)
  let ?l = "bdb_localBytesCount db" and ?g = "bdb_GlobalLogicalWriteBytes db"
  have "run_schedule (if 1048576 \<le> i64 (?l + n) then [0, 0, 0, 0, 0] else [0, 0, 0]) ([Load n], ?l, ?g)
      = Some ([Counted], bdb_localBytesCount (count_payload n db), bdb_GlobalLogicalWriteBytes (count_payload n db))"
    by (simp add: count_payload_def Let_def)
  from run_schedule_reaches [OF this]
  show "\<exists>l g. count_step\<^sup>*\<^sup>* ([Load n], ?l, ?g) ([Counted], l, g)
      \<and> l = bdb_localBytesCount (count_payload n db) \<and> g = bdb_GlobalLogicalWriteBytes (count_payload n db)" by blast
  have "run_schedule [0, 1, 0, 1, 0, 1] ([Load n, Load m], 0, 0) = Some ([Counted, Counted], m, 0)"
    using assms by (simp add: i64_id in_i64_def)
  from run_schedule_reaches [OF this]
  show "\<exists>l g ts. count_step\<^sup>*\<^sup>* ([Load n, Load m], 0, 0) (ts, l, g) \<and> finished (ts, l, g) \<and> l + g = m"
    by (intro exI [of _ m] exI [of _ 0] exI [of _ "[Counted, Counted]"]) (simp add: finished_def)
  have "run_schedule [0, 0, 1, 1, 0, 1, 0, 1, 0, 1] ([Load n, Load m], 1048575, 0)
      = Some ([Counted, Counted], 0, 2 * (1048575 + n + m))"
    using assms by (simp add: i64_id in_i64_def)
  from run_schedule_reaches [OF this]
  show "\<exists>l g ts. count_step\<^sup>*\<^sup>* ([Load n, Load m], 1048575, 0) (ts, l, g) \<and> finished (ts, l, g) \<and> 1048575 + n + m < l + g"
    using assms by (intro exI [of _ 0] exI [of _ "2 * (1048575 + n + m)"] exI [of _ "[Counted, Counted]"]) (simp add: finished_def)
qed

theorem badger_count_race_witness:
  "\<exists>l g ts. count_step\<^sup>*\<^sup>* ([Load 120, Load 80], 0, 0) (ts, l, g) \<and> finished (ts, l, g) \<and> l + g = 80"
  using badger_count_race [of 120 80 sample_badger] by simp

end
