(* ===== verification/Bolt.thy ===== *)
theory Bolt
  imports RowStore Props
begin

text \<open>
  The BoltDB adapter, \<^verbatim>\<open>db/boltdb/db.go\<close>: one bucket per table, a row per key. The engine (\<open>boltdb/bolt\<close>) is a parameter, a
  record of the calls the adapter makes; \<open>bolt_laws\<close> states its documented behaviour. The lemmas show that the
  adapter is a table of rows for all table names, and what it does with missing tables and keys.
\<close>

section \<open>The engine\<close>

text \<open>
  Buckets are named by bytes. \<open>bt_Bucket\<close> says whether a bucket exists; the other calls take its name. The calls on
  a transaction act on its state, \<open>bt_Commit\<close> applies it.
\<close>

record 's bolt_api =
  bt_Bucket :: "'s \<Rightarrow> byte list \<Rightarrow> bool"
  bt_Get :: "'s \<Rightarrow> byte list \<Rightarrow> byte list \<Rightarrow> byte list option"
  bt_Seek :: "'s \<Rightarrow> byte list \<Rightarrow> byte list \<Rightarrow> byte list list"
  bt_CreateBucketIfNotExists :: "'s \<Rightarrow> byte list \<Rightarrow> error option \<times> 's"
  bt_Put :: "'s \<Rightarrow> byte list \<Rightarrow> byte list \<Rightarrow> byte list \<Rightarrow> error option \<times> 's"
  bt_Delete :: "'s \<Rightarrow> byte list \<Rightarrow> byte list \<Rightarrow> error option \<times> 's"
  bt_KeyN :: "'s \<Rightarrow> byte list \<Rightarrow> int"
  bt_DeleteBucket :: "'s \<Rightarrow> byte list \<Rightarrow> error option \<times> 's"
  bt_Commit :: "'s \<Rightarrow> 's \<Rightarrow> error option \<times> 's"
  bt_Close :: "'s \<Rightarrow> error option \<times> 's"

section \<open>The adapter\<close>

record bolt_options =
  bto_Path :: string
  bto_FileMode :: int
  bto_Timeout :: int
  bto_NoGrowSync :: bool
  bto_ReadOnly :: bool
  bto_MmapFlags :: int
  bto_InitialMmapSize :: int

definition bolt_getOptions :: "props \<Rightarrow> bolt_options" where
  "bolt_getOptions p =
     \<lparr>bto_Path = GetString p ''bolt.path'' ''/tmp/boltdb'', bto_FileMode = 384,
      bto_Timeout = GetDuration p ''bolt.timeout'' 0, bto_NoGrowSync = GetBool p ''bolt.no_grow_sync'' False,
      bto_ReadOnly = GetBool p ''bolt.read_only'' False, bto_MmapFlags = GetInt p ''bolt.mmap_flags'' 0,
      bto_InitialMmapSize = GetInt p ''bolt.initial_mmap_size'' 0\<rparr>"

record 's boltDB =
  bbd_p :: props
  bbd_db :: 's
  bbd_r :: rowcodec

definition bolt_Create :: "(string list \<Rightarrow> bolt_options \<Rightarrow> error + 's) \<Rightarrow> props \<Rightarrow> (error + 's boltDB) go" where
  "bolt_Create Open p =
     (let opts = bolt_getOptions p;
          removed = (if GetBool p prop_DropData prop_DropDataDefault then [bto_Path opts] else [])
      in case Open removed opts of
           Inl err \<Rightarrow> Ret (Inl err)
         | Inr db \<Rightarrow> gbind (NewRowCodec p) (\<lambda>r. Ret (Inr \<lparr>bbd_p = p, bbd_db = db, bbd_r = r\<rparr>)))"

definition bolt_Close :: "'s bolt_api \<Rightarrow> 's boltDB \<Rightarrow> error option \<times> 's boltDB" where
  "bolt_Close api db = (let (err, s) = bt_Close api (bbd_db db) in (err, db\<lparr>bbd_db := s\<rparr>))"

definition table_not_found :: "string \<Rightarrow> error" where
  "table_not_found table = ''table not found: '' @ table"

definition key_not_found :: "string \<Rightarrow> string \<Rightarrow> error" where
  "key_not_found table key = ''key not found: '' @ table @ ''.'' @ key"

definition bolt_txn :: "'s bolt_api \<Rightarrow> ('s \<Rightarrow> (error option \<times> 's) go) \<Rightarrow> 's boltDB \<Rightarrow> (error option \<times> 's boltDB) go" where
  "bolt_txn api fn db =
     gbind (fn (bbd_db db)) (\<lambda>(err, tx).
       if err \<noteq> None then Ret (err, db)
       else let (err, s) = bt_Commit api (bbd_db db) tx in Ret (err, db\<lparr>bbd_db := s\<rparr>))"

definition bolt_Read :: "'s bolt_api \<Rightarrow> 's boltDB \<Rightarrow> string \<Rightarrow> string \<Rightarrow> string list \<Rightarrow> ((error + row) \<times> 's boltDB) go" where
  "bolt_Read api db table key fnames =
     (if \<not> bt_Bucket api (bbd_db db) (bytes_of table) then Ret (Inl (table_not_found table), db)
      else case bt_Get api (bbd_db db) (bytes_of table) (bytes_of key) of
             None \<Rightarrow> Ret (Inl (key_not_found table key), db)
           | Some row \<Rightarrow> gbind (RowCodec_Decode (bbd_r db) row fnames) (\<lambda>m. Ret (m, db)))"

fun bolt_scan_loop :: "rowcodec \<Rightarrow> string list \<Rightarrow> nat \<Rightarrow> byte list list \<Rightarrow> (error + row list) go" where
  "bolt_scan_loop r fnames 0 items = Ret (Inr [])"
| "bolt_scan_loop r fnames (Suc n) [] = Ret (Inr [])"
| "bolt_scan_loop r fnames (Suc n) (item # items) =
     ebind (RowCodec_Decode r item fnames) (\<lambda>m. ebind (bolt_scan_loop r fnames n items) (\<lambda>ms. Ret (Inr (m # ms))))"

definition bolt_Scan ::
    "'s bolt_api \<Rightarrow> 's boltDB \<Rightarrow> string \<Rightarrow> string \<Rightarrow> int \<Rightarrow> string list \<Rightarrow> ((error + row option list) \<times> 's boltDB) go" where
  "bolt_Scan api db table startKey cnt fnames =
     (if cnt < 0 then Panic ''makeslice: len out of range''
      else if \<not> bt_Bucket api (bbd_db db) (bytes_of table) then Ret (Inl (table_not_found table), db)
      else gbind (bolt_scan_loop (bbd_r db) fnames (nat cnt) (bt_Seek api (bbd_db db) (bytes_of table) (bytes_of startKey))) (\<lambda>res.
        Ret (map_sum id (\<lambda>ms. map Some ms @ replicate (nat cnt - length ms) None) res, db)))"

definition bolt_Update :: "'s bolt_api \<Rightarrow> 's boltDB \<Rightarrow> string \<Rightarrow> string \<Rightarrow> row \<Rightarrow> (error option \<times> 's boltDB) go" where
  "bolt_Update api db table key vals =
     bolt_txn api (\<lambda>tx.
       let bucket = bytes_of table in
       if \<not> bt_Bucket api tx bucket then Ret (Some (table_not_found table), tx)
       else case bt_Get api tx bucket (bytes_of key) of
              None \<Rightarrow> Ret (Some (key_not_found table key), tx)
            | Some value \<Rightarrow>
                gbind (RowCodec_Decode (bbd_r db) value []) (\<lambda>res. case res of
                    Inl err \<Rightarrow> Ret (Some err, tx)
                  | Inr data \<Rightarrow> (case RowCodec_Encode (bbd_r db) [] (merge_fields data vals) of
                        Inl err \<Rightarrow> Ret (Some err, tx)
                      | Inr buf \<Rightarrow> Ret (bt_Put api tx bucket (bytes_of key) buf)))) db"

definition bolt_Insert :: "'s bolt_api \<Rightarrow> 's boltDB \<Rightarrow> string \<Rightarrow> string \<Rightarrow> row \<Rightarrow> (error option \<times> 's boltDB) go" where
  "bolt_Insert api db table key vals =
     bolt_txn api (\<lambda>tx.
       let bucket = bytes_of table; (err, tx) = bt_CreateBucketIfNotExists api tx bucket in
       if err \<noteq> None then Ret (err, tx)
       else case RowCodec_Encode (bbd_r db) [] vals of
              Inl err \<Rightarrow> Ret (Some err, tx)
            | Inr buf \<Rightarrow> Ret (bt_Put api tx bucket (bytes_of key) buf)) db"

text \<open>A bucket that has become empty is dropped; the error of dropping it is ignored.\<close>

definition bolt_Delete :: "'s bolt_api \<Rightarrow> 's boltDB \<Rightarrow> string \<Rightarrow> string \<Rightarrow> (error option \<times> 's boltDB) go" where
  "bolt_Delete api db table key =
     bolt_txn api (\<lambda>tx.
       let bucket = bytes_of table in
       if \<not> bt_Bucket api tx bucket then Ret (None, tx)
       else let (err, tx) = bt_Delete api tx bucket (bytes_of key) in
            if err \<noteq> None then Ret (err, tx)
            else if bt_KeyN api tx bucket = 0 then Ret (None, snd (bt_DeleteBucket api tx bucket))
            else Ret (None, tx)) db"

definition bolt_db :: "'s bolt_api \<Rightarrow> 's boltDB db" where
  "bolt_db api =
     \<lparr>db_Close = (\<lambda>d. Ret (bolt_Close api d)), db_InitThread = (\<lambda>d i n. Ret d), db_CleanupThread = Ret,
      db_Read = bolt_Read api, db_Scan = bolt_Scan api, db_Update = bolt_Update api,
      db_Insert = bolt_Insert api, db_Delete = bolt_Delete api,
      db_Batch = None, db_Analyze = None, db_TypeName = ''*boltdb.boltDB''\<rparr>"

section \<open>The behaviour of the engine\<close>

text \<open>
  A state stands for the map \<open>view\<close> from bucket names to buckets, which are maps. \<open>KeyN\<close> of a bucket after a deletion is 0
  only when the bucket is empty. \<open>adm\<close> says which entries the engine takes: it refuses empty bucket names and
  keys, and keys and values that are too large.
\<close>

definition bolt_laws ::
    "'s bolt_api \<Rightarrow> ('s \<Rightarrow> bool) \<Rightarrow> ('s \<Rightarrow> byte list \<rightharpoonup> (byte list \<rightharpoonup> byte list)) \<Rightarrow> (byte list \<Rightarrow> byte list \<Rightarrow> bool) \<Rightarrow> bool" where
  "bolt_laws api ok view adm \<longleftrightarrow>
     (\<forall>s b. ok s \<longrightarrow> bt_Bucket api s b = (view s b \<noteq> None))
   \<and> (\<forall>s b m k. ok s \<longrightarrow> view s b = Some m \<longrightarrow> bt_Get api s b k = m k)
   \<and> (\<forall>s b. ok s \<longrightarrow> b \<noteq> [] \<longrightarrow> (\<exists>t. bt_CreateBucketIfNotExists api s b = (None, t) \<and> ok t
        \<and> view t = (view s)(b \<mapsto> (case view s b of None \<Rightarrow> Map.empty | Some m \<Rightarrow> m))))
   \<and> (\<forall>s b m k v. ok s \<longrightarrow> view s b = Some m \<longrightarrow> adm k v \<longrightarrow>
        (\<exists>t. bt_Put api s b k v = (None, t) \<and> ok t \<and> view t = (view s)(b \<mapsto> m(k \<mapsto> v))))
   \<and> (\<forall>s b m k. ok s \<longrightarrow> view s b = Some m \<longrightarrow>
        (\<exists>t. bt_Delete api s b k = (None, t) \<and> ok t \<and> view t = (view s)(b \<mapsto> m(k := None))
           \<and> (bt_KeyN api t b = 0 \<longrightarrow> m(k := None) = Map.empty)))
   \<and> (\<forall>s b m. ok s \<longrightarrow> view s b = Some m \<longrightarrow>
        (\<exists>t. bt_DeleteBucket api s b = (None, t) \<and> ok t \<and> view t = (view s)(b := None)))
   \<and> (\<forall>s t. ok s \<longrightarrow> ok t \<longrightarrow> (\<exists>s'. bt_Commit api s t = (None, s') \<and> ok s' \<and> view s' = view t))"

lemma bolt_lawsD:
  assumes "bolt_laws api ok view adm" and "ok s"
  shows bolt_Bucket_law: "bt_Bucket api s b = (view s b \<noteq> None)"
    and bolt_Get_law: "view s b = Some m \<Longrightarrow> bt_Get api s b k = m k"
    and bolt_Create_law: "b \<noteq> [] \<Longrightarrow> \<exists>t. bt_CreateBucketIfNotExists api s b = (None, t) \<and> ok t
        \<and> view t = (view s)(b \<mapsto> (case view s b of None \<Rightarrow> Map.empty | Some m \<Rightarrow> m))"
    and bolt_Put_law: "view s b = Some m \<Longrightarrow> adm k v \<Longrightarrow>
        \<exists>t. bt_Put api s b k v = (None, t) \<and> ok t \<and> view t = (view s)(b \<mapsto> m(k \<mapsto> v))"
    and bolt_Delete_law: "view s b = Some m \<Longrightarrow> \<exists>t. bt_Delete api s b k = (None, t) \<and> ok t \<and> view t = (view s)(b \<mapsto> m(k := None))
           \<and> (bt_KeyN api t b = 0 \<longrightarrow> m(k := None) = Map.empty)"
    and bolt_DeleteBucket_law: "view s b = Some m \<Longrightarrow> \<exists>t. bt_DeleteBucket api s b = (None, t) \<and> ok t \<and> view t = (view s)(b := None)"
    and bolt_Commit_law: "ok t \<Longrightarrow> \<exists>s'. bt_Commit api s t = (None, s') \<and> ok s' \<and> view s' = view t"
  using assms unfolding bolt_laws_def by (simp | blast)+

section \<open>The adapter keeps the contract of a database\<close>

definition bolt_rows :: "('s \<Rightarrow> byte list \<rightharpoonup> (byte list \<rightharpoonup> byte list)) \<Rightarrow> 's boltDB \<Rightarrow> table" where
  "bolt_rows view db = (\<lambda>(t, k). case view (bbd_db db) (bytes_of t) of
     None \<Rightarrow> None | Some m \<Rightarrow> map_option (row_of (bbd_r db)) (m (bytes_of k)))"

definition bolt_inv ::
    "'s bolt_api \<Rightarrow> ('s \<Rightarrow> bool) \<Rightarrow> ('s \<Rightarrow> byte list \<rightharpoonup> (byte list \<rightharpoonup> byte list)) \<Rightarrow> (byte list \<Rightarrow> byte list \<Rightarrow> bool) \<Rightarrow> 's boltDB \<Rightarrow> bool" where
  "bolt_inv api ok view adm db \<longleftrightarrow> bolt_laws api ok view adm \<and> ok (bbd_db db) \<and> (\<exists>n. codec_ok (bbd_r db) n)
     \<and> (\<forall>m\<in>ran (view (bbd_db db)). kv_wf (bbd_r db) m)"

definition bolt_accepts :: "(byte list \<Rightarrow> byte list \<Rightarrow> bool) \<Rightarrow> string \<Rightarrow> string \<Rightarrow> (string \<rightharpoonup> byte list) \<Rightarrow> bool" where
  "bolt_accepts adm t k = all_encodings (adm (bytes_of k))"

definition named_table :: "string \<Rightarrow> bool" where
  "named_table t \<longleftrightarrow> t \<noteq> []"

lemma bolt_invD:
  assumes "bolt_inv api ok view adm db"
  shows "bolt_laws api ok view adm" and "ok (bbd_db db)" and "\<exists>n. codec_ok (bbd_r db) n"
    and "view (bbd_db db) b = Some m \<Longrightarrow> kv_wf (bbd_r db) m"
  using assms by (auto simp: bolt_inv_def intro: ranI)

text \<open>A committed write replaces one bucket.\<close>

lemma bolt_inv_upd:
  assumes "bolt_inv api ok view adm db" and "ok s'" and "view s' = (view (bbd_db db))(b := e)" and "\<And>m. e = Some m \<Longrightarrow> kv_wf (bbd_r db) m"
  shows "bolt_inv api ok view adm (db\<lparr>bbd_db := s'\<rparr>)"
  using assms by (auto simp: bolt_inv_def ran_def split: if_splits)

lemma bolt_rows_upd:
  assumes "view s' = (view (bbd_db db))(bytes_of t := e)"
    and "\<And>k'. k' \<noteq> bytes_of k \<Longrightarrow> (case e of None \<Rightarrow> None | Some m \<Rightarrow> m k') = (case view (bbd_db db) (bytes_of t) of None \<Rightarrow> None | Some m \<Rightarrow> m k')"
  shows "bolt_rows view (db\<lparr>bbd_db := s'\<rparr>) =
    (bolt_rows view db)((t, k) := (case e of None \<Rightarrow> None | Some m \<Rightarrow> map_option (row_of (bbd_r db)) (m (bytes_of k))))"
proof
  fix tk :: "string \<times> string"
  obtain t' k' where tk: "tk = (t', k')" by fastforce
  show "bolt_rows view (db\<lparr>bbd_db := s'\<rparr>) tk =
    ((bolt_rows view db)((t, k) := (case e of None \<Rightarrow> None | Some m \<Rightarrow> map_option (row_of (bbd_r db)) (m (bytes_of k))))) tk"
    using assms(1) assms(2) [of "bytes_of k'"] by (auto simp: bolt_rows_def tk split: option.splits)
qed

lemma bolt_put_commit:
  assumes "bolt_inv api ok view adm db" and "ok s" and "view s = (view (bbd_db db))(bytes_of t \<mapsto> m)"
    and "\<And>k'. m k' = (case view (bbd_db db) (bytes_of t) of None \<Rightarrow> None | Some m \<Rightarrow> m k')" and "adm (bytes_of k) bs" and "row_wf (bbd_r db) bs"
  shows "\<exists>tx s'. bt_Put api s (bytes_of t) (bytes_of k) bs = (None, tx) \<and> bt_Commit api (bbd_db db) tx = (None, s')
    \<and> bolt_inv api ok view adm (db\<lparr>bbd_db := s'\<rparr>)
    \<and> bolt_rows view (db\<lparr>bbd_db := s'\<rparr>) = (bolt_rows view db)((t, k) \<mapsto> row_of (bbd_r db) bs)"
proof -
  note inv = bolt_invD [OF assms(1)]
  obtain tx where tx: "bt_Put api s (bytes_of t) (bytes_of k) bs = (None, tx)" "ok tx"
      "view tx = (view (bbd_db db))(bytes_of t \<mapsto> m(bytes_of k \<mapsto> bs))"
    using bolt_Put_law [OF inv(1) assms(2), of "bytes_of t" m "bytes_of k" bs] assms(3,5) by auto
  obtain s' where s': "bt_Commit api (bbd_db db) tx = (None, s')" "ok s'" "view s' = (view (bbd_db db))(bytes_of t \<mapsto> m(bytes_of k \<mapsto> bs))"
    using bolt_Commit_law [OF inv(1,2) tx(2)] tx(3) by auto
  have "kv_wf (bbd_r db) m"
  proof (cases "view (bbd_db db) (bytes_of t)")
    case None
    then have "m = Map.empty" using assms(4) by auto
    then show ?thesis by (simp add: kv_wf_def)
  next
    case (Some m')
    then have "m = m'" using assms(4) by auto
    then show ?thesis using inv(4) Some by auto
  qed
  then have "kv_wf (bbd_r db) (m(bytes_of k \<mapsto> bs))" using assms(6) by (intro kv_wf_upd) auto
  then have "bolt_inv api ok view adm (db\<lparr>bbd_db := s'\<rparr>)" using bolt_inv_upd [where view = view, OF assms(1) s'(2,3)] by auto
  moreover have "bolt_rows view (db\<lparr>bbd_db := s'\<rparr>) = (bolt_rows view db)((t, k) \<mapsto> row_of (bbd_r db) bs)"
    using bolt_rows_upd [where view = view, OF s'(3), of k] assms(4) by simp
  ultimately show ?thesis using tx(1) s'(1) by auto
qed

lemma bolt_Insert_ok:
  assumes inv: "bolt_inv api ok view adm db" and "named_table t" and "row_fits (bbd_r db) vs" and "bolt_accepts adm t k (map_of vs)"
  shows "\<exists>db'. bolt_Insert api db t k vs = Ret (None, db') \<and> bolt_inv api ok view adm db' \<and> bbd_r db' = bbd_r db
    \<and> bolt_rows view db' = (bolt_rows view db)((t, k) \<mapsto> map_of vs)"
proof -
  note I = bolt_invD [OF inv]
  obtain n where "codec_ok (bbd_r db) n" using I(3) by blast
  then obtain bs where bs: "RowCodec_Encode (bbd_r db) [] vs = Inr bs" "row_wf (bbd_r db) bs" "row_of (bbd_r db) bs = map_of vs"
    using encode_row [OF _ assms(3)] by blast
  have adm: "adm (bytes_of k) bs"
    using assms(3,4) bs(1) by (auto simp: bolt_accepts_def all_encodings_def row_fits_def)
  have b: "bytes_of t \<noteq> []" using assms(2) by (simp add: named_table_def bytes_of_def)
  obtain s where s: "bt_CreateBucketIfNotExists api (bbd_db db) (bytes_of t) = (None, s)" "ok s"
      "view s = (view (bbd_db db))(bytes_of t \<mapsto> (case view (bbd_db db) (bytes_of t) of None \<Rightarrow> Map.empty | Some m \<Rightarrow> m))"
    using bolt_Create_law [OF I(1,2) b] by auto
  have same: "(case view (bbd_db db) (bytes_of t) of None \<Rightarrow> Map.empty | Some m \<Rightarrow> m) k'
      = (case view (bbd_db db) (bytes_of t) of None \<Rightarrow> None | Some m \<Rightarrow> m k')" for k'
    by (simp split: option.split)
  obtain tx s' where w: "bt_Put api s (bytes_of t) (bytes_of k) bs = (None, tx)" "bt_Commit api (bbd_db db) tx = (None, s')"
      "bolt_inv api ok view adm (db\<lparr>bbd_db := s'\<rparr>)"
      "bolt_rows view (db\<lparr>bbd_db := s'\<rparr>) = (bolt_rows view db)((t, k) \<mapsto> row_of (bbd_r db) bs)"
    using bolt_put_commit [where view = view, OF inv s(2,3) same adm bs(2)] by blast
  have "bolt_Insert api db t k vs = Ret (None, db\<lparr>bbd_db := s'\<rparr>)" by (simp add: bolt_Insert_def bolt_txn_def s(1) bs(1) w(1,2))
  then show ?thesis using w(3,4) bs(3) by auto
qed

lemma bolt_stored:
  assumes "bolt_inv api ok view adm db" and "bolt_rows view db (t, k) = Some row"
  shows "\<exists>m bs. view (bbd_db db) (bytes_of t) = Some m \<and> bt_Bucket api (bbd_db db) (bytes_of t)
    \<and> bt_Get api (bbd_db db) (bytes_of t) (bytes_of k) = Some bs \<and> row_wf (bbd_r db) bs \<and> row_of (bbd_r db) bs = row"
proof -
  note I = bolt_invD [OF assms(1)]
  obtain m bs where m: "view (bbd_db db) (bytes_of t) = Some m" "m (bytes_of k) = Some bs" "row_of (bbd_r db) bs = row"
    using assms(2) by (auto simp: bolt_rows_def split: option.splits)
  then have "row_wf (bbd_r db) bs" using I(4) [OF m(1)] by (auto simp: kv_wf_def intro: ranI)
  then show ?thesis using m bolt_Bucket_law [OF I(1,2)] bolt_Get_law [OF I(1,2) m(1)] by auto
qed

lemma bolt_Update_ok:
  assumes inv: "bolt_inv api ok view adm db" and "row_fits (bbd_r db) vs"
    and "bolt_rows view db (t, k) = Some m" and "bolt_accepts adm t k (m ++ map_of vs)"
  shows "\<exists>db'. bolt_Update api db t k vs = Ret (None, db') \<and> bolt_inv api ok view adm db' \<and> bbd_r db' = bbd_r db
    \<and> bolt_rows view db' = (bolt_rows view db)((t, k) \<mapsto> m ++ map_of vs)"
proof -
  note I = bolt_invD [OF inv]
  obtain n where n: "codec_ok (bbd_r db) n" using I(3) by blast
  obtain mb old where old: "view (bbd_db db) (bytes_of t) = Some mb" "bt_Bucket api (bbd_db db) (bytes_of t)"
      "bt_Get api (bbd_db db) (bytes_of t) (bytes_of k) = Some old" "row_wf (bbd_r db) old" "row_of (bbd_r db) old = m"
    using bolt_stored [OF inv assms(3)] by blast
  obtain data bs where d: "RowCodec_Decode (bbd_r db) old [] = Ret (Inr data)"
      "RowCodec_Encode (bbd_r db) [] (merge_fields data vs) = Inr bs" "row_wf (bbd_r db) bs"
      "row_of (bbd_r db) bs = m ++ map_of vs" "distinct (map fst (merge_fields data vs))"
      "map_of (merge_fields data vs) = m ++ map_of vs"
    using merge_row [OF n old(4) assms(2)] old(5) by metis
  have adm: "adm (bytes_of k) bs" using assms(4) d(2,5,6) by (auto simp: bolt_accepts_def all_encodings_def)
  have v: "view (bbd_db db) = (view (bbd_db db))(bytes_of t \<mapsto> mb)" using old(1) by auto
  obtain tx s' where w: "bt_Put api (bbd_db db) (bytes_of t) (bytes_of k) bs = (None, tx)" "bt_Commit api (bbd_db db) tx = (None, s')"
      "bolt_inv api ok view adm (db\<lparr>bbd_db := s'\<rparr>)"
      "bolt_rows view (db\<lparr>bbd_db := s'\<rparr>) = (bolt_rows view db)((t, k) \<mapsto> row_of (bbd_r db) bs)"
    using bolt_put_commit [where view = view, OF inv I(2) v _ adm d(3)] old(1) by auto
  have "bolt_Update api db t k vs = Ret (None, db\<lparr>bbd_db := s'\<rparr>)"
    by (simp add: bolt_Update_def bolt_txn_def Let_def old(2,3) d(1,2) w(1,2))
  then show ?thesis using w(3,4) d(4) by auto
qed

lemma bolt_Delete_ok:
  assumes inv: "bolt_inv api ok view adm db" and row: "bolt_rows view db (t, k) = Some row"
  shows "\<exists>db'. bolt_Delete api db t k = Ret (None, db') \<and> bolt_inv api ok view adm db' \<and> bbd_r db' = bbd_r db
    \<and> bolt_rows view db' = (bolt_rows view db)((t, k) := None)"
proof -
  note I = bolt_invD [OF inv]
  obtain m where m: "view (bbd_db db) (bytes_of t) = Some m" "bt_Bucket api (bbd_db db) (bytes_of t)"
    using bolt_stored [OF inv row] by blast
  let ?m = "m(bytes_of k := None)"
  obtain tx where tx: "bt_Delete api (bbd_db db) (bytes_of t) (bytes_of k) = (None, tx)" "ok tx" "view tx = (view (bbd_db db))(bytes_of t \<mapsto> ?m)"
      and empty: "bt_KeyN api tx (bytes_of t) = 0 \<Longrightarrow> ?m = Map.empty"
    using bolt_Delete_law [OF I(1,2) m(1)] by metis
  have wf: "kv_wf (bbd_r db) ?m" using I(4) [OF m(1)] by (intro kv_wf_upd) auto
  show ?thesis
  proof (cases "bt_KeyN api tx (bytes_of t) = 0")
    case False
    obtain s' where s': "bt_Commit api (bbd_db db) tx = (None, s')" "ok s'" "view s' = (view (bbd_db db))(bytes_of t \<mapsto> ?m)"
      using bolt_Commit_law [OF I(1,2) tx(2)] tx(3) by auto
    have "bolt_Delete api db t k = Ret (None, db\<lparr>bbd_db := s'\<rparr>)"
      using False by (simp add: bolt_Delete_def bolt_txn_def Let_def m(2) tx(1) s'(1))
    then show ?thesis using bolt_inv_upd [where view = view, OF inv s'(2,3)] bolt_rows_upd [where view = view, OF s'(3), of k] wf m(1) by auto
  next
    case True
    obtain tx2 where tx2: "bt_DeleteBucket api tx (bytes_of t) = (None, tx2)" "ok tx2" "view tx2 = (view (bbd_db db))(bytes_of t := None)"
      using bolt_DeleteBucket_law [OF I(1) tx(2), of "bytes_of t"] tx(3) by auto
    obtain s' where s': "bt_Commit api (bbd_db db) tx2 = (None, s')" "ok s'" "view s' = (view (bbd_db db))(bytes_of t := None)"
      using bolt_Commit_law [OF I(1,2) tx2(2)] tx2(3) by auto
    have "m k' = None" if "k' \<noteq> bytes_of k" for k' using fun_cong [OF empty [OF True], of k'] that by simp
    moreover have "bolt_Delete api db t k = Ret (None, db\<lparr>bbd_db := s'\<rparr>)"
      using True by (simp add: bolt_Delete_def bolt_txn_def Let_def m(2) tx(1) tx2(1) s'(1))
    ultimately show ?thesis using bolt_inv_upd [where view = view, OF inv s'(2,3)] bolt_rows_upd [where view = view, OF s'(3), of k] m(1) by auto
  qed
qed

lemma bolt_Read_ok:
  assumes inv: "bolt_inv api ok view adm db" and "set fs \<subseteq> set (codec_fields (bbd_r db))" and "bolt_rows view db (t, k) = Some m"
  shows "\<exists>res. bolt_Read api db t k fs = Ret (Inr res, db) \<and> map_of res = (if fs = [] then m else m |` set fs) \<and> distinct (map fst res)"
proof -
  obtain bs where bs: "bt_Bucket api (bbd_db db) (bytes_of t)" "bt_Get api (bbd_db db) (bytes_of t) (bytes_of k) = Some bs"
      "row_wf (bbd_r db) bs" "row_of (bbd_r db) bs = m"
    using bolt_stored [OF inv assms(3)] by blast
  then show ?thesis using decode_row [OF bs(3) assms(2)] by (auto simp: bolt_Read_def)
qed

interpretation bolt: row_db "bolt_db api" "bolt_inv api ok view adm" "bolt_rows view"
    "\<lambda>db. set (codec_fields (bbd_r db))" named_table "bolt_accepts adm" for api ok view adm
proof
  show "\<exists>d'. db_Insert (bolt_db api) d t k v = Ret (None, d') \<and> bolt_inv api ok view adm d'
      \<and> set (codec_fields (bbd_r d')) = set (codec_fields (bbd_r d)) \<and> bolt_rows view d' = (bolt_rows view d)((t, k) \<mapsto> map_of v)"
    if "bolt_inv api ok view adm d" "named_table t" "row_ok (set (codec_fields (bbd_r d))) v" "bolt_accepts adm t k (map_of v)" for d t v k
    using bolt_Insert_ok [OF that(1,2) _ that(4)] that(3) by (auto simp: bolt_db_def row_ok_fits)
  show "\<exists>d'. db_Update (bolt_db api) d t k v = Ret (None, d') \<and> bolt_inv api ok view adm d'
      \<and> set (codec_fields (bbd_r d')) = set (codec_fields (bbd_r d)) \<and> bolt_rows view d' = (bolt_rows view d)((t, k) \<mapsto> m ++ map_of v)"
    if "bolt_inv api ok view adm d" "named_table t" "row_ok (set (codec_fields (bbd_r d))) v" "bolt_rows view d (t, k) = Some m"
      "bolt_accepts adm t k (m ++ map_of v)" for d t v k m
    using bolt_Update_ok [OF that(1) _ that(4,5)] that(3) by (auto simp: bolt_db_def row_ok_fits)
  show "\<exists>d'. db_Delete (bolt_db api) d t k = Ret (None, d') \<and> bolt_inv api ok view adm d'
      \<and> set (codec_fields (bbd_r d')) = set (codec_fields (bbd_r d)) \<and> bolt_rows view d' = (bolt_rows view d)((t, k) := None)"
    if "bolt_inv api ok view adm d" "named_table t" "bolt_rows view d (t, k) = Some m" for d t k m
    using bolt_Delete_ok [OF that(1,3)] by (auto simp: bolt_db_def)
  show "\<exists>res d'. db_Read (bolt_db api) d t k fs = Ret (Inr res, d') \<and> bolt_inv api ok view adm d'
      \<and> set (codec_fields (bbd_r d')) = set (codec_fields (bbd_r d)) \<and> bolt_rows view d' = bolt_rows view d
      \<and> map_of res = (if fs = [] then m else m |` set fs) \<and> distinct (map fst res)"
    if "bolt_inv api ok view adm d" "named_table t" "set fs \<subseteq> set (codec_fields (bbd_r d))" "bolt_rows view d (t, k) = Some m" for d t fs k m
    using bolt_Read_ok [OF that(1,3,4)] that(1) by (auto simp: bolt_db_def)
qed

section \<open>An engine\<close>

text \<open>An engine in memory that behaves as documented: buckets and their entries as association lists.\<close>

type_synonym mem_buckets = "(byte list \<times> (byte list \<times> byte list) list) list"

definition mem_bucket :: "mem_buckets \<Rightarrow> byte list \<Rightarrow> (byte list \<times> byte list) list" where
  "mem_bucket s b = (case map_of s b of Some m \<Rightarrow> m | None \<Rightarrow> [])"

definition mem_view :: "mem_buckets \<Rightarrow> byte list \<rightharpoonup> (byte list \<rightharpoonup> byte list)" where
  "mem_view s b = map_option map_of (map_of s b)"

definition mem_bolt :: "mem_buckets bolt_api" where
  "mem_bolt =
     \<lparr>bt_Bucket = (\<lambda>s b. map_of s b \<noteq> None), bt_Get = (\<lambda>s b k. map_of (mem_bucket s b) k),
      bt_Seek = (\<lambda>s b k. map (\<lambda>k'. the (map_of (mem_bucket s b) k')) (filter (\<lambda>k'. k \<le> k') (sort (remdups (map fst (mem_bucket s b)))))),
      bt_CreateBucketIfNotExists = (\<lambda>s b. (None, AList.update b (mem_bucket s b) s)),
      bt_Put = (\<lambda>s b k v. (None, AList.update b (AList.update k v (mem_bucket s b)) s)),
      bt_Delete = (\<lambda>s b k. (None, AList.update b (AList.delete k (mem_bucket s b)) s)),
      bt_KeyN = (\<lambda>s b. int (length (mem_bucket s b))), bt_DeleteBucket = (\<lambda>s b. (None, AList.delete b s)),
      bt_Commit = (\<lambda>s t. (None, t)), bt_Close = (\<lambda>s. (None, s))\<rparr>"

lemma mem_view_update [simp]: "mem_view (AList.update b m s) = (mem_view s)(b \<mapsto> map_of m)"
  by (auto simp: mem_view_def update_conv' fun_eq_iff)

lemma mem_view_delete [simp]: "mem_view (AList.delete b s) = (mem_view s)(b := None)"
  by (auto simp: mem_view_def delete_conv' fun_eq_iff)

lemma map_of_mem_bucket: "map_of (mem_bucket s b) = (case mem_view s b of None \<Rightarrow> Map.empty | Some m \<Rightarrow> m)"
  by (simp add: mem_bucket_def mem_view_def split: option.split)

lemma mem_bucket_update [simp]: "mem_bucket (AList.update b m s) b = m"
  by (simp add: mem_bucket_def update_conv')

lemma mem_view_None [simp]: "mem_view s b = None \<longleftrightarrow> map_of s b = None"
  by (simp add: mem_view_def)

lemma delete_empty: "AList.delete k m = [] \<Longrightarrow> (map_of m)(k := None) = Map.empty"
  by (metis delete_conv' map_of.simps(1))

lemma mem_bolt_laws: "bolt_laws mem_bolt (\<lambda>s. True) mem_view (\<lambda>k v. True)"
  unfolding bolt_laws_def mem_bolt_def
  by (auto simp: map_of_mem_bucket update_conv' delete_conv' dest: delete_empty split: option.splits)

section \<open>Properties\<close>

text \<open>
  C14. The BoltDB adapter refines a table of rows: on a freshly created, empty database over an engine that behaves as
  documented, every admissible sequence of inserts, updates, deletes and reads returns without error what the
  same sequence returns on a map from table and key to the row, for every non-empty table name; deleting the
  last row of a table, which drops its bucket, loses nothing else.
\<close>

theorem bolt_refines_table:
  assumes "bolt_laws api ok view adm" and "bolt_Create Open p = Ret (Inr db)"
    and "ok (bbd_db db)" and "view (bbd_db db) = Map.empty" and "GetInt64 p prop_FieldCount prop_FieldCountDefault < 2 ^ 63"
    and "ops_ok (set (codec_fields (bbd_r db))) named_table (bolt_accepts adm) ops Map.empty"
  shows "\<exists>db'. db_run (bolt_db api) ops db = Ret (fst (table_run ops Map.empty), db')
    \<and> bolt_rows view db' = snd (table_run ops Map.empty)"
proof -
  have r: "NewRowCodec p = Ret (bbd_r db)"
    using assms(2) by (auto simp: bolt_Create_def Let_def gbind_eq_Ret_iff split: sum.splits)
  have "bolt_inv api ok view adm db"
    using assms NewRowCodec_codec_ok [OF r assms(5)] by (auto simp: bolt_inv_def)
  moreover have "bolt_rows view db = Map.empty" using assms(4) by (auto simp: bolt_rows_def)
  ultimately show ?thesis using bolt.run_refines [of api ok view adm db ops] assms(6) by auto
qed

definition sample_bolt :: "mem_buckets boltDB" where
  "sample_bolt = \<lparr>bbd_p = props_of [(''fieldcount'', 1)] [], bbd_db = [],
     bbd_r = \<lparr>fieldIndices = [(''field0'', 0)], codec_fields = [''field0'']\<rparr>\<rparr>"

lemma sample_bolt_created:
  "bolt_Create (\<lambda>removed opts. Inr []) (props_of [(''fieldcount'', 1)] []) = Ret (Inr sample_bolt)"
  by (simp add: bolt_Create_def NewRowCodec_def allFields_def createFieldIndices_def prop_defs upto.simps sample_bolt_def Let_def)

text \<open>Table names with a colon stay apart, and dropping the bucket of \<open>a:b\<close> leaves table \<open>a\<close> alone.\<close>

theorem bolt_refines_table_witness:
  "\<exists>db'. db_run (bolt_db mem_bolt)
       [OpInsert ''a'' ''b:c'' [(''field0'', [1])], OpInsert ''a:b'' ''c'' [(''field0'', [2])], OpDelete ''a:b'' ''c'', OpRead ''a'' ''b:c'' []] sample_bolt
     = Ret ([Done None, Done None, Done None, Row (Inr [''field0'' \<mapsto> [1]])], db')"
proof -
  let ?ops = "[OpInsert ''a'' ''b:c'' [(''field0'', [1])], OpInsert ''a:b'' ''c'' [(''field0'', [2])], OpDelete ''a:b'' ''c'', OpRead ''a'' ''b:c'' []]"
  have "ops_ok (set (codec_fields (bbd_r sample_bolt))) named_table (bolt_accepts (\<lambda>k v. True)) ?ops Map.empty"
    by (simp add: named_table_def row_ok_def bolt_accepts_def all_encodings_def sample_bolt_def)
  moreover have "mem_view (bbd_db sample_bolt) = Map.empty" by (auto simp: sample_bolt_def mem_view_def)
  ultimately obtain db' where "db_run (bolt_db mem_bolt) ?ops sample_bolt = Ret (fst (table_run ?ops Map.empty), db')"
    using bolt_refines_table [OF mem_bolt_laws sample_bolt_created, of ?ops] by (auto simp: prop_defs simp del: db_run.simps)
  moreover have "fst (table_run ?ops Map.empty) = [Done None, Done None, Done None, Row (Inr [''field0'' \<mapsto> [1]])]" by simp
  ultimately show ?thesis by metis
qed

end
