(* ===== verification/Tikv.thy ===== *)
theory Tikv
  imports RowStore GoStrings Props
begin

text \<open>
  The TiKV adapters, \<^verbatim>\<open>db/tikv/db.go\<close>, \<^verbatim>\<open>db/tikv/raw.go\<close> and \<^verbatim>\<open>db/tikv/txn.go\<close>: the raw key-value client and the transactional
  client, with their single and batch operations. The clients (\<open>tikv/client-go\<close>) are parameters; \<open>raw_laws\<close> and
  \<open>txn_laws\<close> state their documented behaviour.
\<close>

section \<open>The raw client\<close>

text \<open>A missing key is a nil value.\<close>

record 's rawkv_api =
  raw_Get :: "'s \<Rightarrow> byte list \<Rightarrow> error + byte list option"
  raw_BatchGet :: "'s \<Rightarrow> byte list list \<Rightarrow> error + byte list option list"
  raw_Scan :: "'s \<Rightarrow> byte list \<Rightarrow> int \<Rightarrow> error + byte list option list"
  raw_Put :: "'s \<Rightarrow> byte list \<Rightarrow> byte list \<Rightarrow> error option \<times> 's"
  raw_BatchPut :: "'s \<Rightarrow> byte list list \<Rightarrow> byte list list \<Rightarrow> error option \<times> 's"
  raw_Delete :: "'s \<Rightarrow> byte list \<Rightarrow> error option \<times> 's"
  raw_BatchDelete :: "'s \<Rightarrow> byte list list \<Rightarrow> error option \<times> 's"
  raw_Close :: "'s \<Rightarrow> error option \<times> 's"

record 's rawDB =
  rdb_db :: 's
  rdb_r :: rowcodec

text \<open>
  \<open>APIVersion_value\<close> is the table of names of the protocol buffers; \<open>NewClient\<close> connects to the placement drivers with
  the version found there.
\<close>

definition upper_char :: "char \<Rightarrow> char" where
  "upper_char c = (let n = of_char c :: nat in if 97 \<le> n \<and> n \<le> 122 then char_of (n - 32) else c)"

definition createRawDB ::
    "int smap \<Rightarrow> (string list \<Rightarrow> int \<Rightarrow> error + 's) \<Rightarrow> props \<Rightarrow> (error + 's rawDB) go" where
  "createRawDB APIVersion_value NewClient p =
     (let pdAddr = GetString p ''tikv.pd'' ''127.0.0.1:2379'';
          apiVersionStr = map upper_char (GetString p ''tikv.apiversion'' ''V1'')
      in case map_of APIVersion_value apiVersionStr of
           None \<Rightarrow> Ret (Inl (''Invalid tikv apiversion '' @ apiVersionStr @ ''.''))
         | Some apiVersion \<Rightarrow> (case NewClient (split_on (CHR '','') pdAddr) apiVersion of
               Inl err \<Rightarrow> Ret (Inl err)
             | Inr db \<Rightarrow> gbind (NewRowCodec p) (\<lambda>r. Ret (Inr \<lparr>rdb_db = db, rdb_r = r\<rparr>))))"

definition put_db :: "error option \<times> 's \<Rightarrow> 's rawDB \<Rightarrow> error option \<times> 's rawDB" where
  "put_db res db = (fst res, db\<lparr>rdb_db := snd res\<rparr>)"

definition rawDB_Close :: "'s rawkv_api \<Rightarrow> 's rawDB \<Rightarrow> error option \<times> 's rawDB" where
  "rawDB_Close api db = put_db (raw_Close api (rdb_db db)) db"

definition rawDB_Read :: "'s rawkv_api \<Rightarrow> 's rawDB \<Rightarrow> string \<Rightarrow> string \<Rightarrow> string list \<Rightarrow> ((error + row) \<times> 's rawDB) go" where
  "rawDB_Read api db table key fnames =
     (case raw_Get api (rdb_db db) (getRowKey table key) of
        Inl err \<Rightarrow> Ret (Inl err, db)
      | Inr None \<Rightarrow> Ret (Inr [], db)
      | Inr (Some row) \<Rightarrow> gbind (RowCodec_Decode (rdb_r db) row fnames) (\<lambda>m. Ret (m, db)))"

text \<open>The loop of \<open>BatchRead\<close>: an empty value is a nil row, and so is one that does not decode, whose error is dropped.\<close>

fun decode_values :: "rowcodec \<Rightarrow> string list \<Rightarrow> byte list option list \<Rightarrow> row option list go" where
  "decode_values r fnames [] = Ret []"
| "decode_values r fnames (value # vs) =
     gbind (case value of
         Some bs \<Rightarrow> if bs = [] then Ret None
           else gbind (RowCodec_Decode r bs fnames) (\<lambda>res. Ret (case res of Inr m \<Rightarrow> Some m | Inl err \<Rightarrow> None))
       | None \<Rightarrow> Ret None) (\<lambda>m.
     gbind (decode_values r fnames vs) (\<lambda>ms. Ret (m # ms)))"

definition rawDB_BatchRead ::
    "'s rawkv_api \<Rightarrow> 's rawDB \<Rightarrow> string \<Rightarrow> string list \<Rightarrow> string list \<Rightarrow> ((error + row option list) \<times> 's rawDB) go" where
  "rawDB_BatchRead api db table keys fnames =
     (case raw_BatchGet api (rdb_db db) (map (getRowKey table) keys) of
        Inl err \<Rightarrow> Ret (Inl err, db)
      | Inr vs \<Rightarrow>
          if length keys < length vs then Panic ''index out of range''
          else gbind (decode_values (rdb_r db) fnames vs) (\<lambda>ms.
                 Ret (Inr (ms @ replicate (length keys - length vs) None), db)))"

text \<open>The loop of \<open>Scan\<close> stops at the first row that does not decode.\<close>

fun decode_rows :: "rowcodec \<Rightarrow> string list \<Rightarrow> byte list option list \<Rightarrow> (error + row option list) go" where
  "decode_rows r fnames [] = Ret (Inr [])"
| "decode_rows r fnames (None # rs) = ebind (decode_rows r fnames rs) (\<lambda>ms. Ret (Inr (None # ms)))"
| "decode_rows r fnames (Some row # rs) =
     ebind (RowCodec_Decode r row fnames) (\<lambda>v. ebind (decode_rows r fnames rs) (\<lambda>ms. Ret (Inr (Some v # ms))))"

definition rawDB_Scan ::
    "'s rawkv_api \<Rightarrow> 's rawDB \<Rightarrow> string \<Rightarrow> string \<Rightarrow> int \<Rightarrow> string list \<Rightarrow> ((error + row option list) \<times> 's rawDB) go" where
  "rawDB_Scan api db table startKey cnt fnames =
     (case raw_Scan api (rdb_db db) (getRowKey table startKey) cnt of
        Inl err \<Rightarrow> Ret (Inl err, db)
      | Inr rs \<Rightarrow> gbind (decode_rows (rdb_r db) fnames rs) (\<lambda>res. Ret (res, db)))"

definition rawDB_Insert :: "'s rawkv_api \<Rightarrow> 's rawDB \<Rightarrow> string \<Rightarrow> string \<Rightarrow> row \<Rightarrow> (error option \<times> 's rawDB) go" where
  "rawDB_Insert api db table key vals =
     (case RowCodec_Encode (rdb_r db) [] vals of
        Inl err \<Rightarrow> Ret (Some err, db)
      | Inr buf \<Rightarrow> Ret (put_db (raw_Put api (rdb_db db) (getRowKey table key) buf) db))"

text \<open>An error of the lookup is dropped, and a missing row is decoded as an empty one.\<close>

definition rawDB_Update :: "'s rawkv_api \<Rightarrow> 's rawDB \<Rightarrow> string \<Rightarrow> string \<Rightarrow> row \<Rightarrow> (error option \<times> 's rawDB) go" where
  "rawDB_Update api db table key vals =
     (case raw_Get api (rdb_db db) (getRowKey table key) of
        Inl err \<Rightarrow> Ret (None, db)
      | Inr row \<Rightarrow>
          gbind (RowCodec_Decode (rdb_r db) (case row of Some bs \<Rightarrow> bs | None \<Rightarrow> []) []) (\<lambda>res. case res of
              Inl err \<Rightarrow> Ret (Some err, db)
            | Inr data \<Rightarrow> rawDB_Insert api db table key (merge_fields data vals)))"

text \<open>The loop shared by the batch writes: \<open>values[i]\<close> panics when there are fewer rows than keys.\<close>

fun encode_batch :: "rowcodec \<Rightarrow> string \<Rightarrow> string list \<Rightarrow> row list \<Rightarrow> (error + (byte list \<times> byte list) list) go" where
  "encode_batch r table [] vals = Ret (Inr [])"
| "encode_batch r table (key # keys) [] = Panic ''index out of range''"
| "encode_batch r table (key # keys) (v # vals) =
     (case RowCodec_Encode r [] v of
        Inl err \<Rightarrow> Ret (Inl err)
      | Inr rawData \<Rightarrow> ebind (encode_batch r table keys vals) (\<lambda>kvs. Ret (Inr ((getRowKey table key, rawData) # kvs))))"

definition rawDB_BatchPut :: "'s rawkv_api \<Rightarrow> 's rawDB \<Rightarrow> string \<Rightarrow> string list \<Rightarrow> row list \<Rightarrow> (error option \<times> 's rawDB) go" where
  "rawDB_BatchPut api db table keys vals =
     gbind (encode_batch (rdb_r db) table keys vals) (\<lambda>res. case res of
         Inl err \<Rightarrow> Ret (Some err, db)
       | Inr kvs \<Rightarrow> Ret (put_db (raw_BatchPut api (rdb_db db) (map fst kvs) (map snd kvs)) db))"

definition rawDB_BatchInsert :: "'s rawkv_api \<Rightarrow> 's rawDB \<Rightarrow> string \<Rightarrow> string list \<Rightarrow> row list \<Rightarrow> (error option \<times> 's rawDB) go" where
  "rawDB_BatchInsert = rawDB_BatchPut"

definition rawDB_BatchUpdate :: "'s rawkv_api \<Rightarrow> 's rawDB \<Rightarrow> string \<Rightarrow> string list \<Rightarrow> row list \<Rightarrow> (error option \<times> 's rawDB) go" where
  "rawDB_BatchUpdate = rawDB_BatchPut"

definition rawDB_Delete :: "'s rawkv_api \<Rightarrow> 's rawDB \<Rightarrow> string \<Rightarrow> string \<Rightarrow> (error option \<times> 's rawDB) go" where
  "rawDB_Delete api db table key = Ret (put_db (raw_Delete api (rdb_db db) (getRowKey table key)) db)"

definition rawDB_BatchDelete :: "'s rawkv_api \<Rightarrow> 's rawDB \<Rightarrow> string \<Rightarrow> string list \<Rightarrow> (error option \<times> 's rawDB) go" where
  "rawDB_BatchDelete api db table keys = Ret (put_db (raw_BatchDelete api (rdb_db db) (map (getRowKey table) keys)) db)"

definition rawDB_db :: "'s rawkv_api \<Rightarrow> 's rawDB db" where
  "rawDB_db api =
     \<lparr>db_Close = (\<lambda>d. Ret (rawDB_Close api d)), db_InitThread = (\<lambda>d i n. Ret d), db_CleanupThread = Ret,
      db_Read = rawDB_Read api, db_Scan = rawDB_Scan api, db_Update = rawDB_Update api,
      db_Insert = rawDB_Insert api, db_Delete = rawDB_Delete api,
      db_Batch = Some \<lparr>db_BatchInsert = rawDB_BatchInsert api, db_BatchRead = rawDB_BatchRead api,
                       db_BatchUpdate = rawDB_BatchUpdate api, db_BatchDelete = rawDB_BatchDelete api\<rparr>,
      db_Analyze = None, db_TypeName = ''*tikv.rawDB''\<rparr>"

section \<open>The transactional client\<close>

text \<open>
  \<open>tx_Begin\<close> may fail; a transaction starts from the state of the store. \<open>tx_Get\<close> delivers \<open>Inr None\<close> for \<open>ErrNotFound\<close>. \<open>tx_Iter\<close>
  delivers the values from a key on, each with the error of the \<open>Next\<close> that follows it. A deferred \<open>Rollback\<close> has
  no effect after a commit and otherwise drops the transaction.
\<close>

record 's txnkv_api =
  tx_Begin :: "'s \<Rightarrow> error option"
  tx_Get :: "'s \<Rightarrow> byte list \<Rightarrow> error + byte list option"
  tx_Iter :: "'s \<Rightarrow> byte list \<Rightarrow> error + (byte list \<times> error option) list"
  tx_Set :: "'s \<Rightarrow> byte list \<Rightarrow> byte list \<Rightarrow> error option \<times> 's"
  tx_Delete :: "'s \<Rightarrow> byte list \<Rightarrow> error option \<times> 's"
  tx_Commit :: "'s \<Rightarrow> 's \<Rightarrow> error option \<times> 's"
  tx_Close :: "'s \<Rightarrow> error option \<times> 's"

record 's txnDB =
  tdb_db :: 's
  tdb_r :: rowcodec
  tdb_asyncCommit :: bool
  tdb_onePC :: bool

definition createTxnDB :: "(string list \<Rightarrow> error + 's) \<Rightarrow> props \<Rightarrow> (error + 's txnDB) go" where
  "createTxnDB NewClient p =
     (let pdAddr = GetString p ''tikv.pd'' ''127.0.0.1:2379'' in
      case NewClient (split_on (CHR '','') pdAddr) of
        Inl err \<Rightarrow> Ret (Inl err)
      | Inr db \<Rightarrow> gbind (NewRowCodec p) (\<lambda>r.
          Ret (Inr \<lparr>tdb_db = db, tdb_r = r, tdb_asyncCommit = GetBool p ''tikv.async_commit'' True,
                    tdb_onePC = GetBool p ''tikv.one_pc'' True\<rparr>)))"

definition txnDB_Close :: "'s txnkv_api \<Rightarrow> 's txnDB \<Rightarrow> error option \<times> 's txnDB" where
  "txnDB_Close api db = (let (err, s) = tx_Close api (tdb_db db) in (err, db\<lparr>tdb_db := s\<rparr>))"

definition tx_commit :: "'s txnkv_api \<Rightarrow> 's \<Rightarrow> 's txnDB \<Rightarrow> error option \<times> 's txnDB" where
  "tx_commit api tx db = (let (err, s) = tx_Commit api (tdb_db db) tx in (err, db\<lparr>tdb_db := s\<rparr>))"

definition txnDB_Read :: "'s txnkv_api \<Rightarrow> 's txnDB \<Rightarrow> string \<Rightarrow> string \<Rightarrow> string list \<Rightarrow> ((error + row) \<times> 's txnDB) go" where
  "txnDB_Read api db table key fnames =
     (case tx_Begin api (tdb_db db) of
        Some err \<Rightarrow> Ret (Inl err, db)
      | None \<Rightarrow> (case tx_Get api (tdb_db db) (getRowKey table key) of
            Inl err \<Rightarrow> Ret (Inl err, db)
          | Inr None \<Rightarrow> Ret (Inr [], db)
          | Inr (Some row) \<Rightarrow>
              let (err, db) = tx_commit api (tdb_db db) db in
              case err of
                Some e \<Rightarrow> Ret (Inl e, db)
              | None \<Rightarrow> gbind (RowCodec_Decode (tdb_r db) row fnames) (\<lambda>m. Ret (m, db))))"

text \<open>In \<open>BatchRead\<close> an error of \<open>Get\<close> comes with a nil value and yields a nil row.\<close>

fun txn_batch_rows :: "'s txnkv_api \<Rightarrow> 's txnDB \<Rightarrow> string \<Rightarrow> string list \<Rightarrow> string list \<Rightarrow> (error + row option list) go" where
  "txn_batch_rows api db table fnames [] = Ret (Inr [])"
| "txn_batch_rows api db table fnames (key # keys) =
     ebind (case tx_Get api (tdb_db db) (getRowKey table key) of
         Inr (Some value) \<Rightarrow> gbind (RowCodec_Decode (tdb_r db) value fnames) (\<lambda>res. Ret (map_sum id Some res))
       | _ \<Rightarrow> Ret (Inr None)) (\<lambda>m.
     ebind (txn_batch_rows api db table fnames keys) (\<lambda>ms. Ret (Inr (m # ms))))"

definition txnDB_BatchRead ::
    "'s txnkv_api \<Rightarrow> 's txnDB \<Rightarrow> string \<Rightarrow> string list \<Rightarrow> string list \<Rightarrow> ((error + row option list) \<times> 's txnDB) go" where
  "txnDB_BatchRead api db table keys fnames =
     (case tx_Begin api (tdb_db db) of
        Some err \<Rightarrow> Ret (Inl err, db)
      | None \<Rightarrow> gbind (txn_batch_rows api db table fnames keys) (\<lambda>res. Ret (res, db)))"

fun txn_scan_rows :: "nat \<Rightarrow> (byte list \<times> error option) list \<Rightarrow> error + byte list list" where
  "txn_scan_rows 0 items = Inr []"
| "txn_scan_rows (Suc n) [] = Inr []"
| "txn_scan_rows (Suc n) ((value, nxt) # items) =
     (case nxt of Some err \<Rightarrow> Inl err | None \<Rightarrow> map_sum id (\<lambda>rs. value # rs) (txn_scan_rows n items))"

definition txnDB_Scan ::
    "'s txnkv_api \<Rightarrow> 's txnDB \<Rightarrow> string \<Rightarrow> string \<Rightarrow> int \<Rightarrow> string list \<Rightarrow> ((error + row option list) \<times> 's txnDB) go" where
  "txnDB_Scan api db table startKey cnt fnames =
     (case tx_Begin api (tdb_db db) of
        Some err \<Rightarrow> Ret (Inl err, db)
      | None \<Rightarrow> (case tx_Iter api (tdb_db db) (getRowKey table startKey) of
            Inl err \<Rightarrow> Ret (Inl err, db)
          | Inr items \<Rightarrow>
              if cnt < 0 then Panic ''makeslice: cap out of range''
              else case txn_scan_rows (nat cnt) items of
                     Inl err \<Rightarrow> Ret (Inl err, db)
                   | Inr rs \<Rightarrow>
                       let (err, db) = tx_commit api (tdb_db db) db in
                       case err of
                         Some e \<Rightarrow> Ret (Inl e, db)
                       | None \<Rightarrow> gbind (decode_rows (tdb_r db) fnames (map Some rs)) (\<lambda>res. Ret (res, db))))"

text \<open>A missing row makes \<open>Update\<close> return without error and without writing.\<close>

definition txnDB_Update :: "'s txnkv_api \<Rightarrow> 's txnDB \<Rightarrow> string \<Rightarrow> string \<Rightarrow> row \<Rightarrow> (error option \<times> 's txnDB) go" where
  "txnDB_Update api db table key vals =
     (let rowKey = getRowKey table key in
      case tx_Begin api (tdb_db db) of
        Some err \<Rightarrow> Ret (Some err, db)
      | None \<Rightarrow> (case tx_Get api (tdb_db db) rowKey of
            Inl err \<Rightarrow> Ret (Some err, db)
          | Inr None \<Rightarrow> Ret (None, db)
          | Inr (Some row) \<Rightarrow>
              gbind (RowCodec_Decode (tdb_r db) row []) (\<lambda>res. case res of
                  Inl err \<Rightarrow> Ret (Some err, db)
                | Inr data \<Rightarrow> (case RowCodec_Encode (tdb_r db) [] (merge_fields data vals) of
                      Inl err \<Rightarrow> Ret (Some err, db)
                    | Inr buf \<Rightarrow> (case tx_Set api (tdb_db db) rowKey buf of
                          (Some err, tx) \<Rightarrow> Ret (Some err, db)
                        | (None, tx) \<Rightarrow> Ret (tx_commit api tx db))))))"

definition txnDB_Insert :: "'s txnkv_api \<Rightarrow> 's txnDB \<Rightarrow> string \<Rightarrow> string \<Rightarrow> row \<Rightarrow> (error option \<times> 's txnDB) go" where
  "txnDB_Insert api db table key vals =
     (case RowCodec_Encode (tdb_r db) [] vals of
        Inl err \<Rightarrow> Ret (Some err, db)
      | Inr buf \<Rightarrow> (case tx_Begin api (tdb_db db) of
            Some err \<Rightarrow> Ret (Some err, db)
          | None \<Rightarrow> (case tx_Set api (tdb_db db) (getRowKey table key) buf of
                (Some err, tx) \<Rightarrow> Ret (Some err, db)
              | (None, tx) \<Rightarrow> Ret (tx_commit api tx db))))"

text \<open>The loop shared by \<open>BatchInsert\<close> and \<open>BatchUpdate\<close>.\<close>

fun txn_set_all :: "'s txnkv_api \<Rightarrow> rowcodec \<Rightarrow> string \<Rightarrow> string list \<Rightarrow> row list \<Rightarrow> 's \<Rightarrow> (error + 's) go" where
  "txn_set_all api r table [] vals tx = Ret (Inr tx)"
| "txn_set_all api r table (key # keys) [] tx = Panic ''index out of range''"
| "txn_set_all api r table (key # keys) (v # vals) tx =
     (case RowCodec_Encode r [] v of
        Inl err \<Rightarrow> Ret (Inl err)
      | Inr rowData \<Rightarrow> (case tx_Set api tx (getRowKey table key) rowData of
            (Some err, tx) \<Rightarrow> Ret (Inl err)
          | (None, tx) \<Rightarrow> txn_set_all api r table keys vals tx))"

definition txnDB_BatchPut :: "'s txnkv_api \<Rightarrow> 's txnDB \<Rightarrow> string \<Rightarrow> string list \<Rightarrow> row list \<Rightarrow> (error option \<times> 's txnDB) go" where
  "txnDB_BatchPut api db table keys vals =
     (case tx_Begin api (tdb_db db) of
        Some err \<Rightarrow> Ret (Some err, db)
      | None \<Rightarrow> gbind (txn_set_all api (tdb_r db) table keys vals (tdb_db db)) (\<lambda>res. case res of
            Inl err \<Rightarrow> Ret (Some err, db)
          | Inr tx \<Rightarrow> Ret (tx_commit api tx db)))"

definition txnDB_BatchInsert :: "'s txnkv_api \<Rightarrow> 's txnDB \<Rightarrow> string \<Rightarrow> string list \<Rightarrow> row list \<Rightarrow> (error option \<times> 's txnDB) go" where
  "txnDB_BatchInsert = txnDB_BatchPut"

definition txnDB_BatchUpdate :: "'s txnkv_api \<Rightarrow> 's txnDB \<Rightarrow> string \<Rightarrow> string list \<Rightarrow> row list \<Rightarrow> (error option \<times> 's txnDB) go" where
  "txnDB_BatchUpdate = txnDB_BatchPut"

fun txn_delete_all :: "'s txnkv_api \<Rightarrow> string \<Rightarrow> string list \<Rightarrow> 's \<Rightarrow> error + 's" where
  "txn_delete_all api table [] tx = Inr tx"
| "txn_delete_all api table (key # keys) tx =
     (case tx_Delete api tx (getRowKey table key) of
        (Some err, tx) \<Rightarrow> Inl err
      | (None, tx) \<Rightarrow> txn_delete_all api table keys tx)"

definition txnDB_BatchDelete :: "'s txnkv_api \<Rightarrow> 's txnDB \<Rightarrow> string \<Rightarrow> string list \<Rightarrow> (error option \<times> 's txnDB) go" where
  "txnDB_BatchDelete api db table keys =
     (case tx_Begin api (tdb_db db) of
        Some err \<Rightarrow> Ret (Some err, db)
      | None \<Rightarrow> (case txn_delete_all api table keys (tdb_db db) of
            Inl err \<Rightarrow> Ret (Some err, db)
          | Inr tx \<Rightarrow> Ret (tx_commit api tx db)))"

definition txnDB_Delete :: "'s txnkv_api \<Rightarrow> 's txnDB \<Rightarrow> string \<Rightarrow> string \<Rightarrow> (error option \<times> 's txnDB) go" where
  "txnDB_Delete api db table key =
     (case tx_Begin api (tdb_db db) of
        Some err \<Rightarrow> Ret (Some err, db)
      | None \<Rightarrow> (case tx_Delete api (tdb_db db) (getRowKey table key) of
            (Some err, tx) \<Rightarrow> Ret (Some err, db)
          | (None, tx) \<Rightarrow> Ret (tx_commit api tx db)))"

definition txnDB_db :: "'s txnkv_api \<Rightarrow> 's txnDB db" where
  "txnDB_db api =
     \<lparr>db_Close = (\<lambda>d. Ret (txnDB_Close api d)), db_InitThread = (\<lambda>d i n. Ret d), db_CleanupThread = Ret,
      db_Read = txnDB_Read api, db_Scan = txnDB_Scan api, db_Update = txnDB_Update api,
      db_Insert = txnDB_Insert api, db_Delete = txnDB_Delete api,
      db_Batch = Some \<lparr>db_BatchInsert = txnDB_BatchInsert api, db_BatchRead = txnDB_BatchRead api,
                       db_BatchUpdate = txnDB_BatchUpdate api, db_BatchDelete = txnDB_BatchDelete api\<rparr>,
      db_Analyze = None, db_TypeName = ''*tikv.txnDB''\<rparr>"

section \<open>The choice of the client\<close>

text \<open>\<open>tikv.type\<close> selects the client.\<close>

definition tikv_Create ::
    "int smap \<Rightarrow> (string list \<Rightarrow> int \<Rightarrow> error + 's) \<Rightarrow> (string list \<Rightarrow> error + 't) \<Rightarrow> props \<Rightarrow> (error + ('s rawDB + 't txnDB)) go" where
  "tikv_Create APIVersion_value NewRaw NewTxn p =
     (let tp = GetString p ''tikv.type'' ''raw'' in
      if tp = ''raw'' then gbind (createRawDB APIVersion_value NewRaw p) (\<lambda>res. Ret (map_sum id Inl res))
      else if tp = ''txn'' then gbind (createTxnDB NewTxn p) (\<lambda>res. Ret (map_sum id Inr res))
      else Ret (Inl (''unsupported type '' @ tp)))"

end
