(* ===== verification/TikvProps.thy ===== *)
theory TikvProps
  imports Tikv
begin

text \<open>
  Correctness of the TiKV adapters: under the documented behaviour of the clients both are tables of rows, a batch of
  inserts equals the single inserts one after the other, and a batch of updates does not equal the single
  updates.
\<close>

section \<open>The behaviour of the clients\<close>

definition raw_laws ::
    "'s rawkv_api \<Rightarrow> ('s \<Rightarrow> bool) \<Rightarrow> ('s \<Rightarrow> byte list \<rightharpoonup> byte list) \<Rightarrow> (byte list \<Rightarrow> byte list \<Rightarrow> bool) \<Rightarrow> bool" where
  "raw_laws api ok view adm \<longleftrightarrow>
     (\<forall>s k. ok s \<longrightarrow> raw_Get api s k = Inr (view s k))
   \<and> (\<forall>s k v. ok s \<longrightarrow> adm k v \<longrightarrow> (\<exists>t. raw_Put api s k v = (None, t) \<and> ok t \<and> view t = (view s)(k \<mapsto> v)))
   \<and> (\<forall>s ks vs. ok s \<longrightarrow> distinct ks \<longrightarrow> length vs = length ks \<longrightarrow> (\<forall>(k, v)\<in>set (zip ks vs). adm k v) \<longrightarrow>
        (\<exists>t. raw_BatchPut api s ks vs = (None, t) \<and> ok t \<and> view t = view s ++ map_of (zip ks vs)))
   \<and> (\<forall>s k. ok s \<longrightarrow> (\<exists>t. raw_Delete api s k = (None, t) \<and> ok t \<and> view t = (view s)(k := None)))"

definition txn_laws ::
    "'s txnkv_api \<Rightarrow> ('s \<Rightarrow> bool) \<Rightarrow> ('s \<Rightarrow> byte list \<rightharpoonup> byte list) \<Rightarrow> (byte list \<Rightarrow> byte list \<Rightarrow> bool) \<Rightarrow> bool" where
  "txn_laws api ok view adm \<longleftrightarrow>
     (\<forall>s. ok s \<longrightarrow> tx_Begin api s = None)
   \<and> (\<forall>s k. ok s \<longrightarrow> tx_Get api s k = Inr (view s k))
   \<and> (\<forall>s k v. ok s \<longrightarrow> adm k v \<longrightarrow> (\<exists>t. tx_Set api s k v = (None, t) \<and> ok t \<and> view t = (view s)(k \<mapsto> v)))
   \<and> (\<forall>s k. ok s \<longrightarrow> (\<exists>t. tx_Delete api s k = (None, t) \<and> ok t \<and> view t = (view s)(k := None)))
   \<and> (\<forall>s t. ok s \<longrightarrow> ok t \<longrightarrow> (\<exists>s'. tx_Commit api s t = (None, s') \<and> ok s' \<and> view s' = view t))"

lemma raw_lawsD:
  assumes "raw_laws api ok view adm" and "ok s"
  shows raw_Get_law: "raw_Get api s k = Inr (view s k)"
    and raw_Put_law: "adm k v \<Longrightarrow> \<exists>t. raw_Put api s k v = (None, t) \<and> ok t \<and> view t = (view s)(k \<mapsto> v)"
    and raw_BatchPut_law: "distinct ks \<Longrightarrow> length vs = length ks \<Longrightarrow> \<forall>(k, v)\<in>set (zip ks vs). adm k v \<Longrightarrow>
      \<exists>t. raw_BatchPut api s ks vs = (None, t) \<and> ok t \<and> view t = view s ++ map_of (zip ks vs)"
    and raw_Delete_law: "\<exists>t. raw_Delete api s k = (None, t) \<and> ok t \<and> view t = (view s)(k := None)"
  using assms unfolding raw_laws_def by (simp | blast)+

lemma txn_lawsD:
  assumes "txn_laws api ok view adm" and "ok s"
  shows txn_Begin_law: "tx_Begin api s = None"
    and txn_Get_law: "tx_Get api s k = Inr (view s k)"
    and txn_Set_law: "adm k v \<Longrightarrow> \<exists>t. tx_Set api s k v = (None, t) \<and> ok t \<and> view t = (view s)(k \<mapsto> v)"
    and txn_Delete_law: "\<exists>t. tx_Delete api s k = (None, t) \<and> ok t \<and> view t = (view s)(k := None)"
    and txn_Commit_law: "ok t \<Longrightarrow> \<exists>s'. tx_Commit api s t = (None, s') \<and> ok s' \<and> view s' = view t"
  using assms unfolding txn_laws_def by (simp | blast)+

section \<open>The raw adapter is a table of rows\<close>

definition raw_rows :: "('s \<Rightarrow> byte list \<rightharpoonup> byte list) \<Rightarrow> 's rawDB \<Rightarrow> table" where
  "raw_rows view db = kv_rows (rdb_r db) (view (rdb_db db))"

definition raw_inv ::
    "'s rawkv_api \<Rightarrow> ('s \<Rightarrow> bool) \<Rightarrow> ('s \<Rightarrow> byte list \<rightharpoonup> byte list) \<Rightarrow> (byte list \<Rightarrow> byte list \<Rightarrow> bool) \<Rightarrow> 's rawDB \<Rightarrow> bool" where
  "raw_inv api ok view adm db \<longleftrightarrow> raw_laws api ok view adm \<and> ok (rdb_db db) \<and> (\<exists>n. codec_ok (rdb_r db) n)
     \<and> kv_wf (rdb_r db) (view (rdb_db db))"

lemma raw_Insert_ok:
  assumes "raw_inv api ok view adm db" and "plain_table t" and "row_fits (rdb_r db) vs" and "row_accepts adm t k (map_of vs)"
  shows "\<exists>db'. rawDB_Insert api db t k vs = Ret (None, db') \<and> raw_inv api ok view adm db' \<and> rdb_r db' = rdb_r db
    \<and> raw_rows view db' = (raw_rows view db)((t, k) \<mapsto> map_of vs)"
proof -
  have I: "raw_laws api ok view adm" "ok (rdb_db db)" "kv_wf (rdb_r db) (view (rdb_db db))" using assms(1) by (auto simp: raw_inv_def)
  obtain bs where bs: "RowCodec_Encode (rdb_r db) [] vs = Inr bs" "adm (getRowKey t k) bs" "row_wf (rdb_r db) bs" "row_of (rdb_r db) bs = map_of vs"
    using encode_accepted [OF _ assms(3,4)] assms(1) by (auto simp: raw_inv_def)
  obtain s where "raw_Put api (rdb_db db) (getRowKey t k) bs = (None, s)" "ok s" "view s = (view (rdb_db db))(getRowKey t k \<mapsto> bs)"
    using raw_Put_law [OF I(1,2) bs(2)] by blast
  then show ?thesis using assms(1,2) bs
    by (auto simp: rawDB_Insert_def put_db_def raw_inv_def raw_rows_def kv_rows_upd intro: kv_wf_upd)
qed

lemma raw_stored:
  assumes "raw_inv api ok view adm db" and "plain_table t" and "raw_rows view db (t, k) = Some m"
  shows "\<exists>bs. raw_Get api (rdb_db db) (getRowKey t k) = Inr (Some bs) \<and> row_wf (rdb_r db) bs \<and> row_of (rdb_r db) bs = m"
  using kv_stored [of "rdb_r db" "view (rdb_db db)" t k m] assms raw_Get_law [of api ok view adm "rdb_db db"]
  by (auto simp: raw_inv_def raw_rows_def)

lemma raw_Update_ok:
  assumes "raw_inv api ok view adm db" and "plain_table t" and "row_fits (rdb_r db) vs"
    and "raw_rows view db (t, k) = Some m" and "row_accepts adm t k (m ++ map_of vs)"
  shows "\<exists>db'. rawDB_Update api db t k vs = Ret (None, db') \<and> raw_inv api ok view adm db' \<and> rdb_r db' = rdb_r db
    \<and> raw_rows view db' = (raw_rows view db)((t, k) \<mapsto> m ++ map_of vs)"
proof -
  have I: "raw_laws api ok view adm" "ok (rdb_db db)" using assms(1) by (auto simp: raw_inv_def)
  obtain n where n: "codec_ok (rdb_r db) n" using assms(1) by (auto simp: raw_inv_def)
  obtain old where old: "raw_Get api (rdb_db db) (getRowKey t k) = Inr (Some old)" "row_wf (rdb_r db) old" "row_of (rdb_r db) old = m"
    using raw_stored [OF assms(1,2,4)] by blast
  obtain data bs where d: "RowCodec_Decode (rdb_r db) old [] = Ret (Inr data)"
      "RowCodec_Encode (rdb_r db) [] (merge_fields data vs) = Inr bs" "adm (getRowKey t k) bs" "row_wf (rdb_r db) bs"
      "row_of (rdb_r db) bs = m ++ map_of vs"
    using merge_accepted [OF n old(2) assms(3)] assms(5) old(3) by blast
  obtain s where "raw_Put api (rdb_db db) (getRowKey t k) bs = (None, s)" "ok s" "view s = (view (rdb_db db))(getRowKey t k \<mapsto> bs)"
    using raw_Put_law [OF I d(3)] by blast
  then show ?thesis using assms(1,2) old(1) d
    by (auto simp: rawDB_Update_def rawDB_Insert_def put_db_def raw_inv_def raw_rows_def kv_rows_upd intro: kv_wf_upd)
qed

lemma raw_Delete_ok:
  assumes "raw_inv api ok view adm db" and "plain_table t"
  shows "\<exists>db'. rawDB_Delete api db t k = Ret (None, db') \<and> raw_inv api ok view adm db' \<and> rdb_r db' = rdb_r db
    \<and> raw_rows view db' = (raw_rows view db)((t, k) := None)"
proof -
  have I: "raw_laws api ok view adm" "ok (rdb_db db)" using assms(1) by (auto simp: raw_inv_def)
  obtain s where "raw_Delete api (rdb_db db) (getRowKey t k) = (None, s)" "ok s" "view s = (view (rdb_db db))(getRowKey t k := None)"
    using raw_Delete_law [OF I, of "getRowKey t k"] by auto
  then show ?thesis using assms by (auto simp: rawDB_Delete_def put_db_def raw_inv_def raw_rows_def kv_rows_upd intro: kv_wf_upd)
qed

lemma raw_Read_ok:
  assumes "raw_inv api ok view adm db" and "plain_table t" and "set fs \<subseteq> set (codec_fields (rdb_r db))" and "raw_rows view db (t, k) = Some m"
  shows "\<exists>res. rawDB_Read api db t k fs = Ret (Inr res, db) \<and> map_of res = (if fs = [] then m else m |` set fs) \<and> distinct (map fst res)"
proof -
  obtain bs where bs: "raw_Get api (rdb_db db) (getRowKey t k) = Inr (Some bs)" "row_wf (rdb_r db) bs" "row_of (rdb_r db) bs = m"
    using raw_stored [OF assms(1,2,4)] by blast
  then show ?thesis using decode_row [OF bs(2) assms(3)] by (auto simp: rawDB_Read_def)
qed

interpretation raw: row_db "rawDB_db api" "raw_inv api ok view adm" "raw_rows view"
    "\<lambda>db. set (codec_fields (rdb_r db))" plain_table "row_accepts adm" for api ok view adm
proof (unfold_locales, goal_cases)
  case (1 d t v k)
  then show ?case using raw_Insert_ok [OF 1(1,2) _ 1(4)] by (auto simp: rawDB_db_def row_ok_fits)
next
  case (2 d t v k m)
  then show ?case using raw_Update_ok [OF 2(1,2) _ 2(4,5)] by (auto simp: rawDB_db_def row_ok_fits)
next
  case (3 d t k m)
  then show ?case using raw_Delete_ok [OF 3(1,2), of k] by (auto simp: rawDB_db_def)
next
  case (4 d t fs k m)
  then show ?case using raw_Read_ok [OF 4] by (auto simp: rawDB_db_def)
qed

section \<open>The transactional adapter is a table of rows\<close>

definition txn_rows :: "('s \<Rightarrow> byte list \<rightharpoonup> byte list) \<Rightarrow> 's txnDB \<Rightarrow> table" where
  "txn_rows view db = kv_rows (tdb_r db) (view (tdb_db db))"

definition txn_inv ::
    "'s txnkv_api \<Rightarrow> ('s \<Rightarrow> bool) \<Rightarrow> ('s \<Rightarrow> byte list \<rightharpoonup> byte list) \<Rightarrow> (byte list \<Rightarrow> byte list \<Rightarrow> bool) \<Rightarrow> 's txnDB \<Rightarrow> bool" where
  "txn_inv api ok view adm db \<longleftrightarrow> txn_laws api ok view adm \<and> ok (tdb_db db) \<and> (\<exists>n. codec_ok (tdb_r db) n)
     \<and> kv_wf (tdb_r db) (view (tdb_db db))"

text \<open>Committing a transaction that differs from the store in one row.\<close>

lemma txn_commit_ok:
  assumes "txn_inv api ok view adm db" and "ok tx" and "view tx = m" and "kv_wf (tdb_r db) m"
  shows "\<exists>db'. tx_commit api tx db = (None, db') \<and> txn_inv api ok view adm db' \<and> tdb_r db' = tdb_r db \<and> txn_rows view db' = kv_rows (tdb_r db) m"
proof -
  obtain s where "tx_Commit api (tdb_db db) tx = (None, s)" "ok s" "view s = view tx"
    using txn_Commit_law [of api ok view adm "tdb_db db" tx] assms(1,2) by (auto simp: txn_inv_def)
  then show ?thesis using assms by (auto simp: tx_commit_def txn_inv_def txn_rows_def)
qed

lemma txn_set_commit:
  assumes "txn_inv api ok view adm db" and "plain_table t" and "adm (getRowKey t k) bs" and "row_wf (tdb_r db) bs"
  shows "\<exists>tx db'. tx_Set api (tdb_db db) (getRowKey t k) bs = (None, tx) \<and> tx_commit api tx db = (None, db')
    \<and> txn_inv api ok view adm db' \<and> tdb_r db' = tdb_r db \<and> txn_rows view db' = (txn_rows view db)((t, k) \<mapsto> row_of (tdb_r db) bs)"
proof -
  have I: "txn_laws api ok view adm" "ok (tdb_db db)" "kv_wf (tdb_r db) (view (tdb_db db))" using assms(1) by (auto simp: txn_inv_def)
  obtain tx where tx: "tx_Set api (tdb_db db) (getRowKey t k) bs = (None, tx)" "ok tx" "view tx = (view (tdb_db db))(getRowKey t k \<mapsto> bs)"
    using txn_Set_law [OF I(1,2) assms(3)] by blast
  have "kv_wf (tdb_r db) ((view (tdb_db db))(getRowKey t k \<mapsto> bs))" using I(3) assms(4) by (intro kv_wf_upd) auto
  from txn_commit_ok [OF assms(1) tx(2,3) this] show ?thesis
    using tx(1) by (auto simp: kv_rows_upd [OF assms(2)] txn_rows_def)
qed

lemma txn_begin: "txn_inv api ok view adm db \<Longrightarrow> tx_Begin api (tdb_db db) = None"
  using txn_Begin_law [of api ok view adm "tdb_db db"] by (auto simp: txn_inv_def)

lemma txn_Insert_ok:
  assumes "txn_inv api ok view adm db" and "plain_table t" and "row_fits (tdb_r db) vs" and "row_accepts adm t k (map_of vs)"
  shows "\<exists>db'. txnDB_Insert api db t k vs = Ret (None, db') \<and> txn_inv api ok view adm db' \<and> tdb_r db' = tdb_r db
    \<and> txn_rows view db' = (txn_rows view db)((t, k) \<mapsto> map_of vs)"
proof -
  obtain bs where bs: "RowCodec_Encode (tdb_r db) [] vs = Inr bs" "adm (getRowKey t k) bs" "row_wf (tdb_r db) bs" "row_of (tdb_r db) bs = map_of vs"
    using encode_accepted [OF _ assms(3,4)] assms(1) by (auto simp: txn_inv_def)
  then show ?thesis using txn_set_commit [OF assms(1,2) bs(2,3)] txn_begin [OF assms(1)] by (auto simp: txnDB_Insert_def)
qed

lemma txn_stored:
  assumes "txn_inv api ok view adm db" and "plain_table t" and "txn_rows view db (t, k) = Some m"
  shows "\<exists>bs. tx_Get api (tdb_db db) (getRowKey t k) = Inr (Some bs) \<and> row_wf (tdb_r db) bs \<and> row_of (tdb_r db) bs = m"
  using kv_stored [of "tdb_r db" "view (tdb_db db)" t k m] assms txn_Get_law [of api ok view adm "tdb_db db"]
  by (auto simp: txn_inv_def txn_rows_def)

lemma txn_Update_ok:
  assumes "txn_inv api ok view adm db" and "plain_table t" and "row_fits (tdb_r db) vs"
    and "txn_rows view db (t, k) = Some m" and "row_accepts adm t k (m ++ map_of vs)"
  shows "\<exists>db'. txnDB_Update api db t k vs = Ret (None, db') \<and> txn_inv api ok view adm db' \<and> tdb_r db' = tdb_r db
    \<and> txn_rows view db' = (txn_rows view db)((t, k) \<mapsto> m ++ map_of vs)"
proof -
  obtain n where n: "codec_ok (tdb_r db) n" using assms(1) by (auto simp: txn_inv_def)
  obtain old where old: "tx_Get api (tdb_db db) (getRowKey t k) = Inr (Some old)" "row_wf (tdb_r db) old" "row_of (tdb_r db) old = m"
    using txn_stored [OF assms(1,2,4)] by blast
  obtain data bs where d: "RowCodec_Decode (tdb_r db) old [] = Ret (Inr data)"
      "RowCodec_Encode (tdb_r db) [] (merge_fields data vs) = Inr bs" "adm (getRowKey t k) bs" "row_wf (tdb_r db) bs"
      "row_of (tdb_r db) bs = m ++ map_of vs"
    using merge_accepted [OF n old(2) assms(3)] assms(5) old(3) by blast
  then show ?thesis using txn_set_commit [OF assms(1,2) d(3,4)] txn_begin [OF assms(1)] old(1)
    by (auto simp: txnDB_Update_def Let_def)
qed

lemma txn_Delete_ok:
  assumes "txn_inv api ok view adm db" and "plain_table t"
  shows "\<exists>db'. txnDB_Delete api db t k = Ret (None, db') \<and> txn_inv api ok view adm db' \<and> tdb_r db' = tdb_r db
    \<and> txn_rows view db' = (txn_rows view db)((t, k) := None)"
proof -
  have I: "txn_laws api ok view adm" "ok (tdb_db db)" "kv_wf (tdb_r db) (view (tdb_db db))" using assms(1) by (auto simp: txn_inv_def)
  obtain tx where tx: "tx_Delete api (tdb_db db) (getRowKey t k) = (None, tx)" "ok tx" "view tx = (view (tdb_db db))(getRowKey t k := None)"
    using txn_Delete_law [OF I(1,2), of "getRowKey t k"] by auto
  have "kv_wf (tdb_r db) ((view (tdb_db db))(getRowKey t k := None))" using I(3) by (intro kv_wf_upd) auto
  from txn_commit_ok [OF assms(1) tx(2,3) this] show ?thesis
    using tx(1) txn_begin [OF assms(1)] by (auto simp: kv_rows_upd [OF assms(2)] txn_rows_def txnDB_Delete_def)
qed

lemma txn_Read_ok:
  assumes "txn_inv api ok view adm db" and "plain_table t" and "set fs \<subseteq> set (codec_fields (tdb_r db))" and "txn_rows view db (t, k) = Some m"
  shows "\<exists>res db'. txnDB_Read api db t k fs = Ret (Inr res, db') \<and> txn_inv api ok view adm db' \<and> tdb_r db' = tdb_r db
    \<and> txn_rows view db' = txn_rows view db \<and> map_of res = (if fs = [] then m else m |` set fs) \<and> distinct (map fst res)"
proof -
  obtain bs where bs: "tx_Get api (tdb_db db) (getRowKey t k) = Inr (Some bs)" "row_wf (tdb_r db) bs" "row_of (tdb_r db) bs = m"
    using txn_stored [OF assms(1,2,4)] by blast
  have "ok (tdb_db db)" "kv_wf (tdb_r db) (view (tdb_db db))" using assms(1) by (auto simp: txn_inv_def)
  from txn_commit_ok [OF assms(1) this(1) refl this(2)] obtain db' where "tx_commit api (tdb_db db) db = (None, db')"
      "txn_inv api ok view adm db'" "tdb_r db' = tdb_r db" "txn_rows view db' = txn_rows view db"
    by (auto simp: txn_rows_def)
  then show ?thesis using bs decode_row [OF bs(2) assms(3)] txn_begin [OF assms(1)] by (auto simp: txnDB_Read_def)
qed

interpretation txn: row_db "txnDB_db api" "txn_inv api ok view adm" "txn_rows view"
    "\<lambda>db. set (codec_fields (tdb_r db))" plain_table "row_accepts adm" for api ok view adm
proof (unfold_locales, goal_cases)
  case (1 d t v k)
  then show ?case using txn_Insert_ok [OF 1(1,2) _ 1(4)] by (auto simp: txnDB_db_def row_ok_fits)
next
  case (2 d t v k m)
  then show ?case using txn_Update_ok [OF 2(1,2) _ 2(4,5)] by (auto simp: txnDB_db_def row_ok_fits)
next
  case (3 d t k m)
  then show ?case using txn_Delete_ok [OF 3(1,2), of k] by (auto simp: txnDB_db_def)
next
  case (4 d t fs k m)
  then show ?case using txn_Read_ok [OF 4] by (auto simp: txnDB_db_def)
qed

section \<open>Batches\<close>

definition inserts :: "string \<Rightarrow> string list \<Rightarrow> row list \<Rightarrow> dbop list" where
  "inserts t keys vals = map2 (OpInsert t) keys vals"

definition batch_ok :: "(byte list \<Rightarrow> byte list \<Rightarrow> bool) \<Rightarrow> rowcodec \<Rightarrow> string \<Rightarrow> string list \<Rightarrow> row list \<Rightarrow> bool" where
  "batch_ok adm r t keys vals \<longleftrightarrow> plain_table t \<and> length vals = length keys
     \<and> (\<forall>(k, v)\<in>set (zip keys vals). row_fits r v \<and> row_accepts adm t k (map_of v))"

lemma batch_ok_Cons [simp]:
  "batch_ok adm r t (k # keys) (v # vals) \<longleftrightarrow> row_fits r v \<and> row_accepts adm t k (map_of v) \<and> batch_ok adm r t keys vals"
  by (auto simp: batch_ok_def)

lemma inserts_Cons [simp]: "inserts t (k # keys) (v # vals) = OpInsert t k v # inserts t keys vals" "inserts t [] vals = []"
  by (simp_all add: inserts_def)

lemma batch_ok_cases:
  assumes "batch_ok adm r t (k # keys) vals"
  obtains v vs where "vals = v # vs"
  using assms by (cases vals) (auto simp: batch_ok_def)

lemma inserts_ok:
  "batch_ok adm r t keys vals \<Longrightarrow> ops_ok (set (codec_fields r)) plain_table (row_accepts adm) (inserts t keys vals) T"
proof (induction keys arbitrary: vals T)
  case (Cons k keys)
  then obtain v vs where "vals = v # vs" using batch_ok_cases by blast
  with Cons show ?case by (auto simp: row_ok_fits batch_ok_def)
qed simp

lemma map_add_Cons: "k \<notin> fst ` set kvs \<Longrightarrow> m ++ map_of ((k, b) # kvs) = m(k \<mapsto> b) ++ map_of kvs"
  by (simp add: map_add_upd_left [symmetric] dom_map_of_conv_image_fst)

lemma encode_batch_ok:
  assumes "codec_ok r n" and "batch_ok adm r t keys vals" and "distinct keys"
  shows "\<exists>kvs. encode_batch r t keys vals = Ret (Inr kvs) \<and> map fst kvs = map (getRowKey t) keys
    \<and> (\<forall>(k, b)\<in>set kvs. adm k b \<and> row_wf r b)
    \<and> (\<forall>m. kv_rows r (m ++ map_of kvs) = snd (table_run (inserts t keys vals) (kv_rows r m)))"
  using assms(2,3)
proof (induction keys arbitrary: vals)
  case (Cons k keys)
  then obtain v vs where vals: "vals = v # vs" using batch_ok_cases by blast
  have t: "plain_table t" using Cons.prems(1) by (simp add: batch_ok_def)
  obtain bs where bs: "RowCodec_Encode r [] v = Inr bs" "adm (getRowKey t k) bs" "row_wf r bs" "row_of r bs = map_of v"
    using encode_accepted [OF assms(1), of v adm t k] Cons.prems(1) vals by auto
  obtain kvs where kvs: "encode_batch r t keys vs = Ret (Inr kvs)" "map fst kvs = map (getRowKey t) keys"
      "\<forall>(k, b)\<in>set kvs. adm k b \<and> row_wf r b"
      "\<forall>m. kv_rows r (m ++ map_of kvs) = snd (table_run (inserts t keys vs) (kv_rows r m))"
    using Cons.IH [of vs] Cons.prems vals by auto
  have "fst ` set kvs = getRowKey t ` set keys" using arg_cong [OF kvs(2), of set] by simp
  then have "getRowKey t k \<notin> fst ` set kvs" using Cons.prems(2) getRowKey_inj [OF t t] by auto
  then have "kv_rows r (m ++ map_of ((getRowKey t k, bs) # kvs)) = snd (table_run (inserts t keys vs) ((kv_rows r m)((t, k) \<mapsto> map_of v)))" for m
    using spec [OF kvs(4), of "m(getRowKey t k \<mapsto> bs)"] map_add_Cons [of "getRowKey t k" kvs m bs] by (simp add: kv_rows_upd [OF t] bs(4))
  then show ?case using bs kvs(1-3) by (auto simp: vals Let_def split_def intro!: exI [of _ "(getRowKey t k, bs) # kvs"])
qed (simp add: inserts_def)

lemma txn_set_all_ok:
  assumes "txn_laws api ok view adm" and "codec_ok r n" and "batch_ok adm r t keys vals" and "ok tx" and "kv_wf r (view tx)"
  shows "\<exists>tx'. txn_set_all api r t keys vals tx = Ret (Inr tx') \<and> ok tx' \<and> kv_wf r (view tx')
    \<and> kv_rows r (view tx') = snd (table_run (inserts t keys vals) (kv_rows r (view tx)))"
  using assms(3-5)
proof (induction keys arbitrary: vals tx)
  case (Cons k keys)
  then obtain v vs where vals: "vals = v # vs" using batch_ok_cases by blast
  have t: "plain_table t" using Cons.prems(1) by (simp add: batch_ok_def)
  obtain bs where bs: "RowCodec_Encode r [] v = Inr bs" "adm (getRowKey t k) bs" "row_wf r bs" "row_of r bs = map_of v"
    using encode_accepted [OF assms(2), of v adm t k] Cons.prems(1) vals by auto
  obtain tx1 where tx1: "tx_Set api tx (getRowKey t k) bs = (None, tx1)" "ok tx1" "view tx1 = (view tx)(getRowKey t k \<mapsto> bs)"
    using txn_Set_law [OF assms(1) Cons.prems(2) bs(2)] by blast
  have "kv_wf r (view tx1)" unfolding tx1(3) using Cons.prems(3) bs(3) by (intro kv_wf_upd) auto
  from Cons.IH [OF _ tx1(2) this, of vs] Cons.prems(1) vals obtain tx' where
    "txn_set_all api r t keys vs tx1 = Ret (Inr tx')" "ok tx'" "kv_wf r (view tx')"
    "kv_rows r (view tx') = snd (table_run (inserts t keys vs) (kv_rows r (view tx1)))" by auto
  then show ?case by (auto simp: vals bs(1,4) tx1(1,3) kv_rows_upd [OF t] Let_def split_def)
qed (simp add: inserts_def)

lemma raw_BatchPut_ok:
  assumes inv: "raw_inv api ok view adm db" and "batch_ok adm (rdb_r db) t keys vals" and "distinct keys"
  shows "\<exists>db'. rawDB_BatchPut api db t keys vals = Ret (None, db') \<and> raw_inv api ok view adm db' \<and> rdb_r db' = rdb_r db
    \<and> raw_rows view db' = snd (table_run (inserts t keys vals) (raw_rows view db))"
proof -
  have I: "raw_laws api ok view adm" "ok (rdb_db db)" "kv_wf (rdb_r db) (view (rdb_db db))" using inv by (auto simp: raw_inv_def)
  obtain n where "codec_ok (rdb_r db) n" using inv by (auto simp: raw_inv_def)
  then obtain kvs where kvs: "encode_batch (rdb_r db) t keys vals = Ret (Inr kvs)" "map fst kvs = map (getRowKey t) keys"
      "\<forall>(k, b)\<in>set kvs. adm k b \<and> row_wf (rdb_r db) b"
      "\<forall>m. kv_rows (rdb_r db) (m ++ map_of kvs) = snd (table_run (inserts t keys vals) (kv_rows (rdb_r db) m))"
    using encode_batch_ok [OF _ assms(2,3)] by blast
  have t: "plain_table t" using assms(2) by (simp add: batch_ok_def)
  have "inj_on (getRowKey t) (set keys)" using getRowKey_inj [OF t t] by (auto simp: inj_on_def)
  then have "distinct (map fst kvs)" using assms(3) by (simp add: kvs(2) distinct_map)
  moreover have "zip (map fst kvs) (map snd kvs) = kvs" by (rule zip_map_fst_snd)
  ultimately obtain s where s: "raw_BatchPut api (rdb_db db) (map fst kvs) (map snd kvs) = (None, s)" "ok s"
      "view s = view (rdb_db db) ++ map_of kvs"
    using raw_BatchPut_law [OF I(1,2), of "map fst kvs" "map snd kvs"] kvs(3) by auto
  have "ran (view s) \<subseteq> ran (view (rdb_db db)) \<union> snd ` set kvs"
    unfolding s(3) using ran_map_of_subset [of kvs] by (auto simp: ran_def map_add_Some_iff dest: map_of_SomeD)
  then have "kv_wf (rdb_r db) (view s)" using I(3) kvs(3) by (force simp: kv_wf_def)
  then show ?thesis using inv s kvs(1,4) by (auto simp: rawDB_BatchPut_def put_db_def raw_inv_def raw_rows_def)
qed

lemma txn_BatchPut_ok:
  assumes inv: "txn_inv api ok view adm db" and "batch_ok adm (tdb_r db) t keys vals"
  shows "\<exists>db'. txnDB_BatchPut api db t keys vals = Ret (None, db') \<and> txn_inv api ok view adm db' \<and> tdb_r db' = tdb_r db
    \<and> txn_rows view db' = snd (table_run (inserts t keys vals) (txn_rows view db))"
proof -
  have I: "txn_laws api ok view adm" "ok (tdb_db db)" "kv_wf (tdb_r db) (view (tdb_db db))" using inv by (auto simp: txn_inv_def)
  obtain n where n: "codec_ok (tdb_r db) n" using inv by (auto simp: txn_inv_def)
  obtain tx where tx: "txn_set_all api (tdb_r db) t keys vals (tdb_db db) = Ret (Inr tx)" "ok tx" "kv_wf (tdb_r db) (view tx)"
      "kv_rows (tdb_r db) (view tx) = snd (table_run (inserts t keys vals) (kv_rows (tdb_r db) (view (tdb_db db))))"
    using txn_set_all_ok [OF I(1) n assms(2) I(2,3)] by blast
  then show ?thesis using txn_commit_ok [OF inv tx(2) refl tx(3)] txn_begin [OF inv]
    by (auto simp: txnDB_BatchPut_def txn_rows_def)
qed

section \<open>Properties\<close>

text \<open>
  C27. A batch of inserts has the effect of the single inserts, with both clients: for distinct keys, \<open>BatchInsert\<close> returns
  without error and leaves the same rows as \<open>Insert\<close> of every key in turn.
\<close>

theorem tikv_batch_insert_equals_inserts:
  assumes "raw_inv rapi rok rview adm rdb" and "txn_inv tapi tok tview adm tdb" and "tdb_r tdb = rdb_r rdb"
    and "batch_ok adm (rdb_r rdb) t keys vals" and "distinct keys"
  shows "(\<exists>db1 db2 xs. rawDB_BatchInsert rapi rdb t keys vals = Ret (None, db1)
        \<and> db_run (rawDB_db rapi) (inserts t keys vals) rdb = Ret (xs, db2) \<and> raw_rows rview db1 = raw_rows rview db2)
    \<and> (\<exists>db1 db2 xs. txnDB_BatchInsert tapi tdb t keys vals = Ret (None, db1)
        \<and> db_run (txnDB_db tapi) (inserts t keys vals) tdb = Ret (xs, db2) \<and> txn_rows tview db1 = txn_rows tview db2)"
proof
  note ok = inserts_ok [OF assms(4)]
  show "\<exists>db1 db2 xs. rawDB_BatchInsert rapi rdb t keys vals = Ret (None, db1)
        \<and> db_run (rawDB_db rapi) (inserts t keys vals) rdb = Ret (xs, db2) \<and> raw_rows rview db1 = raw_rows rview db2"
    using raw_BatchPut_ok [OF assms(1,4,5)] raw.run_refines [OF assms(1) ok] by (auto simp: rawDB_BatchInsert_def)
  have "batch_ok adm (tdb_r tdb) t keys vals" "ops_ok (set (codec_fields (tdb_r tdb))) plain_table (row_accepts adm) (inserts t keys vals) (txn_rows tview tdb)"
    using assms(3,4) ok by simp_all
  then show "\<exists>db1 db2 xs. txnDB_BatchInsert tapi tdb t keys vals = Ret (None, db1)
        \<and> db_run (txnDB_db tapi) (inserts t keys vals) tdb = Ret (xs, db2) \<and> txn_rows tview db1 = txn_rows tview db2"
    using txn_BatchPut_ok [OF assms(2)] txn.run_refines [OF assms(2)] by (fastforce simp: txnDB_BatchInsert_def)
qed

text \<open>Clients in memory that behave as documented.\<close>

definition mem_raw :: "(byte list \<times> byte list) list rawkv_api" where
  "mem_raw =
     \<lparr>raw_Get = (\<lambda>s k. Inr (map_of s k)), raw_BatchGet = (\<lambda>s ks. Inr (map (map_of s) ks)),
      raw_Scan = (\<lambda>s k n. Inr (map (map_of s) (take (nat n) (filter (\<lambda>k'. k \<le> k') (sort (remdups (map fst s))))))),
      raw_Put = (\<lambda>s k v. (None, AList.update k v s)), raw_BatchPut = (\<lambda>s ks vs. (None, zip ks vs @ s)),
      raw_Delete = (\<lambda>s k. (None, AList.delete k s)), raw_BatchDelete = (\<lambda>s ks. (None, fold AList.delete ks s)),
      raw_Close = (\<lambda>s. (None, s))\<rparr>"

definition mem_txn :: "(byte list \<times> byte list) list txnkv_api" where
  "mem_txn =
     \<lparr>tx_Begin = (\<lambda>s. None), tx_Get = (\<lambda>s k. Inr (map_of s k)),
      tx_Iter = (\<lambda>s k. Inr (map (\<lambda>k'. (the (map_of s k'), None)) (filter (\<lambda>k'. k \<le> k') (sort (remdups (map fst s)))))),
      tx_Set = (\<lambda>s k v. (None, AList.update k v s)), tx_Delete = (\<lambda>s k. (None, AList.delete k s)),
      tx_Commit = (\<lambda>s t. (None, t)), tx_Close = (\<lambda>s. (None, s))\<rparr>"

lemma mem_raw_laws: "raw_laws mem_raw (\<lambda>s. True) map_of (\<lambda>k v. True)"
  by (auto simp: raw_laws_def mem_raw_def update_conv' delete_conv' map_of_append)

lemma mem_txn_laws: "txn_laws mem_txn (\<lambda>s. True) map_of (\<lambda>k v. True)"
  by (auto simp: txn_laws_def mem_txn_def update_conv' delete_conv')

definition sample_codec :: rowcodec where
  "sample_codec = \<lparr>fieldIndices = [(''field0'', 0), (''field1'', 1)], codec_fields = [''field0'', ''field1'']\<rparr>"

lemma sample_codec_ok: "codec_ok sample_codec 2"
  by (simp add: codec_ok_def sample_codec_def upto.simps)

lemma sample_raw_inv: "raw_inv mem_raw (\<lambda>s. True) map_of (\<lambda>k v. True) \<lparr>rdb_db = [], rdb_r = sample_codec\<rparr>"
  using mem_raw_laws sample_codec_ok by (auto simp: raw_inv_def kv_wf_def)

lemma sample_txn_inv:
  "txn_inv mem_txn (\<lambda>s. True) map_of (\<lambda>k v. True) \<lparr>tdb_db = [], tdb_r = sample_codec, tdb_asyncCommit = True, tdb_onePC = True\<rparr>"
  using mem_txn_laws sample_codec_ok by (auto simp: txn_inv_def kv_wf_def)

theorem tikv_batch_insert_equals_inserts_witness:
  "\<exists>db1 db2 xs. rawDB_BatchInsert mem_raw \<lparr>rdb_db = [], rdb_r = sample_codec\<rparr> ''t'' [''a'', ''b''] [[(''field0'', [1])], [(''field1'', [2])]] = Ret (None, db1)
     \<and> db_run (rawDB_db mem_raw) [OpInsert ''t'' ''a'' [(''field0'', [1])], OpInsert ''t'' ''b'' [(''field1'', [2])]] \<lparr>rdb_db = [], rdb_r = sample_codec\<rparr> = Ret (xs, db2)
     \<and> raw_rows map_of db1 = raw_rows map_of db2"
  using tikv_batch_insert_equals_inserts [OF sample_raw_inv sample_txn_inv, of "''t''" "[''a'', ''b'']" "[[(''field0'', [1])], [(''field1'', [2])]]"]
  by (simp add: batch_ok_def row_fits_def sample_codec_def plain_table_def row_accepts_def all_encodings_def inserts_def del: db_run.simps)

text \<open>
  A batch of updates is not a sequence of updates: where \<open>Update\<close> merges the given fields into the stored row, \<open>BatchUpdate\<close> of both
  clients replaces the row, so every stored field that is not among the given ones is lost.
\<close>

theorem tikv_batch_update_overwrites:
  assumes "raw_inv rapi rok rview adm rdb" and "txn_inv tapi tok tview adm tdb" and "tdb_r tdb = rdb_r rdb"
    and "plain_table t" and "row_fits (rdb_r rdb) v" and "row_accepts adm t k (map_of v)" and "row_accepts adm t k (m ++ map_of v)"
    and "raw_rows rview rdb (t, k) = Some m" and "txn_rows tview tdb (t, k) = Some m"
  shows "(\<exists>db1 db2. rawDB_Update rapi rdb t k v = Ret (None, db1) \<and> raw_rows rview db1 (t, k) = Some (m ++ map_of v)
        \<and> rawDB_BatchUpdate rapi rdb t [k] [v] = Ret (None, db2) \<and> raw_rows rview db2 (t, k) = Some (map_of v))
    \<and> (\<exists>db1 db2. txnDB_Update tapi tdb t k v = Ret (None, db1) \<and> txn_rows tview db1 (t, k) = Some (m ++ map_of v)
        \<and> txnDB_BatchUpdate tapi tdb t [k] [v] = Ret (None, db2) \<and> txn_rows tview db2 (t, k) = Some (map_of v))"
proof -
  have b: "batch_ok adm (rdb_r rdb) t [k] [v]" "batch_ok adm (tdb_r tdb) t [k] [v]" "row_fits (tdb_r tdb) v"
    using assms(3-6) by (simp_all add: batch_ok_def)
  then show ?thesis
    using raw_Update_ok [OF assms(1,4,5,8,7)] raw_BatchPut_ok [OF assms(1) b(1)] txn_Update_ok [OF assms(2,4) b(3) assms(9,7)]
      txn_BatchPut_ok [OF assms(2) b(2)]
    by (auto simp: rawDB_BatchUpdate_def txnDB_BatchUpdate_def)
qed

theorem tikv_batch_update_overwrites_witness:
  "\<exists>rdb db1 db2. rawDB_Insert mem_raw \<lparr>rdb_db = [], rdb_r = sample_codec\<rparr> ''t'' ''k'' [(''field0'', [1]), (''field1'', [2])] = Ret (None, rdb)
     \<and> rawDB_Update mem_raw rdb ''t'' ''k'' [(''field0'', [3])] = Ret (None, db1) \<and> raw_rows map_of db1 (''t'', ''k'') = Some [''field0'' \<mapsto> [3], ''field1'' \<mapsto> [2]]
     \<and> rawDB_BatchUpdate mem_raw rdb ''t'' [''k''] [[(''field0'', [3])]] = Ret (None, db2) \<and> raw_rows map_of db2 (''t'', ''k'') = Some [''field0'' \<mapsto> [3]]"
proof -
  let ?v = "[(''field0'', [1]), (''field1'', [2])] :: row" and ?u = "[(''field0'', [3])] :: row"
  have acc: "row_accepts (\<lambda>k v. True) t k m" for t k m by (simp add: row_accepts_def all_encodings_def)
  have t: "plain_table ''t''" by (simp add: plain_table_def)
  have fits: "row_fits sample_codec ?v" "row_fits sample_codec ?u" by (simp_all add: row_fits_def sample_codec_def)
  obtain rdb where r: "rawDB_Insert mem_raw \<lparr>rdb_db = [], rdb_r = sample_codec\<rparr> ''t'' ''k'' ?v = Ret (None, rdb)"
      "raw_inv mem_raw (\<lambda>s. True) map_of (\<lambda>k v. True) rdb" "rdb_r rdb = sample_codec" "raw_rows map_of rdb (''t'', ''k'') = Some (map_of ?v)"
    using raw_Insert_ok [OF sample_raw_inv t _ acc, of ?v "''k''"] fits(1) by auto
  obtain tdb where x: "txn_inv mem_txn (\<lambda>s. True) map_of (\<lambda>k v. True) tdb" "tdb_r tdb = sample_codec" "txn_rows map_of tdb (''t'', ''k'') = Some (map_of ?v)"
    using txn_Insert_ok [OF sample_txn_inv t _ acc, of ?v "''k''"] fits(1) by auto
  have "map_of ?v ++ map_of ?u = [''field0'' \<mapsto> [3], ''field1'' \<mapsto> [2]]" by (auto simp: fun_eq_iff)
  then show ?thesis
    using tikv_batch_update_overwrites [OF r(2) x(1) _ t _ acc acc r(4) x(3), of ?u] r(1,3) x(2) fits(2) by auto
qed

end
