(* ===== verification/Rocks.thy ===== *)
theory Rocks
  imports RowStore Props
begin

text \<open>
  The RocksDB adapter, \<^verbatim>\<open>db/rocksdb/db.go\<close>: options, creation and the row operations. The engine (\<open>tecbot/gorocksdb\<close>) is a parameter
  and \<open>rocks_laws\<close> its documented behaviour: \<open>Get\<close> of a missing key is not an error but delivers a slice without
  data, which decodes as a row without fields.
\<close>

section \<open>Options\<close>

text \<open>The calls of setters that the adapter makes on an options object, in their order, with their arguments.\<close>

datatype optval = OBool bool | OInt int | OFloat float64 | OString string

type_synonym settings = "(string \<times> optval) list"

definition rocks_getTableOptions :: "props \<Rightarrow> settings" where
  "rocks_getTableOptions p =
     [(''SetBlockSize'', OInt (GetInt p ''rocksdb.block_size'' (4 * 2 ^ 10))),
      (''SetBlockSizeDeviation'', OInt (GetInt p ''rocksdb.block_size_deviation'' 10)),
      (''SetCacheIndexAndFilterBlocks'', OBool (GetBool p ''rocksdb.cache_index_and_filter_blocks'' False)),
      (''SetNoBlockCache'', OBool (GetBool p ''rocksdb.no_block_cache'' False)),
      (''SetPinL0FilterAndIndexBlocksInCache'', OBool (GetBool p ''rocksdb.pin_l0_filter_and_index_blocks_in_cache'' False)),
      (''SetWholeKeyFiltering'', OBool (GetBool p ''rocksdb.whole_key_filtering'' True)),
      (''SetBlockRestartInterval'', OInt (GetInt p ''rocksdb.block_restart_interval'' 16))]
     @ (let b = GetString p ''rocksdb.filter_policy'' '''' in
        if b = ''rocksdb.BuiltinBloomFilter'' then [(''SetFilterPolicy NewBloomFilter'', OInt 10)] else [])
     @ (let indexType = GetString p ''rocksdb.index_type'' ''kBinarySearch'' in
        if indexType = ''kBinarySearch'' then [(''SetIndexType'', OString ''KBinarySearchIndexType'')]
        else if indexType = ''kHashSearch'' then [(''SetIndexType'', OString ''KHashSearchIndexType'')]
        else if indexType = ''kTwoLevelIndexSearch'' then [(''SetIndexType'', OString ''KTwoLevelIndexSearchIndexType'')]
        else [])"

definition rocks_getOptions :: "props \<Rightarrow> settings \<times> settings" where
  "rocks_getOptions p =
     ([(''SetCreateIfMissing'', OBool True),
       (''SetAllowConcurrentMemtableWrites'', OBool (GetBool p ''rocksdb.allow_concurrent_memtable_writes'' True)),
       (''SetAllowMmapReads'', OBool (GetBool p ''rocksdb.allow_mmap_reads'' False)),
       (''SetAllowMmapWrites'', OBool (GetBool p ''rocksdb.allow_mmap_writes'' False)),
       (''SetArenaBlockSize'', OInt (GetInt p ''rocksdb.arena_block_size'' 0)),
       (''SetDbWriteBufferSize'', OInt (GetInt p ''rocksdb.db_write_buffer_size'' 0)),
       (''SetHardPendingCompactionBytesLimit'', OInt (GetUint64 p ''rocksdb.hard_pending_compaction_bytes_limit'' (256 * 2 ^ 30))),
       (''SetLevel0FileNumCompactionTrigger'', OInt (GetInt p ''rocksdb.level0_file_num_compaction_trigger'' 4)),
       (''SetLevel0SlowdownWritesTrigger'', OInt (GetInt p ''rocksdb.level0_slowdown_writes_trigger'' 20)),
       (''SetLevel0StopWritesTrigger'', OInt (GetInt p ''rocksdb.level0_stop_writes_trigger'' 36)),
       (''SetMaxBytesForLevelBase'', OInt (GetUint64 p ''rocksdb.max_bytes_for_level_base'' (256 * 2 ^ 20))),
       (''SetMaxBytesForLevelMultiplier'', OFloat (GetFloat64 p ''rocksdb.max_bytes_for_level_multiplier'' (Fin 10))),
       (''SetMaxTotalWalSize'', OInt (GetUint64 p ''rocksdb.max_total_wal_size'' 0)),
       (''SetMemtableHugePageSize'', OInt (GetInt p ''rocksdb.memtable_huge_page_size'' 0)),
       (''SetNumLevels'', OInt (GetInt p ''rocksdb.num_levels'' 7)),
       (''SetUseDirectReads'', OBool (GetBool p ''rocksdb.use_direct_reads'' False)),
       (''SetUseFsync'', OBool (GetBool p ''rocksdb.use_fsync'' False)),
       (''SetWriteBufferSize'', OInt (GetInt p ''rocksdb.write_buffer_size'' (64 * 2 ^ 20))),
       (''SetMaxWriteBufferNumber'', OInt (GetInt p ''rocksdb.max_write_buffer_number'' 2)),
       (''SetWalDir'', OString (GetString p ''rocksdb.wal_dir'' ''''))],
      rocks_getTableOptions p)"

section \<open>The engine and the adapter\<close>

record 's rocks_api =
  rk_Get :: "'s \<Rightarrow> byte list \<Rightarrow> error + byte list"
  rk_Seek :: "'s \<Rightarrow> byte list \<Rightarrow> byte list list"
  rk_IterErr :: "'s \<Rightarrow> error option"
  rk_Put :: "'s \<Rightarrow> byte list \<Rightarrow> byte list \<Rightarrow> error option \<times> 's"
  rk_Delete :: "'s \<Rightarrow> byte list \<Rightarrow> error option \<times> 's"
  rk_Close :: "'s \<Rightarrow> 's"

record 's rocksDB =
  kdb_p :: props
  kdb_db :: 's
  kdb_r :: rowcodec

definition rocks_Create :: "(string list \<Rightarrow> settings \<times> settings \<Rightarrow> string \<Rightarrow> error + 's) \<Rightarrow> props \<Rightarrow> (error + 's rocksDB) go" where
  "rocks_Create OpenDb p =
     (let dir = GetString p ''rocksdb.dir'' ''/tmp/rocksdb'';
          removed = (if GetBool p prop_DropData prop_DropDataDefault then [dir] else [])
      in case OpenDb removed (rocks_getOptions p) dir of
           Inl err \<Rightarrow> Ret (Inl err)
         | Inr db \<Rightarrow> gbind (NewRowCodec p) (\<lambda>r. Ret (Inr \<lparr>kdb_p = p, kdb_db = db, kdb_r = r\<rparr>)))"

definition rocks_Close :: "'s rocks_api \<Rightarrow> 's rocksDB \<Rightarrow> error option \<times> 's rocksDB" where
  "rocks_Close api db = (None, db\<lparr>kdb_db := rk_Close api (kdb_db db)\<rparr>)"

definition rocks_put :: "error option \<times> 's \<Rightarrow> 's rocksDB \<Rightarrow> error option \<times> 's rocksDB" where
  "rocks_put res db = (fst res, db\<lparr>kdb_db := snd res\<rparr>)"

definition rocks_Read :: "'s rocks_api \<Rightarrow> 's rocksDB \<Rightarrow> string \<Rightarrow> string \<Rightarrow> string list \<Rightarrow> ((error + row) \<times> 's rocksDB) go" where
  "rocks_Read api db table key fnames =
     (case rk_Get api (kdb_db db) (getRowKey table key) of
        Inl err \<Rightarrow> Ret (Inl err, db)
      | Inr value \<Rightarrow> gbind (RowCodec_Decode (kdb_r db) value fnames) (\<lambda>m. Ret (m, db)))"

fun rocks_scan_loop :: "rowcodec \<Rightarrow> string list \<Rightarrow> nat \<Rightarrow> byte list list \<Rightarrow> (error + row list) go" where
  "rocks_scan_loop r fnames 0 items = Ret (Inr [])"
| "rocks_scan_loop r fnames (Suc n) [] = Ret (Inr [])"
| "rocks_scan_loop r fnames (Suc n) (value # items) =
     ebind (RowCodec_Decode r value fnames) (\<lambda>m. ebind (rocks_scan_loop r fnames n items) (\<lambda>ms. Ret (Inr (m # ms))))"

definition rocks_Scan ::
    "'s rocks_api \<Rightarrow> 's rocksDB \<Rightarrow> string \<Rightarrow> string \<Rightarrow> int \<Rightarrow> string list \<Rightarrow> ((error + row option list) \<times> 's rocksDB) go" where
  "rocks_Scan api db table startKey cnt fnames =
     (if cnt < 0 then Panic ''makeslice: len out of range''
      else gbind (rocks_scan_loop (kdb_r db) fnames (nat cnt) (rk_Seek api (kdb_db db) (getRowKey table startKey))) (\<lambda>res.
        case res of
          Inl err \<Rightarrow> Ret (Inl err, db)
        | Inr ms \<Rightarrow> (case rk_IterErr api (kdb_db db) of
              Some err \<Rightarrow> Ret (Inl err, db)
            | None \<Rightarrow> Ret (Inr (map Some ms @ replicate (nat cnt - length ms) None), db))))"

definition rocks_Update :: "'s rocks_api \<Rightarrow> 's rocksDB \<Rightarrow> string \<Rightarrow> string \<Rightarrow> row \<Rightarrow> (error option \<times> 's rocksDB) go" where
  "rocks_Update api db table key vals =
     gbind (rocks_Read api db table key []) (\<lambda>(res, db). case res of
         Inl err \<Rightarrow> Ret (Some err, db)
       | Inr m \<Rightarrow> (case RowCodec_Encode (kdb_r db) [] (merge_fields m vals) of
             Inl err \<Rightarrow> Ret (Some err, db)
           | Inr buf \<Rightarrow> Ret (rocks_put (rk_Put api (kdb_db db) (getRowKey table key) buf) db)))"

definition rocks_Insert :: "'s rocks_api \<Rightarrow> 's rocksDB \<Rightarrow> string \<Rightarrow> string \<Rightarrow> row \<Rightarrow> (error option \<times> 's rocksDB) go" where
  "rocks_Insert api db table key vals =
     (case RowCodec_Encode (kdb_r db) [] vals of
        Inl err \<Rightarrow> Ret (Some err, db)
      | Inr buf \<Rightarrow> Ret (rocks_put (rk_Put api (kdb_db db) (getRowKey table key) buf) db))"

definition rocks_Delete :: "'s rocks_api \<Rightarrow> 's rocksDB \<Rightarrow> string \<Rightarrow> string \<Rightarrow> (error option \<times> 's rocksDB) go" where
  "rocks_Delete api db table key = Ret (rocks_put (rk_Delete api (kdb_db db) (getRowKey table key)) db)"

definition rocks_db :: "'s rocks_api \<Rightarrow> 's rocksDB db" where
  "rocks_db api =
     \<lparr>db_Close = (\<lambda>d. Ret (rocks_Close api d)), db_InitThread = (\<lambda>d i n. Ret d), db_CleanupThread = Ret,
      db_Read = rocks_Read api, db_Scan = rocks_Scan api, db_Update = rocks_Update api,
      db_Insert = rocks_Insert api, db_Delete = rocks_Delete api,
      db_Batch = None, db_Analyze = None, db_TypeName = ''*rocksdb.rocksDB''\<rparr>"

section \<open>The adapter keeps the contract of a database\<close>

definition rocks_laws ::
    "'s rocks_api \<Rightarrow> ('s \<Rightarrow> bool) \<Rightarrow> ('s \<Rightarrow> byte list \<rightharpoonup> byte list) \<Rightarrow> (byte list \<Rightarrow> byte list \<Rightarrow> bool) \<Rightarrow> bool" where
  "rocks_laws api ok view adm \<longleftrightarrow>
     (\<forall>s k. ok s \<longrightarrow> rk_Get api s k = Inr (case view s k of Some v \<Rightarrow> v | None \<Rightarrow> []))
   \<and> (\<forall>s k v. ok s \<longrightarrow> adm k v \<longrightarrow> (\<exists>t. rk_Put api s k v = (None, t) \<and> ok t \<and> view t = (view s)(k \<mapsto> v)))
   \<and> (\<forall>s k. ok s \<longrightarrow> (\<exists>t. rk_Delete api s k = (None, t) \<and> ok t \<and> view t = (view s)(k := None)))"

lemma rocks_lawsD:
  assumes "rocks_laws api ok view adm" and "ok s"
  shows rocks_Get_law: "rk_Get api s k = Inr (case view s k of Some v \<Rightarrow> v | None \<Rightarrow> [])"
    and rocks_Put_law: "adm k v \<Longrightarrow> \<exists>t. rk_Put api s k v = (None, t) \<and> ok t \<and> view t = (view s)(k \<mapsto> v)"
    and rocks_Delete_law: "\<exists>t. rk_Delete api s k = (None, t) \<and> ok t \<and> view t = (view s)(k := None)"
  using assms unfolding rocks_laws_def by (simp | blast)+

definition rocks_rows :: "('s \<Rightarrow> byte list \<rightharpoonup> byte list) \<Rightarrow> 's rocksDB \<Rightarrow> table" where
  "rocks_rows view db = kv_rows (kdb_r db) (view (kdb_db db))"

definition rocks_inv ::
    "'s rocks_api \<Rightarrow> ('s \<Rightarrow> bool) \<Rightarrow> ('s \<Rightarrow> byte list \<rightharpoonup> byte list) \<Rightarrow> (byte list \<Rightarrow> byte list \<Rightarrow> bool) \<Rightarrow> 's rocksDB \<Rightarrow> bool" where
  "rocks_inv api ok view adm db \<longleftrightarrow> rocks_laws api ok view adm \<and> ok (kdb_db db) \<and> (\<exists>n. codec_ok (kdb_r db) n)
     \<and> kv_wf (kdb_r db) (view (kdb_db db))"

lemma rocks_invD:
  assumes "rocks_inv api ok view adm db"
  shows "rocks_laws api ok view adm" and "ok (kdb_db db)" and "kv_wf (kdb_r db) (view (kdb_db db))" and "\<exists>n. codec_ok (kdb_r db) n"
  using assms by (auto simp: rocks_inv_def)

lemma rocks_put_ok:
  assumes "rocks_inv api ok view adm db" and "plain_table t" and "adm (getRowKey t k) bs" and "row_wf (kdb_r db) bs"
  shows "\<exists>db'. rocks_put (rk_Put api (kdb_db db) (getRowKey t k) bs) db = (None, db') \<and> rocks_inv api ok view adm db' \<and> kdb_r db' = kdb_r db
    \<and> rocks_rows view db' = (rocks_rows view db)((t, k) \<mapsto> row_of (kdb_r db) bs)"
proof -
  note I = rocks_invD [OF assms(1)]
  obtain s where "rk_Put api (kdb_db db) (getRowKey t k) bs = (None, s)" "ok s" "view s = (view (kdb_db db))(getRowKey t k \<mapsto> bs)"
    using rocks_Put_law [OF I(1,2) assms(3)] by blast
  then show ?thesis using assms by (auto simp: rocks_put_def rocks_inv_def rocks_rows_def kv_rows_upd intro: kv_wf_upd)
qed

lemma row_empty: "row_wf r []" "row_of r [] = Map.empty"
  by (auto simp: row_wf_def row_of_def DecodeRow_def ran_def)

text \<open>What \<open>Get\<close> delivers is always a readable row: the stored one, or an empty one for a missing key.\<close>

lemma rocks_Get_row:
  assumes "rocks_inv api ok view adm db" and "plain_table t"
  shows "\<exists>bs. rk_Get api (kdb_db db) (getRowKey t k) = Inr bs \<and> row_wf (kdb_r db) bs
    \<and> row_of (kdb_r db) bs = (case rocks_rows view db (t, k) of Some m \<Rightarrow> m | None \<Rightarrow> Map.empty)"
proof -
  note I = rocks_invD [OF assms(1)]
  show ?thesis
  proof (cases "view (kdb_db db) (getRowKey t k)")
    case None
    then show ?thesis using rocks_Get_law [OF I(1,2)] assms(2) row_empty by (simp add: rocks_rows_def kv_rows_def)
  next
    case (Some bs)
    then have "row_wf (kdb_r db) bs" using I(3) by (auto simp: kv_wf_def intro: ranI)
    then show ?thesis using Some rocks_Get_law [OF I(1,2)] assms(2) by (simp add: rocks_rows_def kv_rows_def)
  qed
qed

lemma rocks_Insert_ok:
  assumes "rocks_inv api ok view adm db" and "plain_table t" and "row_fits (kdb_r db) vs" and "row_accepts adm t k (map_of vs)"
  shows "\<exists>db'. rocks_Insert api db t k vs = Ret (None, db') \<and> rocks_inv api ok view adm db' \<and> kdb_r db' = kdb_r db
    \<and> rocks_rows view db' = (rocks_rows view db)((t, k) \<mapsto> map_of vs)"
proof -
  obtain bs where bs: "RowCodec_Encode (kdb_r db) [] vs = Inr bs" "adm (getRowKey t k) bs" "row_wf (kdb_r db) bs" "row_of (kdb_r db) bs = map_of vs"
    using encode_accepted [OF _ assms(3,4)] rocks_invD(4) [OF assms(1)] by blast
  then show ?thesis using rocks_put_ok [OF assms(1,2) bs(2,3)] by (auto simp: rocks_Insert_def)
qed

text \<open>An update of a missing row inserts it.\<close>

lemma rocks_Update_ok:
  assumes "rocks_inv api ok view adm db" and "plain_table t" and "row_fits (kdb_r db) vs"
    and "m = (case rocks_rows view db (t, k) of Some m \<Rightarrow> m | None \<Rightarrow> Map.empty)" and "row_accepts adm t k (m ++ map_of vs)"
  shows "\<exists>db'. rocks_Update api db t k vs = Ret (None, db') \<and> rocks_inv api ok view adm db' \<and> kdb_r db' = kdb_r db
    \<and> rocks_rows view db' = (rocks_rows view db)((t, k) \<mapsto> m ++ map_of vs)"
proof -
  obtain n where n: "codec_ok (kdb_r db) n" using rocks_invD(4) [OF assms(1)] by blast
  obtain old where old: "rk_Get api (kdb_db db) (getRowKey t k) = Inr old" "row_wf (kdb_r db) old" "row_of (kdb_r db) old = m"
    using rocks_Get_row [OF assms(1,2)] assms(4) by blast
  obtain data bs where d: "RowCodec_Decode (kdb_r db) old [] = Ret (Inr data)"
      "RowCodec_Encode (kdb_r db) [] (merge_fields data vs) = Inr bs" "adm (getRowKey t k) bs" "row_wf (kdb_r db) bs"
      "row_of (kdb_r db) bs = m ++ map_of vs"
    using merge_accepted [OF n old(2) assms(3)] assms(5) old(3) by blast
  then show ?thesis using rocks_put_ok [OF assms(1,2) d(3,4)] old(1) by (auto simp: rocks_Update_def rocks_Read_def)
qed

lemma rocks_Delete_ok:
  assumes "rocks_inv api ok view adm db" and "plain_table t"
  shows "\<exists>db'. rocks_Delete api db t k = Ret (None, db') \<and> rocks_inv api ok view adm db' \<and> kdb_r db' = kdb_r db
    \<and> rocks_rows view db' = (rocks_rows view db)((t, k) := None)"
proof -
  note I = rocks_invD [OF assms(1)]
  obtain s where "rk_Delete api (kdb_db db) (getRowKey t k) = (None, s)" "ok s" "view s = (view (kdb_db db))(getRowKey t k := None)"
    using rocks_Delete_law [OF I(1,2), of "getRowKey t k"] by auto
  then show ?thesis using assms by (auto simp: rocks_Delete_def rocks_put_def rocks_inv_def rocks_rows_def kv_rows_upd intro: kv_wf_upd)
qed

lemma rocks_Read_ok:
  assumes "rocks_inv api ok view adm db" and "plain_table t" and "set fs \<subseteq> set (codec_fields (kdb_r db))"
    and "m = (case rocks_rows view db (t, k) of Some m \<Rightarrow> m | None \<Rightarrow> Map.empty)"
  shows "\<exists>res. rocks_Read api db t k fs = Ret (Inr res, db) \<and> map_of res = (if fs = [] then m else m |` set fs) \<and> distinct (map fst res)"
proof -
  obtain bs where bs: "rk_Get api (kdb_db db) (getRowKey t k) = Inr bs" "row_wf (kdb_r db) bs" "row_of (kdb_r db) bs = m"
    using rocks_Get_row [OF assms(1,2)] assms(4) by blast
  then show ?thesis using decode_row [OF bs(2) assms(3)] by (auto simp: rocks_Read_def)
qed

interpretation rocks: row_db "rocks_db api" "rocks_inv api ok view adm" "rocks_rows view"
    "\<lambda>db. set (codec_fields (kdb_r db))" plain_table "row_accepts adm" for api ok view adm
proof (unfold_locales, goal_cases)
  case (1 d t v k)
  then show ?case using rocks_Insert_ok [OF 1(1,2) _ 1(4)] by (auto simp: rocks_db_def row_ok_fits)
next
  case (2 d t v k m)
  then show ?case using rocks_Update_ok [OF 2(1,2), of v m k] by (auto simp: rocks_db_def row_ok_fits)
next
  case (3 d t k m)
  then show ?case using rocks_Delete_ok [OF 3(1,2), of k] by (auto simp: rocks_db_def)
next
  case (4 d t fs k m)
  then show ?case using rocks_Read_ok [OF 4(1-3), of m k] by (auto simp: rocks_db_def)
qed

end
