(* ===== verification/RowPolicy.thy ===== *)
theory RowPolicy
  imports RowStore
begin

text \<open>
  The databases differ in what \<open>Insert\<close> does to a row that exists, what \<open>Update\<close> does to the fields it does not name, and
  what \<open>Read\<close> delivers. A row policy says so; the locale \<open>policy_db\<close> is the contract of a database with a policy, which
  the adapters for SQL, document and object stores are instances of. The contract \<open>row_db\<close> is the one with the
  standard policy.
\<close>

section \<open>Policies\<close>

type_synonym rowmap = "string \<rightharpoonup> byte list"

record row_policy =
  rp_ins :: "rowmap option \<Rightarrow> rowmap \<Rightarrow> rowmap"
  rp_upd :: "rowmap \<Rightarrow> rowmap \<Rightarrow> rowmap"
  rp_sel :: "string \<Rightarrow> rowmap \<Rightarrow> string list \<Rightarrow> rowmap"

definition select_all :: "string \<Rightarrow> rowmap \<Rightarrow> string list \<Rightarrow> rowmap" where
  "select_all k m fs = (if fs = [] then m else m |` set fs)"

text \<open>A \<open>Read\<close> that finds no row may deliver the nil map; to everyone but the shell it is a map without fields.\<close>

definition nil_row :: "row option \<Rightarrow> row" where
  "nil_row r = (case r of Some m \<Rightarrow> m | None \<Rightarrow> [])"

text \<open>An insert replaces the row, an update merges its fields into it, a read delivers the requested fields.\<close>

definition standard_policy :: row_policy where
  "standard_policy = \<lparr>rp_ins = (\<lambda>old v. v), rp_upd = (\<lambda>m v. m ++ v), rp_sel = select_all\<rparr>"

text \<open>In some stores an insert merges into a row that exists.\<close>

definition merge_new :: "('a \<rightharpoonup> 'b) option \<Rightarrow> ('a \<rightharpoonup> 'b) \<Rightarrow> 'a \<rightharpoonup> 'b" where
  "merge_new old v = (case old of Some m \<Rightarrow> m ++ v | None \<Rightarrow> v)"

fun policy_exec :: "row_policy \<Rightarrow> dbop \<Rightarrow> table \<Rightarrow> dbres \<times> table" where
  "policy_exec P (OpInsert t k v) T = (Done None, T((t, k) \<mapsto> rp_ins P (T (t, k)) (map_of v)))"
| "policy_exec P (OpUpdate t k v) T = (Done None, T((t, k) \<mapsto> rp_upd P (the (T (t, k))) (map_of v)))"
| "policy_exec P (OpDelete t k) T = (Done None, T((t, k) := None))"
| "policy_exec P (OpRead t k fs) T = (Row (Inr (rp_sel P k (the (T (t, k))) fs)), T)"

fun policy_run :: "row_policy \<Rightarrow> dbop list \<Rightarrow> table \<Rightarrow> dbres list \<times> table" where
  "policy_run P [] T = ([], T)"
| "policy_run P (op # ops) T =
     (let (x, T1) = policy_exec P op T; (xs, T2) = policy_run P ops T1 in (x # xs, T2))"

lemma policy_exec_standard: "policy_exec standard_policy op T = table_exec op T"
  by (cases op) (auto simp: standard_policy_def select_all_def)

lemma policy_run_standard: "policy_run standard_policy ops T = table_run ops T"
  by (induction ops arbitrary: T) (auto simp: policy_exec_standard)

text \<open>Which operations a database with a policy takes.\<close>

fun pop_ok :: "row_policy \<Rightarrow> string set \<Rightarrow> (string \<Rightarrow> bool) \<Rightarrow> (string \<Rightarrow> string \<Rightarrow> rowmap \<Rightarrow> bool) \<Rightarrow> dbop \<Rightarrow> table \<Rightarrow> bool" where
  "pop_ok P known tables accepts (OpInsert t k v) T \<longleftrightarrow>
     tables t \<and> row_ok known v \<and> accepts t k (rp_ins P (T (t, k)) (map_of v))"
| "pop_ok P known tables accepts (OpUpdate t k v) T \<longleftrightarrow>
     tables t \<and> row_ok known v \<and> v \<noteq> [] \<and> T (t, k) \<noteq> None \<and> accepts t k (rp_upd P (the (T (t, k))) (map_of v))"
| "pop_ok P known tables accepts (OpDelete t k) T \<longleftrightarrow> tables t \<and> T (t, k) \<noteq> None"
| "pop_ok P known tables accepts (OpRead t k fs) T \<longleftrightarrow> tables t \<and> set fs \<subseteq> known \<and> T (t, k) \<noteq> None"

fun pops_ok :: "row_policy \<Rightarrow> string set \<Rightarrow> (string \<Rightarrow> bool) \<Rightarrow> (string \<Rightarrow> string \<Rightarrow> rowmap \<Rightarrow> bool) \<Rightarrow> dbop list \<Rightarrow> table \<Rightarrow> bool" where
  "pops_ok P known tables accepts [] T \<longleftrightarrow> True"
| "pops_ok P known tables accepts (op # ops) T \<longleftrightarrow>
     pop_ok P known tables accepts op T \<and> pops_ok P known tables accepts ops (snd (policy_exec P op T))"

section \<open>The contract\<close>

locale policy_db =
  fixes D :: "'d db"
    and inv :: "'d \<Rightarrow> bool"
    and rows :: "'d \<Rightarrow> table"
    and known :: "'d \<Rightarrow> string set"
    and tables :: "string \<Rightarrow> bool"
    and accepts :: "string \<Rightarrow> string \<Rightarrow> rowmap \<Rightarrow> bool"
    and P :: "'d \<Rightarrow> row_policy"
  assumes Insert: "inv d \<Longrightarrow> tables t \<Longrightarrow> row_ok (known d) v \<Longrightarrow> accepts t k (rp_ins (P d) (rows d (t, k)) (map_of v)) \<Longrightarrow>
      \<exists>d'. db_Insert D d t k v = Ret (None, d') \<and> inv d' \<and> known d' = known d \<and> P d' = P d
        \<and> rows d' = (rows d)((t, k) \<mapsto> rp_ins (P d) (rows d (t, k)) (map_of v))"
    and Update: "inv d \<Longrightarrow> tables t \<Longrightarrow> row_ok (known d) v \<Longrightarrow> v \<noteq> [] \<Longrightarrow> rows d (t, k) = Some m \<Longrightarrow> accepts t k (rp_upd (P d) m (map_of v)) \<Longrightarrow>
      \<exists>d'. db_Update D d t k v = Ret (None, d') \<and> inv d' \<and> known d' = known d \<and> P d' = P d
        \<and> rows d' = (rows d)((t, k) \<mapsto> rp_upd (P d) m (map_of v))"
    and Delete: "inv d \<Longrightarrow> tables t \<Longrightarrow> rows d (t, k) = Some m \<Longrightarrow>
      \<exists>d'. db_Delete D d t k = Ret (None, d') \<and> inv d' \<and> known d' = known d \<and> P d' = P d \<and> rows d' = (rows d)((t, k) := None)"
    and Read: "inv d \<Longrightarrow> tables t \<Longrightarrow> set fs \<subseteq> known d \<Longrightarrow> rows d (t, k) = Some m \<Longrightarrow>
      \<exists>res d'. db_Read D d t k fs = Ret (Inr res, d') \<and> inv d' \<and> known d' = known d \<and> P d' = P d \<and> rows d' = rows d
        \<and> map_of res = rp_sel (P d) k m fs"
begin

lemma policy_exec_refines:
  assumes "inv d" and "pop_ok (P d) (known d) tables accepts op (rows d)"
  shows "\<exists>d'. db_exec D op d = Ret (fst (policy_exec (P d) op (rows d)), d') \<and> inv d' \<and> known d' = known d \<and> P d' = P d
    \<and> rows d' = snd (policy_exec (P d) op (rows d))"
proof (cases op)
  case (OpInsert t k v)
  then show ?thesis using assms Insert [of d t v k] by (auto simp: map_res_def)
next
  case (OpUpdate t k v)
  then show ?thesis using assms Update [of d t v k] by (auto simp: map_res_def)
next
  case (OpDelete t k)
  then show ?thesis using assms Delete [of d t k] by (auto simp: map_res_def)
next
  case (OpRead t k fs)
  then show ?thesis using assms Read [of d t fs k] by (auto simp: map_res_def)
qed

lemma policy_run_refines:
  assumes "inv d" and "pops_ok (P d) (known d) tables accepts ops (rows d)"
  shows "\<exists>d'. db_run D ops d = Ret (fst (policy_run (P d) ops (rows d)), d') \<and> inv d' \<and> known d' = known d \<and> P d' = P d
    \<and> rows d' = snd (policy_run (P d) ops (rows d))"
  using assms
proof (induction ops arbitrary: d)
  case (Cons op ops)
  obtain d1 where d1: "db_exec D op d = Ret (fst (policy_exec (P d) op (rows d)), d1)" "inv d1" "known d1 = known d" "P d1 = P d"
      "rows d1 = snd (policy_exec (P d) op (rows d))"
    using policy_exec_refines [of d op] Cons.prems by auto
  with Cons.IH [of d1] Cons.prems(2) obtain d2 where
    "db_run D ops d1 = Ret (fst (policy_run (P d) ops (rows d1)), d2)" "inv d2" "known d2 = known d" "P d2 = P d"
    "rows d2 = snd (policy_run (P d) ops (rows d1))"
    by auto
  with d1 show ?case by (simp add: Let_def split_def)
qed simp

end

text \<open>A database that keeps \<open>row_db\<close> keeps the contract with the standard policy.\<close>

sublocale row_db \<subseteq> standard: policy_db D inv rows known tables accepts "\<lambda>d. standard_policy"
proof (unfold_locales, goal_cases)
  case (1 d t v k)
  then show ?case using Insert [of d t v k] by (simp add: standard_policy_def)
next
  case (2 d t v k m)
  then show ?case using Update [of d t v k m] by (simp add: standard_policy_def)
next
  case (3 d t k m)
  then show ?case using Delete [of d t k m] by simp
next
  case (4 d t fs k m)
  then show ?case using Read [of d t fs k m] by (auto simp: standard_policy_def select_all_def)
qed

section \<open>When a policy makes no difference\<close>

text \<open>
  A benchmark inserts a key only once and names the fields it reads. On such sequences two policies that insert a new row
  as it is, merge updates and deliver the named fields of a row behave alike.
\<close>

fun bench_op :: "string set \<Rightarrow> dbop \<Rightarrow> table \<Rightarrow> bool" where
  "bench_op known (OpInsert t k v) T \<longleftrightarrow> T (t, k) = None \<and> fst ` set v = known"
| "bench_op known (OpUpdate t k v) T \<longleftrightarrow> fst ` set v \<subseteq> known"
| "bench_op known (OpDelete t k) T \<longleftrightarrow> True"
| "bench_op known (OpRead t k fs) T \<longleftrightarrow> fs \<noteq> [] \<and> set fs \<subseteq> known \<and> T (t, k) \<noteq> None"

fun bench_ops :: "string set \<Rightarrow> dbop list \<Rightarrow> table \<Rightarrow> bool" where
  "bench_ops known [] T \<longleftrightarrow> True"
| "bench_ops known (op # ops) T \<longleftrightarrow> bench_op known op T \<and> bench_ops known ops (snd (table_exec op T))"

definition merging_policy :: "string set \<Rightarrow> row_policy \<Rightarrow> bool" where
  "merging_policy known P \<longleftrightarrow> (\<forall>v. rp_ins P None v = v) \<and> (\<forall>m v. rp_upd P m v = m ++ v)
     \<and> (\<forall>k m fs. fs \<noteq> [] \<longrightarrow> dom m = known \<longrightarrow> set fs \<subseteq> known \<longrightarrow> rp_sel P k m fs = m |` set fs)"

definition full_rows :: "string set \<Rightarrow> table \<Rightarrow> bool" where
  "full_rows known T \<longleftrightarrow> (\<forall>m\<in>ran T. dom m = known)"

lemma full_rows_upd: "full_rows known T \<Longrightarrow> (\<And>m. e = Some m \<Longrightarrow> dom m = known) \<Longrightarrow> full_rows known (T(tk := e))"
  by (auto simp: full_rows_def ran_def split: if_splits)

lemma bench_exec:
  assumes "merging_policy known P" and "full_rows known T" and "bench_op known op T" and "pop_ok P known tables accepts op T"
  shows "policy_exec P op T = table_exec op T \<and> full_rows known (snd (table_exec op T))"
proof (cases op)
  case (OpInsert t k v)
  then have "dom (map_of v) = known" using assms(3) by (simp add: dom_map_of_conv_image_fst)
  then have "full_rows known (T((t, k) \<mapsto> map_of v))" using assms(2) by (intro full_rows_upd) auto
  then show ?thesis using assms OpInsert by (simp add: merging_policy_def)
next
  case (OpUpdate t k v)
  then obtain m where m: "T (t, k) = Some m" using assms(4) by auto
  then have "dom m = known" using assms(2) unfolding full_rows_def by (metis ranI)
  then have "dom (m ++ map_of v) = known" using assms(3) OpUpdate by (simp add: dom_map_of_conv_image_fst Un_absorb1)
  then have "full_rows known (T((t, k) \<mapsto> m ++ map_of v))"
    using full_rows_upd [OF assms(2), of "Some (m ++ map_of v)"] by simp
  then show ?thesis using assms(1) OpUpdate m by (simp add: merging_policy_def)
next
  case (OpDelete t k)
  then show ?thesis using assms(2) by (auto intro: full_rows_upd)
next
  case (OpRead t k fs)
  then obtain m where m: "T (t, k) = Some m" using assms(4) by auto
  then have "dom m = known" using assms(2) unfolding full_rows_def by (metis ranI)
  then show ?thesis using assms OpRead m by (auto simp: merging_policy_def)
qed

lemma bench_run:
  assumes "merging_policy known P" and "full_rows known T" and "bench_ops known ops T" and "pops_ok P known tables accepts ops T"
  shows "policy_run P ops T = table_run ops T"
  using assms(2-4)
proof (induction ops arbitrary: T)
  case (Cons op ops)
  have "policy_exec P op T = table_exec op T" "full_rows known (snd (table_exec op T))"
    using bench_exec [OF assms(1) Cons.prems(1)] Cons.prems(2,3) by auto
  with Cons show ?case by (simp add: split_def)
qed simp

end
