(* ===== verification/SqlText.thy ===== *)
theory SqlText
  imports RowPolicy GoStrings
begin

text \<open>
  The fragment of SQL that the adapters for SQL databases write: its tokens, a parser for it, and what a command of it
  does to a table of rows. The servers are parameters of the model; the laws about them say that they run a text as this
  fragment reads it. A dialect fixes the placeholders and the words around an insert.
\<close>

section \<open>Tokens\<close>

definition is_wordchar :: "char \<Rightarrow> bool" where
  "is_wordchar c \<longleftrightarrow> is_digit c \<or> (CHR ''a'' \<le> c \<and> c \<le> CHR ''z'') \<or> (CHR ''A'' \<le> c \<and> c \<le> CHR ''Z'') \<or> c = CHR ''_'' \<or> c = CHR ''.'' \<or> c = CHR ''$''"

function sql_tokens :: "string \<Rightarrow> string list" where
  "sql_tokens [] = []"
| "sql_tokens (c # cs) =
     (if c = CHR '' '' then sql_tokens cs
      else if is_wordchar c then (c # takeWhile is_wordchar cs) # sql_tokens (dropWhile is_wordchar cs)
      else [c] # sql_tokens cs)"
  by pat_completeness auto
termination
  by (relation "measure length") (auto simp: le_imp_less_Suc length_dropWhile_le)

definition sql_reserved :: "string list" where
  "sql_reserved = [''SELECT'', ''FROM'', ''WHERE'', ''INSERT'', ''INTO'', ''VALUES'', ''UPDATE'', ''SET'', ''DELETE'', ''IN'', ''LIMIT'', ''FORCE'', ''INDEX'',
     ''IGNORE'', ''OR'', ''ON'', ''CONFLICT'', ''DO'', ''NOTHING'', ''PRIMARY'', ''YCSB_KEY'']"

definition is_name :: "string \<Rightarrow> bool" where
  "is_name w \<longleftrightarrow> w \<noteq> [] \<and> list_all is_wordchar w \<and> w \<notin> set sql_reserved"

definition starts_plain :: "string \<Rightarrow> bool" where
  "starts_plain s \<longleftrightarrow> s = [] \<or> \<not> is_wordchar (hd s)"

lemma tokens_word:
  assumes "w \<noteq> []" and "list_all is_wordchar w" and "starts_plain s"
  shows "sql_tokens (w @ s) = w # sql_tokens s"
proof -
  obtain c cs where w: "w = c # cs" using assms(1) by (cases w) auto
  have c: "is_wordchar c" "c \<noteq> CHR '' ''" and cs: "list_all is_wordchar cs"
    using assms(2) by (auto simp: w is_wordchar_def is_digit_def)
  have "takeWhile is_wordchar s = []" "dropWhile is_wordchar s = s"
    using assms(3) by (cases s; auto simp: starts_plain_def)+
  then have "takeWhile is_wordchar (cs @ s) = cs" "dropWhile is_wordchar (cs @ s) = s"
    using cs by (simp_all add: list_all_iff takeWhile_append2 dropWhile_append2)
  then show ?thesis using c by (simp add: w)
qed

lemma tokens_name: "is_name w \<Longrightarrow> starts_plain s \<Longrightarrow> sql_tokens (w @ s) = w # sql_tokens s"
  by (simp add: tokens_word is_name_def)

lemma starts_plain_simps [simp]:
  "starts_plain []" "starts_plain (c # s) \<longleftrightarrow> \<not> is_wordchar c"
  by (simp_all add: starts_plain_def)

lemma wordchar_simps [simp]:
  "\<not> is_wordchar (CHR '' '')" "\<not> is_wordchar (CHR '','')" "\<not> is_wordchar (CHR ''('')" "\<not> is_wordchar (CHR '')'')"
  "\<not> is_wordchar (CHR ''='')" "\<not> is_wordchar (CHR ''>'')" "\<not> is_wordchar (CHR ''?'')" "\<not> is_wordchar (CHR ''*'')"
  "\<not> is_wordchar (CHR 0x60)"
  by (simp_all add: is_wordchar_def is_digit_def)

text \<open>Tokens of a text after a literal keyword, and after a symbol.\<close>

lemma tokens_space [simp]: "sql_tokens (CHR '' '' # s) = sql_tokens s"
  by simp

lemma tokens_symbol: "\<not> is_wordchar c \<Longrightarrow> c \<noteq> CHR '' '' \<Longrightarrow> sql_tokens (c # s) = [c] # sql_tokens s"
  by simp

declare sql_tokens.simps(2) [simp del]

lemma tokens_space' [simp]: "sql_tokens (CHR '' '' # s) = sql_tokens s"
  by (simp add: sql_tokens.simps(2))

lemma tokens_symbols [simp]:
  "sql_tokens (CHR '','' # s) = '','' # sql_tokens s" "sql_tokens (CHR ''('' # s) = ''('' # sql_tokens s"
  "sql_tokens (CHR '')'' # s) = '')'' # sql_tokens s" "sql_tokens (CHR ''='' # s) = ''='' # sql_tokens s"
  "sql_tokens (CHR ''>'' # s) = ''>'' # sql_tokens s" "sql_tokens (CHR ''?'' # s) = ''?'' # sql_tokens s"
  "sql_tokens (CHR ''*'' # s) = ''*'' # sql_tokens s" "sql_tokens (CHR 0x60 # s) = [CHR 0x60] # sql_tokens s"
  by (simp_all add: sql_tokens.simps(2))

section \<open>The parser\<close>

record sql_dialect =
  sd_ph :: "nat \<Rightarrow> string"
  sd_insert :: "string list"
  sd_conflict :: "string list"
  sd_hint :: "string list"

definition strip :: "string list \<Rightarrow> string list \<Rightarrow> string list option" where
  "strip ws ts = (if take (length ws) ts = ws then Some (drop (length ws) ts) else None)"

lemma strip_append [simp]: "strip ws (ws @ ts) = Some ts"
  by (simp add: strip_def)

lemma strip_Nil [simp]: "strip [] ts = Some ts"
  by (simp add: strip_def)

lemma strip_Cons [simp]: "strip (w # ws) (t # ts) = (if w = t then strip ws ts else None)"
  by (auto simp: strip_def)

lemma strip_short [simp]: "strip (w # ws) [] = None"
  by (simp add: strip_def)

function p_names :: "string list \<Rightarrow> (string list \<times> string list) option" where
  "p_names [] = None"
| "p_names (w # ts) =
     (if \<not> is_name w then None
      else if ts \<noteq> [] \<and> hd ts = '','' then map_option (apfst (Cons w)) (p_names (tl ts)) else Some ([w], ts))"
  by pat_completeness auto
termination
  by (relation "measure length") (auto simp: neq_Nil_conv)

text \<open>Placeholders \<open>ph i, ph (i + 1), ...\<close>: the number of them.\<close>

function p_holders :: "(nat \<Rightarrow> string) \<Rightarrow> nat \<Rightarrow> string list \<Rightarrow> (nat \<times> string list) option" where
  "p_holders ph i [] = None"
| "p_holders ph i (w # ts) =
     (if w \<noteq> ph i then None
      else if ts \<noteq> [] \<and> hd ts = '','' then map_option (apfst Suc) (p_holders ph (Suc i) (tl ts)) else Some (1, ts))"
  by pat_completeness auto
termination
  by (relation "measure (\<lambda>(ph, i, ts). length ts)") (auto simp: neq_Nil_conv)

text \<open>The assignments of an update: the names, with placeholders from \<open>i\<close> on.\<close>

function p_sets :: "(nat \<Rightarrow> string) \<Rightarrow> nat \<Rightarrow> string list \<Rightarrow> (string list \<times> string list) option" where
  "p_sets ph i [] = None"
| "p_sets ph i (w # ts) =
     (if \<not> is_name w then None
      else case strip [''='', ph i] ts of
             None \<Rightarrow> None
           | Some ts' \<Rightarrow> if ts' \<noteq> [] \<and> hd ts' = '','' then map_option (apfst (Cons w)) (p_sets ph (Suc i) (tl ts')) else Some ([w], ts'))"
  by pat_completeness auto
termination
  by (relation "measure (\<lambda>(ph, i, ts). length ts)") (auto simp: strip_def split: if_splits)

text \<open>The rows of an insert: groups of \<open>n\<close> placeholders in parentheses.\<close>

function p_groups :: "(nat \<Rightarrow> string) \<Rightarrow> nat \<Rightarrow> nat \<Rightarrow> string list \<Rightarrow> (nat \<times> string list) option" where
  "p_groups ph i n ts =
     (case strip [''(''] ts of
        None \<Rightarrow> None
      | Some ts1 \<Rightarrow> (case p_holders ph i ts1 of
            None \<Rightarrow> None
          | Some (m, ts2) \<Rightarrow> (case strip ['')''] ts2 of
                None \<Rightarrow> None
              | Some ts3 \<Rightarrow> if m \<noteq> n \<or> length ts \<le> length ts3 then None
                  else if ts3 \<noteq> [] \<and> hd ts3 = '','' then map_option (apfst Suc) (p_groups ph (i + n) n (tl ts3)) else Some (1, ts3))))"
  by pat_completeness auto
termination
  by (relation "measure (\<lambda>(ph, i, n, ts). length ts)") auto

datatype sqlcmd =
    SqlSelect "string list" string
  | SqlScan "string list" string
  | SqlSelectIn "string list" string nat
  | SqlInsert string "string list" nat
  | SqlUpdate string "string list"
  | SqlDelete string
  | SqlDeleteIn string nat

definition p_star :: "string list \<Rightarrow> (string list \<times> string list) option" where
  "p_star ts = (case strip [''*''] ts of Some ts' \<Rightarrow> Some ([], ts') | None \<Rightarrow> p_names ts)"

definition p_table :: "string list \<Rightarrow> (string \<times> string list) option" where
  "p_table ts = (case ts of [] \<Rightarrow> None | w # ts' \<Rightarrow> if is_name w then Some (w, ts') else None)"

definition skip :: "string list \<Rightarrow> string list \<Rightarrow> string list" where
  "skip ws ts = (case strip ws ts of Some ts' \<Rightarrow> ts' | None \<Rightarrow> ts)"

definition p_end :: "sqlcmd \<Rightarrow> string list \<Rightarrow> sqlcmd option" where
  "p_end c ts = (if ts = [] then Some c else None)"

definition p_in :: "(nat \<Rightarrow> string) \<Rightarrow> (nat \<Rightarrow> sqlcmd) \<Rightarrow> string list \<Rightarrow> sqlcmd option" where
  "p_in ph mk ts =
     Option.bind (strip [''IN'', ''(''] ts) (\<lambda>ts. Option.bind (p_holders ph 1 ts) (\<lambda>(n, ts).
       Option.bind (strip ['')''] ts) (p_end (mk n))))"

definition p_select :: "sql_dialect \<Rightarrow> string list \<Rightarrow> sqlcmd option" where
  "p_select dia ts =
     Option.bind (p_star ts) (\<lambda>(cols, ts). Option.bind (strip [''FROM''] ts) (\<lambda>ts. Option.bind (p_table ts) (\<lambda>(t, ts).
     Option.bind (strip [''WHERE'', ''YCSB_KEY''] (skip (sd_hint dia) ts)) (\<lambda>ts.
       case strip [''='', sd_ph dia 1] ts of Some ts \<Rightarrow> p_end (SqlSelect cols t) ts
       | None \<Rightarrow> (case strip [''>'', ''='', sd_ph dia 1, ''LIMIT'', sd_ph dia 2] ts of Some ts \<Rightarrow> p_end (SqlScan cols t) ts
       | None \<Rightarrow> p_in (sd_ph dia) (SqlSelectIn cols t) ts)))))"

definition p_insert :: "sql_dialect \<Rightarrow> string list \<Rightarrow> sqlcmd option" where
  "p_insert dia ts =
     Option.bind (p_table ts) (\<lambda>(t, ts). Option.bind (strip [''('', ''YCSB_KEY''] ts) (\<lambda>ts.
       Option.bind (case strip ['',''] ts of Some ts \<Rightarrow> p_names ts | None \<Rightarrow> Some ([], ts)) (\<lambda>(cols, ts).
       Option.bind (strip ['')'', ''VALUES''] ts) (\<lambda>ts. Option.bind (p_groups (sd_ph dia) 1 (Suc (length cols)) ts) (\<lambda>(n, ts).
       Option.bind (strip (sd_conflict dia) ts) (p_end (SqlInsert t cols n)))))))"

definition p_update :: "sql_dialect \<Rightarrow> string list \<Rightarrow> sqlcmd option" where
  "p_update dia ts =
     Option.bind (p_table ts) (\<lambda>(t, ts). Option.bind (strip [''SET''] ts) (\<lambda>ts. Option.bind (p_sets (sd_ph dia) 1 ts) (\<lambda>(cols, ts).
       Option.bind (strip [''WHERE'', ''YCSB_KEY'', ''='', sd_ph dia (Suc (length cols))] ts) (p_end (SqlUpdate t cols)))))"

definition p_delete :: "sql_dialect \<Rightarrow> string list \<Rightarrow> sqlcmd option" where
  "p_delete dia ts =
     Option.bind (p_table ts) (\<lambda>(t, ts). Option.bind (strip [''WHERE'', ''YCSB_KEY''] ts) (\<lambda>ts.
       case strip [''='', sd_ph dia 1] ts of Some ts \<Rightarrow> p_end (SqlDelete t) ts | None \<Rightarrow> p_in (sd_ph dia) (SqlDeleteIn t) ts))"

definition sql_parse :: "sql_dialect \<Rightarrow> string \<Rightarrow> sqlcmd option" where
  "sql_parse dia q =
     (let ts = sql_tokens q in
      case strip [''SELECT''] ts of Some ts \<Rightarrow> p_select dia ts
      | None \<Rightarrow> (case strip (sd_insert dia) ts of Some ts \<Rightarrow> p_insert dia ts
      | None \<Rightarrow> (case strip [''UPDATE''] ts of Some ts \<Rightarrow> p_update dia ts
      | None \<Rightarrow> Option.bind (strip [''DELETE'', ''FROM''] ts) (p_delete dia))))"

section \<open>Rendered lists\<close>

fun commas :: "string list \<Rightarrow> string list" where
  "commas [] = []"
| "commas [w] = [w]"
| "commas (w # ws) = w # '','' # commas ws"

definition no_comma :: "string list \<Rightarrow> bool" where
  "no_comma ts \<longleftrightarrow> ts = [] \<or> hd ts \<noteq> '',''"

lemma no_comma_simps [simp]: "no_comma []" "no_comma (t # ts) \<longleftrightarrow> t \<noteq> '',''"
  by (simp_all add: no_comma_def)

lemma commas_Cons: "ws \<noteq> [] \<Longrightarrow> commas (w # ws) = w # '','' # commas ws"
  by (cases ws) auto

lemma commas_concat: "ws \<noteq> [] \<Longrightarrow> concat (map (\<lambda>w. ['','', w]) ws) = '','' # commas ws"
  by (induction ws rule: commas.induct) auto

lemma name_not_comma: "is_name w \<Longrightarrow> w \<noteq> '',''"
  by (auto simp: is_name_def)

lemma p_names_commas:
  "ws \<noteq> [] \<Longrightarrow> \<forall>w\<in>set ws. is_name w \<Longrightarrow> no_comma ts \<Longrightarrow> p_names (commas ws @ ts) = Some (ws, ts)"
  by (induction ws rule: commas.induct) (auto simp: no_comma_def)

lemma p_holders_commas:
  "no_comma ts \<Longrightarrow> p_holders ph i (commas (map ph [i..<i + Suc n]) @ ts) = Some (Suc n, ts)"
proof (induction n arbitrary: i)
  case 0
  then show ?case by (auto simp: no_comma_def)
next
  case (Suc n)
  have "[i..<i + Suc (Suc n)] = i # [Suc i..<Suc i + Suc n]" by (simp add: upt_conv_Cons)
  moreover have "map ph [Suc i..<Suc i + Suc n] \<noteq> []" by simp
  ultimately have "commas (map ph [i..<i + Suc (Suc n)]) = ph i # '','' # commas (map ph [Suc i..<Suc i + Suc n])"
    by (simp only: list.map) (rule commas_Cons)
  with Suc.IH [OF Suc.prems, of "Suc i"] show ?case by simp
qed

fun set_tokens :: "(nat \<Rightarrow> string) \<Rightarrow> nat \<Rightarrow> string list \<Rightarrow> string list" where
  "set_tokens ph i [] = []"
| "set_tokens ph i [w] = [w, ''='', ph i]"
| "set_tokens ph i (w # ws) = w # ''='' # ph i # '','' # set_tokens ph (Suc i) ws"

lemma p_sets_tokens:
  "ws \<noteq> [] \<Longrightarrow> \<forall>w\<in>set ws. is_name w \<Longrightarrow> no_comma ts \<Longrightarrow> p_sets ph i (set_tokens ph i ws @ ts) = Some (ws, ts)"
  by (induction ph i ws rule: set_tokens.induct) (auto simp: no_comma_def)

fun group_tokens :: "(nat \<Rightarrow> string) \<Rightarrow> nat \<Rightarrow> nat \<Rightarrow> nat \<Rightarrow> string list" where
  "group_tokens ph i n 0 = []"
| "group_tokens ph i n (Suc m) =
     ''('' # commas (map ph [i..<i + n]) @ '')'' # (if m = 0 then [] else '','' # group_tokens ph (i + n) n m)"

lemma p_groups_tokens:
  assumes "no_comma ts"
  shows "p_groups ph i (Suc n) (group_tokens ph i (Suc n) (Suc m) @ ts) = Some (Suc m, ts)"
proof (induction m arbitrary: i)
  case 0
  then show ?case using assms p_holders_commas [of "'')'' # ts" ph i n]
    by (subst p_groups.simps) (auto simp: no_comma_def)
next
  case (Suc m)
  let ?r = "group_tokens ph (i + Suc n) (Suc n) (Suc m) @ ts"
  have "group_tokens ph i (Suc n) (Suc (Suc m)) @ ts = ''('' # commas (map ph [i..<i + Suc n]) @ '')'' # '','' # ?r" by simp
  moreover have "p_holders ph i (commas (map ph [i..<i + Suc n]) @ '')'' # '','' # ?r) = Some (Suc n, '')'' # '','' # ?r)"
    by (rule p_holders_commas) simp
  ultimately show ?case using Suc.IH [of "i + Suc n"] by (subst p_groups.simps) (simp del: group_tokens.simps upt_Suc)
qed

text \<open>The tokens of what the adapters write.\<close>

lemma tokens_join:
  "ws \<noteq> [] \<Longrightarrow> \<forall>w\<in>set ws. is_name w \<Longrightarrow> starts_plain s \<Longrightarrow> sql_tokens (join_with '','' ws @ s) = commas ws @ sql_tokens s"
  by (induction ws rule: commas.induct) (auto simp: tokens_name)

lemma tokens_columns:
  "\<forall>w\<in>set ws. is_name w \<Longrightarrow> starts_plain s \<Longrightarrow>
   sql_tokens (concat (map (\<lambda>w. '' ,'' @ w) ws) @ s) = concat (map (\<lambda>w. ['','', w]) ws) @ sql_tokens s"
proof (induction ws)
  case (Cons w ws)
  have "starts_plain (concat (map (\<lambda>w. '' ,'' @ w) ws) @ s)" using Cons.prems(2) by (cases ws) auto
  with Cons show ?case by (simp add: tokens_name)
qed simp

section \<open>What a command does\<close>

datatype sqlarg = AString string | ABytes "byte list" | AInt int

text \<open>The policy of an insert that leaves existing rows alone.\<close>

definition keep_old :: "rowmap option \<Rightarrow> rowmap \<Rightarrow> rowmap" where
  "keep_old old v = (case old of Some m \<Rightarrow> m | None \<Rightarrow> v)"

fun arg_bytes :: "sqlarg \<Rightarrow> byte list" where
  "arg_bytes (AString s) = bytes_of s"
| "arg_bytes (ABytes b) = b"
| "arg_bytes (AInt i) = bytes_of (itoa i)"

definition args_row :: "string list \<Rightarrow> sqlarg list \<Rightarrow> rowmap" where
  "args_row cols vs = map_of (zip cols (map arg_bytes vs))"

text \<open>One row of an insert: the key and then the values of the columns.\<close>

fun sql_insert :: "string \<Rightarrow> string list \<Rightarrow> nat \<Rightarrow> sqlarg list \<Rightarrow> table \<Rightarrow> table" where
  "sql_insert t cols 0 args T = T"
| "sql_insert t cols (Suc n) args T =
     (case args of
        AString k # vs \<Rightarrow> sql_insert t cols n (drop (length cols) vs) (T((t, k) \<mapsto> keep_old (T (t, k)) (args_row cols (take (length cols) vs))))
      | _ \<Rightarrow> T)"

fun sql_write :: "sqlcmd \<Rightarrow> sqlarg list \<Rightarrow> table \<Rightarrow> table" where
  "sql_write (SqlInsert t cols n) args T = sql_insert t cols n args T"
| "sql_write (SqlUpdate t cols) args T =
     (case drop (length cols) args of
        [AString k] \<Rightarrow> (case T (t, k) of Some m \<Rightarrow> T((t, k) \<mapsto> m ++ args_row cols (take (length cols) args)) | None \<Rightarrow> T)
      | _ \<Rightarrow> T)"
| "sql_write (SqlDelete t) args T = (case args of [AString k] \<Rightarrow> T((t, k) := None) | _ \<Rightarrow> T)"
| "sql_write (SqlDeleteIn t n) args T = (\<lambda>(t', k). if t' = t \<and> AString k \<in> set args then None else T (t', k))"
| "sql_write c args T = T"

fun cmd_args :: "sqlcmd \<Rightarrow> nat" where
  "cmd_args (SqlSelect cols t) = 1"
| "cmd_args (SqlScan cols t) = 2"
| "cmd_args (SqlSelectIn cols t n) = n"
| "cmd_args (SqlInsert t cols n) = n * Suc (length cols)"
| "cmd_args (SqlUpdate t cols) = Suc (length cols)"
| "cmd_args (SqlDelete t) = 1"
| "cmd_args (SqlDeleteIn t n) = n"

fun cmd_table :: "sqlcmd \<Rightarrow> string" where
  "cmd_table (SqlSelect cols t) = t"
| "cmd_table (SqlScan cols t) = t"
| "cmd_table (SqlSelectIn cols t n) = t"
| "cmd_table (SqlInsert t cols n) = t"
| "cmd_table (SqlUpdate t cols) = t"
| "cmd_table (SqlDelete t) = t"
| "cmd_table (SqlDeleteIn t n) = t"

fun cmd_cols :: "sqlcmd \<Rightarrow> string list" where
  "cmd_cols (SqlSelect cols t) = cols"
| "cmd_cols (SqlScan cols t) = cols"
| "cmd_cols (SqlSelectIn cols t n) = cols"
| "cmd_cols (SqlInsert t cols n) = cols"
| "cmd_cols (SqlUpdate t cols) = cols"
| "cmd_cols (SqlDelete t) = []"
| "cmd_cols (SqlDeleteIn t n) = []"

fun cmd_writes :: "sqlcmd \<Rightarrow> bool" where
  "cmd_writes (SqlInsert t cols n) = True"
| "cmd_writes (SqlUpdate t cols) = True"
| "cmd_writes (SqlDelete t) = True"
| "cmd_writes (SqlDeleteIn t n) = True"
| "cmd_writes c = False"

text \<open>
  What a select by key delivers: the named columns with their values, a missing value (\<open>NULL\<close>) as no bytes. What \<open>*\<close> stands for
  is the matter of the server, \<open>star\<close>.
\<close>

definition null_bytes :: "rowmap \<Rightarrow> string \<Rightarrow> byte list" where
  "null_bytes m c = (case m c of Some v \<Rightarrow> v | None \<Rightarrow> [])"

definition sql_sel :: "(string \<Rightarrow> rowmap \<Rightarrow> rowmap) \<Rightarrow> string \<Rightarrow> rowmap \<Rightarrow> string list \<Rightarrow> rowmap" where
  "sql_sel star k m fs = (if fs = [] then star k m else (\<lambda>c. if c \<in> set fs then Some (null_bytes m c) else None))"

definition sql_policy :: "(string \<Rightarrow> rowmap \<Rightarrow> rowmap) \<Rightarrow> row_policy" where
  "sql_policy star = \<lparr>rp_ins = keep_old, rp_upd = (\<lambda>m v. m ++ v), rp_sel = sql_sel star\<rparr>"

lemma sql_policy_merging: "merging_policy known (sql_policy star)"
  by (auto simp: merging_policy_def sql_policy_def keep_old_def sql_sel_def restrict_map_def null_bytes_def fun_eq_iff split: option.splits)

text \<open>The three shapes of a write that the adapters send.\<close>

lemma args_row_pairs: "args_row (map fst ps) (map (\<lambda>p. ABytes (snd p)) ps) = map_of ps"
  by (simp add: args_row_def o_def zip_map_map zip_same_conv_map split_def)

lemma sql_write_insert:
  "sql_write (SqlInsert t (map fst ps) 1) (AString k # map (\<lambda>p. ABytes (snd p)) ps) T = T((t, k) \<mapsto> keep_old (T (t, k)) (map_of ps))"
  by (simp add: args_row_pairs)

lemma sql_write_update:
  "T (t, k) = Some m \<Longrightarrow>
   sql_write (SqlUpdate t (map fst ps)) (map (\<lambda>p. ABytes (snd p)) ps @ [AString k]) T = T((t, k) \<mapsto> m ++ map_of ps)"
  by (simp add: args_row_pairs)

section \<open>Parsing what the adapters write\<close>

lemma wordchar_letters [simp]:
  "is_wordchar (CHR ''A'')" "is_wordchar (CHR ''B'')" "is_wordchar (CHR ''C'')" "is_wordchar (CHR ''D'')" "is_wordchar (CHR ''E'')"
  "is_wordchar (CHR ''F'')" "is_wordchar (CHR ''G'')" "is_wordchar (CHR ''H'')" "is_wordchar (CHR ''I'')" "is_wordchar (CHR ''K'')"
  "is_wordchar (CHR ''L'')" "is_wordchar (CHR ''M'')" "is_wordchar (CHR ''N'')" "is_wordchar (CHR ''O'')" "is_wordchar (CHR ''P'')"
  "is_wordchar (CHR ''R'')" "is_wordchar (CHR ''S'')" "is_wordchar (CHR ''T'')" "is_wordchar (CHR ''U'')" "is_wordchar (CHR ''V'')"
  "is_wordchar (CHR ''W'')" "is_wordchar (CHR ''X'')" "is_wordchar (CHR ''Y'')" "is_wordchar (CHR ''_'')" "is_wordchar (CHR ''$'')"
  by code_simp+

lemma p_star_names: "ws \<noteq> [] \<Longrightarrow> \<forall>w\<in>set ws. is_name w \<Longrightarrow> no_comma ts \<Longrightarrow> p_star (commas ws @ ts) = Some (ws, ts)"
proof -
  assume ws: "ws \<noteq> []" "\<forall>w\<in>set ws. is_name w" "no_comma ts"
  then obtain w us where "commas ws @ ts = w # us" "is_name w" by (induction ws rule: commas.induct) auto
  then have "strip [''*''] (commas ws @ ts) = None" by (auto simp: is_name_def)
  then show ?thesis using p_names_commas [OF ws] by (simp add: p_star_def)
qed

definition sql_cols :: "string list \<Rightarrow> string" where
  "sql_cols fs = (if fs = [] then ''*'' else join_with '','' fs)"

lemma tokens_cols: "\<forall>f\<in>set fs. is_name f \<Longrightarrow> starts_plain s \<Longrightarrow> sql_tokens (sql_cols fs @ s) = (if fs = [] then [''*''] else commas fs) @ sql_tokens s"
  by (simp add: sql_cols_def tokens_join)

lemma p_star_cols: "\<forall>f\<in>set fs. is_name f \<Longrightarrow> no_comma ts \<Longrightarrow> p_star ((if fs = [] then [''*''] else commas fs) @ ts) = Some (fs, ts)"
  using p_star_names [of fs ts] by (simp add: p_star_def)

lemma p_table_name: "is_name t \<Longrightarrow> p_table (t # ts) = Some (t, ts)"
  by (simp add: p_table_def)

lemma p_insert_columns:
  assumes "\<forall>w\<in>set ws. is_name w"
  shows "(case strip ['',''] (concat (map (\<lambda>w. ['','', w]) ws) @ '')'' # ts) of Some ts \<Rightarrow> p_names ts | None \<Rightarrow> Some ([], concat (map (\<lambda>w. ['','', w]) ws) @ '')'' # ts))
    = Some (ws, '')'' # ts)"
  using p_names_commas [of ws "'')'' # ts"] assms commas_concat [of ws] by (cases "ws = []") auto

lemma starts_plain_words [simp]: "starts_plain s \<Longrightarrow> takeWhile is_wordchar s = []" "starts_plain s \<Longrightarrow> dropWhile is_wordchar s = s"
  by (cases s; simp)+

lemma starts_plain_columns [simp]: "starts_plain s \<Longrightarrow> starts_plain (concat (map (\<lambda>w. '' ,'' @ w) ws) @ s)"
  by (cases ws) auto

text \<open>A placeholder that is the same everywhere.\<close>

lemma p_holders_const: "no_comma ts \<Longrightarrow> p_holders (\<lambda>i. w) i (commas (replicate (Suc n) w) @ ts) = Some (Suc n, ts)"
  using p_holders_commas [of ts "\<lambda>i. w" i n] by (simp add: map_replicate_const del: upt_Suc replicate_Suc)

lemma p_group_const: "p_groups (\<lambda>i. w) 1 (Suc n) (''('' # commas (replicate (Suc n) w) @ ['')'']) = Some (1, [])"
  using p_groups_tokens [of "[]" "\<lambda>i. w" 1 n 0] by (simp add: map_replicate_const del: upt_Suc replicate_Suc p_groups.simps)

declare p_groups.simps [simp del]

lemmas sql_tok = sql_tokens.simps(2) tokens_name tokens_cols tokens_columns
lemmas sql_par = sql_parse_def p_select_def p_insert_def p_update_def p_delete_def p_in_def p_end_def skip_def p_star_cols p_table_name

section \<open>Texts with question marks\<close>

text \<open>An update and an insert as the adapters with the placeholder \<open>?\<close> write them.\<close>

definition update_text :: "string \<Rightarrow> (string \<times> byte list) list \<Rightarrow> string" where
  "update_text table pairs =
     ''UPDATE '' @ table @ '' SET '' @ join_with '', '' (map (\<lambda>p. fst p @ ''= ?'') pairs) @ '' WHERE YCSB_KEY = ?''"

definition insert_text :: "string \<Rightarrow> string \<Rightarrow> (string \<times> byte list) list \<Rightarrow> string" where
  "insert_text head table pairs =
     head @ table @ '' (YCSB_KEY'' @ concat (map (\<lambda>w. '' ,'' @ w) (map fst pairs)) @ '') VALUES (?''
     @ concat (map (\<lambda>p. '' ,?'') pairs) @ '')''"

lemma tokens_assignments:
  "ps \<noteq> [] \<Longrightarrow> \<forall>p\<in>set ps. is_name (fst p) \<Longrightarrow>
   sql_tokens (join_with '', '' (map (\<lambda>p. fst p @ ''= ?'') ps) @ s) = set_tokens (\<lambda>i. ''?'') i (map fst ps) @ sql_tokens s"
  by (induction ps arbitrary: i rule: induct_list012) (auto simp: tokens_name)

lemma update_text_parse:
  assumes "sd_ph dia = (\<lambda>i. ''?'')" and "sd_insert dia = ''INSERT'' # ws" and "is_name t" and "ps \<noteq> []" and "\<forall>p\<in>set ps. is_name (fst p)"
  shows "sql_parse dia (update_text t ps) = Some (SqlUpdate t (map fst ps))"
  using assms p_sets_tokens [of "map fst ps" "[''WHERE'', ''YCSB_KEY'', ''='', ''?'']" "\<lambda>i. ''?''" 1]
  by (simp add: update_text_def sql_tok sql_par tokens_assignments [where i = 1])

lemma tokens_holders:
  "''?'' # sql_tokens (concat (map (\<lambda>p. '' ,?'') ps) @ s) = commas (replicate (Suc (length ps)) ''?'') @ sql_tokens s"
proof -
  have "sql_tokens (concat (map (\<lambda>p. '' ,?'') ps) @ s) = concat (map (\<lambda>w. ['','', w]) (replicate (length ps) ''?'')) @ sql_tokens s"
    by (induction ps) auto
  then show ?thesis using commas_concat [of "replicate (length ps) ''?''"] by (cases ps) auto
qed

lemma insert_text_parse:
  assumes "sd_ph dia = (\<lambda>i. ''?'')" and "sd_insert dia = ''INSERT'' # ws" and "sd_conflict dia = []" and "\<And>s. sql_tokens (head @ s) = sd_insert dia @ sql_tokens s"
    and "is_name t" and "\<forall>p\<in>set ps. is_name (fst p)"
  shows "sql_parse dia (insert_text head t ps) = Some (SqlInsert t (map fst ps) 1)"
proof -
  have names: "\<forall>w\<in>set (map fst ps). is_name w" using assms(6) by auto
  have "sql_tokens (insert_text head t ps) = sd_insert dia @ t # ''('' # ''YCSB_KEY'' # concat (map (\<lambda>w. ['','', w]) (map fst ps))
      @ '')'' # ''VALUES'' # ''('' # commas (replicate (Suc (length ps)) ''?'') @ ['')'']"
    unfolding insert_text_def using assms(4,5) names
    by (simp add: sql_tok tokens_holders del: map_map replicate_Suc)
  then show ?thesis using assms(1-3,5) p_insert_columns [OF names] p_group_const [of "''?''" "length ps"]
    by (simp add: sql_par del: map_map replicate_Suc)
qed

lemma names_sample: "is_name ''field0''" "is_name ''field1''" "is_name ''usertable''"
  by code_simp+

end
