(* ===== verification/SqlConn.thy ===== *)
theory SqlConn
  imports SqlText Props
begin

text \<open>
  Connections to an SQL server: the calls of \<open>database/sql\<close> that the adapters make, the thread state with its cache of
  prepared statements, and the functions over it that \<^verbatim>\<open>db/mysql/db.go\<close> and \<^verbatim>\<open>db/pg/db.go\<close> share word for word. The driver and the server
  behind \<open>database/sql\<close> are a parameter; \<open>sql_laws\<close> states what they do with the texts of the fragment.
\<close>

section \<open>The calls\<close>

text \<open>
  Connections and statements are handles. A result set has its columns, the outcome of scanning each of its rows, and the
  error that ended the iteration.
\<close>

record sqlrows =
  sr_Columns :: "error + string list"
  sr_rows :: "(error + byte list list) list"
  sr_Err :: "error option"

record 's sql_api =
  sq_Conn :: "'s \<Rightarrow> (error + nat) \<times> 's"
  sq_Prepare :: "'s \<Rightarrow> nat \<Rightarrow> string \<Rightarrow> (error + nat) \<times> 's"
  sq_Query :: "'s \<Rightarrow> nat \<Rightarrow> sqlarg list \<Rightarrow> (error + sqlrows) \<times> 's"
  sq_Exec :: "'s \<Rightarrow> nat \<Rightarrow> sqlarg list \<Rightarrow> error option \<times> 's"
  sq_StmtClose :: "'s \<Rightarrow> nat \<Rightarrow> 's"
  sq_ConnClose :: "'s \<Rightarrow> nat \<Rightarrow> 's"
  sq_DBExec :: "'s \<Rightarrow> string \<Rightarrow> error option \<times> 's"
  sq_Close :: "'s \<Rightarrow> error option \<times> 's"

definition ErrConnDone :: error where
  "ErrConnDone = ''sql: connection is already closed''"

section \<open>The thread state\<close>

text \<open>
  The state that \<open>InitThread\<close> puts into the context: the cache of prepared statements and the connection, which is nil after
  an attempt to reconnect has failed. \<open>sc_state\<close> is \<^const>\<open>None\<close> before \<open>InitThread\<close>; the type assertion on it panics then.
\<close>

record sqlState =
  ss_stmtCache :: "nat smap"
  ss_conn :: "nat option"

record 's sqlconn =
  sc_db :: 's
  sc_state :: "sqlState option"

definition sql_state :: "'s sqlconn \<Rightarrow> sqlState go" where
  "sql_state c = (case sc_state c of Some st \<Rightarrow> Ret st | None \<Rightarrow> Panic ''interface conversion: interface {} is nil'')"

definition sql_InitThread :: "'s sql_api \<Rightarrow> 's sqlconn \<Rightarrow> 's sqlconn go" where
  "sql_InitThread api c =
     (case sq_Conn api (sc_db c) of
        (Inl err, s) \<Rightarrow> Panic (''failed to create db conn '' @ err)
      | (Inr conn, s) \<Rightarrow> Ret \<lparr>sc_db = s, sc_state = Some \<lparr>ss_stmtCache = [], ss_conn = Some conn\<rparr>\<rparr>)"

definition sql_CleanupThread :: "'s sql_api \<Rightarrow> 's sqlconn \<Rightarrow> 's sqlconn go" where
  "sql_CleanupThread api c =
     gbind (sql_state c) (\<lambda>st.
       let s = foldl (\<lambda>s (q, stmt). sq_StmtClose api s stmt) (sc_db c) (ss_stmtCache st) in
       case ss_conn st of
         None \<Rightarrow> Panic ''nil pointer dereference''
       | Some conn \<Rightarrow> Ret (c\<lparr>sc_db := sq_ConnClose api s conn\<rparr>))"

definition conn_Prepare :: "'s sql_api \<Rightarrow> 's \<Rightarrow> nat option \<Rightarrow> string \<Rightarrow> ((error + nat) \<times> 's) go" where
  "conn_Prepare api s conn q = (case conn of None \<Rightarrow> Panic ''nil pointer dereference'' | Some n \<Rightarrow> Ret (sq_Prepare api s n q))"

text \<open>
  A connection that is done is replaced and the statement prepared again; \<open>state.conn\<close> is assigned also when there is no new
  connection, and is nil then.
\<close>

definition getAndCacheStmt :: "'s sql_api \<Rightarrow> string \<Rightarrow> 's sqlconn \<Rightarrow> ((error + nat) \<times> 's sqlconn) go" where
  "getAndCacheStmt api query c =
     gbind (sql_state c) (\<lambda>st.
       case map_of (ss_stmtCache st) query of
         Some stmt \<Rightarrow> Ret (Inr stmt, c)
       | None \<Rightarrow>
           gbind (conn_Prepare api (sc_db c) (ss_conn st) query) (\<lambda>(r, s).
           gbind (if r = Inl ErrConnDone then
                    (case sq_Conn api s of
                       (Inl err, s) \<Rightarrow> Ret ((Inl err, s), st\<lparr>ss_conn := None\<rparr>)
                     | (Inr conn, s) \<Rightarrow>
                         gbind (conn_Prepare api s (Some conn) query) (\<lambda>rs. Ret (rs, st\<lparr>ss_conn := Some conn\<rparr>)))
                  else Ret ((r, s), st)) (\<lambda>((r, s), st).
             case r of
               Inl err \<Rightarrow> Ret (Inl err, \<lparr>sc_db = s, sc_state = Some st\<rparr>)
             | Inr stmt \<Rightarrow> Ret (Inr stmt, \<lparr>sc_db = s, sc_state = Some (st\<lparr>ss_stmtCache := AList.update query stmt (ss_stmtCache st)\<rparr>)\<rparr>))))"

definition clearCacheIfFailed :: "'s sql_api \<Rightarrow> string \<Rightarrow> error option \<Rightarrow> 's sqlconn \<Rightarrow> 's sqlconn go" where
  "clearCacheIfFailed api query err c =
     (if err = None then Ret c
      else gbind (sql_state c) (\<lambda>st.
        let s = (case map_of (ss_stmtCache st) query of Some stmt \<Rightarrow> sq_StmtClose api (sc_db c) stmt | None \<Rightarrow> sc_db c)
        in Ret \<lparr>sc_db = s, sc_state = Some (st\<lparr>ss_stmtCache := AList.delete query (ss_stmtCache st)\<rparr>)\<rparr>))"

text \<open>The loop over the rows: every column of a row goes into a map.\<close>

definition row_map :: "string list \<Rightarrow> byte list list \<Rightarrow> row" where
  "row_map cols vals = foldl (\<lambda>m (c, v). AList.update c v m) [] (zip cols vals)"

fun scan_rows :: "string list \<Rightarrow> (error + byte list list) list \<Rightarrow> error + row list" where
  "scan_rows cols [] = Inr []"
| "scan_rows cols (Inl err # rows) = Inl err"
| "scan_rows cols (Inr vals # rows) = map_sum id (Cons (row_map cols vals)) (scan_rows cols rows)"

definition collect_rows :: "sqlrows \<Rightarrow> error + row list" where
  "collect_rows rows =
     (case sr_Columns rows of
        Inl err \<Rightarrow> Inl err
      | Inr cols \<Rightarrow> (case scan_rows cols (sr_rows rows) of
            Inl err \<Rightarrow> Inl err
          | Inr vs \<Rightarrow> (case sr_Err rows of Some err \<Rightarrow> Inl err | None \<Rightarrow> Inr vs)))"

definition queryRows :: "'s sql_api \<Rightarrow> string \<Rightarrow> int \<Rightarrow> sqlarg list \<Rightarrow> 's sqlconn \<Rightarrow> ((error + row list) \<times> 's sqlconn) go" where
  "queryRows api query cnt args c =
     gbind (getAndCacheStmt api query c) (\<lambda>(r, c). case r of
         Inl err \<Rightarrow> Ret (Inl err, c)
       | Inr stmt \<Rightarrow>
           (case sq_Query api (sc_db c) stmt args of
              (Inl err, s) \<Rightarrow> Ret (Inl err, c\<lparr>sc_db := s\<rparr>)
            | (Inr rows, s) \<Rightarrow>
                if cnt < 0 \<and> \<not> isl (sr_Columns rows) then Panic ''makeslice: cap out of range'' else Ret (collect_rows rows, c\<lparr>sc_db := s\<rparr>)))"

definition left_error :: "error + 'a \<Rightarrow> error option" where
  "left_error r = (case r of Inl err \<Rightarrow> Some err | Inr _ \<Rightarrow> None)"

definition query_clear :: "'s sql_api \<Rightarrow> string \<Rightarrow> int \<Rightarrow> sqlarg list \<Rightarrow> 's sqlconn \<Rightarrow> ((error + row list) \<times> 's sqlconn) go" where
  "query_clear api query cnt args c =
     gbind (queryRows api query cnt args c) (\<lambda>(r, c). gbind (clearCacheIfFailed api query (left_error r) c) (\<lambda>c. Ret (r, c)))"

definition execQuery :: "'s sql_api \<Rightarrow> string \<Rightarrow> sqlarg list \<Rightarrow> 's sqlconn \<Rightarrow> (error option \<times> 's sqlconn) go" where
  "execQuery api query args c =
     gbind (getAndCacheStmt api query c) (\<lambda>(r, c). case r of
         Inl err \<Rightarrow> Ret (Some err, c)
       | Inr stmt \<Rightarrow>
           (let (err, s) = sq_Exec api (sc_db c) stmt args in
            gbind (clearCacheIfFailed api query err (c\<lparr>sc_db := s\<rparr>)) (\<lambda>c. Ret (err, c))))"

section \<open>The server\<close>

text \<open>
  A server state stands for the table \<open>view\<close>; \<open>live\<close> are its open connections, \<open>text\<close> the texts of its prepared statements.
  \<open>tabs\<close> and \<open>K\<close> are the tables and columns that exist, and \<open>adm\<close> says which rows fit their columns. A text that the fragment reads
  as a command on them can be prepared on an open connection, and running it has the effect of the command.
\<close>

record 's sql_sem =
  sm_ok :: "'s \<Rightarrow> bool"
  sm_view :: "'s \<Rightarrow> table"
  sm_live :: "'s \<Rightarrow> nat set"
  sm_text :: "'s \<Rightarrow> nat \<rightharpoonup> string"

definition sql_same :: "'s sql_sem \<Rightarrow> 's \<Rightarrow> 's \<Rightarrow> bool" where
  "sql_same M s t \<longleftrightarrow> sm_ok M t \<and> sm_live M t = sm_live M s \<and> sm_text M t = sm_text M s"

definition sql_wf :: "(string \<Rightarrow> bool) \<Rightarrow> string set \<Rightarrow> sqlcmd \<Rightarrow> bool" where
  "sql_wf tabs K cmd \<longleftrightarrow> tabs (cmd_table cmd) \<and> set (cmd_cols cmd) \<subseteq> K"

text \<open>The rows a command leaves fit.\<close>

definition rows_fit :: "(string \<Rightarrow> string \<Rightarrow> rowmap \<Rightarrow> bool) \<Rightarrow> table \<Rightarrow> table \<Rightarrow> bool" where
  "rows_fit adm T T' \<longleftrightarrow> (\<forall>t k m. T' (t, k) = Some m \<longrightarrow> T' (t, k) \<noteq> T (t, k) \<longrightarrow> adm t k m)"

definition sql_conn_law :: "'s sql_api \<Rightarrow> 's sql_sem \<Rightarrow> bool" where
  "sql_conn_law api M \<longleftrightarrow>
     (\<forall>s. sm_ok M s \<longrightarrow> (\<exists>c t. sq_Conn api s = (Inr c, t) \<and> sm_ok M t \<and> sm_view M t = sm_view M s \<and> c \<in> sm_live M t
        \<and> sm_live M s \<subseteq> sm_live M t \<and> sm_text M t = sm_text M s))"

definition sql_prepare_law :: "sql_dialect \<Rightarrow> 's sql_api \<Rightarrow> 's sql_sem \<Rightarrow> (string \<Rightarrow> bool) \<Rightarrow> string set \<Rightarrow> bool" where
  "sql_prepare_law dia api M tabs K \<longleftrightarrow>
     (\<forall>s c q cmd. sm_ok M s \<longrightarrow> c \<in> sm_live M s \<longrightarrow> sql_parse dia q = Some cmd \<longrightarrow> sql_wf tabs K cmd \<longrightarrow>
        (\<exists>n t. sq_Prepare api s c q = (Inr n, t) \<and> sm_ok M t \<and> sm_view M t = sm_view M s \<and> sm_live M t = sm_live M s
           \<and> sm_text M s n = None \<and> sm_text M t = (sm_text M s)(n \<mapsto> q)))"

definition sql_query_law ::
    "sql_dialect \<Rightarrow> 's sql_api \<Rightarrow> 's sql_sem \<Rightarrow> (string \<Rightarrow> bool) \<Rightarrow> string set \<Rightarrow> (string \<Rightarrow> rowmap \<Rightarrow> rowmap) \<Rightarrow> bool" where
  "sql_query_law dia api M tabs K star \<longleftrightarrow>
     (\<forall>s n q cols t k m. sm_ok M s \<longrightarrow> sm_text M s n = Some q \<longrightarrow> sql_parse dia q = Some (SqlSelect cols t) \<longrightarrow> tabs t \<longrightarrow> set cols \<subseteq> K \<longrightarrow>
        sm_view M s (t, k) = Some m \<longrightarrow>
        (\<exists>labels vals s'. sq_Query api s n [AString k] = (Inr \<lparr>sr_Columns = Inr labels, sr_rows = [Inr vals], sr_Err = None\<rparr>, s')
           \<and> sql_same M s s' \<and> sm_view M s' = sm_view M s \<and> length vals = length labels
           \<and> (cols \<noteq> [] \<longrightarrow> labels = cols \<and> vals = map (null_bytes m) cols)
           \<and> (cols = [] \<longrightarrow> distinct labels \<and> map_of (zip labels vals) = star k m)))"

definition sql_exec_law ::
    "sql_dialect \<Rightarrow> 's sql_api \<Rightarrow> 's sql_sem \<Rightarrow> (string \<Rightarrow> bool) \<Rightarrow> string set \<Rightarrow> (string \<Rightarrow> string \<Rightarrow> rowmap \<Rightarrow> bool) \<Rightarrow> bool" where
  "sql_exec_law dia api M tabs K adm \<longleftrightarrow>
     (\<forall>s n q cmd args. sm_ok M s \<longrightarrow> sm_text M s n = Some q \<longrightarrow> sql_parse dia q = Some cmd \<longrightarrow> sql_wf tabs K cmd \<longrightarrow> cmd_writes cmd \<longrightarrow>
        length args = cmd_args cmd \<longrightarrow> rows_fit adm (sm_view M s) (sql_write cmd args (sm_view M s)) \<longrightarrow>
        (\<exists>s'. sq_Exec api s n args = (None, s') \<and> sql_same M s s' \<and> sm_view M s' = sql_write cmd args (sm_view M s)))"

definition sql_laws ::
    "sql_dialect \<Rightarrow> 's sql_api \<Rightarrow> 's sql_sem \<Rightarrow> (string \<Rightarrow> bool) \<Rightarrow> string set \<Rightarrow> (string \<Rightarrow> string \<Rightarrow> rowmap \<Rightarrow> bool) \<Rightarrow> (string \<Rightarrow> rowmap \<Rightarrow> rowmap) \<Rightarrow> bool" where
  "sql_laws dia api M tabs K adm star \<longleftrightarrow> sql_conn_law api M \<and> sql_prepare_law dia api M tabs K
     \<and> sql_query_law dia api M tabs K star \<and> sql_exec_law dia api M tabs K adm"

lemmas sql_Conn_law = sql_conn_law_def [THEN iffD1, rule_format]
lemmas sql_Prepare_law = sql_prepare_law_def [THEN iffD1, rule_format]
lemmas sql_Query_law = sql_query_law_def [THEN iffD1, rule_format]
lemmas sql_Exec_law = sql_exec_law_def [THEN iffD1, rule_format]

lemma sql_lawsD:
  assumes "sql_laws dia api M tabs K adm star"
  shows "sql_conn_law api M" and "sql_prepare_law dia api M tabs K" and "sql_query_law dia api M tabs K star" and "sql_exec_law dia api M tabs K adm"
  using assms by (simp_all add: sql_laws_def)

section \<open>The statement cache\<close>

text \<open>Every cached statement was prepared from the text it is cached under, and the connection is open.\<close>

definition cache_ok :: "'s sql_sem \<Rightarrow> 's sqlconn \<Rightarrow> bool" where
  "cache_ok M c \<longleftrightarrow> sm_ok M (sc_db c) \<and> (\<exists>cache conn. sc_state c = Some \<lparr>ss_stmtCache = cache, ss_conn = Some conn\<rparr> \<and> conn \<in> sm_live M (sc_db c)
     \<and> (\<forall>q n. map_of cache q = Some n \<longrightarrow> sm_text M (sc_db c) n = Some q))"

definition conn_view :: "'s sql_sem \<Rightarrow> 's sqlconn \<Rightarrow> table" where
  "conn_view M c = sm_view M (sc_db c)"

lemma cache_ok_same: "cache_ok M c \<Longrightarrow> sql_same M (sc_db c) s \<Longrightarrow> cache_ok M (c\<lparr>sc_db := s\<rparr>)"
  by (auto simp: cache_ok_def sql_same_def)

lemma sql_InitThread_ok:
  assumes "sql_laws dia api M tabs K adm star" and "sm_ok M (sc_db c)"
  shows "\<exists>c'. sql_InitThread api c = Ret c' \<and> cache_ok M c' \<and> conn_view M c' = conn_view M c"
proof -
  obtain n t where "sq_Conn api (sc_db c) = (Inr n, t)" "sm_ok M t" "sm_view M t = sm_view M (sc_db c)" "n \<in> sm_live M t"
    using sql_Conn_law [OF sql_lawsD(1) [OF assms(1)] assms(2)] by blast
  then show ?thesis by (auto simp: sql_InitThread_def cache_ok_def conn_view_def)
qed

lemma getAndCacheStmt_ok:
  assumes "sql_laws dia api M tabs K adm star" and "cache_ok M c" and "sql_parse dia q = Some cmd" and "sql_wf tabs K cmd"
  shows "\<exists>n c'. getAndCacheStmt api q c = Ret (Inr n, c') \<and> cache_ok M c' \<and> conn_view M c' = conn_view M c \<and> sm_text M (sc_db c') n = Some q"
proof -
  obtain cache conn where st: "sm_ok M (sc_db c)" "sc_state c = Some \<lparr>ss_stmtCache = cache, ss_conn = Some conn\<rparr>" "conn \<in> sm_live M (sc_db c)"
      "\<And>q n. map_of cache q = Some n \<Longrightarrow> sm_text M (sc_db c) n = Some q"
    using assms(2) by (auto simp: cache_ok_def)
  show ?thesis
  proof (cases "map_of cache q")
    case (Some n)
    then have "getAndCacheStmt api q c = Ret (Inr n, c)" by (simp add: getAndCacheStmt_def sql_state_def st(2))
    then show ?thesis using assms(2) st(4) Some by auto
  next
    case None
    obtain n t where p: "sq_Prepare api (sc_db c) conn q = (Inr n, t)" "sm_ok M t" "sm_view M t = sm_view M (sc_db c)"
        "sm_live M t = sm_live M (sc_db c)" "sm_text M (sc_db c) n = None" "sm_text M t = (sm_text M (sc_db c))(n \<mapsto> q)"
      using sql_Prepare_law [OF sql_lawsD(2) [OF assms(1)] st(1,3) assms(3,4)] by blast
    let ?c = "\<lparr>sc_db = t, sc_state = Some \<lparr>ss_stmtCache = AList.update q n cache, ss_conn = Some conn\<rparr>\<rparr>"
    have "getAndCacheStmt api q c = Ret (Inr n, ?c)"
      using None p(1) by (simp add: getAndCacheStmt_def sql_state_def st(2) conn_Prepare_def)
    moreover have "sm_text M t n' = Some q'" if "map_of (AList.update q n cache) q' = Some n'" for q' n'
      using that st(4) [of q' n'] p(5,6) by (auto simp: update_conv' split: if_splits)
    ultimately show ?thesis using p st(3) by (auto simp: cache_ok_def conn_view_def)
  qed
qed

lemma execQuery_ok:
  assumes "sql_laws dia api M tabs K adm star" and "cache_ok M c" and "sql_parse dia q = Some cmd" and "sql_wf tabs K cmd"
    and "cmd_writes cmd" and "length args = cmd_args cmd" and "rows_fit adm (conn_view M c) (sql_write cmd args (conn_view M c))"
  shows "\<exists>c'. execQuery api q args c = Ret (None, c') \<and> cache_ok M c' \<and> conn_view M c' = sql_write cmd args (conn_view M c)"
proof -
  obtain n c1 where c1: "getAndCacheStmt api q c = Ret (Inr n, c1)" "cache_ok M c1" "conn_view M c1 = conn_view M c" "sm_text M (sc_db c1) n = Some q"
    using getAndCacheStmt_ok [OF assms(1-4)] by blast
  have ok: "sm_ok M (sc_db c1)" using c1(2) by (auto simp: cache_ok_def)
  have fit: "rows_fit adm (sm_view M (sc_db c1)) (sql_write cmd args (sm_view M (sc_db c1)))" using assms(7) c1(3) by (simp add: conn_view_def)
  obtain s where s: "sq_Exec api (sc_db c1) n args = (None, s)" "sql_same M (sc_db c1) s" "sm_view M s = sql_write cmd args (sm_view M (sc_db c1))"
    using sql_Exec_law [OF sql_lawsD(4) [OF assms(1)] ok c1(4) assms(3-6) fit] by blast
  then have "execQuery api q args c = Ret (None, c1\<lparr>sc_db := s\<rparr>)"
    using c1(1) by (simp add: execQuery_def clearCacheIfFailed_def)
  then show ?thesis using cache_ok_same [OF c1(2) s(2)] s(3) c1(3) by (auto simp: conn_view_def)
qed

section \<open>Rows\<close>

lemma row_map_lookup:
  assumes "length vals = length cols"
  shows "map_of (row_map cols vals) = map_of (rev (zip cols vals))"
proof -
  have "map_of (foldl (\<lambda>m (c, v). AList.update c v m) acc ps) = map_of (rev ps @ acc)" for acc and ps :: row
    by (induction ps arbitrary: acc) (auto simp: update_conv' map_add_def fun_eq_iff split: option.splits)
  from this [of "[]"] show ?thesis by (simp add: row_map_def)
qed

lemma map_of_rev_fun: "map_of (rev (map (\<lambda>c. (c, g c)) cols)) = (\<lambda>c. if c \<in> set cols then Some (g c) else None)"
  by (induction cols) (auto simp: map_add_def fun_eq_iff split: option.splits)

lemma row_map_named: "map_of (row_map cols (map g cols)) = (\<lambda>c. if c \<in> set cols then Some (g c) else None)"
  by (simp add: row_map_lookup zip_map2 zip_same_conv_map map_of_rev_fun o_def)

lemma row_map_distinct: "length vals = length cols \<Longrightarrow> distinct cols \<Longrightarrow> map_of (row_map cols vals) = map_of (zip cols vals)"
  by (simp add: row_map_lookup) (metis distinct_rev map_fst_zip map_of_inject_set rev_map set_rev)

lemma query_ok:
  assumes "sql_laws dia api M tabs K adm star" and "cache_ok M c" and "sql_parse dia q = Some (SqlSelect cols t)" and "tabs t" and "set cols \<subseteq> K"
    and "conn_view M c (t, k) = Some m" and "0 \<le> cnt"
  shows "\<exists>res c'. query_clear api q cnt [AString k] c = Ret (Inr [res], c') \<and> cache_ok M c' \<and> conn_view M c' = conn_view M c
    \<and> map_of res = sql_sel star k m cols"
proof -
  obtain n c1 where c1: "getAndCacheStmt api q c = Ret (Inr n, c1)" "cache_ok M c1" "conn_view M c1 = conn_view M c" "sm_text M (sc_db c1) n = Some q"
    using getAndCacheStmt_ok [OF assms(1-3)] assms(4,5) by (auto simp: sql_wf_def)
  have ok: "sm_ok M (sc_db c1)" using c1(2) by (auto simp: cache_ok_def)
  have m: "sm_view M (sc_db c1) (t, k) = Some m" using assms(6) c1(3) by (simp add: conn_view_def)
  obtain labels vals s where s: "sq_Query api (sc_db c1) n [AString k] = (Inr \<lparr>sr_Columns = Inr labels, sr_rows = [Inr vals], sr_Err = None\<rparr>, s)"
      "sql_same M (sc_db c1) s" "sm_view M s = sm_view M (sc_db c1)" "length vals = length labels"
      "cols \<noteq> [] \<Longrightarrow> labels = cols \<and> vals = map (null_bytes m) cols" "cols = [] \<Longrightarrow> distinct labels \<and> map_of (zip labels vals) = star k m"
    using sql_Query_law [OF sql_lawsD(3) [OF assms(1)] ok c1(4) assms(3-5) m] by blast
  have "query_clear api q cnt [AString k] c = Ret (Inr [row_map labels vals], c1\<lparr>sc_db := s\<rparr>)"
    using c1(1) s(1) assms(7) by (simp add: query_clear_def queryRows_def collect_rows_def clearCacheIfFailed_def left_error_def)
  moreover have "map_of (row_map labels vals) = sql_sel star k m cols"
    using s(4-6) by (cases "cols = []") (auto simp: sql_sel_def row_map_named row_map_distinct)
  ultimately show ?thesis using cache_ok_same [OF c1(2) s(2)] s(3) c1(3) by (auto simp: conn_view_def)
qed

section \<open>Sorted fields\<close>

lemma NewFieldPairs_simps [simp]:
  "set (NewFieldPairs v) = set v" "length (NewFieldPairs v) = length v" "NewFieldPairs v = [] \<longleftrightarrow> v = []"
  by (simp_all add: NewFieldPairs_def) (metis length_0_conv length_sort)

lemma NewFieldPairs_distinct: "distinct (map fst v) \<Longrightarrow> distinct (map fst (NewFieldPairs v))"
  by (metis NewFieldPairs_def distinct_map set_sort distinct_sort length_sort mset_eq_imp_distinct_iff mset_map mset_sort)

lemma map_of_NewFieldPairs: "distinct (map fst v) \<Longrightarrow> map_of (NewFieldPairs v) = map_of v"
  using map_of_inject_set [of "NewFieldPairs v" v] NewFieldPairs_distinct by simp

lemma rows_fit_upd:
  "adm t k m \<Longrightarrow> rows_fit adm T (T((t, k) \<mapsto> m))" "rows_fit adm T (T((t, k) := None))"
  by (auto simp: rows_fit_def split: if_splits)

definition sql_table :: "(string \<Rightarrow> bool) \<Rightarrow> string \<Rightarrow> bool" where
  "sql_table tabs t \<longleftrightarrow> tabs t \<and> is_name t"

text \<open>Arguments of a write, and the four operations on rows through the connection.\<close>

definition pair_args :: "(string \<times> byte list) list \<Rightarrow> sqlarg list" where
  "pair_args pairs = map (\<lambda>p. ABytes (snd p)) pairs"

lemma conn_insert:
  assumes "sql_laws dia api M tabs K adm star" and "cache_ok M c" and "tabs t" and "row_ok K v"
    and "sql_parse dia q = Some (SqlInsert t (map fst (NewFieldPairs v)) 1)" and "adm t k (keep_old (conn_view M c (t, k)) (map_of v))"
  shows "\<exists>c'. execQuery api q (AString k # pair_args (NewFieldPairs v)) c = Ret (None, c') \<and> cache_ok M c'
    \<and> conn_view M c' = (conn_view M c)((t, k) \<mapsto> keep_old (conn_view M c (t, k)) (map_of v))"
proof -
  let ?ps = "NewFieldPairs v" and ?T = "conn_view M c"
  have w: "sql_write (SqlInsert t (map fst ?ps) 1) (AString k # pair_args ?ps) ?T = ?T((t, k) \<mapsto> keep_old (?T (t, k)) (map_of v))"
    using assms(4) sql_write_insert [of t ?ps k] by (simp add: pair_args_def map_of_NewFieldPairs row_ok_def)
  have wf: "sql_wf tabs K (SqlInsert t (map fst ?ps) 1)" using assms(3,4) by (auto simp: sql_wf_def row_ok_def)
  show ?thesis
    using execQuery_ok [OF assms(1,2,5) wf, of "AString k # pair_args ?ps"] rows_fit_upd(1) [of adm t k _ ?T] assms(6) w
    by (simp add: pair_args_def)
qed

lemma conn_update:
  assumes "sql_laws dia api M tabs K adm star" and "cache_ok M c" and "tabs t" and "row_ok K v"
    and "sql_parse dia q = Some (SqlUpdate t (map fst (NewFieldPairs v)))" and "conn_view M c (t, k) = Some m" and "adm t k (m ++ map_of v)"
  shows "\<exists>c'. execQuery api q (pair_args (NewFieldPairs v) @ [AString k]) c = Ret (None, c') \<and> cache_ok M c'
    \<and> conn_view M c' = (conn_view M c)((t, k) \<mapsto> m ++ map_of v)"
proof -
  let ?ps = "NewFieldPairs v" and ?T = "conn_view M c"
  have w: "sql_write (SqlUpdate t (map fst ?ps)) (pair_args ?ps @ [AString k]) ?T = ?T((t, k) \<mapsto> m ++ map_of v)"
    using assms(4) sql_write_update [of ?T t k m ?ps, OF assms(6)] by (simp add: pair_args_def map_of_NewFieldPairs row_ok_def)
  have wf: "sql_wf tabs K (SqlUpdate t (map fst ?ps))" using assms(3,4) by (auto simp: sql_wf_def row_ok_def)
  show ?thesis
    using execQuery_ok [OF assms(1,2,5) wf, of "pair_args ?ps @ [AString k]"] rows_fit_upd(1) [of adm t k _ ?T] assms(7) w
    by (simp add: pair_args_def)
qed

lemma conn_delete:
  assumes "sql_laws dia api M tabs K adm star" and "cache_ok M c" and "tabs t" and "sql_parse dia q = Some (SqlDelete t)"
  shows "\<exists>c'. execQuery api q [AString k] c = Ret (None, c') \<and> cache_ok M c' \<and> conn_view M c' = (conn_view M c)((t, k) := None)"
  using execQuery_ok [OF assms(1,2,4), of "[AString k]"] assms(3) rows_fit_upd(2) by (simp add: sql_wf_def)

lemma row_ok_names: "row_ok K v \<Longrightarrow> \<forall>f\<in>K. is_name f \<Longrightarrow> \<forall>p\<in>set (NewFieldPairs v). is_name (fst p)"
  by (force simp: row_ok_def)

section \<open>A server\<close>

text \<open>A server in memory that runs the fragment: the table, the texts of the prepared statements, and the number of connections.\<close>

record mem_sql =
  mq_T :: table
  mq_texts :: "string list"
  mq_conns :: nat

definition mem_star :: "string list \<Rightarrow> string \<Rightarrow> rowmap \<Rightarrow> rowmap" where
  "mem_star F k m = map_of ((''YCSB_KEY'', bytes_of k) # map (\<lambda>f. (f, null_bytes m f)) F)"

definition mem_Query :: "sql_dialect \<Rightarrow> string list \<Rightarrow> mem_sql \<Rightarrow> nat \<Rightarrow> sqlarg list \<Rightarrow> (error + sqlrows) \<times> mem_sql" where
  "mem_Query dia F s n args =
     (case (sql_parse dia (mq_texts s ! n), args) of
        (Some (SqlSelect cols t), [AString k]) \<Rightarrow>
          (Inr (case mq_T s (t, k) of
                  None \<Rightarrow> \<lparr>sr_Columns = Inr cols, sr_rows = [], sr_Err = None\<rparr>
                | Some m \<Rightarrow>
                    if cols = [] then \<lparr>sr_Columns = Inr (''YCSB_KEY'' # F), sr_rows = [Inr (bytes_of k # map (null_bytes m) F)], sr_Err = None\<rparr>
                    else \<lparr>sr_Columns = Inr cols, sr_rows = [Inr (map (null_bytes m) cols)], sr_Err = None\<rparr>), s)
      | _ \<Rightarrow> (Inl ''unsupported'', s))"

definition mem_sql_api :: "sql_dialect \<Rightarrow> string list \<Rightarrow> mem_sql sql_api" where
  "mem_sql_api dia F =
     \<lparr>sq_Conn = (\<lambda>s. (Inr (mq_conns s), s\<lparr>mq_conns := Suc (mq_conns s)\<rparr>)),
      sq_Prepare = (\<lambda>s c q. if c < mq_conns s \<and> sql_parse dia q \<noteq> None then (Inr (length (mq_texts s)), s\<lparr>mq_texts := mq_texts s @ [q]\<rparr>)
                            else (Inl ''syntax error'', s)),
      sq_Query = mem_Query dia F,
      sq_Exec = (\<lambda>s n args. case sql_parse dia (mq_texts s ! n) of Some cmd \<Rightarrow> (None, s\<lparr>mq_T := sql_write cmd args (mq_T s)\<rparr>) | None \<Rightarrow> (Some ''syntax error'', s)),
      sq_StmtClose = (\<lambda>s n. s), sq_ConnClose = (\<lambda>s n. s), sq_DBExec = (\<lambda>s q. (None, s)), sq_Close = (\<lambda>s. (None, s))\<rparr>"

definition mem_sem :: "mem_sql sql_sem" where
  "mem_sem = \<lparr>sm_ok = (\<lambda>s. True), sm_view = mq_T, sm_live = (\<lambda>s. {..<mq_conns s}),
     sm_text = (\<lambda>s n. if n < length (mq_texts s) then Some (mq_texts s ! n) else None)\<rparr>"

lemma mem_sql_laws:
  assumes "distinct F" and "''YCSB_KEY'' \<notin> set F"
  shows "sql_laws dia (mem_sql_api dia F) mem_sem (\<lambda>t. True) (set F) (\<lambda>t k m. True) (mem_star F)"
proof -
  have "sql_query_law dia (mem_sql_api dia F) mem_sem (\<lambda>t. True) (set F) (mem_star F)"
    using assms by (auto simp: sql_query_law_def mem_sql_api_def mem_sem_def mem_Query_def sql_same_def mem_star_def zip_map2 zip_same_conv_map o_def
        split: if_splits)
  moreover have "sql_prepare_law dia (mem_sql_api dia F) mem_sem (\<lambda>t. True) (set F)"
    by (auto simp: sql_prepare_law_def mem_sql_api_def mem_sem_def fun_eq_iff nth_append)
  ultimately show ?thesis
    by (auto simp: sql_laws_def sql_conn_law_def sql_exec_law_def mem_sql_api_def mem_sem_def sql_same_def split: if_splits)
qed

end
