(* ===== verification/Mysql.thy ===== *)
theory Mysql
  imports SqlConn
begin

text \<open>
  The adapter for MySQL, TiDB and MariaDB, \<^verbatim>\<open>db/mysql/db.go\<close>: the round robin over TiDB instances, creation, and the row operations
  with the texts and arguments of their statements. The lemmas show that every text is read as the command it is meant to be, that
  the adapter is a table of rows in which the first insert of a key wins, and which instances are opened.
\<close>

section \<open>Instances\<close>

record muxDriver =
  mux_cursor :: u64
  mux_instances :: "string list"

text \<open>\<open>int(k)\<close> of the counter is signed, so the remainder may be negative.\<close>

definition mux_Open :: "muxDriver \<Rightarrow> (string \<times> muxDriver) go" where
  "mux_Open drv =
     (let k = mux_cursor drv + 1; n = int (length (mux_instances drv)) in
      if n = 0 then Panic ''integer divide by zero''
      else gbind (go_index (mux_instances drv) (go_mod (sint k) n)) (\<lambda>dsn. Ret (dsn, drv\<lparr>mux_cursor := k\<rparr>)))"

definition openTiDBInstances ::
    "(string \<Rightarrow> string) \<Rightarrow> muxDriver smap \<Rightarrow> string list \<Rightarrow> string \<Rightarrow> string \<Rightarrow> string \<Rightarrow> string \<times> muxDriver smap" where
  "openTiDBInstances sha1hex drivers addrs user pass db =
     (let instances = map (\<lambda>addr. user @ '':'' @ pass @ ''@tcp('' @ addr @ '')/'' @ db) addrs;
          driver = ''tidb:'' @ sha1hex (concat (map (\<lambda>addr. ''+'' @ addr) addrs))
      in if map_of drivers driver \<noteq> None then (driver, drivers)
         else (driver, AList.update driver \<lparr>mux_cursor = 0, mux_instances = instances\<rparr> drivers))"

section \<open>Creation\<close>

record 's mysqlDB =
  my_p :: props
  my_conn :: "'s sqlconn"
  my_verbose :: bool
  my_forceIndexKeyword :: string

definition mysql_create_text :: "string \<Rightarrow> string \<Rightarrow> bool \<Rightarrow> int \<Rightarrow> int \<Rightarrow> string" where
  "mysql_create_text driverName tableName clustered fieldCount fieldLength =
     ''CREATE TABLE IF NOT EXISTS '' @ tableName @ '' (YCSB_KEY VARCHAR(64) PRIMARY KEY''
     @ (if (driverName = ''tidb'' \<or> driverName = ''mysql'') \<and> clustered then '' /*T![clustered_index] CLUSTERED */'' else [])
     @ concat (map (\<lambda>i. '', FIELD'' @ itoa i @ '' VARCHAR('' @ itoa fieldLength @ '')'') [0..fieldCount - 1]) @ '');''"

definition mysql_createTable :: "'s sql_api \<Rightarrow> props \<Rightarrow> string \<Rightarrow> 's \<Rightarrow> error option \<times> 's" where
  "mysql_createTable api p driverName s =
     (let tableName = GetString p prop_TableName prop_TableNameDefault;
          (err, s) = (if GetBool p prop_DropData prop_DropDataDefault \<and> \<not> GetBool p prop_DoTransactions True
                      then sq_DBExec api s (''DROP TABLE IF EXISTS '' @ tableName) else (None, s))
      in if err \<noteq> None then (err, s)
         else sq_DBExec api s (mysql_create_text driverName tableName (GetBool p ''tidb.cluster_index'' True)
                (GetInt64 p prop_FieldCount prop_FieldCountDefault) (GetInt64 p prop_FieldLength prop_FieldLengthDefault)))"

definition mysql_tidbs :: "string \<Rightarrow> string list" where
  "mysql_tidbs tidbList = filter (\<lambda>tidb. tidb \<noteq> []) (map trim_space (split_on (CHR '','') tidbList))"

text \<open>
  \<open>Open\<close> stands for \<open>sql.Open\<close> with a driver name and a data source name, and for the limits on its connections.
\<close>

definition mysql_Create ::
    "(string \<Rightarrow> string) \<Rightarrow> muxDriver smap \<Rightarrow> (muxDriver smap \<Rightarrow> string \<Rightarrow> string \<Rightarrow> int \<times> int \<Rightarrow> error + 's) \<Rightarrow> 's sql_api \<Rightarrow> string \<Rightarrow> props
      \<Rightarrow> (error + 's mysqlDB) \<times> muxDriver smap" where
  "mysql_Create sha1hex drivers Open api name p =
     (let host = GetString p ''mysql.host'' ''127.0.0.1''; port = GetInt p ''mysql.port'' 3306; user = GetString p ''mysql.user'' ''root'';
          password = GetString p ''mysql.password'' []; dbName = GetString p ''mysql.db'' ''test'';
          tidbs = mysql_tidbs (GetString p ''tidb.instances'' []);
          threadCount = GetInt64 p prop_ThreadCount prop_ThreadCountDefault;
          conns = (i64 (threadCount + 1), i64 (threadCount * 2));
          (driver, dsn, drivers) =
            (if tidbs \<noteq> [] then (let (driver, drivers) = openTiDBInstances sha1hex drivers tidbs user password dbName in (driver, [], drivers))
             else (''mysql'', user @ '':'' @ password @ ''@tcp('' @ host @ '':'' @ itoa port @ '')/'' @ dbName, drivers))
      in case Open drivers driver dsn conns of
           Inl err \<Rightarrow> (Inl err, drivers)
         | Inr s \<Rightarrow> (case mysql_createTable api p name s of
               (Some err, s) \<Rightarrow> (Inl err, drivers)
             | (None, s) \<Rightarrow> (Inr \<lparr>my_p = p, my_conn = \<lparr>sc_db = s, sc_state = None\<rparr>, my_verbose = GetBool p prop_Verbose prop_VerboseDefault,
                  my_forceIndexKeyword = (if GetBool p ''mysql.force_index'' True then ''FORCE INDEX(`PRIMARY`)'' else [])\<rparr>, drivers)))"

definition on_mysql :: "('s sqlconn \<Rightarrow> ('a \<times> 's sqlconn) go) \<Rightarrow> 's mysqlDB \<Rightarrow> ('a \<times> 's mysqlDB) go" where
  "on_mysql f db = gbind (f (my_conn db)) (\<lambda>(r, c). Ret (r, db\<lparr>my_conn := c\<rparr>))"

definition mysql_Close :: "'s sql_api \<Rightarrow> 's mysqlDB \<Rightarrow> error option \<times> 's mysqlDB" where
  "mysql_Close api db = (let (err, s) = sq_Close api (sc_db (my_conn db)) in (err, db\<lparr>my_conn := (my_conn db)\<lparr>sc_db := s\<rparr>\<rparr>))"

section \<open>Statements\<close>

definition mysql_select :: "string \<Rightarrow> string \<Rightarrow> string list \<Rightarrow> string" where
  "mysql_select kw table fnames = ''SELECT '' @ sql_cols fnames @ '' FROM '' @ table @ '' '' @ kw @ '' WHERE YCSB_KEY ''"

text \<open>The loop over the keys: a placeholder each, with commas between them.\<close>

definition holders :: "string list \<Rightarrow> string" where
  "holders ks = join_with '','' (map (\<lambda>k. ''?'') ks)"

definition mysql_Read :: "'s sql_api \<Rightarrow> 's mysqlDB \<Rightarrow> string \<Rightarrow> string \<Rightarrow> string list \<Rightarrow> ((error + row option) \<times> 's mysqlDB) go" where
  "mysql_Read api db table key fnames =
     gbind (on_mysql (query_clear api (mysql_select (my_forceIndexKeyword db) table fnames @ ''= ?'') 1 [AString key]) db) (\<lambda>(r, db).
       Ret (case r of Inl err \<Rightarrow> Inl err | Inr [] \<Rightarrow> Inr None | Inr (m # ms) \<Rightarrow> Inr (Some m), db))"

definition mysql_BatchRead :: "'s sql_api \<Rightarrow> 's mysqlDB \<Rightarrow> string \<Rightarrow> string list \<Rightarrow> string list \<Rightarrow> ((error + row option list) \<times> 's mysqlDB) go" where
  "mysql_BatchRead api db table keys fnames =
     gbind (on_mysql (query_clear api (mysql_select (my_forceIndexKeyword db) table fnames @ ''IN ('' @ holders keys @ '')'')
              (int (length keys)) (map AString keys)) db) (\<lambda>(r, db). Ret (map_sum id (map Some) r, db))"

definition mysql_Scan :: "'s sql_api \<Rightarrow> 's mysqlDB \<Rightarrow> string \<Rightarrow> string \<Rightarrow> int \<Rightarrow> string list \<Rightarrow> ((error + row option list) \<times> 's mysqlDB) go" where
  "mysql_Scan api db table startKey cnt fnames =
     gbind (on_mysql (query_clear api (mysql_select (my_forceIndexKeyword db) table fnames @ ''>= ? LIMIT ?'')
              cnt [AString startKey, AInt cnt]) db) (\<lambda>(r, db). Ret (map_sum id (map Some) r, db))"

definition mysql_Update :: "'s sql_api \<Rightarrow> 's mysqlDB \<Rightarrow> string \<Rightarrow> string \<Rightarrow> row \<Rightarrow> (error option \<times> 's mysqlDB) go" where
  "mysql_Update api db table key vals =
     (let pairs = NewFieldPairs vals in on_mysql (execQuery api (update_text table pairs) (pair_args pairs @ [AString key])) db)"

fun mysql_BatchUpdate :: "'s sql_api \<Rightarrow> 's mysqlDB \<Rightarrow> string \<Rightarrow> string list \<Rightarrow> row list \<Rightarrow> (error option \<times> 's mysqlDB) go" where
  "mysql_BatchUpdate api db table [] vals = Ret (None, db)"
| "mysql_BatchUpdate api db table (key # keys) vals =
     gbind (go_index vals 0) (\<lambda>v. gbind (mysql_Update api db table key v) (\<lambda>(err, db).
       if err \<noteq> None then Ret (err, db) else mysql_BatchUpdate api db table keys (tl vals)))"

definition mysql_Insert :: "'s sql_api \<Rightarrow> 's mysqlDB \<Rightarrow> string \<Rightarrow> string \<Rightarrow> row \<Rightarrow> (error option \<times> 's mysqlDB) go" where
  "mysql_Insert api db table key vals =
     (let pairs = NewFieldPairs vals in on_mysql (execQuery api (insert_text ''INSERT IGNORE INTO '' table pairs) (AString key # pair_args pairs)) db)"

fun batch_args :: "string list \<Rightarrow> row list \<Rightarrow> sqlarg list go" where
  "batch_args [] vals = Ret []"
| "batch_args (key # keys) vals =
     gbind (go_index vals 0) (\<lambda>v. gbind (batch_args keys (tl vals)) (\<lambda>args. Ret (AString key # pair_args (NewFieldPairs v) @ args)))"

text \<open>The columns are those of the first row.\<close>

definition mysql_batch_insert_text :: "string \<Rightarrow> (string \<times> byte list) list \<Rightarrow> nat \<Rightarrow> string" where
  "mysql_batch_insert_text table pairs n =
     ''INSERT IGNORE INTO '' @ table @ '' (YCSB_KEY'' @ concat (map (\<lambda>w. '' ,'' @ w) (map fst pairs)) @ '') VALUES ''
     @ join_with '','' (replicate n (''(?'' @ concat (map (\<lambda>p. '' ,?'') pairs) @ '')''))"

definition mysql_BatchInsert :: "'s sql_api \<Rightarrow> 's mysqlDB \<Rightarrow> string \<Rightarrow> string list \<Rightarrow> row list \<Rightarrow> (error option \<times> 's mysqlDB) go" where
  "mysql_BatchInsert api db table keys vals =
     gbind (go_index vals 0) (\<lambda>v. gbind (batch_args keys vals) (\<lambda>args.
       on_mysql (execQuery api (mysql_batch_insert_text table (NewFieldPairs v) (length keys)) args) db))"

definition mysql_Delete :: "'s sql_api \<Rightarrow> 's mysqlDB \<Rightarrow> string \<Rightarrow> string \<Rightarrow> (error option \<times> 's mysqlDB) go" where
  "mysql_Delete api db table key =
     on_mysql (execQuery api (''DELETE FROM '' @ table @ '' WHERE YCSB_KEY = ?'') [AString key]) db"

definition mysql_BatchDelete :: "'s sql_api \<Rightarrow> 's mysqlDB \<Rightarrow> string \<Rightarrow> string list \<Rightarrow> (error option \<times> 's mysqlDB) go" where
  "mysql_BatchDelete api db table keys =
     on_mysql (execQuery api (''DELETE FROM '' @ table @ '' WHERE YCSB_KEY IN ('' @ holders keys @ '')'') (map AString keys)) db"

definition mysql_Analyze :: "'s sql_api \<Rightarrow> 's mysqlDB \<Rightarrow> string \<Rightarrow> (error option \<times> 's mysqlDB) go" where
  "mysql_Analyze api db table =
     (let (err, s) = sq_DBExec api (sc_db (my_conn db)) (''ANALYZE TABLE '' @ table) in Ret (err, db\<lparr>my_conn := (my_conn db)\<lparr>sc_db := s\<rparr>\<rparr>))"

definition mysql_db :: "'s sql_api \<Rightarrow> 's mysqlDB db" where
  "mysql_db api =
     \<lparr>db_Close = (\<lambda>d. Ret (mysql_Close api d)),
      db_InitThread = (\<lambda>d i n. gbind (sql_InitThread api (my_conn d)) (\<lambda>c. Ret (d\<lparr>my_conn := c\<rparr>))),
      db_CleanupThread = (\<lambda>d. gbind (sql_CleanupThread api (my_conn d)) (\<lambda>c. Ret (d\<lparr>my_conn := c\<rparr>))),
      db_Read = (\<lambda>d t k fs. map_res (map_sum id nil_row) (mysql_Read api d t k fs)), db_Scan = mysql_Scan api, db_Update = mysql_Update api,
      db_Insert = mysql_Insert api, db_Delete = mysql_Delete api,
      db_Batch = Some \<lparr>db_BatchInsert = mysql_BatchInsert api, db_BatchRead = mysql_BatchRead api,
        db_BatchUpdate = mysql_BatchUpdate api, db_BatchDelete = mysql_BatchDelete api\<rparr>,
      db_Analyze = Some (mysql_Analyze api), db_TypeName = ''*mysql.mysqlDB''\<rparr>"

section \<open>The texts are read as they are meant\<close>

definition mysql_dialect :: sql_dialect where
  "mysql_dialect = \<lparr>sd_ph = (\<lambda>i. ''?''), sd_insert = [''INSERT'', ''IGNORE'', ''INTO''], sd_conflict = [],
     sd_hint = [''FORCE'', ''INDEX'', ''('', ''`'', ''PRIMARY'', ''`'', '')'']\<rparr>"

definition mysql_keyword :: "string \<Rightarrow> bool" where
  "mysql_keyword kw \<longleftrightarrow> kw = [] \<or> kw = ''FORCE INDEX(`PRIMARY`)''"

lemma tokens_select:
  assumes "is_name t" and "\<forall>f\<in>set fs. is_name f" and "mysql_keyword kw"
  shows "sql_tokens (mysql_select kw t fs @ s) =
    ''SELECT'' # (if fs = [] then [''*''] else commas fs) @ ''FROM'' # t # (if kw = [] then [] else sd_hint mysql_dialect) @ ''WHERE'' # ''YCSB_KEY'' # sql_tokens s"
  using assms by (auto simp: mysql_select_def mysql_keyword_def mysql_dialect_def sql_tok)

lemma holders_tokens: "ks \<noteq> [] \<Longrightarrow> sql_tokens (holders ks @ s) = commas (replicate (length ks) ''?'') @ sql_tokens s"
  by (induction ks rule: induct_list012) (auto simp: holders_def)

lemma mysql_read_parse:
  assumes "is_name t" and "\<forall>f\<in>set fs. is_name f" and "mysql_keyword kw"
  shows "sql_parse mysql_dialect (mysql_select kw t fs @ ''= ?'') = Some (SqlSelect fs t)"
  using assms by (cases "kw = []") (simp_all add: tokens_select sql_par mysql_dialect_def)

lemma mysql_scan_parse:
  assumes "is_name t" and "\<forall>f\<in>set fs. is_name f" and "mysql_keyword kw"
  shows "sql_parse mysql_dialect (mysql_select kw t fs @ ''>= ? LIMIT ?'') = Some (SqlScan fs t)"
  using assms by (cases "kw = []") (simp_all add: tokens_select sql_par sql_tok mysql_dialect_def)

lemma mysql_batch_read_parse:
  assumes "is_name t" and "\<forall>f\<in>set fs. is_name f" and "mysql_keyword kw" and "ks \<noteq> []"
  shows "sql_parse mysql_dialect (mysql_select kw t fs @ ''IN ('' @ holders ks @ '')'') = Some (SqlSelectIn fs t (length ks))"
proof -
  obtain n where n: "length ks = Suc n" using assms(4) by (cases ks) auto
  show ?thesis using assms p_holders_const [of "['')'']" "''?''" 1 n]
    by (cases "kw = []") (simp_all add: tokens_select sql_par sql_tok holders_tokens mysql_dialect_def n del: replicate_Suc)
qed

lemma mysql_delete_parse: "is_name t \<Longrightarrow> sql_parse mysql_dialect (''DELETE FROM '' @ t @ '' WHERE YCSB_KEY = ?'') = Some (SqlDelete t)"
  by (simp add: sql_tok sql_par mysql_dialect_def)

lemma mysql_batch_delete_parse:
  assumes "is_name t" and "ks \<noteq> []"
  shows "sql_parse mysql_dialect (''DELETE FROM '' @ t @ '' WHERE YCSB_KEY IN ('' @ holders ks @ '')'') = Some (SqlDeleteIn t (length ks))"
proof -
  obtain n where n: "length ks = Suc n" using assms(2) by (cases ks) auto
  show ?thesis using assms p_holders_const [of "['')'']" "''?''" 1 n]
    by (simp add: sql_tok sql_par mysql_dialect_def holders_tokens n del: replicate_Suc)
qed

lemma mysql_update_parse:
  "is_name t \<Longrightarrow> ps \<noteq> [] \<Longrightarrow> \<forall>p\<in>set ps. is_name (fst p) \<Longrightarrow> sql_parse mysql_dialect (update_text t ps) = Some (SqlUpdate t (map fst ps))"
  by (rule update_text_parse) (simp_all add: mysql_dialect_def)

lemma mysql_insert_parse:
  "is_name t \<Longrightarrow> \<forall>p\<in>set ps. is_name (fst p) \<Longrightarrow> sql_parse mysql_dialect (insert_text ''INSERT IGNORE INTO '' t ps) = Some (SqlInsert t (map fst ps) 1)"
  by (rule insert_text_parse) (simp_all add: mysql_dialect_def sql_tok)

section \<open>The adapter keeps its contract\<close>

definition mysql_inv ::
    "'s sql_api \<Rightarrow> 's sql_sem \<Rightarrow> (string \<Rightarrow> bool) \<Rightarrow> string set \<Rightarrow> (string \<Rightarrow> string \<Rightarrow> rowmap \<Rightarrow> bool) \<Rightarrow> (string \<Rightarrow> rowmap \<Rightarrow> rowmap) \<Rightarrow> 's mysqlDB \<Rightarrow> bool" where
  "mysql_inv api M tabs K adm star db \<longleftrightarrow> sql_laws mysql_dialect api M tabs K adm star \<and> cache_ok M (my_conn db)
     \<and> mysql_keyword (my_forceIndexKeyword db) \<and> (\<forall>f\<in>K. is_name f)"

definition mysql_rows :: "'s sql_sem \<Rightarrow> 's mysqlDB \<Rightarrow> table" where
  "mysql_rows M db = conn_view M (my_conn db)"

lemma mysql_invD:
  assumes "mysql_inv api M tabs K adm star db"
  shows "sql_laws mysql_dialect api M tabs K adm star" and "cache_ok M (my_conn db)" and "mysql_keyword (my_forceIndexKeyword db)"
    and "\<And>f. f \<in> K \<Longrightarrow> is_name f"
  using assms by (auto simp: mysql_inv_def)

lemma on_mysql_ok:
  assumes "mysql_inv api M tabs K adm star db" and "f (my_conn db) = Ret (r, c)" and "cache_ok M c"
  shows "\<exists>db'. on_mysql f db = Ret (r, db') \<and> mysql_inv api M tabs K adm star db' \<and> mysql_rows M db' = conn_view M c"
  using assms by (auto simp: on_mysql_def mysql_inv_def mysql_rows_def)

lemma mysql_Insert_ok:
  assumes "mysql_inv api M tabs K adm star db" and "sql_table tabs t" and "row_ok K v" and "adm t k (keep_old (mysql_rows M db (t, k)) (map_of v))"
  shows "\<exists>db'. mysql_Insert api db t k v = Ret (None, db') \<and> mysql_inv api M tabs K adm star db'
    \<and> mysql_rows M db' = (mysql_rows M db)((t, k) \<mapsto> keep_old (mysql_rows M db (t, k)) (map_of v))"
proof -
  note I = mysql_invD [OF assms(1)]
  show ?thesis
    using conn_insert [OF I(1,2) _ assms(3) mysql_insert_parse] row_ok_names [OF assms(3)] I(4) assms(2,4) on_mysql_ok [OF assms(1)]
    by (fastforce simp: mysql_Insert_def Let_def sql_table_def mysql_rows_def)
qed

lemma mysql_Update_ok:
  assumes "mysql_inv api M tabs K adm star db" and "sql_table tabs t" and "row_ok K v" and "v \<noteq> []" and "mysql_rows M db (t, k) = Some m"
    and "adm t k (m ++ map_of v)"
  shows "\<exists>db'. mysql_Update api db t k v = Ret (None, db') \<and> mysql_inv api M tabs K adm star db'
    \<and> mysql_rows M db' = (mysql_rows M db)((t, k) \<mapsto> m ++ map_of v)"
proof -
  note I = mysql_invD [OF assms(1)]
  show ?thesis
    using conn_update [OF I(1,2) _ assms(3) mysql_update_parse] row_ok_names [OF assms(3)] I(4) assms(2,4-) on_mysql_ok [OF assms(1)]
    by (fastforce simp: mysql_Update_def Let_def sql_table_def mysql_rows_def)
qed

lemma mysql_Delete_ok:
  assumes "mysql_inv api M tabs K adm star db" and "sql_table tabs t"
  shows "\<exists>db'. mysql_Delete api db t k = Ret (None, db') \<and> mysql_inv api M tabs K adm star db' \<and> mysql_rows M db' = (mysql_rows M db)((t, k) := None)"
  using conn_delete [OF mysql_invD(1,2) [OF assms(1)] _ mysql_delete_parse] assms(2) on_mysql_ok [OF assms(1)]
  by (fastforce simp: mysql_Delete_def sql_table_def mysql_rows_def)

lemma mysql_Read_ok:
  assumes "mysql_inv api M tabs K adm star db" and "sql_table tabs t" and "set fs \<subseteq> K" and "mysql_rows M db (t, k) = Some m"
  shows "\<exists>res db'. mysql_Read api db t k fs = Ret (Inr (Some res), db') \<and> mysql_inv api M tabs K adm star db' \<and> mysql_rows M db' = mysql_rows M db
    \<and> map_of res = sql_sel star k m fs"
proof -
  note I = mysql_invD [OF assms(1)]
  have "\<forall>f\<in>set fs. is_name f" using I(4) assms(3) by auto
  then obtain res c where "query_clear api (mysql_select (my_forceIndexKeyword db) t fs @ ''= ?'') 1 [AString k] (my_conn db) = Ret (Inr [res], c)"
      "cache_ok M c" "conn_view M c = conn_view M (my_conn db)" "map_of res = sql_sel star k m fs"
    using query_ok [OF I(1,2) mysql_read_parse [OF _ _ I(3)], of t fs k m 1] assms(2-4) by (auto simp: sql_table_def mysql_rows_def)
  then show ?thesis using assms(1) by (auto simp: mysql_Read_def on_mysql_def mysql_inv_def mysql_rows_def)
qed

interpretation mysql: policy_db "mysql_db api" "mysql_inv api M tabs K adm star" "mysql_rows M" "\<lambda>db. K" "sql_table tabs" adm "\<lambda>db. sql_policy star"
  for api M tabs K adm star
proof (unfold_locales, goal_cases)
  case (1 d t v k)
  then show ?case using mysql_Insert_ok [OF 1(1-3)] by (simp add: mysql_db_def sql_policy_def)
next
  case (2 d t v k m)
  then show ?case using mysql_Update_ok [OF 2(1-5)] by (simp add: mysql_db_def sql_policy_def)
next
  case (3 d t k m)
  then show ?case using mysql_Delete_ok [OF 3(1,2)] by (simp add: mysql_db_def)
next
  case (4 d t fs k m)
  then show ?case using mysql_Read_ok [OF 4] by (auto simp: mysql_db_def sql_policy_def map_res_def nil_row_def)
qed

section \<open>Properties\<close>

text \<open>
  C12. The MySQL adapter refines a table of rows in which the first insert of a key wins: over a server that runs the SQL of
  the adapter's statements, after \<open>Create\<close> and \<open>InitThread\<close> on an empty table, every admissible sequence of inserts, updates,
  deletes and reads returns without error what it returns on that table, a missing value reading as no bytes and \<open>SELECT *\<close> as the
  server's full row. When every key is inserted once with all fields and reads name their fields, as the workloads do, this is the
  table of rows of the other adapters.
\<close>

theorem mysql_refines_table:
  assumes "sql_laws mysql_dialect api M tabs K adm star" and "\<forall>f\<in>K. is_name f"
    and "mysql_Create sha1hex drivers Open api name p = (Inr db, drivers')"
    and "sm_ok M (sc_db (my_conn db))" and "sm_view M (sc_db (my_conn db)) = Map.empty"
    and "pops_ok (sql_policy star) K (sql_table tabs) adm ops Map.empty"
  shows "\<exists>db0 db'. db_InitThread (mysql_db api) db i n = Ret db0
    \<and> db_run (mysql_db api) ops db0 = Ret (fst (policy_run (sql_policy star) ops Map.empty), db')
    \<and> mysql_rows M db' = snd (policy_run (sql_policy star) ops Map.empty)
    \<and> (bench_ops K ops Map.empty \<longrightarrow> policy_run (sql_policy star) ops Map.empty = table_run ops Map.empty)"
proof -
  obtain c where c: "sql_InitThread api (my_conn db) = Ret c" "cache_ok M c" "conn_view M c = Map.empty"
    using sql_InitThread_ok [OF assms(1,4)] assms(5) by (auto simp: conn_view_def)
  let ?db = "db\<lparr>my_conn := c\<rparr>"
  have "mysql_keyword (my_forceIndexKeyword db)"
    using assms(3) by (auto simp: mysql_Create_def Let_def mysql_keyword_def split: sum.splits prod.splits option.splits if_splits)
  then have inv: "mysql_inv api M tabs K adm star ?db" using assms(1,2) c(2) by (simp add: mysql_inv_def)
  have "mysql_rows M ?db = Map.empty" using c(3) by (simp add: mysql_rows_def)
  moreover have "bench_ops K ops Map.empty \<Longrightarrow> policy_run (sql_policy star) ops Map.empty = table_run ops Map.empty"
    using bench_run [OF sql_policy_merging _ _ assms(6)] by (simp add: full_rows_def)
  ultimately show ?thesis
    using mysql.policy_run_refines [OF inv, of ops] assms(6) c(1) by (auto simp: mysql_db_def)
qed

definition sample_mysql :: "mem_sql mysqlDB" where
  "sample_mysql = \<lparr>my_p = props_of [] [], my_conn = \<lparr>sc_db = \<lparr>mq_T = Map.empty, mq_texts = [], mq_conns = 0\<rparr>, sc_state = None\<rparr>,
     my_verbose = False, my_forceIndexKeyword = ''FORCE INDEX(`PRIMARY`)''\<rparr>"

lemma sample_mysql_created:
  "mysql_Create (\<lambda>s. s) [] (\<lambda>drivers driver dsn conns. Inr \<lparr>mq_T = Map.empty, mq_texts = [], mq_conns = 0\<rparr>)
     (mem_sql_api mysql_dialect [''field0'', ''field1'']) ''mysql'' (props_of [] []) = (Inr sample_mysql, [])"
  by (simp add: mysql_Create_def mysql_createTable_def mem_sql_api_def sample_mysql_def Let_def prop_defs mysql_tidbs_def trim_space_def)

text \<open>The second insert of a key changes nothing, the update merges.\<close>

theorem mysql_refines_table_witness:
  "\<exists>db0 db'. db_InitThread (mysql_db (mem_sql_api mysql_dialect [''field0'', ''field1''])) sample_mysql 0 1 = Ret db0
    \<and> db_run (mysql_db (mem_sql_api mysql_dialect [''field0'', ''field1'']))
        [OpInsert ''usertable'' ''k'' [(''field1'', [2]), (''field0'', [1])], OpInsert ''usertable'' ''k'' [(''field0'', [9])],
         OpUpdate ''usertable'' ''k'' [(''field1'', [3])], OpRead ''usertable'' ''k'' [''field0'', ''field1'']] db0
      = Ret ([Done None, Done None, Done None, Row (Inr [''field0'' \<mapsto> [1], ''field1'' \<mapsto> [3]])], db')"
proof -
  let ?F = "[''field0'', ''field1'']"
  let ?ops = "[OpInsert ''usertable'' ''k'' [(''field1'', [2]), (''field0'', [1])], OpInsert ''usertable'' ''k'' [(''field0'', [9])],
         OpUpdate ''usertable'' ''k'' [(''field1'', [3])], OpRead ''usertable'' ''k'' ?F]"
  have laws: "sql_laws mysql_dialect (mem_sql_api mysql_dialect ?F) mem_sem (\<lambda>t. True) (set ?F) (\<lambda>t k m. True) (mem_star ?F)"
    by (rule mem_sql_laws) simp_all
  have ok: "pops_ok (sql_policy (mem_star ?F)) (set ?F) (sql_table (\<lambda>t. True)) (\<lambda>t k m. True) ?ops Map.empty"
    by (simp add: sql_table_def names_sample row_ok_def)
  have start: "sm_ok mem_sem (sc_db (my_conn sample_mysql))" "sm_view mem_sem (sc_db (my_conn sample_mysql)) = Map.empty" "\<forall>f\<in>set ?F. is_name f"
    using names_sample by (simp_all add: mem_sem_def sample_mysql_def)
  obtain db0 db' where r: "db_InitThread (mysql_db (mem_sql_api mysql_dialect ?F)) sample_mysql 0 1 = Ret db0"
      "db_run (mysql_db (mem_sql_api mysql_dialect ?F)) ?ops db0 = Ret (fst (policy_run (sql_policy (mem_star ?F)) ?ops Map.empty), db')"
    using mysql_refines_table [OF laws start(3) sample_mysql_created start(1,2) ok, of 0 1] by blast
  have "fst (policy_run (sql_policy (mem_star ?F)) ?ops Map.empty) = [Done None, Done None, Done None, Row (Inr [''field0'' \<mapsto> [1], ''field1'' \<mapsto> [3]])]"
    by (auto simp: sql_policy_def keep_old_def sql_sel_def null_bytes_def fun_eq_iff)
  then show ?thesis using r by metis
qed



lemma getAndCacheStmt_error:
  assumes "getAndCacheStmt api q c = Ret (Inl err, c')"
  shows "\<exists>st. sc_state c' = Some st \<and> map_of (ss_stmtCache st) q = None"
proof -
  obtain st where st: "sc_state c = Some st" "map_of (ss_stmtCache st) q = None"
    using assms by (auto simp: getAndCacheStmt_def sql_state_def split: option.splits)
  obtain r s r' s' st' where e: "(case r' of Inl err \<Rightarrow> Ret (Inl err, \<lparr>sc_db = s', sc_state = Some st'\<rparr>)
        | Inr stmt \<Rightarrow> Ret (Inr stmt, \<lparr>sc_db = s', sc_state = Some (st'\<lparr>ss_stmtCache := AList.update q stmt (ss_stmtCache st')\<rparr>)\<rparr>)) = Ret (Inl err, c')"
    and st': "(if r = Inl ErrConnDone then
                (case sq_Conn api s of
                   (Inl err, s) \<Rightarrow> Ret ((Inl err, s), st\<lparr>ss_conn := None\<rparr>)
                 | (Inr conn, s) \<Rightarrow> gbind (conn_Prepare api s (Some conn) q) (\<lambda>rs. Ret (rs, st\<lparr>ss_conn := Some conn\<rparr>)))
              else Ret ((r, s), st)) = Ret ((r', s'), st')"
    using assms st unfolding getAndCacheStmt_def sql_state_def
    by (simp only: option.case gbind.simps gbind_eq_Ret_iff split_paired_Ex case_prod_conv) blast
  have "ss_stmtCache st' = ss_stmtCache st"
    using st' by (cases "sq_Conn api s"; cases "fst (sq_Conn api s)") (auto simp: gbind_eq_Ret_iff split: if_splits)
  moreover have "sc_state c' = Some st'" using e by (cases r') auto
  ultimately show ?thesis using st(2) by simp
qed

lemma clearCacheIfFailed_clears:
  "clearCacheIfFailed api q (Some err) c = Ret c' \<Longrightarrow> \<exists>st. sc_state c' = Some st \<and> map_of (ss_stmtCache st) q = None"
  by (auto simp: clearCacheIfFailed_def sql_state_def Let_def delete_conv' split: option.splits)

lemma execQuery_error:
  assumes "execQuery api q args c = Ret (Some err, c')"
  shows "\<exists>st. sc_state c' = Some st \<and> map_of (ss_stmtCache st) q = None"
proof -
  obtain r c1 where c1: "getAndCacheStmt api q c = Ret (r, c1)"
    using assms by (cases "getAndCacheStmt api q c") (auto simp: execQuery_def)
  show ?thesis
  proof (cases r)
    case (Inl e)
    then show ?thesis using assms c1 getAndCacheStmt_error [of api q c e c1] by (simp add: execQuery_def)
  next
    case (Inr stmt)
    then show ?thesis using assms c1 clearCacheIfFailed_clears [of api q err]
      by (cases "sq_Exec api (sc_db c1) stmt args") (auto simp: execQuery_def gbind_eq_Ret_iff)
  qed
qed

text \<open>
  A statement that failed is not used again: when an operation of the MySQL adapter reports an error, whether the statement could not
  be prepared or its execution failed, the cache of the thread holds no statement for its text, so the next attempt prepares it anew.
\<close>

theorem failed_statement_not_reused:
  shows "(execQuery api q args c = Ret (Some err, c') \<longrightarrow> (\<exists>st. sc_state c' = Some st \<and> map_of (ss_stmtCache st) q = None))
    \<and> (query_clear api q cnt args c = Ret (Inl err, c') \<longrightarrow> (\<exists>st. sc_state c' = Some st \<and> map_of (ss_stmtCache st) q = None))"
proof (intro conjI impI)
  assume "execQuery api q args c = Ret (Some err, c')"
  then show "\<exists>st. sc_state c' = Some st \<and> map_of (ss_stmtCache st) q = None"
    by (rule execQuery_error)
next
  assume "query_clear api q cnt args c = Ret (Inl err, c')"
  then show "\<exists>st. sc_state c' = Some st \<and> map_of (ss_stmtCache st) q = None"
    by (auto simp: query_clear_def gbind_eq_Ret_iff left_error_def dest: clearCacheIfFailed_clears)
qed

text \<open>A server whose executions all fail.\<close>

theorem failed_statement_not_reused_witness:
  "\<exists>c' st. execQuery ((mem_sql_api mysql_dialect [])\<lparr>sq_Exec := (\<lambda>s n args. (Some ''deadlock'', s))\<rparr>) ''q'' []
       \<lparr>sc_db = \<lparr>mq_T = Map.empty, mq_texts = [''q''], mq_conns = 1\<rparr>, sc_state = Some \<lparr>ss_stmtCache = [(''q'', 0)], ss_conn = Some 0\<rparr>\<rparr> = Ret (Some ''deadlock'', c')
     \<and> sc_state c' = Some st \<and> map_of (ss_stmtCache st) ''q'' = None"
proof -
  let ?api = "(mem_sql_api mysql_dialect [])\<lparr>sq_Exec := (\<lambda>s n args. (Some ''deadlock'', s))\<rparr>"
  let ?c = "\<lparr>sc_db = \<lparr>mq_T = Map.empty, mq_texts = [''q''], mq_conns = 1\<rparr>, sc_state = Some \<lparr>ss_stmtCache = [(''q'', 0)], ss_conn = Some 0\<rparr>\<rparr>"
  obtain c' where "execQuery ?api ''q'' [] ?c = Ret (Some ''deadlock'', c')"
    by (simp add: execQuery_def getAndCacheStmt_def sql_state_def clearCacheIfFailed_def Let_def)
  then show ?thesis using failed_statement_not_reused [of ?api "''q''" "[]" ?c "''deadlock''" c' 0] by blast
qed

fun mux_opens :: "nat \<Rightarrow> muxDriver \<Rightarrow> (string list \<times> muxDriver) go" where
  "mux_opens 0 drv = Ret ([], drv)"
| "mux_opens (Suc m) drv = gbind (mux_Open drv) (\<lambda>(dsn, drv). gbind (mux_opens m drv) (\<lambda>(dsns, drv). Ret (dsn # dsns, drv)))"

lemma mux_Open_next:
  assumes "mux_instances drv \<noteq> []" and "unat (mux_cursor drv) + 1 < 2 ^ 63"
  shows "mux_Open drv = Ret (mux_instances drv ! (Suc (unat (mux_cursor drv)) mod length (mux_instances drv)), drv\<lparr>mux_cursor := mux_cursor drv + 1\<rparr>)
    \<and> unat (mux_cursor drv + 1) = Suc (unat (mux_cursor drv))"
proof -
  have u: "unat (mux_cursor drv + 1) = Suc (unat (mux_cursor drv))" using assms(2) by (simp add: unat_word_ariths)
  then have "unat (mux_cursor drv + 1) < 2 ^ 63" using assms(2) by simp
  then have "int (unat (mux_cursor drv + 1)) < int (2 ^ 63)" by (simp only: of_nat_less_iff)
  then have "sint (mux_cursor drv + 1) = int (unat (mux_cursor drv + 1))"
    using order_trans [of "- (2 ^ 63)" 0 "uint (mux_cursor drv + 1)"] by (simp add: sint_uint signed_take_bit_int_eq_self)
  then have "sint (mux_cursor drv + 1) = int (Suc (unat (mux_cursor drv)))" using u by simp
  then have "go_mod (sint (mux_cursor drv + 1)) (int (length (mux_instances drv))) = int (Suc (unat (mux_cursor drv)) mod length (mux_instances drv))"
    using assms(1) by (simp add: go_mod_nonneg zmod_int del: of_nat_Suc)
  moreover have "Suc (unat (mux_cursor drv)) mod length (mux_instances drv) < length (mux_instances drv)" using assms(1) by simp
  ultimately show ?thesis using assms(1) u by (simp add: mux_Open_def Let_def go_index_def del: of_nat_Suc)
qed

lemma mux_opens_turn:
  assumes "mux_instances drv \<noteq> []" and "unat (mux_cursor drv) + m < 2 ^ 63"
  shows "\<exists>drv'. mux_opens m drv = Ret (map (\<lambda>i. mux_instances drv ! (i mod length (mux_instances drv)))
     [Suc (unat (mux_cursor drv))..<Suc (unat (mux_cursor drv) + m)], drv')"
  using assms
proof (induction m arbitrary: drv)
  case (Suc m)
  let ?d = "drv\<lparr>mux_cursor := mux_cursor drv + 1\<rparr>" and ?c = "unat (mux_cursor drv)"
  have o: "mux_Open drv = Ret (mux_instances drv ! (Suc ?c mod length (mux_instances drv)), ?d)" "unat (mux_cursor ?d) = Suc ?c"
    using mux_Open_next [of drv] Suc.prems by auto
  obtain drv' where "mux_opens m ?d = Ret (map (\<lambda>i. mux_instances drv ! (i mod length (mux_instances drv))) [Suc (Suc ?c)..<Suc (Suc ?c + m)], drv')"
    using Suc.IH [of ?d] Suc.prems o(2) by auto
  moreover have "[Suc ?c..<Suc (?c + Suc m)] = Suc ?c # [Suc (Suc ?c)..<Suc (Suc ?c + m)]" by (simp add: upt_rec)
  ultimately show ?case using o(1) by (simp del: upt_Suc)
qed simp

lemma residue_unique:
  fixes j j' :: nat
  assumes "j mod len = j' mod len" and "a \<le> j" "j < a + len" "a \<le> j'" "j' < a + len"
  shows "j = j'"
proof -
  have "x = y" if xy: "x \<le> y" "x mod len = y mod len" "y < x + len" for x y :: nat
    using mod_eq_dvd_iff_nat [of x y len] xy by (metis add.commute diff_is_0_eq le_antisym less_diff_conv2 nat_dvd_not_less neq0_conv)
  then show ?thesis using assms by (metis add_mono_thms_linordered_field(3) dual_order.strict_trans1 le_cases add_le_mono1)
qed

lemma count_turns:
  assumes "i < len"
  shows "length (filter (\<lambda>j. j mod len = i) [a..<a + n * len]) = n"
proof (induction n arbitrary: a)
  case (Suc n)
  have one: "length (filter (\<lambda>j. j mod len = i) [a..<a + len]) = 1"
  proof -
    have "set (filter (\<lambda>j. j mod len = i) [a..<a + len]) = {a + (i + (len - a mod len)) mod len}" (is "?S = {?j}")
    proof
      have r: "(i + (len - a mod len)) mod len < len" using assms by simp
      have "?j mod len = (a mod len + (i + (len - a mod len))) mod len" by (simp add: mod_simps)
      also have "a mod len + (i + (len - a mod len)) = i + len" using assms mod_less_divisor [of len a] by linarith
      also have "\<dots> mod len = i" using assms by simp
      finally have jm: "?j mod len = i" .
      then show "{?j} \<subseteq> ?S" using r by auto
      show "?S \<subseteq> {?j}"
      proof
        fix j assume "j \<in> ?S"
        then have j: "j mod len = ?j mod len" "a \<le> j" "j < a + len" using jm by auto
        then show "j \<in> {?j}" using residue_unique [of j len ?j a] r by auto
      qed
    qed
    then have "card ?S = 1" by simp
    then show ?thesis by (simp add: distinct_card [symmetric])
  qed
  have "[a..<a + Suc n * len] = [a..<a + len] @ [a + len..<(a + len) + n * len]"
    using upt_add_eq_append [of a "a + len" "n * len"] by (simp add: algebra_simps)
  then show ?case using one Suc.IH [of "a + len"] by simp
qed simp

text \<open>
  Connections to TiDB instances are spread round robin: as long as the counter stays below \<open>2^63\<close>, opening never fails in the
  choice of an instance, the instances are taken in turn, and of every \<open>n * len\<close> consecutive connections each of \<open>len\<close> distinct instances
  gets exactly \<open>n\<close>.
\<close>

theorem mux_round_robin:
  assumes "mux_instances drv \<noteq> []" and "distinct (mux_instances drv)" and "unat (mux_cursor drv) + n * length (mux_instances drv) < 2 ^ 63"
  shows "\<exists>dsns drv'. mux_opens (n * length (mux_instances drv)) drv = Ret (dsns, drv')
    \<and> (\<forall>dsn\<in>set (mux_instances drv). length (filter (\<lambda>d. d = dsn) dsns) = n)"
proof -
  let ?I = "mux_instances drv" and ?c = "unat (mux_cursor drv)"
  let ?dsns = "map (\<lambda>i. ?I ! (i mod length ?I)) [Suc ?c..<Suc (?c + n * length ?I)]"
  have "length (filter (\<lambda>d. d = dsn) ?dsns) = n" if dsn: "dsn \<in> set ?I" for dsn
  proof -
    obtain i where i: "i < length ?I" "dsn = ?I ! i" using dsn by (metis in_set_conv_nth)
    have "?I ! (j mod length ?I) = dsn \<longleftrightarrow> j mod length ?I = i" for j
      using i assms(1,2) by (simp add: nth_eq_iff_index_eq)
    then have "length (filter (\<lambda>d. d = dsn) ?dsns) = length (filter (\<lambda>j. j mod length ?I = i) [Suc ?c..<Suc (?c + n * length ?I)])"
      by (simp add: filter_map o_def del: upt_Suc)
    then show ?thesis using count_turns [OF i(1), of "Suc ?c" n] by (simp del: upt_Suc)
  qed
  moreover obtain drv' where "mux_opens (n * length ?I) drv = Ret (?dsns, drv')" using mux_opens_turn [OF assms(1,3)] by blast
  ultimately show ?thesis by blast
qed

theorem mux_round_robin_witness:
  "\<exists>dsns drv'. mux_opens 4 \<lparr>mux_cursor = 5, mux_instances = [''a'', ''b'']\<rparr> = Ret (dsns, drv')
    \<and> length (filter (\<lambda>d. d = ''a'') dsns) = 2 \<and> length (filter (\<lambda>d. d = ''b'') dsns) = 2"
  using mux_round_robin [of "\<lparr>mux_cursor = 5, mux_instances = [''a'', ''b'']\<rparr>" 2] by auto

end
