(* ===== verification/Pg.thy ===== *)
theory Pg
  imports SqlConn
begin

text \<open>
  The adapter for PostgreSQL and CockroachDB, \<^verbatim>\<open>db/pg/db.go\<close>. It differs from the MySQL adapter in its numbered placeholders, in the clause that
  leaves existing rows alone, in creation, and in having no batch operations; the functions on the connection are the same.
\<close>

section \<open>Creation\<close>

record 's pgDB =
  pg_p :: props
  pg_conn :: "'s sqlconn"
  pg_verbose :: bool
  pg_dbName :: string

definition pg_create_text :: "string \<Rightarrow> int \<Rightarrow> int \<Rightarrow> string" where
  "pg_create_text tableName fieldCount fieldLength =
     ''CREATE TABLE IF NOT EXISTS '' @ tableName @ '' (YCSB_KEY VARCHAR(64) PRIMARY KEY''
     @ concat (map (\<lambda>i. '', FIELD'' @ itoa i @ '' VARCHAR('' @ itoa fieldLength @ '')'') [0..fieldCount - 1]) @ '');''"

definition pg_createTable :: "'s sql_api \<Rightarrow> props \<Rightarrow> 's \<Rightarrow> error option \<times> 's" where
  "pg_createTable api p s =
     (let tableName = GetString p prop_TableName prop_TableNameDefault;
          (err, s) = (if GetBool p prop_DropData prop_DropDataDefault then sq_DBExec api s (''DROP TABLE IF EXISTS '' @ tableName) else (None, s))
      in if err \<noteq> None then (err, s)
         else sq_DBExec api s (pg_create_text tableName (GetInt64 p prop_FieldCount prop_FieldCountDefault) (GetInt64 p prop_FieldLength prop_FieldLengthDefault)))"

definition pg_dsn :: "props \<Rightarrow> string" where
  "pg_dsn p =
     ''postgres://'' @ GetString p ''pg.user'' ''root'' @ '':'' @ GetString p ''pg.password'' [] @ ''@'' @ GetString p ''pg.host'' ''127.0.0.1''
     @ '':'' @ itoa (GetInt p ''pg.port'' 5432) @ ''/'' @ GetString p ''pg.db'' ''test'' @ ''?sslmode='' @ GetString p ''pg.sslmode'' ''disable''"

definition pg_Create :: "(string \<Rightarrow> string \<Rightarrow> int \<times> int \<Rightarrow> error + 's) \<Rightarrow> 's sql_api \<Rightarrow> props \<Rightarrow> error + 's pgDB" where
  "pg_Create Open api p =
     (let threadCount = GetInt64 p prop_ThreadCount prop_ThreadCountDefault in
      case Open ''postgres'' (pg_dsn p) (i64 (threadCount + 1), i64 (threadCount * 2)) of
        Inl err \<Rightarrow> Inl err
      | Inr s \<Rightarrow> (case pg_createTable api p s of
            (Some err, s) \<Rightarrow> Inl err
          | (None, s) \<Rightarrow> Inr \<lparr>pg_p = p, pg_conn = \<lparr>sc_db = s, sc_state = None\<rparr>, pg_verbose = GetBool p prop_Verbose prop_VerboseDefault,
               pg_dbName = GetString p ''pg.db'' ''test''\<rparr>))"

section \<open>The connection\<close>

definition on_pg :: "('s sqlconn \<Rightarrow> ('a \<times> 's sqlconn) go) \<Rightarrow> 's pgDB \<Rightarrow> ('a \<times> 's pgDB) go" where
  "on_pg f db = gbind (f (pg_conn db)) (\<lambda>(r, c). Ret (r, db\<lparr>pg_conn := c\<rparr>))"

definition pg_Close :: "'s sql_api \<Rightarrow> 's pgDB \<Rightarrow> error option \<times> 's pgDB" where
  "pg_Close api db = (let (err, s) = sq_Close api (sc_db (pg_conn db)) in (err, db\<lparr>pg_conn := (pg_conn db)\<lparr>sc_db := s\<rparr>\<rparr>))"

definition pg_InitThread :: "'s sql_api \<Rightarrow> 's pgDB \<Rightarrow> 's pgDB go" where
  "pg_InitThread api db = gbind (sql_InitThread api (pg_conn db)) (\<lambda>c. Ret (db\<lparr>pg_conn := c\<rparr>))"

definition pg_CleanupThread :: "'s sql_api \<Rightarrow> 's pgDB \<Rightarrow> 's pgDB go" where
  "pg_CleanupThread api db = gbind (sql_CleanupThread api (pg_conn db)) (\<lambda>c. Ret (db\<lparr>pg_conn := c\<rparr>))"

definition pg_getAndCacheStmt :: "'s sql_api \<Rightarrow> string \<Rightarrow> 's sqlconn \<Rightarrow> ((error + nat) \<times> 's sqlconn) go" where
  "pg_getAndCacheStmt api query c = getAndCacheStmt api query c"

definition pg_clearCacheIfFailed :: "'s sql_api \<Rightarrow> string \<Rightarrow> error option \<Rightarrow> 's sqlconn \<Rightarrow> 's sqlconn go" where
  "pg_clearCacheIfFailed api query err c = clearCacheIfFailed api query err c"

definition pg_queryRows :: "'s sql_api \<Rightarrow> string \<Rightarrow> int \<Rightarrow> sqlarg list \<Rightarrow> 's sqlconn \<Rightarrow> ((error + row list) \<times> 's sqlconn) go" where
  "pg_queryRows api query cnt args c =
     gbind (pg_getAndCacheStmt api query c) (\<lambda>(r, c). case r of
         Inl err \<Rightarrow> Ret (Inl err, c)
       | Inr stmt \<Rightarrow>
           (case sq_Query api (sc_db c) stmt args of
              (Inl err, s) \<Rightarrow> Ret (Inl err, c\<lparr>sc_db := s\<rparr>)
            | (Inr rows, s) \<Rightarrow>
                if cnt < 0 \<and> \<not> isl (sr_Columns rows) then Panic ''makeslice: cap out of range'' else Ret (collect_rows rows, c\<lparr>sc_db := s\<rparr>)))"

definition pg_execQuery :: "'s sql_api \<Rightarrow> string \<Rightarrow> sqlarg list \<Rightarrow> 's sqlconn \<Rightarrow> (error option \<times> 's sqlconn) go" where
  "pg_execQuery api query args c =
     gbind (pg_getAndCacheStmt api query c) (\<lambda>(r, c). case r of
         Inl err \<Rightarrow> Ret (Some err, c)
       | Inr stmt \<Rightarrow>
           (let (err, s) = sq_Exec api (sc_db c) stmt args in
            gbind (pg_clearCacheIfFailed api query err (c\<lparr>sc_db := s\<rparr>)) (\<lambda>c. Ret (err, c))))"

definition pg_query_clear :: "'s sql_api \<Rightarrow> string \<Rightarrow> int \<Rightarrow> sqlarg list \<Rightarrow> 's sqlconn \<Rightarrow> ((error + row list) \<times> 's sqlconn) go" where
  "pg_query_clear api query cnt args c =
     gbind (pg_queryRows api query cnt args c) (\<lambda>(r, c). gbind (pg_clearCacheIfFailed api query (left_error r) c) (\<lambda>c. Ret (r, c)))"

lemma pg_conn_same: "pg_execQuery = execQuery" "pg_query_clear = query_clear"
proof -
  have eqs: "pg_getAndCacheStmt = getAndCacheStmt" "pg_clearCacheIfFailed = clearCacheIfFailed"
    by (simp_all add: fun_eq_iff pg_getAndCacheStmt_def pg_clearCacheIfFailed_def)
  show "pg_execQuery = execQuery" "pg_query_clear = query_clear"
    by (intro ext, simp only: pg_execQuery_def execQuery_def pg_query_clear_def query_clear_def pg_queryRows_def queryRows_def eqs)+
qed

section \<open>Statements\<close>

definition pg_ph :: "nat \<Rightarrow> string" where
  "pg_ph i = ''$'' @ digits i"

definition pg_select :: "string \<Rightarrow> string list \<Rightarrow> string" where
  "pg_select table fnames = ''SELECT '' @ sql_cols fnames @ '' FROM '' @ table @ '' WHERE YCSB_KEY ''"

text \<open>The loop over the fields of an update: commas before all but the first, placeholders numbered from \<open>i\<close>.\<close>

fun pg_sets :: "nat \<Rightarrow> (string \<times> byte list) list \<Rightarrow> string" where
  "pg_sets i [] = []"
| "pg_sets i [p] = fst p @ '' = '' @ pg_ph i"
| "pg_sets i (p # ps) = fst p @ '' = '' @ pg_ph i @ '', '' @ pg_sets (Suc i) ps"

definition pg_update_text :: "string \<Rightarrow> (string \<times> byte list) list \<Rightarrow> string" where
  "pg_update_text table pairs =
     ''UPDATE '' @ table @ '' SET '' @ pg_sets 1 pairs @ '' WHERE YCSB_KEY = '' @ pg_ph (Suc (length pairs))"

definition pg_insert_text :: "string \<Rightarrow> (string \<times> byte list) list \<Rightarrow> string" where
  "pg_insert_text table pairs =
     ''INSERT INTO '' @ table @ '' (YCSB_KEY'' @ concat (map (\<lambda>w. '' ,'' @ w) (map fst pairs)) @ '') VALUES ('' @ pg_ph 1
     @ concat (map (\<lambda>i. '' ,'' @ pg_ph (i + 2)) [0..<length pairs]) @ '') ON CONFLICT DO NOTHING''"

definition pg_args :: "(string \<times> byte list) list \<Rightarrow> sqlarg list" where
  "pg_args pairs = map (\<lambda>p. ABytes (snd p)) pairs"

definition pg_Read :: "'s sql_api \<Rightarrow> 's pgDB \<Rightarrow> string \<Rightarrow> string \<Rightarrow> string list \<Rightarrow> ((error + row option) \<times> 's pgDB) go" where
  "pg_Read api db table key fnames =
     gbind (on_pg (pg_query_clear api (pg_select table fnames @ ''= '' @ pg_ph 1) 1 [AString key]) db) (\<lambda>(r, db).
       Ret (case r of Inl err \<Rightarrow> Inl err | Inr [] \<Rightarrow> Inr None | Inr (m # ms) \<Rightarrow> Inr (Some m), db))"

definition pg_Scan :: "'s sql_api \<Rightarrow> 's pgDB \<Rightarrow> string \<Rightarrow> string \<Rightarrow> int \<Rightarrow> string list \<Rightarrow> ((error + row option list) \<times> 's pgDB) go" where
  "pg_Scan api db table startKey cnt fnames =
     gbind (on_pg (pg_query_clear api (pg_select table fnames @ ''>= '' @ pg_ph 1 @ '' LIMIT '' @ pg_ph 2)
              cnt [AString startKey, AInt cnt]) db) (\<lambda>(r, db). Ret (map_sum id (map Some) r, db))"

definition pg_Update :: "'s sql_api \<Rightarrow> 's pgDB \<Rightarrow> string \<Rightarrow> string \<Rightarrow> row \<Rightarrow> (error option \<times> 's pgDB) go" where
  "pg_Update api db table key vals =
     (let pairs = NewFieldPairs vals in on_pg (pg_execQuery api (pg_update_text table pairs) (pg_args pairs @ [AString key])) db)"

definition pg_Insert :: "'s sql_api \<Rightarrow> 's pgDB \<Rightarrow> string \<Rightarrow> string \<Rightarrow> row \<Rightarrow> (error option \<times> 's pgDB) go" where
  "pg_Insert api db table key vals =
     (let pairs = NewFieldPairs vals in on_pg (pg_execQuery api (pg_insert_text table pairs) (AString key # pg_args pairs)) db)"

definition pg_Delete :: "'s sql_api \<Rightarrow> 's pgDB \<Rightarrow> string \<Rightarrow> string \<Rightarrow> (error option \<times> 's pgDB) go" where
  "pg_Delete api db table key =
     on_pg (pg_execQuery api (''DELETE FROM '' @ table @ '' WHERE YCSB_KEY = '' @ pg_ph 1) [AString key]) db"

definition pg_db :: "'s sql_api \<Rightarrow> 's pgDB db" where
  "pg_db api =
     \<lparr>db_Close = (\<lambda>d. Ret (pg_Close api d)), db_InitThread = (\<lambda>d i n. pg_InitThread api d), db_CleanupThread = pg_CleanupThread api,
      db_Read = (\<lambda>d t k fs. map_res (map_sum id nil_row) (pg_Read api d t k fs)), db_Scan = pg_Scan api, db_Update = pg_Update api,
      db_Insert = pg_Insert api, db_Delete = pg_Delete api, db_Batch = None, db_Analyze = None, db_TypeName = ''*pg.pgDB''\<rparr>"

section \<open>The texts are read as they are meant\<close>

definition pg_dialect :: sql_dialect where
  "pg_dialect = \<lparr>sd_ph = pg_ph, sd_insert = [''INSERT'', ''INTO''], sd_conflict = [''ON'', ''CONFLICT'', ''DO'', ''NOTHING''], sd_hint = []\<rparr>"

lemma tokens_ph: "starts_plain s \<Longrightarrow> sql_tokens (pg_ph i @ s) = pg_ph i # sql_tokens s"
proof -
  assume s: "starts_plain s"
  have "list_all is_wordchar (pg_ph i)" using digits_all [of i] by (auto simp: pg_ph_def list_all_iff is_wordchar_def)
  then show ?thesis using tokens_word [of "pg_ph i" s] s by (simp add: pg_ph_def)
qed

lemma tokens_ph_end: "sql_tokens (pg_ph i) = [pg_ph i]"
  using tokens_ph [of "[]" i] by simp

lemma pg_ph_simps [simp]: "pg_ph i \<noteq> []" "hd (pg_ph i) = CHR ''$''" "pg_ph i \<noteq> '',''" "pg_ph i \<noteq> ''>''" "pg_ph i \<noteq> '')''"
  by (simp_all add: pg_ph_def)

lemma pg_read_parse:
  assumes "is_name t" and "\<forall>f\<in>set fs. is_name f"
  shows "sql_parse pg_dialect (pg_select t fs @ ''= '' @ pg_ph 1) = Some (SqlSelect fs t)"
  using assms by (simp add: pg_select_def pg_dialect_def sql_tok sql_par tokens_ph_end)

lemma pg_scan_parse:
  assumes "is_name t" and "\<forall>f\<in>set fs. is_name f"
  shows "sql_parse pg_dialect (pg_select t fs @ ''>= '' @ pg_ph 1 @ '' LIMIT '' @ pg_ph 2) = Some (SqlScan fs t)"
  using assms by (simp add: pg_select_def pg_dialect_def sql_tok sql_par tokens_ph_end tokens_ph)

lemma pg_delete_parse: "is_name t \<Longrightarrow> sql_parse pg_dialect (''DELETE FROM '' @ t @ '' WHERE YCSB_KEY = '' @ pg_ph 1) = Some (SqlDelete t)"
  by (simp add: sql_tok sql_par pg_dialect_def tokens_ph_end)

lemma tokens_pg_sets:
  "ps \<noteq> [] \<Longrightarrow> \<forall>p\<in>set ps. is_name (fst p) \<Longrightarrow> starts_plain s \<Longrightarrow>
   sql_tokens (pg_sets i ps @ s) = set_tokens pg_ph i (map fst ps) @ sql_tokens s"
  by (induction i ps rule: pg_sets.induct) (auto simp: tokens_name tokens_ph)

lemma pg_update_parse:
  assumes "is_name t" and "ps \<noteq> []" and "\<forall>p\<in>set ps. is_name (fst p)"
  shows "sql_parse pg_dialect (pg_update_text t ps) = Some (SqlUpdate t (map fst ps))"
  using assms p_sets_tokens [of "map fst ps" "[''WHERE'', ''YCSB_KEY'', ''='', pg_ph (Suc (length ps))]" pg_ph 1]
  by (simp add: pg_update_text_def sql_tok sql_par pg_dialect_def tokens_pg_sets tokens_ph_end)

lemma starts_plain_phs: "starts_plain s \<Longrightarrow> starts_plain (concat (map (\<lambda>i. CHR '' '' # CHR '','' # pg_ph (f i)) is) @ s)"
  by (cases "is") auto

lemma tokens_phs:
  "starts_plain s \<Longrightarrow> sql_tokens (concat (map (\<lambda>i. CHR '' '' # CHR '','' # pg_ph (f i)) is) @ s) = concat (map (\<lambda>w. ['','', w]) (map (\<lambda>i. pg_ph (f i)) is)) @ sql_tokens s"
proof (induction "is")
  case (Cons i "is")
  then show ?case using starts_plain_phs [of s f "is"] by (simp add: tokens_ph)
qed simp

lemma pg_group: "''('' # pg_ph 1 # concat (map (\<lambda>w. ['','', w]) (map (\<lambda>i. pg_ph (i + 2)) [0..<n])) @ '')'' # ts = group_tokens pg_ph 1 (Suc n) 1 @ ts"
proof -
  have "map (\<lambda>i. pg_ph (i + 2)) [0..<n] = map pg_ph [2..<n + 2]"
    using map_add_upt [of 2 n] by (metis (mono_tags, lifting) list.map_comp comp_apply map_eq_conv)
  moreover have "[1..<1 + Suc n] = 1 # [2..<n + 2]" by (simp add: upt_rec numeral_2_eq_2)
  ultimately show ?thesis using commas_concat [of "map pg_ph [2..<n + 2]"]
    by (cases "[2..<n + 2] = []") (simp_all del: upt_Suc add: commas_Cons)
qed

lemma pg_insert_parse:
  assumes "is_name t" and "\<forall>p\<in>set ps. is_name (fst p)"
  shows "sql_parse pg_dialect (pg_insert_text t ps) = Some (SqlInsert t (map fst ps) 1)"
proof -
  have names: "\<forall>w\<in>set (map fst ps). is_name w" using assms(2) by auto
  have "sql_tokens (pg_insert_text t ps) = ''INSERT'' # ''INTO'' # t # ''('' # ''YCSB_KEY'' # concat (map (\<lambda>w. ['','', w]) (map fst ps))
      @ '')'' # ''VALUES'' # ''('' # pg_ph 1 # concat (map (\<lambda>w. ['','', w]) (map (\<lambda>i. pg_ph (i + 2)) [0..<length ps])) @ '')'' # [''ON'', ''CONFLICT'', ''DO'', ''NOTHING'']"
    unfolding pg_insert_text_def using assms(1) names
    by (simp add: sql_tok tokens_phs tokens_ph starts_plain_phs del: map_map upt_Suc)
  then show ?thesis
    using assms(1) p_insert_columns [OF names] p_groups_tokens [of "[''ON'', ''CONFLICT'', ''DO'', ''NOTHING'']" pg_ph 1 "length ps" 0]
    unfolding pg_group by (simp add: sql_par pg_dialect_def del: map_map group_tokens.simps)
qed

section \<open>The adapter keeps its contract\<close>

definition pg_inv ::
    "'s sql_api \<Rightarrow> 's sql_sem \<Rightarrow> (string \<Rightarrow> bool) \<Rightarrow> string set \<Rightarrow> (string \<Rightarrow> string \<Rightarrow> rowmap \<Rightarrow> bool) \<Rightarrow> (string \<Rightarrow> rowmap \<Rightarrow> rowmap) \<Rightarrow> 's pgDB \<Rightarrow> bool" where
  "pg_inv api M tabs K adm star db \<longleftrightarrow> sql_laws pg_dialect api M tabs K adm star \<and> cache_ok M (pg_conn db) \<and> (\<forall>f\<in>K. is_name f)"

definition pg_rows :: "'s sql_sem \<Rightarrow> 's pgDB \<Rightarrow> table" where
  "pg_rows M db = conn_view M (pg_conn db)"

lemma pg_invD:
  assumes "pg_inv api M tabs K adm star db"
  shows "sql_laws pg_dialect api M tabs K adm star" and "cache_ok M (pg_conn db)" and "\<And>f. f \<in> K \<Longrightarrow> is_name f"
  using assms by (auto simp: pg_inv_def)

lemma on_pg_ok:
  assumes "pg_inv api M tabs K adm star db" and "f (pg_conn db) = Ret (r, c)" and "cache_ok M c"
  shows "\<exists>db'. on_pg f db = Ret (r, db') \<and> pg_inv api M tabs K adm star db' \<and> pg_rows M db' = conn_view M c"
  using assms by (auto simp: on_pg_def pg_inv_def pg_rows_def)

lemma pg_args_eq [simp]: "pg_args = pair_args"
  by (simp add: fun_eq_iff pg_args_def pair_args_def)

interpretation pg: policy_db "pg_db api" "pg_inv api M tabs K adm star" "pg_rows M" "\<lambda>db. K" "sql_table tabs" adm "\<lambda>db. sql_policy star"
  for api M tabs K adm star
proof (unfold_locales, goal_cases)
  case (1 d t v k)
  note I = pg_invD [OF 1(1)]
  show ?case
    using conn_insert [OF I(1,2) _ 1(3) pg_insert_parse] row_ok_names [OF 1(3)] I(3) 1(2,4) on_pg_ok [OF 1(1)]
    by (fastforce simp: pg_db_def sql_policy_def pg_Insert_def Let_def sql_table_def pg_rows_def pg_conn_same)
next
  case (2 d t v k m)
  note I = pg_invD [OF 2(1)]
  show ?case
    using conn_update [OF I(1,2) _ 2(3) pg_update_parse] row_ok_names [OF 2(3)] I(3) 2(2,4-) on_pg_ok [OF 2(1)]
    by (fastforce simp: pg_db_def sql_policy_def pg_Update_def Let_def sql_table_def pg_rows_def pg_conn_same)
next
  case (3 d t k m)
  show ?case
    using conn_delete [OF pg_invD(1,2) [OF 3(1)] _ pg_delete_parse] 3(2) on_pg_ok [OF 3(1)]
    by (fastforce simp: pg_db_def pg_Delete_def sql_table_def pg_rows_def pg_conn_same)
next
  case (4 d t fs k m)
  note I = pg_invD [OF 4(1)]
  have "\<forall>f\<in>set fs. is_name f" using I(3) 4(3) by auto
  then obtain res c where "query_clear api (pg_select t fs @ ''= '' @ pg_ph 1) 1 [AString k] (pg_conn d) = Ret (Inr [res], c)"
      "cache_ok M c" "conn_view M c = conn_view M (pg_conn d)" "map_of res = sql_sel star k m fs"
    using query_ok [OF I(1,2) pg_read_parse, of t fs k m 1] 4(2-4) by (auto simp: sql_table_def pg_rows_def)
  then show ?case using 4(1) by (auto simp: pg_db_def pg_Read_def on_pg_def pg_inv_def pg_rows_def pg_conn_same sql_policy_def map_res_def nil_row_def)
qed

section \<open>Properties\<close>

text \<open>
  The PostgreSQL adapter refines a table of rows in which the first insert of a key wins: over a server that runs the
  SQL of its statements, after \<open>Create\<close> and \<open>InitThread\<close> on an empty table, every admissible sequence of operations returns what it returns
  on that table; numbered placeholders refer to the right arguments whatever the number of fields.
\<close>

theorem pg_refines_table:
  assumes "sql_laws pg_dialect api M tabs K adm star" and "\<forall>f\<in>K. is_name f" and "pg_Create Open api p = Inr db"
    and "sm_ok M (sc_db (pg_conn db))" and "sm_view M (sc_db (pg_conn db)) = Map.empty"
    and "pops_ok (sql_policy star) K (sql_table tabs) adm ops Map.empty"
  shows "\<exists>db0 db'. db_InitThread (pg_db api) db i n = Ret db0
    \<and> db_run (pg_db api) ops db0 = Ret (fst (policy_run (sql_policy star) ops Map.empty), db')
    \<and> pg_rows M db' = snd (policy_run (sql_policy star) ops Map.empty)"
proof -
  obtain c where c: "sql_InitThread api (pg_conn db) = Ret c" "cache_ok M c" "conn_view M c = Map.empty"
    using sql_InitThread_ok [OF assms(1,4)] assms(5) by (auto simp: conn_view_def)
  let ?db = "db\<lparr>pg_conn := c\<rparr>"
  have inv: "pg_inv api M tabs K adm star ?db" and "pg_rows M ?db = Map.empty"
    using assms(1,2) c(2,3) by (simp_all add: pg_inv_def pg_rows_def)
  then show ?thesis
    using pg.policy_run_refines [OF inv, of ops] assms(6) c(1) by (auto simp: pg_db_def pg_InitThread_def)
qed

definition sample_pg :: "mem_sql pgDB" where
  "sample_pg = \<lparr>pg_p = props_of [] [], pg_conn = \<lparr>sc_db = \<lparr>mq_T = Map.empty, mq_texts = [], mq_conns = 0\<rparr>, sc_state = None\<rparr>,
     pg_verbose = False, pg_dbName = ''test''\<rparr>"

lemma sample_pg_created:
  "pg_Create (\<lambda>driver dsn conns. Inr \<lparr>mq_T = Map.empty, mq_texts = [], mq_conns = 0\<rparr>)
     (mem_sql_api pg_dialect [''field0'', ''field1'']) (props_of [] []) = Inr sample_pg"
  by (simp add: pg_Create_def pg_createTable_def mem_sql_api_def sample_pg_def Let_def prop_defs)

theorem pg_refines_table_witness:
  "\<exists>db0 db'. db_InitThread (pg_db (mem_sql_api pg_dialect [''field0'', ''field1''])) sample_pg 0 1 = Ret db0
    \<and> db_run (pg_db (mem_sql_api pg_dialect [''field0'', ''field1'']))
        [OpInsert ''usertable'' ''k'' [(''field1'', [2]), (''field0'', [1])], OpInsert ''usertable'' ''k'' [(''field0'', [9])],
         OpUpdate ''usertable'' ''k'' [(''field1'', [3])], OpRead ''usertable'' ''k'' [''field0'', ''field1'']] db0
      = Ret ([Done None, Done None, Done None, Row (Inr [''field0'' \<mapsto> [1], ''field1'' \<mapsto> [3]])], db')"
proof -
  let ?F = "[''field0'', ''field1'']"
  let ?ops = "[OpInsert ''usertable'' ''k'' [(''field1'', [2]), (''field0'', [1])], OpInsert ''usertable'' ''k'' [(''field0'', [9])],
         OpUpdate ''usertable'' ''k'' [(''field1'', [3])], OpRead ''usertable'' ''k'' ?F]"
  have laws: "sql_laws pg_dialect (mem_sql_api pg_dialect ?F) mem_sem (\<lambda>t. True) (set ?F) (\<lambda>t k m. True) (mem_star ?F)"
    by (rule mem_sql_laws) simp_all
  have ok: "pops_ok (sql_policy (mem_star ?F)) (set ?F) (sql_table (\<lambda>t. True)) (\<lambda>t k m. True) ?ops Map.empty"
    by (simp add: sql_table_def names_sample row_ok_def)
  have start: "sm_ok mem_sem (sc_db (pg_conn sample_pg))" "sm_view mem_sem (sc_db (pg_conn sample_pg)) = Map.empty" "\<forall>f\<in>set ?F. is_name f"
    using names_sample by (simp_all add: mem_sem_def sample_pg_def)
  obtain db0 db' where r: "db_InitThread (pg_db (mem_sql_api pg_dialect ?F)) sample_pg 0 1 = Ret db0"
      "db_run (pg_db (mem_sql_api pg_dialect ?F)) ?ops db0 = Ret (fst (policy_run (sql_policy (mem_star ?F)) ?ops Map.empty), db')"
    using pg_refines_table [OF laws start(3) sample_pg_created start(1,2) ok, of 0 1] by blast
  have "fst (policy_run (sql_policy (mem_star ?F)) ?ops Map.empty) = [Done None, Done None, Done None, Row (Inr [''field0'' \<mapsto> [1], ''field1'' \<mapsto> [3]])]"
    by (auto simp: sql_policy_def keep_old_def sql_sel_def null_bytes_def fun_eq_iff)
  then show ?thesis using r by metis
qed

end
