(* ===== verification/Sqlite.thy ===== *)
theory Sqlite
  imports SqlConn
begin

text \<open>
  The SQLite adapter, \<^verbatim>\<open>db/sqlite/db.go\<close>: every operation runs in a transaction of its own, which \<open>optimisticTx\<close> repeats while the commit finds
  the database busy. The engine is a parameter; \<open>sqlite_laws\<close> states its documented behaviour, a commit that finds the database busy
  included. The variable that a closure writes its result to is threaded through the attempts, as the closure shares it.
\<close>

section \<open>The engine\<close>

text \<open>
  A transaction is a state of its own. \<open>sl_busy\<close> says whether an error is a \<open>sqlite3.Error\<close> with code \<open>ErrBusy\<close> or extended code \<open>ErrIoErrUnlock\<close>.
\<close>

record 's sqlite_api =
  sl_BeginTx :: "'s \<Rightarrow> (error + 's) \<times> 's"
  sl_Query :: "'s \<Rightarrow> string \<Rightarrow> sqlarg list \<Rightarrow> (error + sqlrows) \<times> 's"
  sl_Exec :: "'s \<Rightarrow> string \<Rightarrow> sqlarg list \<Rightarrow> error option \<times> 's"
  sl_Rollback :: "'s \<Rightarrow> 's \<Rightarrow> 's"
  sl_Commit :: "'s \<Rightarrow> 's \<Rightarrow> error option \<times> 's"
  sl_busy :: "error \<Rightarrow> bool"
  sl_DBExec :: "'s \<Rightarrow> string \<Rightarrow> error option \<times> 's"
  sl_Close :: "'s \<Rightarrow> error option \<times> 's"

section \<open>Creation\<close>

record 's sqliteDB =
  lt_p :: props
  lt_db :: 's
  lt_verbose :: bool
  lt_optimistic :: bool
  lt_backoffMs :: int

definition sqlite_create_text :: "string \<Rightarrow> int \<Rightarrow> int \<Rightarrow> string" where
  "sqlite_create_text tableName fieldCount fieldLength =
     ''CREATE TABLE IF NOT EXISTS '' @ tableName @ '' (YCSB_KEY VARCHAR(64) PRIMARY KEY''
     @ concat (map (\<lambda>i. '', FIELD'' @ itoa i @ '' VARCHAR('' @ itoa fieldLength @ '')'') [0..fieldCount - 1]) @ '');''"

definition sqlite_createTable :: "'s sqlite_api \<Rightarrow> props \<Rightarrow> 's \<Rightarrow> error option \<times> 's" where
  "sqlite_createTable api p s =
     sl_DBExec api s (sqlite_create_text (GetString p prop_TableName prop_TableNameDefault)
       (GetInt64 p prop_FieldCount prop_FieldCountDefault) (GetInt64 p prop_FieldLength prop_FieldLengthDefault))"

text \<open>
  \<open>Open\<close> gets the paths that were removed before, the data source name and the limits on connections. \<open>urlEncode\<close> is \<open>url.Values.Encode\<close>.
\<close>

definition sqlite_Create ::
    "((string \<times> string) list \<Rightarrow> string) \<Rightarrow> (string list \<Rightarrow> string \<Rightarrow> int \<times> int \<Rightarrow> error + 's) \<Rightarrow> 's sqlite_api \<Rightarrow> props \<Rightarrow> error + 's sqliteDB" where
  "sqlite_Create urlEncode Open api p =
     (let dbPath = GetString p ''sqlite.db'' ''/tmp/sqlite.db'';
          removed = (if GetBool p prop_DropData prop_DropDataDefault then [dbPath] else []);
          v = [(''cache'', GetString p ''sqlite.cache'' ''shared''), (''mode'', GetString p ''sqlite.mode'' ''rwc''),
               (''_journal_mode'', GetString p ''sqlite.journalmode'' ''WAL'')]
      in case Open removed (''file:'' @ dbPath @ ''?'' @ urlEncode v) (GetInt p ''sqlite.maxopenconns'' 1, GetInt p ''sqlite.maxidleconns'' 2) of
           Inl err \<Rightarrow> Inl err
         | Inr s \<Rightarrow> (case sqlite_createTable api p s of
               (Some err, s) \<Rightarrow> Inl err
             | (None, s) \<Rightarrow> Inr \<lparr>lt_p = p, lt_db = s, lt_verbose = GetBool p prop_Verbose prop_VerboseDefault,
                  lt_optimistic = GetBool p ''sqlite.optimistic'' False, lt_backoffMs = GetInt p ''sqlite.optimistic_backoff_ms'' 5\<rparr>))"

definition sqlite_Close :: "'s sqlite_api \<Rightarrow> 's sqliteDB \<Rightarrow> error option \<times> 's sqliteDB" where
  "sqlite_Close api db = (let (err, s) = sl_Close api (lt_db db) in (err, db\<lparr>lt_db := s\<rparr>))"

section \<open>Transactions\<close>

text \<open>
  The loop has no bound of its own; \<open>fuel\<close> bounds the number of attempts. The sleep between them changes no state.
\<close>

fun optimisticTx ::
    "nat \<Rightarrow> 's sqlite_api \<Rightarrow> ('s \<Rightarrow> 'o \<Rightarrow> ((error option \<times> 'o) \<times> 's) go) \<Rightarrow> 'o \<Rightarrow> 's sqliteDB \<Rightarrow> ((error option \<times> 'o) \<times> 's sqliteDB) go" where
  "optimisticTx 0 api f out db = Hang"
| "optimisticTx (Suc fuel) api f out db =
     (case sl_BeginTx api (lt_db db) of
        (Inl err, s) \<Rightarrow> Ret ((Some err, out), db\<lparr>lt_db := s\<rparr>)
      | (Inr tx, s) \<Rightarrow>
          gbind (f tx out) (\<lambda>((err, out), tx).
            if err \<noteq> None then Ret ((err, out), db\<lparr>lt_db := sl_Rollback api s tx\<rparr>)
            else case sl_Commit api s tx of
                   (None, s) \<Rightarrow> Ret ((None, out), db\<lparr>lt_db := s\<rparr>)
                 | (Some err, s) \<Rightarrow>
                     if lt_optimistic db \<and> sl_busy api err then optimisticTx fuel api f out (db\<lparr>lt_db := s\<rparr>)
                     else Ret ((Some err, out), db\<lparr>lt_db := s\<rparr>)))"

definition sqlite_doQueryRows :: "'s sqlite_api \<Rightarrow> string \<Rightarrow> int \<Rightarrow> sqlarg list \<Rightarrow> 's \<Rightarrow> ((error + row list) \<times> 's) go" where
  "sqlite_doQueryRows api query cnt args tx =
     (case sl_Query api tx query args of
        (Inl err, tx) \<Rightarrow> Ret (Inl err, tx)
      | (Inr rows, tx) \<Rightarrow> if cnt < 0 \<and> \<not> isl (sr_Columns rows) then Panic ''makeslice: cap out of range'' else Ret (collect_rows rows, tx))"

definition sqlite_select :: "string \<Rightarrow> string list \<Rightarrow> string" where
  "sqlite_select table fnames = ''SELECT '' @ sql_cols fnames @ '' FROM '' @ table @ '' WHERE YCSB_KEY ''"

definition sqlite_doRead :: "'s sqlite_api \<Rightarrow> string \<Rightarrow> string \<Rightarrow> string list \<Rightarrow> 's \<Rightarrow> ((error + row option) \<times> 's) go" where
  "sqlite_doRead api table key fnames tx =
     gbind (sqlite_doQueryRows api (sqlite_select table fnames @ ''= ?'') 1 [AString key] tx) (\<lambda>(r, tx).
       Ret (case r of Inl err \<Rightarrow> Inl err | Inr [] \<Rightarrow> Inr None | Inr (m # ms) \<Rightarrow> Inr (Some m), tx))"

definition sqlite_doScan :: "'s sqlite_api \<Rightarrow> string \<Rightarrow> string \<Rightarrow> int \<Rightarrow> string list \<Rightarrow> 's \<Rightarrow> ((error + row list) \<times> 's) go" where
  "sqlite_doScan api table startKey cnt fnames tx =
     sqlite_doQueryRows api (sqlite_select table fnames @ ''>= ? LIMIT ?'') cnt [AString startKey, AInt cnt] tx"

definition sqlite_doUpdate :: "'s sqlite_api \<Rightarrow> string \<Rightarrow> string \<Rightarrow> row \<Rightarrow> 's \<Rightarrow> error option \<times> 's" where
  "sqlite_doUpdate api table key vals tx =
     (let pairs = NewFieldPairs vals in sl_Exec api tx (update_text table pairs) (pair_args pairs @ [AString key]))"

definition sqlite_doInsert :: "'s sqlite_api \<Rightarrow> string \<Rightarrow> string \<Rightarrow> row \<Rightarrow> 's \<Rightarrow> error option \<times> 's" where
  "sqlite_doInsert api table key vals tx =
     (let pairs = NewFieldPairs vals in sl_Exec api tx (insert_text ''INSERT OR IGNORE INTO '' table pairs) (AString key # pair_args pairs))"

definition sqlite_doDelete :: "'s sqlite_api \<Rightarrow> string \<Rightarrow> string \<Rightarrow> 's \<Rightarrow> error option \<times> 's" where
  "sqlite_doDelete api table key tx = sl_Exec api tx (''DELETE FROM '' @ table @ '' WHERE YCSB_KEY = ?'') [AString key]"

section \<open>Operations\<close>

text \<open>A closure \<open>res, err := do(...); output = res; return err\<close>: on an error the result is nil.\<close>

definition assign_out :: "'o \<Rightarrow> ('s \<Rightarrow> ((error + 'o) \<times> 's) go) \<Rightarrow> 's \<Rightarrow> 'o \<Rightarrow> ((error option \<times> 'o) \<times> 's) go" where
  "assign_out nilv act tx out = gbind (act tx) (\<lambda>(r, tx). Ret (case r of Inl err \<Rightarrow> (Some err, nilv) | Inr res \<Rightarrow> (None, res), tx))"

text \<open>A closure without a result.\<close>

definition no_out :: "('s \<Rightarrow> (error option \<times> 's) go) \<Rightarrow> 's \<Rightarrow> unit \<Rightarrow> ((error option \<times> unit) \<times> 's) go" where
  "no_out act tx out = map_res (\<lambda>err. (err, ())) (act tx)"

definition with_out :: "((error option \<times> 'o) \<times> 'd) go \<Rightarrow> ((error + 'o) \<times> 'd) go" where
  "with_out m = map_res (\<lambda>(err, out). case err of Some e \<Rightarrow> Inl e | None \<Rightarrow> Inr out) m"

definition sqlite_Read :: "nat \<Rightarrow> 's sqlite_api \<Rightarrow> 's sqliteDB \<Rightarrow> string \<Rightarrow> string \<Rightarrow> string list \<Rightarrow> ((error + row option) \<times> 's sqliteDB) go" where
  "sqlite_Read fuel api db table key fnames = with_out (optimisticTx fuel api (assign_out None (sqlite_doRead api table key fnames)) None db)"

definition sqlite_Scan :: "nat \<Rightarrow> 's sqlite_api \<Rightarrow> 's sqliteDB \<Rightarrow> string \<Rightarrow> string \<Rightarrow> int \<Rightarrow> string list \<Rightarrow> ((error + row option list) \<times> 's sqliteDB) go" where
  "sqlite_Scan fuel api db table startKey cnt fnames =
     map_res (map_sum id (map Some)) (with_out (optimisticTx fuel api (assign_out [] (sqlite_doScan api table startKey cnt fnames)) [] db))"

definition sqlite_write :: "nat \<Rightarrow> 's sqlite_api \<Rightarrow> ('s \<Rightarrow> (error option \<times> 's) go) \<Rightarrow> 's sqliteDB \<Rightarrow> (error option \<times> 's sqliteDB) go" where
  "sqlite_write fuel api act db = map_res fst (optimisticTx fuel api (no_out act) () db)"

definition sqlite_Update :: "nat \<Rightarrow> 's sqlite_api \<Rightarrow> 's sqliteDB \<Rightarrow> string \<Rightarrow> string \<Rightarrow> row \<Rightarrow> (error option \<times> 's sqliteDB) go" where
  "sqlite_Update fuel api db table key vals = sqlite_write fuel api (\<lambda>tx. Ret (sqlite_doUpdate api table key vals tx)) db"

definition sqlite_Insert :: "nat \<Rightarrow> 's sqlite_api \<Rightarrow> 's sqliteDB \<Rightarrow> string \<Rightarrow> string \<Rightarrow> row \<Rightarrow> (error option \<times> 's sqliteDB) go" where
  "sqlite_Insert fuel api db table key vals = sqlite_write fuel api (\<lambda>tx. Ret (sqlite_doInsert api table key vals tx)) db"

definition sqlite_Delete :: "nat \<Rightarrow> 's sqlite_api \<Rightarrow> 's sqliteDB \<Rightarrow> string \<Rightarrow> string \<Rightarrow> (error option \<times> 's sqliteDB) go" where
  "sqlite_Delete fuel api db table key = sqlite_write fuel api (\<lambda>tx. Ret (sqlite_doDelete api table key tx)) db"

text \<open>The loops of the batch operations, inside one transaction.\<close>

fun sqlite_each :: "(string \<Rightarrow> row \<Rightarrow> 's \<Rightarrow> error option \<times> 's) \<Rightarrow> string list \<Rightarrow> row list \<Rightarrow> 's \<Rightarrow> (error option \<times> 's) go" where
  "sqlite_each act [] vals tx = Ret (None, tx)"
| "sqlite_each act (key # keys) vals tx =
     gbind (go_index vals 0) (\<lambda>v. case act key v tx of
         (Some err, tx) \<Rightarrow> Ret (Some err, tx)
       | (None, tx) \<Rightarrow> sqlite_each act keys (tl vals) tx)"

definition sqlite_BatchInsert :: "nat \<Rightarrow> 's sqlite_api \<Rightarrow> 's sqliteDB \<Rightarrow> string \<Rightarrow> string list \<Rightarrow> row list \<Rightarrow> (error option \<times> 's sqliteDB) go" where
  "sqlite_BatchInsert fuel api db table keys vals = sqlite_write fuel api (sqlite_each (sqlite_doInsert api table) keys vals) db"

definition sqlite_BatchUpdate :: "nat \<Rightarrow> 's sqlite_api \<Rightarrow> 's sqliteDB \<Rightarrow> string \<Rightarrow> string list \<Rightarrow> row list \<Rightarrow> (error option \<times> 's sqliteDB) go" where
  "sqlite_BatchUpdate fuel api db table keys vals = sqlite_write fuel api (sqlite_each (sqlite_doUpdate api table) keys vals) db"

fun sqlite_each_key :: "(string \<Rightarrow> 's \<Rightarrow> error option \<times> 's) \<Rightarrow> string list \<Rightarrow> 's \<Rightarrow> (error option \<times> 's) go" where
  "sqlite_each_key act [] tx = Ret (None, tx)"
| "sqlite_each_key act (key # keys) tx =
     (case act key tx of (Some err, tx) \<Rightarrow> Ret (Some err, tx) | (None, tx) \<Rightarrow> sqlite_each_key act keys tx)"

definition sqlite_BatchDelete :: "nat \<Rightarrow> 's sqlite_api \<Rightarrow> 's sqliteDB \<Rightarrow> string \<Rightarrow> string list \<Rightarrow> (error option \<times> 's sqliteDB) go" where
  "sqlite_BatchDelete fuel api db table keys = sqlite_write fuel api (sqlite_each_key (sqlite_doDelete api table) keys) db"

text \<open>\<open>output = append(output, res)\<close>: the rows are appended to what earlier attempts have left.\<close>

fun sqlite_read_each ::
    "'s sqlite_api \<Rightarrow> string \<Rightarrow> string list \<Rightarrow> string list \<Rightarrow> 's \<Rightarrow> row option list \<Rightarrow> ((error option \<times> row option list) \<times> 's) go" where
  "sqlite_read_each api table fnames [] tx out = Ret ((None, out), tx)"
| "sqlite_read_each api table fnames (key # keys) tx out =
     gbind (sqlite_doRead api table key fnames tx) (\<lambda>(r, tx). case r of
         Inl err \<Rightarrow> Ret ((Some err, out), tx)
       | Inr res \<Rightarrow> sqlite_read_each api table fnames keys tx (out @ [res]))"

definition sqlite_BatchRead :: "nat \<Rightarrow> 's sqlite_api \<Rightarrow> 's sqliteDB \<Rightarrow> string \<Rightarrow> string list \<Rightarrow> string list \<Rightarrow> ((error + row option list) \<times> 's sqliteDB) go" where
  "sqlite_BatchRead fuel api db table keys fnames = with_out (optimisticTx fuel api (sqlite_read_each api table fnames keys) [] db)"

definition sqlite_db :: "nat \<Rightarrow> 's sqlite_api \<Rightarrow> 's sqliteDB db" where
  "sqlite_db fuel api =
     \<lparr>db_Close = (\<lambda>d. Ret (sqlite_Close api d)), db_InitThread = (\<lambda>d i n. Ret d), db_CleanupThread = Ret,
      db_Read = (\<lambda>d t k fs. map_res (map_sum id nil_row) (sqlite_Read fuel api d t k fs)), db_Scan = sqlite_Scan fuel api,
      db_Update = sqlite_Update fuel api, db_Insert = sqlite_Insert fuel api, db_Delete = sqlite_Delete fuel api,
      db_Batch = Some \<lparr>db_BatchInsert = sqlite_BatchInsert fuel api, db_BatchRead = sqlite_BatchRead fuel api,
        db_BatchUpdate = sqlite_BatchUpdate fuel api, db_BatchDelete = sqlite_BatchDelete fuel api\<rparr>,
      db_Analyze = None, db_TypeName = ''*sqlite.sqliteDB''\<rparr>"

section \<open>The behaviour of the engine\<close>

text \<open>
  A state stands for the table \<open>lm_view\<close>. A transaction starts from the table and sees its own writes. A commit makes them the table, or finds the database
  busy and changes nothing; \<open>lm_left\<close> counts how often other writers will still make it so.
\<close>

record 's sqlite_sem =
  lm_ok :: "'s \<Rightarrow> bool"
  lm_view :: "'s \<Rightarrow> table"
  lm_left :: "'s \<Rightarrow> nat"

definition sqlite_dialect :: sql_dialect where
  "sqlite_dialect = \<lparr>sd_ph = (\<lambda>i. ''?''), sd_insert = [''INSERT'', ''OR'', ''IGNORE'', ''INTO''], sd_conflict = [], sd_hint = []\<rparr>"

definition sqlite_begin_law :: "'s sqlite_api \<Rightarrow> 's sqlite_sem \<Rightarrow> bool" where
  "sqlite_begin_law api M \<longleftrightarrow>
     (\<forall>s. lm_ok M s \<longrightarrow> (\<exists>tx t. sl_BeginTx api s = (Inr tx, t) \<and> lm_ok M tx \<and> lm_ok M t \<and> lm_view M tx = lm_view M s \<and> lm_view M t = lm_view M s
        \<and> lm_left M t = lm_left M s))"

definition sqlite_query_law ::
    "'s sqlite_api \<Rightarrow> 's sqlite_sem \<Rightarrow> (string \<Rightarrow> bool) \<Rightarrow> string set \<Rightarrow> (string \<Rightarrow> rowmap \<Rightarrow> rowmap) \<Rightarrow> bool" where
  "sqlite_query_law api M tabs K star \<longleftrightarrow>
     (\<forall>s q cols t k m. lm_ok M s \<longrightarrow> sql_parse sqlite_dialect q = Some (SqlSelect cols t) \<longrightarrow> tabs t \<longrightarrow> set cols \<subseteq> K \<longrightarrow> lm_view M s (t, k) = Some m \<longrightarrow>
        (\<exists>labels vals s'. sl_Query api s q [AString k] = (Inr \<lparr>sr_Columns = Inr labels, sr_rows = [Inr vals], sr_Err = None\<rparr>, s')
           \<and> lm_ok M s' \<and> lm_view M s' = lm_view M s \<and> length vals = length labels
           \<and> (cols \<noteq> [] \<longrightarrow> labels = cols \<and> vals = map (null_bytes m) cols)
           \<and> (cols = [] \<longrightarrow> distinct labels \<and> map_of (zip labels vals) = star k m)))"

definition sqlite_exec_law ::
    "'s sqlite_api \<Rightarrow> 's sqlite_sem \<Rightarrow> (string \<Rightarrow> bool) \<Rightarrow> string set \<Rightarrow> (string \<Rightarrow> string \<Rightarrow> rowmap \<Rightarrow> bool) \<Rightarrow> bool" where
  "sqlite_exec_law api M tabs K adm \<longleftrightarrow>
     (\<forall>s q cmd args. lm_ok M s \<longrightarrow> sql_parse sqlite_dialect q = Some cmd \<longrightarrow> sql_wf tabs K cmd \<longrightarrow> cmd_writes cmd \<longrightarrow>
        length args = cmd_args cmd \<longrightarrow> rows_fit adm (lm_view M s) (sql_write cmd args (lm_view M s)) \<longrightarrow>
        (\<exists>s'. sl_Exec api s q args = (None, s') \<and> lm_ok M s' \<and> lm_view M s' = sql_write cmd args (lm_view M s)))"

definition sqlite_commit_law :: "'s sqlite_api \<Rightarrow> 's sqlite_sem \<Rightarrow> bool" where
  "sqlite_commit_law api M \<longleftrightarrow>
     (\<forall>s tx. lm_ok M s \<longrightarrow> lm_ok M tx \<longrightarrow>
        (\<exists>t. sl_Commit api s tx = (None, t) \<and> lm_ok M t \<and> lm_view M t = lm_view M tx \<and> lm_left M t \<le> lm_left M s)
      \<or> (\<exists>err t. sl_Commit api s tx = (Some err, t) \<and> sl_busy api err \<and> lm_ok M t \<and> lm_view M t = lm_view M s \<and> lm_left M t < lm_left M s))"

definition sqlite_laws ::
    "'s sqlite_api \<Rightarrow> 's sqlite_sem \<Rightarrow> (string \<Rightarrow> bool) \<Rightarrow> string set \<Rightarrow> (string \<Rightarrow> string \<Rightarrow> rowmap \<Rightarrow> bool) \<Rightarrow> (string \<Rightarrow> rowmap \<Rightarrow> rowmap) \<Rightarrow> bool" where
  "sqlite_laws api M tabs K adm star \<longleftrightarrow> sqlite_begin_law api M \<and> sqlite_query_law api M tabs K star \<and> sqlite_exec_law api M tabs K adm \<and> sqlite_commit_law api M"

lemmas sqlite_Begin_law = sqlite_begin_law_def [THEN iffD1, rule_format]
lemmas sqlite_Query_law = sqlite_query_law_def [THEN iffD1, rule_format]
lemmas sqlite_Exec_law = sqlite_exec_law_def [THEN iffD1, rule_format]
lemmas sqlite_Commit_law = sqlite_commit_law_def [THEN iffD1, rule_format]

lemma sqlite_lawsD:
  assumes "sqlite_laws api M tabs K adm star"
  shows "sqlite_begin_law api M" and "sqlite_query_law api M tabs K star" and "sqlite_exec_law api M tabs K adm" and "sqlite_commit_law api M"
  using assms by (simp_all add: sqlite_laws_def)

section \<open>The loop commits\<close>

text \<open>The database is fit for a transaction: contention ends within the fuel, or there is none.\<close>

definition sqlite_ready :: "nat \<Rightarrow> 's sqlite_sem \<Rightarrow> 's sqliteDB \<Rightarrow> bool" where
  "sqlite_ready fuel M db \<longleftrightarrow> lm_ok M (lt_db db) \<and> lm_left M (lt_db db) < fuel \<and> (lt_optimistic db \<or> lm_left M (lt_db db) = 0)"

text \<open>A closure that succeeds in every transaction on the table \<open>T0\<close>, leaves it as \<open>T\<close> and its result in \<open>Q\<close>.\<close>

definition tx_action :: "'s sqlite_sem \<Rightarrow> table \<Rightarrow> ('s \<Rightarrow> 'o \<Rightarrow> ((error option \<times> 'o) \<times> 's) go) \<Rightarrow> table \<Rightarrow> ('o \<Rightarrow> bool) \<Rightarrow> bool" where
  "tx_action M T0 f T Q \<longleftrightarrow> (\<forall>tx out. lm_ok M tx \<longrightarrow> lm_view M tx = T0 \<longrightarrow>
     (\<exists>out' tx'. f tx out = Ret ((None, out'), tx') \<and> lm_ok M tx' \<and> lm_view M tx' = T \<and> Q out'))"

lemma optimisticTx_commits:
  assumes "sqlite_begin_law api M" and "sqlite_commit_law api M"
    and "tx_action M (lm_view M (lt_db db)) f T Q" and "sqlite_ready fuel M db"
  shows "\<exists>out' db'. optimisticTx fuel api f out db = Ret ((None, out'), db') \<and> sqlite_ready fuel M db' \<and> lm_view M (lt_db db') = T \<and> Q out'
    \<and> lt_optimistic db' = lt_optimistic db"
proof -
  have "\<exists>out' db'. optimisticTx n api f out db = Ret ((None, out'), db') \<and> sqlite_ready n M db' \<and> lm_view M (lt_db db') = T \<and> Q out'
      \<and> lt_optimistic db' = lt_optimistic db \<and> lm_left M (lt_db db') \<le> lm_left M (lt_db db)"
    if "sqlite_ready n M db" "tx_action M (lm_view M (lt_db db)) f T Q" for n db out
    using that
  proof (induction n arbitrary: db out)
    case (Suc n)
    have ok: "lm_ok M (lt_db db)" and left: "lm_left M (lt_db db) < Suc n" "lt_optimistic db \<or> lm_left M (lt_db db) = 0"
      using Suc.prems(1) by (auto simp: sqlite_ready_def)
    obtain tx s where b: "sl_BeginTx api (lt_db db) = (Inr tx, s)" "lm_ok M tx" "lm_ok M s" "lm_view M tx = lm_view M (lt_db db)"
        "lm_view M s = lm_view M (lt_db db)" "lm_left M s = lm_left M (lt_db db)"
      using sqlite_Begin_law [OF assms(1) ok] by blast
    obtain out1 tx1 where f: "f tx out = Ret ((None, out1), tx1)" "lm_ok M tx1" "lm_view M tx1 = T" "Q out1"
      using Suc.prems(2) b(2,4) unfolding tx_action_def by blast
    from sqlite_Commit_law [OF assms(2) b(3) f(2)] show ?case
    proof (elim disjE exE conjE)
      fix t assume t: "sl_Commit api s tx1 = (None, t)" "lm_ok M t" "lm_view M t = lm_view M tx1" "lm_left M t \<le> lm_left M s"
      then show ?thesis using b f left by (auto simp: sqlite_ready_def)
    next
      fix err t assume t: "sl_Commit api s tx1 = (Some err, t)" "sl_busy api err" "lm_ok M t" "lm_view M t = lm_view M s" "lm_left M t < lm_left M s"
      let ?db = "db\<lparr>lt_db := t\<rparr>"
      have opt: "lt_optimistic db" using t(5) b(6) left(2) by auto
      have "sqlite_ready n M ?db" using t b left opt by (auto simp: sqlite_ready_def)
      then obtain out' db' where "optimisticTx n api f out1 ?db = Ret ((None, out'), db')" "sqlite_ready n M db'" "lm_view M (lt_db db') = T" "Q out'"
          "lt_optimistic db' = lt_optimistic db" "lm_left M (lt_db db') \<le> lm_left M t"
        using Suc.IH [of ?db out1] Suc.prems(2) t(4) b(5) by auto
      then show ?thesis using b(1,6) f(1) t(1,2,5) opt by (auto simp: sqlite_ready_def)
    qed
  qed (simp add: sqlite_ready_def)
  from this [OF assms(4,3)] show ?thesis by blast
qed

section \<open>The adapter keeps its contract\<close>

definition sqlite_inv ::
    "nat \<Rightarrow> 's sqlite_api \<Rightarrow> 's sqlite_sem \<Rightarrow> (string \<Rightarrow> bool) \<Rightarrow> string set \<Rightarrow> (string \<Rightarrow> string \<Rightarrow> rowmap \<Rightarrow> bool) \<Rightarrow> (string \<Rightarrow> rowmap \<Rightarrow> rowmap)
      \<Rightarrow> 's sqliteDB \<Rightarrow> bool" where
  "sqlite_inv fuel api M tabs K adm star db \<longleftrightarrow> sqlite_laws api M tabs K adm star \<and> sqlite_ready fuel M db \<and> (\<forall>f\<in>K. is_name f)"

definition sqlite_rows :: "'s sqlite_sem \<Rightarrow> 's sqliteDB \<Rightarrow> table" where
  "sqlite_rows M db = lm_view M (lt_db db)"

lemma sqlite_write_ok:
  assumes "sqlite_inv fuel api M tabs K adm star db" and "sql_parse sqlite_dialect q = Some cmd" and "sql_wf tabs K cmd" and "cmd_writes cmd"
    and "length args = cmd_args cmd" and "rows_fit adm (sqlite_rows M db) (sql_write cmd args (sqlite_rows M db))"
  shows "\<exists>db'. sqlite_write fuel api (\<lambda>tx. Ret (sl_Exec api tx q args)) db = Ret (None, db') \<and> sqlite_inv fuel api M tabs K adm star db'
    \<and> sqlite_rows M db' = sql_write cmd args (sqlite_rows M db)"
proof -
  have L: "sqlite_laws api M tabs K adm star" and r: "sqlite_ready fuel M db" using assms(1) by (simp_all add: sqlite_inv_def)
  have f: "tx_action M (lm_view M (lt_db db)) (no_out (\<lambda>tx. Ret (sl_Exec api tx q args))) (sql_write cmd args (sqlite_rows M db)) (\<lambda>out. True)"
    unfolding tx_action_def
  proof (intro allI impI)
    fix tx and out :: unit assume tx: "lm_ok M tx" "lm_view M tx = lm_view M (lt_db db)"
    show "\<exists>out' tx'. no_out (\<lambda>tx. Ret (sl_Exec api tx q args)) tx out = Ret ((None, out'), tx') \<and> lm_ok M tx'
        \<and> lm_view M tx' = sql_write cmd args (sqlite_rows M db) \<and> True"
      using sqlite_Exec_law [OF sqlite_lawsD(3) [OF L] tx(1) assms(2-5)] assms(6) tx(2)
      by (auto simp: no_out_def map_res_def sqlite_rows_def)
  qed
  obtain out' db' where "optimisticTx fuel api (no_out (\<lambda>tx. Ret (sl_Exec api tx q args))) () db = Ret ((None, out'), db')" "sqlite_ready fuel M db'"
      "lm_view M (lt_db db') = sql_write cmd args (sqlite_rows M db)"
    using optimisticTx_commits [OF sqlite_lawsD(1) [OF L] sqlite_lawsD(4) [OF L] f r] by blast
  then show ?thesis using assms(1) by (auto simp: sqlite_write_def map_res_def sqlite_inv_def sqlite_rows_def)
qed

lemma sqlite_Read_ok:
  assumes "sqlite_inv fuel api M tabs K adm star db" and "sql_table tabs t" and "set fs \<subseteq> K" and "sqlite_rows M db (t, k) = Some m"
  shows "\<exists>res db'. sqlite_Read fuel api db t k fs = Ret (Inr (Some res), db') \<and> sqlite_inv fuel api M tabs K adm star db' \<and> sqlite_rows M db' = sqlite_rows M db
    \<and> map_of res = sql_sel star k m fs"
proof -
  have L: "sqlite_laws api M tabs K adm star" and r: "sqlite_ready fuel M db" and names: "\<forall>f\<in>set fs. is_name f"
    using assms(1,3) by (auto simp: sqlite_inv_def)
  have p: "sql_parse sqlite_dialect (sqlite_select t fs @ ''= ?'') = Some (SqlSelect fs t)"
    using names assms(2) by (simp add: sqlite_select_def sqlite_dialect_def sql_table_def sql_tok sql_par)
  have f: "tx_action M (lm_view M (lt_db db)) (assign_out None (sqlite_doRead api t k fs)) (sqlite_rows M db) (\<lambda>out. \<exists>res. out = Some res \<and> map_of res = sql_sel star k m fs)"
    unfolding tx_action_def
  proof (intro allI impI)
    fix tx out assume tx: "lm_ok M tx" "lm_view M tx = lm_view M (lt_db db)"
    have tm: "tabs t" "lm_view M tx (t, k) = Some m" using assms(2,4) tx(2) by (simp_all add: sql_table_def sqlite_rows_def)
    obtain labels vals s where s: "sl_Query api tx (sqlite_select t fs @ ''= ?'') [AString k] = (Inr \<lparr>sr_Columns = Inr labels, sr_rows = [Inr vals], sr_Err = None\<rparr>, s)"
        "lm_ok M s" "lm_view M s = lm_view M tx" "length vals = length labels"
        "fs \<noteq> [] \<Longrightarrow> labels = fs \<and> vals = map (null_bytes m) fs" "fs = [] \<Longrightarrow> distinct labels \<and> map_of (zip labels vals) = star k m"
      using sqlite_Query_law [OF sqlite_lawsD(2) [OF L] tx(1) p tm(1) assms(3) tm(2)] by blast
    have "map_of (row_map labels vals) = sql_sel star k m fs"
      using s(4-6) by (cases "fs = []") (auto simp: sql_sel_def row_map_named row_map_distinct)
    then show "\<exists>out' tx'. assign_out None (sqlite_doRead api t k fs) tx out = Ret ((None, out'), tx') \<and> lm_ok M tx' \<and> lm_view M tx' = sqlite_rows M db
        \<and> (\<exists>res. out' = Some res \<and> map_of res = sql_sel star k m fs)"
      using s(1-3) tx(2) by (auto simp: assign_out_def sqlite_doRead_def sqlite_doQueryRows_def collect_rows_def sqlite_rows_def)
  qed
  obtain res db' where "optimisticTx fuel api (assign_out None (sqlite_doRead api t k fs)) None db = Ret ((None, Some res), db')" "sqlite_ready fuel M db'"
      "lm_view M (lt_db db') = sqlite_rows M db" "map_of res = sql_sel star k m fs"
    using optimisticTx_commits [OF sqlite_lawsD(1) [OF L] sqlite_lawsD(4) [OF L] f r] by blast
  then show ?thesis using assms(1) by (auto simp: sqlite_Read_def with_out_def map_res_def sqlite_inv_def sqlite_rows_def)
qed

interpretation sqlite: policy_db "sqlite_db fuel api" "sqlite_inv fuel api M tabs K adm star" "sqlite_rows M" "\<lambda>db. K" "sql_table tabs" adm "\<lambda>db. sql_policy star"
  for fuel api M tabs K adm star
proof (unfold_locales, goal_cases)
  case (1 d t v k)
  let ?ps = "NewFieldPairs v"
  have "\<forall>p\<in>set ?ps. is_name (fst p)" using row_ok_names [OF 1(3)] 1(1) by (simp add: sqlite_inv_def)
  then have p: "sql_parse sqlite_dialect (insert_text ''INSERT OR IGNORE INTO '' t ?ps) = Some (SqlInsert t (map fst ?ps) 1)"
    using 1(2) by (intro insert_text_parse) (simp_all add: sqlite_dialect_def sql_table_def sql_tok)
  have w: "sql_write (SqlInsert t (map fst ?ps) 1) (AString k # pair_args ?ps) T = T((t, k) \<mapsto> keep_old (T (t, k)) (map_of v))" for T
    using 1(3) sql_write_insert [of t ?ps k] by (simp add: pair_args_def map_of_NewFieldPairs row_ok_def)
  have "sql_wf tabs K (SqlInsert t (map fst ?ps) 1)" using 1(2,3) by (auto simp: sql_wf_def sql_table_def row_ok_def)
  then show ?case using sqlite_write_ok [OF 1(1) p, of "AString k # pair_args ?ps"] 1(4) rows_fit_upd(1) unfolding w
    by (simp add: sqlite_db_def sqlite_Insert_def sqlite_doInsert_def Let_def sql_policy_def pair_args_def)
next
  case (2 d t v k m)
  let ?ps = "NewFieldPairs v"
  have "\<forall>p\<in>set ?ps. is_name (fst p)" using row_ok_names [OF 2(3)] 2(1) by (simp add: sqlite_inv_def)
  then have p: "sql_parse sqlite_dialect (update_text t ?ps) = Some (SqlUpdate t (map fst ?ps))"
    using 2(2,4) by (intro update_text_parse) (simp_all add: sqlite_dialect_def sql_table_def)
  have w: "sql_write (SqlUpdate t (map fst ?ps)) (pair_args ?ps @ [AString k]) (sqlite_rows M d) = (sqlite_rows M d)((t, k) \<mapsto> m ++ map_of v)"
    using 2(3,5) sql_write_update [of "sqlite_rows M d" t k m ?ps] by (simp add: pair_args_def map_of_NewFieldPairs row_ok_def)
  have "sql_wf tabs K (SqlUpdate t (map fst ?ps))" using 2(2,3) by (auto simp: sql_wf_def sql_table_def row_ok_def)
  then show ?case using sqlite_write_ok [OF 2(1) p, of "pair_args ?ps @ [AString k]"] 2(6) rows_fit_upd(1) unfolding w
    by (simp add: sqlite_db_def sqlite_Update_def sqlite_doUpdate_def Let_def sql_policy_def pair_args_def)
next
  case (3 d t k m)
  have p: "sql_parse sqlite_dialect (''DELETE FROM '' @ t @ '' WHERE YCSB_KEY = ?'') = Some (SqlDelete t)"
    using 3(2) by (simp add: sqlite_dialect_def sql_table_def sql_tok sql_par)
  show ?case using sqlite_write_ok [OF 3(1) p, of "[AString k]"] 3(2) rows_fit_upd(2)
    by (simp add: sqlite_db_def sqlite_Delete_def sqlite_doDelete_def sql_wf_def sql_table_def)
next
  case (4 d t fs k m)
  show ?case using sqlite_Read_ok [OF 4] by (auto simp: sqlite_db_def sql_policy_def map_res_def nil_row_def)
qed

section \<open>An engine\<close>

text \<open>An engine in memory: the table, and how many of the coming commits find the database busy.\<close>

record mem_lite =
  ml_T :: table
  ml_left :: nat

definition mem_lite_api :: "string list \<Rightarrow> mem_lite sqlite_api" where
  "mem_lite_api F =
     \<lparr>sl_BeginTx = (\<lambda>s. (Inr s, s)),
      sl_Query = (\<lambda>s q args. (fst (mem_Query sqlite_dialect F \<lparr>mq_T = ml_T s, mq_texts = [q], mq_conns = 0\<rparr> 0 args), s)),
      sl_Exec = (\<lambda>s q args. case sql_parse sqlite_dialect q of Some cmd \<Rightarrow> (None, s\<lparr>ml_T := sql_write cmd args (ml_T s)\<rparr>) | None \<Rightarrow> (Some ''syntax error'', s)),
      sl_Rollback = (\<lambda>s tx. s),
      sl_Commit = (\<lambda>s tx. if 0 < ml_left s then (Some ''database is locked'', s\<lparr>ml_left := ml_left s - 1\<rparr>) else (None, s\<lparr>ml_T := ml_T tx\<rparr>)),
      sl_busy = (\<lambda>e. e = ''database is locked''), sl_DBExec = (\<lambda>s q. (None, s)), sl_Close = (\<lambda>s. (None, s))\<rparr>"

definition mem_lite_sem :: "mem_lite sqlite_sem" where
  "mem_lite_sem = \<lparr>lm_ok = (\<lambda>s. True), lm_view = ml_T, lm_left = ml_left\<rparr>"

lemma mem_lite_laws:
  assumes "distinct F" and "''YCSB_KEY'' \<notin> set F"
  shows "sqlite_laws (mem_lite_api F) mem_lite_sem (\<lambda>t. True) (set F) (\<lambda>t k m. True) (mem_star F)"
proof -
  have "sqlite_query_law (mem_lite_api F) mem_lite_sem (\<lambda>t. True) (set F) (mem_star F)"
    using assms by (auto simp: sqlite_query_law_def mem_lite_api_def mem_lite_sem_def mem_Query_def mem_star_def zip_map2 zip_same_conv_map o_def)
  moreover have "sqlite_commit_law (mem_lite_api F) mem_lite_sem"
    by (auto simp: sqlite_commit_law_def mem_lite_api_def mem_lite_sem_def)
  ultimately show ?thesis by (auto simp: sqlite_laws_def sqlite_begin_law_def sqlite_exec_law_def mem_lite_api_def mem_lite_sem_def)
qed

section \<open>Properties\<close>


definition sample_sqlite :: "nat \<Rightarrow> mem_lite sqliteDB" where
  "sample_sqlite n = \<lparr>lt_p = (props_of [] [])\<lparr>GetBool := (\<lambda>k d. k = ''sqlite.optimistic'')\<rparr>, lt_db = \<lparr>ml_T = Map.empty, ml_left = n\<rparr>,
     lt_verbose = False, lt_optimistic = True, lt_backoffMs = 5\<rparr>"

lemma sample_sqlite_created:
  "sqlite_Create (\<lambda>v. []) (\<lambda>removed dsn conns. Inr \<lparr>ml_T = Map.empty, ml_left = n\<rparr>) (mem_lite_api F) ((props_of [] [])\<lparr>GetBool := (\<lambda>k d. k = ''sqlite.optimistic'')\<rparr>)
     = Inr (sample_sqlite n)"
  by (simp add: sqlite_Create_def sqlite_createTable_def mem_lite_api_def sample_sqlite_def Let_def prop_defs)


text \<open>The reads of a batch append to the rows they are given, one for every key.\<close>

lemma sqlite_read_each_rows:
  assumes "sqlite_query_law api M tabs K star" and "lm_ok M tx" and "sql_table tabs t" and "set fs \<subseteq> K" and "\<forall>f\<in>set fs. is_name f"
    and "\<forall>k\<in>set ks. lm_view M tx (t, k) \<noteq> None"
  shows "\<exists>rs tx'. sqlite_read_each api t fs ks tx out = Ret ((None, out @ rs), tx') \<and> lm_ok M tx' \<and> lm_view M tx' = lm_view M tx \<and> length rs = length ks"
  using assms(2,6)
proof (induction ks arbitrary: tx out)
  case (Cons k ks)
  have p: "sql_parse sqlite_dialect (sqlite_select t fs @ ''= ?'') = Some (SqlSelect fs t)"
    using assms(3,5) by (simp add: sqlite_select_def sqlite_dialect_def sql_table_def sql_tok sql_par)
  obtain m where m: "lm_view M tx (t, k) = Some m" using Cons.prems(2) by auto
  have t: "tabs t" using assms(3) by (simp add: sql_table_def)
  obtain labels vals s where s: "sl_Query api tx (sqlite_select t fs @ ''= ?'') [AString k] = (Inr \<lparr>sr_Columns = Inr labels, sr_rows = [Inr vals], sr_Err = None\<rparr>, s)"
      "lm_ok M s" "lm_view M s = lm_view M tx"
    using sqlite_Query_law [OF assms(1) Cons.prems(1) p t assms(4) m] by blast
  obtain rs tx' where "sqlite_read_each api t fs ks s (out @ [Some (row_map labels vals)]) = Ret ((None, (out @ [Some (row_map labels vals)]) @ rs), tx')"
      "lm_ok M tx'" "lm_view M tx' = lm_view M s" "length rs = length ks"
    using Cons.IH [OF s(2), of "out @ [Some (row_map labels vals)]"] Cons.prems(2) s(3) by auto
  then show ?case using s by (intro exI [of _ "Some (row_map labels vals) # rs"] exI [of _ tx'])
      (simp add: sqlite_doRead_def sqlite_doQueryRows_def collect_rows_def)
qed simp

text \<open>
  \<open>BatchRead\<close> of the SQLite adapter repeats rows under contention: the closure appends to a slice that is not emptied between attempts, so after \<open>n\<close> commits
  that found the database busy it returns every row \<open>n + 1\<close> times, and not one row for every key.
\<close>

theorem sqlite_batch_read_repeats:
  assumes "sqlite_laws api M tabs K adm star" and "lm_ok M (lt_db db)" and "lt_optimistic db" and "lm_left M (lt_db db) < fuel"
    and "\<forall>s tx. lm_ok M s \<longrightarrow> 0 < lm_left M s \<longrightarrow> (\<exists>err t. sl_Commit api s tx = (Some err, t) \<and> sl_busy api err \<and> lm_ok M t \<and> lm_view M t = lm_view M s
      \<and> Suc (lm_left M t) = lm_left M s)"
    and "sql_table tabs t" and "set fs \<subseteq> K" and "\<forall>f\<in>set fs. is_name f" and "\<forall>k\<in>set ks. sqlite_rows M db (t, k) \<noteq> None"
  shows "\<exists>rs db'. sqlite_BatchRead fuel api db t ks fs = Ret (Inr rs, db') \<and> length rs = Suc (lm_left M (lt_db db)) * length ks"
proof -
  have "\<exists>rs db'. optimisticTx n api (sqlite_read_each api t fs ks) out db = Ret ((None, out @ rs), db') \<and> length rs = Suc (lm_left M (lt_db db)) * length ks"
    if "lm_ok M (lt_db db)" "lt_optimistic db" "lm_left M (lt_db db) < n" "\<forall>k\<in>set ks. sqlite_rows M db (t, k) \<noteq> None" for n db out
    using that
  proof (induction n arbitrary: db out)
    case (Suc n)
    obtain tx s where b: "sl_BeginTx api (lt_db db) = (Inr tx, s)" "lm_ok M tx" "lm_ok M s" "lm_view M tx = lm_view M (lt_db db)"
        "lm_view M s = lm_view M (lt_db db)" "lm_left M s = lm_left M (lt_db db)"
      using sqlite_Begin_law [OF sqlite_lawsD(1) [OF assms(1)] Suc.prems(1)] by blast
    obtain rs tx' where r: "sqlite_read_each api t fs ks tx out = Ret ((None, out @ rs), tx')" "lm_ok M tx'" "length rs = length ks"
      using sqlite_read_each_rows [OF sqlite_lawsD(2) [OF assms(1)] b(2) assms(6-8), of ks out] Suc.prems(4) b(4) by (auto simp: sqlite_rows_def)
    show ?case
    proof (cases "lm_left M (lt_db db)")
      case 0
      then obtain u where "sl_Commit api s tx' = (None, u)" using sqlite_Commit_law [OF sqlite_lawsD(4) [OF assms(1)] b(3) r(2)] b(6) by auto
      then show ?thesis using b(1) r 0 by auto
    next
      case (Suc l)
      then obtain err u where u: "sl_Commit api s tx' = (Some err, u)" "sl_busy api err" "lm_ok M u" "lm_view M u = lm_view M s" "Suc (lm_left M u) = lm_left M s"
        using assms(5) b(3,6) by fastforce
      let ?db = "db\<lparr>lt_db := u\<rparr>"
      obtain rs' db' where "optimisticTx n api (sqlite_read_each api t fs ks) (out @ rs) ?db = Ret ((None, (out @ rs) @ rs'), db')"
          "length rs' = Suc (lm_left M u) * length ks"
        using Suc.IH [of ?db "out @ rs"] Suc.prems Suc u b(5,6) by (auto simp: sqlite_rows_def)
      then show ?thesis using b(1,6) r(1,3) u(1,2,5) Suc.prems(2) by (intro exI [of _ "rs @ rs'"] exI [of _ db']) simp
    qed
  qed simp
  from this [OF assms(2-4,9), of "[]"] show ?thesis by (auto simp: sqlite_BatchRead_def with_out_def map_res_def)
qed

theorem sqlite_batch_read_repeats_witness:
  "\<exists>rs db'. sqlite_BatchRead 2 (mem_lite_api [''field0'']) ((sample_sqlite 1)\<lparr>lt_db := \<lparr>ml_T = [(''usertable'', ''k'') \<mapsto> [''field0'' \<mapsto> [1]]], ml_left = 1\<rparr>\<rparr>)
       ''usertable'' [''k''] [''field0''] = Ret (Inr rs, db') \<and> length rs = 2"
proof -
  let ?db = "(sample_sqlite 1)\<lparr>lt_db := \<lparr>ml_T = [(''usertable'', ''k'') \<mapsto> [''field0'' \<mapsto> [1]]], ml_left = 1\<rparr>\<rparr>"
  have laws: "sqlite_laws (mem_lite_api [''field0'']) mem_lite_sem (\<lambda>t. True) (set [''field0'']) (\<lambda>t k m. True) (mem_star [''field0''])"
    by (rule mem_lite_laws) simp_all
  have c: "\<forall>s tx. lm_ok mem_lite_sem s \<longrightarrow> 0 < lm_left mem_lite_sem s \<longrightarrow> (\<exists>err t. sl_Commit (mem_lite_api [''field0'']) s tx = (Some err, t)
      \<and> sl_busy (mem_lite_api [''field0'']) err \<and> lm_ok mem_lite_sem t \<and> lm_view mem_lite_sem t = lm_view mem_lite_sem s \<and> Suc (lm_left mem_lite_sem t) = lm_left mem_lite_sem s)"
    by (simp add: mem_lite_api_def mem_lite_sem_def)
  show ?thesis
    using sqlite_batch_read_repeats [OF laws _ _ _ c, of ?db 2 "''usertable''" "[''field0'']" "[''k'']"] names_sample
    by (simp add: sample_sqlite_def mem_lite_sem_def sqlite_rows_def sql_table_def numeral_2_eq_2)
qed

end
