(* ===== verification/Cassandra.thy ===== *)
theory Cassandra
  imports SqlConn
begin

text \<open>
  The adapter for Cassandra and Scylla, \<^verbatim>\<open>db/cassandra/db.go\<close>. Its statements are in the fragment of \<open>SqlText\<close>, with a keyspace before the table; in CQL an insert and an
  update both write the named columns of a row, new or not. The session (\<open>gocql\<close>) is a parameter and \<open>cql_laws\<close> its documented behaviour.
\<close>

section \<open>The session\<close>

text \<open>\<open>cq_Scan\<close> is a query followed by \<open>Scan\<close> into as many byte slices as given.\<close>

record 's cql_api =
  cq_Exec :: "'s \<Rightarrow> string \<Rightarrow> sqlarg list \<Rightarrow> error option \<times> 's"
  cq_Scan :: "'s \<Rightarrow> string \<Rightarrow> sqlarg list \<Rightarrow> nat \<Rightarrow> (error + byte list list) \<times> 's"
  cq_Close :: "'s \<Rightarrow> 's"

definition cql_ErrNotFound :: error where
  "cql_ErrNotFound = ''not found''"

section \<open>Creation\<close>

record 's cassandraDB =
  ca_p :: props
  ca_session :: 's
  ca_verbose :: bool
  ca_keySpace :: string
  ca_fieldNames :: "string list"

definition cassandra_create_text :: "string \<Rightarrow> string \<Rightarrow> int \<Rightarrow> string" where
  "cassandra_create_text keySpace tableName fieldCount =
     ''CREATE TABLE IF NOT EXISTS '' @ keySpace @ ''.'' @ tableName @ '' (YCSB_KEY VARCHAR PRIMARY KEY''
     @ concat (map (\<lambda>i. '', FIELD'' @ itoa i @ '' VARCHAR'') [0..fieldCount - 1]) @ '');''"

definition cassandra_createTable :: "'s cql_api \<Rightarrow> 's cassandraDB \<Rightarrow> (error option \<times> 's cassandraDB) go" where
  "cassandra_createTable api db =
     (let p = ca_p db; tableName = GetString p prop_TableName prop_TableNameDefault;
          (err, s) = (if GetBool p prop_DropData prop_DropDataDefault
                      then cq_Exec api (ca_session db) (''DROP TABLE IF EXISTS '' @ ca_keySpace db @ ''.'' @ tableName) [] else (None, ca_session db));
          fieldCount = GetInt64 p prop_FieldCount prop_FieldCountDefault
      in if err \<noteq> None then Ret (err, db\<lparr>ca_session := s\<rparr>)
         else if fieldCount < 0 then Panic ''makeslice: len out of range''
         else let (err, s) = cq_Exec api s (cassandra_create_text (ca_keySpace db) tableName fieldCount) []
              in Ret (err, db\<lparr>ca_session := s, ca_fieldNames := map (\<lambda>i. ''field'' @ itoa i) [0..fieldCount - 1]\<rparr>))"

record cluster_config =
  cc_hosts :: "string list"
  cc_Keyspace :: string
  cc_NumConns :: int
  cc_Timeout :: int
  cc_Consistency :: string
  cc_Username :: string
  cc_Password :: string

definition cassandra_cluster :: "props \<Rightarrow> cluster_config" where
  "cassandra_cluster p =
     \<lparr>cc_hosts = split_on (CHR '','') (GetString p ''cassandra.cluster'' ''127.0.0.1:9042''), cc_Keyspace = GetString p ''cassandra.keyspace'' ''test'',
      cc_NumConns = GetInt p ''cassandra.connections'' 2, cc_Timeout = 30 * 10 ^ 9, cc_Consistency = ''QUORUM'',
      cc_Username = GetString p ''cassandra.username'' ''cassandra'', cc_Password = GetString p ''cassandra.password'' ''cassandra''\<rparr>"

definition cassandra_Create :: "(cluster_config \<Rightarrow> error + 's) \<Rightarrow> 's cql_api \<Rightarrow> props \<Rightarrow> (error + 's cassandraDB) go" where
  "cassandra_Create CreateSession api p =
     (case CreateSession (cassandra_cluster p) of
        Inl err \<Rightarrow> Ret (Inl err)
      | Inr s \<Rightarrow>
          gbind (cassandra_createTable api \<lparr>ca_p = p, ca_session = s, ca_verbose = GetBool p prop_Verbose prop_VerboseDefault,
              ca_keySpace = cc_Keyspace (cassandra_cluster p), ca_fieldNames = []\<rparr>) (\<lambda>(err, db).
            Ret (case err of Some e \<Rightarrow> Inl e | None \<Rightarrow> Inr db)))"

definition cassandra_Close :: "'s cql_api \<Rightarrow> 's cassandraDB \<Rightarrow> error option \<times> 's cassandraDB" where
  "cassandra_Close api db = (None, db\<lparr>ca_session := cq_Close api (ca_session db)\<rparr>)"

section \<open>Operations\<close>

definition cassandra_table :: "'s cassandraDB \<Rightarrow> string \<Rightarrow> string" where
  "cassandra_table db table = ca_keySpace db @ ''.'' @ table"

definition cassandra_Read :: "'s cql_api \<Rightarrow> 's cassandraDB \<Rightarrow> string \<Rightarrow> string \<Rightarrow> string list \<Rightarrow> ((error + row option) \<times> 's cassandraDB) go" where
  "cassandra_Read api db table key fnames =
     (let fnames = (if fnames = [] then ca_fieldNames db else fnames);
          query = ''SELECT '' @ join_with '','' fnames @ '' FROM '' @ cassandra_table db table @ '' WHERE YCSB_KEY = ?'';
          (r, s) = cq_Scan api (ca_session db) query [AString key] (length fnames)
      in Ret (case r of
                Inl err \<Rightarrow> if err = cql_ErrNotFound then Inr None else Inl err
              | Inr dest \<Rightarrow> Inr (Some (row_map fnames dest)), db\<lparr>ca_session := s\<rparr>))"

definition cassandra_Scan :: "'s cassandraDB \<Rightarrow> string \<Rightarrow> string \<Rightarrow> int \<Rightarrow> string list \<Rightarrow> ((error + row option list) \<times> 's cassandraDB) go" where
  "cassandra_Scan db table startKey cnt fnames = Ret (Inl ''scan is not supported'', db)"

definition cassandra_execQuery :: "'s cql_api \<Rightarrow> string \<Rightarrow> sqlarg list \<Rightarrow> 's cassandraDB \<Rightarrow> (error option \<times> 's cassandraDB) go" where
  "cassandra_execQuery api query args db = (let (err, s) = cq_Exec api (ca_session db) query args in Ret (err, db\<lparr>ca_session := s\<rparr>))"

definition cassandra_Update :: "'s cql_api \<Rightarrow> 's cassandraDB \<Rightarrow> string \<Rightarrow> string \<Rightarrow> row \<Rightarrow> (error option \<times> 's cassandraDB) go" where
  "cassandra_Update api db table key vals =
     (let pairs = NewFieldPairs vals in cassandra_execQuery api (update_text (cassandra_table db table) pairs) (pair_args pairs @ [AString key]) db)"

definition cassandra_Insert :: "'s cql_api \<Rightarrow> 's cassandraDB \<Rightarrow> string \<Rightarrow> string \<Rightarrow> row \<Rightarrow> (error option \<times> 's cassandraDB) go" where
  "cassandra_Insert api db table key vals =
     (let pairs = NewFieldPairs vals in
      cassandra_execQuery api (insert_text ''INSERT INTO '' (cassandra_table db table) pairs) (AString key # pair_args pairs) db)"

definition cassandra_Delete :: "'s cql_api \<Rightarrow> 's cassandraDB \<Rightarrow> string \<Rightarrow> string \<Rightarrow> (error option \<times> 's cassandraDB) go" where
  "cassandra_Delete api db table key =
     cassandra_execQuery api (''DELETE FROM '' @ cassandra_table db table @ '' WHERE YCSB_KEY = ?'') [AString key] db"

definition cassandra_db :: "'s cql_api \<Rightarrow> 's cassandraDB db" where
  "cassandra_db api =
     \<lparr>db_Close = (\<lambda>d. Ret (cassandra_Close api d)), db_InitThread = (\<lambda>d i n. Ret d), db_CleanupThread = Ret,
      db_Read = (\<lambda>d t k fs. map_res (map_sum id nil_row) (cassandra_Read api d t k fs)), db_Scan = cassandra_Scan,
      db_Update = cassandra_Update api, db_Insert = cassandra_Insert api, db_Delete = cassandra_Delete api,
      db_Batch = None, db_Analyze = None, db_TypeName = ''*cassandra.cassandraDB''\<rparr>"

section \<open>The behaviour of the session\<close>

definition cql_dialect :: sql_dialect where
  "cql_dialect = \<lparr>sd_ph = (\<lambda>i. ''?''), sd_insert = [''INSERT'', ''INTO''], sd_conflict = [], sd_hint = []\<rparr>"

text \<open>Every write names the columns it sets; the other columns of the row, if it exists, stay.\<close>

fun cql_write :: "sqlcmd \<Rightarrow> sqlarg list \<Rightarrow> table \<Rightarrow> table" where
  "cql_write (SqlInsert t cols n) args T =
     (case args of AString k # vs \<Rightarrow> T((t, k) \<mapsto> merge_new (T (t, k)) (args_row cols vs)) | _ \<Rightarrow> T)"
| "cql_write (SqlUpdate t cols) args T =
     (case drop (length cols) args of [AString k] \<Rightarrow> T((t, k) \<mapsto> merge_new (T (t, k)) (args_row cols (take (length cols) args))) | _ \<Rightarrow> T)"
| "cql_write (SqlDelete t) args T = (case args of [AString k] \<Rightarrow> T((t, k) := None) | _ \<Rightarrow> T)"
| "cql_write c args T = T"

definition cql_laws :: "'s cql_api \<Rightarrow> ('s \<Rightarrow> bool) \<Rightarrow> ('s \<Rightarrow> table) \<Rightarrow> (string \<Rightarrow> bool) \<Rightarrow> string set \<Rightarrow> (string \<Rightarrow> string \<Rightarrow> rowmap \<Rightarrow> bool) \<Rightarrow> bool" where
  "cql_laws api ok view tabs K adm \<longleftrightarrow>
     (\<forall>s q cmd args. ok s \<longrightarrow> sql_parse cql_dialect q = Some cmd \<longrightarrow> sql_wf tabs K cmd \<longrightarrow> cmd_writes cmd \<longrightarrow> length args = cmd_args cmd \<longrightarrow>
        rows_fit adm (view s) (cql_write cmd args (view s)) \<longrightarrow> (\<exists>t. cq_Exec api s q args = (None, t) \<and> ok t \<and> view t = cql_write cmd args (view s)))
   \<and> (\<forall>s q cols t k. ok s \<longrightarrow> sql_parse cql_dialect q = Some (SqlSelect cols t) \<longrightarrow> tabs t \<longrightarrow> cols \<noteq> [] \<longrightarrow> set cols \<subseteq> K \<longrightarrow>
        (\<exists>s'. cq_Scan api s q [AString k] (length cols) =
           ((case view s (t, k) of Some m \<Rightarrow> Inr (map (null_bytes m) cols) | None \<Rightarrow> Inl cql_ErrNotFound), s') \<and> ok s' \<and> view s' = view s))"

lemma cql_Exec_law:
  assumes "cql_laws api ok view tabs K adm" and "ok s" and "sql_parse cql_dialect q = Some cmd" and "sql_wf tabs K cmd" and "cmd_writes cmd"
    and "length args = cmd_args cmd" and "rows_fit adm (view s) (cql_write cmd args (view s))"
  shows "\<exists>t. cq_Exec api s q args = (None, t) \<and> ok t \<and> view t = cql_write cmd args (view s)"
  using assms(1) [unfolded cql_laws_def, THEN conjunct1, rule_format, OF assms(2-)] .

lemma cql_Scan_law:
  assumes "cql_laws api ok view tabs K adm" and "ok s" and "sql_parse cql_dialect q = Some (SqlSelect cols t)" and "tabs t" and "cols \<noteq> []" and "set cols \<subseteq> K"
  shows "\<exists>s'. cq_Scan api s q [AString k] (length cols) =
     ((case view s (t, k) of Some m \<Rightarrow> Inr (map (null_bytes m) cols) | None \<Rightarrow> Inl cql_ErrNotFound), s') \<and> ok s' \<and> view s' = view s"
  using assms(1) [unfolded cql_laws_def, THEN conjunct2, rule_format, OF assms(2-)] .

section \<open>The adapter keeps its contract\<close>

definition cql_sel :: "string list \<Rightarrow> string \<Rightarrow> rowmap \<Rightarrow> string list \<Rightarrow> rowmap" where
  "cql_sel F k m fs = (\<lambda>c. if c \<in> set (if fs = [] then F else fs) then Some (null_bytes m c) else None)"

definition cql_policy :: "string list \<Rightarrow> row_policy" where
  "cql_policy F = \<lparr>rp_ins = merge_new, rp_upd = (\<lambda>m v. m ++ v), rp_sel = cql_sel F\<rparr>"

definition cassandra_inv ::
    "'s cql_api \<Rightarrow> ('s \<Rightarrow> bool) \<Rightarrow> ('s \<Rightarrow> table) \<Rightarrow> (string \<Rightarrow> bool) \<Rightarrow> (string \<Rightarrow> string \<Rightarrow> rowmap \<Rightarrow> bool) \<Rightarrow> string \<Rightarrow> 's cassandraDB \<Rightarrow> bool" where
  "cassandra_inv api ok view tabs adm ks db \<longleftrightarrow> cql_laws api ok view tabs (set (ca_fieldNames db)) adm \<and> ok (ca_session db)
     \<and> ca_fieldNames db \<noteq> [] \<and> (\<forall>f\<in>set (ca_fieldNames db). is_name f) \<and> ca_keySpace db = ks"

definition cassandra_rows :: "('s \<Rightarrow> table) \<Rightarrow> 's cassandraDB \<Rightarrow> table" where
  "cassandra_rows view db = (\<lambda>(t, k). view (ca_session db) (cassandra_table db t, k))"

definition cassandra_accepts :: "(string \<Rightarrow> string \<Rightarrow> rowmap \<Rightarrow> bool) \<Rightarrow> string \<Rightarrow> string \<Rightarrow> string \<Rightarrow> rowmap \<Rightarrow> bool" where
  "cassandra_accepts adm ks t = adm (ks @ ''.'' @ t)"

definition cassandra_tables :: "(string \<Rightarrow> bool) \<Rightarrow> string \<Rightarrow> string \<Rightarrow> bool" where
  "cassandra_tables tabs ks t \<longleftrightarrow> sql_table tabs (ks @ ''.'' @ t)"

lemma cassandra_rows_upd:
  "view s = (view (ca_session db))((cassandra_table db t, k) := e) \<Longrightarrow> cassandra_rows view (db\<lparr>ca_session := s\<rparr>) = (cassandra_rows view db)((t, k) := e)"
  by (auto simp: cassandra_rows_def cassandra_table_def fun_eq_iff)

lemma cassandra_exec_ok:
  assumes "cassandra_inv api ok view tabs adm ks db" and "sql_parse cql_dialect q = Some cmd" and "sql_wf tabs (set (ca_fieldNames db)) cmd" and "cmd_writes cmd"
    and "length args = cmd_args cmd" and w: "cql_write cmd args (view (ca_session db)) = (view (ca_session db))((cassandra_table db t, k) := e)"
    and "\<And>m. e = Some m \<Longrightarrow> adm (cassandra_table db t) k m"
  shows "\<exists>db'. cassandra_execQuery api q args db = Ret (None, db') \<and> cassandra_inv api ok view tabs adm ks db' \<and> ca_fieldNames db' = ca_fieldNames db
    \<and> cassandra_rows view db' = (cassandra_rows view db)((t, k) := e)"
proof -
  have I: "cql_laws api ok view tabs (set (ca_fieldNames db)) adm" "ok (ca_session db)" using assms(1) by (auto simp: cassandra_inv_def)
  have "rows_fit adm (view (ca_session db)) (cql_write cmd args (view (ca_session db)))"
    unfolding w using assms(7) by (auto simp: rows_fit_def split: if_splits)
  from cql_Exec_law [OF I assms(2-5) this] obtain s where s: "cq_Exec api (ca_session db) q args = (None, s)" "ok s"
      "view s = (view (ca_session db))((cassandra_table db t, k) := e)" by (auto simp: w)
  then show ?thesis using assms(1) cassandra_rows_upd [OF s(3)] by (auto simp: cassandra_execQuery_def cassandra_inv_def)
qed

interpretation cassandra: policy_db "cassandra_db api" "cassandra_inv api ok view tabs adm ks" "cassandra_rows view" "\<lambda>db. set (ca_fieldNames db)"
    "cassandra_tables tabs ks" "cassandra_accepts adm ks" "\<lambda>db. cql_policy (ca_fieldNames db)" for api ok view tabs adm ks
proof (unfold_locales, goal_cases)
  case (1 d t v k)
  let ?ps = "NewFieldPairs v" and ?t = "cassandra_table d t"
  have t: "tabs ?t" "is_name ?t" "?t = ks @ ''.'' @ t" using 1(1,2) by (auto simp: cassandra_inv_def cassandra_tables_def sql_table_def cassandra_table_def)
  have "\<forall>p\<in>set ?ps. is_name (fst p)" using row_ok_names [OF 1(3)] 1(1) by (simp add: cassandra_inv_def)
  then have p: "sql_parse cql_dialect (insert_text ''INSERT INTO '' ?t ?ps) = Some (SqlInsert ?t (map fst ?ps) 1)"
    using t(2) by (intro insert_text_parse) (simp_all add: cql_dialect_def sql_tok)
  have w: "cql_write (SqlInsert ?t (map fst ?ps) 1) (AString k # pair_args ?ps) (view (ca_session d))
      = (view (ca_session d))((?t, k) \<mapsto> merge_new (cassandra_rows view d (t, k)) (map_of v))"
    using 1(3) by (simp add: pair_args_def args_row_pairs map_of_NewFieldPairs row_ok_def cassandra_rows_def)
  have "sql_wf tabs (set (ca_fieldNames d)) (SqlInsert ?t (map fst ?ps) 1)" using t(1) 1(3) by (auto simp: sql_wf_def row_ok_def)
  then show ?case using cassandra_exec_ok [OF 1(1) p _ _ _ w] 1(4) t(3)
    by (auto simp: cassandra_db_def cassandra_Insert_def Let_def cql_policy_def pair_args_def cassandra_accepts_def)
next
  case (2 d t v k m)
  let ?ps = "NewFieldPairs v" and ?t = "cassandra_table d t"
  have t: "tabs ?t" "is_name ?t" "?t = ks @ ''.'' @ t" using 2(1,2) by (auto simp: cassandra_inv_def cassandra_tables_def sql_table_def cassandra_table_def)
  have "\<forall>p\<in>set ?ps. is_name (fst p)" using row_ok_names [OF 2(3)] 2(1) by (simp add: cassandra_inv_def)
  then have p: "sql_parse cql_dialect (update_text ?t ?ps) = Some (SqlUpdate ?t (map fst ?ps))"
    using t(2) 2(4) by (intro update_text_parse) (simp_all add: cql_dialect_def)
  have w: "cql_write (SqlUpdate ?t (map fst ?ps)) (pair_args ?ps @ [AString k]) (view (ca_session d)) = (view (ca_session d))((?t, k) \<mapsto> m ++ map_of v)"
    using 2(3,5) by (simp add: pair_args_def args_row_pairs map_of_NewFieldPairs row_ok_def cassandra_rows_def merge_new_def)
  have "sql_wf tabs (set (ca_fieldNames d)) (SqlUpdate ?t (map fst ?ps))" using t(1) 2(3) by (auto simp: sql_wf_def row_ok_def)
  then show ?case using cassandra_exec_ok [OF 2(1) p _ _ _ w] 2(6) t(3)
    by (auto simp: cassandra_db_def cassandra_Update_def Let_def cql_policy_def pair_args_def cassandra_accepts_def)
next
  case (3 d t k m)
  let ?t = "cassandra_table d t"
  have t: "tabs ?t" "is_name ?t" using 3(1,2) by (auto simp: cassandra_inv_def cassandra_tables_def sql_table_def cassandra_table_def)
  have p: "sql_parse cql_dialect (''DELETE FROM '' @ ?t @ '' WHERE YCSB_KEY = ?'') = Some (SqlDelete ?t)"
    using t(2) by (simp add: cql_dialect_def sql_tok sql_par)
  show ?case using cassandra_exec_ok [OF 3(1) p, of "[AString k]" t k None] t(1) by (auto simp: cassandra_db_def cassandra_Delete_def sql_wf_def)
next
  case (4 d t fs k m)
  let ?t = "cassandra_table d t" and ?fs = "if fs = [] then ca_fieldNames d else fs"
  have I: "cql_laws api ok view tabs (set (ca_fieldNames d)) adm" "ok (ca_session d)" using 4(1) by (auto simp: cassandra_inv_def)
  have t: "tabs ?t" "is_name ?t" using 4(1,2) by (auto simp: cassandra_inv_def cassandra_tables_def sql_table_def cassandra_table_def)
  have fs: "?fs \<noteq> []" "set ?fs \<subseteq> set (ca_fieldNames d)" "\<forall>f\<in>set ?fs. is_name f" using 4(1,3) by (auto simp: cassandra_inv_def)
  have p: "sql_parse cql_dialect (''SELECT '' @ join_with '','' ?fs @ '' FROM '' @ ?t @ '' WHERE YCSB_KEY = ?'') = Some (SqlSelect ?fs ?t)"
    using t(2) fs(1,3) p_star_names [of ?fs "''FROM'' # ?t # [''WHERE'', ''YCSB_KEY'', ''='', ''?'']"] by (simp add: cql_dialect_def sql_tok sql_par tokens_join)
  have "view (ca_session d) (?t, k) = Some m" using 4(4) by (simp add: cassandra_rows_def)
  then obtain s where s: "cq_Scan api (ca_session d) (''SELECT '' @ join_with '','' ?fs @ '' FROM '' @ ?t @ '' WHERE YCSB_KEY = ?'') [AString k] (length ?fs)
      = (Inr (map (null_bytes m) ?fs), s)" "ok s" "view s = view (ca_session d)"
    using cql_Scan_law [OF I p t(1) fs(1,2), of k] by auto
  then have "cassandra_Read api d t k fs = Ret (Inr (Some (row_map ?fs (map (null_bytes m) ?fs))), d\<lparr>ca_session := s\<rparr>)"
    by (simp add: cassandra_Read_def Let_def)
  then show ?case using 4(1) s(2,3)
    by (auto simp: cassandra_db_def map_res_def nil_row_def cassandra_inv_def cql_policy_def cql_sel_def row_map_named cassandra_rows_def cassandra_table_def fun_eq_iff)
qed

end
