(* ===== verification/Fdb.thy ===== *)
theory Fdb
  imports RowPolicy Props "HOL-Library.List_Lexorder"
begin

text \<open>
  The FoundationDB adapter, \<^verbatim>\<open>db/foundationdb/db.go\<close>: every operation is one transaction of the binding, which is a parameter;
  \<open>fdb_laws\<close> states what a committed transaction does. The lemmas show that the adapter keeps the contract of a database, that a scan
  stays within its table, and what reads and updates of missing rows do.
\<close>

section \<open>The binding\<close>

text \<open>
  A transaction function returns an \<open>interface{}\<close>: nothing, bytes or rows. A lookup delivers \<^const>\<open>None\<close> for the nil slice of a missing key; a range
  is the list of what the calls of \<open>Get\<close> on its iterator deliver.
\<close>

datatype fdb_val = FNil | FBytes "byte list" | FRows "row option list"

record ('s, 't) fdb_api =
  fd_Transact :: "'s \<Rightarrow> ('t \<Rightarrow> ((error + fdb_val) \<times> 't) go) \<Rightarrow> ((error + fdb_val) \<times> 's) go"
  fd_Get :: "'t \<Rightarrow> byte list \<Rightarrow> error + byte list option"
  fd_GetRange :: "'t \<Rightarrow> byte list \<Rightarrow> byte list \<Rightarrow> int \<Rightarrow> (error + byte list option) list"
  fd_Set :: "'t \<Rightarrow> byte list \<Rightarrow> byte list \<Rightarrow> 't"
  fd_Clear :: "'t \<Rightarrow> byte list \<Rightarrow> 't"

section \<open>The adapter\<close>

record 's fDB =
  fdb_db :: 's
  fdb_r :: rowcodec

definition fdb_createDB :: "(int \<Rightarrow> string \<Rightarrow> string \<Rightarrow> (error + 's) go) \<Rightarrow> props \<Rightarrow> (error + 's fDB) go" where
  "fdb_createDB Open p =
     gbind (Open (GetInt p ''fdb.apiversion'' 510) (GetString p ''fdb.cluster'' '''') (GetString p ''fdb.dbname'' ''DB'')) (\<lambda>res. case res of
         Inl err \<Rightarrow> Ret (Inl err)
       | Inr s \<Rightarrow> gbind (NewRowCodec p) (\<lambda>r. Ret (Inr \<lparr>fdb_db = s, fdb_r = r\<rparr>)))"

definition fdb_Close :: "'s fDB \<Rightarrow> error option \<times> 's fDB" where
  "fdb_Close db = (None, db)"

definition fdb_getRowKey :: "string \<Rightarrow> string \<Rightarrow> byte list" where
  "fdb_getRowKey table key = bytes_of (table @ '':'' @ key)"

definition fdb_getEndRowKey :: "string \<Rightarrow> byte list" where
  "fdb_getEndRowKey table = bytes_of (table @ '';'')"

text \<open>
  The transaction of \<open>Read\<close> returns the slice as an \<open>interface{}\<close>, which is not nil even when the slice is: the test
  \<open>row == nil\<close> fails for a missing key, and the nil slice is decoded.
\<close>

definition fdb_read_tx :: "('s, 't) fdb_api \<Rightarrow> byte list \<Rightarrow> 't \<Rightarrow> ((error + fdb_val) \<times> 't) go" where
  "fdb_read_tx api rowKey tr =
     Ret (case fd_Get api tr rowKey of
            Inl err \<Rightarrow> Inl err
          | Inr None \<Rightarrow> Inr (FBytes [])
          | Inr (Some v) \<Rightarrow> Inr (FBytes v), tr)"

definition fdb_Read :: "('s, 't) fdb_api \<Rightarrow> 's fDB \<Rightarrow> string \<Rightarrow> string \<Rightarrow> string list \<Rightarrow> ((error + row option) \<times> 's fDB) go" where
  "fdb_Read api db table key fnames =
     gbind (fd_Transact api (fdb_db db) (fdb_read_tx api (fdb_getRowKey table key))) (\<lambda>(res, s).
       let db = db\<lparr>fdb_db := s\<rparr> in case res of
         Inl err \<Rightarrow> Ret (Inl err, db)
       | Inr FNil \<Rightarrow> Ret (Inr None, db)
       | Inr (FBytes row) \<Rightarrow> gbind (RowCodec_Decode (fdb_r db) row fnames) (\<lambda>m. Ret (map_sum id Some m, db))
       | Inr (FRows rows) \<Rightarrow> Panic ''interface conversion'')"

fun fdb_scan_loop :: "rowcodec \<Rightarrow> string list \<Rightarrow> (error + byte list option) list \<Rightarrow> (error + row option list) go" where
  "fdb_scan_loop r fnames [] = Ret (Inr [])"
| "fdb_scan_loop r fnames (Inl err # items) = Ret (Inl err)"
| "fdb_scan_loop r fnames (Inr None # items) = ebind (fdb_scan_loop r fnames items) (\<lambda>ms. Ret (Inr (None # ms)))"
| "fdb_scan_loop r fnames (Inr (Some v) # items) =
     ebind (RowCodec_Decode r v fnames) (\<lambda>m. ebind (fdb_scan_loop r fnames items) (\<lambda>ms. Ret (Inr (Some m # ms))))"

definition fdb_scan_tx ::
    "('s, 't) fdb_api \<Rightarrow> rowcodec \<Rightarrow> byte list \<Rightarrow> byte list \<Rightarrow> int \<Rightarrow> string list \<Rightarrow> 't \<Rightarrow> ((error + fdb_val) \<times> 't) go" where
  "fdb_scan_tx api r fromKey toKey cnt fnames tr =
     (let items = fd_GetRange api tr fromKey toKey cnt in
      if cnt < 0 then Panic ''makeslice: cap out of range''
      else gbind (fdb_scan_loop r fnames items) (\<lambda>res. Ret (map_sum id FRows res, tr)))"

definition fdb_Scan ::
    "('s, 't) fdb_api \<Rightarrow> 's fDB \<Rightarrow> string \<Rightarrow> string \<Rightarrow> int \<Rightarrow> string list \<Rightarrow> ((error + row option list) \<times> 's fDB) go" where
  "fdb_Scan api db table startKey cnt fnames =
     gbind (fd_Transact api (fdb_db db)
         (fdb_scan_tx api (fdb_r db) (fdb_getRowKey table startKey) (fdb_getEndRowKey table) cnt fnames)) (\<lambda>(res, s).
       let db = db\<lparr>fdb_db := s\<rparr> in case res of
         Inl err \<Rightarrow> Ret (Inl err, db)
       | Inr (FRows rows) \<Rightarrow> Ret (Inr rows, db)
       | Inr _ \<Rightarrow> Panic ''interface conversion'')"

text \<open>An update of a row that does not exist commits an empty transaction.\<close>

definition fdb_update_tx :: "('s, 't) fdb_api \<Rightarrow> rowcodec \<Rightarrow> byte list \<Rightarrow> row \<Rightarrow> 't \<Rightarrow> ((error + fdb_val) \<times> 't) go" where
  "fdb_update_tx api r rowKey vals tr =
     (case fd_Get api tr rowKey of
        Inl err \<Rightarrow> Ret (Inl err, tr)
      | Inr None \<Rightarrow> Ret (Inr FNil, tr)
      | Inr (Some row) \<Rightarrow>
          gbind (RowCodec_Decode r row []) (\<lambda>res. case res of
              Inl err \<Rightarrow> Ret (Inl err, tr)
            | Inr data \<Rightarrow> (case RowCodec_Encode r [] (merge_fields data vals) of
                  Inl err \<Rightarrow> Ret (Inl err, tr)
                | Inr buf \<Rightarrow> Ret (Inr FNil, fd_Set api tr rowKey buf))))"

definition fdb_write :: "('s, 't) fdb_api \<Rightarrow> ('t \<Rightarrow> ((error + fdb_val) \<times> 't) go) \<Rightarrow> 's fDB \<Rightarrow> (error option \<times> 's fDB) go" where
  "fdb_write api f db =
     gbind (fd_Transact api (fdb_db db) f) (\<lambda>(res, s). Ret (case res of Inl err \<Rightarrow> Some err | Inr _ \<Rightarrow> None, db\<lparr>fdb_db := s\<rparr>))"

definition fdb_Update :: "('s, 't) fdb_api \<Rightarrow> 's fDB \<Rightarrow> string \<Rightarrow> string \<Rightarrow> row \<Rightarrow> (error option \<times> 's fDB) go" where
  "fdb_Update api db table key vals = fdb_write api (fdb_update_tx api (fdb_r db) (fdb_getRowKey table key) vals) db"

definition fdb_Insert :: "('s, 't) fdb_api \<Rightarrow> 's fDB \<Rightarrow> string \<Rightarrow> string \<Rightarrow> row \<Rightarrow> (error option \<times> 's fDB) go" where
  "fdb_Insert api db table key vals =
     (case RowCodec_Encode (fdb_r db) [] vals of
        Inl err \<Rightarrow> Ret (Some err, db)
      | Inr buf \<Rightarrow> fdb_write api (\<lambda>tr. Ret (Inr FNil, fd_Set api tr (fdb_getRowKey table key) buf)) db)"

definition fdb_Delete :: "('s, 't) fdb_api \<Rightarrow> 's fDB \<Rightarrow> string \<Rightarrow> string \<Rightarrow> (error option \<times> 's fDB) go" where
  "fdb_Delete api db table key = fdb_write api (\<lambda>tr. Ret (Inr FNil, fd_Clear api tr (fdb_getRowKey table key))) db"

definition fdb_ycsb :: "('s, 't) fdb_api \<Rightarrow> 's fDB db" where
  "fdb_ycsb api =
     \<lparr>db_Close = (\<lambda>d. Ret (fdb_Close d)), db_InitThread = (\<lambda>d i n. Ret d), db_CleanupThread = Ret,
      db_Read = (\<lambda>d t k fs. map_res (map_sum id nil_row) (fdb_Read api d t k fs)), db_Scan = fdb_Scan api, db_Update = fdb_Update api,
      db_Insert = fdb_Insert api, db_Delete = fdb_Delete api,
      db_Batch = None, db_Analyze = None, db_TypeName = ''*foundationdb.fDB''\<rparr>"

section \<open>What a transaction does\<close>

text \<open>
  A transaction starts on a snapshot of the store. Lookups and ranges see the snapshot with the writes made so far, and
  when the function returns without an error the transaction is committed, as long as it only made writes that the store takes (\<open>adm\<close>). A
  range has the keys from the first bound up to the second, in byte order, and a positive limit cuts it.
\<close>

definition keys_between :: "(byte list \<rightharpoonup> byte list) \<Rightarrow> byte list \<Rightarrow> byte list \<Rightarrow> byte list list" where
  "keys_between m a b = sorted_list_of_set {k \<in> dom m. a \<le> k \<and> k < b}"

definition limited :: "int \<Rightarrow> 'a list \<Rightarrow> 'a list" where
  "limited n xs = (if n = 0 then xs else take (nat n) xs)"

record ('s, 't) fdb_sem =
  fs_ok :: "'s \<Rightarrow> bool"
  fs_view :: "'s \<Rightarrow> byte list \<rightharpoonup> byte list"
  fs_tok :: "'t \<Rightarrow> bool"
  fs_tview :: "'t \<Rightarrow> byte list \<rightharpoonup> byte list"
  fs_adm :: "byte list \<Rightarrow> byte list \<Rightarrow> bool"

definition fdb_laws :: "('s, 't) fdb_api \<Rightarrow> ('s, 't) fdb_sem \<Rightarrow> bool" where
  "fdb_laws api M \<longleftrightarrow>
     (\<forall>s f. fs_ok M s \<longrightarrow> (\<exists>t. fs_tok M t \<and> fs_tview M t = fs_view M s \<and>
        (\<forall>v t'. f t = Ret (Inr v, t') \<longrightarrow> fs_tok M t' \<longrightarrow>
           (\<exists>s'. fd_Transact api s f = Ret (Inr v, s') \<and> fs_ok M s' \<and> fs_view M s' = fs_tview M t'))))
   \<and> (\<forall>t k. fs_tok M t \<longrightarrow> finite (dom (fs_tview M t)) \<and> fd_Get api t k = Inr (fs_tview M t k))
   \<and> (\<forall>t a b n. fs_tok M t \<longrightarrow> 0 \<le> n \<longrightarrow> fd_GetRange api t a b n = map (\<lambda>k. Inr (fs_tview M t k)) (limited n (keys_between (fs_tview M t) a b)))
   \<and> (\<forall>t k v. fs_tok M t \<longrightarrow> fs_adm M k v \<longrightarrow> fs_tok M (fd_Set api t k v) \<and> fs_tview M (fd_Set api t k v) = (fs_tview M t)(k \<mapsto> v))
   \<and> (\<forall>t k. fs_tok M t \<longrightarrow> fs_tok M (fd_Clear api t k) \<and> fs_tview M (fd_Clear api t k) = (fs_tview M t)(k := None))"

lemma fdb_lawsD:
  assumes "fdb_laws api M"
  shows fdb_Transact_law: "fs_ok M s \<Longrightarrow> \<exists>t. fs_tok M t \<and> fs_tview M t = fs_view M s \<and>
        (\<forall>v t'. f t = Ret (Inr v, t') \<longrightarrow> fs_tok M t' \<longrightarrow>
           (\<exists>s'. fd_Transact api s f = Ret (Inr v, s') \<and> fs_ok M s' \<and> fs_view M s' = fs_tview M t'))"
    and fdb_Get_law: "fs_tok M t \<Longrightarrow> fd_Get api t k = Inr (fs_tview M t k)"
    and fdb_finite_law: "fs_tok M t \<Longrightarrow> finite (dom (fs_tview M t))"
    and fdb_GetRange_law: "fs_tok M t \<Longrightarrow> 0 \<le> n \<Longrightarrow> fd_GetRange api t a b n = map (\<lambda>k. Inr (fs_tview M t k)) (limited n (keys_between (fs_tview M t) a b))"
    and fdb_Set_law: "fs_tok M t \<Longrightarrow> fs_adm M k v \<Longrightarrow> fs_tok M (fd_Set api t k v) \<and> fs_tview M (fd_Set api t k v) = (fs_tview M t)(k \<mapsto> v)"
    and fdb_Clear_law: "fs_tok M t \<Longrightarrow> fs_tok M (fd_Clear api t k) \<and> fs_tview M (fd_Clear api t k) = (fs_tview M t)(k := None)"
  using assms unfolding fdb_laws_def by blast+

definition fdb_inv :: "('s, 't) fdb_api \<Rightarrow> ('s, 't) fdb_sem \<Rightarrow> 's fDB \<Rightarrow> bool" where
  "fdb_inv api M db \<longleftrightarrow> fdb_laws api M \<and> fs_ok M (fdb_db db) \<and> (\<exists>n. codec_ok (fdb_r db) n) \<and> kv_wf (fdb_r db) (fs_view M (fdb_db db))"

definition fdb_rows :: "('s, 't) fdb_sem \<Rightarrow> 's fDB \<Rightarrow> table" where
  "fdb_rows M db = kv_rows (fdb_r db) (fs_view M (fdb_db db))"

lemma fdb_invD:
  assumes "fdb_inv api M db"
  shows "fdb_laws api M" and "fs_ok M (fdb_db db)" and "kv_wf (fdb_r db) (fs_view M (fdb_db db))" and "\<exists>n. codec_ok (fdb_r db) n"
  using assms by (auto simp: fdb_inv_def)

lemma fdb_key [simp]: "fdb_getRowKey = getRowKey"
  by (simp add: fun_eq_iff fdb_getRowKey_def getRowKey_def)

text \<open>A transaction that succeeds on the snapshot is committed.\<close>

definition fdb_does :: "('s, 't) fdb_sem \<Rightarrow> 's fDB \<Rightarrow> ('t \<Rightarrow> ((error + fdb_val) \<times> 't) go) \<Rightarrow> fdb_val \<Rightarrow> (byte list \<rightharpoonup> byte list) \<Rightarrow> bool" where
  "fdb_does M db f v W \<longleftrightarrow> (\<forall>t. fs_tok M t \<longrightarrow> fs_tview M t = fs_view M (fdb_db db) \<longrightarrow>
     (\<exists>t'. f t = Ret (Inr v, t') \<and> fs_tok M t' \<and> fs_tview M t' = W))"

lemma fdb_commits:
  assumes "fdb_inv api M db" and "fdb_does M db f v W"
  shows "\<exists>s. fd_Transact api (fdb_db db) f = Ret (Inr v, s) \<and> fs_ok M s \<and> fs_view M s = W"
  using fdb_Transact_law [OF fdb_invD(1,2) [OF assms(1)], of f] assms(2) unfolding fdb_does_def by metis

lemma fdb_put_ok:
  assumes "fdb_inv api M db" and "plain_table t" and "row_wf (fdb_r db) bs"
    and "fdb_does M db f v ((fs_view M (fdb_db db))(getRowKey t k \<mapsto> bs))"
  shows "\<exists>db'. fdb_write api f db = Ret (None, db') \<and> fdb_inv api M db' \<and> fdb_r db' = fdb_r db
    \<and> fdb_rows M db' = (fdb_rows M db)((t, k) \<mapsto> row_of (fdb_r db) bs)"
proof -
  obtain s where "fd_Transact api (fdb_db db) f = Ret (Inr v, s)" "fs_ok M s" "fs_view M s = (fs_view M (fdb_db db))(getRowKey t k \<mapsto> bs)"
    using fdb_commits [OF assms(1,4)] by blast
  then show ?thesis using assms(1-3) by (auto simp: fdb_write_def fdb_inv_def fdb_rows_def kv_rows_upd intro: kv_wf_upd)
qed

lemma fdb_Insert_ok:
  assumes "fdb_inv api M db" and "plain_table t" and "row_fits (fdb_r db) vs" and "row_accepts (fs_adm M) t k (map_of vs)"
  shows "\<exists>db'. fdb_Insert api db t k vs = Ret (None, db') \<and> fdb_inv api M db' \<and> fdb_r db' = fdb_r db
    \<and> fdb_rows M db' = (fdb_rows M db)((t, k) \<mapsto> map_of vs)"
proof -
  obtain bs where bs: "RowCodec_Encode (fdb_r db) [] vs = Inr bs" "fs_adm M (getRowKey t k) bs" "row_wf (fdb_r db) bs" "row_of (fdb_r db) bs = map_of vs"
    using encode_accepted [OF _ assms(3,4)] fdb_invD(4) [OF assms(1)] by blast
  have "fdb_does M db (\<lambda>tr. Ret (Inr FNil, fd_Set api tr (getRowKey t k) bs)) FNil ((fs_view M (fdb_db db))(getRowKey t k \<mapsto> bs))"
    using fdb_Set_law [OF fdb_invD(1) [OF assms(1)] _ bs(2)] by (simp add: fdb_does_def)
  from fdb_put_ok [OF assms(1,2) bs(3) this] show ?thesis using bs(1,4) by (simp add: fdb_Insert_def)
qed

lemma fdb_Update_ok:
  assumes "fdb_inv api M db" and "plain_table t" and "row_fits (fdb_r db) vs" and "fdb_rows M db (t, k) = Some m"
    and "row_accepts (fs_adm M) t k (m ++ map_of vs)"
  shows "\<exists>db'. fdb_Update api db t k vs = Ret (None, db') \<and> fdb_inv api M db' \<and> fdb_r db' = fdb_r db
    \<and> fdb_rows M db' = (fdb_rows M db)((t, k) \<mapsto> m ++ map_of vs)"
proof -
  note L = fdb_invD(1) [OF assms(1)]
  obtain n where n: "codec_ok (fdb_r db) n" using fdb_invD(4) [OF assms(1)] by blast
  obtain old where old: "fs_view M (fdb_db db) (getRowKey t k) = Some old" "row_wf (fdb_r db) old" "row_of (fdb_r db) old = m"
    using kv_stored [OF fdb_invD(3) [OF assms(1)] assms(2)] assms(4) by (auto simp: fdb_rows_def)
  obtain data bs where d: "RowCodec_Decode (fdb_r db) old [] = Ret (Inr data)"
      "RowCodec_Encode (fdb_r db) [] (merge_fields data vs) = Inr bs" "fs_adm M (getRowKey t k) bs" "row_wf (fdb_r db) bs"
      "row_of (fdb_r db) bs = m ++ map_of vs"
    using merge_accepted [OF n old(2) assms(3)] assms(5) old(3) by blast
  have "fdb_does M db (fdb_update_tx api (fdb_r db) (getRowKey t k) vs) FNil ((fs_view M (fdb_db db))(getRowKey t k \<mapsto> bs))"
    using fdb_Set_law [OF L _ d(3)] fdb_Get_law [OF L] old(1) d(1,2) by (simp add: fdb_does_def fdb_update_tx_def)
  from fdb_put_ok [OF assms(1,2) d(4) this] show ?thesis using d(5) by (simp add: fdb_Update_def)
qed

lemma fdb_Delete_ok:
  assumes "fdb_inv api M db" and "plain_table t"
  shows "\<exists>db'. fdb_Delete api db t k = Ret (None, db') \<and> fdb_inv api M db' \<and> fdb_r db' = fdb_r db
    \<and> fdb_rows M db' = (fdb_rows M db)((t, k) := None)"
proof -
  have "fdb_does M db (\<lambda>tr. Ret (Inr FNil, fd_Clear api tr (getRowKey t k))) FNil ((fs_view M (fdb_db db))(getRowKey t k := None))"
    using fdb_Clear_law [OF fdb_invD(1) [OF assms(1)]] by (simp add: fdb_does_def)
  from fdb_commits [OF assms(1) this] obtain s where "fd_Transact api (fdb_db db) (\<lambda>tr. Ret (Inr FNil, fd_Clear api tr (getRowKey t k))) = Ret (Inr FNil, s)"
      "fs_ok M s" "fs_view M s = (fs_view M (fdb_db db))(getRowKey t k := None)" by blast
  then show ?thesis using assms by (auto simp: fdb_Delete_def fdb_write_def fdb_inv_def fdb_rows_def kv_rows_upd intro: kv_wf_upd)
qed

text \<open>A missing row is read as the row without fields.\<close>

lemma fdb_Read_ok:
  assumes "fdb_inv api M db" and "plain_table t" and "set fs \<subseteq> set (codec_fields (fdb_r db))"
    and "m = (case fdb_rows M db (t, k) of Some m \<Rightarrow> m | None \<Rightarrow> Map.empty)"
  shows "\<exists>res db'. fdb_Read api db t k fs = Ret (Inr (Some res), db') \<and> fdb_inv api M db' \<and> fdb_r db' = fdb_r db \<and> fdb_rows M db' = fdb_rows M db
    \<and> map_of res = (if fs = [] then m else m |` set fs) \<and> distinct (map fst res)"
proof -
  note I = fdb_invD [OF assms(1)]
  define bs where "bs = (case fs_view M (fdb_db db) (getRowKey t k) of Some v \<Rightarrow> v | None \<Rightarrow> [])"
  have bs: "row_wf (fdb_r db) bs \<and> row_of (fdb_r db) bs = m"
  proof (cases "fs_view M (fdb_db db) (getRowKey t k)")
    case None
    then show ?thesis using assms(2,4) by (simp add: bs_def fdb_rows_def kv_rows_def row_wf_def row_of_def DecodeRow_def ran_def)
  next
    case (Some v)
    then show ?thesis using assms(2,4) I(3) by (auto simp: bs_def fdb_rows_def kv_rows_def kv_wf_def intro: ranI)
  qed
  have "fdb_does M db (fdb_read_tx api (getRowKey t k)) (FBytes bs) (fs_view M (fdb_db db))"
    using fdb_Get_law [OF I(1)] by (simp add: fdb_does_def fdb_read_tx_def bs_def split: option.split)
  from fdb_commits [OF assms(1) this] obtain s where s: "fd_Transact api (fdb_db db) (fdb_read_tx api (getRowKey t k)) = Ret (Inr (FBytes bs), s)"
      "fs_ok M s" "fs_view M s = fs_view M (fdb_db db)" by blast
  obtain res where "RowCodec_Decode (fdb_r db) bs fs = Ret (Inr res)" "map_of res = (if fs = [] then m else m |` set fs)" "distinct (map fst res)"
    using decode_row [OF _ assms(3), of bs] bs by auto
  then show ?thesis using s assms(1) by (auto simp: fdb_Read_def Let_def fdb_inv_def fdb_rows_def)
qed

interpretation fdb: row_db "fdb_ycsb api" "fdb_inv api M" "fdb_rows M" "\<lambda>db. set (codec_fields (fdb_r db))" plain_table "row_accepts (fs_adm M)" for api M
proof (unfold_locales, goal_cases)
  case (1 d t v k)
  then show ?case using fdb_Insert_ok [OF 1(1,2) _ 1(4)] by (auto simp: fdb_ycsb_def row_ok_fits)
next
  case (2 d t v k m)
  then show ?case using fdb_Update_ok [OF 2(1,2), of v k m] by (auto simp: fdb_ycsb_def row_ok_fits)
next
  case (3 d t k m)
  then show ?case using fdb_Delete_ok [OF 3(1,2), of k] by (auto simp: fdb_ycsb_def)
next
  case (4 d t fs k m)
  then show ?case using fdb_Read_ok [OF 4(1-3) refl, of k] by (auto simp: fdb_ycsb_def map_res_def nil_row_def)
qed

section \<open>Scans\<close>

text \<open>The keys between the two bounds of a scan are those of its table.\<close>

lemma between_prefix:
  fixes p x b :: "'a :: linorder list"
  assumes "p @ c # x \<le> b" and "b < p @ [d]" and "\<And>e. e < d \<Longrightarrow> e \<le> c" and "c < d"
  shows "\<exists>y. b = p @ c # y"
  using assms(1,2)
proof (induction p arbitrary: b)
  case Nil
  then obtain e y where b: "b = e # y" by (cases b) auto
  then have "c \<le> e" "e < d" using Nil by auto
  then show ?case using assms(3) b by fastforce
next
  case (Cons a p)
  then obtain b' where "b = a # b'" "p @ c # x \<le> b'" "b' < p @ [d]" by (cases b) auto
  then show ?case using Cons.IH by auto
qed

lemma prefix_below_end:
  fixes p y :: "'a :: linorder list"
  shows "c < d \<Longrightarrow> p @ c # y < p @ [d]"
  by (induction p) auto

definition table_prefix :: "string \<Rightarrow> byte list" where
  "table_prefix t = bytes_of (t @ '':'')"

definition of_table :: "string \<Rightarrow> byte list \<Rightarrow> bool" where
  "of_table t b \<longleftrightarrow> take (length (table_prefix t)) b = table_prefix t"

lemma scan_bounds:
  assumes "getRowKey t k \<le> b"
  shows "b < fdb_getEndRowKey t \<longleftrightarrow> of_table t b"
proof
  have split: "getRowKey t k = bytes_of t @ 58 # bytes_of k" "fdb_getEndRowKey t = bytes_of t @ [59]" "table_prefix t = bytes_of t @ [58]"
    by (simp_all add: getRowKey_def fdb_getEndRowKey_def table_prefix_def bytes_of_def)
  have step: "e \<le> 58" if "e < (59 :: byte)" for e using that by (simp add: word_less_nat_alt word_le_nat_alt)
  show "of_table t b" if e: "b < fdb_getEndRowKey t"
  proof -
    from between_prefix [OF assms [unfolded split] e [unfolded split] step] have "\<exists>y. b = bytes_of t @ 58 # y" by simp
    then show ?thesis by (auto simp: of_table_def split)
  qed
  show "b < fdb_getEndRowKey t" if "of_table t b"
  proof -
    have "b = take (length (table_prefix t)) b @ drop (length (table_prefix t)) b" by simp
    also have "\<dots> = table_prefix t @ drop (length (table_prefix t)) b" using that by (simp add: of_table_def)
    finally have "b = bytes_of t @ 58 # drop (length (table_prefix t)) b" by (simp add: split)
    then show ?thesis using prefix_below_end [of "58 :: byte" 59 "bytes_of t" "drop (length (table_prefix t)) b"] by (simp add: split(2))
  qed
qed

lemma fdb_scan_loop_ok:
  assumes "\<forall>k\<in>set ks. \<exists>bs. m k = Some bs \<and> row_wf r bs" and "set fs \<subseteq> set (codec_fields r)"
  shows "\<exists>ms. fdb_scan_loop r fs (map (\<lambda>k. Inr (m k)) ks) = Ret (Inr ms)
    \<and> list_all2 (\<lambda>k x. \<exists>res. x = Some res \<and> map_of res = select_all key (row_of r (the (m k))) fs) ks ms"
  using assms(1)
proof (induction ks)
  case (Cons k ks)
  obtain bs where bs: "m k = Some bs" "row_wf r bs" using Cons.prems by auto
  obtain res where "RowCodec_Decode r bs fs = Ret (Inr res)" "map_of res = select_all key (row_of r bs) fs"
    using decode_row [OF bs(2) assms(2)] by (auto simp: select_all_def)
  moreover obtain ms where "fdb_scan_loop r fs (map (\<lambda>k. Inr (m k)) ks) = Ret (Inr ms)"
      "list_all2 (\<lambda>k x. \<exists>res. x = Some res \<and> map_of res = select_all key (row_of r (the (m k))) fs) ks ms"
    using Cons.IH Cons.prems by auto
  ultimately show ?case using bs(1) by auto
qed simp

text \<open>An engine in memory: the transaction works on a copy, which a commit puts in the place of the store.\<close>

type_synonym mem_fdb = "(byte list \<times> byte list) list"

definition mem_fdb_transact :: "mem_fdb \<Rightarrow> (mem_fdb \<Rightarrow> ((error + fdb_val) \<times> mem_fdb) go) \<Rightarrow> ((error + fdb_val) \<times> mem_fdb) go" where
  "mem_fdb_transact s f = gbind (f s) (\<lambda>(res, t). Ret (res, case res of Inl _ \<Rightarrow> s | Inr _ \<Rightarrow> t))"

definition mem_fdb_api :: "(mem_fdb, mem_fdb) fdb_api" where
  "mem_fdb_api =
     \<lparr>fd_Transact = mem_fdb_transact, fd_Get = (\<lambda>t k. Inr (map_of t k)),
      fd_GetRange = (\<lambda>t a b n. map (\<lambda>k. Inr (map_of t k)) (limited n (filter (\<lambda>k. a \<le> k \<and> k < b) (sort (remdups (map fst t)))))),
      fd_Set = (\<lambda>t k v. AList.update k v t), fd_Clear = (\<lambda>t k. AList.delete k t)\<rparr>"

definition mem_fdb_sem :: "(mem_fdb, mem_fdb) fdb_sem" where
  "mem_fdb_sem = \<lparr>fs_ok = (\<lambda>s. True), fs_view = map_of, fs_tok = (\<lambda>t. True), fs_tview = map_of, fs_adm = (\<lambda>k v. True)\<rparr>"

lemma keys_between_map_of: "keys_between (map_of s) a b = filter (\<lambda>k. a \<le> k \<and> k < b) (sort (remdups (map fst s)))"
proof -
  let ?l = "filter (\<lambda>k. a \<le> k \<and> k < b) (sort (remdups (map fst s)))"
  have set: "{k \<in> dom (map_of s). a \<le> k \<and> k < b} = set ?l" by (auto simp: dom_map_of_conv_image_fst)
  have "sorted ?l" by (rule sorted_wrt_filter) simp
  then show ?thesis unfolding keys_between_def set
    by (intro linorder_class.sorted_list_of_set.idem_if_sorted_distinct) simp_all
qed

lemma mem_fdb_laws: "fdb_laws mem_fdb_api mem_fdb_sem"
  by (auto simp: fdb_laws_def mem_fdb_api_def mem_fdb_sem_def mem_fdb_transact_def keys_between_map_of finite_dom_map_of update_conv' delete_conv')

section \<open>Properties\<close>

text \<open>
  C32. \<open>Scan\<close> of the FoundationDB adapter returns rows of its own table only: the rows at the first stored keys of the table, in byte order, that are
  not below the start key, at most as many as asked for and without padding; a count of 0 asks for all of them. A missing row is read as a row without
  fields, not as nil, and an update of it succeeds without writing anything.
\<close>

theorem fdb_scan_and_missing_rows:
  assumes "fdb_inv api M db" and "plain_table t" and "0 \<le> cnt" and "set fs \<subseteq> set (codec_fields (fdb_r db))"
    and "ks = sorted_list_of_set {b \<in> dom (fs_view M (fdb_db db)). getRowKey t startKey \<le> b \<and> of_table t b}"
    and "fdb_rows M db (t, key) = None"
  shows "(\<exists>rs db'. fdb_Scan api db t startKey cnt fs = Ret (Inr rs, db') \<and> fdb_rows M db' = fdb_rows M db
      \<and> list_all2 (\<lambda>k r. \<exists>res. r = Some res \<and> map_of res = select_all k' (row_of (fdb_r db) (the (fs_view M (fdb_db db) k))) fs) (limited cnt ks) rs)
    \<and> (\<exists>db'. fdb_Read api db t key fs = Ret (Inr (Some []), db'))
    \<and> (\<exists>db'. fdb_Update api db t key vs = Ret (None, db') \<and> fdb_rows M db' = fdb_rows M db)"
proof -
  note I = fdb_invD [OF assms(1)]
  let ?v = "fs_view M (fdb_db db)"
  obtain tr where fin: "finite (dom ?v)" using fdb_Transact_law [OF I(1,2)] fdb_finite_law [OF I(1)] by metis
  have ks: "keys_between ?v (getRowKey t startKey) (fdb_getEndRowKey t) = ks"
    unfolding keys_between_def assms(5) by (rule arg_cong [where f = sorted_list_of_set]) (auto simp: scan_bounds)
  have "set (limited cnt ks) \<subseteq> dom ?v"
  proof -
    have "set ks \<subseteq> dom ?v" unfolding assms(5) using fin by auto
    then show ?thesis using set_take_subset [of "nat cnt" ks] by (auto simp: limited_def)
  qed
  then have wf: "\<forall>k\<in>set (limited cnt ks). \<exists>bs. ?v k = Some bs \<and> row_wf (fdb_r db) bs" using I(3) by (force simp: kv_wf_def intro: ranI)
  obtain ms where ms: "fdb_scan_loop (fdb_r db) fs (map (\<lambda>k. Inr (?v k)) (limited cnt ks)) = Ret (Inr ms)"
      "list_all2 (\<lambda>k x. \<exists>res. x = Some res \<and> map_of res = select_all k' (row_of (fdb_r db) (the (?v k))) fs) (limited cnt ks) ms"
    using fdb_scan_loop_ok [OF wf assms(4)] by blast
  have "fdb_does M db (fdb_scan_tx api (fdb_r db) (getRowKey t startKey) (fdb_getEndRowKey t) cnt fs) (FRows ms) ?v"
    using fdb_GetRange_law [OF I(1) _ assms(3)] ms(1) assms(3) by (simp add: fdb_does_def fdb_scan_tx_def ks)
  from fdb_commits [OF assms(1) this] have scan: "\<exists>rs db'. fdb_Scan api db t startKey cnt fs = Ret (Inr rs, db') \<and> fdb_rows M db' = fdb_rows M db
      \<and> list_all2 (\<lambda>k r. \<exists>res. r = Some res \<and> map_of res = select_all k' (row_of (fdb_r db) (the (?v k))) fs) (limited cnt ks) rs"
    using ms(2) by (auto simp: fdb_Scan_def Let_def fdb_rows_def)
  obtain res db' where "fdb_Read api db t key fs = Ret (Inr (Some res), db')" "map_of res = Map.empty"
    using fdb_Read_ok [OF assms(1,2,4), of Map.empty key] assms(6) by (auto split: if_splits)
  then have read: "\<exists>db'. fdb_Read api db t key fs = Ret (Inr (Some []), db')" by auto
  have "?v (getRowKey t key) = None" using assms(2,6) by (auto simp: fdb_rows_def kv_rows_def)
  then have "fdb_does M db (fdb_update_tx api (fdb_r db) (getRowKey t key) vs) FNil ?v"
    using fdb_Get_law [OF I(1)] by (simp add: fdb_does_def fdb_update_tx_def)
  from fdb_commits [OF assms(1) this] have "\<exists>db'. fdb_Update api db t key vs = Ret (None, db') \<and> fdb_rows M db' = fdb_rows M db"
    by (auto simp: fdb_Update_def fdb_write_def fdb_rows_def)
  with scan read show ?thesis by blast
qed

definition sample_fdb :: "mem_fdb fDB" where
  "sample_fdb = \<lparr>fdb_db = [(getRowKey ''a'' ''k'', [0]), (getRowKey ''b'' ''k'', [0])],
     fdb_r = \<lparr>fieldIndices = [(''field0'', 0)], codec_fields = [''field0'']\<rparr>\<rparr>"

text \<open>A scan of table \<open>a\<close> returns its only row and not the one of table \<open>b\<close>.\<close>

theorem fdb_scan_and_missing_rows_witness:
  "\<exists>rs db'. fdb_Scan mem_fdb_api sample_fdb ''a'' ''k'' 3 [] = Ret (Inr rs, db') \<and> length rs = 1"
proof -
  have wf: "row_wf (fdb_r sample_fdb) [0]" by (simp add: row_wf_def row_of_def DecodeRow_def ran_def)
  have "NewRowCodec (props_of [(''fieldcount'', 1)] []) = Ret (fdb_r sample_fdb)"
    by (simp add: NewRowCodec_def allFields_def createFieldIndices_def prop_defs upto.simps sample_fdb_def Let_def)
  then have "\<exists>n. codec_ok (fdb_r sample_fdb) n" using NewRowCodec_codec_ok [of "props_of [(''fieldcount'', 1)] []"] by (auto simp: prop_defs)
  then have i: "fdb_inv mem_fdb_api mem_fdb_sem sample_fdb"
    using wf mem_fdb_laws by (auto simp: fdb_inv_def mem_fdb_sem_def sample_fdb_def kv_wf_def ran_def split: if_splits)
  have k: "sorted_list_of_set {b \<in> dom (fs_view mem_fdb_sem (fdb_db sample_fdb)). getRowKey ''a'' ''k'' \<le> b \<and> of_table ''a'' b} = [getRowKey ''a'' ''k'']"
  proof -
    have "{b \<in> dom (fs_view mem_fdb_sem (fdb_db sample_fdb)). getRowKey ''a'' ''k'' \<le> b \<and> of_table ''a'' b} = {getRowKey ''a'' ''k''}"
      by (auto simp: mem_fdb_sem_def sample_fdb_def of_table_def table_prefix_def getRowKey_def bytes_of_def split: if_splits)
    then show ?thesis by simp
  qed
  have n: "fdb_rows mem_fdb_sem sample_fdb (''a'', ''c'') = None"
    by (simp add: fdb_rows_def kv_rows_def plain_table_def mem_fdb_sem_def sample_fdb_def getRowKey_def)
  have "plain_table ''a''" "0 \<le> (3 :: int)" "set [] \<subseteq> set (codec_fields (fdb_r sample_fdb))" by (simp_all add: plain_table_def)
  from fdb_scan_and_missing_rows [OF i this k [symmetric] n] obtain rs db' where
    "fdb_Scan mem_fdb_api sample_fdb ''a'' ''k'' 3 [] = Ret (Inr rs, db')" "length (limited 3 [getRowKey ''a'' ''k'']) = length rs"
    using list_all2_lengthD by blast
  then show ?thesis by (auto simp: limited_def)
qed

end
