(* ===== verification/Json.thy ===== *)
theory Json
  imports RowStore GoStrings
begin

text \<open>
  What the adapters use of \<open>encoding/json\<close> and \<open>encoding/base64\<close>: a map from strings to byte slices as a JSON object, keys sorted and values in base64, and its reader. The reader
  takes objects whose values are strings or \<open>null\<close> and whose escapes are of ASCII characters; what it returns for other texts stands for the error of the library,
  whose message is not modelled. A nil slice is the slice without bytes.
\<close>

section \<open>Base64\<close>

definition b64_alphabet :: string where
  "b64_alphabet = ''ABCDEFGHIJKLMNOPQRSTUVWXYZabcdefghijklmnopqrstuvwxyz0123456789+/''"

definition b64_char :: "nat \<Rightarrow> char" where
  "b64_char n = b64_alphabet ! n"

definition b64_value :: "char \<Rightarrow> nat option" where
  "b64_value c = map_of (zip b64_alphabet [0..<64]) c"

fun b64_encode :: "byte list \<Rightarrow> string" where
  "b64_encode [] = []"
| "b64_encode [a] = (let n = unat a * 16 in [b64_char (n div 64), b64_char (n mod 64), CHR ''='', CHR ''=''])"
| "b64_encode [a, b] =
     (let n = (unat a * 256 + unat b) * 4 in [b64_char (n div 4096), b64_char (n div 64 mod 64), b64_char (n mod 64), CHR ''=''])"
| "b64_encode (a # b # c # bs) =
     (let n = (unat a * 256 + unat b) * 256 + unat c in
      b64_char (n div 262144) # b64_char (n div 4096 mod 64) # b64_char (n div 64 mod 64) # b64_char (n mod 64) # b64_encode bs)"

text \<open>Quanta of four characters; the last one may be padded, and the bits under the padding are ignored.\<close>

fun b64_quanta :: "string \<Rightarrow> byte list option" where
  "b64_quanta [] = Some []"
| "b64_quanta (c1 # c2 # c3 # c4 # cs) =
     (case (b64_value c1, b64_value c2) of
        (Some w, Some x) \<Rightarrow>
          if c3 = CHR ''='' then (if c4 = CHR ''='' \<and> cs = [] then Some [of_nat ((w * 64 + x) div 16)] else None)
          else (case b64_value c3 of
                  None \<Rightarrow> None
                | Some y \<Rightarrow>
                    if c4 = CHR ''='' then
                      (if cs = [] then let n = ((w * 64 + x) * 64 + y) div 4 in Some [of_nat (n div 256), of_nat (n mod 256)] else None)
                    else (case (b64_value c4, b64_quanta cs) of
                            (Some z, Some bs) \<Rightarrow> let n = ((w * 64 + x) * 64 + y) * 64 + z in
                              Some (of_nat (n div 65536) # of_nat (n div 256 mod 256) # of_nat (n mod 256) # bs)
                          | _ \<Rightarrow> None))
      | _ \<Rightarrow> None)"
| "b64_quanta cs = None"

definition b64_decode :: "string \<Rightarrow> byte list option" where
  "b64_decode s = b64_quanta (filter (\<lambda>c. c \<noteq> CHR 0x0A \<and> c \<noteq> CHR 0x0D) s)"

section \<open>Strings and objects\<close>

definition hex_digit :: "nat \<Rightarrow> char" where
  "hex_digit n = ''0123456789abcdef'' ! n"

definition json_char :: "char \<Rightarrow> string" where
  "json_char c =
     (if c = CHR 0x22 then [CHR 0x5C, CHR 0x22] else if c = CHR 0x5C then [CHR 0x5C, CHR 0x5C]
      else if c = CHR 0x0A then [CHR 0x5C, CHR ''n''] else if c = CHR 0x0D then [CHR 0x5C, CHR ''r''] else if c = CHR 0x09 then [CHR 0x5C, CHR ''t'']
      else if (of_char c :: nat) < 32 \<or> c = CHR ''<'' \<or> c = CHR ''>'' \<or> c = CHR ''&'' then
        [CHR 0x5C, CHR ''u'', CHR ''0'', CHR ''0'', hex_digit (of_char c div 16), hex_digit (of_char c mod 16)]
      else [c])"

definition json_string :: "string \<Rightarrow> string" where
  "json_string s = CHR 0x22 # concat (map json_char s) @ [CHR 0x22]"

definition json_member :: "string \<times> byte list \<Rightarrow> string" where
  "json_member kv = json_string (fst kv) @ '':'' @ CHR 0x22 # b64_encode (snd kv) @ [CHR 0x22]"

definition json_Marshal :: "row \<Rightarrow> string" where
  "json_Marshal m = ''{'' @ join_with '','' (map json_member (sort_key fst m)) @ ''}''"

section \<open>The reader\<close>

definition json_space :: "char \<Rightarrow> bool" where
  "json_space c \<longleftrightarrow> c = CHR '' '' \<or> c = CHR 0x09 \<or> c = CHR 0x0A \<or> c = CHR 0x0D"

definition json_skip :: "string \<Rightarrow> string" where
  "json_skip s = dropWhile json_space s"

definition hex_value :: "char \<Rightarrow> nat option" where
  "hex_value c = map_of (zip ''0123456789abcdefABCDEF'' ([0..<16] @ [10..<16])) c"

definition json_escapes :: "(char \<times> char) list" where
  "json_escapes = [(CHR 0x22, CHR 0x22), (CHR 0x5C, CHR 0x5C), (CHR ''/'', CHR ''/''), (CHR ''b'', CHR 0x08), (CHR ''f'', CHR 0x0C),
     (CHR ''n'', CHR 0x0A), (CHR ''r'', CHR 0x0D), (CHR ''t'', CHR 0x09)]"

definition json_u :: "string \<Rightarrow> char option" where
  "json_u h = (case map hex_value h of
     [Some a, Some b, Some c, Some d] \<Rightarrow> let n = ((a * 16 + b) * 16 + c) * 16 + d in if n < 128 then Some (char_of n) else None
   | _ \<Rightarrow> None)"

text \<open>The rest of a string after its opening quote: its contents, and the text after the closing quote.\<close>

function json_rest :: "string \<Rightarrow> (string \<times> string) option" where
  "json_rest [] = None"
| "json_rest (c # cs) =
     (if c = CHR 0x22 then Some ([], cs)
      else if (of_char c :: nat) < 32 then None
      else if c = CHR 0x5C then
        (case cs of
           [] \<Rightarrow> None
         | e # cs1 \<Rightarrow>
             if e = CHR ''u'' then
               (case json_u (take 4 cs1) of None \<Rightarrow> None | Some d \<Rightarrow> map_option (apfst (Cons d)) (json_rest (drop 4 cs1)))
             else (case map_of json_escapes e of None \<Rightarrow> None | Some d \<Rightarrow> map_option (apfst (Cons d)) (json_rest cs1)))
      else map_option (apfst (Cons c)) (json_rest cs))"
  by pat_completeness auto
termination
  by (relation "measure length") (auto simp: le_imp_less_Suc)

definition json_text :: "string \<Rightarrow> (string \<times> string) option" where
  "json_text s = (case s of c # cs \<Rightarrow> if c = CHR 0x22 then json_rest cs else None | [] \<Rightarrow> None)"

definition json_bytes :: "string \<Rightarrow> (byte list \<times> string) option" where
  "json_bytes s =
     (if take 4 s = ''null'' then Some ([], drop 4 s)
      else case json_text s of None \<Rightarrow> None | Some (v, r) \<Rightarrow> map_option (\<lambda>bs. (bs, r)) (b64_decode v))"

definition expect :: "char \<Rightarrow> string \<Rightarrow> string option" where
  "expect c s = (case json_skip s of x # xs \<Rightarrow> if x = c then Some xs else None | [] \<Rightarrow> None)"

text \<open>The members of an object, from the key of one on, into the map read so far; a key that comes again replaces its value.\<close>

function json_members :: "string \<Rightarrow> row \<Rightarrow> (row \<times> string) option" where
  "json_members s m =
     (case json_text (json_skip s) of
        None \<Rightarrow> None
      | Some (k, s1) \<Rightarrow>
          (case Option.bind (expect (CHR '':'') s1) (\<lambda>s2. json_bytes (json_skip s2)) of
             None \<Rightarrow> None
           | Some (v, s3) \<Rightarrow>
               let m' = AList.update k v m in
               if length s \<le> length s3 then None
               else case json_skip s3 of
                      [] \<Rightarrow> None
                    | c # s4 \<Rightarrow> if c = CHR '','' then json_members s4 m' else if c = CHR ''}'' then Some (m', s4) else None))"
  by pat_completeness auto
termination
  by (relation "measure (length \<circ> fst)") (auto simp: json_skip_def dest!: arg_cong [where f = length], metis le_less_trans length_dropWhile_le less_Suc_eq not_le order_less_trans length_Cons)

definition json_object :: "string \<Rightarrow> (row \<times> string) option" where
  "json_object s =
     (if take 4 (json_skip s) = ''null'' then Some ([], drop 4 (json_skip s))
      else Option.bind (expect (CHR ''{'') s) (\<lambda>s1. case expect (CHR ''}'') s1 of Some s2 \<Rightarrow> Some ([], s2) | None \<Rightarrow> json_members s1 []))"

text \<open>\<open>json.Unmarshal\<close> wants nothing but space after the object; \<open>Decoder.Decode\<close> reads one value and leaves the rest.\<close>

definition json_Unmarshal :: "string \<Rightarrow> error + row" where
  "json_Unmarshal s =
     (case json_object s of Some (m, r) \<Rightarrow> if json_skip r = [] then Inr m else Inl ''invalid character after top-level value'' | None \<Rightarrow> Inl ''invalid JSON'')"

definition json_Decode :: "string \<Rightarrow> error + row" where
  "json_Decode s = (case json_object s of Some (m, r) \<Rightarrow> Inr m | None \<Rightarrow> Inl ''invalid JSON'')"

section \<open>Reading what was written\<close>

definition b64_plain :: "char \<Rightarrow> bool" where
  "b64_plain c \<longleftrightarrow> c \<noteq> CHR 0x22 \<and> c \<noteq> CHR 0x5C \<and> c \<noteq> CHR 0x0A \<and> c \<noteq> CHR 0x0D \<and> 32 \<le> (of_char c :: nat)"

lemma b64_char_table: "n < 64 \<Longrightarrow> b64_value (b64_char n) = Some n \<and> b64_char n \<noteq> CHR ''='' \<and> b64_plain (b64_char n)"
proof -
  have "list_all (\<lambda>n. b64_value (b64_char n) = Some n \<and> b64_char n \<noteq> CHR ''='' \<and> b64_plain (b64_char n)) [0..<64]" by code_simp
  then show "n < 64 \<Longrightarrow> ?thesis" by (simp add: list_all_iff)
qed

lemma b64_char_simps [simp]:
  "n < 64 \<Longrightarrow> b64_value (b64_char n) = Some n" "n < 64 \<Longrightarrow> b64_char n \<noteq> CHR ''=''" "n < 64 \<Longrightarrow> b64_plain (b64_char n)" "b64_plain (CHR ''='')"
  using b64_char_table by (auto simp: b64_plain_def)

lemma byte_bound [simp]: "unat (a :: byte) < 256"
proof -
  have "unat a < 2 ^ LENGTH(8)" by (rule unsigned_less)
  then show ?thesis by simp
qed

lemma base64_digits:
  fixes n :: nat
  shows "((n div 262144 * 64 + n div 4096 mod 64) * 64 + n div 64 mod 64) * 64 + n mod 64 = n"
    and "(n div 4096 * 64 + n div 64 mod 64) * 64 + n mod 64 = n" and "n div 64 * 64 + n mod 64 = n"
proof -
  have d: "n div 4096 = n div 64 div 64" "n div 262144 = n div 4096 div 64" by (simp_all add: div_mult2_eq [symmetric])
  show "n div 64 * 64 + n mod 64 = n" by simp
  show "(n div 4096 * 64 + n div 64 mod 64) * 64 + n mod 64 = n" unfolding d(1) by simp
  show "((n div 262144 * 64 + n div 4096 mod 64) * 64 + n div 64 mod 64) * 64 + n mod 64 = n" unfolding d by simp
qed

lemma bytes_of_triple:
  fixes a b c :: byte
  shows "of_nat (((unat a * 256 + unat b) * 256 + unat c) div 65536) = a" "of_nat (((unat a * 256 + unat b) * 256 + unat c) div 256 mod 256) = b"
    "of_nat (((unat a * 256 + unat b) * 256 + unat c) mod 256) = c"
proof -
  define x y z where w: "x = unat a" "y = unat b" "z = unat c"
  have b: "y < 256" "z < 256" and o: "of_nat x = a" "of_nat y = b" "of_nat z = c" by (simp_all add: w)
  have "((x * 256 + y) * 256 + z) div 65536 = x" "((x * 256 + y) * 256 + z) div 256 mod 256 = y" "((x * 256 + y) * 256 + z) mod 256 = z"
  proof -
    have "((x * 256 + y) * 256 + z) div 256 = x * 256 + y" using b(2) by simp
    moreover have "((x * 256 + y) * 256 + z) div 65536 = ((x * 256 + y) * 256 + z) div 256 div 256" by (simp only: div_mult2_eq [symmetric]) simp
    ultimately show "((x * 256 + y) * 256 + z) div 65536 = x" "((x * 256 + y) * 256 + z) div 256 mod 256 = y" using b(1) by simp_all
    show "((x * 256 + y) * 256 + z) mod 256 = z" using b(2) by (simp only: mod_mult_self3) simp
  qed
  then show "of_nat (((unat a * 256 + unat b) * 256 + unat c) div 65536) = a" "of_nat (((unat a * 256 + unat b) * 256 + unat c) div 256 mod 256) = b"
    "of_nat (((unat a * 256 + unat b) * 256 + unat c) mod 256) = c" by (simp_all only: o flip: w)
qed

lemma bytes_of_pair:
  fixes a b :: byte
  shows "of_nat ((unat a * 256 + unat b) div 256) = a" "of_nat ((unat a * 256 + unat b) mod 256) = b"
  using byte_bound [of b] by (simp_all del: of_nat_add of_nat_mult)

lemma pair_bound: "x < 256 \<Longrightarrow> y < 256 \<Longrightarrow> 1024 * x + y * 4 < (262144 :: nat)"
  by linarith

lemma triple_bound: "x < 256 \<Longrightarrow> y < 256 \<Longrightarrow> z < 256 \<Longrightarrow> 65536 * x + y * 256 + z < (16777216 :: nat)"
  by linarith

lemma b64_quanta_encode: "b64_quanta (b64_encode bs) = Some bs"
proof (induction bs rule: b64_encode.induct)
  case (2 a)
  define n where n: "n = unat a * 16"
  have "n div 64 < 64" using byte_bound [of a] by (intro less_mult_imp_div_less) (simp add: n)
  moreover have "of_nat (n div 16) = a" by (simp add: n)
  ultimately show ?case unfolding b64_encode.simps n [symmetric] Let_def by simp
next
  case (3 a b)
  define n where n: "n = (unat a * 256 + unat b) * 4"
  have "n div 4096 < 64" using pair_bound [OF byte_bound byte_bound, of a b] by (intro less_mult_imp_div_less) (simp add: n)
  moreover have "of_nat (n div 4 div 256) = a" "of_nat (n div 4 mod 256) = b" using bytes_of_pair [of a b] by (simp_all add: n)
  ultimately show ?case using base64_digits(2) [of n] unfolding b64_encode.simps n [symmetric] Let_def by (simp add: Let_def)
next
  case (4 a b c bs)
  define n where n: "n = (unat a * 256 + unat b) * 256 + unat c"
  have "n div 262144 < 64" using triple_bound [OF byte_bound byte_bound byte_bound, of a b c] by (intro less_mult_imp_div_less) (simp add: n)
  then show ?case using 4 base64_digits(1) [of n] bytes_of_triple [of a b c]
    unfolding b64_encode.simps n [symmetric] Let_def by (simp add: Let_def)
qed simp

lemma b64_encode_plain: "list_all b64_plain (b64_encode bs)"
proof (induction bs rule: b64_encode.induct)
  case (2 a)
  have "unat a * 16 div 64 < 64" using byte_bound [of a] by (intro less_mult_imp_div_less) simp
  then show ?case by (simp add: Let_def)
next
  case (3 a b)
  have "(unat a * 256 + unat b) * 4 div 4096 < 64" using pair_bound [OF byte_bound byte_bound, of a b] by (intro less_mult_imp_div_less) simp
  then show ?case by (simp add: Let_def)
next
  case (4 a b c bs)
  have "((unat a * 256 + unat b) * 256 + unat c) div 262144 < 64"
    using triple_bound [OF byte_bound byte_bound byte_bound, of a b c] by (intro less_mult_imp_div_less) simp
  then show ?case using 4 by (simp add: Let_def)
qed simp

lemma b64_decode_encode: "b64_decode (b64_encode bs) = Some bs"
proof -
  have "filter (\<lambda>c. c \<noteq> CHR 0x0A \<and> c \<noteq> CHR 0x0D) (b64_encode bs) = b64_encode bs"
    using b64_encode_plain [of bs] by (simp add: filter_id_conv list_all_iff b64_plain_def)
  then show ?thesis by (simp add: b64_decode_def b64_quanta_encode)
qed

text \<open>Strings.\<close>

declare json_rest.simps(2) [simp del]

lemma json_rest_plain: "list_all b64_plain v \<Longrightarrow> json_rest (v @ CHR 0x22 # r) = Some (v, r)"
  by (induction v) (auto simp: json_rest.simps(2) b64_plain_def)

definition ascii :: "string \<Rightarrow> bool" where
  "ascii s \<longleftrightarrow> (\<forall>c\<in>set s. (of_char c :: nat) < 128)"

lemma json_u_table: "n < 128 \<Longrightarrow> json_u [CHR ''0'', CHR ''0'', hex_digit (n div 16), hex_digit (n mod 16)] = Some (char_of n)"
proof -
  have "list_all (\<lambda>n. json_u [CHR ''0'', CHR ''0'', hex_digit (n div 16), hex_digit (n mod 16)] = Some (char_of n)) [0..<128]" by code_simp
  then show "n < 128 \<Longrightarrow> ?thesis" by (simp add: list_all_iff)
qed

lemma json_rest_char:
  assumes "(of_char c :: nat) < 128"
  shows "json_rest (json_char c @ s) = map_option (apfst (Cons c)) (json_rest s)"
proof -
  have "map_of json_escapes (CHR 0x22) = Some (CHR 0x22)" "map_of json_escapes (CHR 0x5C) = Some (CHR 0x5C)"
    "map_of json_escapes (CHR ''n'') = Some (CHR 0x0A)" "map_of json_escapes (CHR ''r'') = Some (CHR 0x0D)" "map_of json_escapes (CHR ''t'') = Some (CHR 0x09)"
    by (simp_all add: json_escapes_def)
  moreover have "json_u [CHR ''0'', CHR ''0'', hex_digit (of_char c div 16), hex_digit (of_char c mod 16)] = Some c"
    using json_u_table [OF assms] by simp
  ultimately show ?thesis by (simp add: json_char_def json_rest.simps(2))
qed

lemma json_rest_string: "ascii s \<Longrightarrow> json_rest (concat (map json_char s) @ CHR 0x22 # r) = Some (s, r)"
proof (induction s)
  case (Cons c s)
  then show ?case using json_rest_char [of c] by (simp add: ascii_def)
qed (simp add: json_rest.simps(2))

lemma json_text_string: "ascii s \<Longrightarrow> json_text (json_string s @ r) = Some (s, r)"
  by (simp add: json_text_def json_string_def json_rest_string)

lemma json_skip_quote [simp]: "json_skip (CHR 0x22 # s) = CHR 0x22 # s" "json_skip (CHR '','' # s) = CHR '','' # s" "json_skip (CHR ''}'' # s) = CHR ''}'' # s"
  "json_skip (CHR '':'' # s) = CHR '':'' # s" "json_skip (CHR ''{'' # s) = CHR ''{'' # s" "json_skip (json_string k @ s) = json_string k @ s" "json_skip [] = []"
  by (simp_all add: json_skip_def json_space_def json_string_def)

lemma json_bytes_value: "json_bytes (CHR 0x22 # b64_encode v @ CHR 0x22 # r) = Some (v, r)"
  by (simp add: json_bytes_def json_text_def json_rest_plain b64_encode_plain b64_decode_encode)

declare json_members.simps [simp del]

lemma json_members_step:
  assumes "ascii k"
  shows "json_members (json_member (k, v) @ c # s) m =
    (if c = CHR '','' then json_members s (AList.update k v m) else if c = CHR ''}'' then Some (AList.update k v m, s)
     else case json_skip (c # s) of [] \<Rightarrow> None | c # s \<Rightarrow> if c = CHR '','' then json_members s (AList.update k v m) else if c = CHR ''}'' then Some (AList.update k v m, s) else None)"
proof -
  have "json_member (k, v) @ c # s = json_string k @ CHR '':'' # CHR 0x22 # b64_encode v @ CHR 0x22 # c # s" by (simp add: json_member_def)
  moreover have "length (json_string k @ CHR '':'' # CHR 0x22 # b64_encode v @ CHR 0x22 # c # s) > length (c # s)" by simp
  ultimately show ?thesis
    by (subst json_members.simps) (auto simp: json_text_string [OF assms] expect_def json_bytes_value Let_def split: if_splits)
qed

lemma update_fresh: "k \<notin> fst ` set m \<Longrightarrow> AList.update k v m = m @ [(k, v)]"
  by (induction m) auto

lemma json_members_all:
  assumes "kvs \<noteq> []" and "\<forall>kv\<in>set kvs. ascii (fst kv)" and "distinct (map fst (m @ kvs))"
  shows "json_members (join_with '','' (map json_member kvs) @ CHR ''}'' # r) m = Some (m @ kvs, r)"
  using assms
proof (induction kvs arbitrary: m rule: induct_list012)
  case (2 kv)
  then show ?case by (cases kv) (auto simp: json_members_step update_fresh)
next
  case (3 kv kv' kvs)
  obtain k v where kv: "kv = (k, v)" by fastforce
  have "join_with '','' (map json_member (kv # kv' # kvs)) @ CHR ''}'' # r
      = json_member (k, v) @ CHR '','' # join_with '','' (map json_member (kv' # kvs)) @ CHR ''}'' # r" by (simp add: kv)
  moreover have "AList.update k v m = m @ [kv]" using 3(5) by (intro update_fresh [THEN trans]) (auto simp: kv)
  ultimately show ?case using 3(2) [of "m @ [kv]"] 3(4,5) kv by (simp add: json_members_step)
qed simp

lemma json_object_Marshal:
  assumes "\<forall>kv\<in>set m. ascii (fst kv)" and "distinct (map fst m)"
  shows "json_object (json_Marshal m @ r) = Some (sort_key fst m, r)"
proof (cases "m = []")
  case True
  then show ?thesis by (simp add: json_object_def json_Marshal_def expect_def)
next
  case False
  let ?s = "sort_key fst m"
  have s: "?s \<noteq> []" by (metis False length_0_conv length_sort)
  have t: "\<forall>kv\<in>set ?s. ascii (fst kv)" "distinct (map fst ?s)" using assms by (simp_all add: distinct_map)
  obtain kv kvs where kv: "?s = kv # kvs" using s by (cases ?s) auto
  then obtain u where u: "join_with '','' (map json_member ?s) @ CHR ''}'' # r = CHR 0x22 # u"
    by (cases kvs) (auto simp: json_member_def json_string_def)
  have "json_members (join_with '','' (map json_member ?s) @ CHR ''}'' # r) [] = Some (?s, r)"
    using json_members_all [OF s t(1), of "[]"] t(2) by simp
  then show ?thesis using u by (simp add: json_object_def json_Marshal_def expect_def)
qed

lemma json_roundtrip:
  assumes "\<forall>kv\<in>set m. ascii (fst kv)" and "distinct (map fst m)"
  shows "json_Unmarshal (json_Marshal m) = Inr (sort_key fst m)" and "json_Decode (json_Marshal m) = Inr (sort_key fst m)"
  using json_object_Marshal [OF assms, of "[]"] by (simp_all add: json_Unmarshal_def json_Decode_def)

section \<open>Properties\<close>

text \<open>
  A row that is stored as JSON is read back: for every map from ASCII names to arbitrary bytes, in whatever order the map is ranged over, both readers deliver exactly the names and
  bytes that were written, and the text does not depend on the order.
\<close>

theorem json_row_roundtrip:
  assumes "\<forall>kv\<in>set m. ascii (fst kv)" and "distinct (map fst m)" and "mset m' = mset m"
  shows "json_Marshal m' = json_Marshal m
    \<and> (\<exists>r. json_Unmarshal (json_Marshal m) = Inr r \<and> json_Decode (json_Marshal m) = Inr r \<and> map_of r = map_of m \<and> distinct (map fst r))"
proof -
  let ?s = "sort_key fst m"
  have "set m' = set m" using assms(3) by (rule mset_eq_setD)
  then have "inj_on fst (set m')" using assms(2) by (simp add: distinct_map)
  then have "sort_key fst m' = ?s"
    by (intro sort_key_inj_key_eq) (simp_all add: assms(3))
  moreover have d: "distinct (map fst ?s)" using assms(2) by (simp add: distinct_map)
  moreover have "map_of ?s = map_of m" using map_of_inject_set [OF d assms(2)] by simp
  ultimately show ?thesis using json_roundtrip [OF assms(1,2)] by (simp add: json_Marshal_def)
qed

theorem json_row_roundtrip_witness:
  "json_Unmarshal (json_Marshal [(''field1'', [255, 0]), (''a<b'', [1, 2, 3, 4])]) = Inr [(''a<b'', [1, 2, 3, 4]), (''field1'', [255, 0])]
   \<and> (\<exists>r. json_Unmarshal (json_Marshal [(''field1'', [255, 0]), (''a<b'', [1, 2, 3, 4])]) = Inr r \<and> map_of r = map_of [(''field1'', [255, 0]), (''a<b'', [1, 2, 3, 4])])"
proof -
  have "\<forall>kv\<in>set [(''field1'', [255, 0]), (''a<b'', [1, 2, 3, 4])]. ascii (fst kv)" by (simp add: ascii_def)
  from json_row_roundtrip [OF this, of "[(''a<b'', [1, 2, 3, 4]), (''field1'', [255, 0])]"] json_roundtrip [OF this]
  show ?thesis by (auto simp: less_list_code less_eq_list_code)
qed

end
