(* ===== verification/DocStore.thy ===== *)
theory DocStore
  imports RowPolicy Json Props
begin

text \<open>
  What the adapters over key-value and object services share: conversions between strings and byte slices (\<^verbatim>\<open>pkg/util/hack.go\<close>), the rows of a store whose keys are made of
  table and key, the documented behaviour of a client with lookup, write and deletion, and rows that are stored as JSON.
\<close>

section \<open>Strings and slices\<close>

text \<open>\<open>util.String\<close> and \<open>util.Slice\<close> convert without copying; the adapters do not write to a slice they have converted.\<close>

definition util_String :: "byte list \<Rightarrow> string" where
  "util_String b = map (\<lambda>x. char_of (unat x)) b"

definition util_Slice :: "string \<Rightarrow> byte list" where
  "util_Slice s = bytes_of s"

lemma util_Slice_String [simp]: "util_Slice (util_String b) = b"
proof -
  have "of_char (char_of (unat x) :: char) = x" for x :: byte
  proof -
    have "unat (of_char (char_of (unat x) :: char) :: byte) = unat x" by (simp add: unat_of_char)
    then show ?thesis by (simp only: word_unat_eq_iff)
  qed
  then show ?thesis by (simp add: util_Slice_def util_String_def bytes_of_def o_def)
qed

lemma util_String_Slice [simp]: "util_String (util_Slice s) = s"
  by (induction s) (simp_all add: util_Slice_def util_String_def bytes_of_def unat_of_char)

section \<open>Rows under composed keys\<close>

definition doc_rows :: "(string \<Rightarrow> bool) \<Rightarrow> (string \<Rightarrow> string \<Rightarrow> 'k) \<Rightarrow> ('v \<Rightarrow> rowmap) \<Rightarrow> ('k \<rightharpoonup> 'v) \<Rightarrow> table" where
  "doc_rows tables key dec m = (\<lambda>(t, k). if tables t then map_option dec (m (key t k)) else None)"

text \<open>The tables for which table and key can be told from the composed key.\<close>

locale composed_key =
  fixes tables :: "string \<Rightarrow> bool"
    and key :: "string \<Rightarrow> string \<Rightarrow> 'k"
  assumes key_inj: "tables t \<Longrightarrow> tables t' \<Longrightarrow> key t k = key t' k' \<Longrightarrow> t = t' \<and> k = k'"
begin

lemma doc_rows_upd: "tables t \<Longrightarrow> doc_rows tables key dec (m(key t k := e)) = (doc_rows tables key dec m)((t, k) := map_option dec e)"
  by (auto simp: doc_rows_def fun_eq_iff dest: key_inj)

lemma doc_rows_Some: "tables t \<Longrightarrow> doc_rows tables key dec m (t, k) = Some r \<Longrightarrow> \<exists>v. m (key t k) = Some v \<and> dec v = r"
  by (auto simp: doc_rows_def)

end

definition slash_key :: "string \<Rightarrow> string \<Rightarrow> string" where
  "slash_key table key = table @ ''/'' @ key"

definition slash_table :: "string \<Rightarrow> bool" where
  "slash_table t \<longleftrightarrow> CHR ''/'' \<notin> set t"

definition colon_key :: "string \<Rightarrow> string \<Rightarrow> string" where
  "colon_key table key = table @ '':'' @ key"

lemma append_sep_inj: "c \<notin> set t \<Longrightarrow> c \<notin> set t' \<Longrightarrow> t @ c # k = t' @ c # k' \<Longrightarrow> t = t' \<and> k = k'"
  by (induction t arbitrary: t') (auto simp: Cons_eq_append_conv append_eq_Cons_conv)

interpretation slash: composed_key slash_table slash_key
  by unfold_locales (auto simp: slash_table_def slash_key_def dest: append_sep_inj)

interpretation colon: composed_key plain_table colon_key
  by unfold_locales (auto simp: plain_table_def colon_key_def dest: append_sep_inj)

interpretation paired: composed_key "\<lambda>t. True" Pair
  by unfold_locales auto

text \<open>A store that keeps the rows of one table only.\<close>

interpretation one_table: composed_key "\<lambda>t. t = T" "\<lambda>t k. k" for T
  by unfold_locales auto

section \<open>A client with lookup, write and deletion\<close>

text \<open>
  A state of the service stands for the map \<open>view\<close>. A lookup delivers the value, and an error for a missing key; a write of a value that the service takes (\<open>adm\<close>) and a
  deletion succeed.
\<close>

definition kv_laws ::
    "('s \<Rightarrow> 'k \<Rightarrow> (error + 'v) \<times> 's) \<Rightarrow> ('s \<Rightarrow> 'k \<Rightarrow> 'v \<Rightarrow> error option \<times> 's) \<Rightarrow> ('s \<Rightarrow> 'k \<Rightarrow> error option \<times> 's)
      \<Rightarrow> ('s \<Rightarrow> bool) \<Rightarrow> ('s \<Rightarrow> 'k \<rightharpoonup> 'v) \<Rightarrow> ('k \<Rightarrow> 'v \<Rightarrow> bool) \<Rightarrow> bool" where
  "kv_laws get put del ok view adm \<longleftrightarrow>
     (\<forall>s k v. ok s \<longrightarrow> view s k = Some v \<longrightarrow> (\<exists>t. get s k = (Inr v, t) \<and> ok t \<and> view t = view s))
   \<and> (\<forall>s k. ok s \<longrightarrow> view s k = None \<longrightarrow> (\<exists>err t. get s k = (Inl err, t) \<and> ok t \<and> view t = view s))
   \<and> (\<forall>s k v. ok s \<longrightarrow> adm k v \<longrightarrow> (\<exists>t. put s k v = (None, t) \<and> ok t \<and> view t = (view s)(k \<mapsto> v)))
   \<and> (\<forall>s k. ok s \<longrightarrow> (\<exists>t. del s k = (None, t) \<and> ok t \<and> view t = (view s)(k := None)))"

lemma kv_lawsD:
  assumes "kv_laws get put del ok view adm" and "ok s"
  shows kv_get_law: "view s k = Some v \<Longrightarrow> \<exists>t. get s k = (Inr v, t) \<and> ok t \<and> view t = view s"
    and kv_missing_law: "view s k = None \<Longrightarrow> \<exists>err t. get s k = (Inl err, t) \<and> ok t \<and> view t = view s"
    and kv_put_law: "adm k v \<Longrightarrow> \<exists>t. put s k v = (None, t) \<and> ok t \<and> view t = (view s)(k \<mapsto> v)"
    and kv_del_law: "\<exists>t. del s k = (None, t) \<and> ok t \<and> view t = (view s)(k := None)"
  using assms unfolding kv_laws_def by blast+

text \<open>An association list in memory behaves so.\<close>

definition mem_get :: "('k \<times> 'v) list \<Rightarrow> 'k \<Rightarrow> (error + 'v) \<times> ('k \<times> 'v) list" where
  "mem_get s k = (case map_of s k of Some v \<Rightarrow> Inr v | None \<Rightarrow> Inl ''not found'', s)"

definition mem_put :: "('k \<times> 'v) list \<Rightarrow> 'k \<Rightarrow> 'v \<Rightarrow> error option \<times> ('k \<times> 'v) list" where
  "mem_put s k v = (None, AList.update k v s)"

definition mem_del :: "('k \<times> 'v) list \<Rightarrow> 'k \<Rightarrow> error option \<times> ('k \<times> 'v) list" where
  "mem_del s k = (None, AList.delete k s)"

lemma mem_kv_laws: "kv_laws mem_get mem_put mem_del (\<lambda>s. True) map_of (\<lambda>k v. True)"
  by (auto simp: kv_laws_def mem_get_def mem_put_def mem_del_def update_conv' delete_conv')

section \<open>Rows as JSON\<close>

definition ascii_names :: "string set" where
  "ascii_names = {f. ascii f}"

text \<open>What a stored text stands for, and the texts that the adapters write.\<close>

definition json_row :: "string \<Rightarrow> rowmap" where
  "json_row s = (case json_Unmarshal s of Inr m \<Rightarrow> map_of m | Inl _ \<Rightarrow> Map.empty)"

definition json_doc :: "string \<Rightarrow> bool" where
  "json_doc s \<longleftrightarrow> (\<exists>v. s = json_Marshal v \<and> row_ok ascii_names v)"

lemma json_read_back:
  assumes "row_ok ascii_names v"
  shows "json_Unmarshal (json_Marshal v) = Inr (sort_key fst v)" "json_Decode (json_Marshal v) = Inr (sort_key fst v)"
    "map_of (sort_key fst v) = map_of v" "row_ok ascii_names (sort_key fst v)"
proof -
  have v: "\<forall>kv\<in>set v. ascii (fst kv)" "distinct (map fst v)" using assms by (auto simp: row_ok_def ascii_names_def)
  show "json_Unmarshal (json_Marshal v) = Inr (sort_key fst v)" "json_Decode (json_Marshal v) = Inr (sort_key fst v)" using json_roundtrip [OF v] .
  have d: "distinct (map fst (sort_key fst v))" using v(2) by (simp add: distinct_map)
  then show "map_of (sort_key fst v) = map_of v" using map_of_inject_set [OF d v(2)] by simp
  show "row_ok ascii_names (sort_key fst v)" using assms d by (simp add: row_ok_def)
qed

lemma json_docD:
  assumes "json_doc s"
  shows "\<exists>m. json_Unmarshal s = Inr m \<and> json_Decode s = Inr m \<and> map_of m = json_row s \<and> row_ok ascii_names m"
  using assms json_read_back by (fastforce simp: json_doc_def json_row_def)

lemma json_row_Marshal: "row_ok ascii_names v \<Longrightarrow> json_doc (json_Marshal v) \<and> json_row (json_Marshal v) = map_of v"
  using json_read_back [of v] by (auto simp: json_doc_def json_row_def)

lemma merge_row_ok:
  assumes "row_ok K m" and "row_ok K v"
  shows "row_ok K (merge_fields m v) \<and> map_of (merge_fields m v) = map_of m ++ map_of v"
proof -
  have d: "distinct (map fst m)" "distinct (map fst v)" using assms by (simp_all add: row_ok_def)
  have keys: "distinct (map fst (merge_fields m v))" "fst ` set (merge_fields m v) = fst ` set m \<union> fst ` set v" using merge_fields_keys [OF d(1)] by auto
  have map: "map_of (merge_fields m v) = map_of m ++ map_of v" using merge_fields_map [OF d(2)] by simp
  have "int (length (snd kv)) < 2 ^ 63" if kv: "kv \<in> set (merge_fields m v)" for kv
  proof -
    have "map_of (merge_fields m v) (fst kv) = Some (snd kv)" using map_of_is_SomeI [OF keys(1), of "fst kv" "snd kv"] kv by simp
    then have "(fst kv, snd kv) \<in> set v \<or> (fst kv, snd kv) \<in> set m" unfolding map map_add_Some_iff by (auto dest: map_of_SomeD)
    then show ?thesis using assms by (auto simp: row_ok_def)
  qed
  with keys map assms show ?thesis by (auto simp: row_ok_def)
qed

end
