(* ===== verification/Redis.thy ===== *)
theory Redis
  imports DocStore Rocks
begin

text \<open>
  The Redis adapter, \<^verbatim>\<open>db/redis/db.go\<close>, with its three data types: a hash per row, a string that holds the row as JSON, and a document of the RedisJSON module;
  its options and TLS set-up with \<^verbatim>\<open>pkg/util/tls.go\<close>. The client (\<open>go-redis\<close>) and the server are a parameter; \<open>redis_hash_laws\<close> states what
  \<open>HSET\<close> and \<open>HMGET\<close> do, and the string commands keep the laws of a key-value client. The module behind the JSON data type is not described by laws: only the requests are modelled.
\<close>

section \<open>TLS\<close>

text \<open>The certificate library: reading a file, adding its certificates to a pool, loading a pair of certificate and key.\<close>

record ('pool, 'cert) tlslib =
  tl_NewCertPool :: 'pool
  tl_ReadFile :: "string \<Rightarrow> error + string"
  tl_AppendCertsFromPEM :: "'pool \<Rightarrow> string \<Rightarrow> bool \<times> 'pool"
  tl_LoadX509KeyPair :: "string \<Rightarrow> string \<Rightarrow> error + 'cert"

record ('pool, 'cert) tls_config =
  tls_InsecureSkipVerify :: bool
  tls_Renegotiation :: string
  tls_RootCAs :: "'pool option"
  tls_Certificates :: "'cert list"

definition go_quote :: "string \<Rightarrow> string" where
  "go_quote s = CHR 0x22 # s @ [CHR 0x22]"

fun cert_pool_loop :: "('pool, 'cert) tlslib \<Rightarrow> string list \<Rightarrow> 'pool \<Rightarrow> error + 'pool" where
  "cert_pool_loop L [] pool = Inr pool"
| "cert_pool_loop L (certFile # certFiles) pool =
     (case tl_ReadFile L certFile of
        Inl err \<Rightarrow> Inl (''could not read certificate '' @ go_quote certFile @ '': '' @ err)
      | Inr pem \<Rightarrow>
          (case tl_AppendCertsFromPEM L pool pem of
             (False, _) \<Rightarrow> Inl (''could not parse any PEM certificates '' @ go_quote certFile @ '': <nil>'')
           | (True, pool) \<Rightarrow> cert_pool_loop L certFiles pool))"

definition makeCertPool :: "('pool, 'cert) tlslib \<Rightarrow> string list \<Rightarrow> error + 'pool" where
  "makeCertPool L certFiles = cert_pool_loop L certFiles (tl_NewCertPool L)"

definition loadCertificate :: "('pool, 'cert) tlslib \<Rightarrow> ('pool, 'cert) tls_config \<Rightarrow> string \<Rightarrow> string \<Rightarrow> error + ('pool, 'cert) tls_config" where
  "loadCertificate L config certFile keyFile =
     (case tl_LoadX509KeyPair L certFile keyFile of
        Inl err \<Rightarrow> Inl (''could not load keypair '' @ certFile @ '':'' @ keyFile @ '': '' @ err)
      | Inr cert \<Rightarrow> Inr (config\<lparr>tls_Certificates := [cert]\<rparr>))"

definition CreateTLSConfig :: "('pool, 'cert) tlslib \<Rightarrow> string \<Rightarrow> string \<Rightarrow> string \<Rightarrow> bool \<Rightarrow> error + ('pool, 'cert) tls_config" where
  "CreateTLSConfig L caPath certPath keyPath insecureSkipVerify =
     (let config = \<lparr>tls_InsecureSkipVerify = insecureSkipVerify, tls_Renegotiation = ''RenegotiateNever'', tls_RootCAs = None, tls_Certificates = []\<rparr>
      in case (if caPath \<noteq> [] then map_sum id (\<lambda>pool. config\<lparr>tls_RootCAs := Some pool\<rparr>) (makeCertPool L [caPath]) else Inr config) of
           Inl err \<Rightarrow> Inl err
         | Inr config \<Rightarrow> if certPath \<noteq> [] \<and> keyPath \<noteq> [] then loadCertificate L config certPath keyPath else Inr config)"

section \<open>Options\<close>

text \<open>\<open>p.Get\<close> delivers the empty string for a missing key when its flag is ignored.\<close>

definition get_or_empty :: "props \<Rightarrow> string \<Rightarrow> string" where
  "get_or_empty p k = (case Get p k of Some v \<Rightarrow> v | None \<Rightarrow> [])"

text \<open>A configuration that cannot be loaded is dropped without a message, and the client connects without TLS.\<close>

definition redis_parseTLS :: "('pool, 'cert) tlslib \<Rightarrow> props \<Rightarrow> ('pool, 'cert) tls_config option" where
  "redis_parseTLS L p =
     (let caPath = get_or_empty p ''redis.tls_ca''; certPath = get_or_empty p ''redis.tls_cert''; keyPath = get_or_empty p ''redis.tls_key'';
          insecureSkipVerify = GetBool p ''redis.tls_insecure_skip_verify'' False
      in if certPath \<noteq> [] \<and> keyPath \<noteq> [] \<or> caPath \<noteq> [] then
           (case CreateTLSConfig L caPath certPath keyPath insecureSkipVerify of Inr config \<Rightarrow> Some config | Inl _ \<Rightarrow> None)
         else None)"

definition millisecond :: int where
  "millisecond = 1000000"

definition second :: int where
  "second = 1000000000"

text \<open>The part that the options for one endpoint and for a cluster share; \<open>MustGetInt\<close> ends the process when the property is missing or no number.\<close>

definition redis_common_options :: "(string \<Rightarrow> int go) \<Rightarrow> props \<Rightarrow> settings go" where
  "redis_common_options MustGetInt p =
     (let readTimeout = GetDuration p ''redis.read_timeout'' (3 * second) in
      gbind (MustGetInt ''threadcount'') (\<lambda>threadCount.
        let n = GetInt p ''redis.pool_size'' 0; poolSize = (if n = 0 then threadCount else n) in
        Ret [(''Username'', OString (GetString p ''redis.username'' [])), (''Password'', OString (get_or_empty p ''redis.password'')),
             (''MaxRetries'', OInt (GetInt p ''redis.max_retries'' 0)),
             (''MinRetryBackoff'', OInt (GetDuration p ''redis.min_retry_backoff'' (8 * millisecond))),
             (''MaxRetryBackoff'', OInt (GetDuration p ''redis.max_retry_backoff'' (512 * millisecond))),
             (''DialTimeout'', OInt (GetDuration p ''redis.dial_timeout'' (5 * second))),
             (''ReadTimeout'', OInt readTimeout), (''WriteTimeout'', OInt (GetDuration p ''redis.write_timeout'' readTimeout)),
             (''PoolSize'', OInt poolSize), (''MinIdleConns'', OInt (GetInt p ''redis.min_idle_conns'' poolSize)),
             (''MaxIdleConns'', OInt (GetInt p ''redis.max_idle_conns'' poolSize)),
             (''ConnMaxLifetime'', OInt (GetDuration p ''redis.max_conn_age'' (-1))),
             (''PoolTimeout'', OInt (GetDuration p ''redis.pool_timeout'' (i64 (second + readTimeout)))),
             (''ConnMaxIdleTime'', OInt (GetDuration p ''redis.idle_timeout'' (-1)))]))"

definition redis_getOptionsSingle ::
    "('pool, 'cert) tlslib \<Rightarrow> (string \<Rightarrow> int go) \<Rightarrow> props \<Rightarrow> (settings \<times> ('pool, 'cert) tls_config option) go" where
  "redis_getOptionsSingle L MustGetInt p =
     gbind (redis_common_options MustGetInt p) (\<lambda>opts.
       Ret ([(''Addr'', OString (GetString p ''redis.addr'' ''localhost:6379'')), (''DB'', OInt (GetInt p ''redis.db'' 0)),
             (''Network'', OString (GetString p ''redis.network'' ''tcp''))] @ opts, redis_parseTLS L p))"

definition redis_getOptionsCluster ::
    "('pool, 'cert) tlslib \<Rightarrow> (string \<Rightarrow> int go) \<Rightarrow> props \<Rightarrow> (string list \<times> settings \<times> ('pool, 'cert) tls_config option) go" where
  "redis_getOptionsCluster L MustGetInt p =
     gbind (redis_common_options MustGetInt p) (\<lambda>opts.
       Ret (split_on (CHR '';'') (get_or_empty p ''redis.addr''),
            [(''MaxRedirects'', OInt (GetInt p ''redis.max_redirects'' 0)), (''ReadOnly'', OBool (GetBool p ''redis.read_only'' False)),
             (''RouteByLatency'', OBool (GetBool p ''redis.route_by_latency'' False)),
             (''RouteRandomly'', OBool (GetBool p ''redis.route_randomly'' False))] @ opts, redis_parseTLS L p))"

section \<open>The client\<close>

text \<open>
  \<open>rd_DoStrings\<close> is \<open>Do\<close> with the reply taken as a slice of strings, \<open>rd_DoErr\<close> is \<open>Do\<close> of which only the error is used. A pipeline delivers the error of \<open>Exec\<close> and
  the outcome of every command, as a text or as its error.
\<close>

record 's redis_api =
  rd_Get :: "'s \<Rightarrow> string \<Rightarrow> (error + string) \<times> 's"
  rd_Set :: "'s \<Rightarrow> string \<Rightarrow> string \<Rightarrow> error option \<times> 's"
  rd_Del :: "'s \<Rightarrow> string \<Rightarrow> error option \<times> 's"
  rd_DoStrings :: "'s \<Rightarrow> string list \<Rightarrow> (error + string list) \<times> 's"
  rd_DoErr :: "'s \<Rightarrow> string list \<Rightarrow> error option \<times> 's"
  rd_PipeTexts :: "'s \<Rightarrow> string list list \<Rightarrow> (error option \<times> (error + string) list) \<times> 's"
  rd_PipeErrs :: "'s \<Rightarrow> string list list \<Rightarrow> (error option \<times> error option list) \<times> 's"
  rd_FlushDB :: "'s \<Rightarrow> error option \<times> 's"
  rd_Close :: "'s \<Rightarrow> error option \<times> 's"

record 's redis =
  re_client :: 's
  re_mode :: string
  re_datatype :: string
  re_fieldcount :: int

text \<open>
  \<open>Connect\<close> makes the client for the mode and pings it, for a cluster after a reload of its state; the options are computed first.
\<close>

definition redis_made :: "'s redis_api \<Rightarrow> props \<Rightarrow> bool \<Rightarrow> error + 's \<Rightarrow> error + 's redis" where
  "redis_made api p cluster res =
     (case res of
        Inl err \<Rightarrow> Inl err
      | Inr s \<Rightarrow>
          (case (if GetBool p prop_DropData prop_DropDataDefault then rd_FlushDB api s else (None, s)) of
             (Some err, s) \<Rightarrow> Inl err
           | (None, s) \<Rightarrow> Inr \<lparr>re_client = s, re_mode = (if cluster then ''cluster'' else ''single''),
               re_datatype = GetString p ''redis.datatype'' ''hash'', re_fieldcount = GetInt64 p prop_FieldCount prop_FieldCountDefault\<rparr>))"

definition redis_Create ::
    "('pool, 'cert) tlslib \<Rightarrow> (string \<Rightarrow> int go) \<Rightarrow> (string list \<times> settings \<times> ('pool, 'cert) tls_config option \<Rightarrow> error + 's)
      \<Rightarrow> (settings \<times> ('pool, 'cert) tls_config option \<Rightarrow> error + 's) \<Rightarrow> 's redis_api \<Rightarrow> props \<Rightarrow> (error + 's redis) go" where
  "redis_Create L MustGetInt ConnectCluster ConnectSingle api p =
     (let cluster = GetString p ''redis.mode'' ''single'' = ''cluster'' in
      gbind (if cluster then gbind (redis_getOptionsCluster L MustGetInt p) (\<lambda>opts. Ret (ConnectCluster opts))
             else gbind (redis_getOptionsSingle L MustGetInt p) (\<lambda>opts. Ret (ConnectSingle opts))) (\<lambda>res. Ret (redis_made api p cluster res)))"

definition redis_Close :: "'s redis_api \<Rightarrow> 's redis \<Rightarrow> error option \<times> 's redis" where
  "redis_Close api r = (let (err, s) = rd_Close api (re_client r) in (err, r\<lparr>re_client := s\<rparr>))"

section \<open>Operations\<close>

definition redis_getKeyName :: "string \<Rightarrow> string \<Rightarrow> string" where
  "redis_getKeyName table key = table @ ''/'' @ key"

definition redis_getFieldJsonPath :: "string \<Rightarrow> string" where
  "redis_getFieldJsonPath fieldName = ''$.'' @ fieldName"

text \<open>The value is put between quotes without escaping.\<close>

definition redis_jsonEscape :: "byte list \<Rightarrow> string" where
  "redis_jsonEscape bytes = CHR 0x22 # util_String bytes @ [CHR 0x22]"

definition mergeEncodedJsonWithMap :: "string \<Rightarrow> row \<Rightarrow> error + string" where
  "mergeEncodedJsonWithMap stringReply vals =
     (case json_Unmarshal stringReply of Inl err \<Rightarrow> Inl err | Inr curVal \<Rightarrow> Inr (json_Marshal (merge_fields curVal vals)))"

text \<open>The loop over the replies of the pipeline: it stops at the first one that is no text.\<close>

fun redis_texts :: "string list \<Rightarrow> (error + string) list \<Rightarrow> row \<Rightarrow> error + row" where
  "redis_texts (f # fs) (Inr s # cmds) data = redis_texts fs cmds (AList.update f (util_Slice s) data)"
| "redis_texts (f # fs) (Inl err # cmds) data = Inl err"
| "redis_texts fs cmds data = Inr data"

text \<open>A reply with more values than names is an index out of range.\<close>

fun redis_values :: "string list \<Rightarrow> string list \<Rightarrow> row \<Rightarrow> row go" where
  "redis_values fs [] data = Ret data"
| "redis_values [] (s # reply) data = Panic ''index out of range''"
| "redis_values (f # fs) (s # reply) data = redis_values fs reply (AList.update f (util_Slice s) data)"

text \<open>With the hash type an error of the command ends \<open>Read\<close> with the empty map and no error: it is assigned to a variable of its own.\<close>

definition redis_Read :: "'s redis_api \<Rightarrow> 's redis \<Rightarrow> string \<Rightarrow> string \<Rightarrow> string list \<Rightarrow> ((error + row) \<times> 's redis) go" where
  "redis_Read api r table key fnames =
     (let name = redis_getKeyName table key in
      if re_datatype r = ''json'' then
        (let ((err, cmds), s) = rd_PipeTexts api (re_client r) (map (\<lambda>f. [''JSON.GET'', name, redis_getFieldJsonPath f]) fnames)
         in Ret (case err of Some e \<Rightarrow> Inl e | None \<Rightarrow> redis_texts fnames cmds [], r\<lparr>re_client := s\<rparr>))
      else if re_datatype r = ''hash'' then
        (let (reply, s) = rd_DoStrings api (re_client r) (''HMGET'' # name # fnames)
         in case reply of
              Inl err \<Rightarrow> Ret (Inr [], r\<lparr>re_client := s\<rparr>)
            | Inr vals \<Rightarrow> gbind (redis_values fnames vals []) (\<lambda>data. Ret (Inr data, r\<lparr>re_client := s\<rparr>)))
      else
        (let (res, s) = rd_Get api (re_client r) name
         in Ret (case res of Inl err \<Rightarrow> Inl err | Inr text \<Rightarrow> json_Unmarshal text, r\<lparr>re_client := s\<rparr>)))"

definition redis_Scan :: "'s redis \<Rightarrow> string \<Rightarrow> string \<Rightarrow> int \<Rightarrow> string list \<Rightarrow> ((error + row option list) \<times> 's redis) go" where
  "redis_Scan r table startKey cnt fnames = Ret (Inl ''scan is not supported'', r)"

definition redis_hset :: "string \<Rightarrow> row \<Rightarrow> string list" where
  "redis_hset name vals = ''HSET'' # name # concat (map (\<lambda>(f, b). [f, util_String b]) vals)"

definition first_error :: "error option list \<Rightarrow> error option" where
  "first_error errs = (case filter (\<lambda>e. e \<noteq> None) errs of [] \<Rightarrow> None | e # _ \<Rightarrow> e)"

definition redis_Update :: "'s redis_api \<Rightarrow> 's redis \<Rightarrow> string \<Rightarrow> string \<Rightarrow> row \<Rightarrow> (error option \<times> 's redis) go" where
  "redis_Update api r table key vals =
     (let name = redis_getKeyName table key; fullUpdate = (int (length vals) = re_fieldcount r) in
      if re_datatype r = ''json'' then
        (let ((err, errs), s) = rd_PipeErrs api (re_client r) (map (\<lambda>(f, b). [''JSON.SET'', name, redis_getFieldJsonPath f, redis_jsonEscape b]) vals)
         in Ret (if err \<noteq> None then err else first_error errs, r\<lparr>re_client := s\<rparr>))
      else if re_datatype r = ''hash'' then
        (let (err, s) = rd_DoErr api (re_client r) (redis_hset name vals) in Ret (err, r\<lparr>re_client := s\<rparr>))
      else
        (let (encoded, s) = (if fullUpdate then (Inr (json_Marshal vals), re_client r)
                             else case rd_Get api (re_client r) name of
                                    (Inl err, s) \<Rightarrow> (Inl err, s)
                                  | (Inr old, s) \<Rightarrow> (mergeEncodedJsonWithMap old vals, s))
         in case encoded of
              Inl err \<Rightarrow> Ret (Some err, r\<lparr>re_client := s\<rparr>)
            | Inr data \<Rightarrow> (let (err, s) = rd_Set api s name data in Ret (err, r\<lparr>re_client := s\<rparr>))))"

definition redis_Insert :: "'s redis_api \<Rightarrow> 's redis \<Rightarrow> string \<Rightarrow> string \<Rightarrow> row \<Rightarrow> (error option \<times> 's redis) go" where
  "redis_Insert api r table key vals =
     (let name = redis_getKeyName table key; data = json_Marshal vals;
          (err, s) = (if re_datatype r = ''json'' then rd_DoErr api (re_client r) [''JSON.SET'', name, ''.'', data]
                      else if re_datatype r = ''hash'' then rd_DoErr api (re_client r) (redis_hset name vals)
                      else rd_Set api (re_client r) name data)
      in Ret (err, r\<lparr>re_client := s\<rparr>))"

definition redis_Delete :: "'s redis_api \<Rightarrow> 's redis \<Rightarrow> string \<Rightarrow> string \<Rightarrow> (error option \<times> 's redis) go" where
  "redis_Delete api r table key =
     (let (err, s) = rd_Del api (re_client r) (redis_getKeyName table key) in Ret (err, r\<lparr>re_client := s\<rparr>))"

definition redis_db :: "'s redis_api \<Rightarrow> 's redis db" where
  "redis_db api =
     \<lparr>db_Close = (\<lambda>d. Ret (redis_Close api d)), db_InitThread = (\<lambda>d i n. Ret d), db_CleanupThread = Ret,
      db_Read = redis_Read api, db_Scan = redis_Scan, db_Update = redis_Update api, db_Insert = redis_Insert api, db_Delete = redis_Delete api,
      db_Batch = None, db_Analyze = None, db_TypeName = ''*redis.redis''\<rparr>"

section \<open>Hashes\<close>

text \<open>
  \<open>HSET\<close> sets the given fields of a hash, creating it when there is none, and wants at least one; \<open>HMGET\<close> delivers the values of the given fields. The client refuses a reply with a nil, so a missing
  key or field is an error, and so is a command without fields.
\<close>

definition redis_hash_laws :: "'s redis_api \<Rightarrow> ('s \<Rightarrow> bool) \<Rightarrow> ('s \<Rightarrow> string \<rightharpoonup> (string \<rightharpoonup> string)) \<Rightarrow> bool" where
  "redis_hash_laws api ok view \<longleftrightarrow>
     (\<forall>s k kvs. ok s \<longrightarrow> kvs \<noteq> [] \<longrightarrow> distinct (map fst kvs) \<longrightarrow>
        (\<exists>t. rd_DoErr api s (''HSET'' # k # concat (map (\<lambda>(f, v). [f, v]) kvs)) = (None, t) \<and> ok t
           \<and> view t = (view s)(k \<mapsto> merge_new (view s k) (map_of kvs))))
   \<and> (\<forall>s k fs m. ok s \<longrightarrow> view s k = Some m \<longrightarrow> fs \<noteq> [] \<longrightarrow> set fs \<subseteq> dom m \<longrightarrow>
        (\<exists>t. rd_DoStrings api s (''HMGET'' # k # fs) = (Inr (map (\<lambda>f. the (m f)) fs), t) \<and> ok t \<and> view t = view s))
   \<and> (\<forall>s k fs. ok s \<longrightarrow> fs = [] \<or> (case view s k of Some m \<Rightarrow> \<not> set fs \<subseteq> dom m | None \<Rightarrow> True) \<longrightarrow>
        (\<exists>err t. rd_DoStrings api s (''HMGET'' # k # fs) = (Inl err, t) \<and> ok t \<and> view t = view s))
   \<and> (\<forall>s k. ok s \<longrightarrow> (\<exists>t. rd_Del api s k = (None, t) \<and> ok t \<and> view t = (view s)(k := None)))"

lemmas redis_HSET_law = redis_hash_laws_def [THEN iffD1, THEN conjunct1, rule_format]
lemmas redis_HMGET_law = redis_hash_laws_def [THEN iffD1, THEN conjunct2, THEN conjunct1, rule_format]
lemmas redis_HMGET_nil_law = redis_hash_laws_def [THEN iffD1, THEN conjunct2, THEN conjunct2, THEN conjunct1, rule_format]
lemmas redis_hash_Del_law = redis_hash_laws_def [THEN iffD1, THEN conjunct2, THEN conjunct2, THEN conjunct2, rule_format]

definition hash_row :: "(string \<rightharpoonup> string) \<Rightarrow> rowmap" where
  "hash_row m f = map_option util_Slice (m f)"

definition hash_ins :: "rowmap option \<Rightarrow> rowmap \<Rightarrow> rowmap" where
  "hash_ins old v = (if v = Map.empty then Map.empty else merge_new old v)"

definition hash_sel :: "string \<Rightarrow> rowmap \<Rightarrow> string list \<Rightarrow> rowmap" where
  "hash_sel k m fs = (if fs = [] \<or> \<not> set fs \<subseteq> dom m then Map.empty else m |` set fs)"

definition hash_policy :: row_policy where
  "hash_policy = \<lparr>rp_ins = hash_ins, rp_upd = (\<lambda>m v. m ++ v), rp_sel = hash_sel\<rparr>"

definition hash_accepts :: "string \<Rightarrow> string \<Rightarrow> rowmap \<Rightarrow> bool" where
  "hash_accepts t k m \<longleftrightarrow> m \<noteq> Map.empty"

definition redis_hash_inv :: "'s redis_api \<Rightarrow> ('s \<Rightarrow> bool) \<Rightarrow> ('s \<Rightarrow> string \<rightharpoonup> (string \<rightharpoonup> string)) \<Rightarrow> 's redis \<Rightarrow> bool" where
  "redis_hash_inv api ok view r \<longleftrightarrow> redis_hash_laws api ok view \<and> ok (re_client r) \<and> re_datatype r = ''hash''"

definition redis_hash_rows :: "('s \<Rightarrow> string \<rightharpoonup> (string \<rightharpoonup> string)) \<Rightarrow> 's redis \<Rightarrow> table" where
  "redis_hash_rows view r = doc_rows slash_table slash_key hash_row (view (re_client r))"

lemma redis_key [simp]: "redis_getKeyName = slash_key"
  by (simp add: fun_eq_iff redis_getKeyName_def slash_key_def)

lemma hash_row_merge: "map_option hash_row (Some (merge_new old (map_of (map (apsnd util_String) v)))) = Some (merge_new (map_option hash_row old) (map_of v))"
proof -
  have "map_of (map (apsnd util_String) v) f = map_option util_String (map_of v f)" for f
    by (induction v) auto
  then show ?thesis
    by (cases old) (auto simp: merge_new_def hash_row_def fun_eq_iff map_add_def option.map_comp o_def option.map_ident split: option.split)
qed

lemma redis_hset_pairs: "redis_hset k v = ''HSET'' # k # concat (map (\<lambda>(f, v). [f, v]) (map (apsnd util_String) v))"
  by (auto simp: redis_hset_def o_def split_def intro!: arg_cong [where f = concat])

lemma redis_hset_ok:
  assumes "redis_hash_inv api ok view r" and "slash_table t" and "v \<noteq> []" and "distinct (map fst v)"
  shows "\<exists>s. rd_DoErr api (re_client r) (redis_hset (slash_key t k) v) = (None, s) \<and> redis_hash_inv api ok view (r\<lparr>re_client := s\<rparr>)
    \<and> redis_hash_rows view (r\<lparr>re_client := s\<rparr>) = (redis_hash_rows view r)((t, k) \<mapsto> merge_new (redis_hash_rows view r (t, k)) (map_of v))"
proof -
  have I: "redis_hash_laws api ok view" "ok (re_client r)" using assms(1) by (auto simp: redis_hash_inv_def)
  let ?w = "map (apsnd util_String) v" and ?k = "slash_key t k"
  have "?w \<noteq> []" "distinct (map fst ?w)" using assms(3,4) by (simp_all add: o_def)
  from redis_HSET_law [OF I this, of ?k] obtain s where s: "rd_DoErr api (re_client r) (redis_hset ?k v) = (None, s)" "ok s"
      "view s = (view (re_client r))(?k \<mapsto> merge_new (view (re_client r) ?k) (map_of ?w))" by (auto simp: redis_hset_pairs)
  then show ?thesis using assms(1,2) hash_row_merge [of "view (re_client r) ?k" v]
    by (auto simp: redis_hash_inv_def redis_hash_rows_def slash.doc_rows_upd) (simp add: doc_rows_def)
qed

lemma redis_values_ok:
  assumes "length ws = length fs"
  shows "\<exists>data. redis_values fs ws acc = Ret data \<and> map_of data = map_of acc ++ map_of (rev (zip fs (map util_Slice ws)))"
  using assms
proof (induction fs ws acc rule: redis_values.induct)
  case (3 f fs s reply data)
  have "length reply = length fs" using 3(2) by simp
  from 3(1) [OF this] obtain data' where "redis_values fs reply (AList.update f (util_Slice s) data) = Ret data'"
      "map_of data' = (map_of data)(f \<mapsto> util_Slice s) ++ map_of (rev (zip fs (map util_Slice reply)))" unfolding update_conv' by blast
  moreover have "(map_of data)(f \<mapsto> util_Slice s) ++ map_of (rev (zip fs (map util_Slice reply)))
      = map_of data ++ map_of (rev (zip (f # fs) (map util_Slice (s # reply))))"
    by (auto simp: fun_eq_iff map_add_def split: option.split)
  ultimately show ?case unfolding redis_values.simps by (metis (no_types))
qed auto

lemma map_of_rev_zip: "map_of (rev (zip fs (map g fs))) f = (if f \<in> set fs then Some (g f) else None)"
  by (induction fs) (auto simp: map_add_def split: option.split)

interpretation redis_hash: policy_db "redis_db api" "redis_hash_inv api ok view" "redis_hash_rows view" "\<lambda>r. K" slash_table hash_accepts "\<lambda>r. hash_policy"
  for api ok view K
proof (unfold_locales, goal_cases)
  case (1 d t v k)
  then have v: "v \<noteq> []" "distinct (map fst v)" by (auto simp: hash_policy_def hash_ins_def hash_accepts_def row_ok_def)
  then show ?case using redis_hset_ok [OF 1(1,2) v, of k] 1(1)
    by (auto simp: redis_db_def redis_Insert_def redis_hash_inv_def hash_policy_def hash_ins_def Let_def)
next
  case (2 d t v k m)
  then have v: "v \<noteq> []" "distinct (map fst v)" by (auto simp: row_ok_def)
  then show ?case using redis_hset_ok [OF 2(1,2) v, of k] 2(1,5)
    by (auto simp: redis_db_def redis_Update_def redis_hash_inv_def hash_policy_def merge_new_def Let_def)
next
  case (3 d t k m)
  then have I: "redis_hash_laws api ok view" "ok (re_client d)" by (auto simp: redis_hash_inv_def)
  then show ?case using redis_hash_Del_law [OF I, of "slash_key t k"] 3
    by (auto simp: redis_db_def redis_Delete_def redis_hash_inv_def redis_hash_rows_def slash.doc_rows_upd)
next
  case (4 d t fs k m)
  then have I: "redis_hash_laws api ok view" "ok (re_client d)" "re_datatype d = ''hash''" by (auto simp: redis_hash_inv_def)
  obtain h where h: "view (re_client d) (slash_key t k) = Some h" "hash_row h = m"
    using slash.doc_rows_Some [OF 4(2) 4(4) [unfolded redis_hash_rows_def]] by blast
  have dom: "dom h = dom m" using h(2) by (auto simp: hash_row_def)
  show ?case
  proof (cases "fs = [] \<or> \<not> set fs \<subseteq> dom m")
    case True
    then show ?thesis using redis_HMGET_nil_law [OF I(1,2), of fs "slash_key t k"] h dom 4(1)
      by (auto simp: redis_db_def redis_Read_def I(3) hash_policy_def hash_sel_def redis_hash_inv_def redis_hash_rows_def)
  next
    case False
    then obtain s where s: "rd_DoStrings api (re_client d) (''HMGET'' # slash_key t k # fs) = (Inr (map (\<lambda>f. the (h f)) fs), s)" "ok s" "view s = view (re_client d)"
      using redis_HMGET_law [OF I(1,2) h(1), of fs] dom by auto
    obtain data where data: "redis_values fs (map (\<lambda>f. the (h f)) fs) [] = Ret data" "map_of data = map_of (rev (zip fs (map (\<lambda>f. util_Slice (the (h f))) fs)))"
      using redis_values_ok [of "map (\<lambda>f. the (h f)) fs" fs "[]"] by (auto simp: o_def)
    have "map_of data = m |` set fs"
    proof
      fix f
      have "f \<in> set fs \<Longrightarrow> \<exists>v. h f = Some v" using False dom by auto
      then show "map_of data f = (m |` set fs) f"
        using h(2) unfolding data(2) map_of_rev_zip by (auto simp: restrict_map_def hash_row_def)
    qed
    then show ?thesis using s data(1) False 4(1)
      by (auto simp: redis_db_def redis_Read_def I(3) hash_policy_def hash_sel_def redis_hash_inv_def redis_hash_rows_def)
  qed
qed

section \<open>Strings\<close>

text \<open>
  A row is replaced by an insert and by an update that has as many fields as the rows are configured to have; any other update is merged into the stored row. A read delivers the whole row.
\<close>

definition string_upd :: "int \<Rightarrow> rowmap \<Rightarrow> rowmap \<Rightarrow> rowmap" where
  "string_upd n m v = (if int (card (dom v)) = n then v else m ++ v)"

definition string_policy :: "int \<Rightarrow> row_policy" where
  "string_policy n = \<lparr>rp_ins = (\<lambda>old v. v), rp_upd = string_upd n, rp_sel = (\<lambda>k m fs. m)\<rparr>"

definition json_accepts :: "(string \<Rightarrow> string \<Rightarrow> 'k) \<Rightarrow> ('k \<Rightarrow> string \<Rightarrow> bool) \<Rightarrow> string \<Rightarrow> string \<Rightarrow> rowmap \<Rightarrow> bool" where
  "json_accepts key adm t k m \<longleftrightarrow> (\<forall>v. row_ok ascii_names v \<longrightarrow> map_of v = m \<longrightarrow> adm (key t k) (json_Marshal v))"

definition redis_string_inv :: "'s redis_api \<Rightarrow> ('s \<Rightarrow> bool) \<Rightarrow> ('s \<Rightarrow> string \<rightharpoonup> string) \<Rightarrow> (string \<Rightarrow> string \<Rightarrow> bool) \<Rightarrow> 's redis \<Rightarrow> bool" where
  "redis_string_inv api ok view adm r \<longleftrightarrow> kv_laws (rd_Get api) (rd_Set api) (rd_Del api) ok view adm \<and> ok (re_client r)
     \<and> re_datatype r \<noteq> ''json'' \<and> re_datatype r \<noteq> ''hash'' \<and> (\<forall>s\<in>ran (view (re_client r)). json_doc s)"

definition redis_string_rows :: "('s \<Rightarrow> string \<rightharpoonup> string) \<Rightarrow> 's redis \<Rightarrow> table" where
  "redis_string_rows view r = doc_rows slash_table slash_key json_row (view (re_client r))"

lemma redis_string_invD:
  assumes "redis_string_inv api ok view adm r"
  shows "kv_laws (rd_Get api) (rd_Set api) (rd_Del api) ok view adm" and "ok (re_client r)" and "re_datatype r \<noteq> ''json''" and "re_datatype r \<noteq> ''hash''"
    and "view (re_client r) k = Some s \<Longrightarrow> json_doc s"
  using assms by (auto simp: redis_string_inv_def ran_def)

lemma redis_string_same:
  "redis_string_inv api ok view adm r \<Longrightarrow> ok s \<Longrightarrow> view s = view (re_client r) \<Longrightarrow>
   redis_string_inv api ok view adm (r\<lparr>re_client := s\<rparr>) \<and> redis_string_rows view (r\<lparr>re_client := s\<rparr>) = redis_string_rows view r"
  by (simp add: redis_string_inv_def redis_string_rows_def)

lemma redis_Set_ok:
  assumes "redis_string_inv api ok view adm r" and "slash_table t" and "row_ok ascii_names v" and "json_accepts slash_key adm t k (map_of v)"
    and "ok s" and "view s = view (re_client r)"
  shows "\<exists>s'. rd_Set api s (slash_key t k) (json_Marshal v) = (None, s') \<and> redis_string_inv api ok view adm (r\<lparr>re_client := s'\<rparr>)
    \<and> redis_string_rows view (r\<lparr>re_client := s'\<rparr>) = (redis_string_rows view r)((t, k) \<mapsto> map_of v)"
proof -
  have "adm (slash_key t k) (json_Marshal v)" using assms(3,4) by (auto simp: json_accepts_def)
  from kv_put_law [OF redis_string_invD(1) [OF assms(1)] assms(5) this] obtain s' where
    "rd_Set api s (slash_key t k) (json_Marshal v) = (None, s')" "ok s'" "view s' = (view (re_client r))(slash_key t k \<mapsto> json_Marshal v)"
    using assms(6) by auto
  then show ?thesis using assms(1,2) json_row_Marshal [OF assms(3)]
    by (auto simp: redis_string_inv_def redis_string_rows_def slash.doc_rows_upd ran_def split: if_splits)
qed

lemma redis_string_Get:
  assumes "redis_string_inv api ok view adm r" and "slash_table t" and "redis_string_rows view r (t, k) = Some m"
  shows "\<exists>s text row. rd_Get api (re_client r) (slash_key t k) = (Inr text, s) \<and> ok s \<and> view s = view (re_client r)
    \<and> json_Unmarshal text = Inr row \<and> map_of row = m \<and> row_ok ascii_names row"
proof -
  obtain doc where doc: "view (re_client r) (slash_key t k) = Some doc" "json_row doc = m"
    using slash.doc_rows_Some [OF assms(2) assms(3) [unfolded redis_string_rows_def]] by blast
  then show ?thesis using kv_get_law [OF redis_string_invD(1,2) [OF assms(1)] doc(1)] json_docD [OF redis_string_invD(5) [OF assms(1) doc(1)]] by auto
qed

interpretation redis_string: policy_db "redis_db api" "redis_string_inv api ok view adm" "redis_string_rows view" "\<lambda>r. ascii_names" slash_table
    "json_accepts slash_key adm" "\<lambda>r. string_policy (re_fieldcount r)" for api ok view adm
proof (unfold_locales, goal_cases)
  case (1 d t v k)
  note I = redis_string_invD [OF 1(1)]
  from redis_Set_ok [OF 1(1-3) _ I(2) refl, of k] 1(4) show ?case
    by (auto simp: redis_db_def redis_Insert_def I(3,4) Let_def string_policy_def)
next
  case (2 d t v k m)
  note I = redis_string_invD [OF 2(1)]
  have card: "int (card (dom (map_of v))) = int (length v)" using 2(3) distinct_card [of "map fst v"] by (simp add: row_ok_def dom_map_of_conv_image_fst)
  show ?case
  proof (cases "int (length v) = re_fieldcount d")
    case True
    then show ?thesis using redis_Set_ok [OF 2(1-3) _ I(2) refl, of k] 2(6) card
      by (auto simp: redis_db_def redis_Update_def I(3,4) Let_def string_policy_def string_upd_def)
  next
    case False
    obtain s old row where g: "rd_Get api (re_client d) (slash_key t k) = (Inr old, s)" "ok s" "view s = view (re_client d)" "json_Unmarshal old = Inr row"
        "map_of row = m" "row_ok ascii_names row" using redis_string_Get [OF 2(1,2,5)] by blast
    have w: "row_ok ascii_names (merge_fields row v)" "map_of (merge_fields row v) = m ++ map_of v" using merge_row_ok [OF g(6) 2(3)] g(5) by auto
    have "json_accepts slash_key adm t k (map_of (merge_fields row v))" using 2(6) False card w(2) by (simp add: string_policy_def string_upd_def)
    from redis_Set_ok [OF 2(1,2) w(1) this g(2,3)] show ?thesis using g(1,4) False card w(2)
      by (auto simp: redis_db_def redis_Update_def mergeEncodedJsonWithMap_def I(3,4) Let_def string_policy_def string_upd_def)
  qed
next
  case (3 d t k m)
  note I = redis_string_invD [OF 3(1)]
  obtain s where "rd_Del api (re_client d) (slash_key t k) = (None, s)" "ok s" "view s = (view (re_client d))(slash_key t k := None)"
    using kv_del_law [OF I(1,2), of "slash_key t k"] by blast
  then show ?case using 3(1,2)
    by (auto simp: redis_db_def redis_Delete_def redis_string_inv_def redis_string_rows_def slash.doc_rows_upd ran_def split: if_splits)
next
  case (4 d t fs k m)
  note I = redis_string_invD [OF 4(1)]
  from redis_string_Get [OF 4(1,2,4)] show ?case
    using redis_string_same [OF 4(1)] by (auto simp: redis_db_def redis_Read_def I(3,4) string_policy_def)
qed

section \<open>Properties\<close>

text \<open>A server in memory that holds hashes.\<close>

type_synonym mem_redis = "string \<rightharpoonup> (string \<rightharpoonup> string)"

fun pairs_of :: "'a list \<Rightarrow> ('a \<times> 'a) list" where
  "pairs_of (a # b # xs) = (a, b) # pairs_of xs"
| "pairs_of xs = []"

fun mem_HSET :: "mem_redis \<Rightarrow> string list \<Rightarrow> error option \<times> mem_redis" where
  "mem_HSET s (cmd # k # ws) = (if cmd = ''HSET'' \<and> ws \<noteq> [] then (None, s(k \<mapsto> merge_new (s k) (map_of (pairs_of ws)))) else (Some ''ERR'', s))"
| "mem_HSET s ws = (Some ''ERR'', s)"

fun mem_HMGET :: "mem_redis \<Rightarrow> string list \<Rightarrow> (error + string list) \<times> mem_redis" where
  "mem_HMGET s (cmd # k # fs) =
     (case s k of
        Some m \<Rightarrow> (if cmd = ''HMGET'' \<and> fs \<noteq> [] \<and> list_all (\<lambda>f. m f \<noteq> None) fs then Inr (map (\<lambda>f. the (m f)) fs) else Inl ''ERR'', s)
      | None \<Rightarrow> (Inl ''ERR'', s))"
| "mem_HMGET s ws = (Inl ''ERR'', s)"

definition mem_redis_api :: "mem_redis redis_api" where
  "mem_redis_api =
     \<lparr>rd_Get = (\<lambda>s k. (Inl ''WRONGTYPE'', s)), rd_Set = (\<lambda>s k v. (Some ''WRONGTYPE'', s)), rd_Del = (\<lambda>s k. (None, s(k := None))),
      rd_DoStrings = mem_HMGET, rd_DoErr = mem_HSET, rd_PipeTexts = (\<lambda>s cs. ((None, []), s)), rd_PipeErrs = (\<lambda>s cs. ((None, []), s)),
      rd_FlushDB = (\<lambda>s. (None, Map.empty)), rd_Close = (\<lambda>s. (None, s))\<rparr>"

lemma pairs_of_concat: "pairs_of (concat (map (\<lambda>(f, v). [f, v]) kvs)) = kvs"
  by (induction kvs) auto

lemma mem_redis_laws: "redis_hash_laws mem_redis_api (\<lambda>s. True) (\<lambda>s. s)"
proof -
  have ne: "\<exists>xs\<in>set kvs. (case xs of (f, v) \<Rightarrow> [f, v]) \<noteq> []" if "kvs \<noteq> []" for kvs :: "(string \<times> string) list"
    using that by (cases kvs) auto
  have sub: "list_all (\<lambda>f. \<exists>y. m f = Some y) fs \<longleftrightarrow> set fs \<subseteq> dom m" for m :: "string \<rightharpoonup> string" and fs
    by (auto simp: list_all_iff)
  show ?thesis unfolding redis_hash_laws_def
    by (intro conjI allI impI) (auto simp: mem_redis_api_def ne pairs_of_concat sub split: option.splits)
qed

lemma hash_policy_merging: "merging_policy K hash_policy"
  by (auto simp: merging_policy_def hash_policy_def hash_ins_def hash_sel_def merge_new_def)

text \<open>
  C28. The Redis adapter with hashes, on an empty server that runs \<open>HSET\<close> and \<open>HMGET\<close> as documented: every admissible sequence of operations returns without error what it returns on a table of
  rows in which an insert merges into the row that exists; a read that names no field, or one the row lacks, delivers the empty row. On the sequences
  that a workload makes, which insert a key once with all fields and name the fields they read, this is the table of the other adapters. Afterwards a
  read of a row that does not exist succeeds as well and delivers the empty row, since \<open>Read\<close> drops the error of \<open>HMGET\<close>.
\<close>

theorem redis_hash_refines_table:
  assumes "redis_hash_laws api ok view"
    and "redis_Create L MustGetInt ConnectCluster ConnectSingle api p = Ret (Inr r)" and "GetString p ''redis.datatype'' ''hash'' = ''hash''"
    and "ok (re_client r)" and "view (re_client r) = Map.empty"
    and "pops_ok hash_policy K slash_table hash_accepts ops Map.empty"
  shows "\<exists>r'. db_run (redis_db api) ops r = Ret (fst (policy_run hash_policy ops Map.empty), r')
    \<and> redis_hash_rows view r' = snd (policy_run hash_policy ops Map.empty)
    \<and> (bench_ops K ops Map.empty \<longrightarrow> policy_run hash_policy ops Map.empty = table_run ops Map.empty)
    \<and> (\<forall>t k fs. slash_table t \<longrightarrow> snd (policy_run hash_policy ops Map.empty) (t, k) = None \<longrightarrow> (\<exists>r''. redis_Read api r' t k fs = Ret (Inr [], r'')))"
proof -
  have "re_datatype r = ''hash''"
  proof -
    obtain res where "redis_made api p (GetString p ''redis.mode'' ''single'' = ''cluster'') res = Inr r"
      using assms(2) by (auto simp: redis_Create_def Let_def gbind_eq_Ret_iff)
    then show ?thesis using assms(3) by (auto simp: redis_made_def split: sum.splits option.splits prod.splits)
  qed
  then have inv: "redis_hash_inv api ok view r" using assms(1,4) by (simp add: redis_hash_inv_def)
  have "redis_hash_rows view r = Map.empty" using assms(5) by (auto simp: redis_hash_rows_def doc_rows_def)
  then obtain r' where r': "db_run (redis_db api) ops r = Ret (fst (policy_run hash_policy ops Map.empty), r')" "redis_hash_inv api ok view r'"
      "redis_hash_rows view r' = snd (policy_run hash_policy ops Map.empty)"
    using redis_hash.policy_run_refines [OF inv, where K = K and ops = ops] assms(6) by auto
  have "\<exists>r''. redis_Read api r' t k fs = Ret (Inr [], r'')"
    if "slash_table t" "snd (policy_run hash_policy ops Map.empty) (t, k) = None" for t k fs
  proof -
    have n: "view (re_client r') (slash_key t k) = None" using that(2) r'(3) [symmetric] that(1) by (simp add: redis_hash_rows_def doc_rows_def)
    have "redis_hash_laws api ok view" "ok (re_client r')" "re_datatype r' = ''hash''" using r'(2) by (auto simp: redis_hash_inv_def)
    then show ?thesis using redis_HMGET_nil_law [of api ok view "re_client r'" fs "slash_key t k"] n by (auto simp: redis_Read_def)
  qed
  moreover have "bench_ops K ops Map.empty \<Longrightarrow> policy_run hash_policy ops Map.empty = table_run ops Map.empty"
    using bench_run [OF hash_policy_merging _ _ assms(6)] by (simp add: full_rows_def)
  ultimately show ?thesis using r'(1,3) by blast
qed

definition sample_tls :: "(unit, unit) tlslib" where
  "sample_tls = \<lparr>tl_NewCertPool = (), tl_ReadFile = (\<lambda>f. Inl ''no such file''), tl_AppendCertsFromPEM = (\<lambda>pool pem. (False, pool)),
     tl_LoadX509KeyPair = (\<lambda>c k. Inl ''no such file'')\<rparr>"

definition sample_redis :: "mem_redis redis" where
  "sample_redis = \<lparr>re_client = Map.empty, re_mode = ''single'', re_datatype = ''hash'', re_fieldcount = 10\<rparr>"

lemma sample_redis_created:
  "redis_Create sample_tls (\<lambda>k. Ret 1) (\<lambda>opts. Inr Map.empty) (\<lambda>opts. Inr Map.empty) mem_redis_api (props_of [] []) = Ret (Inr sample_redis)"
  by (simp add: redis_Create_def redis_made_def redis_getOptionsSingle_def redis_common_options_def Let_def prop_defs sample_redis_def)

text \<open>The second insert merges, and the row of another key reads as empty.\<close>

theorem redis_hash_refines_table_witness:
  "\<exists>r' r''. db_run (redis_db mem_redis_api)
       [OpInsert ''t'' ''k'' [(''field0'', [1]), (''field1'', [2])], OpInsert ''t'' ''k'' [(''field1'', [3])], OpRead ''t'' ''k'' [''field0'', ''field1'']] sample_redis
     = Ret ([Done None, Done None, Row (Inr [''field0'' \<mapsto> [1], ''field1'' \<mapsto> [3]])], r') \<and> redis_Read mem_redis_api r' ''t'' ''j'' [''field0''] = Ret (Inr [], r'')"
proof -
  let ?ops = "[OpInsert ''t'' ''k'' [(''field0'', [1]), (''field1'', [2])], OpInsert ''t'' ''k'' [(''field1'', [3])], OpRead ''t'' ''k'' [''field0'', ''field1'']]"
  have ok: "pops_ok hash_policy UNIV slash_table hash_accepts ?ops Map.empty"
    by (simp add: slash_table_def row_ok_def hash_policy_def hash_ins_def hash_accepts_def merge_new_def)
  have e: "fst (policy_run hash_policy ?ops Map.empty) = [Done None, Done None, Row (Inr [''field0'' \<mapsto> [1], ''field1'' \<mapsto> [3]])]"
    "snd (policy_run hash_policy ?ops Map.empty) (''t'', ''j'') = None"
    by (auto simp: hash_policy_def hash_ins_def merge_new_def hash_sel_def fun_eq_iff restrict_map_def)
  have p: "GetString (props_of [] []) ''redis.datatype'' ''hash'' = ''hash''" "(\<lambda>s. True) (re_client sample_redis)" "(\<lambda>s. s) (re_client sample_redis) = Map.empty"
    by (simp_all add: sample_redis_def)
  have "slash_table ''t''" by (simp add: slash_table_def)
  with redis_hash_refines_table [where ok = "\<lambda>s. True" and view = "\<lambda>s. s", OF mem_redis_laws sample_redis_created p ok] e show ?thesis by metis
qed

text \<open>
  \<open>mergeEncodedJsonWithMap\<close>, the update of a row that is stored as a JSON text, loses nothing: on the text of a row with ASCII names and arbitrary bytes
  it returns the text of the row in which exactly the given fields are replaced or added, whatever order the maps are ranged over in, and on a text that is no JSON object it is an error.
\<close>

theorem merged_json_roundtrip:
  assumes "row_ok ascii_names m" and "row_ok ascii_names v" and "mset m' = mset m" and "json_Unmarshal junk = Inl err"
  shows "(\<exists>doc row. mergeEncodedJsonWithMap (json_Marshal m') v = Inr doc \<and> json_Unmarshal doc = Inr row \<and> map_of row = map_of m ++ map_of v)
    \<and> mergeEncodedJsonWithMap junk v = Inl err"
proof -
  have "set m' = set m" using assms(3) by (rule mset_eq_setD)
  moreover have "distinct (map fst m')" using assms(1,3) by (metis mset_eq_imp_distinct_iff mset_map row_ok_def)
  ultimately have m': "row_ok ascii_names m'" "map_of m' = map_of m"
    using assms(1) map_of_inject_set [of m' m] by (auto simp: row_ok_def)
  note M = json_read_back [OF m'(1)]
  note N = merge_row_ok [OF M(4) assms(2)]
  show ?thesis using M(1,3) N json_read_back [OF conjunct1 [OF N]] m'(2) assms(4) by (simp add: mergeEncodedJsonWithMap_def)
qed

theorem merged_json_roundtrip_witness:
  "\<exists>doc row. mergeEncodedJsonWithMap (json_Marshal [(''b'', [255]), (''a'', [1, 2])]) [(''b'', [0, 7])] = Inr doc \<and> json_Unmarshal doc = Inr row
    \<and> map_of row ''a'' = Some [1, 2] \<and> map_of row ''b'' = Some [0, 7]"
proof -
  have ok: "row_ok ascii_names [(''a'', [1, 2]), (''b'', [255])]" "row_ok ascii_names [(''b'', [0, 7])]"
    by (simp_all add: row_ok_def ascii_names_def ascii_def)
  have m: "mset [(''b'', [255]), (''a'', [1, 2])] = mset [(''a'', [1, 2]), (''b'', [255 :: byte])]" by simp
  have "\<exists>err. json_Unmarshal [] = Inl err" by (simp add: json_Unmarshal_def json_object_def expect_def json_skip_def)
  then obtain err where e: "json_Unmarshal [] = Inl err" by blast
  from merged_json_roundtrip [OF ok m e] show ?thesis by auto
qed

end
