(* ===== verification/Etcd.thy ===== *)
theory Etcd
  imports DocStore
begin

text \<open>
  The etcd adapter, \<^verbatim>\<open>db/etcd/db.go\<close>: rows as JSON under the key \<open>table:key\<close>. The client is a parameter and \<open>etcd_laws\<close> its documented behaviour. The lemmas show that the adapter is a
  table of rows in which an update replaces the row, and when \<open>Scan\<close> succeeds at all.
\<close>

section \<open>The client\<close>

datatype etcd_opt = WithSerializable | WithFromKey | WithLimit int

text \<open>A response of \<open>Get\<close> has its count and the values of its pairs.\<close>

record 's etcd_api =
  et_Get :: "'s \<Rightarrow> string \<Rightarrow> etcd_opt list \<Rightarrow> (error + int \<times> string list) \<times> 's"
  et_Put :: "'s \<Rightarrow> string \<Rightarrow> string \<Rightarrow> error option \<times> 's"
  et_Delete :: "'s \<Rightarrow> string \<Rightarrow> error option \<times> 's"
  et_Close :: "'s \<Rightarrow> error option \<times> 's"

record 's etcdDB =
  ed_p :: props
  ed_client :: 's

section \<open>Creation\<close>

record 'tls etcd_config =
  ec_Endpoints :: "string list"
  ec_DialTimeout :: int
  ec_TLS :: "'tls option"

text \<open>The library's \<open>ClientConfig\<close> makes a TLS configuration from the names of three files; \<open>MustGetString\<close> ends the process for a missing property.\<close>

definition etcd_getClientConfig :: "(string \<Rightarrow> string go) \<Rightarrow> (string \<Rightarrow> string \<Rightarrow> string \<Rightarrow> error + 'tls) \<Rightarrow> props \<Rightarrow> (error + 'tls etcd_config) go" where
  "etcd_getClientConfig MustGetString ClientConfig p =
     (let endpoints = GetString p ''etcd.endpoints'' ''localhost:2379''; dialTimeout = GetDuration p ''etcd.dial_timeout'' (2 * 1000000000) in
      gbind (if contains endpoints ''https'' then
               gbind (MustGetString ''etcd.cert_file'') (\<lambda>cert. gbind (MustGetString ''etcd.key_file'') (\<lambda>key.
               gbind (MustGetString ''etcd.cacert_file'') (\<lambda>ca. Ret (map_sum id Some (ClientConfig cert key ca)))))
             else Ret (Inr None)) (\<lambda>tls.
        Ret (map_sum id (\<lambda>tls. \<lparr>ec_Endpoints = split_on (CHR '','') endpoints, ec_DialTimeout = dialTimeout, ec_TLS = tls\<rparr>) tls)))"

definition etcd_Create ::
    "(string \<Rightarrow> string go) \<Rightarrow> (string \<Rightarrow> string \<Rightarrow> string \<Rightarrow> error + 'tls) \<Rightarrow> ('tls etcd_config \<Rightarrow> error + 's) \<Rightarrow> props \<Rightarrow> (error + 's etcdDB) go" where
  "etcd_Create MustGetString ClientConfig New p =
     ebind (etcd_getClientConfig MustGetString ClientConfig p) (\<lambda>cfg. Ret (map_sum id (\<lambda>s. \<lparr>ed_p = p, ed_client = s\<rparr>) (New cfg)))"

definition etcd_Close :: "'s etcd_api \<Rightarrow> 's etcdDB \<Rightarrow> error option \<times> 's etcdDB" where
  "etcd_Close api db = (let (err, s) = et_Close api (ed_client db) in (err, db\<lparr>ed_client := s\<rparr>))"

section \<open>Operations\<close>

definition etcd_getRowKey :: "string \<Rightarrow> string \<Rightarrow> string" where
  "etcd_getRowKey table key = table @ '':'' @ key"

definition etcd_serializable :: "props \<Rightarrow> etcd_opt list" where
  "etcd_serializable p = (if GetBool p ''etcd.serializable_reads'' False then [WithSerializable] else [])"

definition etcd_Read :: "'s etcd_api \<Rightarrow> 's etcdDB \<Rightarrow> string \<Rightarrow> string \<Rightarrow> string list \<Rightarrow> ((error + row) \<times> 's etcdDB) go" where
  "etcd_Read api db table key fnames =
     (let rkey = etcd_getRowKey table key; (res, s) = et_Get api (ed_client db) rkey (etcd_serializable (ed_p db)); db = db\<lparr>ed_client := s\<rparr> in
      case res of
        Inl err \<Rightarrow> Ret (Inl err, db)
      | Inr (cnt, kvs) \<Rightarrow>
          if cnt = 0 then Ret (Inl (''could not find value for key ['' @ rkey @ '']''), db)
          else gbind (go_index kvs 0) (\<lambda>v. Ret (json_Decode v, db)))"

fun etcd_decode_all :: "string list \<Rightarrow> error + row list" where
  "etcd_decode_all [] = Inr []"
| "etcd_decode_all (v # vs) = (case json_Decode v of Inl err \<Rightarrow> Inl err | Inr r \<Rightarrow> map_sum id (Cons r) (etcd_decode_all vs))"

text \<open>The result slice is made with \<open>count\<close> nil entries, and the rows are appended to it.\<close>

definition etcd_Scan :: "'s etcd_api \<Rightarrow> 's etcdDB \<Rightarrow> string \<Rightarrow> string \<Rightarrow> int \<Rightarrow> string list \<Rightarrow> ((error + row option list) \<times> 's etcdDB) go" where
  "etcd_Scan api db table startKey cnt fnames =
     (if cnt < 0 then Panic ''makeslice: len out of range''
      else
        let rkey = etcd_getRowKey table startKey;
            (res, s) = et_Get api (ed_client db) rkey ([WithFromKey, WithLimit cnt] @ etcd_serializable (ed_p db));
            db = db\<lparr>ed_client := s\<rparr>
        in case res of
             Inl err \<Rightarrow> Ret (Inl err, db)
           | Inr (n, kvs) \<Rightarrow>
               if n \<noteq> cnt then Ret (Inl (''unexpected number of result for key ['' @ rkey @ ''], expected '' @ itoa cnt @ '' but was '' @ itoa n), db)
               else Ret (map_sum id (\<lambda>rows. replicate (nat cnt) None @ map Some rows) (etcd_decode_all kvs), db))"

definition etcd_Update :: "'s etcd_api \<Rightarrow> 's etcdDB \<Rightarrow> string \<Rightarrow> string \<Rightarrow> row \<Rightarrow> (error option \<times> 's etcdDB) go" where
  "etcd_Update api db table key vals =
     (let (err, s) = et_Put api (ed_client db) (etcd_getRowKey table key) (json_Marshal vals) in Ret (err, db\<lparr>ed_client := s\<rparr>))"

definition etcd_Insert :: "'s etcd_api \<Rightarrow> 's etcdDB \<Rightarrow> string \<Rightarrow> string \<Rightarrow> row \<Rightarrow> (error option \<times> 's etcdDB) go" where
  "etcd_Insert api db table key vals = etcd_Update api db table key vals"

definition etcd_Delete :: "'s etcd_api \<Rightarrow> 's etcdDB \<Rightarrow> string \<Rightarrow> string \<Rightarrow> (error option \<times> 's etcdDB) go" where
  "etcd_Delete api db table key = (let (err, s) = et_Delete api (ed_client db) (etcd_getRowKey table key) in Ret (err, db\<lparr>ed_client := s\<rparr>))"

definition etcd_db :: "'s etcd_api \<Rightarrow> 's etcdDB db" where
  "etcd_db api =
     \<lparr>db_Close = (\<lambda>d. Ret (etcd_Close api d)), db_InitThread = (\<lambda>d i n. Ret d), db_CleanupThread = Ret,
      db_Read = etcd_Read api, db_Scan = etcd_Scan api, db_Update = etcd_Update api, db_Insert = etcd_Insert api, db_Delete = etcd_Delete api,
      db_Batch = None, db_Analyze = None, db_TypeName = ''*etcd.etcdDB''\<rparr>"

section \<open>The behaviour of the client\<close>

text \<open>
  The count of a response is the number of all keys in the requested range; the limit only cuts the list of pairs. Keys are ordered by their bytes.
\<close>

definition etcd_from :: "(string \<rightharpoonup> string) \<Rightarrow> string \<Rightarrow> string list" where
  "etcd_from m k = sorted_list_of_set {k' \<in> dom m. k \<le> k'}"

definition etcd_laws :: "'s etcd_api \<Rightarrow> ('s \<Rightarrow> bool) \<Rightarrow> ('s \<Rightarrow> string \<rightharpoonup> string) \<Rightarrow> (string \<Rightarrow> string \<Rightarrow> bool) \<Rightarrow> bool" where
  "etcd_laws api ok view adm \<longleftrightarrow>
     (\<forall>s k opts. ok s \<longrightarrow> set opts \<subseteq> {WithSerializable} \<longrightarrow>
        (\<exists>t. et_Get api s k opts = (Inr (case view s k of Some v \<Rightarrow> (1, [v]) | None \<Rightarrow> (0, [])), t) \<and> ok t \<and> view t = view s))
   \<and> (\<forall>s k n opts. ok s \<longrightarrow> set opts \<subseteq> {WithSerializable} \<longrightarrow> 0 < n \<longrightarrow>
        (\<exists>t. et_Get api s k ([WithFromKey, WithLimit n] @ opts)
           = (Inr (int (length (etcd_from (view s) k)), map (\<lambda>k'. the (view s k')) (take (nat n) (etcd_from (view s) k))), t) \<and> ok t \<and> view t = view s))
   \<and> (\<forall>s k v. ok s \<longrightarrow> adm k v \<longrightarrow> (\<exists>t. et_Put api s k v = (None, t) \<and> ok t \<and> view t = (view s)(k \<mapsto> v)))
   \<and> (\<forall>s k. ok s \<longrightarrow> finite (dom (view s)) \<and> (\<exists>t. et_Delete api s k = (None, t) \<and> ok t \<and> view t = (view s)(k := None)))"

lemmas etcd_Get_law = etcd_laws_def [THEN iffD1, THEN conjunct1, rule_format]
lemmas etcd_Range_law = etcd_laws_def [THEN iffD1, THEN conjunct2, THEN conjunct1, rule_format]
lemmas etcd_Put_law = etcd_laws_def [THEN iffD1, THEN conjunct2, THEN conjunct2, THEN conjunct1, rule_format]
lemmas etcd_Delete_law = etcd_laws_def [THEN iffD1, THEN conjunct2, THEN conjunct2, THEN conjunct2, rule_format]

definition etcd_inv :: "'s etcd_api \<Rightarrow> ('s \<Rightarrow> bool) \<Rightarrow> ('s \<Rightarrow> string \<rightharpoonup> string) \<Rightarrow> (string \<Rightarrow> string \<Rightarrow> bool) \<Rightarrow> 's etcdDB \<Rightarrow> bool" where
  "etcd_inv api ok view adm db \<longleftrightarrow> etcd_laws api ok view adm \<and> ok (ed_client db) \<and> (\<forall>s\<in>ran (view (ed_client db)). json_doc s)"

definition etcd_rows :: "('s \<Rightarrow> string \<rightharpoonup> string) \<Rightarrow> 's etcdDB \<Rightarrow> table" where
  "etcd_rows view db = doc_rows plain_table colon_key json_row (view (ed_client db))"

text \<open>An update replaces the row; a read delivers all of it.\<close>

definition overwrite_policy :: row_policy where
  "overwrite_policy = \<lparr>rp_ins = (\<lambda>old v. v), rp_upd = (\<lambda>m v. v), rp_sel = (\<lambda>k m fs. m)\<rparr>"

definition etcd_accepts :: "(string \<Rightarrow> string \<Rightarrow> bool) \<Rightarrow> string \<Rightarrow> string \<Rightarrow> rowmap \<Rightarrow> bool" where
  "etcd_accepts adm t k m \<longleftrightarrow> (\<forall>v. row_ok ascii_names v \<longrightarrow> map_of v = m \<longrightarrow> adm (colon_key t k) (json_Marshal v))"

lemma etcd_invD:
  assumes "etcd_inv api ok view adm db"
  shows "etcd_laws api ok view adm" and "ok (ed_client db)" and "view (ed_client db) k = Some s \<Longrightarrow> json_doc s"
  using assms by (auto simp: etcd_inv_def ran_def)

lemma etcd_key [simp]: "etcd_getRowKey = colon_key"
  by (simp add: fun_eq_iff etcd_getRowKey_def colon_key_def)

lemma etcd_serializable_set: "set (etcd_serializable p) \<subseteq> {WithSerializable}"
  by (auto simp: etcd_serializable_def)

lemma etcd_Put_ok:
  assumes "etcd_inv api ok view adm db" and "plain_table t" and "row_ok ascii_names v" and "etcd_accepts adm t k (map_of v)"
  shows "\<exists>db'. etcd_Update api db t k v = Ret (None, db') \<and> etcd_inv api ok view adm db' \<and> etcd_rows view db' = (etcd_rows view db)((t, k) \<mapsto> map_of v)"
proof -
  have "adm (colon_key t k) (json_Marshal v)" using assms(3,4) by (auto simp: etcd_accepts_def)
  from etcd_Put_law [OF etcd_invD(1,2) [OF assms(1)] this] obtain s where "et_Put api (ed_client db) (colon_key t k) (json_Marshal v) = (None, s)" "ok s"
      "view s = (view (ed_client db))(colon_key t k \<mapsto> json_Marshal v)" by blast
  then show ?thesis using assms(1,2) json_row_Marshal [OF assms(3)]
    by (auto simp: etcd_Update_def etcd_inv_def etcd_rows_def colon.doc_rows_upd ran_def split: if_splits)
qed

interpretation etcd: policy_db "etcd_db api" "etcd_inv api ok view adm" "etcd_rows view" "\<lambda>db. ascii_names" plain_table "etcd_accepts adm" "\<lambda>db. overwrite_policy"
  for api ok view adm
proof (unfold_locales, goal_cases)
  case (1 d t v k)
  then show ?case using etcd_Put_ok [OF 1(1-3), of k] by (auto simp: etcd_db_def etcd_Insert_def overwrite_policy_def)
next
  case (2 d t v k m)
  then show ?case using etcd_Put_ok [OF 2(1-3), of k] by (auto simp: etcd_db_def overwrite_policy_def)
next
  case (3 d t k m)
  obtain s where "et_Delete api (ed_client d) (colon_key t k) = (None, s)" "ok s" "view s = (view (ed_client d))(colon_key t k := None)"
    using etcd_Delete_law [OF etcd_invD(1,2) [OF 3(1)], of "colon_key t k"] by blast
  then show ?case using 3(1,2)
    by (auto simp: etcd_db_def etcd_Delete_def etcd_inv_def etcd_rows_def colon.doc_rows_upd ran_def split: if_splits)
next
  case (4 d t fs k m)
  obtain doc where doc: "view (ed_client d) (colon_key t k) = Some doc" "json_row doc = m"
    using colon.doc_rows_Some [OF 4(2) 4(4) [unfolded etcd_rows_def]] by blast
  obtain s where s: "et_Get api (ed_client d) (colon_key t k) (etcd_serializable (ed_p d)) = (Inr (1, [doc]), s)" "ok s" "view s = view (ed_client d)"
    using etcd_Get_law [OF etcd_invD(1,2) [OF 4(1)] etcd_serializable_set, of "colon_key t k" "ed_p d"] doc(1) by auto
  obtain row where "json_Decode doc = Inr row" "map_of row = m" using json_docD [OF etcd_invD(3) [OF 4(1) doc(1)]] doc(2) by auto
  then show ?case using s 4(1) by (auto simp: etcd_db_def etcd_Read_def etcd_inv_def etcd_rows_def overwrite_policy_def go_index_def)
qed

section \<open>Properties\<close>

lemma etcd_decode_all_ok:
  assumes "\<forall>v\<in>set vs. json_doc v"
  shows "\<exists>rows. etcd_decode_all vs = Inr rows \<and> map map_of rows = map json_row vs"
  using assms
proof (induction vs)
  case (Cons v vs)
  then obtain rows where "etcd_decode_all vs = Inr rows" "map map_of rows = map json_row vs" by auto
  moreover obtain m where "json_Decode v = Inr m" "map_of m = json_row v" using json_docD [of v] Cons.prems by auto
  ultimately show ?case by simp
qed simp

text \<open>
  C33. \<open>Scan\<close> of the etcd adapter delivers rows only when exactly as many keys are stored from the start key on, of whatever table, as are asked for, since it compares the
  count of the whole range with the requested number; otherwise it is an error, in particular in the middle of a loaded table. When it succeeds the rows come after as many nil maps, so that
  twice the requested number of entries is returned. An update loses the fields it does not name.
\<close>

theorem etcd_scan_and_update:
  assumes "etcd_inv api ok view adm db" and "0 < cnt" and "ks = etcd_from (view (ed_client db)) (colon_key t startKey)"
    and "plain_table t" and "row_ok ascii_names v" and "etcd_accepts adm t k (map_of v)"
  shows "(if int (length ks) = cnt
     then \<exists>rows db'. etcd_Scan api db t startKey cnt fs = Ret (Inr (replicate (nat cnt) None @ map Some rows), db') \<and> length rows = nat cnt
       \<and> map map_of rows = map (\<lambda>k. json_row (the (view (ed_client db) k))) ks
     else \<exists>err db'. etcd_Scan api db t startKey cnt fs = Ret (Inl err, db'))
   \<and> (\<exists>db'. etcd_Update api db t k v = Ret (None, db') \<and> etcd_rows view db' = (etcd_rows view db)((t, k) \<mapsto> map_of v))"
proof -
  note I = etcd_invD [OF assms(1)]
  let ?v = "view (ed_client db)" and ?k = "colon_key t startKey"
  have fin: "finite (dom ?v)" using etcd_Delete_law [OF I(1,2)] by blast
  obtain s where s: "et_Get api (ed_client db) ?k ([WithFromKey, WithLimit cnt] @ etcd_serializable (ed_p db))
      = (Inr (int (length ks), map (\<lambda>k'. the (?v k')) (take (nat cnt) ks)), s)"
    using etcd_Range_law [OF I(1,2) etcd_serializable_set assms(2), of ?k "ed_p db"] assms(3) by auto
  have "\<exists>rows db'. etcd_Scan api db t startKey cnt fs = Ret (Inr (replicate (nat cnt) None @ map Some rows), db') \<and> length rows = nat cnt
       \<and> map map_of rows = map (\<lambda>k. json_row (the (?v k))) ks" if n: "int (length ks) = cnt"
  proof -
    have "set ks \<subseteq> dom ?v" unfolding assms(3) etcd_from_def using fin by auto
    then have "\<forall>d\<in>set (map (\<lambda>k'. the (?v k')) ks). json_doc d" using I(3) by fastforce
    then obtain rows where rows: "etcd_decode_all (map (\<lambda>k'. the (?v k')) ks) = Inr rows" "map map_of rows = map json_row (map (\<lambda>k'. the (?v k')) ks)"
      using etcd_decode_all_ok by blast
    moreover have "length rows = nat cnt" using arg_cong [OF rows(2), of length] n by simp
    moreover have "take (nat cnt) ks = ks" using n by simp
    ultimately show ?thesis using s n assms(2) by (intro exI [of _ rows]) (simp add: etcd_Scan_def o_def)
  qed
  moreover have "\<exists>err db'. etcd_Scan api db t startKey cnt fs = Ret (Inl err, db')" if "int (length ks) \<noteq> cnt"
    using s that assms(2) by (simp add: etcd_Scan_def)
  ultimately show ?thesis using etcd_Put_ok [OF assms(1,4-6)] by auto
qed

text \<open>A server in memory.\<close>

definition mem_etcd_get :: "(string \<times> string) list \<Rightarrow> string \<Rightarrow> etcd_opt list \<Rightarrow> (error + int \<times> string list) \<times> (string \<times> string) list" where
  "mem_etcd_get s k opts =
     (Inr (case opts of
             WithFromKey # WithLimit n # _ \<Rightarrow>
               let ks = filter (\<lambda>k'. k \<le> k') (sort (remdups (map fst s))) in (int (length ks), map (\<lambda>k'. the (map_of s k')) (take (nat n) ks))
           | _ \<Rightarrow> (case map_of s k of Some v \<Rightarrow> (1, [v]) | None \<Rightarrow> (0, []))), s)"

definition mem_etcd :: "(string \<times> string) list etcd_api" where
  "mem_etcd = \<lparr>et_Get = mem_etcd_get, et_Put = mem_put, et_Delete = mem_del, et_Close = (\<lambda>s. (None, s))\<rparr>"

lemma etcd_from_map_of: "etcd_from (map_of s) k = filter (\<lambda>k'. k \<le> k') (sort (remdups (map fst s)))"
proof -
  let ?l = "filter (\<lambda>k'. k \<le> k') (sort (remdups (map fst s)))"
  have set: "{k' \<in> dom (map_of s). k \<le> k'} = set ?l" by (auto simp: dom_map_of_conv_image_fst)
  have "sorted ?l" by (rule sorted_wrt_filter) simp
  then show ?thesis unfolding etcd_from_def set
    by (intro linorder_class.sorted_list_of_set.idem_if_sorted_distinct) simp_all
qed

lemma mem_etcd_laws: "etcd_laws mem_etcd (\<lambda>s. True) map_of (\<lambda>k v. True)"
proof -
  have "mem_etcd_get s k opts = (Inr (case map_of s k of Some v \<Rightarrow> (1, [v]) | None \<Rightarrow> (0, [])), s)" if "set opts \<subseteq> {WithSerializable}" for s k opts
    using that by (cases opts) (auto simp: mem_etcd_get_def)
  then show ?thesis unfolding etcd_laws_def mem_etcd_def
    by (intro conjI allI impI) (auto simp: mem_etcd_get_def etcd_from_map_of mem_put_def mem_del_def finite_dom_map_of update_conv' delete_conv' Let_def)
qed

definition sample_etcd :: "(string \<times> string) list etcdDB" where
  "sample_etcd = \<lparr>ed_p = props_of [] [], ed_client = [(''t:a'', json_Marshal [(''f'', [1])]), (''t:b'', json_Marshal [(''f'', [2])])]\<rparr>"

text \<open>Of two stored rows a scan for one row fails, and a scan for both returns two nil maps before them.\<close>

theorem etcd_scan_and_update_witness:
  "(\<exists>err db'. etcd_Scan mem_etcd sample_etcd ''t'' ''a'' 1 [] = Ret (Inl err, db'))
   \<and> (\<exists>rows db'. etcd_Scan mem_etcd sample_etcd ''t'' ''a'' 2 [] = Ret (Inr ([None, None] @ map Some rows), db') \<and> length rows = 2)"
proof -
  have f: "row_ok ascii_names [(''f'', [x])]" for x by (simp add: row_ok_def ascii_names_def ascii_def)
  have i: "etcd_inv mem_etcd (\<lambda>s. True) map_of (\<lambda>k v. True) sample_etcd"
    using mem_etcd_laws json_row_Marshal [OF f] by (auto simp: etcd_inv_def sample_etcd_def ran_def split: if_splits)
  have ks: "etcd_from (map_of (ed_client sample_etcd)) (colon_key ''t'' ''a'') = [''t:a'', ''t:b'']"
    unfolding etcd_from_map_of by (simp add: sample_etcd_def colon_key_def)
  have c: "(0 :: int) < 1" "(0 :: int) < 2" "plain_table ''t''" "etcd_accepts (\<lambda>k v. True) ''t'' ''a'' (map_of [(''f'', [0])])"
    by (simp_all add: plain_table_def etcd_accepts_def)
  from etcd_scan_and_update [OF i c(1) ks [symmetric] c(3) f c(4), of "[]"] etcd_scan_and_update [OF i c(2) ks [symmetric] c(3) f c(4), of "[]"]
  show ?thesis by (simp add: numeral_2_eq_2) blast
qed

end
