(* ===== verification/Pegasus.thy ===== *)
theory Pegasus
  imports DocStore
begin

text \<open>
  The Pegasus adapter, \<^verbatim>\<open>db/pegasus/db.go\<close>: one session per thread, rows as JSON under the key alone. The client is a parameter. The lemmas show that writes reach the store, and that \<open>Read\<close>
  never delivers anything of it.
\<close>

section \<open>The client\<close>

text \<open>Sessions are handles. A lookup delivers the bytes of the value as a text.\<close>

record 's pegasus_api =
  pe_OpenTable :: "'s \<Rightarrow> string \<Rightarrow> (error + nat) \<times> 's"
  pe_Get :: "'s \<Rightarrow> nat \<Rightarrow> string \<Rightarrow> string \<Rightarrow> (error + string) \<times> 's"
  pe_Set :: "'s \<Rightarrow> nat \<Rightarrow> string \<Rightarrow> string \<Rightarrow> string \<Rightarrow> error option \<times> 's"
  pe_Del :: "'s \<Rightarrow> nat \<Rightarrow> string \<Rightarrow> string \<Rightarrow> error option \<times> 's"
  pe_SessionClose :: "'s \<Rightarrow> nat \<Rightarrow> error option \<times> 's"
  pe_Close :: "'s \<Rightarrow> error option \<times> 's"

text \<open>The thread number that \<open>InitThread\<close> puts into the context is part of the state.\<close>

record 's pegasusDB =
  pe_client :: 's
  pe_sessions :: "nat list"
  pe_tid :: "int option"

section \<open>Creation\<close>

fun pegasus_open_all :: "'s pegasus_api \<Rightarrow> string \<Rightarrow> nat \<Rightarrow> 's \<Rightarrow> (error + nat list) \<times> 's" where
  "pegasus_open_all api tbName 0 s = (Inr [], s)"
| "pegasus_open_all api tbName (Suc n) s =
     (case pe_OpenTable api s tbName of
        (Inl err, s) \<Rightarrow> (Inl err, s)
      | (Inr tb, s) \<Rightarrow> (let (res, s) = pegasus_open_all api tbName n s in (map_sum id (Cons tb) res, s)))"

definition pegasus_Create ::
    "(string \<Rightarrow> string go) \<Rightarrow> (string \<Rightarrow> int go) \<Rightarrow> (string list \<Rightarrow> 's) \<Rightarrow> 's pegasus_api \<Rightarrow> (error + 's pegasusDB) go" where
  "pegasus_Create MustGetString MustGetInt NewClient api =
     gbind (MustGetString ''meta_servers'') (\<lambda>conf. gbind (MustGetString ''table'') (\<lambda>tbName. gbind (MustGetInt ''threadcount'') (\<lambda>threadCount.
       if threadCount < 0 then Panic ''makeslice: len out of range''
       else let (res, s) = pegasus_open_all api tbName (nat threadCount) (NewClient (split_on (CHR '','') conf))
            in Ret (map_sum id (\<lambda>sessions. \<lparr>pe_client = s, pe_sessions = sessions, pe_tid = None\<rparr>) res))))"

definition pegasus_InitThread :: "'s pegasusDB \<Rightarrow> int \<Rightarrow> 's pegasusDB" where
  "pegasus_InitThread db threadId = db\<lparr>pe_tid := Some threadId\<rparr>"

fun pegasus_close_all :: "'s pegasus_api \<Rightarrow> nat list \<Rightarrow> 's \<Rightarrow> error option \<times> 's" where
  "pegasus_close_all api [] s = pe_Close api s"
| "pegasus_close_all api (h # hs) s = (case pe_SessionClose api s h of (Some err, s) \<Rightarrow> (Some err, s) | (None, s) \<Rightarrow> pegasus_close_all api hs s)"

definition pegasus_Close :: "'s pegasus_api \<Rightarrow> 's pegasusDB \<Rightarrow> error option \<times> 's pegasusDB" where
  "pegasus_Close api db = (let (err, s) = pegasus_close_all api (pe_sessions db) (pe_client db) in (err, db\<lparr>pe_client := s\<rparr>))"

section \<open>Operations\<close>

definition pegasus_session :: "'s pegasusDB \<Rightarrow> nat go" where
  "pegasus_session db = (case pe_tid db of None \<Rightarrow> Panic ''interface conversion: interface {} is nil'' | Some tid \<Rightarrow> go_index (pe_sessions db) tid)"

text \<open>
  \<open>json.Unmarshal\<close> into something that is no pointer: it returns an error before it looks at the text, and the target stays as it is.
\<close>

definition json_Unmarshal_nonpointer :: "string \<Rightarrow> row \<Rightarrow> error option \<times> row" where
  "json_Unmarshal_nonpointer s target = (Some ''json: Unmarshal(non-pointer map[string][]uint8)'', target)"

definition pegasus_Read :: "'s pegasus_api \<Rightarrow> 's pegasusDB \<Rightarrow> string \<Rightarrow> string \<Rightarrow> string list \<Rightarrow> ((error + row) \<times> 's pegasusDB) go" where
  "pegasus_Read api db table key fnames =
     gbind (pegasus_session db) (\<lambda>h.
       let (res, s) = pe_Get api (pe_client db) h key []; db = db\<lparr>pe_client := s\<rparr> in
       Ret (case res of
              Inl err \<Rightarrow> Inl err
            | Inr rawValue \<Rightarrow>
                let value = snd (json_Unmarshal_nonpointer rawValue []) in
                Inr (foldl (\<lambda>result field. case map_of value field of Some v \<Rightarrow> AList.update field v result | None \<Rightarrow> result) [] fnames), db))"

definition pegasus_Scan :: "'s pegasusDB \<Rightarrow> string \<Rightarrow> string \<Rightarrow> int \<Rightarrow> string list \<Rightarrow> ((error + row option list) \<times> 's pegasusDB) go" where
  "pegasus_Scan db table startKey cnt fnames = Ret (Inr [], db)"

definition pegasus_Update :: "'s pegasus_api \<Rightarrow> 's pegasusDB \<Rightarrow> string \<Rightarrow> string \<Rightarrow> row \<Rightarrow> (error option \<times> 's pegasusDB) go" where
  "pegasus_Update api db table key vals =
     gbind (pegasus_session db) (\<lambda>h. let (err, s) = pe_Set api (pe_client db) h key [] (json_Marshal vals) in Ret (err, db\<lparr>pe_client := s\<rparr>))"

definition pegasus_Insert :: "'s pegasus_api \<Rightarrow> 's pegasusDB \<Rightarrow> string \<Rightarrow> string \<Rightarrow> row \<Rightarrow> (error option \<times> 's pegasusDB) go" where
  "pegasus_Insert api db table key vals =
     gbind (pegasus_session db) (\<lambda>h. let (err, s) = pe_Set api (pe_client db) h key [] (json_Marshal vals) in Ret (err, db\<lparr>pe_client := s\<rparr>))"

definition pegasus_Delete :: "'s pegasus_api \<Rightarrow> 's pegasusDB \<Rightarrow> string \<Rightarrow> string \<Rightarrow> (error option \<times> 's pegasusDB) go" where
  "pegasus_Delete api db table key =
     gbind (pegasus_session db) (\<lambda>h. let (err, s) = pe_Del api (pe_client db) h key [] in Ret (err, db\<lparr>pe_client := s\<rparr>))"

definition pegasus_db :: "'s pegasus_api \<Rightarrow> 's pegasusDB db" where
  "pegasus_db api =
     \<lparr>db_Close = (\<lambda>d. Ret (pegasus_Close api d)), db_InitThread = (\<lambda>d i n. Ret (pegasus_InitThread d i)), db_CleanupThread = Ret,
      db_Read = pegasus_Read api, db_Scan = pegasus_Scan, db_Update = pegasus_Update api, db_Insert = pegasus_Insert api, db_Delete = pegasus_Delete api,
      db_Batch = None, db_Analyze = None, db_TypeName = ''*pegasus.pegasusDB''\<rparr>"

section \<open>The adapter\<close>

text \<open>Every open session sees the same table; the sort key is always empty.\<close>

definition pegasus_laws :: "'s pegasus_api \<Rightarrow> ('s \<Rightarrow> bool) \<Rightarrow> ('s \<Rightarrow> string \<rightharpoonup> string) \<Rightarrow> nat set \<Rightarrow> (string \<Rightarrow> string \<Rightarrow> bool) \<Rightarrow> bool" where
  "pegasus_laws api ok view H adm \<longleftrightarrow>
     (\<forall>h\<in>H. kv_laws (\<lambda>s k. pe_Get api s h k []) (\<lambda>s k v. pe_Set api s h k [] v) (\<lambda>s k. pe_Del api s h k []) ok view adm)"

definition pegasus_inv :: "'s pegasus_api \<Rightarrow> ('s \<Rightarrow> bool) \<Rightarrow> ('s \<Rightarrow> string \<rightharpoonup> string) \<Rightarrow> (string \<Rightarrow> string \<Rightarrow> bool) \<Rightarrow> 's pegasusDB \<Rightarrow> bool" where
  "pegasus_inv api ok view adm db \<longleftrightarrow> pegasus_laws api ok view (set (pe_sessions db)) adm \<and> ok (pe_client db)
     \<and> (\<exists>i < length (pe_sessions db). pe_tid db = Some (int i))"

definition pegasus_rows :: "string \<Rightarrow> ('s \<Rightarrow> string \<rightharpoonup> string) \<Rightarrow> 's pegasusDB \<Rightarrow> table" where
  "pegasus_rows T view db = doc_rows (\<lambda>t. t = T) (\<lambda>t k. k) json_row (view (pe_client db))"

definition pegasus_accepts :: "(string \<Rightarrow> string \<Rightarrow> bool) \<Rightarrow> string \<Rightarrow> string \<Rightarrow> rowmap \<Rightarrow> bool" where
  "pegasus_accepts adm t k m \<longleftrightarrow> (\<forall>v. row_ok ascii_names v \<longrightarrow> map_of v = m \<longrightarrow> adm k (json_Marshal v))"

text \<open>A read delivers nothing.\<close>

definition blind_policy :: row_policy where
  "blind_policy = \<lparr>rp_ins = (\<lambda>old v. v), rp_upd = (\<lambda>m v. v), rp_sel = (\<lambda>k m fs. Map.empty)\<rparr>"

lemma pegasus_session_ok:
  assumes "pegasus_inv api ok view adm db"
  shows "\<exists>h. pegasus_session db = Ret h
    \<and> kv_laws (\<lambda>s k. pe_Get api s h k []) (\<lambda>s k v. pe_Set api s h k [] v) (\<lambda>s k. pe_Del api s h k []) ok view adm"
  using assms by (auto simp: pegasus_inv_def pegasus_laws_def pegasus_session_def go_index_def)

lemma pegasus_Insert_ok:
  assumes "pegasus_inv api ok view adm db" and "row_ok ascii_names v" and "pegasus_accepts adm T k (map_of v)"
  shows "\<exists>db'. pegasus_Insert api db T k v = Ret (None, db') \<and> pegasus_inv api ok view adm db' \<and> pegasus_rows T view db' = (pegasus_rows T view db)((T, k) \<mapsto> map_of v)"
proof -
  obtain h where h: "pegasus_session db = Ret h"
    "kv_laws (\<lambda>s k. pe_Get api s h k []) (\<lambda>s k v. pe_Set api s h k [] v) (\<lambda>s k. pe_Del api s h k []) ok view adm" using pegasus_session_ok [OF assms(1)] by blast
  have "ok (pe_client db)" "adm k (json_Marshal v)" using assms by (auto simp: pegasus_inv_def pegasus_accepts_def)
  from kv_put_law [OF h(2) this] obtain s where "pe_Set api (pe_client db) h k [] (json_Marshal v) = (None, s)" "ok s"
      "view s = (view (pe_client db))(k \<mapsto> json_Marshal v)" by blast
  then show ?thesis using assms(1) h(1) json_row_Marshal [OF assms(2)] one_table.doc_rows_upd [of T T json_row "view (pe_client db)" k]
    by (auto simp: pegasus_Insert_def pegasus_inv_def pegasus_rows_def)
qed

lemma pegasus_Update_is_Insert: "pegasus_Update = pegasus_Insert"
  by (simp add: fun_eq_iff pegasus_Update_def pegasus_Insert_def)

interpretation pegasus: policy_db "pegasus_db api" "pegasus_inv api ok view adm" "pegasus_rows T view" "\<lambda>db. ascii_names" "\<lambda>t. t = T" "pegasus_accepts adm" "\<lambda>db. blind_policy"
  for api ok view adm T
proof (unfold_locales, goal_cases)
  case (1 d t v k)
  then show ?case using pegasus_Insert_ok [OF 1(1,3), of T k] by (auto simp: pegasus_db_def blind_policy_def)
next
  case (2 d t v k m)
  then show ?case using pegasus_Insert_ok [OF 2(1,3), of T k] by (auto simp: pegasus_db_def pegasus_Update_is_Insert blind_policy_def)
next
  case (3 d t k m)
  obtain h where h: "pegasus_session d = Ret h"
    "kv_laws (\<lambda>s k. pe_Get api s h k []) (\<lambda>s k v. pe_Set api s h k [] v) (\<lambda>s k. pe_Del api s h k []) ok view adm" using pegasus_session_ok [OF 3(1)] by blast
  have "ok (pe_client d)" using 3(1) by (simp add: pegasus_inv_def)
  from kv_del_law [OF h(2) this, of k] obtain s where "pe_Del api (pe_client d) h k [] = (None, s)" "ok s" "view s = (view (pe_client d))(k := None)" by blast
  then show ?case using 3(1,2) h(1) one_table.doc_rows_upd [of T T json_row "view (pe_client d)" k None]
    by (auto simp: pegasus_db_def pegasus_Delete_def pegasus_inv_def pegasus_rows_def)
next
  case (4 d t fs k m)
  obtain h where h: "pegasus_session d = Ret h"
    "kv_laws (\<lambda>s k. pe_Get api s h k []) (\<lambda>s k v. pe_Set api s h k [] v) (\<lambda>s k. pe_Del api s h k []) ok view adm" using pegasus_session_ok [OF 4(1)] by blast
  have o: "ok (pe_client d)" using 4(1) by (simp add: pegasus_inv_def)
  obtain doc where doc: "view (pe_client d) k = Some doc" using 4(2,4) by (auto simp: pegasus_rows_def doc_rows_def)
  from kv_get_law [OF h(2) o, OF doc] obtain s where "pe_Get api (pe_client d) h k [] = (Inr doc, s)" "ok s" "view s = view (pe_client d)" by blast
  moreover have "foldl (\<lambda>result field. result) [] fs = ([] :: row)" by (induction fs) auto
  ultimately show ?case using 4(1) h(1)
    by (auto simp: pegasus_db_def pegasus_Read_def json_Unmarshal_nonpointer_def pegasus_inv_def pegasus_rows_def blind_policy_def)
qed

section \<open>Properties\<close>

text \<open>Whatever the server answers and whatever has been stored, a row that \<open>Read\<close> returns has no fields.\<close>

lemma pegasus_read_empty:
  assumes "pegasus_Read api db t k fs = Ret (Inr res, db')"
  shows "res = []"
proof -
  have "foldl (\<lambda>result field. result) [] fs = ([] :: row)" by (induction fs) auto
  moreover obtain h where "pegasus_session db = Ret h" using assms by (auto simp: pegasus_Read_def gbind_eq_Ret_iff)
  moreover obtain r s where "pe_Get api (pe_client db) h k [] = (r, s)" by fastforce
  ultimately show ?thesis using assms by (cases r) (auto simp: pegasus_Read_def json_Unmarshal_nonpointer_def)
qed

end
