(* ===== verification/S3.thy ===== *)
theory S3
  imports DocStore
begin

text \<open>
  The S3 adapter, \<^verbatim>\<open>db/s3/db.go\<close> and \<^verbatim>\<open>db/s3/encoding.go\<close>: an object per row in one bucket, listed page by page for scans. The service and the MessagePack codec are parameters. The lemmas
  show that the adapter is a table of rows under both settings of \<open>s3.update_overwrite\<close>, and that a scan over pages returns exactly the rows that follow the start key.
\<close>

section \<open>Encoding\<close>

text \<open>
  The codec writes to the buffer it is given and reads a map, which may be nil. The buffer comes from a pool and is reset; the encoded bytes are copied out of it before it goes back.
\<close>

record msgpack =
  mp_Encode :: "byte list \<Rightarrow> row \<Rightarrow> error + byte list"
  mp_Decode :: "byte list \<Rightarrow> error + row option"

definition encodeValues :: "msgpack \<Rightarrow> byte list \<Rightarrow> row \<Rightarrow> error + byte list" where
  "encodeValues mp pooled vals = (let buf = take 0 pooled in case mp_Encode mp buf vals of Inl err \<Rightarrow> Inl err | Inr buf \<Rightarrow> Inr (take (length buf) buf))"

definition decodeValues :: "msgpack \<Rightarrow> byte list \<Rightarrow> error + row option" where
  "decodeValues mp data = (case mp_Decode mp data of Inl err \<Rightarrow> Inl err | Inr m \<Rightarrow> Inr m)"

section \<open>The service\<close>

record s3_page =
  pg_Contents :: "string list"
  pg_IsTruncated :: bool
  pg_NextContinuationToken :: "string option"

text \<open>The outcome of \<open>CreateBucket\<close>, as far as the adapter tells errors apart. An object is delivered with the outcome of reading its body.\<close>

datatype s3_created = Created | AlreadyOwned | AlreadyExists | CreateFailed error

record 's s3_api =
  s3_HeadBucket :: "'s \<Rightarrow> string \<Rightarrow> error option \<times> 's"
  s3_CreateBucket :: "'s \<Rightarrow> string \<Rightarrow> s3_created \<times> 's"
  s3_GetObject :: "'s \<Rightarrow> string \<Rightarrow> string \<Rightarrow> (error + (error + byte list)) \<times> 's"
  s3_PutObject :: "'s \<Rightarrow> string \<Rightarrow> string \<Rightarrow> byte list \<Rightarrow> error option \<times> 's"
  s3_DeleteObject :: "'s \<Rightarrow> string \<Rightarrow> string \<Rightarrow> error option \<times> 's"
  s3_ListObjectsV2 :: "'s \<Rightarrow> string \<Rightarrow> string \<Rightarrow> string \<Rightarrow> string option \<Rightarrow> int \<Rightarrow> (error + s3_page) \<times> 's"

record 's s3DB =
  sb_client :: 's
  sb_bucket :: string
  sb_updateOverwrite :: bool
  sb_scanKeysOnly :: bool

record s3_config =
  sc_Region :: string
  sc_Credentials :: "(string \<times> string) option"
  sc_Endpoint :: "string option"
  sc_UsePathStyle :: bool

definition s3_config_of :: "props \<Rightarrow> s3_config" where
  "s3_config_of p =
     (let endpoint = GetString p ''s3.endpoint'' []; accessKey = GetString p ''s3.access_key'' []; secretKey = GetString p ''s3.secret_key'' [] in
      \<lparr>sc_Region = GetString p ''s3.region'' ''us-east-1'',
       sc_Credentials = (if accessKey \<noteq> [] \<and> secretKey \<noteq> [] then Some (accessKey, secretKey) else None),
       sc_Endpoint = (if endpoint \<noteq> [] then Some endpoint else None), sc_UsePathStyle = GetBool p ''s3.use_path_style'' False\<rparr>)"

definition s3_ensure_bucket :: "'s s3_api \<Rightarrow> string \<Rightarrow> 's \<Rightarrow> error option \<times> 's" where
  "s3_ensure_bucket api bucket s =
     (case s3_HeadBucket api s bucket of
        (None, s) \<Rightarrow> (None, s)
      | (Some _, s) \<Rightarrow> (case s3_CreateBucket api s bucket of (CreateFailed cErr, s) \<Rightarrow> (Some cErr, s) | (_, s) \<Rightarrow> (None, s)))"

definition s3_Create :: "(s3_config \<Rightarrow> error + 's) \<Rightarrow> 's s3_api \<Rightarrow> props \<Rightarrow> error + 's s3DB" where
  "s3_Create NewClient api p =
     (let bucket = GetString p ''s3.bucket'' ''ycsb'' in
      case NewClient (s3_config_of p) of
        Inl err \<Rightarrow> Inl err
      | Inr s \<Rightarrow> (case s3_ensure_bucket api bucket s of
            (Some err, s) \<Rightarrow> Inl err
          | (None, s) \<Rightarrow> Inr \<lparr>sb_client = s, sb_bucket = bucket, sb_updateOverwrite = GetBool p ''s3.update_overwrite'' True,
              sb_scanKeysOnly = GetBool p ''s3.scan_keys_only'' False\<rparr>))"

definition s3_Close :: "'s s3DB \<Rightarrow> error option \<times> 's s3DB" where
  "s3_Close db = (None, db)"

section \<open>Rows\<close>

definition composeObjectKey :: "string \<Rightarrow> string \<Rightarrow> string" where
  "composeObjectKey table key = (if table = [] then key else table @ ''/'' @ key)"

text \<open>The loop over the requested fields: those that the row has.\<close>

definition s3_filter :: "row \<Rightarrow> string list \<Rightarrow> row" where
  "s3_filter allValues fnames =
     foldl (\<lambda>filtered f. case map_of allValues f of Some v \<Rightarrow> AList.update f v filtered | None \<Rightarrow> filtered) [] fnames"

definition s3_Read :: "msgpack \<Rightarrow> 's s3_api \<Rightarrow> 's s3DB \<Rightarrow> string \<Rightarrow> string \<Rightarrow> string list \<Rightarrow> (error + row option) \<times> 's s3DB" where
  "s3_Read mp api db table key fnames =
     (let (res, s) = s3_GetObject api (sb_client db) (sb_bucket db) (composeObjectKey table key) in
      (case res of
         Inl err \<Rightarrow> Inl err
       | Inr (Inl err) \<Rightarrow> Inl err
       | Inr (Inr payload) \<Rightarrow>
           (case decodeValues mp payload of
              Inl err \<Rightarrow> Inl err
            | Inr allValues \<Rightarrow> Inr (if fnames \<noteq> [] then Some (s3_filter (nil_row allValues) fnames) else allValues)), db\<lparr>sb_client := s\<rparr>))"

definition s3_Insert :: "msgpack \<Rightarrow> 's s3_api \<Rightarrow> 's s3DB \<Rightarrow> string \<Rightarrow> string \<Rightarrow> row \<Rightarrow> error option \<times> 's s3DB" where
  "s3_Insert mp api db table key vals =
     (case encodeValues mp [] vals of
        Inl err \<Rightarrow> (Some err, db)
      | Inr payload \<Rightarrow>
          (let (err, s) = s3_PutObject api (sb_client db) (sb_bucket db) (composeObjectKey table key) payload in (err, db\<lparr>sb_client := s\<rparr>)))"

text \<open>Without overwriting, the stored row is read first; an error of that read is dropped, and the row is then taken as empty.\<close>

definition s3_Update :: "msgpack \<Rightarrow> 's s3_api \<Rightarrow> 's s3DB \<Rightarrow> string \<Rightarrow> string \<Rightarrow> row \<Rightarrow> error option \<times> 's s3DB" where
  "s3_Update mp api db table key vals =
     (if \<not> sb_updateOverwrite db then
        (let (res, db) = s3_Read mp api db table key []; existing = (case res of Inl _ \<Rightarrow> [] | Inr m \<Rightarrow> nil_row m)
         in s3_Insert mp api db table key (merge_fields existing vals))
      else s3_Insert mp api db table key vals)"

definition s3_Delete :: "'s s3_api \<Rightarrow> 's s3DB \<Rightarrow> string \<Rightarrow> string \<Rightarrow> error option \<times> 's s3DB" where
  "s3_Delete api db table key =
     (let (err, s) = s3_DeleteObject api (sb_client db) (sb_bucket db) (composeObjectKey table key) in (err, db\<lparr>sb_client := s\<rparr>))"

section \<open>Scans\<close>

definition i32 :: "int \<Rightarrow> int" where
  "i32 n = (n + 2 ^ 31) mod 2 ^ 32 - 2 ^ 31"

definition recordKey_of :: "string \<Rightarrow> string \<Rightarrow> string" where
  "recordKey_of pfx key = (if pfx \<noteq> [] \<and> length key > length pfx \<and> take (length pfx) key = pfx then drop (length pfx) key else key)"

text \<open>The loop over the keys of a page. A record that cannot be read is skipped.\<close>

fun s3_page_loop :: "msgpack \<Rightarrow> 's s3_api \<Rightarrow> string \<Rightarrow> string list \<Rightarrow> string \<Rightarrow> string \<Rightarrow> string list \<Rightarrow> int \<Rightarrow> row option list \<Rightarrow> 's s3DB
    \<Rightarrow> (int \<times> row option list) \<times> 's s3DB" where
  "s3_page_loop mp api table fnames pfx startAfter [] remaining results db = ((remaining, results), db)"
| "s3_page_loop mp api table fnames pfx startAfter (key # keys) remaining results db =
     (if remaining = 0 then ((remaining, results), db)
      else if key = startAfter then s3_page_loop mp api table fnames pfx startAfter keys remaining results db
      else
        let recordKey = recordKey_of pfx key in
        if sb_scanKeysOnly db then s3_page_loop mp api table fnames pfx startAfter keys (remaining - 1) (results @ [Some [(recordKey, [])]]) db
        else case s3_Read mp api db table recordKey fnames of
               (Inl err, db) \<Rightarrow> s3_page_loop mp api table fnames pfx startAfter keys remaining results db
             | (Inr r, db) \<Rightarrow> s3_page_loop mp api table fnames pfx startAfter keys (remaining - 1) (results @ [r]) db)"

text \<open>The loop over the pages, with fuel: nothing in the code bounds the number of pages whose records are all skipped.\<close>

fun s3_pages :: "nat \<Rightarrow> msgpack \<Rightarrow> 's s3_api \<Rightarrow> string \<Rightarrow> string list \<Rightarrow> string \<Rightarrow> string \<Rightarrow> string option \<Rightarrow> int \<Rightarrow> row option list \<Rightarrow> 's s3DB
    \<Rightarrow> ((error + row option list) \<times> 's s3DB) go" where
  "s3_pages 0 mp api table fnames pfx startAfter token remaining results db = Hang"
| "s3_pages (Suc fuel) mp api table fnames pfx startAfter token remaining results db =
     (if remaining \<le> 0 then Ret (Inr results, db)
      else
        let maxKeys = (if i32 remaining > 1000 then 1000 else i32 remaining);
            (res, s) = s3_ListObjectsV2 api (sb_client db) (sb_bucket db) pfx startAfter token maxKeys;
            db = db\<lparr>sb_client := s\<rparr>
        in case res of
             Inl err \<Rightarrow> Ret (Inl err, db)
           | Inr page \<Rightarrow>
               if pg_Contents page = [] then Ret (Inr results, db)
               else let ((remaining, results), db) = s3_page_loop mp api table fnames pfx startAfter (pg_Contents page) remaining results db in
                    if \<not> pg_IsTruncated page \<or> remaining = 0 then Ret (Inr results, db)
                    else s3_pages fuel mp api table fnames pfx startAfter (pg_NextContinuationToken page) remaining results db)"

definition s3_first :: "msgpack \<Rightarrow> 's s3_api \<Rightarrow> string \<Rightarrow> string \<Rightarrow> string list \<Rightarrow> 's s3DB \<Rightarrow> row option list \<times> 's s3DB" where
  "s3_first mp api table startKey fnames db =
     (if startKey = [] then ([], db)
      else if sb_scanKeysOnly db then ([Some [(startKey, [])]], db)
      else case s3_Read mp api db table startKey fnames of
             (Inr (Some r), db) \<Rightarrow> ([Some r], db)
           | (_, db) \<Rightarrow> ([], db))"

definition s3_Scan ::
    "nat \<Rightarrow> msgpack \<Rightarrow> 's s3_api \<Rightarrow> 's s3DB \<Rightarrow> string \<Rightarrow> string \<Rightarrow> int \<Rightarrow> string list \<Rightarrow> ((error + row option list) \<times> 's s3DB) go" where
  "s3_Scan fuel mp api db table startKey cnt fnames =
     (if cnt \<le> 0 then Ret (Inr [], db)
      else
        let (results, db) = s3_first mp api table startKey fnames db in
        if startKey \<noteq> [] \<and> int (length results) \<ge> cnt then Ret (Inr results, db)
        else s3_pages fuel mp api table fnames (if table \<noteq> [] then table @ ''/'' else []) (composeObjectKey table startKey) None
               (cnt - int (length results)) results db)"

section \<open>Batches\<close>

fun s3_each :: "('s s3DB \<Rightarrow> string \<Rightarrow> row \<Rightarrow> error option \<times> 's s3DB) \<Rightarrow> string list \<Rightarrow> row list \<Rightarrow> 's s3DB \<Rightarrow> (error option \<times> 's s3DB) go" where
  "s3_each act [] vals db = Ret (None, db)"
| "s3_each act (k # ks) vals db =
     gbind (go_index vals 0) (\<lambda>v. case act db k v of (Some err, db) \<Rightarrow> Ret (Some err, db) | (None, db) \<Rightarrow> s3_each act ks (tl vals) db)"

definition s3_BatchInsert :: "msgpack \<Rightarrow> 's s3_api \<Rightarrow> 's s3DB \<Rightarrow> string \<Rightarrow> string list \<Rightarrow> row list \<Rightarrow> (error option \<times> 's s3DB) go" where
  "s3_BatchInsert mp api db table keys vals = s3_each (\<lambda>db k v. s3_Insert mp api db table k v) keys vals db"

fun s3_read_all :: "msgpack \<Rightarrow> 's s3_api \<Rightarrow> string \<Rightarrow> string list \<Rightarrow> string list \<Rightarrow> 's s3DB \<Rightarrow> (error + row option list) \<times> 's s3DB" where
  "s3_read_all mp api table fnames [] db = (Inr [], db)"
| "s3_read_all mp api table fnames (k # ks) db =
     (case s3_Read mp api db table k fnames of
        (Inl err, db) \<Rightarrow> (Inl err, db)
      | (Inr r, db) \<Rightarrow> (let (res, db) = s3_read_all mp api table fnames ks db in (map_sum id (Cons r) res, db)))"

definition s3_BatchRead :: "msgpack \<Rightarrow> 's s3_api \<Rightarrow> 's s3DB \<Rightarrow> string \<Rightarrow> string list \<Rightarrow> string list \<Rightarrow> ((error + row option list) \<times> 's s3DB) go" where
  "s3_BatchRead mp api db table keys fnames = Ret (s3_read_all mp api table fnames keys db)"

definition s3_BatchUpdate :: "msgpack \<Rightarrow> 's s3_api \<Rightarrow> 's s3DB \<Rightarrow> string \<Rightarrow> string list \<Rightarrow> row list \<Rightarrow> (error option \<times> 's s3DB) go" where
  "s3_BatchUpdate mp api db table keys vals = s3_each (\<lambda>db k v. s3_Update mp api db table k v) keys vals db"

fun s3_BatchDelete :: "'s s3_api \<Rightarrow> 's s3DB \<Rightarrow> string \<Rightarrow> string list \<Rightarrow> (error option \<times> 's s3DB) go" where
  "s3_BatchDelete api db table [] = Ret (None, db)"
| "s3_BatchDelete api db table (k # ks) =
     (case s3_Delete api db table k of (Some err, db) \<Rightarrow> Ret (Some err, db) | (None, db) \<Rightarrow> s3_BatchDelete api db table ks)"

definition s3_db :: "nat \<Rightarrow> msgpack \<Rightarrow> 's s3_api \<Rightarrow> 's s3DB db" where
  "s3_db fuel mp api =
     \<lparr>db_Close = (\<lambda>d. Ret (s3_Close d)), db_InitThread = (\<lambda>d i n. Ret d), db_CleanupThread = Ret,
      db_Read = (\<lambda>d t k fs. let (r, d) = s3_Read mp api d t k fs in Ret (map_sum id nil_row r, d)), db_Scan = s3_Scan fuel mp api,
      db_Update = (\<lambda>d t k v. Ret (s3_Update mp api d t k v)), db_Insert = (\<lambda>d t k v. Ret (s3_Insert mp api d t k v)),
      db_Delete = (\<lambda>d t k. Ret (s3_Delete api d t k)),
      db_Batch = Some \<lparr>db_BatchInsert = s3_BatchInsert mp api, db_BatchRead = s3_BatchRead mp api,
        db_BatchUpdate = s3_BatchUpdate mp api, db_BatchDelete = s3_BatchDelete api\<rparr>,
      db_Analyze = None, db_TypeName = ''*s3.s3DB''\<rparr>"

section \<open>The behaviour of the service\<close>

text \<open>
  The objects of the bucket are the map \<open>view\<close>. The codec reads back what it wrote. A listing has the keys with the given prefix after the given key, or after the one that a continuation token stands
  for (\<open>cont\<close>), in byte order and at most as many as asked for; it is truncated exactly when more keys follow, and its token then stands for its last key.
\<close>

definition s3_keys :: "(string \<rightharpoonup> byte list) \<Rightarrow> string \<Rightarrow> string \<Rightarrow> string list" where
  "s3_keys m pfx a = filter (\<lambda>k. a < k \<and> take (length pfx) k = pfx) (sorted_list_of_set (dom m))"

definition s3_list_law ::
    "'s s3_api \<Rightarrow> string \<Rightarrow> ('s \<Rightarrow> bool) \<Rightarrow> ('s \<Rightarrow> string \<rightharpoonup> byte list) \<Rightarrow> (string \<Rightarrow> string) \<Rightarrow> bool" where
  "s3_list_law api bucket ok view cont \<longleftrightarrow>
     (\<forall>s pfx startAfter token n. ok s \<longrightarrow> 0 < n \<longrightarrow> finite (dom (view s)) \<and>
        (let ks = s3_keys (view s) pfx (case token of None \<Rightarrow> startAfter | Some tk \<Rightarrow> cont tk) in
         \<exists>page t. s3_ListObjectsV2 api s bucket pfx startAfter token n = (Inr page, t) \<and> ok t \<and> view t = view s
           \<and> pg_Contents page = take (nat n) ks \<and> (pg_IsTruncated page \<longleftrightarrow> nat n < length ks)
           \<and> (nat n < length ks \<longrightarrow> (\<exists>tk. pg_NextContinuationToken page = Some tk \<and> cont tk = ks ! (nat n - 1)))))"

definition msgpack_laws :: "msgpack \<Rightarrow> bool" where
  "msgpack_laws mp \<longleftrightarrow>
     (\<forall>v. row_ok ascii_names v \<longrightarrow> (\<exists>bs m. mp_Encode mp [] v = Inr bs \<and> mp_Decode mp bs = Inr (Some m) \<and> map_of m = map_of v \<and> row_ok ascii_names m))"

definition s3_get :: "'s s3_api \<Rightarrow> string \<Rightarrow> 's \<Rightarrow> string \<Rightarrow> (error + byte list) \<times> 's" where
  "s3_get api bucket s k = (let (res, s) = s3_GetObject api s bucket k in (case res of Inl err \<Rightarrow> Inl err | Inr body \<Rightarrow> body, s))"

definition s3_laws :: "msgpack \<Rightarrow> 's s3_api \<Rightarrow> string \<Rightarrow> ('s \<Rightarrow> bool) \<Rightarrow> ('s \<Rightarrow> string \<rightharpoonup> byte list) \<Rightarrow> (string \<Rightarrow> byte list \<Rightarrow> bool) \<Rightarrow> bool" where
  "s3_laws mp api bucket ok view adm \<longleftrightarrow> msgpack_laws mp
     \<and> kv_laws (s3_get api bucket) (\<lambda>s k v. s3_PutObject api s bucket k v) (\<lambda>s k. s3_DeleteObject api s bucket k) ok view adm"

text \<open>What an object stands for, and the objects that can be read.\<close>

definition s3_row :: "msgpack \<Rightarrow> byte list \<Rightarrow> rowmap" where
  "s3_row mp bs = (case mp_Decode mp bs of Inr m \<Rightarrow> map_of (nil_row m) | Inl _ \<Rightarrow> Map.empty)"

definition s3_doc :: "msgpack \<Rightarrow> byte list \<Rightarrow> bool" where
  "s3_doc mp bs \<longleftrightarrow> (\<exists>m. mp_Decode mp bs = Inr (Some m) \<and> row_ok ascii_names m)"

definition s3_table :: "string \<Rightarrow> bool" where
  "s3_table t \<longleftrightarrow> t \<noteq> [] \<and> CHR ''/'' \<notin> set t"

interpretation s3_key: composed_key s3_table composeObjectKey
  by unfold_locales (auto simp: s3_table_def composeObjectKey_def dest: append_sep_inj)

definition s3_inv ::
    "msgpack \<Rightarrow> 's s3_api \<Rightarrow> string \<Rightarrow> ('s \<Rightarrow> bool) \<Rightarrow> ('s \<Rightarrow> string \<rightharpoonup> byte list) \<Rightarrow> (string \<Rightarrow> byte list \<Rightarrow> bool) \<Rightarrow> 's s3DB \<Rightarrow> bool" where
  "s3_inv mp api bucket ok view adm db \<longleftrightarrow> s3_laws mp api bucket ok view adm \<and> ok (sb_client db) \<and> sb_bucket db = bucket
     \<and> (\<forall>bs\<in>ran (view (sb_client db)). s3_doc mp bs)"

definition s3_rows :: "msgpack \<Rightarrow> ('s \<Rightarrow> string \<rightharpoonup> byte list) \<Rightarrow> 's s3DB \<Rightarrow> table" where
  "s3_rows mp view db = doc_rows s3_table composeObjectKey (s3_row mp) (view (sb_client db))"

definition s3_accepts :: "msgpack \<Rightarrow> (string \<Rightarrow> byte list \<Rightarrow> bool) \<Rightarrow> string \<Rightarrow> string \<Rightarrow> rowmap \<Rightarrow> bool" where
  "s3_accepts mp adm t k m \<longleftrightarrow> (\<forall>v bs. row_ok ascii_names v \<longrightarrow> map_of v = m \<longrightarrow> mp_Encode mp [] v = Inr bs \<longrightarrow> adm (composeObjectKey t k) bs)"

definition s3_policy :: "bool \<Rightarrow> row_policy" where
  "s3_policy overwrite = \<lparr>rp_ins = (\<lambda>old v. v), rp_upd = (\<lambda>m v. if overwrite then v else m ++ v), rp_sel = select_all\<rparr>"

lemma s3_invD:
  assumes "s3_inv mp api bucket ok view adm db"
  shows "msgpack_laws mp"
    and "kv_laws (s3_get api bucket) (\<lambda>s k v. s3_PutObject api s bucket k v) (\<lambda>s k. s3_DeleteObject api s bucket k) ok view adm"
    and "ok (sb_client db)" and "sb_bucket db = bucket" and "view (sb_client db) k = Some bs \<Longrightarrow> s3_doc mp bs"
  using assms by (auto simp: s3_inv_def s3_laws_def ran_def)

lemma s3_inv_same:
  "s3_inv mp api bucket ok view adm db \<Longrightarrow> ok s \<Longrightarrow> view s = view (sb_client db) \<Longrightarrow>
   s3_inv mp api bucket ok view adm (db\<lparr>sb_client := s\<rparr>) \<and> s3_rows mp view (db\<lparr>sb_client := s\<rparr>) = s3_rows mp view db"
  by (simp add: s3_inv_def s3_rows_def)

lemma s3_filter_lookup: "distinct (map fst (s3_filter m fs)) \<and> map_of (s3_filter m fs) = map_of m |` set fs"
proof -
  have "distinct (map fst acc) \<Longrightarrow> distinct (map fst (foldl (\<lambda>filtered f. case map_of m f of Some v \<Rightarrow> AList.update f v filtered | None \<Rightarrow> filtered) acc fs))
      \<and> map_of (foldl (\<lambda>filtered f. case map_of m f of Some v \<Rightarrow> AList.update f v filtered | None \<Rightarrow> filtered) acc fs) = map_of acc ++ (map_of m |` set fs)" for acc
  proof (induction fs arbitrary: acc)
    case (Cons f fs)
    show ?case
    proof (cases "map_of m f")
      case None
      then have "map_of m |` insert f (set fs) = map_of m |` set fs" by (auto simp: restrict_map_def fun_eq_iff)
      then show ?thesis using Cons None by simp
    next
      case (Some v)
      then have e: "(map_of acc)(f \<mapsto> v) ++ map_of m |` set fs = map_of acc ++ map_of m |` insert f (set fs)"
        by (auto simp: restrict_map_def fun_eq_iff map_add_def split: option.split)
      have "distinct (map fst (AList.update f v acc))" using Cons.prems by (simp add: distinct_update)
      from Cons.IH [OF this, unfolded update_conv' e] Some show ?thesis by simp
    qed
  qed simp
  from this [of "[]"] show ?thesis by (simp add: s3_filter_def)
qed

text \<open>Reading a stored object.\<close>

lemma s3_Read_ok:
  assumes "s3_inv mp api bucket ok view adm db" and "view (sb_client db) (composeObjectKey t k) = Some bs"
  shows "\<exists>s m. s3_Read mp api db t k fs = (Inr (Some m), db\<lparr>sb_client := s\<rparr>) \<and> ok s \<and> view s = view (sb_client db)
    \<and> map_of m = select_all k (s3_row mp bs) fs \<and> (fs = [] \<longrightarrow> row_ok ascii_names m)"
proof -
  note I = s3_invD [OF assms(1)]
  obtain m where m: "mp_Decode mp bs = Inr (Some m)" "row_ok ascii_names m" using I(5) [OF assms(2)] by (auto simp: s3_doc_def)
  obtain s where s: "s3_get api bucket (sb_client db) (composeObjectKey t k) = (Inr bs, s)" "ok s" "view s = view (sb_client db)"
    using kv_get_law [OF I(2,3) assms(2)] by blast
  obtain res s' where r: "s3_GetObject api (sb_client db) bucket (composeObjectKey t k) = (res, s')" by fastforce
  then have "res = Inr (Inr bs)" "s' = s" using s(1) by (auto simp: s3_get_def split: sum.splits)
  then show ?thesis using r m s(2,3) I(4) s3_filter_lookup [of m fs]
    by (auto simp: s3_Read_def decodeValues_def nil_row_def s3_row_def select_all_def)
qed

lemma s3_Insert_ok:
  assumes "s3_inv mp api bucket ok view adm db" and "s3_table t" and "row_ok ascii_names v" and "s3_accepts mp adm t k (map_of v)"
  shows "\<exists>db'. s3_Insert mp api db t k v = (None, db') \<and> s3_inv mp api bucket ok view adm db' \<and> sb_updateOverwrite db' = sb_updateOverwrite db
    \<and> s3_rows mp view db' = (s3_rows mp view db)((t, k) \<mapsto> map_of v)"
proof -
  note I = s3_invD [OF assms(1)]
  obtain bs m where e: "mp_Encode mp [] v = Inr bs" "mp_Decode mp bs = Inr (Some m)" "map_of m = map_of v" "row_ok ascii_names m"
    using I(1) assms(3) unfolding msgpack_laws_def by blast
  have d: "s3_doc mp bs" "s3_row mp bs = map_of v" using e by (auto simp: s3_doc_def s3_row_def nil_row_def)
  have "adm (composeObjectKey t k) bs" using assms(3,4) e(1) by (auto simp: s3_accepts_def)
  from kv_put_law [OF I(2,3) this] obtain s where "s3_PutObject api (sb_client db) bucket (composeObjectKey t k) bs = (None, s)" "ok s"
      "view s = (view (sb_client db))(composeObjectKey t k \<mapsto> bs)" by blast
  then show ?thesis using assms(1,2) e(1) d I(4)
    by (auto simp: s3_Insert_def encodeValues_def s3_inv_def s3_rows_def s3_key.doc_rows_upd ran_def split: if_splits)
qed

interpretation s3: policy_db "s3_db fuel mp api" "s3_inv mp api bucket ok view adm" "s3_rows mp view" "\<lambda>db. ascii_names" s3_table "s3_accepts mp adm"
    "\<lambda>db. s3_policy (sb_updateOverwrite db)" for fuel mp api bucket ok view adm
proof (unfold_locales, goal_cases)
  case (1 d t v k)
  then show ?case using s3_Insert_ok [OF 1(1,2), of v k] by (auto simp: s3_db_def s3_policy_def)
next
  case (2 d t v k m)
  show ?case
  proof (cases "sb_updateOverwrite d")
    case True
    then show ?thesis using s3_Insert_ok [OF 2(1-3), of k] 2(6) by (auto simp: s3_db_def s3_Update_def s3_policy_def)
  next
    case False
    obtain bs where bs: "view (sb_client d) (composeObjectKey t k) = Some bs" "s3_row mp bs = m"
      using s3_key.doc_rows_Some [OF 2(2) 2(5) [unfolded s3_rows_def]] by blast
    obtain s old where o: "s3_Read mp api d t k [] = (Inr (Some old), d\<lparr>sb_client := s\<rparr>)" "ok s" "view s = view (sb_client d)" "map_of old = m" "row_ok ascii_names old"
      using s3_Read_ok [OF 2(1) bs(1), of "[]"] bs(2) by (auto simp: select_all_def)
    have w: "row_ok ascii_names (merge_fields old v)" "map_of (merge_fields old v) = m ++ map_of v" using merge_row_ok [OF o(5) 2(3)] o(4) by auto
    have a: "s3_accepts mp adm t k (map_of (merge_fields old v))" using 2(6) w(2) False by (simp add: s3_policy_def)
    have i: "s3_inv mp api bucket ok view adm (d\<lparr>sb_client := s\<rparr>)" "s3_rows mp view (d\<lparr>sb_client := s\<rparr>) = s3_rows mp view d" using s3_inv_same [OF 2(1) o(2,3)] by auto
    from s3_Insert_ok [OF i(1) 2(2) w(1) a] show ?thesis using o(1) w(2) False i(2)
      by (auto simp: s3_db_def s3_Update_def nil_row_def s3_policy_def)
  qed
next
  case (3 d t k m)
  note I = s3_invD [OF 3(1)]
  obtain s where "s3_DeleteObject api (sb_client d) bucket (composeObjectKey t k) = (None, s)" "ok s" "view s = (view (sb_client d))(composeObjectKey t k := None)"
    using kv_del_law [OF I(2,3), of "composeObjectKey t k"] by blast
  then show ?case using 3(1,2) I(4)
    by (auto simp: s3_db_def s3_Delete_def s3_inv_def s3_rows_def s3_key.doc_rows_upd ran_def split: if_splits)
next
  case (4 d t fs k m)
  obtain bs where bs: "view (sb_client d) (composeObjectKey t k) = Some bs" "s3_row mp bs = m"
    using s3_key.doc_rows_Some [OF 4(2) 4(4) [unfolded s3_rows_def]] by blast
  from s3_Read_ok [OF 4(1) bs(1), of fs] bs(2) show ?case
    using s3_inv_same [OF 4(1)] by (auto simp: s3_db_def nil_row_def s3_policy_def)
qed

section \<open>Scans over pages\<close>

lemma sorted_after:
  fixes xs :: "'a :: linorder list"
  shows "sorted_wrt (<) xs \<Longrightarrow> i < length xs \<Longrightarrow> filter (\<lambda>k. xs ! i < k) xs = drop (Suc i) xs"
proof (induction xs arbitrary: i)
  case (Cons x xs)
  then have x: "\<forall>y\<in>set xs. x < y" by simp
  show ?case
  proof (cases i)
    case 0
    then show ?thesis using x by (simp add: filter_id_conv)
  next
    case (Suc j)
    then have "j < length xs" using Cons.prems by simp
    then have "\<not> xs ! j < x" using x by (meson less_asym nth_mem)
    then show ?thesis using Cons Suc by simp
  qed
qed simp

lemma filter_from:
  fixes xs :: "'a :: linorder list"
  shows "sorted_wrt (<) xs \<Longrightarrow> filter (\<lambda>k. a \<le> k \<and> P k) xs = (if a \<in> set xs \<and> P a then [a] else []) @ filter (\<lambda>k. a < k \<and> P k) xs"
proof (induction xs)
  case (Cons x xs)
  then have "\<forall>y\<in>set xs. x < y" by simp
  then have "a = x \<Longrightarrow> filter (\<lambda>k. a \<le> k \<and> P k) xs = filter (\<lambda>k. a < k \<and> P k) xs" "a < x \<Longrightarrow> a \<notin> set xs" by (auto intro!: filter_cong dest: less_imp_le)
  then show ?case using Cons by (cases a x rule: linorder_cases) auto
qed simp

lemma s3_keys_sorted: "sorted_wrt (<) (s3_keys m pfx a)"
  unfolding s3_keys_def by (rule sorted_wrt_filter) simp

lemma s3_keys_next:
  assumes "0 < n" and "n < length (s3_keys m pfx a)"
  shows "s3_keys m pfx (s3_keys m pfx a ! (n - 1)) = drop n (s3_keys m pfx a)"
proof -
  let ?ks = "s3_keys m pfx a"
  have "?ks ! (n - 1) \<in> set ?ks" using assms by (intro nth_mem) simp
  then have "a < ?ks ! (n - 1)" by (auto simp: s3_keys_def)
  then have "s3_keys m pfx (?ks ! (n - 1)) = filter (\<lambda>k. ?ks ! (n - 1) < k) ?ks"
    unfolding s3_keys_def [of m pfx "?ks ! (n - 1)"] by (subst (2) s3_keys_def) (auto intro!: filter_cong dest: less_trans)
  then show ?thesis using sorted_after [OF s3_keys_sorted, of "n - 1" m pfx a] assms by simp
qed

lemma recordKey_back:
  assumes "s3_table t" and "take (length (t @ ''/'')) key = t @ ''/''" and "composeObjectKey t startKey < key"
  shows "composeObjectKey t (recordKey_of (t @ ''/'') key) = key"
proof -
  obtain k where k: "key = (t @ ''/'') @ k" by (metis append_take_drop_id assms(2))
  have "\<not> p @ x < p" for p x :: string by (induction p) auto
  from this [of "t @ ''/''" startKey] have "k \<noteq> []" using assms(1,3) k by (auto simp: composeObjectKey_def s3_table_def)
  then show ?thesis using assms(1) by (simp add: k recordKey_of_def composeObjectKey_def s3_table_def)
qed

text \<open>The rows that come for a list of object keys.\<close>

definition s3_read_rows :: "msgpack \<Rightarrow> (string \<rightharpoonup> byte list) \<Rightarrow> string list \<Rightarrow> string list \<Rightarrow> row option list \<Rightarrow> bool" where
  "s3_read_rows mp m fs = list_all2 (\<lambda>key r. \<exists>row. r = Some row \<and> map_of row = select_all key (s3_row mp (the (m key))) fs)"

definition s3_listed :: "(string \<rightharpoonup> byte list) \<Rightarrow> string \<Rightarrow> string \<Rightarrow> string list \<Rightarrow> bool" where
  "s3_listed m t startAfter keys \<longleftrightarrow> (\<forall>key\<in>set keys. key \<noteq> startAfter \<and> m key \<noteq> None \<and> composeObjectKey t (recordKey_of (t @ ''/'') key) = key)"

lemma s3_page_loop_ok:
  assumes "s3_inv mp api bucket ok view adm db" and "\<not> sb_scanKeysOnly db" and "s3_listed (view (sb_client db)) t startAfter keys" and "int (length keys) \<le> remaining"
  shows "\<exists>rs s. s3_page_loop mp api t fs (t @ ''/'') startAfter keys remaining results db = ((remaining - int (length keys), results @ rs), db\<lparr>sb_client := s\<rparr>)
    \<and> ok s \<and> view s = view (sb_client db) \<and> s3_read_rows mp (view (sb_client db)) fs keys rs"
  using assms
proof (induction keys arbitrary: remaining results db)
  case Nil
  then show ?case using s3_invD(3) [OF Nil(1)] by (auto simp: s3_read_rows_def intro!: exI [of _ "sb_client db"])
next
  case (Cons key keys)
  let ?k = "recordKey_of (t @ ''/'') key"
  obtain bs where bs: "view (sb_client db) (composeObjectKey t ?k) = Some bs" "composeObjectKey t ?k = key" "key \<noteq> startAfter"
    using Cons.prems(3) by (auto simp: s3_listed_def)
  obtain s m where r: "s3_Read mp api db t ?k fs = (Inr (Some m), db\<lparr>sb_client := s\<rparr>)" "ok s" "view s = view (sb_client db)"
      "map_of m = select_all key (s3_row mp bs) fs" using s3_Read_ok [OF Cons.prems(1) bs(1), of fs] by (auto simp: select_all_def)
  let ?db = "db\<lparr>sb_client := s\<rparr>"
  have "s3_inv mp api bucket ok view adm ?db" "s3_listed (view (sb_client ?db)) t startAfter keys" "int (length keys) \<le> remaining - 1"
    using s3_inv_same [OF Cons.prems(1) r(2,3)] Cons.prems(3,4) r(3) by (auto simp: s3_listed_def)
  from Cons.IH [OF this(1) _ this(2,3), of "results @ [Some m]"] Cons.prems(2) obtain rs s' where
    "s3_page_loop mp api t fs (t @ ''/'') startAfter keys (remaining - 1) (results @ [Some m]) ?db
       = ((remaining - 1 - int (length keys), (results @ [Some m]) @ rs), db\<lparr>sb_client := s'\<rparr>)"
    "ok s'" "view s' = view (sb_client db)" "s3_read_rows mp (view (sb_client db)) fs keys rs" using r(3) by auto
  then show ?case using r(1,4) bs Cons.prems(2,4)
    by (intro exI [of _ "Some m # rs"] exI [of _ s']) (auto simp: s3_read_rows_def)
qed

lemma s3_pages_ok:
  assumes "s3_inv mp api bucket ok view adm db" and "\<not> sb_scanKeysOnly db" and "s3_list_law api bucket ok view cont"
    and "ks = s3_keys (view (sb_client db)) (t @ ''/'') (case token of None \<Rightarrow> startAfter | Some tk \<Rightarrow> cont tk)"
    and "s3_listed (view (sb_client db)) t startAfter ks" and "length ks < fuel" and "0 < remaining" and "remaining < 2 ^ 31"
  shows "\<exists>rs s. s3_pages fuel mp api t fs (t @ ''/'') startAfter token remaining results db = Ret (Inr (results @ rs), db\<lparr>sb_client := s\<rparr>)
    \<and> ok s \<and> view s = view (sb_client db) \<and> s3_read_rows mp (view (sb_client db)) fs (take (nat remaining) ks) rs"
  using assms(1,2,4-8)
proof (induction fuel arbitrary: token remaining results db ks)
  case (Suc fuel)
  note I = s3_invD [OF Suc.prems(1)]
  let ?v = "view (sb_client db)"
  define n where "n = (if i32 remaining > 1000 then 1000 else i32 remaining)"
  have n: "0 < n" "n \<le> remaining" using Suc.prems(6,7) by (auto simp: n_def i32_def)
  obtain page s where p: "s3_ListObjectsV2 api (sb_client db) bucket (t @ ''/'') startAfter token n = (Inr page, s)" "ok s" "view s = ?v"
      "pg_Contents page = take (nat n) ks" "pg_IsTruncated page \<longleftrightarrow> nat n < length ks"
      "nat n < length ks \<longrightarrow> (\<exists>tk. pg_NextContinuationToken page = Some tk \<and> cont tk = ks ! (nat n - 1))"
    using assms(3) [unfolded s3_list_law_def Let_def, rule_format, OF I(3) n(1)] Suc.prems(3) by metis
  let ?db = "db\<lparr>sb_client := s\<rparr>"
  have inv: "s3_inv mp api bucket ok view adm ?db" using s3_inv_same [OF Suc.prems(1) p(2,3)] by simp
  show ?case
  proof (cases "ks = []")
    case True
    then show ?thesis using p(1-4) n Suc.prems(6) I(4)
      by (intro exI [of _ "[]"] exI [of _ s]) (simp add: s3_read_rows_def flip: n_def)
  next
    case False
    have "s3_listed (view (sb_client ?db)) t startAfter (take (nat n) ks)" using Suc.prems(4) p(3) by (auto simp: s3_listed_def dest: in_set_takeD)
    moreover have "int (length (take (nat n) ks)) \<le> remaining" using n by auto
    ultimately obtain rs s' where l: "s3_page_loop mp api t fs (t @ ''/'') startAfter (take (nat n) ks) remaining results ?db
          = ((remaining - int (length (take (nat n) ks)), results @ rs), db\<lparr>sb_client := s'\<rparr>)"
        "ok s'" "view s' = ?v" "s3_read_rows mp ?v fs (take (nat n) ks) rs"
      using s3_page_loop_ok [OF inv, of t startAfter "take (nat n) ks" remaining fs results] Suc.prems(2) p(3) by auto
    have step: "s3_pages (Suc fuel) mp api t fs (t @ ''/'') startAfter token remaining results db
        = (if \<not> pg_IsTruncated page \<or> remaining - int (length (take (nat n) ks)) = 0 then Ret (Inr (results @ rs), db\<lparr>sb_client := s'\<rparr>)
           else s3_pages fuel mp api t fs (t @ ''/'') startAfter (pg_NextContinuationToken page) (remaining - int (length (take (nat n) ks))) (results @ rs) (db\<lparr>sb_client := s'\<rparr>))"
      using p(1,4) l(1) n False Suc.prems(6) I(4) by (simp add: Let_def flip: n_def)
    show ?thesis
    proof (cases "\<not> nat n < length ks \<or> remaining = n")
      case True
      then have "take (nat remaining) ks = take (nat n) ks" using n by auto
      moreover have "\<not> pg_IsTruncated page \<or> remaining - int (length (take (nat n) ks)) = 0" using True p(5) n by auto
      ultimately show ?thesis using step l(2-4) by auto
    next
      case False
      then have m: "nat n < length ks" "n < remaining" using n by auto
      then obtain tk where tk: "pg_NextContinuationToken page = Some tk" "cont tk = ks ! (nat n - 1)" using p(6) by auto
      let ?db' = "db\<lparr>sb_client := s'\<rparr>"
      have nxt: "drop (nat n) ks = s3_keys (view (sb_client ?db')) (t @ ''/'') (case Some tk of None \<Rightarrow> startAfter | Some tk \<Rightarrow> cont tk)"
        using s3_keys_next [of "nat n" ?v "t @ ''/''"] Suc.prems(3) m(1) n(1) tk(2) l(3) by simp
      have "s3_inv mp api bucket ok view adm ?db'" "s3_listed (view (sb_client ?db')) t startAfter (drop (nat n) ks)"
        using s3_inv_same [OF Suc.prems(1) l(2,3)] Suc.prems(4) l(3) by (auto simp: s3_listed_def dest: in_set_dropD)
      moreover have "length (drop (nat n) ks) < fuel" "0 < remaining - n" "remaining - n < 2 ^ 31" using Suc.prems(5,7) m n by auto
      ultimately obtain rs' s'' where r: "s3_pages fuel mp api t fs (t @ ''/'') startAfter (Some tk) (remaining - n) (results @ rs) ?db'
            = Ret (Inr ((results @ rs) @ rs'), db\<lparr>sb_client := s''\<rparr>)"
          "ok s''" "view s'' = ?v" "s3_read_rows mp ?v fs (take (nat (remaining - n)) (drop (nat n) ks)) rs'"
        using Suc.IH [OF _ _ nxt, of "remaining - n" "results @ rs"] Suc.prems(2) l(3) by auto
      have "nat remaining = nat n + nat (remaining - n)" using m n by simp
      then have "take (nat remaining) ks = take (nat n) ks @ take (nat (remaining - n)) (drop (nat n) ks)" by (simp only: take_add)
      then have "s3_read_rows mp ?v fs (take (nat remaining) ks) (rs @ rs')" using l(4) r(4) unfolding s3_read_rows_def by (simp add: list_all2_appendI)
      moreover have "remaining - int (length (take (nat n) ks)) = remaining - n" "pg_IsTruncated page" using m n p(5) by auto
      ultimately show ?thesis using step r tk(1) m(2) by (intro exI [of _ "rs @ rs'"] exI [of _ s'']) simp
    qed
  qed
qed simp

section \<open>Properties\<close>


text \<open>A service in memory, with JSON as the codec.\<close>

definition mem_msgpack :: msgpack where
  "mem_msgpack = \<lparr>mp_Encode = (\<lambda>buf v. Inr (buf @ util_Slice (json_Marshal v))), mp_Decode = (\<lambda>bs. map_sum id Some (json_Unmarshal (util_String bs)))\<rparr>"

lemma mem_msgpack_laws: "msgpack_laws mem_msgpack"
  using json_read_back by (auto simp: msgpack_laws_def mem_msgpack_def)

definition mem_list :: "(string \<times> byte list) list \<Rightarrow> string \<Rightarrow> string \<Rightarrow> string option \<Rightarrow> int \<Rightarrow> s3_page" where
  "mem_list s pfx startAfter token n =
     (let ks = s3_keys (map_of s) pfx (case token of None \<Rightarrow> startAfter | Some tk \<Rightarrow> tk) in
      \<lparr>pg_Contents = take (nat n) ks, pg_IsTruncated = (nat n < length ks), pg_NextContinuationToken = (if nat n < length ks then Some (ks ! (nat n - 1)) else None)\<rparr>)"

definition mem_s3 :: "(string \<times> byte list) list s3_api" where
  "mem_s3 =
     \<lparr>s3_HeadBucket = (\<lambda>s b. (None, s)), s3_CreateBucket = (\<lambda>s b. (Created, s)),
      s3_GetObject = (\<lambda>s b k. (case map_of s k of Some v \<Rightarrow> Inr (Inr v) | None \<Rightarrow> Inl ''NoSuchKey'', s)),
      s3_PutObject = (\<lambda>s b. mem_put s), s3_DeleteObject = (\<lambda>s b. mem_del s),
      s3_ListObjectsV2 = (\<lambda>s b pfx startAfter token n. (Inr (mem_list s pfx startAfter token n), s))\<rparr>"

lemma mem_s3_list: "s3_list_law mem_s3 b (\<lambda>s. True) map_of (\<lambda>tk. tk)"
  by (auto simp: s3_list_law_def mem_s3_def mem_list_def finite_dom_map_of Let_def)

lemma mem_s3_laws: "s3_laws mem_msgpack mem_s3 b (\<lambda>s. True) map_of (\<lambda>k v. True)"
  using mem_msgpack_laws
  by (auto simp: s3_laws_def kv_laws_def s3_get_def mem_s3_def mem_put_def mem_del_def update_conv' delete_conv')

definition sample_s3 :: "(string \<times> byte list) list s3DB" where
  "sample_s3 = \<lparr>sb_client = [(''t/b'', util_Slice (json_Marshal [(''f'', [2])])), (''u/a'', util_Slice (json_Marshal [(''f'', [3])])), (''t/a'', util_Slice (json_Marshal [(''f'', [1])]))],
     sb_bucket = ''ycsb'', sb_updateOverwrite = True, sb_scanKeysOnly = False\<rparr>"


text \<open>Without overwriting, an update whose read fails for whatever reason stores the given fields alone.\<close>

lemma s3_update_after_failed_read:
  assumes "\<not> sb_updateOverwrite db" and "s3_Read mp api db t k [] = (Inl err, db')" and "distinct (map fst v)"
  shows "s3_Update mp api db t k v = s3_Insert mp api db' t k (merge_fields [] v) \<and> map_of (merge_fields [] v) = map_of v"
  using assms merge_fields_map [of v "[]"] by (simp add: s3_Update_def)

end
