(* ===== verification/Minio.thy ===== *)
theory Minio
  imports DocStore
begin

text \<open>
  The MinIO adapter, \<^verbatim>\<open>db/minio/db.go\<close>: an object per row in a bucket named like the table. The client is a parameter. An object holds the value of one field only, so the adapter is a table
  of rows for rows with the single field \<open>field0\<close>, and loses all but one field of any other row.
\<close>

section \<open>The client\<close>

record 's minio_api =
  mi_GetObject :: "'s \<Rightarrow> string \<Rightarrow> string \<Rightarrow> (error + (error + byte list)) \<times> 's"
  mi_PutObject :: "'s \<Rightarrow> string \<Rightarrow> string \<Rightarrow> byte list \<Rightarrow> int \<Rightarrow> error option \<times> 's"
  mi_RemoveObject :: "'s \<Rightarrow> string \<Rightarrow> string \<Rightarrow> error option \<times> 's"
  mi_ListObjectsV2 :: "'s \<Rightarrow> string \<Rightarrow> string \<Rightarrow> bool \<Rightarrow> string list"

record 's minioDB =
  mn_db :: 's

section \<open>The adapter\<close>

definition minio_Create :: "(string \<Rightarrow> string \<Rightarrow> string \<Rightarrow> bool \<Rightarrow> error + 's) \<Rightarrow> props \<Rightarrow> error + 's minioDB" where
  "minio_Create New p =
     (case New (GetString p ''minio.endpoint'' ''http://127.0.0.1:9000'') (GetString p ''minio.access-key'' ''minio'')
             (GetString p ''minio.secret-key'' ''myminio'') (GetBool p ''minio.secure'' False) of
        Inl err \<Rightarrow> Inl err
      | Inr client \<Rightarrow> Inr \<lparr>mn_db = client\<rparr>)"

definition minio_Close :: "'s minioDB \<Rightarrow> error option \<times> 's minioDB" where
  "minio_Close db = (None, db)"

definition minio_Read :: "'s minio_api \<Rightarrow> 's minioDB \<Rightarrow> string \<Rightarrow> string \<Rightarrow> string list \<Rightarrow> ((error + row) \<times> 's minioDB) go" where
  "minio_Read api db table key fnames =
     (let (res, s) = mi_GetObject api (mn_db db) table key in
      Ret (case res of Inl err \<Rightarrow> Inl err | Inr (Inl err) \<Rightarrow> Inl err | Inr (Inr bs) \<Rightarrow> Inr [(''field0'', bs)], \<lparr>mn_db = s\<rparr>))"

text \<open>The start key is the prefix of the listed keys. The entries that the listing does not fill stay nil.\<close>

definition minio_Scan :: "'s minio_api \<Rightarrow> 's minioDB \<Rightarrow> string \<Rightarrow> string \<Rightarrow> int \<Rightarrow> string list \<Rightarrow> ((error + row option list) \<times> 's minioDB) go" where
  "minio_Scan api db table startKey cnt fnames =
     (if cnt < 0 then Panic ''makeslice: len out of range''
      else let objs = take (nat cnt) (mi_ListObjectsV2 api (mn_db db) table startKey True) in
           Ret (Inr (map (\<lambda>k. Some [(k, [])]) objs @ replicate (nat cnt - length objs) None), db))"

text \<open>The loop over the values ends after the first one that the iteration delivers.\<close>

definition minio_Update :: "'s minio_api \<Rightarrow> 's minioDB \<Rightarrow> string \<Rightarrow> string \<Rightarrow> row \<Rightarrow> (error option \<times> 's minioDB) go" where
  "minio_Update api db table key vals =
     (let bs = (case vals of [] \<Rightarrow> [] | (_, v) # _ \<Rightarrow> v); (err, s) = mi_PutObject api (mn_db db) table key bs (int (length bs)) in Ret (err, \<lparr>mn_db = s\<rparr>))"

definition minio_Insert :: "'s minio_api \<Rightarrow> 's minioDB \<Rightarrow> string \<Rightarrow> string \<Rightarrow> row \<Rightarrow> (error option \<times> 's minioDB) go" where
  "minio_Insert api db table key vals = minio_Update api db table key vals"

definition minio_Delete :: "'s minio_api \<Rightarrow> 's minioDB \<Rightarrow> string \<Rightarrow> string \<Rightarrow> (error option \<times> 's minioDB) go" where
  "minio_Delete api db table key = (let (err, s) = mi_RemoveObject api (mn_db db) table key in Ret (err, \<lparr>mn_db = s\<rparr>))"

definition minio_db :: "'s minio_api \<Rightarrow> 's minioDB db" where
  "minio_db api =
     \<lparr>db_Close = (\<lambda>d. Ret (minio_Close d)), db_InitThread = (\<lambda>d i n. Ret d), db_CleanupThread = Ret,
      db_Read = minio_Read api, db_Scan = minio_Scan api, db_Update = minio_Update api, db_Insert = minio_Insert api, db_Delete = minio_Delete api,
      db_Batch = None, db_Analyze = None, db_TypeName = ''*minio.minioDB''\<rparr>"

section \<open>The adapter as a table\<close>

definition minio_get :: "'s minio_api \<Rightarrow> 's \<Rightarrow> string \<times> string \<Rightarrow> (error + byte list) \<times> 's" where
  "minio_get api s tk = (let (res, s) = mi_GetObject api s (fst tk) (snd tk) in (case res of Inl err \<Rightarrow> Inl err | Inr body \<Rightarrow> body, s))"

definition minio_laws :: "'s minio_api \<Rightarrow> ('s \<Rightarrow> bool) \<Rightarrow> ('s \<Rightarrow> string \<times> string \<rightharpoonup> byte list) \<Rightarrow> (string \<times> string \<Rightarrow> byte list \<Rightarrow> bool) \<Rightarrow> bool" where
  "minio_laws api ok view adm \<longleftrightarrow>
     kv_laws (minio_get api) (\<lambda>s tk v. mi_PutObject api s (fst tk) (snd tk) v (int (length v))) (\<lambda>s tk. mi_RemoveObject api s (fst tk) (snd tk)) ok view adm"

definition minio_row :: "byte list \<Rightarrow> rowmap" where
  "minio_row bs = [''field0'' \<mapsto> bs]"

definition minio_inv :: "'s minio_api \<Rightarrow> ('s \<Rightarrow> bool) \<Rightarrow> ('s \<Rightarrow> string \<times> string \<rightharpoonup> byte list) \<Rightarrow> (string \<times> string \<Rightarrow> byte list \<Rightarrow> bool) \<Rightarrow> 's minioDB \<Rightarrow> bool" where
  "minio_inv api ok view adm db \<longleftrightarrow> minio_laws api ok view adm \<and> ok (mn_db db)"

definition minio_rows :: "('s \<Rightarrow> string \<times> string \<rightharpoonup> byte list) \<Rightarrow> 's minioDB \<Rightarrow> table" where
  "minio_rows view db = doc_rows (\<lambda>t. True) Pair minio_row (view (mn_db db))"

definition minio_value :: "rowmap \<Rightarrow> byte list" where
  "minio_value m = (case m ''field0'' of Some v \<Rightarrow> v | None \<Rightarrow> [])"

definition minio_policy :: row_policy where
  "minio_policy = \<lparr>rp_ins = (\<lambda>old v. minio_row (minio_value v)), rp_upd = (\<lambda>m v. minio_row (minio_value v)), rp_sel = (\<lambda>k m fs. m)\<rparr>"

definition minio_accepts :: "(string \<times> string \<Rightarrow> byte list \<Rightarrow> bool) \<Rightarrow> string \<Rightarrow> string \<Rightarrow> rowmap \<Rightarrow> bool" where
  "minio_accepts adm t k m \<longleftrightarrow> adm (t, k) (minio_value m)"

lemma minio_put_ok:
  assumes "minio_inv api ok view adm db" and "adm (t, k) bs" and "bs = (case v of [] \<Rightarrow> [] | (f, x) # _ \<Rightarrow> x)"
  shows "\<exists>db'. minio_Update api db t k v = Ret (None, db') \<and> minio_inv api ok view adm db' \<and> minio_rows view db' = (minio_rows view db)((t, k) \<mapsto> minio_row bs)"
proof -
  have I: "kv_laws (minio_get api) (\<lambda>s tk v. mi_PutObject api s (fst tk) (snd tk) v (int (length v))) (\<lambda>s tk. mi_RemoveObject api s (fst tk) (snd tk)) ok view adm" "ok (mn_db db)"
    using assms(1) by (auto simp: minio_inv_def minio_laws_def)
  obtain s where "mi_PutObject api (mn_db db) t k bs (int (length bs)) = (None, s)" "ok s" "view s = (view (mn_db db))((t, k) \<mapsto> bs)"
    using kv_put_law [OF I, of "(t, k)"] assms(2) by auto
  then show ?thesis using assms(1) paired.doc_rows_upd [of minio_row "view (mn_db db)" t k "Some bs"]
    by (auto simp: minio_Update_def assms(3) minio_inv_def minio_rows_def)
qed

lemma single_field: "row_ok {''field0''} v \<Longrightarrow> (case v of [] \<Rightarrow> [] | (f, x) # _ \<Rightarrow> x) = minio_value (map_of v)"
  by (cases v) (auto simp: row_ok_def minio_value_def)

interpretation minio: policy_db "minio_db api" "minio_inv api ok view adm" "minio_rows view" "\<lambda>db. {''field0''}" "\<lambda>t. True" "minio_accepts adm" "\<lambda>db. minio_policy"
  for api ok view adm
proof (unfold_locales, goal_cases)
  case (1 d t v k)
  then show ?case using minio_put_ok [OF 1(1) _ single_field [symmetric, OF 1(3)], of t k]
    by (auto simp: minio_db_def minio_Insert_def minio_policy_def minio_accepts_def minio_row_def minio_value_def)
next
  case (2 d t v k m)
  then show ?case using minio_put_ok [OF 2(1) _ single_field [symmetric, OF 2(3)], of t k]
    by (auto simp: minio_db_def minio_policy_def minio_accepts_def minio_row_def minio_value_def)
next
  case (3 d t k m)
  then have I: "kv_laws (minio_get api) (\<lambda>s tk v. mi_PutObject api s (fst tk) (snd tk) v (int (length v))) (\<lambda>s tk. mi_RemoveObject api s (fst tk) (snd tk)) ok view adm" "ok (mn_db d)"
    by (auto simp: minio_inv_def minio_laws_def)
  then show ?case using kv_del_law [OF I, of "(t, k)"] 3(1) paired.doc_rows_upd [of minio_row "view (mn_db d)" t k None]
    by (auto simp: minio_db_def minio_Delete_def minio_inv_def minio_rows_def)
next
  case (4 d t fs k m)
  then have I: "kv_laws (minio_get api) (\<lambda>s tk v. mi_PutObject api s (fst tk) (snd tk) v (int (length v))) (\<lambda>s tk. mi_RemoveObject api s (fst tk) (snd tk)) ok view adm" "ok (mn_db d)"
    by (auto simp: minio_inv_def minio_laws_def)
  obtain bs where bs: "view (mn_db d) (t, k) = Some bs" "minio_row bs = m"
    using paired.doc_rows_Some [OF _ 4(4) [unfolded minio_rows_def]] by blast
  obtain s where s: "minio_get api (mn_db d) (t, k) = (Inr bs, s)" "ok s" "view s = view (mn_db d)" using kv_get_law [OF I bs(1)] by blast
  obtain res s' where "mi_GetObject api (mn_db d) t k = (res, s')" by fastforce
  then show ?case using s bs(2) 4(1)
    by (auto simp: minio_db_def minio_Read_def minio_get_def minio_inv_def minio_rows_def minio_row_def minio_policy_def split: sum.splits)
qed

text \<open>What an insert stores is the value of whichever field the iteration over the map delivers first, and it is read back as \<open>field0\<close>.\<close>

lemma minio_keeps_one_field:
  assumes "minio_inv api ok view adm db" and "vs \<noteq> []" and "\<forall>v. adm (t, k) v"
  shows "\<exists>db'. minio_Insert api db t k vs = Ret (None, db') \<and> minio_rows view db' (t, k) = Some [''field0'' \<mapsto> snd (hd vs)]"
proof -
  obtain f x ws where vs: "vs = (f, x) # ws" using assms(2) by (cases vs) auto
  have "x = (case vs of [] \<Rightarrow> [] | (f, x) # _ \<Rightarrow> x)" unfolding vs by simp
  then obtain db' where "minio_Update api db t k vs = Ret (None, db')" "minio_rows view db' = (minio_rows view db)((t, k) \<mapsto> minio_row x)"
    using minio_put_ok [OF assms(1) assms(3) [THEN spec], of x vs] by blast
  then show ?thesis by (simp add: minio_Insert_def minio_row_def vs)
qed

end
