(* ===== verification/Aerospike.thy ===== *)
theory Aerospike
  imports DocStore
begin

text \<open>
  The Aerospike adapter, \<^verbatim>\<open>db/aerospike/db.go\<close>: a record per row, a bin per field. The client is a parameter. Alone an update merges its fields into the row. The
  write policy that is meant to detect a concurrent change of the record is declared in an inner scope and never reaches the client, so two updates can overwrite each other.
\<close>

section \<open>The client\<close>

text \<open>A bin holds a value of any type, and only byte arrays are of use to the adapter. The digest that addresses a record is computed from the parts of the key.\<close>

datatype as_value = AsBytes "byte list" | AsOther

datatype as_key = AsKey string string string

datatype as_generation = NONE_GEN | EXPECT_GEN_EQUAL

record as_policy =
  wp_Generation :: nat
  wp_GenerationPolicy :: as_generation

record as_record =
  ar_Bins :: "as_value smap"
  ar_Generation :: nat

record 's as_api =
  ap_NewKey :: "string \<Rightarrow> string \<Rightarrow> string \<Rightarrow> error + as_key"
  ap_Get :: "'s \<Rightarrow> as_key option \<Rightarrow> ((error + as_record option) \<times> 's) go"
  ap_Put :: "'s \<Rightarrow> as_policy option \<Rightarrow> as_key \<Rightarrow> as_value smap \<Rightarrow> error option \<times> 's"
  ap_PutBins :: "'s \<Rightarrow> as_policy option \<Rightarrow> as_key \<Rightarrow> as_value smap \<Rightarrow> error option \<times> 's"
  ap_Delete :: "'s \<Rightarrow> as_key \<Rightarrow> (error + bool) \<times> 's"
  ap_ScanAll :: "'s \<Rightarrow> string \<Rightarrow> string \<Rightarrow> (error + (error + as_record) list) \<times> 's"
  ap_Close :: "'s \<Rightarrow> 's"

record 's aerospikedb =
  as_client :: 's
  as_ns :: string

section \<open>The adapter\<close>

text \<open>The adapter is returned together with the error of the connection.\<close>

definition aerospike_Create :: "(string \<Rightarrow> int \<Rightarrow> error option \<times> 's) \<Rightarrow> props \<Rightarrow> error option \<times> 's aerospikedb" where
  "aerospike_Create NewClient p =
     (let ns = GetString p ''aerospike.ns'' ''test''; (err, client) = NewClient (GetString p ''aerospike.host'' ''localhost'') (GetInt p ''aerospike.port'' 3000)
      in (err, \<lparr>as_client = client, as_ns = ns\<rparr>))"

definition aerospike_Close :: "'s as_api \<Rightarrow> 's aerospikedb \<Rightarrow> error option \<times> 's aerospikedb" where
  "aerospike_Close api adb = (None, adb\<lparr>as_client := ap_Close api (as_client adb)\<rparr>)"

text \<open>The loop over the bins of a record, all of them or those of the filter.\<close>

fun bins_row :: "(string \<Rightarrow> bool) \<Rightarrow> as_value smap \<Rightarrow> error + row" where
  "bins_row keep [] = Inr []"
| "bins_row keep ((k, v) # bins) =
     (if \<not> keep k then bins_row keep bins
      else case v of AsOther \<Rightarrow> Inl ''couldn't convert to byte array'' | AsBytes b \<Rightarrow> map_sum id (Cons (k, b)) (bins_row keep bins))"

text \<open>The error of \<open>NewKey\<close> is overwritten before it is looked at, and the lookup is made without a key then.\<close>

definition aerospike_Read :: "'s as_api \<Rightarrow> 's aerospikedb \<Rightarrow> string \<Rightarrow> string \<Rightarrow> string list \<Rightarrow> ((error + row) \<times> 's aerospikedb) go" where
  "aerospike_Read api adb table key fnames =
     (let asKey = (case ap_NewKey api (as_ns adb) table key of Inr k \<Rightarrow> Some k | Inl _ \<Rightarrow> None) in
      gbind (ap_Get api (as_client adb) asKey) (\<lambda>(res, s).
        Ret (case res of
               Inl err \<Rightarrow> Inl err
             | Inr None \<Rightarrow> Inr []
             | Inr (Some rcd) \<Rightarrow> bins_row (\<lambda>k. True) (ar_Bins rcd), adb\<lparr>as_client := s\<rparr>)))"

text \<open>The loop over the results: it stops when \<open>nRead\<close> has become \<open>cnt\<close>, which a \<open>cnt\<close> below one never lets happen.\<close>

fun aerospike_results :: "(string \<Rightarrow> bool) \<Rightarrow> int \<Rightarrow> int \<Rightarrow> (error + as_record) list \<Rightarrow> error + row list" where
  "aerospike_results keep cnt nRead [] = Inr []"
| "aerospike_results keep cnt nRead (Inl err # results) = Inl err"
| "aerospike_results keep cnt nRead (Inr rcd # results) =
     (case bins_row keep (ar_Bins rcd) of
        Inl err \<Rightarrow> Inl err
      | Inr vals \<Rightarrow> if nRead + 1 = cnt then Inr [vals] else map_sum id (Cons vals) (aerospike_results keep cnt (nRead + 1) results))"

text \<open>The start key is not used: the scan begins wherever the client begins. A bin is delivered only when it is asked for by name.\<close>

definition aerospike_Scan :: "'s as_api \<Rightarrow> 's aerospikedb \<Rightarrow> string \<Rightarrow> string \<Rightarrow> int \<Rightarrow> string list \<Rightarrow> ((error + row option list) \<times> 's aerospikedb) go" where
  "aerospike_Scan api adb table startKey cnt fnames =
     (let (res, s) = ap_ScanAll api (as_client adb) (as_ns adb) table in
      Ret (case res of
             Inl err \<Rightarrow> Inl err
           | Inr results \<Rightarrow> map_sum id (map Some) (aerospike_results (\<lambda>k. k \<in> set fnames) cnt 0 results), adb\<lparr>as_client := s\<rparr>))"

text \<open>An update reads the record and then writes it. In between other workers may run.\<close>

definition update_get :: "'s as_api \<Rightarrow> string \<Rightarrow> string \<Rightarrow> string \<Rightarrow> 's \<Rightarrow> ((error + as_key \<times> as_record option) \<times> 's) go" where
  "update_get api ns table key s =
     (case ap_NewKey api ns table key of
        Inl err \<Rightarrow> Ret (Inl err, s)
      | Inr asKey \<Rightarrow> gbind (ap_Get api s (Some asKey)) (\<lambda>(res, s). Ret (map_sum id (Pair asKey) res, s)))"

fun set_bins :: "as_value smap \<Rightarrow> row \<Rightarrow> as_value smap" where
  "set_bins bins [] = bins"
| "set_bins bins ((k, v) # vals) = set_bins (AList.update k (AsBytes v) bins) vals"

text \<open>
  The variable \<open>policy\<close> that is passed to \<open>Put\<close> is the outer one, which stays nil: the block for a record that exists declares another variable of the same name, and
  that one expires with the block.
\<close>

definition update_put :: "'s as_api \<Rightarrow> as_key \<Rightarrow> as_record option \<Rightarrow> row \<Rightarrow> 's \<Rightarrow> error option \<times> 's" where
  "update_put api asKey rcd vals s =
     (let bins = []; policy = None;
          bins = (case rcd of
                    None \<Rightarrow> bins
                  | Some r \<Rightarrow> (let policy = Some \<lparr>wp_Generation = ar_Generation r, wp_GenerationPolicy = EXPECT_GEN_EQUAL\<rparr> in ar_Bins r))
      in ap_Put api s policy asKey (set_bins bins vals))"

definition aerospike_Update :: "'s as_api \<Rightarrow> 's aerospikedb \<Rightarrow> string \<Rightarrow> string \<Rightarrow> row \<Rightarrow> (error option \<times> 's aerospikedb) go" where
  "aerospike_Update api adb table key vals =
     gbind (update_get api (as_ns adb) table key (as_client adb)) (\<lambda>(res, s).
       case res of
         Inl err \<Rightarrow> Ret (Some err, adb\<lparr>as_client := s\<rparr>)
       | Inr (asKey, rcd) \<Rightarrow> (let (err, s) = update_put api asKey rcd vals s in Ret (err, adb\<lparr>as_client := s\<rparr>)))"

definition aerospike_Insert :: "'s as_api \<Rightarrow> 's aerospikedb \<Rightarrow> string \<Rightarrow> string \<Rightarrow> row \<Rightarrow> (error option \<times> 's aerospikedb) go" where
  "aerospike_Insert api adb table key vals =
     (case ap_NewKey api (as_ns adb) table key of
        Inl err \<Rightarrow> Ret (Some err, adb)
      | Inr asKey \<Rightarrow> (let (err, s) = ap_PutBins api (as_client adb) None asKey (map (map_prod id AsBytes) vals) in Ret (err, adb\<lparr>as_client := s\<rparr>)))"

definition aerospike_Delete :: "'s as_api \<Rightarrow> 's aerospikedb \<Rightarrow> string \<Rightarrow> string \<Rightarrow> (error option \<times> 's aerospikedb) go" where
  "aerospike_Delete api adb table key =
     (case ap_NewKey api (as_ns adb) table key of
        Inl err \<Rightarrow> Ret (Some err, adb)
      | Inr asKey \<Rightarrow> (let (res, s) = ap_Delete api (as_client adb) asKey in Ret (case res of Inl err \<Rightarrow> Some err | Inr _ \<Rightarrow> None, adb\<lparr>as_client := s\<rparr>)))"

definition aerospike_db :: "'s as_api \<Rightarrow> 's aerospikedb db" where
  "aerospike_db api =
     \<lparr>db_Close = (\<lambda>d. Ret (aerospike_Close api d)), db_InitThread = (\<lambda>d i n. Ret d), db_CleanupThread = Ret,
      db_Read = aerospike_Read api, db_Scan = aerospike_Scan api, db_Update = aerospike_Update api, db_Insert = aerospike_Insert api, db_Delete = aerospike_Delete api,
      db_Batch = None, db_Analyze = None, db_TypeName = ''*aerospike.aerospikedb''\<rparr>"

section \<open>The adapter as a table\<close>

text \<open>
  Documented behaviour of the client, on states \<open>ok\<close> in which every bin holds a byte array: a state stands for a map from keys to rows. A write without a policy writes the bins it is given and
  leaves the others, whether the record has changed or not.
\<close>

definition byte_bins :: "row \<Rightarrow> as_value smap" where
  "byte_bins v = map (map_prod id AsBytes) v"

definition as_get_law :: "'s as_api \<Rightarrow> ('s \<Rightarrow> bool) \<Rightarrow> ('s \<Rightarrow> as_key \<rightharpoonup> rowmap) \<Rightarrow> bool" where
  "as_get_law api ok view \<longleftrightarrow>
     (\<forall>s k m. ok s \<longrightarrow> view s k = Some m \<longrightarrow>
        (\<exists>w g t. ap_Get api s (Some k) = Ret (Inr (Some \<lparr>ar_Bins = byte_bins w, ar_Generation = g\<rparr>), t) \<and> ok t \<and> view t = view s \<and> distinct (map fst w) \<and> map_of w = m))"

definition as_put_law :: "('s \<Rightarrow> as_policy option \<Rightarrow> as_key \<Rightarrow> as_value smap \<Rightarrow> error option \<times> 's) \<Rightarrow> ('s \<Rightarrow> bool) \<Rightarrow> ('s \<Rightarrow> as_key \<rightharpoonup> rowmap) \<Rightarrow> (as_key \<Rightarrow> rowmap \<Rightarrow> bool) \<Rightarrow> bool" where
  "as_put_law put ok view adm \<longleftrightarrow>
     (\<forall>s k v. ok s \<longrightarrow> distinct (map fst v) \<longrightarrow> adm k (merge_new (view s k) (map_of v)) \<longrightarrow>
        (\<exists>t. put s None k (byte_bins v) = (None, t) \<and> ok t \<and> view t = (view s)(k \<mapsto> merge_new (view s k) (map_of v))))"

definition as_laws :: "'s as_api \<Rightarrow> ('s \<Rightarrow> bool) \<Rightarrow> ('s \<Rightarrow> as_key \<rightharpoonup> rowmap) \<Rightarrow> (as_key \<Rightarrow> rowmap \<Rightarrow> bool) \<Rightarrow> bool" where
  "as_laws api ok view adm \<longleftrightarrow>
     (\<forall>ns t k. ap_NewKey api ns t k = Inr (AsKey ns t k)) \<and> as_get_law api ok view
   \<and> as_put_law (ap_Put api) ok view adm \<and> as_put_law (ap_PutBins api) ok view adm
   \<and> (\<forall>s k. ok s \<longrightarrow> view s k \<noteq> None \<longrightarrow> (\<exists>b t. ap_Delete api s k = (Inr b, t) \<and> ok t \<and> view t = (view s)(k := None)))"

lemmas as_key_law = as_laws_def [THEN iffD1, THEN conjunct1, rule_format]
lemmas as_Get_law = as_laws_def [THEN iffD1, THEN conjunct2, THEN conjunct1, unfolded as_get_law_def, rule_format]
lemmas as_Put_law = as_laws_def [THEN iffD1, THEN conjunct2, THEN conjunct2, THEN conjunct1, unfolded as_put_law_def, rule_format]
lemmas as_PutBins_law = as_laws_def [THEN iffD1, THEN conjunct2, THEN conjunct2, THEN conjunct2, THEN conjunct1, unfolded as_put_law_def, rule_format]
lemmas as_Delete_law = as_laws_def [THEN iffD1, THEN conjunct2, THEN conjunct2, THEN conjunct2, THEN conjunct2, rule_format]

interpretation as_keys: composed_key "\<lambda>t. True" "AsKey ns" for ns
  by unfold_locales auto

definition as_rows :: "('s \<Rightarrow> as_key \<rightharpoonup> rowmap) \<Rightarrow> 's aerospikedb \<Rightarrow> table" where
  "as_rows view adb = doc_rows (\<lambda>t. True) (AsKey (as_ns adb)) id (view (as_client adb))"

definition as_inv :: "'s as_api \<Rightarrow> ('s \<Rightarrow> bool) \<Rightarrow> ('s \<Rightarrow> as_key \<rightharpoonup> rowmap) \<Rightarrow> (as_key \<Rightarrow> rowmap \<Rightarrow> bool) \<Rightarrow> string \<Rightarrow> 's aerospikedb \<Rightarrow> bool" where
  "as_inv api ok view adm ns adb \<longleftrightarrow> as_laws api ok view adm \<and> ok (as_client adb) \<and> as_ns adb = ns"

definition as_policy_rows :: row_policy where
  "as_policy_rows = \<lparr>rp_ins = merge_new, rp_upd = (\<lambda>m v. m ++ v), rp_sel = (\<lambda>k m fs. m)\<rparr>"

lemma set_bins_byte_bins: "set_bins (byte_bins m) v = byte_bins (merge_fields m v)"
proof (induction m v rule: merge_fields.induct)
  case (2 data field v vs)
  have "AList.update field (AsBytes v) (byte_bins data) = byte_bins (AList.update field v data)"
    by (induction data) (auto simp: byte_bins_def)
  then show ?case using 2 by simp
qed simp

lemma bins_row_byte_bins: "bins_row keep (byte_bins w) = Inr (filter (\<lambda>kv. keep (fst kv)) w)"
  by (induction w) (auto simp: byte_bins_def)

lemma as_rows_at: "as_rows view adb (t, k) = view (as_client adb) (AsKey (as_ns adb) t k)"
  by (simp add: as_rows_def doc_rows_def option.map_id)

lemma as_rows_client:
  "as_rows view (adb\<lparr>as_client := s\<rparr>) = (as_rows view adb)((t, k) := e)" if "view s = (view (as_client adb))(AsKey (as_ns adb) t k := e)"
  using that as_keys.doc_rows_upd [of "as_ns adb" id "view (as_client adb)" t k e] by (simp add: as_rows_def option.map_id)

text \<open>The two halves of an update.\<close>

lemma update_get_ok:
  assumes "as_laws api ok view adm" and "ok s" and "view s (AsKey ns t k) = Some m"
  obtains w g s' where "update_get api ns t k s = Ret (Inr (AsKey ns t k, Some \<lparr>ar_Bins = byte_bins w, ar_Generation = g\<rparr>), s')"
    "ok s'" "view s' = view s" "distinct (map fst w)" "map_of w = m"
  using as_Get_law [OF assms] as_key_law [OF assms(1)] that by (fastforce simp: update_get_def)

lemma update_put_ok:
  assumes "as_laws api ok view adm" and "ok s" and "distinct (map fst w)" and "distinct (map fst v)"
    and "adm key (merge_new (view s key) (map_of w ++ map_of v))"
  obtains s' where "update_put api key (Some \<lparr>ar_Bins = byte_bins w, ar_Generation = g\<rparr>) v s = (None, s')" "ok s'"
    "view s' = (view s)(key \<mapsto> merge_new (view s key) (map_of w ++ map_of v))"
proof -
  have "distinct (map fst (merge_fields w v))" "map_of (merge_fields w v) = map_of w ++ map_of v"
    using merge_fields_keys [OF assms(3)] merge_fields_map [OF assms(4)] by auto
  then show ?thesis using as_Put_law [OF assms(1,2), of "merge_fields w v" key] assms(5) that by (fastforce simp: update_put_def set_bins_byte_bins)
qed

lemma map_add_self [simp]: "m ++ m = m"
  by (auto simp: fun_eq_iff map_add_def split: option.splits)

text \<open>An update whose lookup was made before the row has got its present fields.\<close>

lemma stale_put_ok:
  assumes "as_laws api ok view (\<lambda>k m. True)" and "ok s" and "distinct (map fst w)" and "distinct (map fst v)" and "view s key = Some m"
  obtains s' where "update_put api key (Some \<lparr>ar_Bins = byte_bins w, ar_Generation = g\<rparr>) v s = (None, s')" "ok s'"
    "view s' = (view s)(key \<mapsto> m ++ (map_of w ++ map_of v))"
  using update_put_ok [OF assms(1-4), of key] assms(5) that by (auto simp: merge_new_def)

interpretation aerospike: policy_db "aerospike_db api" "as_inv api ok view adm ns" "as_rows view" "\<lambda>db. UNIV" "\<lambda>t. True" "\<lambda>t k. adm (AsKey ns t k)" "\<lambda>db. as_policy_rows"
  for api ok view adm ns
proof (unfold_locales, goal_cases)
  case (1 d t v k)
  then have I: "as_laws api ok view adm" "ok (as_client d)" "as_ns d = ns" by (auto simp: as_inv_def)
  let ?m = "merge_new (view (as_client d) (AsKey ns t k)) (map_of v)"
  have "distinct (map fst v)" "adm (AsKey ns t k) ?m" using 1 I(3) by (auto simp: row_ok_def as_policy_rows_def as_rows_at)
  from as_PutBins_law [OF I(1,2) this] obtain s where
    s: "ap_PutBins api (as_client d) None (AsKey ns t k) (byte_bins v) = (None, s)" "ok s" "view s = (view (as_client d))(AsKey ns t k \<mapsto> ?m)" by blast
  then show ?case using I as_key_law [OF I(1)] as_rows_client [of view s d t k "Some ?m"]
    by (simp add: aerospike_db_def aerospike_Insert_def byte_bins_def as_inv_def as_policy_rows_def as_rows_at)
next
  case (2 d t v k m)
  then have I: "as_laws api ok view adm" "ok (as_client d)" "as_ns d = ns" by (auto simp: as_inv_def)
  have m: "view (as_client d) (AsKey ns t k) = Some m" using 2 I(3) by (simp add: as_rows_at)
  obtain w g s where w: "update_get api ns t k (as_client d) = Ret (Inr (AsKey ns t k, Some \<lparr>ar_Bins = byte_bins w, ar_Generation = g\<rparr>), s)"
    "ok s" "view s = view (as_client d)" "distinct (map fst w)" "map_of w = m" using update_get_ok [OF I(1,2) m] .
  have "adm (AsKey ns t k) (merge_new (view s (AsKey ns t k)) (map_of w ++ map_of v))" using 2 m w by (simp add: merge_new_def as_policy_rows_def)
  moreover have "distinct (map fst v)" using 2(3) by (simp add: row_ok_def)
  ultimately obtain s' where
    s': "update_put api (AsKey ns t k) (Some \<lparr>ar_Bins = byte_bins w, ar_Generation = g\<rparr>) v s = (None, s')" "ok s'"
    "view s' = (view s)(AsKey ns t k \<mapsto> merge_new (view s (AsKey ns t k)) (map_of w ++ map_of v))"
    using update_put_ok [OF I(1) w(2,4)] by blast
  then have "view s' = (view (as_client d))(AsKey ns t k \<mapsto> m ++ map_of v)" using m w by (simp add: merge_new_def)
  then show ?case using w(1) s'(1,2) I as_rows_client [of view s' d t k "Some (m ++ map_of v)"]
    by (simp add: aerospike_db_def aerospike_Update_def as_inv_def as_policy_rows_def)
next
  case (3 d t k m)
  then have I: "as_laws api ok view adm" "ok (as_client d)" "as_ns d = ns" by (auto simp: as_inv_def)
  then have "view (as_client d) (AsKey ns t k) \<noteq> None" using 3 by (simp add: as_rows_at)
  from as_Delete_law [OF I(1,2) this] obtain b s where
    s: "ap_Delete api (as_client d) (AsKey ns t k) = (Inr b, s)" "ok s" "view s = (view (as_client d))(AsKey ns t k := None)" by blast
  then show ?case using I as_key_law [OF I(1)] as_rows_client [of view s d t k None] by (simp add: aerospike_db_def aerospike_Delete_def as_inv_def)
next
  case (4 d t fs k m)
  then have I: "as_laws api ok view adm" "ok (as_client d)" "as_ns d = ns" by (auto simp: as_inv_def)
  have "view (as_client d) (AsKey ns t k) = Some m" using 4 I(3) by (simp add: as_rows_at)
  from as_Get_law [OF I(1,2) this] obtain w g s where
    "ap_Get api (as_client d) (Some (AsKey ns t k)) = Ret (Inr (Some \<lparr>ar_Bins = byte_bins w, ar_Generation = g\<rparr>), s)" "ok s" "view s = view (as_client d)" "map_of w = m" by blast
  then show ?case using I as_key_law [OF I(1)]
    by (simp add: aerospike_db_def aerospike_Read_def bins_row_byte_bins as_inv_def as_rows_def as_policy_rows_def)
qed

section \<open>Properties\<close>

text \<open>A server in memory.\<close>

definition mem_as_put :: "(as_key \<rightharpoonup> row) \<Rightarrow> as_policy option \<Rightarrow> as_key \<Rightarrow> as_value smap \<Rightarrow> error option \<times> (as_key \<rightharpoonup> row)" where
  "mem_as_put s policy k bins =
     (None, s(k \<mapsto> merge_fields (case s k of Some r \<Rightarrow> r | None \<Rightarrow> []) (case bins_row (\<lambda>k. True) bins of Inr v \<Rightarrow> v | Inl _ \<Rightarrow> [])))"

definition mem_as :: "(as_key \<rightharpoonup> row) as_api" where
  "mem_as =
     \<lparr>ap_NewKey = (\<lambda>ns t k. Inr (AsKey ns t k)),
      ap_Get = (\<lambda>s k. case k of None \<Rightarrow> Panic ''nil pointer dereference''
                  | Some k \<Rightarrow> Ret (Inr (map_option (\<lambda>r. \<lparr>ar_Bins = byte_bins r, ar_Generation = 1\<rparr>) (s k)), s)),
      ap_Put = mem_as_put, ap_PutBins = mem_as_put, ap_Delete = (\<lambda>s k. (Inr (s k \<noteq> None), s(k := None))),
      ap_ScanAll = (\<lambda>s ns t. (Inr [], s)), ap_Close = id\<rparr>"

definition mem_as_ok :: "(as_key \<rightharpoonup> row) \<Rightarrow> bool" where
  "mem_as_ok s \<longleftrightarrow> (\<forall>r\<in>ran s. distinct (map fst r))"

definition mem_as_view :: "(as_key \<rightharpoonup> row) \<Rightarrow> as_key \<rightharpoonup> rowmap" where
  "mem_as_view s k = map_option map_of (s k)"

lemma mem_as_put_law: "as_put_law mem_as_put mem_as_ok mem_as_view (\<lambda>k m. True)"
  unfolding as_put_law_def
proof (intro allI impI)
  fix s k and v :: row
  assume s: "mem_as_ok s" and v: "distinct (map fst v)"
  let ?r = "merge_fields (case s k of Some r \<Rightarrow> r | None \<Rightarrow> []) v"
  have r: "distinct (map fst ?r)" using s merge_fields_keys by (auto simp: mem_as_ok_def ran_def split: option.splits)
  have "mem_as_put s None k (byte_bins v) = (None, s(k \<mapsto> ?r))" by (simp add: mem_as_put_def bins_row_byte_bins)
  moreover have "mem_as_ok (s(k \<mapsto> ?r))" using s r by (auto simp: mem_as_ok_def ran_def)
  moreover have "mem_as_view (s(k \<mapsto> ?r)) = (mem_as_view s)(k \<mapsto> merge_new (mem_as_view s k) (map_of v))"
    using merge_fields_map [OF v] by (auto simp: mem_as_view_def merge_new_def fun_eq_iff split: option.splits)
  ultimately show "\<exists>t. mem_as_put s None k (byte_bins v) = (None, t) \<and> mem_as_ok t \<and> mem_as_view t = (mem_as_view s)(k \<mapsto> merge_new (mem_as_view s k) (map_of v))"
    by blast
qed

lemma mem_as_laws: "as_laws mem_as mem_as_ok mem_as_view (\<lambda>k m. True)"
proof -
  have "as_get_law mem_as mem_as_ok mem_as_view"
    by (auto simp: as_get_law_def mem_as_def mem_as_ok_def mem_as_view_def ran_def)
  moreover have "mem_as_ok (s(k := None)) \<and> mem_as_view (s(k := None)) = (mem_as_view s)(k := None)" if "mem_as_ok s" for s k
    using that by (auto simp: mem_as_ok_def mem_as_view_def ran_def fun_eq_iff)
  ultimately show ?thesis using mem_as_put_law by (simp add: as_laws_def mem_as_def)
qed

text \<open>
  C31. Updates of the Aerospike adapter lose each other: one worker looks the row up, another completes an update of it, and the first one writes. Both are told of success, but every field that
  the first worker does not set has its old value again, so the other update is undone, although the record had changed in between. One after the other the same
  two updates keep both changes.
\<close>

theorem aerospike_lost_update:
  assumes "as_laws api ok view (\<lambda>k m. True)" and "ok (as_client db)" and "as_rows view db (t, k) = Some m"
    and "row_ok UNIV v" and "row_ok UNIV v'" and "v \<noteq> []" and "v' \<noteq> []"
  shows "(\<exists>key rcd s db2 s3. update_get api (as_ns db) t k (as_client db) = Ret (Inr (key, rcd), s)
      \<and> aerospike_Update api (db\<lparr>as_client := s\<rparr>) t k v' = Ret (None, db2) \<and> as_rows view db2 (t, k) = Some (m ++ map_of v')
      \<and> update_put api key rcd v (as_client db2) = (None, s3)
      \<and> (\<exists>m'. as_rows view (db2\<lparr>as_client := s3\<rparr>) (t, k) = Some m' \<and> (\<forall>f\<in>dom m - dom (map_of v). m' f = m f)))
    \<and> (\<exists>db2 db3. aerospike_Update api db t k v' = Ret (None, db2) \<and> aerospike_Update api db2 t k v = Ret (None, db3)
      \<and> as_rows view db3 (t, k) = Some (m ++ map_of v' ++ map_of v))"
proof -
  let ?ns = "as_ns db" and ?key = "AsKey (as_ns db) t k"
  note update = aerospike.Update [where ok = ok and view = view and adm = "\<lambda>k m. True", unfolded as_policy_rows_def aerospike_db_def, simplified]
  have m: "view (as_client db) ?key = Some m" using assms(3) by (simp add: as_rows_at)
  obtain w g s where w: "update_get api ?ns t k (as_client db) = Ret (Inr (?key, Some \<lparr>ar_Bins = byte_bins w, ar_Generation = g\<rparr>), s)"
    "ok s" "view s = view (as_client db)" "distinct (map fst w)" "map_of w = m" using update_get_ok [OF assms(1,2) m] .
  have d: "as_inv api ok view (\<lambda>k m. True) ?ns (db\<lparr>as_client := s\<rparr>)" "as_rows view (db\<lparr>as_client := s\<rparr>) (t, k) = Some m"
    using assms(1) w m by (simp_all add: as_inv_def as_rows_at)
  obtain db2 where db2: "aerospike_Update api (db\<lparr>as_client := s\<rparr>) t k v' = Ret (None, db2)" "as_inv api ok view (\<lambda>k m. True) ?ns db2"
    "as_rows view db2 (t, k) = Some (m ++ map_of v')"
    using update [OF d(1) assms(5,7) d(2)] by auto
  have I: "ok (as_client db2)" "as_ns db2 = ?ns" "view (as_client db2) ?key = Some (m ++ map_of v')" "distinct (map fst v)"
    using db2(2,3) assms(4) by (auto simp: as_inv_def as_rows_at row_ok_def)
  obtain s3 where s3: "update_put api ?key (Some \<lparr>ar_Bins = byte_bins w, ar_Generation = g\<rparr>) v (as_client db2) = (None, s3)"
    "view s3 = (view (as_client db2))(?key \<mapsto> (m ++ map_of v') ++ (map_of w ++ map_of v))"
    using stale_put_ok [OF assms(1) I(1) w(4) I(4,3)] .
  have m': "as_rows view (db2\<lparr>as_client := s3\<rparr>) (t, k) = Some ((m ++ map_of v') ++ (m ++ map_of v))" using s3(2) I(2) w(5) by (simp add: as_rows_at)
  have old: "((m ++ map_of v') ++ (m ++ map_of v)) f = m f" if "f \<in> dom m - dom (map_of v)" for f
    using that by (auto simp: map_add_def split: option.splits)
  have "\<exists>key rcd s db2 s3. update_get api ?ns t k (as_client db) = Ret (Inr (key, rcd), s)
      \<and> aerospike_Update api (db\<lparr>as_client := s\<rparr>) t k v' = Ret (None, db2) \<and> as_rows view db2 (t, k) = Some (m ++ map_of v')
      \<and> update_put api key rcd v (as_client db2) = (None, s3)
      \<and> (\<exists>m'. as_rows view (db2\<lparr>as_client := s3\<rparr>) (t, k) = Some m' \<and> (\<forall>f\<in>dom m - dom (map_of v). m' f = m f))"
    using w(1) db2(1,3) s3(1) m' old by blast
  moreover have d1: "as_inv api ok view (\<lambda>k m. True) ?ns db" using assms(1,2) by (simp add: as_inv_def)
  moreover obtain db3 where db3: "aerospike_Update api db t k v' = Ret (None, db3)" "as_inv api ok view (\<lambda>k m. True) ?ns db3" "as_rows view db3 (t, k) = Some (m ++ map_of v')"
    using update [OF d1 assms(5,7,3)] by auto
  moreover obtain db4 where "aerospike_Update api db3 t k v = Ret (None, db4)" "as_rows view db4 (t, k) = Some (m ++ map_of v' ++ map_of v)"
    using update [OF db3(2) assms(4,6) db3(3)] by auto
  ultimately show ?thesis by blast
qed


definition sample_as :: "(as_key \<rightharpoonup> row) aerospikedb" where
  "sample_as = \<lparr>as_client = [AsKey ''test'' ''t'' ''k'' \<mapsto> [(''f'', [1]), (''g'', [2])]], as_ns = ''test''\<rparr>"

theorem aerospike_lost_update_witness:
  "\<exists>key rcd s db2 s3 m'. update_get mem_as ''test'' ''t'' ''k'' (as_client sample_as) = Ret (Inr (key, rcd), s)
     \<and> aerospike_Update mem_as (sample_as\<lparr>as_client := s\<rparr>) ''t'' ''k'' [(''g'', [7])] = Ret (None, db2)
     \<and> update_put mem_as key rcd [(''f'', [5])] (as_client db2) = (None, s3)
     \<and> as_rows mem_as_view (db2\<lparr>as_client := s3\<rparr>) (''t'', ''k'') = Some m' \<and> m' ''g'' = Some [2]"
proof -
  have ok: "mem_as_ok (as_client sample_as)" by (simp add: mem_as_ok_def sample_as_def)
  have row: "as_rows mem_as_view sample_as (''t'', ''k'') = Some (map_of [(''f'', [1 :: byte]), (''g'', [2])])"
    by (simp add: as_rows_at mem_as_view_def sample_as_def)
  have r: "row_ok UNIV [(''f'', [5])]" "row_ok UNIV [(''g'', [7])]" by (simp_all add: row_ok_def)
  have ns: "as_ns sample_as = ''test''" by (simp add: sample_as_def)
  have f: "''g'' \<in> dom (map_of [(''f'', [1 :: byte]), (''g'', [2])]) - dom (map_of [(''f'', [5 :: byte])])" by simp
  from aerospike_lost_update [OF mem_as_laws ok row r list.distinct(2) list.distinct(2)] obtain key rcd s db2 s3 m' where
    "update_get mem_as ''test'' ''t'' ''k'' (as_client sample_as) = Ret (Inr (key, rcd), s)"
    "aerospike_Update mem_as (sample_as\<lparr>as_client := s\<rparr>) ''t'' ''k'' [(''g'', [7])] = Ret (None, db2)"
    "update_put mem_as key rcd [(''f'', [5])] (as_client db2) = (None, s3)"
    "as_rows mem_as_view (db2\<lparr>as_client := s3\<rparr>) (''t'', ''k'') = Some m'"
    "\<forall>f\<in>dom (map_of [(''f'', [1 :: byte]), (''g'', [2])]) - dom (map_of [(''f'', [5 :: byte])]). m' f = map_of [(''f'', [1 :: byte]), (''g'', [2])] f"
    unfolding ns by blast
  moreover from this(5) f have "m' ''g'' = Some [2]" by fastforce
  ultimately show ?thesis by blast
qed

end
