(* ===== verification/Gc.thy ===== *)
theory Gc
  imports App
begin

text \<open>
  The command \<open>gc\<close>, \<^verbatim>\<open>cmd/go-ycsb/gc.go\<close>: rounds of garbage collection in the value log of Badger with what each of them cost and saved. The operating system (the directory of the
  value log, the process statistics, the clock) and the database are parameters over one state. A printed line is a constructor that carries the numbers of the line as they are before formatting.
\<close>

section \<open>The value log directory\<close>

text \<open>\<open>fi_Blocks\<close> is the number of blocks from \<open>syscall.Stat_t\<close>, which is missing on other systems.\<close>

record fileinfo =
  fi_Size :: int
  fi_Blocks :: "int option"

record dirent =
  de_Name :: string
  de_IsDir :: bool
  de_Info :: "error + fileinfo"

record vlogFile =
  vf_name :: string
  vf_size :: int

record 'd gc_os =
  os_ReadDir :: "'d \<Rightarrow> string \<Rightarrow> error + dirent list"
  os_ReadFile :: "'d \<Rightarrow> string \<Rightarrow> error + string"
  os_Now :: "'d \<Rightarrow> int"

definition has_suffix :: "string \<Rightarrow> string \<Rightarrow> bool" where
  "has_suffix s w \<longleftrightarrow> length w \<le> length s \<and> drop (length s - length w) s = w"

definition actualSize :: "fileinfo \<Rightarrow> int" where
  "actualSize info = (case fi_Blocks info of Some b \<Rightarrow> i64 (b * 512) | None \<Rightarrow> fi_Size info)"

fun vlog_files :: "dirent list \<Rightarrow> vlogFile list" where
  "vlog_files [] = []"
| "vlog_files (e # es) =
     (if \<not> de_IsDir e \<and> has_suffix (de_Name e) ''.vlog'' then
        case de_Info e of Inl _ \<Rightarrow> vlog_files es | Inr info \<Rightarrow> \<lparr>vf_name = de_Name e, vf_size = actualSize info\<rparr> # vlog_files es
      else vlog_files es)"

definition scanVlogDir :: "'d gc_os \<Rightarrow> 'd \<Rightarrow> string \<Rightarrow> error + vlogFile list" where
  "scanVlogDir os d dir = map_sum id (\<lambda>es. sort_key vf_name (vlog_files es)) (os_ReadDir os d dir)"

definition sum_sizes :: "vlogFile list \<Rightarrow> int" where
  "sum_sizes files = foldl (\<lambda>a f. i64 (a + vf_size f)) 0 files"

definition totalVlogSize :: "'d gc_os \<Rightarrow> 'd \<Rightarrow> string \<Rightarrow> int" where
  "totalVlogSize os d dir = (case scanVlogDir os d dir of Inl _ \<Rightarrow> - 1 | Inr files \<Rightarrow> sum_sizes files)"

definition megabytes :: "int \<Rightarrow> float64" where
  "megabytes n = fdiv (of_int64 n) (Fin 1048576)"

datatype listing = ScanFailed string error | NoFiles string | Listed string int "(string \<times> float64) list" float64

definition formatVlogDirStats :: "'d gc_os \<Rightarrow> 'd \<Rightarrow> string \<Rightarrow> listing" where
  "formatVlogDirStats os d dir =
     (case scanVlogDir os d dir of
        Inl err \<Rightarrow> ScanFailed dir err
      | Inr files \<Rightarrow> if files = [] then NoFiles dir
                    else Listed dir (int (length files)) (map (\<lambda>f. (vf_name f, megabytes (vf_size f))) files) (megabytes (sum_sizes files)))"

section \<open>Physical writes\<close>

text \<open>Unlike the report of the Badger adapter, the lack of a line is told from a line that cannot be read.\<close>

fun phys_line :: "string list \<Rightarrow> int" where
  "phys_line [] = - 1"
| "phys_line (line # ls) =
     (if take 12 line = ''write_bytes:'' then sscanf_int (drop 12 line) else phys_line ls)"

definition readWriteBytes :: "'d gc_os \<Rightarrow> 'd \<Rightarrow> int" where
  "readWriteBytes os d =
     (case os_ReadFile os d ''/proc/self/io'' of Inl _ \<Rightarrow> - 1 | Inr data \<Rightarrow> phys_line (split_on (CHR 0x0A) data))"

section \<open>The rounds\<close>

record 'd GCableDB =
  gc_RunValueLogGC :: "'d \<Rightarrow> float64 \<Rightarrow> error option \<times> 'd"
  gc_VlogSize :: "'d \<Rightarrow> int \<times> int"
  gc_VlogStats :: "'d \<Rightarrow> string"

record gcRoundResult =
  gr_round :: int
  gr_duration :: int
  gr_physWriteBefore :: int
  gr_physWriteAfter :: int
  gr_physWriteDelta :: int
  gr_spaceReclaimedMB :: float64
  gr_lsmBefore :: int
  gr_vlogBefore :: int
  gr_lsmAfter :: int
  gr_vlogAfter :: int
  gr_err :: "error option"

definition phys_delta :: "int \<Rightarrow> int \<Rightarrow> int" where
  "phys_delta before after =
     (if 0 \<le> before \<and> 0 \<le> after then let delta = i64 (after - before) in if delta < 0 then 0 else delta else 0)"

definition space_reclaimed :: "int \<Rightarrow> int \<Rightarrow> float64" where
  "space_reclaimed before after = (if 0 \<le> before \<and> 0 \<le> after then megabytes (i64 (before - after)) else Fin 0)"

definition gc_round :: "'d gc_os \<Rightarrow> 'd GCableDB \<Rightarrow> float64 \<Rightarrow> string \<Rightarrow> int \<Rightarrow> 'd \<Rightarrow> gcRoundResult \<times> 'd" where
  "gc_round os G discardRatio vlogDir i d =
     (let physBefore = readWriteBytes os d; (lsmBefore, vlogBefore) = gc_VlogSize G d; vlogDirBefore = totalVlogSize os d vlogDir; start = os_Now os d;
          (err, d) = gc_RunValueLogGC G d discardRatio;
          elapsed = i64 (os_Now os d - start); physAfter = readWriteBytes os d; (lsmAfter, vlogAfter) = gc_VlogSize G d; vlogDirAfter = totalVlogSize os d vlogDir
      in (\<lparr>gr_round = i, gr_duration = elapsed, gr_physWriteBefore = physBefore, gr_physWriteAfter = physAfter, gr_physWriteDelta = phys_delta physBefore physAfter,
           gr_spaceReclaimedMB = space_reclaimed vlogDirBefore vlogDirAfter,
           gr_lsmBefore = lsmBefore, gr_vlogBefore = vlogBefore, gr_lsmAfter = lsmAfter, gr_vlogAfter = vlogAfter, gr_err = err\<rparr>, d))"

text \<open>The loop ends early when the text of the error contains one of two words.\<close>

definition no_rewrite :: "error option \<Rightarrow> bool" where
  "no_rewrite err = (case err of None \<Rightarrow> False | Some e \<Rightarrow> contains e ''ErrNoRewrite'' \<or> contains e ''No file'')"

fun gc_rounds :: "nat \<Rightarrow> 'd gc_os \<Rightarrow> 'd GCableDB \<Rightarrow> float64 \<Rightarrow> string \<Rightarrow> int \<Rightarrow> 'd \<Rightarrow> gcRoundResult list \<times> 'd" where
  "gc_rounds 0 os G discardRatio vlogDir i d = ([], d)"
| "gc_rounds (Suc n) os G discardRatio vlogDir i d =
     (let (r, d) = gc_round os G discardRatio vlogDir i d in
      if no_rewrite (gr_err r) then ([r], d)
      else let (rs, d) = gc_rounds n os G discardRatio vlogDir (i + 1) d in (r # rs, d))"

definition totalDuration :: "gcRoundResult list \<Rightarrow> int" where
  "totalDuration rs = foldl (\<lambda>a r. i64 (a + gr_duration r)) 0 rs"

definition totalPhysWrite :: "gcRoundResult list \<Rightarrow> int" where
  "totalPhysWrite rs = foldl (\<lambda>a r. i64 (a + gr_physWriteDelta r)) 0 rs"

definition cumulativeSpaceReclaimedMB :: "gcRoundResult list \<Rightarrow> float64" where
  "cumulativeSpaceReclaimedMB rs = foldl (\<lambda>a r. fadd a (gr_spaceReclaimedMB r)) (Fin 0) rs"

section \<open>What is printed\<close>

datatype gc_print =
    GcUnsupported string | GcNotCollectable
  | GcBanner int float64 string | GcSnapshotBefore | GcStats string | GcDirStats listing | GcSize int int | GcBegin int float64
  | GcRound int int | GcElapsed int | GcNothingLeft | GcFailed error | GcDone | GcPhysWrite float64 | GcReclaimed float64 | GcSizeChange int int | GcStopped
  | GcSnapshotAfter | GcExecuted int int | GcTotalDuration int | GcLogical int int | GcLogicalLess float64 | GcLogicalMore float64 | GcDirLess float64 | GcDirMore float64
  | GcTotalPhys float64 | GcTotalReclaimed float64 | GcNoIO | GcDetail int string int float64 float64 | GcSummary int int float64 float64

definition gc_snapshot :: "'d gc_os \<Rightarrow> 'd GCableDB \<Rightarrow> string \<Rightarrow> 'd \<Rightarrow> gc_print list" where
  "gc_snapshot os G vlogDir d =
     (let stats = gc_VlogStats G d; (lsm, vlog) = gc_VlogSize G d in
      [if stats \<noteq> [] then GcStats stats else GcDirStats (formatVlogDirStats os d vlogDir), GcSize (go_div lsm 1048576) (go_div vlog 1048576)])"

definition round_prints :: "int \<Rightarrow> gcRoundResult \<Rightarrow> gc_print list" where
  "round_prints gcCount r =
     (let lsmDelta = go_div (i64 (gr_lsmAfter r - gr_lsmBefore r)) 1048576; vlogDelta = go_div (i64 (gr_vlogAfter r - gr_vlogBefore r)) 1048576 in
      [GcRound (gr_round r) gcCount, GcElapsed (gr_duration r),
       case gr_err r of None \<Rightarrow> GcDone | Some e \<Rightarrow> if no_rewrite (Some e) then GcNothingLeft else GcFailed e]
      @ (if 0 < gr_physWriteDelta r then [GcPhysWrite (megabytes (gr_physWriteDelta r))] else [])
      @ (if flt (Fin 0) (gr_spaceReclaimedMB r) then [GcReclaimed (gr_spaceReclaimedMB r)] else [])
      @ (if lsmDelta \<noteq> 0 \<or> vlogDelta \<noteq> 0 then [GcSizeChange lsmDelta vlogDelta] else [])
      @ (if no_rewrite (gr_err r) then [GcStopped] else []))"

text \<open>The mark of a round in the report looks for one of the two words only.\<close>

definition detail_status :: "error option \<Rightarrow> string" where
  "detail_status err = (case err of None \<Rightarrow> ''ok'' | Some e \<Rightarrow> if contains e ''ErrNoRewrite'' then ''skipped'' else ''failed'')"

definition summary_prints :: "int \<Rightarrow> gcRoundResult list \<Rightarrow> int \<times> int \<Rightarrow> int \<times> int \<Rightarrow> int \<Rightarrow> int \<Rightarrow> gc_print list" where
  "summary_prints gcCount rs pre post preVlogDirSize postVlogDirSize =
     (let totalSizeBefore = i64 (fst pre + snd pre); totalSizeAfter = i64 (fst post + snd post); totalSizeDelta = i64 (totalSizeBefore - totalSizeAfter);
          vlogDirDelta = megabytes (i64 (preVlogDirSize - postVlogDirSize)); phys = totalPhysWrite rs; reclaimed = cumulativeSpaceReclaimedMB rs in
      [GcExecuted (int (length rs)) gcCount, GcTotalDuration (totalDuration rs), GcLogical (go_div totalSizeBefore 1048576) (go_div totalSizeAfter 1048576),
       if 0 \<le> totalSizeDelta then GcLogicalLess (megabytes totalSizeDelta) else GcLogicalMore (fneg (megabytes totalSizeDelta))]
      @ (if 0 \<le> preVlogDirSize \<and> 0 \<le> postVlogDirSize then [if fle (Fin 0) vlogDirDelta then GcDirLess vlogDirDelta else GcDirMore (fneg vlogDirDelta)] else [])
      @ (if 0 < phys then GcTotalPhys (megabytes phys) # (if flt (Fin 0) reclaimed then [GcTotalReclaimed reclaimed] else []) else [GcNoIO])
      @ map (\<lambda>r. GcDetail (gr_round r) (detail_status (gr_err r)) (gr_duration r) (megabytes (gr_physWriteDelta r)) (gr_spaceReclaimedMB r)) rs
      @ [GcSummary (int (length rs)) (go_div (totalDuration rs) 1000000) (megabytes phys) reclaimed])"

section \<open>The command\<close>

definition gc_count :: "props \<Rightarrow> int" where
  "gc_count p = (let gcCount = GetInt64 p ''gc.count'' 3 in if gcCount < 1 then 1 else gcCount)"

definition gc_ratio :: "props \<Rightarrow> float64" where
  "gc_ratio p = (let discardRatio = GetFloat64 p ''gc.discard_ratio'' (Fin 0.5) in if fle discardRatio (Fin 0) \<or> fle (Fin 1) discardRatio then Fin 0.5 else discardRatio)"

definition gc_dir :: "props \<Rightarrow> string" where
  "gc_dir p = (let vlogDir = GetString p ''badger.valuedir'' [] in if vlogDir = [] then GetString p ''badger.dir'' ''/tmp/badger'' else vlogDir)"

definition gc_command :: "'d gc_os \<Rightarrow> 'd GCableDB \<Rightarrow> props \<Rightarrow> 'd \<Rightarrow> (gcRoundResult list \<times> gc_print list) \<times> 'd" where
  "gc_command os G p d =
     (let gcCount = gc_count p; discardRatio = gc_ratio p; vlogDir = gc_dir p;
          pre = gc_VlogSize G d; preVlogDirSize = totalVlogSize os d vlogDir;
          before = [GcBanner gcCount discardRatio vlogDir, GcSnapshotBefore] @ gc_snapshot os G vlogDir d @ [GcBegin gcCount discardRatio];
          (rs, d') = gc_rounds (nat gcCount) os G discardRatio vlogDir 1 d;
          after = GcSnapshotAfter # gc_snapshot os G vlogDir d' @ summary_prints gcCount rs pre (gc_VlogSize G d') preVlogDirSize (totalVlogSize os d' vlogDir)
      in ((rs, before @ concat (map (round_prints gcCount) rs) @ after), d'))"

text \<open>\<open>globalDB\<close> is always the measuring wrapper; \<open>gcable\<close> is the result of the type assertion on the database in it.\<close>

definition runGCCommandFunc ::
    "'p propslib \<Rightarrow> (props \<Rightarrow> (error + core) go) smap \<Rightarrow> (props \<Rightarrow> (error + 'd) go) smap \<Rightarrow> flags \<Rightarrow> 'h mstate \<Rightarrow> 'd gc_os \<Rightarrow> 'd GCableDB option \<Rightarrow> string list
      \<Rightarrow> (gc_print list \<times> 'd option) go" where
  "runGCCommandFunc L workloadCreators dbCreators fg m os gcable args =
     gbind (go_index args 0) (\<lambda>dbName.
       if dbName \<noteq> ''badger'' then Ret ([GcUnsupported dbName], None)
       else gbind (initialGlobal L workloadCreators dbCreators fg dbName id m) (\<lambda>g.
         case gcable of
           None \<Rightarrow> Ret ([GcNotCollectable], Some (gl_db g))
         | Some G \<Rightarrow> (let ((rs, prints), d) = gc_command os G (pl_view L (gl_props g)) (gl_db g) in Ret (prints, Some d))))"

text \<open>The Badger adapter as a \<open>GCableDB\<close>.\<close>

definition badger_GCable :: "'s badger_api \<Rightarrow> ('s badgerDB \<Rightarrow> string) \<Rightarrow> 's badgerDB GCableDB" where
  "badger_GCable api stats = \<lparr>gc_RunValueLogGC = (\<lambda>d discardRatio. badger_RunValueLogGC api discardRatio d), gc_VlogSize = badger_VlogSize api, gc_VlogStats = stats\<rparr>"

section \<open>Properties\<close>

text \<open>
  What the rounds of a run with at most \<open>n\<close> of them from number \<open>i\<close> on look like: there is at least one, they are numbered, only the last one can have found nothing to rewrite, and it did
  if there are fewer than \<open>n\<close>; the physical writes of a round are never negative.
\<close>

definition rounds_ok :: "nat \<Rightarrow> int \<Rightarrow> gcRoundResult list \<Rightarrow> bool" where
  "rounds_ok n i rs \<longleftrightarrow> length rs \<le> n \<and> (0 < n \<longrightarrow> rs \<noteq> []) \<and> map gr_round rs = map (\<lambda>j. i + int j) [0..<length rs]
     \<and> (length rs < n \<longrightarrow> no_rewrite (gr_err (last rs))) \<and> (\<forall>r\<in>set (butlast rs). \<not> no_rewrite (gr_err r)) \<and> (\<forall>r\<in>set rs. 0 \<le> gr_physWriteDelta r)"

lemma rounds_ok_Cons:
  assumes "\<not> no_rewrite (gr_err r)" and "gr_round r = i" and "0 \<le> gr_physWriteDelta r" and "rounds_ok n (i + 1) rs"
  shows "rounds_ok (Suc n) i (r # rs)"
proof -
  have "map (\<lambda>j. i + int j) [0..<Suc (length rs)] = i # map (\<lambda>j. i + 1 + int j) [0..<length rs]"
    by (simp add: upt_conv_Cons map_Suc_upt [symmetric] o_def del: upt_Suc)
  then show ?thesis using assms by (cases "rs = []") (auto simp: rounds_ok_def)
qed

lemma gc_rounds_ok: "rounds_ok n i (fst (gc_rounds n os G discardRatio dir i d))"
proof (induction n arbitrary: i d)
  case 0
  then show ?case by (simp add: rounds_ok_def)
next
  case (Suc n)
  obtain r d' where r: "gc_round os G discardRatio dir i d = (r, d')" by fastforce
  then have i: "gr_round r = i" "0 \<le> gr_physWriteDelta r" by (auto simp: gc_round_def phys_delta_def Let_def split: prod.splits)
  show ?case
  proof (cases "no_rewrite (gr_err r)")
    case True
    then show ?thesis using i by (simp add: r rounds_ok_def)
  next
    case False
    then show ?thesis using rounds_ok_Cons [OF False i Suc.IH [of "i + 1" d']] by (simp add: r split_def Let_def)
  qed
qed

text \<open>A collector whose errors contain none of the two words is run as often as asked for.\<close>

lemma gc_rounds_all:
  assumes "\<And>d. \<not> no_rewrite (fst (gc_RunValueLogGC G d discardRatio))"
  shows "length (fst (gc_rounds n os G discardRatio dir i d)) = n"
proof (induction n arbitrary: i d)
  case (Suc n)
  have "\<not> no_rewrite (gr_err (fst (gc_round os G discardRatio dir i d)))" using assms by (simp add: gc_round_def Let_def split_def)
  then show ?case using Suc by (simp add: split_def Let_def)
qed simp

lemma sum_i64: "foldl (\<lambda>a r. i64 (a + f r)) (i64 z) rs = i64 (z + (\<Sum>r\<leftarrow>rs. f r))"
proof (induction rs arbitrary: z)
  case (Cons r rs)
  have "i64 (i64 z + f r) = i64 (z + f r)" by (rule i64_add_left)
  then show ?case using Cons [of "z + f r"] by (simp add: add.assoc)
qed simp

lemma badger_message: "\<not> no_rewrite (Some ''Value log GC attempt didn't result in any cleanup'')"
  by (simp add: no_rewrite_def)


text \<open>A database whose second collection finds nothing.\<close>

definition sample_os :: "nat gc_os" where
  "sample_os = \<lparr>os_ReadDir = (\<lambda>d dir. Inl ''no such directory''), os_ReadFile = (\<lambda>d path. Inr (''wchar: 1'' @ [CHR 0x0A] @ ''write_bytes: 4096'')), os_Now = int\<rparr>"

definition sample_gcable :: "nat GCableDB" where
  "sample_gcable = \<lparr>gc_RunValueLogGC = (\<lambda>d ratio. (if d = 0 then None else Some ''Value log GC attempt didn't result in any cleanup'', Suc d)),
     gc_VlogSize = (\<lambda>d. (0, 0)), gc_VlogStats = (\<lambda>d. [])\<rparr>"


end
