(* ===== verification/Mongo.thy ===== *)
theory Mongo
  imports Redis
begin

text \<open>
  The MongoDB adapter, \<^verbatim>\<open>db/mongodb/db.go\<close>: a document per row under the key \<open>_id\<close>. The driver and the server are a parameter. Unlike most adapters it tells a row that is missing
  from one that is there on every operation.
\<close>

section \<open>The driver\<close>

datatype bson = BsonString string | BsonBinary "byte list"

text \<open>
  The calls that the adapter makes, with the filters that it uses: by key, and by keys from one on in ascending order. The numbers of matched and of deleted documents are what the adapter looks
  at in the results. \<open>mg_Find\<close> may fail at once or while its cursor is read.
\<close>

record 's mongo_api =
  mg_FindOne :: "'s \<Rightarrow> string \<Rightarrow> string \<Rightarrow> bool smap \<Rightarrow> (error + row) \<times> 's"
  mg_Find :: "'s \<Rightarrow> string \<Rightarrow> string \<Rightarrow> bool smap \<Rightarrow> int \<Rightarrow> (error + (error + row list)) \<times> 's"
  mg_InsertOne :: "'s \<Rightarrow> string \<Rightarrow> bson smap \<Rightarrow> error option \<times> 's"
  mg_UpdateOne :: "'s \<Rightarrow> string \<Rightarrow> string \<Rightarrow> row \<Rightarrow> (error + int) \<times> 's"
  mg_DeleteOne :: "'s \<Rightarrow> string \<Rightarrow> string \<Rightarrow> (error + int) \<times> 's"
  mg_Disconnect :: "'s \<Rightarrow> error option \<times> 's"

record 's mongoDB =
  mo_cli :: 's

section \<open>Creation\<close>

record 'pool mongo_tls =
  mt_ServerName :: string
  mt_InsecureSkipVerify :: bool
  mt_RootCAs :: "'pool option"

record 'pool mongo_options =
  mc_URI :: string
  mc_TLSConfig :: "'pool mongo_tls option"
  mc_MaxPoolSize :: "u64 option"
  mc_Auth :: "(string \<times> string \<times> string) option"

text \<open>The TLS settings apply only when the address asks for TLS. A certificate file that cannot be used ends the process.\<close>

definition mongo_root_cas :: "('pool, 'cert) tlslib \<Rightarrow> string \<Rightarrow> 'pool mongo_tls \<Rightarrow> 'pool mongo_tls go" where
  "mongo_root_cas L caFile tls =
     (if caFile = [] then Ret tls
      else case tl_ReadFile L caFile of
             Inl err \<Rightarrow> Exit err
           | Inr caCert \<Rightarrow>
               (case tl_AppendCertsFromPEM L (tl_NewCertPool L) caCert of
                  (False, _) \<Rightarrow> Exit (''certifacte '' @ caFile @ '' could not be parsed'')
                | (True, pool) \<Rightarrow> Ret (tls\<lparr>mt_RootCAs := Some pool\<rparr>)))"

definition mongo_tls_options :: "('pool, 'cert) tlslib \<Rightarrow> string list \<Rightarrow> bool \<Rightarrow> string \<Rightarrow> 'pool mongo_options \<Rightarrow> 'pool mongo_options go" where
  "mongo_tls_options L hosts tlsSkipVerify caFile cliOpts =
     (case mc_TLSConfig cliOpts of
        None \<Rightarrow> Ret cliOpts
      | Some tls \<Rightarrow>
          (let tls = (case hosts of [] \<Rightarrow> tls | h # _ \<Rightarrow> tls\<lparr>mt_ServerName := hd (split_on (CHR '':'') h)\<rparr>);
               tls = (if tlsSkipVerify then tls\<lparr>mt_InsecureSkipVerify := True\<rparr> else tls)
           in gbind (mongo_root_cas L caFile tls) (\<lambda>tls. Ret (cliOpts\<lparr>mc_TLSConfig := Some tls\<rparr>))))"

definition mongo_auth :: "string \<Rightarrow> props \<Rightarrow> 'pool mongo_options \<Rightarrow> error + 'pool mongo_options" where
  "mongo_auth authdb p cliOpts =
     (case (Get p ''mongodb.username'', Get p ''mongodb.password'') of
        (Some username, Some password) \<Rightarrow> Inr (cliOpts\<lparr>mc_Auth := Some (authdb, username, password)\<rparr>)
      | (Some _, None) \<Rightarrow> Inl ''mongodb.username is set, but mongodb.password is missing''
      | (None, Some _) \<Rightarrow> Inl ''mongodb.password is set, but mongodb.username is missing''
      | (None, None) \<Rightarrow> Inr cliOpts)"

text \<open>\<open>Parse\<close> delivers the hosts of an address, \<open>ApplyURI\<close> the options that it implies, \<open>Connect\<close> a client; \<open>Ping\<close> and \<open>ListDatabaseNames\<close> are calls on it.\<close>

definition mongo_Create ::
    "('pool, 'cert) tlslib \<Rightarrow> (string \<Rightarrow> error + string list) \<Rightarrow> (string \<Rightarrow> 'pool mongo_options) \<Rightarrow> ('pool mongo_options \<Rightarrow> error + 's)
      \<Rightarrow> ('s \<Rightarrow> error option \<times> 's) \<Rightarrow> ('s \<Rightarrow> error option \<times> 's) \<Rightarrow> props \<Rightarrow> (error + 's mongoDB) go" where
  "mongo_Create L Parse ApplyURI Connect Ping ListDatabaseNames p =
     (let uri = GetString p ''mongodb.url'' ''mongodb://127.0.0.1:27017/ycsb?w=1''; authdb = GetString p ''mongodb.authdb'' ''admin'';
          tlsSkipVerify = GetBool p ''mongodb.tls_skip_verify'' False; caFile = GetString p ''mongodb.tls_ca_file'' [] in
      case Parse uri of
        Inl err \<Rightarrow> Ret (Inl err)
      | Inr hosts \<Rightarrow>
          gbind (mongo_tls_options L hosts tlsSkipVerify caFile (ApplyURI uri)) (\<lambda>cliOpts.
            case mongo_auth authdb p (cliOpts\<lparr>mc_MaxPoolSize := Some (of_int (GetInt64 p prop_ThreadCount prop_ThreadCountDefault))\<rparr>) of
              Inl err \<Rightarrow> Ret (Inl err)
            | Inr cliOpts \<Rightarrow>
                (case Connect cliOpts of
                   Inl err \<Rightarrow> Ret (Inl err)
                 | Inr cli \<Rightarrow>
                     (case Ping cli of
                        (Some err, _) \<Rightarrow> Ret (Inl err)
                      | (None, cli) \<Rightarrow>
                          (case ListDatabaseNames cli of
                             (Some _, _) \<Rightarrow> Ret (Inl ''auth failed'')
                           | (None, cli) \<Rightarrow> Ret (Inr \<lparr>mo_cli = cli\<rparr>))))))"

definition mongo_Close :: "'s mongo_api \<Rightarrow> 's mongoDB \<Rightarrow> error option \<times> 's mongoDB" where
  "mongo_Close api m = (let (err, s) = mg_Disconnect api (mo_cli m) in (err, \<lparr>mo_cli = s\<rparr>))"

section \<open>Operations\<close>

definition mongo_projection :: "string list \<Rightarrow> bool smap" where
  "mongo_projection fnames = foldl (\<lambda>pr f. AList.update f True pr) [(''_id'', False)] fnames"

definition mongo_Read :: "'s mongo_api \<Rightarrow> 's mongoDB \<Rightarrow> string \<Rightarrow> string \<Rightarrow> string list \<Rightarrow> ((error + row) \<times> 's mongoDB) go" where
  "mongo_Read api m table key fnames =
     (let (res, s) = mg_FindOne api (mo_cli m) table key (mongo_projection fnames) in
      Ret (case res of Inl err \<Rightarrow> Inl (''Read error: '' @ err) | Inr doc \<Rightarrow> Inr doc, \<lparr>mo_cli = s\<rparr>))"

definition mongo_Scan :: "'s mongo_api \<Rightarrow> 's mongoDB \<Rightarrow> string \<Rightarrow> string \<Rightarrow> int \<Rightarrow> string list \<Rightarrow> ((error + row option list) \<times> 's mongoDB) go" where
  "mongo_Scan api m table startKey cnt fnames =
     (let (res, s) = mg_Find api (mo_cli m) table startKey (mongo_projection fnames) cnt in
      Ret (case res of
             Inl err \<Rightarrow> Inl (''Scan error: '' @ err)
           | Inr (Inl err) \<Rightarrow> Inl err
           | Inr (Inr docs) \<Rightarrow> Inr (map Some docs), \<lparr>mo_cli = s\<rparr>))"

definition mongo_doc :: "string \<Rightarrow> row \<Rightarrow> bson smap" where
  "mongo_doc key vals = foldl (\<lambda>doc (k, v). AList.update k (BsonBinary v) doc) [(''_id'', BsonString key)] vals"

definition mongo_Insert :: "'s mongo_api \<Rightarrow> 's mongoDB \<Rightarrow> string \<Rightarrow> string \<Rightarrow> row \<Rightarrow> (error option \<times> 's mongoDB) go" where
  "mongo_Insert api m table key vals =
     (let (err, s) = mg_InsertOne api (mo_cli m) table (mongo_doc key vals) in Ret (map_option (\<lambda>e. ''Insert error: '' @ e) err, \<lparr>mo_cli = s\<rparr>))"

text \<open>The number of documents that a call has matched or deleted has to be one.\<close>

definition matched_one :: "string \<Rightarrow> string \<Rightarrow> error + int \<Rightarrow> error option" where
  "matched_one what key res =
     (case res of Inl err \<Rightarrow> Some (what @ '' error: '' @ err) | Inr n \<Rightarrow> if n \<noteq> 1 then Some (what @ '' error: '' @ key @ '' not found'') else None)"

definition mongo_Update :: "'s mongo_api \<Rightarrow> 's mongoDB \<Rightarrow> string \<Rightarrow> string \<Rightarrow> row \<Rightarrow> (error option \<times> 's mongoDB) go" where
  "mongo_Update api m table key vals =
     (let (res, s) = mg_UpdateOne api (mo_cli m) table key vals in Ret (matched_one ''Update'' key res, \<lparr>mo_cli = s\<rparr>))"

definition mongo_Delete :: "'s mongo_api \<Rightarrow> 's mongoDB \<Rightarrow> string \<Rightarrow> string \<Rightarrow> (error option \<times> 's mongoDB) go" where
  "mongo_Delete api m table key =
     (let (res, s) = mg_DeleteOne api (mo_cli m) table key in Ret (matched_one ''Delete'' key res, \<lparr>mo_cli = s\<rparr>))"

definition mongo_db :: "'s mongo_api \<Rightarrow> 's mongoDB db" where
  "mongo_db api =
     \<lparr>db_Close = (\<lambda>d. Ret (mongo_Close api d)), db_InitThread = (\<lambda>d i n. Ret d), db_CleanupThread = Ret,
      db_Read = mongo_Read api, db_Scan = mongo_Scan api, db_Update = mongo_Update api, db_Insert = mongo_Insert api, db_Delete = mongo_Delete api,
      db_Batch = None, db_Analyze = None, db_TypeName = ''*mongodb.mongoDB''\<rparr>"

section \<open>What the server does\<close>

text \<open>
  Documented behaviour: a projection with an inclusion delivers the included fields, one without delivers all but the excluded ones; a document whose \<open>_id\<close> is
  taken is refused; a limit of 0 is no limit. A state stands for a table of rows, the fields of the documents but \<open>_id\<close>.
\<close>

definition project :: "bool smap \<Rightarrow> rowmap \<Rightarrow> rowmap" where
  "project pr m = (let incl = fst ` set (filter snd pr) in if incl = {} then m |` (- fst ` set pr) else m |` incl)"

definition keys_from :: "table \<Rightarrow> string \<Rightarrow> string \<Rightarrow> string list" where
  "keys_from T t startKey = sorted_list_of_set {k. T (t, k) \<noteq> None \<and> startKey \<le> k}"

definition at_most :: "int \<Rightarrow> 'a list \<Rightarrow> 'a list" where
  "at_most cnt xs = (if cnt = 0 then xs else take (nat cnt) xs)"

definition mongo_find_law :: "'s mongo_api \<Rightarrow> ('s \<Rightarrow> bool) \<Rightarrow> ('s \<Rightarrow> table) \<Rightarrow> bool" where
  "mongo_find_law api ok view \<longleftrightarrow>
     (\<forall>s t k pr. ok s \<longrightarrow> (\<exists>s'. ok s' \<and> view s' = view s
        \<and> (case view s (t, k) of Some m \<Rightarrow> \<exists>r. mg_FindOne api s t k pr = (Inr r, s') \<and> map_of r = project pr m
           | None \<Rightarrow> \<exists>err. mg_FindOne api s t k pr = (Inl err, s'))))
   \<and> (\<forall>s t k pr n. ok s \<longrightarrow> 0 \<le> n \<longrightarrow> (\<exists>rs s'. mg_Find api s t k pr n = (Inr (Inr rs), s') \<and> ok s' \<and> view s' = view s
        \<and> list_all2 (\<lambda>k r. map_of r = project pr (the (view s (t, k)))) (at_most n (keys_from (view s) t k)) rs))"

definition mongo_insert_law :: "'s mongo_api \<Rightarrow> ('s \<Rightarrow> bool) \<Rightarrow> ('s \<Rightarrow> table) \<Rightarrow> (string \<Rightarrow> rowmap \<Rightarrow> bool) \<Rightarrow> bool" where
  "mongo_insert_law api ok view adm \<longleftrightarrow>
     (\<forall>s t k doc v. ok s \<longrightarrow> distinct (map fst doc) \<longrightarrow> map_of doc = (map_option BsonBinary \<circ> v)(''_id'' \<mapsto> BsonString k) \<longrightarrow> v ''_id'' = None \<longrightarrow> adm k v \<longrightarrow>
        (\<exists>s'. ok s' \<and> (if view s (t, k) = None then mg_InsertOne api s t doc = (None, s') \<and> view s' = (view s)((t, k) \<mapsto> v)
                       else (\<exists>err. mg_InsertOne api s t doc = (Some err, s')) \<and> view s' = view s)))"

definition mongo_write_law :: "'s mongo_api \<Rightarrow> ('s \<Rightarrow> bool) \<Rightarrow> ('s \<Rightarrow> table) \<Rightarrow> (string \<Rightarrow> rowmap \<Rightarrow> bool) \<Rightarrow> bool" where
  "mongo_write_law api ok view adm \<longleftrightarrow>
     (\<forall>s t k v. ok s \<longrightarrow> v \<noteq> [] \<longrightarrow> distinct (map fst v) \<longrightarrow> ''_id'' \<notin> fst ` set v \<longrightarrow>
        (\<exists>s'. ok s' \<and> (case view s (t, k) of
             Some m \<Rightarrow> adm k (m ++ map_of v) \<longrightarrow> mg_UpdateOne api s t k v = (Inr 1, s') \<and> view s' = (view s)((t, k) \<mapsto> m ++ map_of v)
           | None \<Rightarrow> mg_UpdateOne api s t k v = (Inr 0, s') \<and> view s' = view s)))
   \<and> (\<forall>s t k. ok s \<longrightarrow> (\<exists>s'. ok s' \<and> mg_DeleteOne api s t k = (Inr (if view s (t, k) = None then 0 else 1), s') \<and> view s' = (view s)((t, k) := None)))"

section \<open>The adapter over it\<close>

definition mongo_inv :: "'s mongo_api \<Rightarrow> ('s \<Rightarrow> bool) \<Rightarrow> ('s \<Rightarrow> table) \<Rightarrow> (string \<Rightarrow> rowmap \<Rightarrow> bool) \<Rightarrow> 's mongoDB \<Rightarrow> bool" where
  "mongo_inv api ok view adm db \<longleftrightarrow> mongo_find_law api ok view \<and> mongo_insert_law api ok view adm \<and> mongo_write_law api ok view adm
     \<and> ok (mo_cli db) \<and> (\<forall>m\<in>ran (view (mo_cli db)). m ''_id'' = None)"

definition mongo_rows :: "('s \<Rightarrow> table) \<Rightarrow> 's mongoDB \<Rightarrow> table" where
  "mongo_rows view db = view (mo_cli db)"

lemma included: "fst ` set (filter snd pr) = {f. (f, True) \<in> set pr}"
  by force

lemma included_update: "{g. (g, True) \<in> set (AList.update f True pr)} = insert f {g. (g, True) \<in> set pr}"
proof (induction pr)
  case (Cons p pr)
  then show ?case by (cases p) (auto simp: set_eq_iff)
qed simp

lemma projection_included: "{g. (g, True) \<in> set (foldl (\<lambda>pr f. AList.update f True pr) pr fs)} = {g. (g, True) \<in> set pr} \<union> set fs"
proof (induction fs arbitrary: pr)
  case (Cons f fs)
  show ?case unfolding foldl_Cons Cons.IH included_update by auto
qed simp

lemma project_projection:
  assumes "m ''_id'' = None"
  shows "project (mongo_projection fs) m = select_all k m fs"
proof (cases "fs = []")
  case True
  have "m |` (- {''_id''}) = m" using assms by (auto simp: restrict_map_def fun_eq_iff)
  then show ?thesis using True by (simp add: project_def mongo_projection_def select_all_def included)
next
  case False
  have "{g. (g, True) \<in> set (mongo_projection fs)} = set fs"
    using projection_included [of "[(''_id'', False)]" fs] by (simp add: mongo_projection_def)
  then show ?thesis using False unfolding project_def included by (simp add: select_all_def)
qed

lemma foldl_binary:
  "distinct (map fst doc) \<Longrightarrow> distinct (map fst v) \<Longrightarrow>
   distinct (map fst (foldl (\<lambda>doc (k, b). AList.update k (BsonBinary b) doc) doc v))
   \<and> map_of (foldl (\<lambda>doc (k, b). AList.update k (BsonBinary b) doc) doc v) = map_of doc ++ (map_option BsonBinary \<circ> map_of v)"
proof (induction v arbitrary: doc)
  case (Cons kb v)
  obtain k b where kb: "kb = (k, b)" by fastforce
  have "map_of v k = None" using Cons.prems(2) by (simp add: kb map_of_eq_None_iff)
  then have "map_of (AList.update k (BsonBinary b) doc) ++ (map_option BsonBinary \<circ> map_of v) = map_of doc ++ (map_option BsonBinary \<circ> map_of (kb # v))"
    unfolding update_conv' kb by (auto simp: fun_eq_iff map_add_def split: option.splits)
  moreover have "distinct (map fst (AList.update k (BsonBinary b) doc))" "distinct (map fst v)" using Cons.prems by (auto simp: distinct_update)
  ultimately show ?case using Cons.IH [of "AList.update k (BsonBinary b) doc"] unfolding kb foldl_Cons prod.case by metis
qed (simp add: o_def)

lemma mongo_doc_map:
  assumes "distinct (map fst v)" and "''_id'' \<notin> fst ` set v"
  shows "distinct (map fst (mongo_doc key v))" "map_of (mongo_doc key v) = (map_option BsonBinary \<circ> map_of v)(''_id'' \<mapsto> BsonString key)"
proof -
  have "map_of v ''_id'' = None" using assms(2) by (simp add: map_of_eq_None_iff)
  then have "[''_id'' \<mapsto> BsonString key] ++ (map_option BsonBinary \<circ> map_of v) = (map_option BsonBinary \<circ> map_of v)(''_id'' \<mapsto> BsonString key)"
    by (auto simp: fun_eq_iff map_add_def split: option.splits)
  then show "distinct (map fst (mongo_doc key v))" "map_of (mongo_doc key v) = (map_option BsonBinary \<circ> map_of v)(''_id'' \<mapsto> BsonString key)"
    using foldl_binary [of "[(''_id'', BsonString key)]" v] assms(1) by (simp_all add: mongo_doc_def)
qed

lemma mongo_invD:
  assumes "mongo_inv api ok view adm db"
  shows "mongo_find_law api ok view" "mongo_insert_law api ok view adm" "mongo_write_law api ok view adm" "ok (mo_cli db)"
    "view (mo_cli db) tk = Some m \<Longrightarrow> m ''_id'' = None"
  using assms ranI [of "view (mo_cli db)" tk m] by (simp_all add: mongo_inv_def)

lemmas mongo_FindOne_law = mongo_find_law_def [THEN iffD1, THEN conjunct1, rule_format]
lemmas mongo_Find_law = mongo_find_law_def [THEN iffD1, THEN conjunct2, rule_format]
lemmas mongo_InsertOne_law = mongo_insert_law_def [THEN iffD1, rule_format]
lemmas mongo_UpdateOne_law = mongo_write_law_def [THEN iffD1, THEN conjunct1, rule_format]
lemmas mongo_DeleteOne_law = mongo_write_law_def [THEN iffD1, THEN conjunct2, rule_format]

lemma mongo_inv_step:
  assumes "mongo_inv api ok view adm db" and "ok s" and "\<And>tk m. view s tk = Some m \<Longrightarrow> m ''_id'' = None"
  shows "mongo_inv api ok view adm \<lparr>mo_cli = s\<rparr>"
  using assms by (auto simp: mongo_inv_def ran_def)

text \<open>Every operation on a row that is there and on one that is not.\<close>

lemma mongo_Insert_spec:
  assumes "mongo_inv api ok view adm db" and "row_ok K v" and "''_id'' \<notin> K" and "adm k (map_of v)"
  shows "\<exists>db'. mongo_inv api ok view adm db' \<and> (if mongo_rows view db (t, k) = None
     then mongo_Insert api db t k v = Ret (None, db') \<and> mongo_rows view db' = (mongo_rows view db)((t, k) \<mapsto> map_of v)
     else (\<exists>err. mongo_Insert api db t k v = Ret (Some err, db')) \<and> mongo_rows view db' = mongo_rows view db)"
proof -
  note I = mongo_invD [OF assms(1)]
  have v: "distinct (map fst v)" "''_id'' \<notin> fst ` set v" using assms(2,3) by (auto simp: row_ok_def)
  then have id: "map_of v ''_id'' = None" by (simp add: map_of_eq_None_iff)
  obtain s where s: "ok s" "if view (mo_cli db) (t, k) = None then mg_InsertOne api (mo_cli db) t (mongo_doc k v) = (None, s) \<and> view s = (view (mo_cli db))((t, k) \<mapsto> map_of v)
      else (\<exists>err. mg_InsertOne api (mo_cli db) t (mongo_doc k v) = (Some err, s)) \<and> view s = view (mo_cli db)"
    using mongo_InsertOne_law [OF I(2) I(4) mongo_doc_map [OF v] id assms(4)] by blast
  then have "mongo_inv api ok view adm \<lparr>mo_cli = s\<rparr>" using I(5) id by (intro mongo_inv_step [OF assms(1)]) (auto split: if_splits)
  then show ?thesis using s by (intro exI [of _ "\<lparr>mo_cli = s\<rparr>"]) (auto simp: mongo_Insert_def mongo_rows_def)
qed

lemma mongo_Update_spec:
  assumes "mongo_inv api ok view adm db" and "row_ok K v" and "''_id'' \<notin> K" and "v \<noteq> []" and "\<And>m. mongo_rows view db (t, k) = Some m \<Longrightarrow> adm k (m ++ map_of v)"
  shows "\<exists>db'. mongo_inv api ok view adm db' \<and> (case mongo_rows view db (t, k) of
       Some m \<Rightarrow> mongo_Update api db t k v = Ret (None, db') \<and> mongo_rows view db' = (mongo_rows view db)((t, k) \<mapsto> m ++ map_of v)
     | None \<Rightarrow> mongo_Update api db t k v = Ret (Some (''Update error: '' @ k @ '' not found''), db') \<and> mongo_rows view db' = mongo_rows view db)"
proof -
  note I = mongo_invD [OF assms(1)]
  have v: "distinct (map fst v)" "''_id'' \<notin> fst ` set v" using assms(2,3) by (auto simp: row_ok_def)
  then have id: "map_of v ''_id'' = None" by (simp add: map_of_eq_None_iff)
  obtain s where s: "ok s" "case view (mo_cli db) (t, k) of
      Some m \<Rightarrow> adm k (m ++ map_of v) \<longrightarrow> mg_UpdateOne api (mo_cli db) t k v = (Inr 1, s) \<and> view s = (view (mo_cli db))((t, k) \<mapsto> m ++ map_of v)
    | None \<Rightarrow> mg_UpdateOne api (mo_cli db) t k v = (Inr 0, s) \<and> view s = view (mo_cli db)"
    using mongo_UpdateOne_law [OF I(3) I(4) assms(4) v] by blast
  have "mongo_inv api ok view adm \<lparr>mo_cli = s\<rparr>" using s I(5) id assms(5) unfolding mongo_rows_def
    by (intro mongo_inv_step [OF assms(1)]) (auto split: option.splits if_splits)
  then show ?thesis using s assms(5) unfolding mongo_rows_def
    by (intro exI [of _ "\<lparr>mo_cli = s\<rparr>"]) (auto simp: mongo_Update_def matched_one_def split: option.splits)
qed

lemma mongo_Delete_spec:
  assumes "mongo_inv api ok view adm db"
  shows "\<exists>db'. mongo_inv api ok view adm db' \<and> mongo_rows view db' = (mongo_rows view db)((t, k) := None)
    \<and> mongo_Delete api db t k = Ret (if mongo_rows view db (t, k) = None then Some (''Delete error: '' @ k @ '' not found'') else None, db')"
proof -
  note I = mongo_invD [OF assms]
  obtain s where s: "ok s" "mg_DeleteOne api (mo_cli db) t k = (Inr (if view (mo_cli db) (t, k) = None then 0 else 1), s)" "view s = (view (mo_cli db))((t, k) := None)"
    using mongo_DeleteOne_law [OF I(3) I(4)] by blast
  then have "mongo_inv api ok view adm \<lparr>mo_cli = s\<rparr>" using I(5) by (intro mongo_inv_step [OF assms]) (auto split: if_splits)
  then show ?thesis using s by (intro exI [of _ "\<lparr>mo_cli = s\<rparr>"]) (auto simp: mongo_Delete_def mongo_rows_def matched_one_def)
qed

lemma mongo_Read_spec:
  assumes "mongo_inv api ok view adm db"
  shows "\<exists>db'. mongo_inv api ok view adm db' \<and> mongo_rows view db' = mongo_rows view db \<and> (case mongo_rows view db (t, k) of
       Some m \<Rightarrow> \<exists>r. mongo_Read api db t k fs = Ret (Inr r, db') \<and> map_of r = select_all k m fs
     | None \<Rightarrow> \<exists>err. mongo_Read api db t k fs = Ret (Inl err, db'))"
proof -
  note I = mongo_invD [OF assms]
  obtain s where s: "ok s" "view s = view (mo_cli db)" "case view (mo_cli db) (t, k) of
      Some m \<Rightarrow> \<exists>r. mg_FindOne api (mo_cli db) t k (mongo_projection fs) = (Inr r, s) \<and> map_of r = project (mongo_projection fs) m
    | None \<Rightarrow> \<exists>err. mg_FindOne api (mo_cli db) t k (mongo_projection fs) = (Inl err, s)"
    using mongo_FindOne_law [OF I(1) I(4)] by blast
  then have "mongo_inv api ok view adm \<lparr>mo_cli = s\<rparr>" using I(5) by (intro mongo_inv_step [OF assms]) auto
  then show ?thesis using s I(5) project_projection [of _ fs k] by (intro exI [of _ "\<lparr>mo_cli = s\<rparr>"]) (auto simp: mongo_Read_def mongo_rows_def split: option.splits)
qed

lemma mongo_Scan_spec:
  assumes "mongo_inv api ok view adm db" and "0 \<le> cnt"
  shows "\<exists>rs db'. mongo_Scan api db t startKey cnt fs = Ret (Inr (map Some rs), db') \<and> mongo_rows view db' = mongo_rows view db
    \<and> list_all2 (\<lambda>k r. map_of r = select_all k (the (mongo_rows view db (t, k))) fs) (at_most cnt (keys_from (mongo_rows view db) t startKey)) rs"
proof -
  note I = mongo_invD [OF assms(1)]
  obtain rs s where s: "mg_Find api (mo_cli db) t startKey (mongo_projection fs) cnt = (Inr (Inr rs), s)" "view s = view (mo_cli db)"
    "list_all2 (\<lambda>k r. map_of r = project (mongo_projection fs) (the (view (mo_cli db) (t, k)))) (at_most cnt (keys_from (view (mo_cli db)) t startKey)) rs"
    using mongo_Find_law [OF I(1) I(4) assms(2)] by blast
  have "project (mongo_projection fs) (the (view (mo_cli db) (t, k))) = select_all k (the (view (mo_cli db) (t, k))) fs"
    if k: "k \<in> set (at_most cnt (keys_from (view (mo_cli db)) t startKey))" for k
  proof -
    have "k \<in> set (keys_from (view (mo_cli db)) t startKey)" using k by (auto simp: at_most_def split: if_splits dest: in_set_takeD)
    then have "view (mo_cli db) (t, k) \<noteq> None" unfolding keys_from_def
      by (cases "finite {k. view (mo_cli db) (t, k) \<noteq> None \<and> startKey \<le> k}") auto
    then show ?thesis using I(5) project_projection by fastforce
  qed
  then show ?thesis using s by (auto simp: mongo_Scan_def mongo_rows_def elim!: list.rel_mono_strong)
qed

section \<open>Properties\<close>

text \<open>
  C38. The MongoDB adapter is exact about which rows exist: an insert of a key that is taken, and an update, a deletion or a read of a key that is not there, is an error and changes nothing, and on
  a row as it is expected each succeeds with the effect of the table of rows. \<open>Scan\<close> delivers the requested fields of the rows of its table at the first keys from the start key
  on, in order, at most as many as asked for.
\<close>

theorem mongo_tells_missing_rows:
  assumes "mongo_inv api ok view adm db" and "row_ok K v" and "''_id'' \<notin> K" and "v \<noteq> []" and "0 \<le> cnt"
    and "adm k (map_of v)" and "\<And>m. mongo_rows view db (t, k) = Some m \<Longrightarrow> adm k (m ++ map_of v)"
  shows "(\<exists>db'. mongo_inv api ok view adm db' \<and> (if mongo_rows view db (t, k) = None
        then mongo_Insert api db t k v = Ret (None, db') \<and> mongo_rows view db' = (mongo_rows view db)((t, k) \<mapsto> map_of v)
        else (\<exists>err. mongo_Insert api db t k v = Ret (Some err, db')) \<and> mongo_rows view db' = mongo_rows view db))
    \<and> (\<exists>db'. mongo_inv api ok view adm db' \<and> (case mongo_rows view db (t, k) of
          Some m \<Rightarrow> mongo_Update api db t k v = Ret (None, db') \<and> mongo_rows view db' = (mongo_rows view db)((t, k) \<mapsto> m ++ map_of v)
        | None \<Rightarrow> mongo_Update api db t k v = Ret (Some (''Update error: '' @ k @ '' not found''), db') \<and> mongo_rows view db' = mongo_rows view db))
    \<and> (\<exists>db'. mongo_inv api ok view adm db' \<and> mongo_rows view db' = (mongo_rows view db)((t, k) := None)
        \<and> mongo_Delete api db t k = Ret (if mongo_rows view db (t, k) = None then Some (''Delete error: '' @ k @ '' not found'') else None, db'))
    \<and> (\<exists>db'. mongo_inv api ok view adm db' \<and> mongo_rows view db' = mongo_rows view db \<and> (case mongo_rows view db (t, k) of
          Some m \<Rightarrow> \<exists>r. mongo_Read api db t k fs = Ret (Inr r, db') \<and> map_of r = select_all k m fs
        | None \<Rightarrow> \<exists>err. mongo_Read api db t k fs = Ret (Inl err, db')))
    \<and> (\<exists>rs db'. mongo_Scan api db t startKey cnt fs = Ret (Inr (map Some rs), db') \<and> mongo_rows view db' = mongo_rows view db
        \<and> list_all2 (\<lambda>k r. map_of r = select_all k (the (mongo_rows view db (t, k))) fs) (at_most cnt (keys_from (mongo_rows view db) t startKey)) rs)"
  using mongo_Insert_spec [OF assms(1-3,6)] mongo_Update_spec [OF assms(1-4,7)] mongo_Delete_spec [OF assms(1)] mongo_Read_spec [OF assms(1)] mongo_Scan_spec [OF assms(1,5)]
  by (intro conjI) blast+

text \<open>A server in memory: an association list from table and key to the row.\<close>

type_synonym mem_mongo = "((string \<times> string) \<times> row) list"

definition project_row :: "bool smap \<Rightarrow> row \<Rightarrow> row" where
  "project_row pr r = (let incl = map fst (filter snd pr) in filter (\<lambda>kv. if incl = [] then fst kv \<notin> fst ` set pr else fst kv \<in> set incl) r)"

definition doc_key :: "bson smap \<Rightarrow> string" where
  "doc_key doc = (case map_of doc ''_id'' of Some (BsonString k) \<Rightarrow> k | _ \<Rightarrow> [])"

definition doc_fields :: "bson smap \<Rightarrow> row" where
  "doc_fields doc = concat (map (\<lambda>(f, b). case b of BsonBinary v \<Rightarrow> [(f, v)] | BsonString _ \<Rightarrow> []) doc)"

definition mem_mongo_api :: "mem_mongo mongo_api" where
  "mem_mongo_api =
     \<lparr>mg_FindOne = (\<lambda>s t k pr. (case map_of s (t, k) of Some r \<Rightarrow> Inr (project_row pr r) | None \<Rightarrow> Inl ''mongo: no documents in result'', s)),
      mg_Find = (\<lambda>s t k pr n. (Inr (Inr (map (\<lambda>k. project_row pr (the (map_of s (t, k)))) (at_most n (keys_from (map_option map_of \<circ> map_of s) t k)))), s)),
      mg_InsertOne = (\<lambda>s t doc. if map_of s (t, doc_key doc) = None then (None, AList.update (t, doc_key doc) (doc_fields doc) s) else (Some ''duplicate key'', s)),
      mg_UpdateOne = (\<lambda>s t k v. case map_of s (t, k) of Some r \<Rightarrow> (Inr 1, AList.update (t, k) (merge_fields r v) s) | None \<Rightarrow> (Inr 0, s)),
      mg_DeleteOne = (\<lambda>s t k. (Inr (if map_of s (t, k) = None then 0 else 1), AList.delete (t, k) s)),
      mg_Disconnect = (\<lambda>s. (None, s))\<rparr>"

definition mem_mongo_view :: "mem_mongo \<Rightarrow> table" where
  "mem_mongo_view s = map_option map_of \<circ> map_of s"

lemma project_row_map: "map_of (project_row pr r) = project pr (map_of r)"
proof -
  have filt: "map_of (filter (\<lambda>kv. P (fst kv)) r) = map_of r |` Collect P" for P
    by (induction r) (auto simp: restrict_map_def fun_eq_iff)
  show ?thesis
  proof (cases "filter snd pr = []")
    case True
    then show ?thesis using filt [of "\<lambda>f. f \<notin> fst ` set pr"] by (simp add: project_row_def project_def Collect_neg_eq)
  next
    case False
    then have ne: "map fst (filter snd pr) \<noteq> []" "fst ` set (filter snd pr) \<noteq> {}" by (simp_all only: map_is_Nil_conv image_is_empty set_empty not_False_eq_True)
    show ?thesis unfolding project_row_def project_def Let_def if_not_P [OF ne(1)] if_not_P [OF ne(2)]
      using filt [of "\<lambda>f. f \<in> set (map fst (filter snd pr))"] by (simp only: set_map Collect_mem_eq)
  qed
qed

lemma mem_mongo_find_law: "mongo_find_law mem_mongo_api (\<lambda>s. True) mem_mongo_view"
  unfolding mongo_find_law_def
proof (intro conjI allI impI)
  fix s t k pr
  show "\<exists>s'. True \<and> mem_mongo_view s' = mem_mongo_view s \<and> (case mem_mongo_view s (t, k) of
      Some m \<Rightarrow> \<exists>r. mg_FindOne mem_mongo_api s t k pr = (Inr r, s') \<and> map_of r = project pr m
    | None \<Rightarrow> \<exists>err. mg_FindOne mem_mongo_api s t k pr = (Inl err, s'))"
    by (intro exI [of _ s]) (auto simp: mem_mongo_view_def mem_mongo_api_def project_row_map split: option.splits)
next
  fix s t k pr and n :: int
  have m: "map_of (project_row pr (the (map_of s (t, x)))) = project pr (the (mem_mongo_view s (t, x)))"
    if "x \<in> set (at_most n (keys_from (mem_mongo_view s) t k))" for x
  proof -
    have "x \<in> set (keys_from (mem_mongo_view s) t k)" using that by (auto simp: at_most_def split: if_splits dest: in_set_takeD)
    then have "mem_mongo_view s (t, x) \<noteq> None" unfolding keys_from_def
      by (cases "finite {x. mem_mongo_view s (t, x) \<noteq> None \<and> k \<le> x}") auto
    then show ?thesis by (auto simp: mem_mongo_view_def project_row_map)
  qed
  have "list_all2 (\<lambda>x r. map_of r = project pr (the (mem_mongo_view s (t, x)))) (at_most n (keys_from (mem_mongo_view s) t k))
      (map (\<lambda>x. project_row pr (the (map_of s (t, x)))) (at_most n (keys_from (mem_mongo_view s) t k)))"
    using m by (simp add: list_all2_conv_all_nth)
  then show "\<exists>rs s'. mg_Find mem_mongo_api s t k pr n = (Inr (Inr rs), s') \<and> True \<and> mem_mongo_view s' = mem_mongo_view s
      \<and> list_all2 (\<lambda>x r. map_of r = project pr (the (mem_mongo_view s (t, x)))) (at_most n (keys_from (mem_mongo_view s) t k)) rs"
    by (auto simp: mem_mongo_api_def mem_mongo_view_def)
qed

lemma doc_fields_map:
  assumes "distinct (map fst doc)" and "map_of doc = (map_option BsonBinary \<circ> v)(''_id'' \<mapsto> BsonString k)" and "v ''_id'' = None"
  shows "map_of (doc_fields doc) = v"
proof
  fix f
  have "map_of (doc_fields doc) f = Option.bind (map_of doc f) (\<lambda>b. case b of BsonBinary x \<Rightarrow> Some x | BsonString _ \<Rightarrow> None)" if "distinct (map fst doc)" for doc
    using that
  proof (induction doc)
    case (Cons fb doc)
    obtain g b where fb: "fb = (g, b)" by fastforce
    have "f = g \<Longrightarrow> map_of doc f = None" using Cons.prems by (simp add: fb map_of_eq_None_iff)
    then show ?case using Cons by (cases b) (auto simp: fb doc_fields_def)
  qed (simp add: doc_fields_def)
  from this [OF assms(1)] show "map_of (doc_fields doc) f = v f" using assms(2,3) by (cases "v f") auto
qed

lemma mem_mongo_insert_law: "mongo_insert_law mem_mongo_api (\<lambda>s. True) mem_mongo_view (\<lambda>k m. True)"
  unfolding mongo_insert_law_def
proof (intro allI impI)
  fix s t k doc v
  assume doc: "distinct (map fst doc)" "map_of doc = (map_option BsonBinary \<circ> v)(''_id'' \<mapsto> BsonString k)" "v ''_id'' = None"
  have k: "doc_key doc = k" by (simp add: doc_key_def doc(2))
  show "\<exists>s'. True \<and> (if mem_mongo_view s (t, k) = None then mg_InsertOne mem_mongo_api s t doc = (None, s') \<and> mem_mongo_view s' = (mem_mongo_view s)((t, k) \<mapsto> v)
      else (\<exists>err. mg_InsertOne mem_mongo_api s t doc = (Some err, s')) \<and> mem_mongo_view s' = mem_mongo_view s)"
  proof (cases "map_of s (t, k)")
    case None
    have "mem_mongo_view (AList.update (t, k) (doc_fields doc) s) = (mem_mongo_view s)((t, k) \<mapsto> v)"
      unfolding mem_mongo_view_def update_conv' using doc_fields_map [OF doc] by (auto simp: fun_eq_iff)
    then show ?thesis using None by (simp add: mem_mongo_view_def mem_mongo_api_def k)
  next
    case (Some r)
    then show ?thesis by (simp add: mem_mongo_view_def mem_mongo_api_def k)
  qed
qed

lemma mem_mongo_write_law: "mongo_write_law mem_mongo_api (\<lambda>s. True) mem_mongo_view (\<lambda>k m. True)"
  unfolding mongo_write_law_def
proof (intro conjI allI impI)
  fix s t k and v :: row
  assume v: "distinct (map fst v)"
  show "\<exists>s'. True \<and> (case mem_mongo_view s (t, k) of
      Some m \<Rightarrow> True \<longrightarrow> mg_UpdateOne mem_mongo_api s t k v = (Inr 1, s') \<and> mem_mongo_view s' = (mem_mongo_view s)((t, k) \<mapsto> m ++ map_of v)
    | None \<Rightarrow> mg_UpdateOne mem_mongo_api s t k v = (Inr 0, s') \<and> mem_mongo_view s' = mem_mongo_view s)"
  proof (cases "map_of s (t, k)")
    case None
    then show ?thesis by (simp add: mem_mongo_view_def mem_mongo_api_def)
  next
    case (Some r)
    have "mem_mongo_view (AList.update (t, k) (merge_fields r v) s) = (mem_mongo_view s)((t, k) \<mapsto> map_of r ++ map_of v)"
      unfolding mem_mongo_view_def update_conv' using merge_fields_map [OF v] by (auto simp: fun_eq_iff)
    then show ?thesis using Some by (simp add: mem_mongo_view_def mem_mongo_api_def)
  qed
next
  fix s t k
  have "mem_mongo_view (AList.delete (t, k) s) = (mem_mongo_view s)((t, k) := None)"
    unfolding mem_mongo_view_def delete_conv' by (auto simp: fun_eq_iff)
  then show "\<exists>s'. True \<and> mg_DeleteOne mem_mongo_api s t k = (Inr (if mem_mongo_view s (t, k) = None then 0 else 1), s') \<and> mem_mongo_view s' = (mem_mongo_view s)((t, k) := None)"
    by (simp add: mem_mongo_api_def) (simp add: mem_mongo_view_def)
qed

definition sample_mongo :: "mem_mongo mongoDB" where
  "sample_mongo = \<lparr>mo_cli = [((''t'', ''a''), [(''f'', [1])])]\<rparr>"

theorem mongo_tells_missing_rows_witness:
  "(\<exists>db'. mongo_Update mem_mongo_api sample_mongo ''t'' ''b'' [(''f'', [2])] = Ret (Some ''Update error: b not found'', db'))
   \<and> (\<exists>db'. mongo_Insert mem_mongo_api sample_mongo ''t'' ''b'' [(''f'', [2])] = Ret (None, db'))"
proof -
  have I: "mongo_inv mem_mongo_api (\<lambda>s. True) mem_mongo_view (\<lambda>k m. True) sample_mongo"
    using mem_mongo_find_law mem_mongo_insert_law mem_mongo_write_law
    by (auto simp: mongo_inv_def sample_mongo_def mem_mongo_view_def ran_def split: if_splits)
  have r: "row_ok {''f''} [(''f'', [2])]" "''_id'' \<notin> {''f''}" "[(''f'', [2 :: byte])] \<noteq> []" "(0 :: int) \<le> 1" by (simp_all add: row_ok_def)
  have n: "mongo_rows mem_mongo_view sample_mongo (''t'', ''b'') = None" by (simp add: mongo_rows_def mem_mongo_view_def sample_mongo_def)
  from mongo_tells_missing_rows [OF I r TrueI, where t = "''t''" and k = "''b''" and startKey = "[]" and fs = "[]"] n show ?thesis by simp blast
qed

end
