(* ===== verification/Dynamo.thy ===== *)
theory Dynamo
  imports DocStore
begin

text \<open>
  The DynamoDB adapter, \<^verbatim>\<open>db/dynamodb/db.go\<close>: an item per row in the one table that the properties name, with the key as one more attribute. The client, the expression builder and the
  conversion of maps to attribute values are parameters. Creation prepares the table: for a load it is created, or deleted and created again.
\<close>

section \<open>The client\<close>

datatype attr = AttrB "byte list" | AttrOther

datatype table_status = TableFound | TableNotFound | TableUnknown error

record create_input =
  ci_AttributeName :: string
  ci_AttributeType :: string
  ci_KeyType :: string
  ci_TableName :: string
  ci_ReadCapacityUnits :: int
  ci_WriteCapacityUnits :: int

record ('s, 'e) dynamo_api =
  dy_GetItem :: "'s \<Rightarrow> string \<Rightarrow> attr smap \<Rightarrow> bool \<Rightarrow> (error + attr smap) \<times> 's"
  dy_PutItem :: "'s \<Rightarrow> string \<Rightarrow> attr smap \<Rightarrow> error option \<times> 's"
  dy_UpdateItem :: "'s \<Rightarrow> string \<Rightarrow> attr smap \<Rightarrow> 'e option \<Rightarrow> error option \<times> 's"
  dy_DeleteItem :: "'s \<Rightarrow> string \<Rightarrow> attr smap \<Rightarrow> error option \<times> 's"
  dy_DescribeTable :: "'s \<Rightarrow> string \<Rightarrow> table_status \<times> 's"
  dy_CreateTable :: "'s \<Rightarrow> create_input \<Rightarrow> error option \<times> 's"
  dy_WaitExists :: "'s \<Rightarrow> string \<Rightarrow> error option \<times> 's"
  dy_DeleteTable :: "'s \<Rightarrow> string \<Rightarrow> error option \<times> 's"
  dy_WaitNotExists :: "'s \<Rightarrow> string \<Rightarrow> error option \<times> 's"
  dy_MarshalMap :: "row \<Rightarrow> error + attr smap"
  dy_UnmarshalMap :: "attr smap \<Rightarrow> error + row"
  dy_Build :: "attr smap \<Rightarrow> error + 'e"

record 's dynamodbWrapper =
  dw_client :: 's
  dw_tablename :: string
  dw_primarykey :: string
  dw_readCapacityUnits :: int
  dw_writeCapacityUnits :: int
  dw_consistentRead :: bool
  dw_deleteAfterRun :: bool
  dw_command :: string
  dw_disableValidateResponseChecksum :: bool

section \<open>The table\<close>

definition dynamo_tableExists :: "('s, 'e) dynamo_api \<Rightarrow> 's dynamodbWrapper \<Rightarrow> (bool \<times> error option) \<times> 's dynamodbWrapper" where
  "dynamo_tableExists api r =
     (case dy_DescribeTable api (dw_client r) (dw_tablename r) of
        (TableFound, s) \<Rightarrow> ((True, None), r\<lparr>dw_client := s\<rparr>)
      | (TableNotFound, s) \<Rightarrow> ((False, None), r\<lparr>dw_client := s\<rparr>)
      | (TableUnknown err, s) \<Rightarrow> ((False, Some err), r\<lparr>dw_client := s\<rparr>))"

text \<open>The description of the table that \<open>createTable\<close> returns is not used.\<close>

definition dynamo_createTable :: "('s, 'e) dynamo_api \<Rightarrow> 's dynamodbWrapper \<Rightarrow> error option \<times> 's dynamodbWrapper" where
  "dynamo_createTable api r =
     (case dy_CreateTable api (dw_client r)
             \<lparr>ci_AttributeName = dw_primarykey r, ci_AttributeType = ''B'', ci_KeyType = ''HASH'', ci_TableName = dw_tablename r,
              ci_ReadCapacityUnits = dw_readCapacityUnits r, ci_WriteCapacityUnits = dw_writeCapacityUnits r\<rparr> of
        (Some err, s) \<Rightarrow> (Some err, r\<lparr>dw_client := s\<rparr>)
      | (None, s) \<Rightarrow> (let (err, s) = dy_WaitExists api s (dw_tablename r) in (err, r\<lparr>dw_client := s\<rparr>)))"

definition dynamo_deleteTable :: "('s, 'e) dynamo_api \<Rightarrow> 's dynamodbWrapper \<Rightarrow> (error option \<times> 's dynamodbWrapper) go" where
  "dynamo_deleteTable api rds =
     (case dy_DeleteTable api (dw_client rds) (dw_tablename rds) of
        (Some err, _) \<Rightarrow> Exit (''Unable to delete table, '' @ err)
      | (None, s) \<Rightarrow>
          (case dy_WaitNotExists api s (dw_tablename rds) of
             (Some err, _) \<Rightarrow> Exit (''Wait for table deletion failed. Here's why: '' @ err)
           | (None, s) \<Rightarrow> Ret (None, rds\<lparr>dw_client := s\<rparr>)))"

section \<open>Creation\<close>

text \<open>The region and the endpoint that the configuration is loaded with, as far as they are set.\<close>

definition dynamo_region :: "string \<Rightarrow> string \<Rightarrow> string" where
  "dynamo_region endpoint region = (if contains endpoint ''localhost'' \<and> region \<noteq> ''localhost'' then ''localhost'' else region)"

definition dynamo_config :: "string \<Rightarrow> string \<Rightarrow> string option \<times> string option" where
  "dynamo_config endpoint region =
     (if endpoint = [] then (if region \<noteq> [] then Some region else None, None) else (Some region, Some endpoint))"

definition dynamo_wrapper :: "props \<Rightarrow> 's \<Rightarrow> 's dynamodbWrapper" where
  "dynamo_wrapper p client =
     \<lparr>dw_client = client, dw_tablename = GetString p ''dynamodb.tablename'' ''ycsb'', dw_primarykey = GetString p ''dynamodb.primarykey'' ''_key'',
      dw_readCapacityUnits = GetInt64 p ''dynamodb.rc.units'' 10, dw_writeCapacityUnits = GetInt64 p ''dynamodb.wc.units'' 10,
      dw_consistentRead = GetBool p ''dynamodb.consistent.reads'' False, dw_deleteAfterRun = GetBool p ''dynamodb.delete.after.run.stage'' False,
      dw_command = (case Get p prop_Command of Some c \<Rightarrow> c | None \<Rightarrow> []),
      dw_disableValidateResponseChecksum = GetBool p ''dynamodb.disableValidateResponseChecksum'' False\<rparr>"

text \<open>The adapter is returned together with the last error.\<close>

definition dynamo_prepare :: "('s, 'e) dynamo_api \<Rightarrow> bool \<Rightarrow> 's dynamodbWrapper \<Rightarrow> (error option \<times> 's dynamodbWrapper) go" where
  "dynamo_prepare api ensureCleanTable rds =
     (let ((there, err), rds) = dynamo_tableExists api rds in
      if dw_command rds = ''load'' then
        if \<not> there then Ret (dynamo_createTable api rds)
        else if ensureCleanTable then gbind (dynamo_deleteTable api rds) (\<lambda>(_, rds). Ret (dynamo_createTable api rds))
        else Ret (err, rds)
      else if \<not> there then Exit (''dynamo table named '' @ dw_tablename rds @ '' does not exist. You need to run the load stage previous than 'run'...'')
      else Ret (err, rds))"

definition dynamo_Create :: "(string option \<times> string option \<Rightarrow> error + 'cfg) \<Rightarrow> ('cfg \<Rightarrow> bool \<Rightarrow> 's) \<Rightarrow> ('s, 'e) dynamo_api \<Rightarrow> props \<Rightarrow> (error option \<times> 's dynamodbWrapper) go" where
  "dynamo_Create LoadDefaultConfig NewFromConfig api p =
     (let endpoint = GetString p ''dynamodb.endpoint'' []; region = dynamo_region endpoint (GetString p ''dynamodb.region'' []) in
      case LoadDefaultConfig (dynamo_config endpoint region) of
        Inl err \<Rightarrow> Exit (''unable to load SDK config, '' @ err)
      | Inr cfg \<Rightarrow>
          dynamo_prepare api (GetBool p ''dynamodb.ensure.clean.table'' True)
            (dynamo_wrapper p (NewFromConfig cfg (GetBool p ''dynamodb.disableValidateResponseChecksum'' False))))"

definition dynamo_Close :: "('s, 'e) dynamo_api \<Rightarrow> 's dynamodbWrapper \<Rightarrow> (error option \<times> 's dynamodbWrapper) go" where
  "dynamo_Close api r = (if dw_command r = ''run'' \<and> dw_deleteAfterRun r then dynamo_deleteTable api r else Ret (None, r))"

section \<open>Operations\<close>

definition dynamo_GetKey :: "'s dynamodbWrapper \<Rightarrow> string \<Rightarrow> attr smap" where
  "dynamo_GetKey r key = [(dw_primarykey r, AttrB (bytes_of key))]"

definition dynamo_Read :: "('s, 'e) dynamo_api \<Rightarrow> 's dynamodbWrapper \<Rightarrow> string \<Rightarrow> string \<Rightarrow> string list \<Rightarrow> ((error + row) \<times> 's dynamodbWrapper) go" where
  "dynamo_Read api r table key fnames =
     (let (res, s) = dy_GetItem api (dw_client r) (dw_tablename r) (dynamo_GetKey r key) (dw_consistentRead r) in
      Ret (case res of Inl err \<Rightarrow> Inl err | Inr item \<Rightarrow> dy_UnmarshalMap api item, r\<lparr>dw_client := s\<rparr>))"

definition dynamo_Scan :: "'s dynamodbWrapper \<Rightarrow> string \<Rightarrow> string \<Rightarrow> int \<Rightarrow> string list \<Rightarrow> ((error + row option list) \<times> 's dynamodbWrapper) go" where
  "dynamo_Scan r table startKey cnt fnames = Ret (Inl ''scan is not supported'', r)"

text \<open>
  The error of the expression builder is overwritten before it is looked at; an expression that could not be built is nil, and reporting an error of the request dereferences it.
\<close>

definition dynamo_Update :: "('s, 'e) dynamo_api \<Rightarrow> 's dynamodbWrapper \<Rightarrow> string \<Rightarrow> string \<Rightarrow> row \<Rightarrow> (error option \<times> 's dynamodbWrapper) go" where
  "dynamo_Update api r table key vals =
     (let expr = (case dy_Build api (map (map_prod id AttrB) vals) of Inl _ \<Rightarrow> None | Inr e \<Rightarrow> Some e);
          (err, s) = dy_UpdateItem api (dw_client r) (dw_tablename r) (dynamo_GetKey r key) expr in
      if err \<noteq> None \<and> expr = None then Panic ''nil pointer dereference'' else Ret (err, r\<lparr>dw_client := s\<rparr>))"

text \<open>\<open>Insert\<close> adds the key to the map of the caller.\<close>

definition dynamo_Insert :: "('s, 'e) dynamo_api \<Rightarrow> 's dynamodbWrapper \<Rightarrow> string \<Rightarrow> string \<Rightarrow> row \<Rightarrow> (error option \<times> 's dynamodbWrapper) go" where
  "dynamo_Insert api r table key vals =
     (case dy_MarshalMap api (AList.update (dw_primarykey r) (bytes_of key) vals) of
        Inl err \<Rightarrow> Panic err
      | Inr item \<Rightarrow> (let (err, s) = dy_PutItem api (dw_client r) (dw_tablename r) item in Ret (err, r\<lparr>dw_client := s\<rparr>)))"

definition dynamo_Delete :: "('s, 'e) dynamo_api \<Rightarrow> 's dynamodbWrapper \<Rightarrow> string \<Rightarrow> string \<Rightarrow> (error option \<times> 's dynamodbWrapper) go" where
  "dynamo_Delete api r table key =
     (let (err, s) = dy_DeleteItem api (dw_client r) (dw_tablename r) (dynamo_GetKey r key) in Ret (err, r\<lparr>dw_client := s\<rparr>))"

definition dynamo_db :: "('s, 'e) dynamo_api \<Rightarrow> 's dynamodbWrapper db" where
  "dynamo_db api =
     \<lparr>db_Close = dynamo_Close api, db_InitThread = (\<lambda>d i n. Ret d), db_CleanupThread = Ret,
      db_Read = dynamo_Read api, db_Scan = dynamo_Scan, db_Update = dynamo_Update api, db_Insert = dynamo_Insert api, db_Delete = dynamo_Delete api,
      db_Batch = None, db_Analyze = None, db_TypeName = ''*dynamodb.dynamodbWrapper''\<rparr>"

section \<open>What the service does\<close>

text \<open>
  Documented behaviour, for the table \<open>tn\<close> with the key attribute \<open>pk\<close>. A state of the service tells whether the table exists, and stands for a map from keys to items. A new table is empty once the wait for
  it is over. \<open>PutItem\<close> replaces an item, \<open>UpdateItem\<close> sets attributes and creates the item if need be. Only a consistent read is sure to see the last write.
\<close>

record 's dynamo_sem =
  dm_ok :: "'s \<Rightarrow> bool"
  dm_exists :: "'s \<Rightarrow> bool"
  dm_view :: "'s \<Rightarrow> string \<rightharpoonup> rowmap"

definition table_laws :: "('s, 'e) dynamo_api \<Rightarrow> 's dynamo_sem \<Rightarrow> string \<Rightarrow> bool" where
  "table_laws api M tn \<longleftrightarrow>
     (\<forall>s. dm_ok M s \<longrightarrow> (\<exists>s'. dy_DescribeTable api s tn = (if dm_exists M s then TableFound else TableNotFound, s')
        \<and> dm_ok M s' \<and> dm_exists M s' = dm_exists M s \<and> dm_view M s' = dm_view M s))
   \<and> (\<forall>s ci. dm_ok M s \<longrightarrow> \<not> dm_exists M s \<longrightarrow> ci_TableName ci = tn \<longrightarrow> (\<exists>s1 s2. dy_CreateTable api s ci = (None, s1) \<and> dy_WaitExists api s1 tn = (None, s2)
        \<and> dm_ok M s2 \<and> dm_exists M s2 \<and> dm_view M s2 = Map.empty))
   \<and> (\<forall>s. dm_ok M s \<longrightarrow> dm_exists M s \<longrightarrow> (\<exists>s1 s2. dy_DeleteTable api s tn = (None, s1) \<and> dy_WaitNotExists api s1 tn = (None, s2) \<and> dm_ok M s2 \<and> \<not> dm_exists M s2))"

lemmas describe_law = table_laws_def [THEN iffD1, THEN conjunct1, rule_format]
lemmas create_law = table_laws_def [THEN iffD1, THEN conjunct2, THEN conjunct1, rule_format]
lemmas delete_law = table_laws_def [THEN iffD1, THEN conjunct2, THEN conjunct2, rule_format]

definition marshal_laws :: "('s, 'e) dynamo_api \<Rightarrow> bool" where
  "marshal_laws api \<longleftrightarrow> (\<forall>v. dy_MarshalMap api v = Inr (map (map_prod id AttrB) v))
     \<and> (\<forall>v. distinct (map fst v) \<longrightarrow> (\<exists>r. dy_UnmarshalMap api (map (map_prod id AttrB) v) = Inr r \<and> map_of r = map_of v))
     \<and> (\<forall>v. v \<noteq> [] \<longrightarrow> (\<exists>e. dy_Build api (map (map_prod id AttrB) v) = Inr e))"

text \<open>Lookup, write and deletion as \<^const>\<open>kv_laws\<close> asks for them; a lookup of a missing key delivers no attributes.\<close>

definition item_laws :: "('s, 'e) dynamo_api \<Rightarrow> 's dynamo_sem \<Rightarrow> string \<Rightarrow> string \<Rightarrow> (string \<Rightarrow> rowmap \<Rightarrow> bool) \<Rightarrow> bool" where
  "item_laws api M tn pk adm \<longleftrightarrow>
     (\<forall>s k m. dm_ok M s \<longrightarrow> dm_exists M s \<longrightarrow> dm_view M s k = Some m \<longrightarrow>
        (\<exists>v s'. dy_GetItem api s tn [(pk, AttrB (bytes_of k))] True = (Inr (map (map_prod id AttrB) v), s') \<and> distinct (map fst v) \<and> map_of v = m
           \<and> dm_ok M s' \<and> dm_exists M s' \<and> dm_view M s' = dm_view M s))
   \<and> (\<forall>s k v. dm_ok M s \<longrightarrow> dm_exists M s \<longrightarrow> distinct (map fst v) \<longrightarrow> map_of v pk = Some (bytes_of k) \<longrightarrow> adm k (map_of v) \<longrightarrow>
        (\<exists>s'. dy_PutItem api s tn (map (map_prod id AttrB) v) = (None, s') \<and> dm_ok M s' \<and> dm_exists M s' \<and> dm_view M s' = (dm_view M s)(k \<mapsto> map_of v)))
   \<and> (\<forall>s k v e m. dm_ok M s \<longrightarrow> dm_exists M s \<longrightarrow> distinct (map fst v) \<longrightarrow> map_of v pk = None \<longrightarrow> dy_Build api (map (map_prod id AttrB) v) = Inr e \<longrightarrow>
        dm_view M s k = Some m \<longrightarrow> adm k (m ++ map_of v) \<longrightarrow>
        (\<exists>s'. dy_UpdateItem api s tn [(pk, AttrB (bytes_of k))] (Some e) = (None, s') \<and> dm_ok M s' \<and> dm_exists M s' \<and> dm_view M s' = (dm_view M s)(k \<mapsto> m ++ map_of v)))
   \<and> (\<forall>s k. dm_ok M s \<longrightarrow> dm_exists M s \<longrightarrow>
        (\<exists>s'. dy_DeleteItem api s tn [(pk, AttrB (bytes_of k))] = (None, s') \<and> dm_ok M s' \<and> dm_exists M s' \<and> dm_view M s' = (dm_view M s)(k := None)))"

lemmas get_item_law = item_laws_def [THEN iffD1, THEN conjunct1, rule_format]
lemmas put_item_law = item_laws_def [THEN iffD1, THEN conjunct2, THEN conjunct1, rule_format]
lemmas update_item_law = item_laws_def [THEN iffD1, THEN conjunct2, THEN conjunct2, THEN conjunct1, rule_format]
lemmas delete_item_law = item_laws_def [THEN iffD1, THEN conjunct2, THEN conjunct2, THEN conjunct2, rule_format]

section \<open>The adapter as a table\<close>

definition dynamo_inv :: "('s, 'e) dynamo_api \<Rightarrow> 's dynamo_sem \<Rightarrow> string \<Rightarrow> string \<Rightarrow> (string \<Rightarrow> rowmap \<Rightarrow> bool) \<Rightarrow> 's dynamodbWrapper \<Rightarrow> bool" where
  "dynamo_inv api M tn pk adm r \<longleftrightarrow> marshal_laws api \<and> item_laws api M tn pk adm \<and> dw_tablename r = tn \<and> dw_primarykey r = pk \<and> dw_consistentRead r
     \<and> dm_ok M (dw_client r) \<and> dm_exists M (dw_client r) \<and> (\<forall>k m. dm_view M (dw_client r) k = Some m \<longrightarrow> m pk = Some (bytes_of k))"

definition without :: "string \<Rightarrow> rowmap \<Rightarrow> rowmap" where
  "without pk m = m(pk := None)"

definition dynamo_rows :: "string \<Rightarrow> 's dynamo_sem \<Rightarrow> string \<Rightarrow> 's dynamodbWrapper \<Rightarrow> table" where
  "dynamo_rows T M pk r = doc_rows (\<lambda>t. t = T) (\<lambda>t k. k) (without pk) (dm_view M (dw_client r))"

definition dynamo_policy :: "string \<Rightarrow> row_policy" where
  "dynamo_policy pk = \<lparr>rp_ins = (\<lambda>old v. v), rp_upd = (\<lambda>m v. m ++ v), rp_sel = (\<lambda>k m fs. m(pk \<mapsto> bytes_of k))\<rparr>"

definition dynamo_accepts :: "string \<Rightarrow> (string \<Rightarrow> rowmap \<Rightarrow> bool) \<Rightarrow> string \<Rightarrow> string \<Rightarrow> rowmap \<Rightarrow> bool" where
  "dynamo_accepts pk adm t k m \<longleftrightarrow> adm k (m(pk \<mapsto> bytes_of k))"

lemma dynamo_step:
  assumes "dynamo_inv api M tn pk adm r" and "dm_ok M s" and "dm_exists M s" and "dm_view M s = (dm_view M (dw_client r))(k := e)"
    and "\<And>m. e = Some m \<Longrightarrow> m pk = Some (bytes_of k)"
  shows "dynamo_inv api M tn pk adm (r\<lparr>dw_client := s\<rparr>)" "dynamo_rows T M pk (r\<lparr>dw_client := s\<rparr>) = (dynamo_rows T M pk r)((T, k) := map_option (without pk) e)"
proof -
  show "dynamo_inv api M tn pk adm (r\<lparr>dw_client := s\<rparr>)" using assms by (auto simp: dynamo_inv_def)
  show "dynamo_rows T M pk (r\<lparr>dw_client := s\<rparr>) = (dynamo_rows T M pk r)((T, k) := map_option (without pk) e)"
    using one_table.doc_rows_upd [of T T "without pk" "dm_view M (dw_client r)" k e] by (simp add: dynamo_rows_def assms(4))
qed

lemma without_upd [simp]: "v pk = None \<Longrightarrow> without pk (v(pk \<mapsto> b)) = v" "m pk = Some b \<Longrightarrow> (without pk m)(pk \<mapsto> b) = m"
  by (auto simp: without_def fun_eq_iff)

interpretation dynamo: policy_db "dynamo_db api" "dynamo_inv api M tn pk adm" "dynamo_rows T M pk" "\<lambda>r. - {pk}" "\<lambda>t. t = T" "dynamo_accepts pk adm" "\<lambda>r. dynamo_policy pk"
  for api M tn pk adm T
proof (unfold_locales, goal_cases)
  case (1 d t v k)
  let ?v = "AList.update pk (bytes_of k) v"
  have I: "marshal_laws api" "item_laws api M tn pk adm" "dw_tablename d = tn" "dw_primarykey d = pk" "dm_ok M (dw_client d)" "dm_exists M (dw_client d)"
    using 1(1) by (auto simp: dynamo_inv_def)
  have v: "map_of v pk = None" "distinct (map fst ?v)" "map_of ?v = (map_of v)(pk \<mapsto> bytes_of k)"
    using 1(3) unfolding update_conv' by (auto simp: row_ok_def map_of_eq_None_iff distinct_update)
  have "map_of ?v pk = Some (bytes_of k)" "adm k (map_of ?v)" using 1(4) unfolding v(3) by (simp_all add: dynamo_policy_def dynamo_accepts_def)
  from put_item_law [OF I(2,5,6) v(2) this] obtain s where
    s: "dy_PutItem api (dw_client d) tn (map (map_prod id AttrB) ?v) = (None, s)" "dm_ok M s" "dm_exists M s" "dm_view M s = (dm_view M (dw_client d))(k \<mapsto> map_of ?v)"
    by blast
  moreover have "dy_MarshalMap api ?v = Inr (map (map_prod id AttrB) ?v)" using I(1) by (simp add: marshal_laws_def)
  ultimately show ?case using 1(2) I(3,4) v dynamo_step [OF 1(1) s(2-4)] by (simp add: dynamo_db_def dynamo_Insert_def dynamo_policy_def)
next
  case (2 d t v k m)
  have I: "marshal_laws api" "item_laws api M tn pk adm" "dw_tablename d = tn" "dw_primarykey d = pk" "dm_ok M (dw_client d)" "dm_exists M (dw_client d)"
    "\<And>m. dm_view M (dw_client d) k = Some m \<Longrightarrow> m pk = Some (bytes_of k)" using 2(1) by (auto simp: dynamo_inv_def)
  obtain x where x: "dm_view M (dw_client d) k = Some x" "without pk x = m" using 2(2,5) by (auto simp: dynamo_rows_def doc_rows_def)
  have v: "distinct (map fst v)" "map_of v pk = None" using 2(3) by (auto simp: row_ok_def map_of_eq_None_iff)
  have xv: "without pk (x ++ map_of v) = m ++ map_of v" "(m ++ map_of v)(pk \<mapsto> bytes_of k) = x ++ map_of v"
    using v(2) I(7) [OF x(1)] unfolding x(2) [symmetric] by (auto simp: without_def fun_eq_iff map_add_def split: option.splits)
  obtain e where e: "dy_Build api (map (map_prod id AttrB) v) = Inr e" using I(1) 2(4) by (auto simp: marshal_laws_def)
  have "adm k (x ++ map_of v)" using 2(6) xv(2) by (simp add: dynamo_policy_def dynamo_accepts_def)
  from update_item_law [OF I(2,5,6) v e x(1) this] obtain s where
    s: "dy_UpdateItem api (dw_client d) tn [(pk, AttrB (bytes_of k))] (Some e) = (None, s)" "dm_ok M s" "dm_exists M s" "dm_view M s = (dm_view M (dw_client d))(k \<mapsto> x ++ map_of v)"
    by blast
  have "(x ++ map_of v) pk = Some (bytes_of k)" using I(7) [OF x(1)] v(2) by (simp add: map_add_def)
  then show ?case using 2(2) s(1) e I(3,4) xv dynamo_step [OF 2(1) s(2-4)] by (simp add: dynamo_db_def dynamo_Update_def dynamo_GetKey_def dynamo_policy_def)
next
  case (3 d t k m)
  have I: "item_laws api M tn pk adm" "dw_tablename d = tn" "dw_primarykey d = pk" "dm_ok M (dw_client d)" "dm_exists M (dw_client d)"
    using 3(1) by (auto simp: dynamo_inv_def)
  from delete_item_law [OF I(1,4,5)] obtain s where
    s: "dy_DeleteItem api (dw_client d) tn [(pk, AttrB (bytes_of k))] = (None, s)" "dm_ok M s" "dm_exists M s" "dm_view M s = (dm_view M (dw_client d))(k := None)"
    by blast
  then show ?case using 3(2) I(2,3) dynamo_step [OF 3(1) s(2-4)] by (simp add: dynamo_db_def dynamo_Delete_def dynamo_GetKey_def)
next
  case (4 d t fs k m)
  have I: "marshal_laws api" "item_laws api M tn pk adm" "dw_tablename d = tn" "dw_primarykey d = pk" "dm_ok M (dw_client d)" "dm_exists M (dw_client d)"
    "\<And>m. dm_view M (dw_client d) k = Some m \<Longrightarrow> m pk = Some (bytes_of k)" "dw_consistentRead d" using 4(1) by (auto simp: dynamo_inv_def)
  obtain x where x: "dm_view M (dw_client d) k = Some x" "without pk x = m" using 4(2,4) by (auto simp: dynamo_rows_def doc_rows_def)
  from get_item_law [OF I(2,5,6) x(1)] obtain v s where
    s: "dy_GetItem api (dw_client d) tn [(pk, AttrB (bytes_of k))] True = (Inr (map (map_prod id AttrB) v), s)" "distinct (map fst v)" "map_of v = x"
      "dm_ok M s" "dm_exists M s" "dm_view M s = dm_view M (dw_client d)"
    by blast
  obtain r where r: "dy_UnmarshalMap api (map (map_prod id AttrB) v) = Inr r" "map_of r = x" using I(1) s(2,3) by (auto simp: marshal_laws_def)
  have "m(pk \<mapsto> bytes_of k) = x" using x(2) I(7) [OF x(1)] by auto
  moreover have "dynamo_inv api M tn pk adm (d\<lparr>dw_client := s\<rparr>)" using 4(1) s(4-6) by (simp add: dynamo_inv_def)
  ultimately show ?case using s(1,6) r I(3,4,8) by (simp add: dynamo_db_def dynamo_Read_def dynamo_GetKey_def dynamo_rows_def dynamo_policy_def)
qed

section \<open>Properties\<close>

text \<open>The table after the preparation for a load.\<close>

lemma dynamo_createTable_ok:
  assumes "table_laws api M (dw_tablename r)" and "dm_ok M (dw_client r)" and "\<not> dm_exists M (dw_client r)"
  obtains s where "dynamo_createTable api r = (None, r\<lparr>dw_client := s\<rparr>)" "dm_ok M s" "dm_exists M s" "dm_view M s = Map.empty"
  using create_law [OF assms, of "\<lparr>ci_AttributeName = dw_primarykey r, ci_AttributeType = ''B'', ci_KeyType = ''HASH'', ci_TableName = dw_tablename r,
              ci_ReadCapacityUnits = dw_readCapacityUnits r, ci_WriteCapacityUnits = dw_writeCapacityUnits r\<rparr>"] that
  by (auto simp: dynamo_createTable_def)

lemma dynamo_deleteTable_ok:
  assumes "table_laws api M (dw_tablename r)" and "dm_ok M (dw_client r)" and "dm_exists M (dw_client r)"
  obtains s where "dynamo_deleteTable api r = Ret (None, r\<lparr>dw_client := s\<rparr>)" "dm_ok M s" "\<not> dm_exists M s"
  using delete_law [OF assms] that by (auto simp: dynamo_deleteTable_def)

lemma dynamo_prepare_load:
  assumes "table_laws api M (dw_tablename r)" and "dm_ok M (dw_client r)" and "dw_command r = ''load''"
  obtains s where "dynamo_prepare api True r = Ret (None, r\<lparr>dw_client := s\<rparr>)" "dm_ok M s" "dm_exists M s" "dm_view M s = Map.empty"
proof -
  obtain s where s: "dy_DescribeTable api (dw_client r) (dw_tablename r) = (if dm_exists M (dw_client r) then TableFound else TableNotFound, s)"
    "dm_ok M s" "dm_exists M s = dm_exists M (dw_client r)" using describe_law [OF assms(1,2)] by blast
  let ?r = "r\<lparr>dw_client := s\<rparr>"
  show ?thesis
  proof (cases "dm_exists M s")
    case True
    obtain s1 where s1: "dynamo_deleteTable api ?r = Ret (None, ?r\<lparr>dw_client := s1\<rparr>)" "dm_ok M s1" "\<not> dm_exists M s1"
      using dynamo_deleteTable_ok [of api M ?r] assms(1) s(2) True by auto
    obtain s2 where "dynamo_createTable api (r\<lparr>dw_client := s1\<rparr>) = (None, r\<lparr>dw_client := s2\<rparr>)" "dm_ok M s2" "dm_exists M s2" "dm_view M s2 = Map.empty"
      using dynamo_createTable_ok [of api M "r\<lparr>dw_client := s1\<rparr>"] assms(1) s1(2,3) by auto
    then show ?thesis using that [of s2] s s1(1) True assms(3) by (simp add: dynamo_prepare_def dynamo_tableExists_def)
  next
    case False
    obtain s2 where "dynamo_createTable api ?r = (None, r\<lparr>dw_client := s2\<rparr>)" "dm_ok M s2" "dm_exists M s2" "dm_view M s2 = Map.empty"
      using dynamo_createTable_ok [of api M ?r] assms(1) s(2) False by auto
    then show ?thesis using that [of s2] s False assms(3) by (simp add: dynamo_prepare_def dynamo_tableExists_def)
  qed
qed


text \<open>A service in memory: whether the table exists, and its items under the bytes of their keys.\<close>

type_synonym mem_dynamo = "bool \<times> (byte list \<rightharpoonup> row)"

definition attr_bytes :: "attr \<Rightarrow> byte list" where
  "attr_bytes a = (case a of AttrB b \<Rightarrow> b | AttrOther \<Rightarrow> [])"

definition attr_row :: "attr smap \<Rightarrow> row" where
  "attr_row item = map (map_prod id attr_bytes) item"

definition mem_dynamo_api :: "string \<Rightarrow> (mem_dynamo, attr smap) dynamo_api" where
  "mem_dynamo_api pk =
     \<lparr>dy_GetItem = (\<lambda>s tn key cr. (Inr (case snd s (attr_bytes (snd (hd key))) of Some v \<Rightarrow> map (map_prod id AttrB) v | None \<Rightarrow> []), s)),
      dy_PutItem = (\<lambda>s tn item. (None, (fst s, (snd s)(the (map_of (attr_row item) pk) \<mapsto> attr_row item)))),
      dy_UpdateItem = (\<lambda>s tn key e. (None, (fst s, (snd s)(attr_bytes (snd (hd key)) \<mapsto>
         merge_fields (case snd s (attr_bytes (snd (hd key))) of Some v \<Rightarrow> v | None \<Rightarrow> attr_row key) (attr_row (case e of Some x \<Rightarrow> x | None \<Rightarrow> [])))))),
      dy_DeleteItem = (\<lambda>s tn key. (None, (fst s, (snd s)(attr_bytes (snd (hd key)) := None)))),
      dy_DescribeTable = (\<lambda>s tn. (if fst s then TableFound else TableNotFound, s)),
      dy_CreateTable = (\<lambda>s ci. (None, (True, Map.empty))), dy_WaitExists = (\<lambda>s tn. (None, s)),
      dy_DeleteTable = (\<lambda>s tn. (None, (False, Map.empty))), dy_WaitNotExists = (\<lambda>s tn. (None, s)),
      dy_MarshalMap = (\<lambda>v. Inr (map (map_prod id AttrB) v)), dy_UnmarshalMap = (\<lambda>item. Inr (attr_row item)), dy_Build = Inr\<rparr>"

definition mem_dynamo_sem :: "mem_dynamo dynamo_sem" where
  "mem_dynamo_sem = \<lparr>dm_ok = (\<lambda>s. \<forall>v\<in>ran (snd s). distinct (map fst v)), dm_exists = fst, dm_view = (\<lambda>s k. map_option map_of (snd s (bytes_of k)))\<rparr>"

lemma attr_row_AttrB [simp]: "attr_row (map (map_prod id AttrB) v) = v"
  by (induction v) (auto simp: attr_row_def attr_bytes_def)

lemma mem_dynamo_table_laws: "table_laws (mem_dynamo_api pk) mem_dynamo_sem tn"
  by (auto simp: table_laws_def mem_dynamo_api_def mem_dynamo_sem_def)

lemma mem_dynamo_marshal_laws: "marshal_laws (mem_dynamo_api pk)"
  by (auto simp: marshal_laws_def mem_dynamo_api_def)

lemma mem_dynamo_ok_upd:
  assumes "dm_ok mem_dynamo_sem (b, f)" and "\<And>v. e = Some v \<Longrightarrow> distinct (map fst v)"
  shows "dm_ok mem_dynamo_sem (b, f(bytes_of k := e))" "dm_view mem_dynamo_sem (b, f(bytes_of k := e)) = (dm_view mem_dynamo_sem (b, f))(k := map_option map_of e)"
  using assms by (auto simp: mem_dynamo_sem_def ran_def fun_eq_iff bytes_of_inj)

lemma mem_dynamo_item_laws: "item_laws (mem_dynamo_api pk) mem_dynamo_sem tn pk (\<lambda>k m. True)"
  unfolding item_laws_def
proof (intro conjI allI impI, goal_cases)
  case (1 s k m)
  then obtain v where "snd s (bytes_of k) = Some v" "map_of v = m" "distinct (map fst v)" by (auto simp: mem_dynamo_sem_def ran_def)
  then show ?case using 1 by (auto simp: mem_dynamo_api_def attr_bytes_def)
next
  case (2 s k v)
  then show ?case using mem_dynamo_ok_upd [of "fst s" "snd s" "Some v" k] by (simp add: mem_dynamo_api_def) (simp add: mem_dynamo_sem_def)
next
  case (3 s k v e m)
  then obtain w where w: "snd s (bytes_of k) = Some w" "map_of w = m" "distinct (map fst w)" by (auto simp: mem_dynamo_sem_def ran_def)
  have "distinct (map fst (merge_fields w v))" "map_of (merge_fields w v) = m ++ map_of v"
    using merge_fields_keys [OF w(3)] merge_fields_map [OF 3(3)] w(2) by auto
  moreover have "e = map (map_prod id AttrB) v" using 3(5) by (simp add: mem_dynamo_api_def)
  ultimately show ?case using 3(1,2) w(1) mem_dynamo_ok_upd [of "fst s" "snd s" "Some (merge_fields w v)" k]
    by (simp add: mem_dynamo_api_def attr_bytes_def) (simp add: mem_dynamo_sem_def)
next
  case (4 s k)
  then show ?case using mem_dynamo_ok_upd [of "fst s" "snd s" None k] by (simp add: mem_dynamo_api_def attr_bytes_def) (simp add: mem_dynamo_sem_def)
qed

definition sample_dynamo_props :: props where
  "sample_dynamo_props = (props_of [] [(''command'', ''load'')])\<lparr>GetBool := (\<lambda>k d. k \<in> {''dynamodb.ensure.clean.table'', ''dynamodb.consistent.reads''})\<rparr>"


end
