(* ===== verification/Spanner.thy ===== *)
theory Spanner
  imports SqlText DocStore
begin

text \<open>
  The Spanner adapter, \<^verbatim>\<open>db/spanner/db.go\<close>: queries as SQL texts with named parameters, writes as mutations. The clients for administration and data are parameters over one state of the
  service.
\<close>

section \<open>The clients\<close>

datatype sp_mutation = SpUpdate string "string list" "string list" | SpInsertOrUpdate string "string list" "string list" | SpDelete string string

text \<open>A row of a result: the names of its columns, and its values as nullable strings unless they are of another type.\<close>

record sp_row =
  sr_names :: "string list"
  sr_strings :: "error + string option list"

datatype sp_state = STATE_UNSPECIFIED | STATE_READY

record 's sp_api =
  sp_NewAdminClient :: "'s \<Rightarrow> string \<Rightarrow> error option \<times> 's"
  sp_GetDatabase :: "'s \<Rightarrow> string \<Rightarrow> (error + sp_state) \<times> 's"
  sp_CreateDatabase :: "'s \<Rightarrow> string \<Rightarrow> string \<Rightarrow> error option \<times> 's"
  sp_WaitCreate :: "'s \<Rightarrow> error option \<times> 's"
  sp_UpdateDatabaseDdl :: "'s \<Rightarrow> string \<Rightarrow> string list \<Rightarrow> error option \<times> 's"
  sp_WaitDdl :: "'s \<Rightarrow> error option \<times> 's"
  sp_AdminClose :: "'s \<Rightarrow> 's"
  sp_NewClient :: "'s \<Rightarrow> string \<Rightarrow> error option \<times> 's"
  sp_Query :: "'s \<Rightarrow> string \<Rightarrow> sqlarg smap \<Rightarrow> (error + sp_row) list \<times> 's"
  sp_Apply :: "'s \<Rightarrow> sp_mutation \<Rightarrow> error option \<times> 's"
  sp_Close :: "'s \<Rightarrow> 's"

record 's spannerDB =
  sd_p :: props
  sd_client :: 's
  sd_connected :: bool
  sd_verbose :: bool

section \<open>Creation\<close>

text \<open>
  The regular expression \<open>^(.*)/databases/(.*)$\<close>: the first group is as long as possible, and a dot is no newline.
\<close>

fun last_databases :: "string \<Rightarrow> (string \<times> string) option" where
  "last_databases [] = None"
| "last_databases (c # s) =
     (case last_databases s of
        Some (a, b) \<Rightarrow> Some (c # a, b)
      | None \<Rightarrow> if take 11 (c # s) = ''/databases/'' then Some ([], drop 11 (c # s)) else None)"

definition match_database :: "string \<Rightarrow> (string \<times> string) option" where
  "match_database dbName = (if CHR 0x0A \<in> set dbName then None else last_databases dbName)"

definition spanner_createDatabase :: "'s sp_api \<Rightarrow> string \<Rightarrow> 's \<Rightarrow> (error + string) \<times> 's" where
  "spanner_createDatabase api dbName s =
     (case match_database dbName of
        None \<Rightarrow> (Inl (''Invalid database id '' @ dbName), s)
      | Some (parent, name) \<Rightarrow>
          (case sp_GetDatabase api s dbName of
             (Inl err, s) \<Rightarrow> (Inl err, s)
           | (Inr STATE_READY, s) \<Rightarrow> (Inr name, s)
           | (Inr STATE_UNSPECIFIED, s) \<Rightarrow>
               (case sp_CreateDatabase api s parent (''CREATE DATABASE '' @ [CHR 0x60] @ name @ [CHR 0x60]) of
                  (Some err, s) \<Rightarrow> (Inl err, s)
                | (None, s) \<Rightarrow> (case sp_WaitCreate api s of (Some err, s) \<Rightarrow> (Inl err, s) | (None, s) \<Rightarrow> (Inr name, s)))))"

definition newline_tab :: string where
  "newline_tab = [CHR 0x0A, CHR 0x09]"

definition spanner_tableExisted :: "'s sp_api \<Rightarrow> string \<Rightarrow> 's \<Rightarrow> (error + bool) \<times> 's" where
  "spanner_tableExisted api table s =
     (let (rows, s) = sp_Query api s
            (''SELECT t.table_name FROM information_schema.tables AS t '' @ newline_tab
              @ ''WHERE t.table_catalog = '' @ [CHR 0x27, CHR 0x27] @ '' AND t.table_schema = '' @ [CHR 0x27, CHR 0x27] @ '' AND t.table_name = @name'')
            [(''name'', AString table)]
      in (case rows of [] \<Rightarrow> Inr False | Inl err # _ \<Rightarrow> Inl err | Inr _ # _ \<Rightarrow> Inr True, s))"

definition spanner_ddl :: "'s sp_api \<Rightarrow> string \<Rightarrow> string \<Rightarrow> 's \<Rightarrow> error option \<times> 's" where
  "spanner_ddl api dbName statement s =
     (case sp_UpdateDatabaseDdl api s dbName [statement] of (Some err, s) \<Rightarrow> (Some err, s) | (None, s) \<Rightarrow> sp_WaitDdl api s)"

definition spanner_create_text :: "string \<Rightarrow> int \<Rightarrow> int \<Rightarrow> string" where
  "spanner_create_text tableName fieldCount fieldLength =
     ''CREATE TABLE  '' @ tableName @ '' (YCSB_KEY STRING('' @ itoa fieldLength @ '')''
     @ concat (map (\<lambda>i. '', FIELD'' @ itoa (int i) @ '' STRING('' @ itoa fieldLength @ '')'') [0..<nat fieldCount])
     @ '') PRIMARY KEY (YCSB_KEY)''"

definition spanner_createTable :: "'s sp_api \<Rightarrow> props \<Rightarrow> string \<Rightarrow> 's \<Rightarrow> error option \<times> 's" where
  "spanner_createTable api p dbName s =
     (let tableName = GetString p prop_TableName prop_TableNameDefault; fieldCount = GetInt64 p prop_FieldCount prop_FieldCountDefault;
          fieldLength = GetInt64 p prop_FieldLength prop_FieldLengthDefault in
      case spanner_tableExisted api tableName s of
        (Inl err, s) \<Rightarrow> (Some err, s)
      | (Inr existed, s) \<Rightarrow>
          (let dropped = GetBool p prop_DropData prop_DropDataDefault \<and> existed;
               (err, s) = (if dropped then spanner_ddl api dbName (''DROP TABLE '' @ tableName) s else (None, s)) in
           if err \<noteq> None then (err, s)
           else if existed \<and> \<not> dropped then (None, s)
           else spanner_ddl api dbName (spanner_create_text tableName fieldCount fieldLength) s))"

text \<open>\<open>homeDir\<close> is the result of \<open>user.Current\<close>. The administration client is closed in the end, whatever happens after it was made.\<close>

definition spanner_connect :: "'s sp_api \<Rightarrow> props \<Rightarrow> 's \<Rightarrow> (error + 's spannerDB) \<times> 's" where
  "spanner_connect api p s =
     (let dbName = GetString p ''spanner.db'' [] in
      if dbName = [] then (Inl ''must provide a database like projects/xxxx/instances/xxxx/databases/xxx'', s)
      else case spanner_createDatabase api dbName s of
             (Inl err, s) \<Rightarrow> (Inl err, s)
           | (Inr _, s) \<Rightarrow>
               (case sp_NewClient api s dbName of
                  (Some err, s) \<Rightarrow> (Inl err, s)
                | (None, s) \<Rightarrow>
                    (case spanner_createTable api p dbName s of
                       (Some err, s) \<Rightarrow> (Inl err, s)
                     | (None, s) \<Rightarrow> (Inr \<lparr>sd_p = p, sd_client = s, sd_connected = True, sd_verbose = GetBool p prop_Verbose prop_VerboseDefault\<rparr>, s))))"

definition spanner_Create :: "error + string \<Rightarrow> 's sp_api \<Rightarrow> props \<Rightarrow> 's \<Rightarrow> error + 's spannerDB" where
  "spanner_Create homeDir api p s =
     (let credentials = GetString p ''spanner.credentials'' [] in
      case (if credentials = [] then map_sum id (\<lambda>home. home @ ''/.spanner/credentials.json'') homeDir else Inr credentials) of
        Inl err \<Rightarrow> Inl err
      | Inr credentials \<Rightarrow>
          (case sp_NewAdminClient api s credentials of
             (Some err, s) \<Rightarrow> Inl err
           | (None, s) \<Rightarrow> (let (res, s) = spanner_connect api p s in map_sum id (\<lambda>d. d\<lparr>sd_client := sp_AdminClose api s\<rparr>) res)))"

definition spanner_Close :: "'s sp_api \<Rightarrow> 's spannerDB \<Rightarrow> error option \<times> 's spannerDB" where
  "spanner_Close api db = (None, if sd_connected db then db\<lparr>sd_client := sp_Close api (sd_client db)\<rparr> else db)"

section \<open>Operations\<close>

text \<open>A column that is null is left out of the row.\<close>

fun sp_fields :: "string list \<Rightarrow> string option list \<Rightarrow> row \<Rightarrow> row" where
  "sp_fields (n # ns) (Some v # vs) m = sp_fields ns vs (AList.update n (util_Slice v) m)"
| "sp_fields (n # ns) (None # vs) m = sp_fields ns vs m"
| "sp_fields _ _ m = m"

fun sp_collect :: "(error + sp_row) list \<Rightarrow> error + row list" where
  "sp_collect [] = Inr []"
| "sp_collect (Inl err # rs) = Inl err"
| "sp_collect (Inr r # rs) =
     (case sr_strings r of
        Inl err \<Rightarrow> Inl err
      | Inr vs \<Rightarrow> map_sum id (Cons (sp_fields (sr_names r) vs [])) (sp_collect rs))"

definition spanner_queryRows :: "'s sp_api \<Rightarrow> 's spannerDB \<Rightarrow> string \<Rightarrow> sqlarg smap \<Rightarrow> int \<Rightarrow> ((error + row list) \<times> 's spannerDB) go" where
  "spanner_queryRows api db SQL params cnt =
     (let (rs, s) = sp_Query api (sd_client db) SQL params in
      if cnt < 0 then Panic ''makeslice: cap out of range'' else Ret (sp_collect rs, db\<lparr>sd_client := s\<rparr>))"

definition spanner_select :: "string \<Rightarrow> string list \<Rightarrow> string" where
  "spanner_select table fnames = ''SELECT '' @ sql_cols fnames @ '' FROM '' @ table @ '' WHERE YCSB_KEY ''"

definition spanner_Read :: "'s sp_api \<Rightarrow> 's spannerDB \<Rightarrow> string \<Rightarrow> string \<Rightarrow> string list \<Rightarrow> ((error + row) \<times> 's spannerDB) go" where
  "spanner_Read api db table key fnames =
     gbind (spanner_queryRows api db (spanner_select table fnames @ ''= @key'') [(''key'', AString key)] 1) (\<lambda>(res, db).
       Ret (case res of Inl err \<Rightarrow> Inl err | Inr [] \<Rightarrow> Inr [] | Inr (r # _) \<Rightarrow> Inr r, db))"

definition spanner_Scan :: "'s sp_api \<Rightarrow> 's spannerDB \<Rightarrow> string \<Rightarrow> string \<Rightarrow> int \<Rightarrow> string list \<Rightarrow> ((error + row option list) \<times> 's spannerDB) go" where
  "spanner_Scan api db table startKey cnt fnames =
     gbind (spanner_queryRows api db (spanner_select table fnames @ ''>= @key LIMIT @limit'') [(''key'', AString startKey), (''limit'', AInt cnt)] cnt) (\<lambda>(res, db).
       Ret (map_sum id (map Some) res, db))"

definition createMutations :: "string \<Rightarrow> row \<Rightarrow> string list \<times> string list" where
  "createMutations key mutations = (''YCSB_KEY'' # map fst mutations, key # map (\<lambda>kv. util_String (snd kv)) mutations)"

definition spanner_apply :: "'s sp_api \<Rightarrow> 's spannerDB \<Rightarrow> sp_mutation \<Rightarrow> (error option \<times> 's spannerDB) go" where
  "spanner_apply api db m = (let (err, s) = sp_Apply api (sd_client db) m in Ret (err, db\<lparr>sd_client := s\<rparr>))"

definition spanner_Update :: "'s sp_api \<Rightarrow> 's spannerDB \<Rightarrow> string \<Rightarrow> string \<Rightarrow> row \<Rightarrow> (error option \<times> 's spannerDB) go" where
  "spanner_Update api db table key mutations = (let (ks, vs) = createMutations key mutations in spanner_apply api db (SpUpdate table ks vs))"

definition spanner_Insert :: "'s sp_api \<Rightarrow> 's spannerDB \<Rightarrow> string \<Rightarrow> string \<Rightarrow> row \<Rightarrow> (error option \<times> 's spannerDB) go" where
  "spanner_Insert api db table key mutations = (let (ks, vs) = createMutations key mutations in spanner_apply api db (SpInsertOrUpdate table ks vs))"

definition spanner_Delete :: "'s sp_api \<Rightarrow> 's spannerDB \<Rightarrow> string \<Rightarrow> string \<Rightarrow> (error option \<times> 's spannerDB) go" where
  "spanner_Delete api db table key = spanner_apply api db (SpDelete table key)"

definition spanner_db :: "'s sp_api \<Rightarrow> 's spannerDB db" where
  "spanner_db api =
     \<lparr>db_Close = (\<lambda>d. Ret (spanner_Close api d)), db_InitThread = (\<lambda>d i n. Ret d), db_CleanupThread = Ret,
      db_Read = spanner_Read api, db_Scan = spanner_Scan api, db_Update = spanner_Update api, db_Insert = spanner_Insert api, db_Delete = spanner_Delete api,
      db_Batch = None, db_Analyze = None, db_TypeName = ''*spanner.spannerDB''\<rparr>"

section \<open>What the service does\<close>

text \<open>The queries of the adapter with their named parameters, read as the commands of the SQL fragment.\<close>

definition spanner_parse :: "string \<Rightarrow> sqlcmd option" where
  "spanner_parse q =
     Option.bind (strip [''SELECT''] (sql_tokens q)) (\<lambda>ts. Option.bind (p_star ts) (\<lambda>(cols, ts). Option.bind (strip [''FROM''] ts) (\<lambda>ts. Option.bind (p_table ts) (\<lambda>(t, ts).
     Option.bind (strip [''WHERE'', ''YCSB_KEY''] ts) (\<lambda>ts.
       if ts = [''='', ''@'', ''key''] then Some (SqlSelect cols t)
       else if ts = [''>'', ''='', ''@'', ''key'', ''LIMIT'', ''@'', ''limit''] then Some (SqlScan cols t) else None)))))"

lemma spanner_tails:
  "sql_tokens '' WHERE YCSB_KEY = @key'' = [''WHERE'', ''YCSB_KEY'', ''='', ''@'', ''key'']"
  "sql_tokens '' WHERE YCSB_KEY >= @key LIMIT @limit'' = [''WHERE'', ''YCSB_KEY'', ''>'', ''='', ''@'', ''key'', ''LIMIT'', ''@'', ''limit'']"
  by code_simp+

lemma spanner_tokens:
  assumes "is_name t" and "\<forall>f\<in>set fs. is_name f"
  shows "sql_tokens (spanner_select t fs @ w) = ''SELECT'' # (if fs = [] then [''*''] else commas fs) @ ''FROM'' # t # sql_tokens ('' WHERE YCSB_KEY '' @ w)"
proof -
  let ?tail = "'' WHERE YCSB_KEY '' @ w"
  have "sql_tokens (spanner_select t fs @ w) = sql_tokens (''SELECT '' @ (sql_cols fs @ ('' FROM '' @ (t @ ?tail))))" by (simp add: spanner_select_def)
  also have "\<dots> = ''SELECT'' # sql_tokens (sql_cols fs @ ('' FROM '' @ (t @ ?tail)))" using tokens_word [of "''SELECT''" "'' '' @ sql_cols fs @ '' FROM '' @ t @ ?tail"] by simp
  also have "sql_tokens (sql_cols fs @ ('' FROM '' @ (t @ ?tail))) = (if fs = [] then [''*''] else commas fs) @ sql_tokens ('' FROM '' @ (t @ ?tail))"
    by (rule tokens_cols [OF assms(2)]) simp
  also have "sql_tokens ('' FROM '' @ (t @ ?tail)) = ''FROM'' # sql_tokens (t @ ?tail)" using tokens_word [of "''FROM''" "'' '' @ t @ ?tail"] by simp
  also have "sql_tokens (t @ ?tail) = t # sql_tokens ?tail" by (rule tokens_name [OF assms(1)]) simp
  finally show ?thesis .
qed

text \<open>The texts of the two queries are read as what they are meant to be.\<close>

lemma spanner_select_parse:
  assumes "is_name t" and "\<forall>f\<in>set fs. is_name f"
  shows "spanner_parse (spanner_select t fs @ ''= @key'') = Some (SqlSelect fs t)"
    and "spanner_parse (spanner_select t fs @ ''>= @key LIMIT @limit'') = Some (SqlScan fs t)"
  using assms spanner_tails by (simp_all add: spanner_parse_def spanner_tokens p_star_cols p_table_name)

text \<open>
  A state of the service stands for a table of rows. \<open>tabs\<close> are its tables, \<open>K\<close> the columns besides the key; \<open>star\<close> says what \<open>*\<close> delivers. A value that is missing is null.
\<close>

definition sp_map :: "string list \<Rightarrow> string option list \<Rightarrow> rowmap" where
  "sp_map names vs = (\<lambda>c. Option.bind (map_of (zip names vs) c) (map_option util_Slice))"

definition sp_laws ::
    "'s sp_api \<Rightarrow> ('s \<Rightarrow> bool) \<Rightarrow> ('s \<Rightarrow> table) \<Rightarrow> (string \<Rightarrow> bool) \<Rightarrow> string set \<Rightarrow> (string \<Rightarrow> string \<Rightarrow> rowmap \<Rightarrow> bool) \<Rightarrow> (string \<Rightarrow> rowmap \<Rightarrow> rowmap) \<Rightarrow> bool" where
  "sp_laws api ok view tabs K adm star \<longleftrightarrow>
     (\<forall>s q cols t k m. ok s \<longrightarrow> spanner_parse q = Some (SqlSelect cols t) \<longrightarrow> tabs t \<longrightarrow> set cols \<subseteq> K \<longrightarrow> view s (t, k) = Some m \<longrightarrow>
        (\<exists>names vs s'. sp_Query api s q [(''key'', AString k)] = ([Inr \<lparr>sr_names = names, sr_strings = Inr vs\<rparr>], s') \<and> ok s' \<and> view s' = view s
           \<and> distinct names \<and> length vs = length names \<and> sp_map names vs = (if cols = [] then star k m else m |` set cols)))
   \<and> (\<forall>s t k v. ok s \<longrightarrow> tabs t \<longrightarrow> row_ok K v \<longrightarrow> adm t k (merge_new (view s (t, k)) (map_of v)) \<longrightarrow>
        (\<exists>s'. sp_Apply api s (SpInsertOrUpdate t (''YCSB_KEY'' # map fst v) (k # map (\<lambda>kv. util_String (snd kv)) v)) = (None, s') \<and> ok s'
           \<and> view s' = (view s)((t, k) \<mapsto> merge_new (view s (t, k)) (map_of v))))
   \<and> (\<forall>s t k v m. ok s \<longrightarrow> tabs t \<longrightarrow> row_ok K v \<longrightarrow> view s (t, k) = Some m \<longrightarrow> adm t k (m ++ map_of v) \<longrightarrow>
        (\<exists>s'. sp_Apply api s (SpUpdate t (''YCSB_KEY'' # map fst v) (k # map (\<lambda>kv. util_String (snd kv)) v)) = (None, s') \<and> ok s'
           \<and> view s' = (view s)((t, k) \<mapsto> m ++ map_of v)))
   \<and> (\<forall>s t k. ok s \<longrightarrow> tabs t \<longrightarrow> (\<exists>s'. sp_Apply api s (SpDelete t k) = (None, s') \<and> ok s' \<and> view s' = (view s)((t, k) := None)))"

lemmas sp_Query_law = sp_laws_def [THEN iffD1, THEN conjunct1, rule_format]
lemmas sp_Insert_law = sp_laws_def [THEN iffD1, THEN conjunct2, THEN conjunct1, rule_format]
lemmas sp_Update_law = sp_laws_def [THEN iffD1, THEN conjunct2, THEN conjunct2, THEN conjunct1, rule_format]
lemmas sp_Delete_law = sp_laws_def [THEN iffD1, THEN conjunct2, THEN conjunct2, THEN conjunct2, rule_format]

section \<open>The adapter as a table\<close>

definition spanner_inv where
  "spanner_inv api ok view tabs K adm star db \<longleftrightarrow> sp_laws api ok view tabs K adm star \<and> (\<forall>f\<in>K. is_name f) \<and> ok (sd_client db)"

definition spanner_rows :: "('s \<Rightarrow> table) \<Rightarrow> 's spannerDB \<Rightarrow> table" where
  "spanner_rows view db = view (sd_client db)"

definition spanner_policy :: "(string \<Rightarrow> rowmap \<Rightarrow> rowmap) \<Rightarrow> row_policy" where
  "spanner_policy star = \<lparr>rp_ins = merge_new, rp_upd = (\<lambda>m v. m ++ v), rp_sel = (\<lambda>k m fs. if fs = [] then star k m else m |` set fs)\<rparr>"

definition spanner_table :: "(string \<Rightarrow> bool) \<Rightarrow> string \<Rightarrow> bool" where
  "spanner_table tabs t \<longleftrightarrow> tabs t \<and> is_name t"

lemma sp_fields_map:
  "distinct names \<Longrightarrow> length vs = length names \<Longrightarrow> map_of (sp_fields names vs m) = map_of m ++ sp_map names vs"
proof (induction names vs m rule: sp_fields.induct)
  case (1 n ns v vs m)
  have "map_of (zip ns vs) n = None" using 1(2,3) by (auto simp: map_of_eq_None_iff dest: set_zip_leftD)
  then have "map_of (AList.update n (util_Slice v) m) ++ sp_map ns vs = map_of m ++ sp_map (n # ns) (Some v # vs)"
    unfolding update_conv' by (auto simp: sp_map_def fun_eq_iff map_add_def split: option.splits)
  then show ?case using 1 by simp
next
  case (2 n ns vs m)
  have "map_of (zip ns vs) n = None" using 2(2,3) by (auto simp: map_of_eq_None_iff dest: set_zip_leftD)
  then have "sp_map (n # ns) (None # vs) = sp_map ns vs" by (auto simp: sp_map_def fun_eq_iff)
  then show ?case using 2 by simp
qed (auto simp: sp_map_def)

interpretation spanner: policy_db "spanner_db api" "spanner_inv api ok view tabs K adm star" "spanner_rows view" "\<lambda>db. K" "spanner_table tabs" adm "\<lambda>db. spanner_policy star"
  for api ok view tabs K adm star
proof (unfold_locales, goal_cases)
  case (1 d t v k)
  then have I: "sp_laws api ok view tabs K adm star" "ok (sd_client d)" "tabs t" by (auto simp: spanner_inv_def spanner_table_def)
  have "adm t k (merge_new (view (sd_client d) (t, k)) (map_of v))" using 1(4) by (simp add: spanner_policy_def spanner_rows_def)
  from sp_Insert_law [OF I 1(3) this] show ?case using 1(1)
    by (auto simp: spanner_db_def spanner_Insert_def createMutations_def spanner_apply_def spanner_inv_def spanner_rows_def spanner_policy_def)
next
  case (2 d t v k m)
  then have I: "sp_laws api ok view tabs K adm star" "ok (sd_client d)" "tabs t" by (auto simp: spanner_inv_def spanner_table_def)
  have "view (sd_client d) (t, k) = Some m" "adm t k (m ++ map_of v)" using 2(5,6) by (simp_all add: spanner_policy_def spanner_rows_def)
  from sp_Update_law [OF I 2(3) this] show ?case using 2(1)
    by (auto simp: spanner_db_def spanner_Update_def createMutations_def spanner_apply_def spanner_inv_def spanner_rows_def spanner_policy_def)
next
  case (3 d t k m)
  then have I: "sp_laws api ok view tabs K adm star" "ok (sd_client d)" "tabs t" by (auto simp: spanner_inv_def spanner_table_def)
  from sp_Delete_law [OF I, of k] show ?case using 3(1) by (auto simp: spanner_db_def spanner_Delete_def spanner_apply_def spanner_inv_def spanner_rows_def)
next
  case (4 d t fs k m)
  then have I: "sp_laws api ok view tabs K adm star" "ok (sd_client d)" "tabs t" "is_name t" "\<forall>f\<in>set fs. is_name f" by (auto simp: spanner_inv_def spanner_table_def)
  have "view (sd_client d) (t, k) = Some m" using 4(4) by (simp add: spanner_rows_def)
  from sp_Query_law [OF I(1,2) spanner_select_parse(1) [OF I(4,5)] I(3) 4(3) this] obtain names vs s where
    s: "sp_Query api (sd_client d) (spanner_select t fs @ ''= @key'') [(''key'', AString k)] = ([Inr \<lparr>sr_names = names, sr_strings = Inr vs\<rparr>], s)" "ok s"
      "view s = view (sd_client d)" "distinct names" "length vs = length names" "sp_map names vs = (if fs = [] then star k m else m |` set fs)"
    by blast
  then show ?case using 4(1) sp_fields_map [OF s(4,5), of "[]"]
    by (simp add: spanner_db_def spanner_Read_def spanner_queryRows_def spanner_inv_def spanner_rows_def spanner_policy_def)
qed

lemma spanner_merging: "merging_policy K (spanner_policy star)"
  by (auto simp: merging_policy_def spanner_policy_def merge_new_def)

text \<open>The greedy match takes the last \<open>/databases/\<close>.\<close>

lemma last_databases_no_slash: "CHR ''/'' \<notin> set b \<Longrightarrow> last_databases b = None" "CHR ''/'' \<notin> set b \<Longrightarrow> last_databases (CHR ''/'' # b) = None"
proof -
  show none: "last_databases b = None" if "CHR ''/'' \<notin> set b" for b using that by (induction b) auto
  have "take 10 b \<noteq> ''databases/''" if "CHR ''/'' \<notin> set b"
  proof
    assume "take 10 b = ''databases/''"
    then have "CHR ''/'' \<in> set (take 10 b)" by simp
    then show False using that by (auto dest: in_set_takeD)
  qed
  then show "CHR ''/'' \<notin> set b \<Longrightarrow> last_databases (CHR ''/'' # b) = None" using none by simp
qed

lemma last_databases_prefix: "CHR ''/'' \<notin> set w \<Longrightarrow> last_databases s = None \<Longrightarrow> last_databases (w @ s) = None"
  by (induction w) auto

lemma match_database_last:
  assumes "CHR 0x0A \<notin> set a" and "CHR 0x0A \<notin> set b" and "CHR ''/'' \<notin> set b"
  shows "match_database (a @ ''/databases/'' @ b) = Some (a, b)"
proof -
  have "last_databases (''databases'' @ CHR ''/'' # b) = None" using last_databases_no_slash(2) [OF assms(3)] by (intro last_databases_prefix) simp_all
  then have "last_databases (''/databases/'' @ b) = Some ([], b)" by simp
  then have "last_databases (a @ ''/databases/'' @ b) = Some (a, b)" by (induction a) simp_all
  then show ?thesis using assms(1,2) by (simp add: match_database_def)
qed

end
