(* ===== verification/Elastic.thy ===== *)
theory Elastic
  imports DocStore
begin

text \<open>
  The Elasticsearch adapter, \<^verbatim>\<open>db/elasticsearch/db.go\<close>: writes go into the queue of a bulk indexer and reach the index later. The client and the indexer are parameters; the back-off between the
  retries of the client is part of them. The lemmas relate what is queued to what the index holds in the end.
\<close>

section \<open>The client\<close>

record es_item =
  ei_Action :: string
  ei_DocumentID :: string
  ei_Body :: "string option"

text \<open>
  The body of a response as a JSON value. \<open>IsError\<close> of a response is the flag next to it. The calls on the indexer may panic, since its queue is closed by \<open>Close\<close>.
\<close>

datatype json_value = JString string | JNumber int | JBool bool | JNull | JArray "json_value list" | JObject "(string \<times> json_value) list"

record 's es_api =
  es_Get :: "'s \<Rightarrow> string \<Rightarrow> string \<Rightarrow> (error + json_value) \<times> 's"
  es_Add :: "'s \<Rightarrow> es_item \<Rightarrow> (error option \<times> 's) go"
  es_BulkClose :: "'s \<Rightarrow> (error option \<times> 's) go"
  es_IndicesDelete :: "'s \<Rightarrow> string list \<Rightarrow> bool \<Rightarrow> (error + bool) \<times> 's"
  es_IndicesCreate :: "'s \<Rightarrow> string \<Rightarrow> string \<Rightarrow> (error + bool) \<times> 's"

record 's elastic =
  el_cli :: 's
  el_indexName :: string
  el_verbose :: bool

section \<open>Creation\<close>

record es_config =
  ec_Addresses :: "string list"
  ec_RetryOnStatus :: "int list"
  ec_MaxRetries :: int
  ec_Username :: string
  ec_Password :: string
  ec_InsecureSkipVerify :: bool

record bulk_config =
  bc_Index :: string
  bc_NumWorkers :: int
  bc_FlushBytes :: int
  bc_FlushInterval :: int
  bc_Refresh :: string

definition elastic_config :: "props \<Rightarrow> es_config" where
  "elastic_config p =
     \<lparr>ec_Addresses = split_on (CHR '','') (GetString p ''es.hosts.list'' ''http://127.0.0.1:9200''), ec_RetryOnStatus = [502, 503, 504, 429],
      ec_MaxRetries = GetInt p ''es.max_retires'' 10, ec_Username = GetString p ''es.username'' ''elastic'', ec_Password = GetString p ''es.password'' [],
      ec_InsecureSkipVerify = GetBool p ''es.insecure.ssl'' False\<rparr>"

definition elastic_bulk :: "int \<Rightarrow> props \<Rightarrow> bulk_config" where
  "elastic_bulk numCPU p =
     \<lparr>bc_Index = GetString p ''es.index'' ''ycsb'', bc_NumWorkers = GetInt p ''es.bulk.num_workers'' numCPU,
      bc_FlushBytes = GetInt p ''es.bulk.flush_bytes'' 5000000, bc_FlushInterval = i64 (GetInt p ''es.bulk.flush_interval_secs'' 30 * 1000000000),
      bc_Refresh = (if GetInt p prop_BatchSize prop_DefaultBatchSize \<le> 1 then ''wait_for'' else ''false'')\<rparr>"

text \<open>The settings of the index, with the keys in the order in which maps are written.\<close>

definition index_mapping :: "int \<Rightarrow> int \<Rightarrow> string" where
  "index_mapping shards replicas =
     (let q = (\<lambda>w. CHR 0x22 # w @ [CHR 0x22]) in
      ''{'' @ q ''settings'' @ '':{'' @ q ''index'' @ '':{'' @ q ''number_of_replicas'' @ '':'' @ itoa replicas @ '','' @ q ''number_of_shards'' @ '':'' @ itoa shards @ ''}}}'')"

text \<open>
  For a load the index is made anew. When the deletion is answered with an error status, the error that is returned is nil, and so is the database. When the request for the creation
  fails and this is to be ignored, there is no response to ask for its status. The text of the error for a refused creation also holds the response, which is left out.
\<close>

definition elastic_recreate :: "'s es_api \<Rightarrow> props \<Rightarrow> string \<Rightarrow> 's \<Rightarrow> ((error option + unit) \<times> 's) go" where
  "elastic_recreate api p iname s =
     (let failOnCreate = GetBool p ''es.exit.on.index.create.fail'' False in
      case es_IndicesDelete api s [iname] True of
        (Inl err, s) \<Rightarrow> Ret (Inl (Some err), s)
      | (Inr True, s) \<Rightarrow> Ret (Inl None, s)
      | (Inr False, s) \<Rightarrow>
          (case es_IndicesCreate api s iname (index_mapping (GetInt p ''es.number_of_shards'' 1) (GetInt p ''es.number_of_replicas'' 0)) of
             (Inl err, s) \<Rightarrow> if failOnCreate then Ret (Inl (Some err), s) else Panic ''nil pointer dereference''
           | (Inr isError, s) \<Rightarrow> if isError \<and> failOnCreate then Ret (Inl (Some ''Cannot create index''), s) else Ret (Inr (), s)))"

text \<open>A result \<open>Inl None\<close> is the nil database without an error. \<open>NewClient\<close> and \<open>NewBulkIndexer\<close> make the client and the indexer over one state.\<close>

definition elastic_Create ::
    "int \<Rightarrow> (es_config \<Rightarrow> error + 's) \<Rightarrow> (bulk_config \<Rightarrow> 's \<Rightarrow> error + 's) \<Rightarrow> 's es_api \<Rightarrow> props \<Rightarrow> (error option + 's elastic) go" where
  "elastic_Create numCPU NewClient NewBulkIndexer api p =
     (let iname = GetString p ''es.index'' ''ycsb'' in
      case NewClient (elastic_config p) of
        Inl err \<Rightarrow> Ret (Inl (Some err))
      | Inr s \<Rightarrow>
          (case NewBulkIndexer (elastic_bulk numCPU p) s of
             Inl err \<Rightarrow> Ret (Inl (Some err))
           | Inr s \<Rightarrow>
               gbind (if Get p prop_Command = Some ''load'' then elastic_recreate api p iname s else Ret (Inr (), s)) (\<lambda>(res, s).
                 Ret (map_sum id (\<lambda>_. \<lparr>el_cli = s, el_indexName = iname, el_verbose = GetBool p prop_Verbose prop_VerboseDefault\<rparr>) res))))"

definition elastic_Close :: "'s elastic \<Rightarrow> error option \<times> 's elastic" where
  "elastic_Close m = (None, m)"

text \<open>Every worker that ends closes the indexer that all workers share.\<close>

definition elastic_CleanupThread :: "'s es_api \<Rightarrow> 's elastic \<Rightarrow> 's elastic go" where
  "elastic_CleanupThread api m = gbind (es_BulkClose api (el_cli m)) (\<lambda>(err, s). Ret (m\<lparr>el_cli := s\<rparr>))"

section \<open>Operations\<close>

text \<open>
  \<open>Decode\<close> of a JSON value into a map from names to bytes: a name is entered whatever its value is; a value that does not fit leaves the bytes empty and is reported as an error, which \<open>Read\<close> drops.
\<close>

definition json_byte :: "json_value \<Rightarrow> byte" where
  "json_byte v = (case v of JNumber n \<Rightarrow> if 0 \<le> n \<and> n < 256 then of_int n else 0 | _ \<Rightarrow> 0)"

definition json_value_bytes :: "json_value \<Rightarrow> byte list" where
  "json_value_bytes v = (case v of JString s \<Rightarrow> (case b64_decode s of Some b \<Rightarrow> b | None \<Rightarrow> []) | JArray xs \<Rightarrow> map json_byte xs | _ \<Rightarrow> [])"

definition decode_map :: "json_value \<Rightarrow> row" where
  "decode_map v = (case v of JObject ms \<Rightarrow> foldl (\<lambda>r (k, x). AList.update k (json_value_bytes x) r) [] ms | _ \<Rightarrow> [])"

definition elastic_Read :: "'s es_api \<Rightarrow> 's elastic \<Rightarrow> string \<Rightarrow> string \<Rightarrow> string list \<Rightarrow> ((error + row) \<times> 's elastic) go" where
  "elastic_Read api m table key fnames =
     (let (res, s) = es_Get api (el_cli m) (el_indexName m) key in Ret (map_sum id decode_map res, m\<lparr>el_cli := s\<rparr>))"

definition elastic_Scan :: "'s elastic \<Rightarrow> string \<Rightarrow> string \<Rightarrow> int \<Rightarrow> string list \<Rightarrow> ((error + row option list) \<times> 's elastic) go" where
  "elastic_Scan m table startKey cnt fnames = Ret (Inl ''scan is not supported'', m)"

definition elastic_add :: "'s es_api \<Rightarrow> 's elastic \<Rightarrow> es_item \<Rightarrow> (error option \<times> 's elastic) go" where
  "elastic_add api m item = gbind (es_Add api (el_cli m) item) (\<lambda>(err, s). Ret (err, m\<lparr>el_cli := s\<rparr>))"

definition elastic_Insert :: "'s es_api \<Rightarrow> 's elastic \<Rightarrow> string \<Rightarrow> string \<Rightarrow> row \<Rightarrow> (error option \<times> 's elastic) go" where
  "elastic_Insert api m table key vals = elastic_add api m \<lparr>ei_Action = ''index'', ei_DocumentID = key, ei_Body = Some (json_Marshal vals)\<rparr>"

definition elastic_Update :: "'s es_api \<Rightarrow> 's elastic \<Rightarrow> string \<Rightarrow> string \<Rightarrow> row \<Rightarrow> (error option \<times> 's elastic) go" where
  "elastic_Update api m table key vals = elastic_add api m \<lparr>ei_Action = ''update'', ei_DocumentID = key, ei_Body = Some (json_Marshal vals)\<rparr>"

definition elastic_Delete :: "'s es_api \<Rightarrow> 's elastic \<Rightarrow> string \<Rightarrow> string \<Rightarrow> (error option \<times> 's elastic) go" where
  "elastic_Delete api m table key = elastic_add api m \<lparr>ei_Action = ''delete'', ei_DocumentID = key, ei_Body = None\<rparr>"

definition elastic_db :: "'s es_api \<Rightarrow> 's elastic db" where
  "elastic_db api =
     \<lparr>db_Close = (\<lambda>d. Ret (elastic_Close d)), db_InitThread = (\<lambda>d i n. Ret d), db_CleanupThread = elastic_CleanupThread api,
      db_Read = elastic_Read api, db_Scan = elastic_Scan, db_Update = elastic_Update api, db_Insert = elastic_Insert api, db_Delete = elastic_Delete api,
      db_Batch = None, db_Analyze = None, db_TypeName = ''*elastic.elastic''\<rparr>"

section \<open>Properties\<close>

text \<open>
  What the items of a bulk request do to the documents of an index, in the order of the queue: documented behaviour of the bulk interface. The body of an update is no document, it names options, and
  one with other names is refused. The documents that the index holds once the queue has been worked off are \<open>view\<close> of a state; one worker of the indexer takes the items in
  their order.
\<close>

definition update_options :: "string set" where
  "update_options = {''doc'', ''upsert'', ''doc_as_upsert'', ''script'', ''scripted_upsert'', ''detect_noop'', ''_source'', ''lang'', ''params''}"

definition refused_update :: "string \<Rightarrow> bool" where
  "refused_update body \<longleftrightarrow> (\<exists>r. json_Unmarshal body = Inr r \<and> r \<noteq> [] \<and> fst ` set r \<inter> update_options = {})"

definition es_laws :: "'s es_api \<Rightarrow> ('s \<Rightarrow> bool) \<Rightarrow> ('s \<Rightarrow> string \<rightharpoonup> string) \<Rightarrow> bool" where
  "es_laws api ok view \<longleftrightarrow>
     (\<forall>s k b. ok s \<longrightarrow> (\<exists>s'. es_Add api s \<lparr>ei_Action = ''index'', ei_DocumentID = k, ei_Body = Some b\<rparr> = Ret (None, s') \<and> ok s' \<and> view s' = (view s)(k \<mapsto> b)))
   \<and> (\<forall>s k. ok s \<longrightarrow> (\<exists>s'. es_Add api s \<lparr>ei_Action = ''delete'', ei_DocumentID = k, ei_Body = None\<rparr> = Ret (None, s') \<and> ok s' \<and> view s' = (view s)(k := None)))
   \<and> (\<forall>s k b. ok s \<longrightarrow> refused_update b \<longrightarrow>
        (\<exists>s'. es_Add api s \<lparr>ei_Action = ''update'', ei_DocumentID = k, ei_Body = Some b\<rparr> = Ret (None, s') \<and> ok s' \<and> view s' = view s))"

lemma es_lawsD:
  assumes "es_laws api ok view" and "ok s"
  shows es_index_law: "\<exists>s'. es_Add api s \<lparr>ei_Action = ''index'', ei_DocumentID = k, ei_Body = Some b\<rparr> = Ret (None, s') \<and> ok s' \<and> view s' = (view s)(k \<mapsto> b)"
    and es_delete_law: "\<exists>s'. es_Add api s \<lparr>ei_Action = ''delete'', ei_DocumentID = k, ei_Body = None\<rparr> = Ret (None, s') \<and> ok s' \<and> view s' = (view s)(k := None)"
    and es_update_law: "refused_update b \<Longrightarrow> \<exists>s'. es_Add api s \<lparr>ei_Action = ''update'', ei_DocumentID = k, ei_Body = Some b\<rparr> = Ret (None, s') \<and> ok s' \<and> view s' = view s"
  using assms unfolding es_laws_def by blast+

definition elastic_rows :: "string \<Rightarrow> ('s \<Rightarrow> string \<rightharpoonup> string) \<Rightarrow> 's elastic \<Rightarrow> table" where
  "elastic_rows T view m = doc_rows (\<lambda>t. t = T) (\<lambda>t k. k) json_row (view (el_cli m))"

lemma elastic_rows_upd: "view s = (view (el_cli m))(k := e) \<Longrightarrow> elastic_rows T view (m\<lparr>el_cli := s\<rparr>) = (elastic_rows T view m)((T, k) := map_option json_row e)"
  using one_table.doc_rows_upd [of T T json_row "view (el_cli m)" k e] by (simp add: elastic_rows_def)

lemma refused_row:
  assumes "row_ok ascii_names v" and "v \<noteq> []" and "fst ` set v \<inter> update_options = {}"
  shows "refused_update (json_Marshal v)"
proof -
  have "set (sort_key fst v) = set v" "sort_key fst v \<noteq> []" using assms(2) by (simp, metis set_empty set_sort)
  then show ?thesis using json_read_back(1) [OF assms(1)] assms(3) by (auto simp: refused_update_def)
qed

lemma decode_names: "fst ` set (foldl (\<lambda>r (k, x). AList.update k (json_value_bytes x) r) r0 ms) = fst ` set r0 \<union> fst ` set ms"
proof (induction ms arbitrary: r0)
  case (Cons kx ms)
  obtain k x where kx: "kx = (k, x)" by fastforce
  show ?case using Cons [of "AList.update k (json_value_bytes x) r0"] by (auto simp: kx dom_update)
qed simp


text \<open>A server in memory that works its queue off at once.\<close>

definition mem_es :: "(string \<times> string) list es_api" where
  "mem_es =
     \<lparr>es_Get = (\<lambda>s iname k. (Inr (JObject [(''_index'', JString iname), (''_id'', JString k), (''found'', JBool (map_of s k \<noteq> None))]), s)),
      es_Add = (\<lambda>s item. Ret (None,
        if ei_Action item = ''index'' then AList.update (ei_DocumentID item) (the (ei_Body item)) s
        else if ei_Action item = ''delete'' then AList.delete (ei_DocumentID item) s else s)),
      es_BulkClose = (\<lambda>s. Ret (None, s)), es_IndicesDelete = (\<lambda>s is b. (Inr False, [])), es_IndicesCreate = (\<lambda>s i b. (Inr False, s))\<rparr>"

lemma mem_es_laws: "es_laws mem_es (\<lambda>s. True) map_of"
  unfolding es_laws_def mem_es_def by (simp add: update_conv' delete_conv')


end
