(* ===== verification/Basic.thy ===== *)
theory Basic
  imports DocStore Rand
begin

text \<open>
  The database \<open>basic\<close>, \<^verbatim>\<open>db/basic/db.go\<close>, which prints the operations instead of doing them. The printed lines are part of the state. A delay consumes a random number; that it takes time is left out.
\<close>

section \<open>State\<close>

text \<open>\<open>bd_state\<close> is the state that \<open>InitThread\<close> puts into the context: the source of random numbers and the buffer for a line.\<close>

record basicState =
  bs_r :: rand
  bs_buf :: string

record basicDB =
  bd_verbose :: bool
  bd_randomizeDelay :: bool
  bd_toDelay :: int
  bd_state :: "basicState option"
  bd_out :: "string list"

definition basic_Create :: "props \<Rightarrow> error + basicDB" where
  "basic_Create p =
     Inr \<lparr>bd_verbose = GetBool p prop_Verbose prop_VerboseDefault, bd_randomizeDelay = GetBool p ''basicdb.randomizedelay'' True,
          bd_toDelay = GetInt64 p ''basicdb.simulatedelay'' 0, bd_state = None, bd_out = []\<rparr>"

definition basic_InitThread :: "rand \<Rightarrow> basicDB \<Rightarrow> basicDB" where
  "basic_InitThread r db = db\<lparr>bd_state := Some \<lparr>bs_r = r, bs_buf = []\<rparr>\<rparr>"

definition basic_Close :: "basicDB \<Rightarrow> error option \<times> basicDB" where
  "basic_Close db = (None, db)"

section \<open>Operations\<close>

text \<open>The delay; with a negative one the draw panics.\<close>

definition basic_delay :: "basicDB \<Rightarrow> basicState \<Rightarrow> basicState go" where
  "basic_delay db state =
     (if bd_toDelay db = 0 then Ret state
      else if bd_randomizeDelay db then gbind (Int63n (bs_r state) (bd_toDelay db)) (\<lambda>(_, r). Ret (state\<lparr>bs_r := r\<rparr>))
      else Ret state)"

text \<open>What every operation does: take the state from the context, wait, and, if it is to print, run \<open>body\<close>, which prints lines through the buffer.\<close>

definition basic_op :: "(string \<Rightarrow> (string list \<times> string) go) \<Rightarrow> basicDB \<Rightarrow> basicDB go" where
  "basic_op body db =
     (case bd_state db of
        None \<Rightarrow> Panic ''interface conversion: interface {} is nil, not *basic.basicState''
      | Some state \<Rightarrow>
          gbind (basic_delay db state) (\<lambda>state.
            if \<not> bd_verbose db then Ret (db\<lparr>bd_state := Some state\<rparr>)
            else gbind (body (bs_buf state)) (\<lambda>(ls, buf). Ret (db\<lparr>bd_state := Some (state\<lparr>bs_buf := buf\<rparr>), bd_out := bd_out db @ ls\<rparr>))))"

text \<open>A line: the buffer with the text appended is printed, and the buffer is reset.\<close>

definition print_line :: "string \<Rightarrow> string \<Rightarrow> string list \<times> string" where
  "print_line w buf = ([buf @ w], [])"

definition fields_text :: "string list \<Rightarrow> string" where
  "fields_text fnames = (if fnames \<noteq> [] then concat (map (\<lambda>f. f @ '' '') fnames) else ''<all fields> '')"

definition values_text :: "row \<Rightarrow> string" where
  "values_text vals = concat (map (\<lambda>(k, v). k @ ''='' @ util_String v @ '' '') vals)"

definition basic_Read :: "basicDB \<Rightarrow> string \<Rightarrow> string \<Rightarrow> string list \<Rightarrow> ((error + row) \<times> basicDB) go" where
  "basic_Read db table key fnames =
     gbind (basic_op (\<lambda>buf. Ret (print_line (''READ '' @ table @ '' '' @ key @ '' [ '' @ fields_text fnames @ '']'') buf)) db) (\<lambda>db. Ret (Inr [], db))"

definition basic_Scan :: "basicDB \<Rightarrow> string \<Rightarrow> string \<Rightarrow> int \<Rightarrow> string list \<Rightarrow> ((error + row option list) \<times> basicDB) go" where
  "basic_Scan db table startKey cnt fnames =
     gbind (basic_op (\<lambda>buf. Ret (print_line (''SCAN '' @ table @ '' '' @ startKey @ '' '' @ itoa cnt @ '' [ '' @ fields_text fnames @ '']'') buf)) db) (\<lambda>db. Ret (Inr [], db))"

definition basic_Update :: "basicDB \<Rightarrow> string \<Rightarrow> string \<Rightarrow> row \<Rightarrow> (error option \<times> basicDB) go" where
  "basic_Update db table key vals =
     gbind (basic_op (\<lambda>buf. Ret (print_line (''UPDATE '' @ table @ '' '' @ key @ '' [ '' @ values_text vals @ '']'') buf)) db) (\<lambda>db. Ret (None, db))"

definition insertRecord :: "string \<Rightarrow> string \<Rightarrow> row \<Rightarrow> string \<Rightarrow> string list \<times> string" where
  "insertRecord table key vals buf = print_line (''INSERT '' @ table @ '' '' @ key @ '' [ '' @ values_text vals @ '']'') buf"

definition basic_Insert :: "basicDB \<Rightarrow> string \<Rightarrow> string \<Rightarrow> row \<Rightarrow> (error option \<times> basicDB) go" where
  "basic_Insert db table key vals = gbind (basic_op (\<lambda>buf. Ret (insertRecord table key vals buf)) db) (\<lambda>db. Ret (None, db))"

fun insert_records :: "string \<Rightarrow> string list \<Rightarrow> row list \<Rightarrow> string \<Rightarrow> (string list \<times> string) go" where
  "insert_records table [] vals buf = Ret ([], buf)"
| "insert_records table (key # ks) [] buf = Panic ''index out of range''"
| "insert_records table (key # ks) (v # vals) buf =
     (let (ls, buf) = insertRecord table key v buf in gbind (insert_records table ks vals buf) (\<lambda>(ls', buf). Ret (ls @ ls', buf)))"

text \<open>The lines that are printed before an index is out of range are lost in the model, which has no output for a panic.\<close>

definition basic_BatchInsert :: "basicDB \<Rightarrow> string \<Rightarrow> string list \<Rightarrow> row list \<Rightarrow> (error option \<times> basicDB) go" where
  "basic_BatchInsert db table ks vals = gbind (basic_op (insert_records table ks vals) db) (\<lambda>db. Ret (None, db))"

definition basic_Delete :: "basicDB \<Rightarrow> string \<Rightarrow> string \<Rightarrow> (error option \<times> basicDB) go" where
  "basic_Delete db table key = gbind (basic_op (\<lambda>buf. Ret (print_line (''DELETE '' @ table @ '' '' @ key) buf)) db) (\<lambda>db. Ret (None, db))"

definition basic_BatchRead :: "basicDB \<Rightarrow> string \<Rightarrow> string list \<Rightarrow> string list \<Rightarrow> ((error + row option list) \<times> basicDB) go" where
  "basic_BatchRead db table ks fnames = Panic ''The basicDB has not implemented the batch operation''"

definition basic_BatchUpdate :: "basicDB \<Rightarrow> string \<Rightarrow> string list \<Rightarrow> row list \<Rightarrow> (error option \<times> basicDB) go" where
  "basic_BatchUpdate db table ks vals = Panic ''The basicDB has not implemented the batch operation''"

definition basic_BatchDelete :: "basicDB \<Rightarrow> string \<Rightarrow> string list \<Rightarrow> (error option \<times> basicDB) go" where
  "basic_BatchDelete db table ks = Panic ''The basicDB has not implemented the batch operation''"

definition basic_db :: "(int \<Rightarrow> rand) \<Rightarrow> basicDB db" where
  "basic_db seeds =
     \<lparr>db_Close = (\<lambda>d. Ret (basic_Close d)), db_InitThread = (\<lambda>d i n. Ret (basic_InitThread (seeds i) d)), db_CleanupThread = Ret,
      db_Read = basic_Read, db_Scan = basic_Scan, db_Update = basic_Update, db_Insert = basic_Insert, db_Delete = basic_Delete,
      db_Batch = Some \<lparr>db_BatchInsert = basic_BatchInsert, db_BatchRead = basic_BatchRead, db_BatchUpdate = basic_BatchUpdate, db_BatchDelete = basic_BatchDelete\<rparr>,
      db_Analyze = None, db_TypeName = ''*basic.basicDB''\<rparr>"

section \<open>What is printed\<close>

text \<open>The buffer is empty between operations.\<close>

definition basic_inv :: "basicDB \<Rightarrow> bool" where
  "basic_inv db \<longleftrightarrow> 0 \<le> bd_toDelay db \<and> (\<exists>r. bd_state db = Some \<lparr>bs_r = r, bs_buf = []\<rparr>)"

lemma basic_delay_ok: "0 \<le> bd_toDelay db \<Longrightarrow> \<exists>r'. basic_delay db \<lparr>bs_r = r, bs_buf = b\<rparr> = Ret \<lparr>bs_r = r', bs_buf = b\<rparr>"
  by (auto simp: basic_delay_def Int63n_def)

lemma basic_op_ok:
  assumes "basic_inv db" and "body [] = Ret (ls, [])"
  shows "\<exists>db'. basic_op body db = Ret db' \<and> basic_inv db' \<and> bd_verbose db' = bd_verbose db \<and> bd_out db' = bd_out db @ (if bd_verbose db then ls else [])"
proof -
  obtain r where r: "bd_state db = Some \<lparr>bs_r = r, bs_buf = []\<rparr>" "0 \<le> bd_toDelay db" using assms(1) by (auto simp: basic_inv_def)
  obtain r' where "basic_delay db \<lparr>bs_r = r, bs_buf = []\<rparr> = Ret \<lparr>bs_r = r', bs_buf = []\<rparr>" using basic_delay_ok [OF r(2)] by blast
  then show ?thesis using r assms(2) by (auto simp: basic_op_def basic_inv_def)
qed

lemma insert_records_lines:
  "length vals = length ks \<Longrightarrow> insert_records table ks vals [] = Ret (map (\<lambda>(k, v). ''INSERT '' @ table @ '' '' @ k @ '' [ '' @ values_text v @ '']'') (zip ks vals), [])"
  by (induction table ks vals "[] :: string" rule: insert_records.induct) (auto simp: insertRecord_def print_line_def)

text \<open>The line of an operation.\<close>

fun op_line :: "dbop \<Rightarrow> string" where
  "op_line (OpInsert t k v) = ''INSERT '' @ t @ '' '' @ k @ '' [ '' @ values_text v @ '']''"
| "op_line (OpUpdate t k v) = ''UPDATE '' @ t @ '' '' @ k @ '' [ '' @ values_text v @ '']''"
| "op_line (OpDelete t k) = ''DELETE '' @ t @ '' '' @ k"
| "op_line (OpRead t k fs) = ''READ '' @ t @ '' '' @ k @ '' [ '' @ fields_text fs @ '']''"

fun op_result :: "dbop \<Rightarrow> dbres" where
  "op_result (OpRead t k fs) = Row (Inr Map.empty)"
| "op_result _ = Done None"

lemma basic_exec:
  assumes "basic_inv db"
  shows "\<exists>db'. db_exec (basic_db seeds) op db = Ret (op_result op, db') \<and> basic_inv db' \<and> bd_verbose db' = bd_verbose db
    \<and> bd_out db' = bd_out db @ (if bd_verbose db then [op_line op] else [])"
  using basic_op_ok [OF assms, where body = "\<lambda>buf. Ret (print_line (op_line op) buf)" and ls = "[op_line op]"]
  by (cases op) (auto simp: basic_db_def basic_Insert_def basic_Update_def basic_Delete_def basic_Read_def insertRecord_def print_line_def map_res_def)

text \<open>A run prints exactly one line for each operation, in their order, and every operation succeeds.\<close>

lemma basic_run:
  assumes "basic_inv db"
  shows "\<exists>db'. db_run (basic_db seeds) ops db = Ret (map op_result ops, db') \<and> basic_inv db' \<and> bd_verbose db' = bd_verbose db
    \<and> bd_out db' = bd_out db @ (if bd_verbose db then map op_line ops else [])"
  using assms
proof (induction ops arbitrary: db)
  case (Cons op ops)
  obtain db1 where "db_exec (basic_db seeds) op db = Ret (op_result op, db1)" "basic_inv db1" "bd_verbose db1 = bd_verbose db"
    "bd_out db1 = bd_out db @ (if bd_verbose db then [op_line op] else [])" using basic_exec [OF Cons.prems] by blast
  with Cons.IH [of db1] show ?case by auto
qed simp

end
