(* ===== verification/MainProg.thy ===== *)
theory MainProg
  imports App Basic
begin

text \<open>
  The start and the end of the process. First the registration of databases and workloads by the \<open>init\<close> functions of the packages that \<^verbatim>\<open>cmd/go-ycsb/main.go\<close> imports, then \<open>main\<close> with its goroutine for
  signals as a step relation: the channel of signals, the cancellation of the context, the limit of ten seconds, and the closing of database and workload after the command.
\<close>

section \<open>Registration\<close>

text \<open>The creators, with the constructors of the source; the one for MySQL carries its name.\<close>

datatype creator = AerospikeCreator | BadgerCreator | BasicDBCreator | BoltCreator | CassandraCreator | DynamoDbCreator | ElasticCreator | EtcdCreator | FdbCreator
  | MinioCreator | MongodbCreator | MysqlCreator string | PegasusCreator | PgCreator | RedisCreator | RocksDBCreator | S3Creator | SpannerCreator | SqliteCreator | TikvCreator

datatype package = Pkg_aerospike | Pkg_badger | Pkg_basic | Pkg_boltdb | Pkg_cassandra | Pkg_dynamodb | Pkg_elasticsearch | Pkg_etcd | Pkg_foundationdb
  | Pkg_minio | Pkg_mongodb | Pkg_mysql | Pkg_pegasus | Pkg_pg | Pkg_redis | Pkg_rocksdb | Pkg_s3 | Pkg_spanner | Pkg_sqlite | Pkg_tikv

type_synonym registrations = "(string \<times> creator) list"

text \<open>For each package the calls of \<open>RegisterDBCreator\<close> that its \<open>init\<close> makes, in their order.\<close>

definition aerospike_init :: registrations where "aerospike_init = [(''aerospike'', AerospikeCreator)]"
definition badger_init :: registrations where "badger_init = [(''badger'', BadgerCreator)]"
definition basic_init :: registrations where "basic_init = [(''basic'', BasicDBCreator)]"
definition bolt_init :: registrations where "bolt_init = [(''boltdb'', BoltCreator)]"
definition cassandra_init :: registrations where "cassandra_init = [(''cassandra'', CassandraCreator), (''scylla'', CassandraCreator)]"
definition dynamo_init :: registrations where "dynamo_init = [(''dynamodb'', DynamoDbCreator)]"
definition elastic_init :: registrations where "elastic_init = [(''elastic'', ElasticCreator)]"
definition etcd_init :: registrations where "etcd_init = [(''etcd'', EtcdCreator)]"
definition fdb_init :: registrations where "fdb_init = [(''fdb'', FdbCreator), (''foundationdb'', FdbCreator)]"
definition minio_init :: registrations where "minio_init = [(''minio'', MinioCreator)]"
definition mongo_init :: registrations where "mongo_init = [(''mongodb'', MongodbCreator)]"
definition mysql_init :: registrations where
  "mysql_init = [(''mysql'', MysqlCreator ''mysql''), (''tidb'', MysqlCreator ''tidb''), (''mariadb'', MysqlCreator ''mariadb'')]"
definition pegasus_init :: registrations where "pegasus_init = [(''pegasus'', PegasusCreator)]"
definition pg_init :: registrations where "pg_init = [(''pg'', PgCreator), (''postgresql'', PgCreator), (''cockroach'', PgCreator), (''cdb'', PgCreator)]"
definition redis_init :: registrations where "redis_init = [(''redis'', RedisCreator)]"
definition rocks_init :: registrations where "rocks_init = [(''rocksdb'', RocksDBCreator)]"
definition s3_init :: registrations where "s3_init = [(''s3'', S3Creator)]"
definition spanner_init :: registrations where "spanner_init = [(''spanner'', SpannerCreator)]"
definition sqlite_init :: registrations where "sqlite_init = [(''sqlite'', SqliteCreator)]"
definition tikv_init :: registrations where "tikv_init = [(''tikv'', TikvCreator)]"

lemmas init_defs = aerospike_init_def badger_init_def basic_init_def bolt_init_def cassandra_init_def dynamo_init_def elastic_init_def etcd_init_def fdb_init_def minio_init_def
  mongo_init_def mysql_init_def pegasus_init_def pg_init_def redis_init_def rocks_init_def s3_init_def spanner_init_def sqlite_init_def tikv_init_def

fun package_init :: "package \<Rightarrow> registrations" where
  "package_init Pkg_aerospike = aerospike_init" | "package_init Pkg_badger = badger_init" | "package_init Pkg_basic = basic_init" | "package_init Pkg_boltdb = bolt_init"
| "package_init Pkg_cassandra = cassandra_init" | "package_init Pkg_dynamodb = dynamo_init" | "package_init Pkg_elasticsearch = elastic_init" | "package_init Pkg_etcd = etcd_init"
| "package_init Pkg_foundationdb = fdb_init" | "package_init Pkg_minio = minio_init" | "package_init Pkg_mongodb = mongo_init" | "package_init Pkg_mysql = mysql_init"
| "package_init Pkg_pegasus = pegasus_init" | "package_init Pkg_pg = pg_init" | "package_init Pkg_redis = redis_init" | "package_init Pkg_rocksdb = rocks_init"
| "package_init Pkg_s3 = s3_init" | "package_init Pkg_spanner = spanner_init" | "package_init Pkg_sqlite = sqlite_init" | "package_init Pkg_tikv = tikv_init"

fun register_all :: "registrations \<Rightarrow> creator smap \<Rightarrow> creator smap go" where
  "register_all [] cs = Ret cs"
| "register_all ((name, c) # rs) cs = gbind (RegisterDBCreator cs name c) (register_all rs)"

text \<open>The packages of a build, in the order in which the runtime initialises them. RocksDB, SQLite and FoundationDB take part only with their build tags.\<close>

fun init_packages :: "package list \<Rightarrow> creator smap \<Rightarrow> creator smap go" where
  "init_packages [] cs = Ret cs"
| "init_packages (p # ps) cs = gbind (register_all (package_init p) cs) (init_packages ps)"

definition core_init :: "'c \<Rightarrow> 'c smap \<Rightarrow> 'c smap go" where
  "core_init coreCreator cs = gbind (RegisterWorkloadCreator cs ''core'' coreCreator) (\<lambda>cs. RegisterWorkloadCreator cs ''site.ycsb.workloads.CoreWorkload'' coreCreator)"

text \<open>No two packages register the same name.\<close>

lemma package_init_names:
  "distinct (map fst (package_init p))"
  "(n, c) \<in> set (package_init p) \<Longrightarrow> (n, c') \<in> set (package_init q) \<Longrightarrow> p = q"
  by (cases p; simp add: init_defs) (cases p; cases q; auto simp: init_defs)

lemma package_names_disjoint: "p \<noteq> q \<Longrightarrow> fst ` set (package_init p) \<inter> fst ` set (package_init q) = {}"
  using package_init_names(2) by auto

lemma register_all_ok:
  assumes "distinct (map fst rs)" and "\<forall>n\<in>fst ` set rs. GetDBCreator cs n = None"
  shows "\<exists>cs'. register_all rs cs = Ret cs' \<and> GetDBCreator cs' = GetDBCreator cs ++ map_of rs"
  using assms
proof (induction rs arbitrary: cs)
  case (Cons r rs)
  obtain n c where r: "r = (n, c)" by (cases r)
  then have reg: "RegisterDBCreator cs n c = Ret (AList.update n c cs)" using Cons.prems(2) by (simp add: RegisterDBCreator_def GetDBCreator_def)
  have g: "GetDBCreator (AList.update n c cs) = (GetDBCreator cs)(n \<mapsto> c)" by (simp add: GetDBCreator_def fun_eq_iff update_conv')
  have "\<forall>m\<in>fst ` set rs. GetDBCreator (AList.update n c cs) m = None" using Cons.prems r g by auto
  then have "\<exists>cs'. register_all rs (AList.update n c cs) = Ret cs' \<and> GetDBCreator cs' = GetDBCreator (AList.update n c cs) ++ map_of rs"
    using Cons.IH [of "AList.update n c cs"] Cons.prems(1) by simp
  then obtain cs' where "register_all rs (AList.update n c cs) = Ret cs'" "GetDBCreator cs' = (GetDBCreator cs)(n \<mapsto> c) ++ map_of rs" unfolding g by blast
  moreover have "n \<notin> fst ` set rs" using Cons.prems(1) r by auto
  ultimately show ?case using reg r by (auto simp: fun_eq_iff map_add_def map_of_eq_None_iff split: option.splits)
qed (simp add: GetDBCreator_def)

lemma init_packages_ok:
  assumes "distinct ps" and "\<forall>p\<in>set ps. \<forall>n\<in>fst ` set (package_init p). GetDBCreator cs n = None"
  shows "\<exists>cs'. init_packages ps cs = Ret cs' \<and> (\<forall>n c. GetDBCreator cs' n = Some c \<longleftrightarrow> GetDBCreator cs n = Some c \<or> (\<exists>p\<in>set ps. (n, c) \<in> set (package_init p)))"
  using assms
proof (induction ps arbitrary: cs)
  case (Cons p ps)
  have new: "\<forall>n\<in>fst ` set (package_init p). GetDBCreator cs n = None" using Cons.prems(2) by (meson list.set_intros(1))
  obtain cs1 where 1: "register_all (package_init p) cs = Ret cs1" "GetDBCreator cs1 = GetDBCreator cs ++ map_of (package_init p)"
    using register_all_ok [OF package_init_names(1) new] by blast
  have "GetDBCreator cs1 n = None" if q: "q \<in> set ps" and n: "n \<in> fst ` set (package_init q)" for q n
  proof -
    have "q \<noteq> p" using q Cons.prems(1) by auto
    then have "n \<notin> fst ` set (package_init p)" using n package_names_disjoint [of q p] by blast
    then have "map_of (package_init p) n = None" by (simp add: map_of_eq_None_iff)
    moreover have "GetDBCreator cs n = None" using Cons.prems(2) q n by (meson list.set_intros(2))
    ultimately show ?thesis unfolding 1(2) by (simp add: map_add_def)
  qed
  then have rest: "\<forall>p\<in>set ps. \<forall>n\<in>fst ` set (package_init p). GetDBCreator cs1 n = None" by (intro ballI)
  have "distinct ps" using Cons.prems(1) by simp
  from Cons.IH [OF this rest] obtain cs' where "init_packages ps cs1 = Ret cs'"
    "\<forall>n c. GetDBCreator cs' n = Some c \<longleftrightarrow> GetDBCreator cs1 n = Some c \<or> (\<exists>p\<in>set ps. (n, c) \<in> set (package_init p))" by (elim exE conjE)
  moreover have "GetDBCreator cs1 n = Some c \<longleftrightarrow> GetDBCreator cs n = Some c \<or> (n, c) \<in> set (package_init p)" for n c
  proof -
    have "map_of (package_init p) n = Some c \<longleftrightarrow> (n, c) \<in> set (package_init p)" using package_init_names(1) by (rule map_of_eq_Some_iff)
    moreover have "map_of (package_init p) n = None" if "GetDBCreator cs n = Some c" using that new unfolding map_of_eq_None_iff by force
    ultimately show ?thesis unfolding 1(2) map_add_Some_iff by blast
  qed
  ultimately show ?case using 1(1) by simp
qed simp

text \<open>
  Whatever the order in which the packages are initialised and whatever the build tags, no registration panics, and every name leads to the creator that its package registers for it and no other name to any.
\<close>

lemma packages_register:
  assumes "distinct ps"
  shows "\<exists>cs. init_packages ps [] = Ret cs \<and> (\<forall>n c. GetDBCreator cs n = Some c \<longleftrightarrow> (\<exists>p\<in>set ps. (n, c) \<in> set (package_init p)))"
  using init_packages_ok [OF assms, of "[]"] by (simp add: GetDBCreator_def)

lemma core_registers:
  "\<exists>cs. core_init w [] = Ret cs \<and> GetWorkloadCreator cs ''core'' = Some w \<and> GetWorkloadCreator cs ''site.ycsb.workloads.CoreWorkload'' = Some w"
  by (simp add: core_init_def RegisterWorkloadCreator_def GetWorkloadCreator_def)

section \<open>The process\<close>

text \<open>
  The goroutine for signals waits for the first signal, has received it, is in its \<open>select\<close> since a number of seconds, or has returned. \<open>main\<close> executes the command, then cancels the context, closes the
  database and the workload, and sends on \<open>closeDone\<close>.
\<close>

datatype handler_pc = HWait | HGot | HSelect nat | HReturned

datatype main_pc = MExecute | MCancel | MCloseDB | MCloseWorkload | MSend | MReturn

text \<open>Both channels have a buffer of one element. The exit code is set when the process has ended.\<close>

record 'd process =
  p_sc :: nat
  p_closeDone :: nat
  p_cancelled :: bool
  p_handler :: handler_pc
  p_main :: main_pc
  p_globalDB :: "'d option"
  p_globalWorkload :: "core option"
  p_exit :: "int option"

definition main_start :: "'d process" where
  "main_start = \<lparr>p_sc = 0, p_closeDone = 0, p_cancelled = False, p_handler = HWait, p_main = MExecute, p_globalDB = None, p_globalWorkload = None, p_exit = None\<rparr>"

definition core_Close :: "core \<Rightarrow> error option" where
  "core_Close c = None"

text \<open>
  What an observer of the process sees. \<open>Fatal\<close> is the end of the process by a command or by closing the database.
\<close>

datatype event = Signal | Second | Executed | DBClosed | WorkloadClosed | Fatal | Internal

text \<open>
  The steps. A signal that finds its channel full is dropped. \<open>cmd\<close> holds for the globals with which \<open>rootCmd.Execute\<close> may return.
\<close>

inductive main_step :: "'d db \<Rightarrow> ('d option \<Rightarrow> core option \<Rightarrow> bool) \<Rightarrow> 'd process \<Rightarrow> event \<Rightarrow> 'd process \<Rightarrow> bool" for D cmd where
  signal: "p_exit s = None \<Longrightarrow> main_step D cmd s Signal (s\<lparr>p_sc := 1\<rparr>)"
| second: "p_exit s = None \<Longrightarrow> p_handler s = HSelect n \<Longrightarrow> main_step D cmd s Second (s\<lparr>p_handler := HSelect (Suc n)\<rparr>)"
| receive: "p_exit s = None \<Longrightarrow> p_handler s = HWait \<Longrightarrow> 0 < p_sc s \<Longrightarrow> main_step D cmd s Internal (s\<lparr>p_sc := p_sc s - 1, p_handler := HGot\<rparr>)"
| cancel: "p_exit s = None \<Longrightarrow> p_handler s = HGot \<Longrightarrow> main_step D cmd s Internal (s\<lparr>p_cancelled := True, p_handler := HSelect 0\<rparr>)"
| again: "p_exit s = None \<Longrightarrow> p_handler s = HSelect n \<Longrightarrow> 0 < p_sc s \<Longrightarrow> main_step D cmd s Internal (s\<lparr>p_sc := p_sc s - 1, p_exit := Some 1\<rparr>)"
| timeout: "p_exit s = None \<Longrightarrow> p_handler s = HSelect n \<Longrightarrow> 10 \<le> n \<Longrightarrow> main_step D cmd s Internal (s\<lparr>p_exit := Some 1\<rparr>)"
| close_done: "p_exit s = None \<Longrightarrow> p_handler s = HSelect n \<Longrightarrow> 0 < p_closeDone s \<Longrightarrow>
    main_step D cmd s Internal (s\<lparr>p_closeDone := p_closeDone s - 1, p_handler := HReturned\<rparr>)"
| execute: "p_exit s = None \<Longrightarrow> p_main s = MExecute \<Longrightarrow> cmd g w \<Longrightarrow> main_step D cmd s Executed (s\<lparr>p_globalDB := g, p_globalWorkload := w, p_main := MCancel\<rparr>)"
| command_dies: "p_exit s = None \<Longrightarrow> p_main s = MExecute \<Longrightarrow> code \<in> {1, 2} \<Longrightarrow> main_step D cmd s Fatal (s\<lparr>p_exit := Some code\<rparr>)"
| main_cancel: "p_exit s = None \<Longrightarrow> p_main s = MCancel \<Longrightarrow> main_step D cmd s Internal (s\<lparr>p_cancelled := True, p_main := MCloseDB\<rparr>)"
| no_db: "p_exit s = None \<Longrightarrow> p_main s = MCloseDB \<Longrightarrow> p_globalDB s = None \<Longrightarrow> main_step D cmd s Internal (s\<lparr>p_main := MCloseWorkload\<rparr>)"
| close_db: "p_exit s = None \<Longrightarrow> p_main s = MCloseDB \<Longrightarrow> p_globalDB s = Some d \<Longrightarrow> db_Close D d = Ret (err, d') \<Longrightarrow>
    main_step D cmd s DBClosed (s\<lparr>p_globalDB := Some d', p_main := MCloseWorkload\<rparr>)"
| close_panics: "p_exit s = None \<Longrightarrow> p_main s = MCloseDB \<Longrightarrow> p_globalDB s = Some d \<Longrightarrow> db_Close D d = Panic msg \<Longrightarrow> main_step D cmd s Fatal (s\<lparr>p_exit := Some 2\<rparr>)"
| close_exits: "p_exit s = None \<Longrightarrow> p_main s = MCloseDB \<Longrightarrow> p_globalDB s = Some d \<Longrightarrow> db_Close D d = Exit msg \<Longrightarrow> main_step D cmd s Fatal (s\<lparr>p_exit := Some 1\<rparr>)"
| no_workload: "p_exit s = None \<Longrightarrow> p_main s = MCloseWorkload \<Longrightarrow> p_globalWorkload s = None \<Longrightarrow> main_step D cmd s Internal (s\<lparr>p_main := MSend\<rparr>)"
| close_workload: "p_exit s = None \<Longrightarrow> p_main s = MCloseWorkload \<Longrightarrow> p_globalWorkload s = Some c \<Longrightarrow> core_Close c = err \<Longrightarrow>
    main_step D cmd s WorkloadClosed (s\<lparr>p_main := MSend\<rparr>)"
| send: "p_exit s = None \<Longrightarrow> p_main s = MSend \<Longrightarrow> p_closeDone s < 1 \<Longrightarrow> main_step D cmd s Internal (s\<lparr>p_closeDone := p_closeDone s + 1, p_main := MReturn\<rparr>)"
| return: "p_exit s = None \<Longrightarrow> p_main s = MReturn \<Longrightarrow> main_step D cmd s Internal (s\<lparr>p_exit := Some 0\<rparr>)"

inductive main_run :: "'d db \<Rightarrow> ('d option \<Rightarrow> core option \<Rightarrow> bool) \<Rightarrow> 'd process \<Rightarrow> event list \<Rightarrow> 'd process \<Rightarrow> bool" for D cmd s where
  start: "main_run D cmd s [] s"
| step: "main_run D cmd s evs s1 \<Longrightarrow> main_step D cmd s1 e s2 \<Longrightarrow> main_run D cmd s (evs @ [e]) s2"

inductive_cases main_stepE: "main_step D cmd s e s'"

lemma main_run1: "main_step D cmd s e s' \<Longrightarrow> main_run D cmd s [e] s'"
  using main_run.step [OF main_run.start] by simp

lemma main_run_trans: "main_run D cmd s evs s1 \<Longrightarrow> main_run D cmd s1 evs' s2 \<Longrightarrow> main_run D cmd s (evs @ evs') s2"
  by (rotate_tac 1, induction rule: main_run.induct) (auto simp flip: append_assoc intro: main_run.step)

section \<open>How the process ends\<close>

text \<open>
  The invariants of the states that are reached with the events \<open>evs\<close>: of the goroutine for signals, of the cancellation, and of \<open>main\<close>.
\<close>

definition handler_inv :: "event list \<Rightarrow> 'd process \<Rightarrow> bool" where
  "handler_inv evs s \<longleftrightarrow> p_sc s \<le> 1 \<and> p_sc s \<le> count_list evs Signal \<and> (p_handler s \<noteq> HWait \<longrightarrow> p_sc s + 1 \<le> count_list evs Signal)
     \<and> (\<forall>n. p_handler s = HSelect n \<longrightarrow> n \<le> count_list evs Second)
     \<and> (p_exit s = Some 1 \<longrightarrow> 2 \<le> count_list evs Signal \<or> (1 \<le> count_list evs Signal \<and> 10 \<le> count_list evs Second) \<or> Fatal \<in> set evs)"

definition cancel_inv :: "event list \<Rightarrow> 'd process \<Rightarrow> bool" where
  "cancel_inv evs s \<longleftrightarrow> (p_cancelled s \<longrightarrow> Signal \<in> set evs \<or> Executed \<in> set evs) \<and> (p_handler s \<noteq> HWait \<longrightarrow> Signal \<in> set evs)
     \<and> (p_main s \<noteq> MExecute \<longrightarrow> Executed \<in> set evs) \<and> (p_main s \<notin> {MExecute, MCancel} \<longrightarrow> p_cancelled s)
     \<and> (p_handler s \<in> {HWait, HGot} \<or> p_cancelled s)
     \<and> (Signal \<in> set evs \<longrightarrow> p_cancelled s \<or> p_handler s = HGot \<or> (p_handler s = HWait \<and> p_sc s = 1))"

definition closings :: "event list \<Rightarrow> event list" where
  "closings evs = filter (\<lambda>e. e \<in> {DBClosed, WorkloadClosed}) evs"

definition db_closing :: "'d process \<Rightarrow> event list" where
  "db_closing s = (if p_globalDB s = None then [] else [DBClosed])"

definition workload_closing :: "'d process \<Rightarrow> event list" where
  "workload_closing s = (if p_globalWorkload s = None then [] else [WorkloadClosed])"

definition main_inv :: "event list \<Rightarrow> 'd process \<Rightarrow> bool" where
  "main_inv evs s \<longleftrightarrow> (p_main s \<noteq> MReturn \<longrightarrow> p_closeDone s = 0 \<and> p_exit s \<noteq> Some 0 \<and> p_handler s \<noteq> HReturned)
     \<and> closings evs = (case p_main s of MExecute \<Rightarrow> [] | MCancel \<Rightarrow> [] | MCloseDB \<Rightarrow> [] | MCloseWorkload \<Rightarrow> db_closing s | _ \<Rightarrow> db_closing s @ workload_closing s)"

lemmas process_inv_defs = handler_inv_def cancel_inv_def main_inv_def closings_def db_closing_def workload_closing_def

lemma in_set_count: "x \<in> set xs \<longleftrightarrow> 0 < count_list xs x"
  using count_list_0_iff [of xs x] by auto

lemma handler_inv_step: "handler_inv evs s \<Longrightarrow> main_step D cmd s e s' \<Longrightarrow> handler_inv (evs @ [e]) s'"
  by (erule main_stepE) (auto simp: handler_inv_def)

lemma cancel_inv_step: "handler_inv evs s \<Longrightarrow> cancel_inv evs s \<Longrightarrow> main_step D cmd s e s' \<Longrightarrow> cancel_inv (evs @ [e]) s'"
  by (erule main_stepE) (auto simp: handler_inv_def cancel_inv_def in_set_count)

lemma main_inv_step: "main_inv evs s \<Longrightarrow> main_step D cmd s e s' \<Longrightarrow> main_inv (evs @ [e]) s'"
  by (erule main_stepE) (auto simp: main_inv_def closings_def db_closing_def workload_closing_def split: main_pc.splits)

lemma process_invs:
  assumes "main_run D cmd main_start evs s"
  shows "handler_inv evs s \<and> cancel_inv evs s \<and> main_inv evs s"
  using assms
proof (induction rule: main_run.induct)
  case start
  show ?case by (simp add: process_inv_defs main_start_def)
next
  case (step evs s1 e s2)
  then show ?case using handler_inv_step cancel_inv_step main_inv_step by blast
qed

text \<open>Once the command has returned, \<open>main\<close> alone ends the process: sending on \<open>closeDone\<close> never blocks.\<close>

lemma main_ended: "main_run D cmd s evs' s' \<Longrightarrow> p_exit s' = Some 0 \<Longrightarrow> \<exists>evs' s'. main_run D cmd s evs' s' \<and> p_exit s' = Some 0"
  by blast

lemma main_ends_from_send:
  assumes "p_exit s = None" and "p_main s = MSend" and "p_closeDone s = 0"
  shows "\<exists>evs' s'. main_run D cmd s evs' s' \<and> p_exit s' = Some 0"
proof -
  let ?s = "s\<lparr>p_closeDone := p_closeDone s + 1, p_main := MReturn\<rparr>"
  have "main_run D cmd s [Internal] ?s" using assms by (intro main_run1 main_step.send) simp_all
  moreover have "main_step D cmd ?s Internal (?s\<lparr>p_exit := Some 0\<rparr>)" using assms by (intro main_step.return) simp_all
  ultimately have "main_run D cmd s ([Internal] @ [Internal]) (?s\<lparr>p_exit := Some 0\<rparr>)" by (rule main_run.step)
  then show ?thesis by (rule main_ended) simp
qed

lemma main_ends_after:
  assumes "main_step D cmd s e s1" and "\<exists>evs' s'. main_run D cmd s1 evs' s' \<and> p_exit s' = Some 0"
  shows "\<exists>evs' s'. main_run D cmd s evs' s' \<and> p_exit s' = Some 0"
  using main_run_trans [OF main_run1 [OF assms(1)]] assms(2) by blast

lemma main_ends_from_workload:
  assumes "p_exit s = None" and "p_main s = MCloseWorkload" and "p_closeDone s = 0"
  shows "\<exists>evs' s'. main_run D cmd s evs' s' \<and> p_exit s' = Some 0"
proof (cases "p_globalWorkload s")
  case None
  show ?thesis by (rule main_ends_after [OF main_step.no_workload [OF assms(1,2) None]], rule main_ends_from_send) (simp_all add: assms)
next
  case (Some c)
  show ?thesis by (rule main_ends_after [OF main_step.close_workload [OF assms(1,2) Some refl]], rule main_ends_from_send) (simp_all add: assms)
qed

lemma main_ends_from_db:
  assumes "p_exit s = None" and "p_main s = MCloseDB" and "p_closeDone s = 0" and "\<And>d. \<exists>r. db_Close D d = Ret r"
  shows "\<exists>evs' s'. main_run D cmd s evs' s' \<and> p_exit s' = Some 0"
proof (cases "p_globalDB s")
  case None
  show ?thesis by (rule main_ends_after [OF main_step.no_db [OF assms(1,2) None]], rule main_ends_from_workload) (simp_all add: assms)
next
  case (Some d)
  obtain err d' where "db_Close D d = Ret (err, d')" using assms(4) [of d] by auto
  from main_step.close_db [OF assms(1,2) Some this] show ?thesis by (rule main_ends_after, intro main_ends_from_workload) (simp_all add: assms(1-3))
qed

lemma main_ends:
  assumes "main_inv evs s" and "p_exit s = None" and "p_main s \<noteq> MExecute" and "\<And>d. \<exists>r. db_Close D d = Ret r"
  shows "\<exists>evs' s'. main_run D cmd s evs' s' \<and> p_exit s' = Some 0"
proof (cases "p_main s")
  case MCancel
  have "p_closeDone s = 0" using assms(1) MCancel by (simp add: main_inv_def)
  then show ?thesis by (intro main_ends_after [OF main_step.main_cancel [OF assms(2) MCancel]] main_ends_from_db) (use assms(2,4) in simp_all)
next
  case MReturn
  show ?thesis by (rule main_ended [OF main_run1 [OF main_step.return [OF assms(2) MReturn]]]) simp
next
  case MCloseDB
  then show ?thesis using assms by (intro main_ends_from_db) (auto simp: main_inv_def)
next
  case MCloseWorkload
  then show ?thesis using assms(1,2) by (intro main_ends_from_workload) (auto simp: main_inv_def)
next
  case MSend
  then show ?thesis using assms(1,2) by (intro main_ends_from_send) (auto simp: main_inv_def)
qed (use assms(3) in simp)

lemma signal_cancels:
  assumes "cancel_inv evs s" and "Signal \<in> set evs" and "p_exit s = None"
  shows "\<exists>n s'. main_run D cmd s (replicate n Internal) s' \<and> n \<le> 2 \<and> p_cancelled s'"
proof -
  have got: "\<exists>s'. main_run D cmd s1 [Internal] s' \<and> p_cancelled s'" if "p_exit s1 = None" "p_handler s1 = HGot" for s1 :: "'a process"
    using main_run1 [OF main_step.cancel [OF that], of D cmd] by (intro exI conjI, assumption) simp
  consider "p_cancelled s" | "p_handler s = HGot" | "p_handler s = HWait" "p_sc s = 1" using assms(1,2) by (auto simp: cancel_inv_def)
  then show ?thesis
  proof cases
    case 1
    then show ?thesis using main_run.start [of D cmd s] by (intro exI [of _ 0] exI [of _ s]) simp
  next
    case 2
    then show ?thesis using got [OF assms(3)] by (auto intro!: exI [of _ 1])
  next
    case 3
    let ?s = "s\<lparr>p_sc := p_sc s - 1, p_handler := HGot\<rparr>"
    have "main_run D cmd s [Internal] ?s" using 3 assms(3) by (intro main_run1 main_step.receive) simp_all
    moreover obtain s' where "main_run D cmd ?s [Internal] s'" "p_cancelled s'" using got [of ?s] assms(3) by auto
    ultimately show ?thesis using main_run_trans by (fastforce intro!: exI [of _ 2] simp: numeral_2_eq_2)
  qed
qed


text \<open>A run over the database that prints: a signal arrives while the command executes, and the command returns with the database open.\<close>

definition sample_basic :: basicDB where
  "sample_basic = \<lparr>bd_verbose = False, bd_randomizeDelay = False, bd_toDelay = 0, bd_state = None, bd_out = []\<rparr>"

definition sample_process :: "basicDB process" where
  "sample_process = main_start\<lparr>p_cancelled := True, p_handler := HSelect 0, p_main := MCancel, p_globalDB := Some sample_basic\<rparr>"

lemma sample_run:
  "main_run (basic_db (\<lambda>i. \<lambda>k. 0)) (\<lambda>g w. g = Some sample_basic \<and> w = None) main_start [Signal, Internal, Internal, Executed] sample_process"
proof -
  let ?step = "main_step (basic_db (\<lambda>i. \<lambda>k. 0)) (\<lambda>g w. g = Some sample_basic \<and> w = None)" and ?run = "main_run (basic_db (\<lambda>i. \<lambda>k. 0)) (\<lambda>g w. g = Some sample_basic \<and> w = None)"
  let ?s1 = "main_start\<lparr>p_sc := 1\<rparr> :: basicDB process" and ?s2 = "main_start\<lparr>p_handler := HGot\<rparr> :: basicDB process"
  let ?s3 = "main_start\<lparr>p_cancelled := True, p_handler := HSelect 0\<rparr> :: basicDB process"
  have 1: "?run main_start [Signal] ?s1" by (intro main_run1 main_step.signal) (simp add: main_start_def)
  have "?step ?s1 Internal (?s1\<lparr>p_sc := p_sc ?s1 - 1, p_handler := HGot\<rparr>)" by (rule main_step.receive) (simp_all add: main_start_def)
  then have "?step ?s1 Internal ?s2" by (simp add: main_start_def)
  from main_run.step [OF 1 this] have 2: "?run main_start [Signal, Internal] ?s2" by simp
  have "?step ?s2 Internal (?s2\<lparr>p_cancelled := True, p_handler := HSelect 0\<rparr>)" by (rule main_step.cancel) (simp_all add: main_start_def)
  from main_run.step [OF 2 this] have 3: "?run main_start [Signal, Internal, Internal] ?s3" by (simp add: main_start_def)
  have "?step ?s3 Executed (?s3\<lparr>p_globalDB := Some sample_basic, p_globalWorkload := None, p_main := MCancel\<rparr>)" by (rule main_step.execute) (simp_all add: main_start_def)
  from main_run.step [OF 3 this] show ?thesis by (simp add: main_start_def sample_process_def)
qed


end
