(* ===== verification/Dump.thy ===== *)
theory Dump
  imports DocStore
begin

text \<open>
  The stand-alone program \<^verbatim>\<open>readBadgerData.go\<close>, which prints the first entries of a Badger directory. Opening the directory and the entries that the iterator delivers are parameters; the wording of the messages is left out.
\<close>

section \<open>The program\<close>

text \<open>An entry as the iterator delivers it: the key, the size of the value, and the value or the error of reading it.\<close>

record dump_item =
  di_Key :: string
  di_ValueSize :: int
  di_Value :: "error + byte list"

datatype dump_line = Opening int | Rule | Entry int string int string | Total int

definition value_preview :: "byte list \<Rightarrow> string" where
  "value_preview val = (let valStr = util_String val in if 30 < length valStr then take 30 valStr @ ''...'' else valStr)"

text \<open>The loop returns the printed lines and the final count, or the error.\<close>

fun dump_loop :: "int \<Rightarrow> int \<Rightarrow> dump_item list \<Rightarrow> dump_line list \<times> (error + int)" where
  "dump_loop limit cnt [] = ([], Inr cnt)"
| "dump_loop limit cnt (item # items) =
     (if limit \<le> cnt then ([], Inr cnt)
      else case di_Value item of
             Inl err \<Rightarrow> ([], Inl err)
           | Inr val \<Rightarrow>
               (let (ls, res) = dump_loop limit (cnt + 1) items in
                (Entry (cnt + 1) (di_Key item) (di_ValueSize item) (value_preview val) # ls, res)))"

text \<open>The lines that are printed, and the error that ends the process, if there is one.\<close>

definition dump_main :: "(string \<Rightarrow> error + dump_item list) \<Rightarrow> int \<Rightarrow> dump_line list \<times> error option" where
  "dump_main Open limit =
     (case Open ''./zzl_badger_data'' of
        Inl err \<Rightarrow> ([Opening limit], Some err)
      | Inr items \<Rightarrow>
          (case dump_loop limit 0 items of
             (ls, Inl err) \<Rightarrow> ([Opening limit, Rule] @ ls, Some err)
           | (ls, Inr n) \<Rightarrow> ([Opening limit, Rule] @ ls @ [Rule, Total n], None)))"

section \<open>What is printed\<close>

lemma length_value_preview: "length (value_preview val) \<le> 33"
  by (simp add: value_preview_def Let_def)

lemma value_preview_short: "length val \<le> 30 \<Longrightarrow> value_preview val = util_String val"
  by (simp add: value_preview_def util_String_def)

lemma dump_loop_entries:
  assumes "\<forall>item\<in>set (take (nat (limit - cnt)) items). \<exists>val. di_Value item = Inr val"
  shows "dump_loop limit cnt items =
    (map (\<lambda>(i, item). Entry (cnt + 1 + int i) (di_Key item) (di_ValueSize item) (value_preview (projr (di_Value item)))) (enumerate 0 (take (nat (limit - cnt)) items)),
     Inr (cnt + int (length (take (nat (limit - cnt)) items))))"
  using assms
proof (induction items arbitrary: cnt)
  case (Cons item items)
  show ?case
  proof (cases "limit \<le> cnt")
    case False
    then have n: "nat (limit - cnt) = Suc (nat (limit - (cnt + 1)))" by simp
    with Cons.prems obtain val where v: "di_Value item = Inr val" by auto
    have "\<forall>item\<in>set (take (nat (limit - (cnt + 1))) items). \<exists>val. di_Value item = Inr val" using Cons.prems n by simp
    from Cons.IH [OF this] show ?thesis using False v
      by (simp add: n enumerate_Suc_eq comp_def split_beta del: enumerate_simps(2)) (simp add: enumerate_eq_zip zip_map1 upt_conv_Cons map_Suc_upt [symmetric] split_beta del: upt_Suc map_Suc_upt)
  qed simp
qed simp

text \<open>When the values can be read, exactly the first \<open>limit\<close> entries are printed, in their order and numbered from 1, and their number is reported.\<close>

lemma dump_prints_first_entries:
  assumes "Open ''./zzl_badger_data'' = Inr items" and "\<forall>item\<in>set (take (nat limit) items). \<exists>val. di_Value item = Inr val"
  shows "\<exists>es. dump_main Open limit = ([Opening limit, Rule] @ es @ [Rule, Total (int (length es))], None) \<and> length es = min (nat limit) (length items)
    \<and> (\<forall>i < length es. \<exists>val. di_Value (items ! i) = Inr val \<and> es ! i = Entry (int i + 1) (di_Key (items ! i)) (di_ValueSize (items ! i)) (value_preview val))"
proof -
  have v: "\<exists>val. di_Value (items ! i) = Inr val" if "i < nat limit" "i < length items" for i
  proof -
    have "items ! i \<in> set (take (nat limit) items)" using that by (auto simp: in_set_conv_nth intro: exI [of _ i])
    then show ?thesis using assms(2) by blast
  qed
  let ?es = "map (\<lambda>(i, item). Entry (0 + 1 + int i) (di_Key item) (di_ValueSize item) (value_preview (projr (di_Value item)))) (enumerate 0 (take (nat limit) items))"
  have "dump_loop limit 0 items = (?es, Inr (int (length ?es)))" using dump_loop_entries [of limit 0 items] assms(2) by simp
  then show ?thesis using assms(1) v by (intro exI [of _ ?es]) (fastforce simp: dump_main_def nth_enumerate_eq)
qed

end
