(* ===== verification/Spec2Isabelle.thy ===== *)
theory Spec2Isabelle
  imports AckConcurrent RowFields MixGraph ConcMap HistFile App Report BadgerRace Bolt TikvProps Rocks Mysql Pg Sqlite Cassandra Fdb Redis Etcd Pegasus S3 Minio Aerospike Gc
    Mongo Dynamo Spanner Elastic MainProg Dump
begin

text \<open>
  Verification of go-ycsb, a benchmark driver for databases. A \<^emph>\<open>workload\<close> draws keys, fields and operations from random \<^emph>\<open>generators\<close> and calls the methods of a \<^emph>\<open>database\<close> (the Go interface
  \<open>ycsb.DB\<close>); an \<^emph>\<open>adapter\<close> implements them over a store. The \<^emph>\<open>client\<close> runs one worker goroutine per thread, each of which asks the workload for one operation after the other; between workload and
  adapter sits a wrapper that hands the duration of each call to the \<^emph>\<open>measurement\<close>. The \<^emph>\<open>commands\<close> set all this up from property files and the command line, and a tool reads the printed results.

  \<^bold>\<open>How Go is modelled.\<close> A call returns a value of the type \<open>go\<close> of \<open>GoPrelude\<close>: \<open>Ret\<close>, \<open>Panic\<close>, \<open>Exit\<close> (the process ends) or \<open>Hang\<close> (the fuel of a loop has run out). A Go error is a value: \<open>error option\<close>, or \<open>error + 'a\<close> next to a result.
  \<open>int\<close> and \<open>int64\<close> are \<^typ>\<open>int\<close> with the wrap-around written as \<open>i64\<close>; \<open>uint64\<close> and bytes are words. A struct is a record, a method a function that returns the changed record. A map over which the code
  iterates is an association list with distinct keys in the order of the iteration, so a theorem for all lists is one for every iteration order. A random source is a stream of raw draws, and theorems for all streams hold for
  every seed. \<open>float64\<close> is exact real arithmetic rounded to binary64 after each operation. Code of other packages (storage engines, clients of services, the file system, \<open>math\<close>, HdrHistogram, the property library) is a record of
  functions over an arbitrary state; what a theorem needs of it is a predicate named \<open>..._laws\<close> that states documented behaviour, and the witness of the theorem instantiates it with a concrete store.

  \<^bold>\<open>Theories and sources.\<close> Paths are below \<^verbatim>\<open>src/\<close>.

  \<^item> Prelude: \<open>GoPrelude\<close>, \<open>GoStrings\<close> (packages \<open>strings\<close>, \<open>strconv\<close>), \<open>Float64\<close>, \<open>Rand\<close> (\<open>math/rand\<close>), \<open>Props\<close> (\<^verbatim>\<open>pkg/prop/prop.go\<close>), \<open>KVSpec\<close> (the interface of a key-value map).
  \<^item> Utilities: \<open>Hash\<close> (\<^verbatim>\<open>pkg/util/hash.go\<close>), \<open>RowCodec\<close> (\<^verbatim>\<open>pkg/util/row.go\<close>), \<open>RowFields\<close> (\<^verbatim>\<open>pkg/util/core.go\<close>), \<open>ConcMap\<close> (\<^verbatim>\<open>pkg/util/concurrent_map.go\<close>), the spin lock in \<open>AckCounter\<close>
    (\<^verbatim>\<open>pkg/util/spinlock.go\<close>), buffers in \<open>RowStore\<close> and \<open>Workload\<close> (\<^verbatim>\<open>pkg/util/util.go\<close>), conversions in \<open>DocStore\<close> (\<^verbatim>\<open>pkg/util/hack.go\<close>), TLS in \<open>Redis\<close> (\<^verbatim>\<open>pkg/util/tls.go\<close>), tables in
    \<open>Measurement\<close> (\<^verbatim>\<open>pkg/util/output.go\<close>).
  \<^item> Generators, \<^verbatim>\<open>pkg/generator\<close>: \<open>Generators\<close>, \<open>HistFile\<close>, \<open>AckCounter\<close> with \<open>AckConcurrent\<close>, \<open>Zipf\<close>, \<open>MixGraph\<close>. Ranges, the sequences of the counters, what \<open>Last\<close> returns, and the settings for which drawing panics. For
    the acknowledged counter a step relation with one step per memory access shows that the spin lock excludes and that \<open>Last\<close> never passes a key that is not acknowledged.
  \<^item> Databases and workload: \<open>YcsbDB\<close> (\<^verbatim>\<open>pkg/ycsb\<close>), \<open>Workload\<close> with \<open>WorkloadProps\<close> (\<^verbatim>\<open>pkg/workload/core.go\<close>), \<open>EndToEnd\<close> (the workload over a database).
  \<^item> Measurement and client: \<open>Measurement\<close> with \<open>MeasurementProps\<close> (\<^verbatim>\<open>pkg/measurement\<close>), \<open>Client\<close> with \<open>ClientProps\<close> and \<open>ClientLoad\<close> (\<^verbatim>\<open>pkg/client\<close>). \<open>Client.Run\<close> is a step relation over the rounds of the
    goroutines; an invariant of its reachable states shows that a finished load has stored every key.
  \<^item> Commands: \<open>App\<close> (\<^verbatim>\<open>cmd/go-ycsb/main.go\<close>, \<^verbatim>\<open>client.go\<close>, \<^verbatim>\<open>shell.go\<close>), \<open>MainProg\<close> (\<open>main\<close> and the registration of the packages), \<open>Gc\<close> (\<^verbatim>\<open>cmd/go-ycsb/gc.go\<close>), \<open>Report\<close> (\<^verbatim>\<open>tool/report.go\<close>), \<open>Dump\<close> (\<^verbatim>\<open>readBadgerData.go\<close>).
  \<^item> Adapters over byte stores: \<open>Badger\<close> with \<open>BadgerRace\<close>, \<open>Bolt\<close>, \<open>Tikv\<close> with \<open>TikvProps\<close>, \<open>Rocks\<close>, \<open>Fdb\<close>, on the row codec and \<open>RowStore\<close>.
  \<^item> Adapters for SQL: \<open>SqlText\<close> (the statements as a grammar with a parser and a meaning), \<open>SqlConn\<close> (connections and the statement cache), \<open>Mysql\<close>, \<open>Pg\<close>, \<open>Sqlite\<close>, \<open>Cassandra\<close>, \<open>Spanner\<close>.
  \<^item> Adapters for document and object stores: \<open>Json\<close>, \<open>DocStore\<close>, \<open>Redis\<close>, \<open>Etcd\<close>, \<open>Pegasus\<close>, \<open>S3\<close>, \<open>Minio\<close>, \<open>Aerospike\<close>, \<open>Mongo\<close>, \<open>Dynamo\<close>, \<open>Elastic\<close>. \<open>Basic\<close> is the database that only prints.
    Each adapter theory models the file \<^verbatim>\<open>db.go\<close> of the directory below \<^verbatim>\<open>db/\<close> that it names.

  \<^bold>\<open>Interfaces.\<close> \<open>last_gen\<close> and \<open>ranged_gen\<close> are what the workload relies on in a generator, \<open>rounding\<close> what the generators rely on in the arithmetic, \<open>kv_map\<close> the laws of a map. \<open>row_db\<close> (theory \<open>RowStore\<close>) is the contract of a
  database: an invariant, the table of rows that a state stands for, and what \<open>Insert\<close>, \<open>Update\<close>, \<open>Delete\<close> and \<open>Read\<close> do to it; inside it a run of any admissible sequence of operations is shown to return what it returns on the
  table. The stores disagree on inserts of existing rows, partial updates, and reads of missing rows; \<open>policy_db\<close> (theory \<open>RowPolicy\<close>) is the contract with these choices as a parameter, and \<open>row_db\<close> gives it for the standard
  policy. \<open>composed_key\<close> is what a store needs of the way in which table and key are joined. \<open>row_db_threads\<close> adds the start and end of worker threads, \<open>measurer_view\<close> is what the measurement relies on in a measurer.
  Every one of them is interpreted on the definitions of the model: \<open>row_db\<close> for Badger, BoltDB, both TiKV clients, RocksDB and FoundationDB; \<open>policy_db\<close> for MySQL, PostgreSQL, SQLite, Cassandra, Spanner, Redis with
  hashes and with strings, etcd, Pegasus, S3, MinIO, Aerospike and DynamoDB. The adapters for MongoDB and Elasticsearch keep no such contract, since one tells missing rows apart on every operation and the other loses updates;
  their theories state what each operation does instead.

  \<^bold>\<open>What is shown.\<close>

  \<^item> \<^emph>\<open>Data.\<close> Variable-length integers, rows, JSON rows, histogram files, the raw report and the printed summary are read back as they were written. Key names do not collide. The fields that a workload uses are those of
    the codec made from the same properties.
  \<^item> \<^emph>\<open>Generators and workload.\<close> Drawing returns a value in range, keys of transactions are loaded keys, operations have a positive proportion; a load inserts each of its keys once and in order; rows written for the data
    integrity check verify, and no others do.
  \<^item> \<^emph>\<open>Adapters.\<close> Each with a contract refines a table of rows for every admissible sequence of operations under the laws of its store, many of them from their creation on; scans return the rows at the first keys from the start key on, where they do; statement
    texts are read as the commands they are meant to be. Where an adapter does something else, a lemma says what.
  \<^item> \<^emph>\<open>Client.\<close> The wrapper is transparent and measures each call once; the shares of the workers add up; their loops end; a load by any number of threads in any interleaving is complete and can always go on to its end. The
    process ends by force only on a second signal or after its limit, and otherwise closes database and workload in order; registration never panics.
  \<^item> \<^emph>\<open>Errors.\<close> The paths on which the code does not do what its comments or messages say are theorems too, among them the inverted retry loop, the race of the byte counter and the lost updates over Aerospike.

  \<^bold>\<open>Loops and fuel.\<close> Loops over data are structural recursions. Three kinds of loops may run on: the retry of \<open>optimisticTx\<close>, for which fuel \<open>n + 1\<close> suffices when at most \<open>n\<close> commits find the database busy; the paging of the S3
  listing, for which any fuel above the number of stored keys suffices; and the loop of a worker, for which the rounds of the warm-up and those of its share suffice. Each bound is proved, and running out of fuel is the outcome
  \<open>Hang\<close>, which no conclusion allows. The wait for compaction of Badger has its deadline as the measure.

  \<^bold>\<open>Not modelled.\<close> The recycling of value buffers in the pool of the workload, and the sharing of memory between a string and a slice that \<^verbatim>\<open>hack.go\<close> makes; sleeping, and the periodic summary of \<open>Client.Run\<close>, which only prints;
  console output and the formatting of numbers, except where something reads it again; the command line parser and the profiling server of \<^verbatim>\<open>main.go\<close>; the global configuration of the TiKV client; the environment variable
  with the credentials for Spanner; fused multiply-add and hexadecimal floats; text that is not ASCII; the quoting of \<open>%q\<close> in messages; the cleaning of paths by \<open>path.Join\<close>; the difference between nil and empty slices where the code does
  not ask for it; the back-off between the retries of the Elasticsearch client. The interface \<open>Workload\<close> has a single implementation and \<open>Measurer\<close> is a sum of its two, so neither is a record. The files \<^verbatim>\<open>doc.go\<close> hold package clauses only.
\<close>

end
